(* ===== verification/Prelude.thy ===== *)
theory Prelude
  imports Main "HOL-Library.Sublist"
begin

text \<open>
  Shared vocabulary of the development: the collections of rewrite rules that carry the
  component proofs, results of fallible Go functions as sums, Go strings as byte lists with
  the two library functions the code calls everywhere (\<^verbatim>\<open>strings.TrimSpace\<close> and the
  lowercase-hexadecimal test), relational tables as lists of rows with the three SQL
  statements the store issues (select by key, update where, count of updated rows), and the
  generic list lemmas about them.
\<close>

named_theorems table_simps \<open>rewrite rules for selections and updates of tables\<close>
named_theorems effect_intros \<open>successful runs of transaction bodies\<close>

subsection \<open>Strings, identifiers, instants\<close>

text \<open>
  A Go \<^verbatim>\<open>string\<close> is a sequence of bytes, as is Isabelle's \<^typ>\<open>string\<close>. An instant is a number
  of nanoseconds since Go's zero time, so \<^verbatim>\<open>time.Time.IsZero\<close> is equality with 0.
\<close>

type_synonym bytes = string
type_synonym instant = int

abbreviation byte_val :: "char \<Rightarrow> nat" where
  "byte_val c \<equiv> of_char c"

text \<open>\<^verbatim>\<open>unicode.IsSpace\<close> on UTF-8: the encodings of the 25 white-space code points.\<close>

definition go_spaces :: "bytes list" where
  "go_spaces =
     [[CHR 0x20], [CHR 0x0A], [CHR 0x09], [CHR 0x0D], [CHR 0x0B], [CHR 0x0C],
      [CHR 0xC2, CHR 0x85], [CHR 0xC2, CHR 0xA0], [CHR 0xE1, CHR 0x9A, CHR 0x80],
      [CHR 0xE2, CHR 0x80, CHR 0x80], [CHR 0xE2, CHR 0x80, CHR 0x81], [CHR 0xE2, CHR 0x80, CHR 0x82],
      [CHR 0xE2, CHR 0x80, CHR 0x83], [CHR 0xE2, CHR 0x80, CHR 0x84], [CHR 0xE2, CHR 0x80, CHR 0x85],
      [CHR 0xE2, CHR 0x80, CHR 0x86], [CHR 0xE2, CHR 0x80, CHR 0x87], [CHR 0xE2, CHR 0x80, CHR 0x88],
      [CHR 0xE2, CHR 0x80, CHR 0x89], [CHR 0xE2, CHR 0x80, CHR 0x8A], [CHR 0xE2, CHR 0x80, CHR 0xA8],
      [CHR 0xE2, CHR 0x80, CHR 0xA9], [CHR 0xE2, CHR 0x80, CHR 0xAF], [CHR 0xE2, CHR 0x81, CHR 0x9F],
      [CHR 0xE3, CHR 0x80, CHR 0x80]]"

lemma go_spaces_nonempty: "p \<in> set go_spaces \<Longrightarrow> 0 < length p"
  by (auto simp: go_spaces_def)

text \<open>
  \<^verbatim>\<open>strings.TrimSpace\<close>: drop leading white-space runes, then trailing ones. Reading the last
  rune backwards finds exactly a suffix that is the encoding of one rune, so the trailing
  loop is the leading loop on the reversed bytes with reversed encodings.
\<close>

function trim_with :: "bytes list \<Rightarrow> bytes \<Rightarrow> bytes" where
  "trim_with ps s =
     (case find (\<lambda>p. p \<noteq> [] \<and> prefix p s) ps of
        None \<Rightarrow> s
      | Some p \<Rightarrow> trim_with ps (drop (length p) s))"
  by pat_completeness auto
termination
proof (relation "measure (\<lambda>(ps, s). length s)", goal_cases)
  case (2 ps s p)
  then have "p \<noteq> []" "prefix p s"
    by (auto simp: find_Some_iff)
  then show ?case
    by (auto simp: prefix_def)
qed simp

declare trim_with.simps [simp del]

definition trim_space :: "bytes \<Rightarrow> bytes" where
  "trim_space s = rev (trim_with (map rev go_spaces) (rev (trim_with go_spaces s)))"

definition blank :: "bytes \<Rightarrow> bool" where
  "blank s \<longleftrightarrow> trim_space s = []"

lemma trim_with_Nil [simp]: "trim_with ps [] = []"
proof -
  have "find (\<lambda>p. p \<noteq> [] \<and> prefix p []) ps = None"
    by (auto simp: find_None_iff)
  then show ?thesis by (simp add: trim_with.simps)
qed

lemma blank_Nil [simp]: "blank []"
  by (simp add: blank_def trim_space_def)

definition lower_hex :: "char \<Rightarrow> bool" where
  "lower_hex c \<longleftrightarrow> c \<in> set ''0123456789abcdef''"

subsection \<open>Fallible results\<close>

text \<open>A Go function \<^verbatim>\<open>(T, error)\<close> is a sum; \<open>Inl\<close> is the error, returned early by \<open>rbind\<close>.\<close>

type_synonym ('e, 's, 'a) tx = "'s \<Rightarrow> 'e + ('a \<times> 's)"

definition tx_return :: "'a \<Rightarrow> ('e, 's, 'a) tx" where
  "tx_return x = (\<lambda>s. Inr (x, s))"

definition tx_fail :: "'e \<Rightarrow> ('e, 's, 'a) tx" where
  "tx_fail e = (\<lambda>s. Inl e)"

definition tx_bind :: "('e, 's, 'a) tx \<Rightarrow> ('a \<Rightarrow> ('e, 's, 'b) tx) \<Rightarrow> ('e, 's, 'b) tx" where
  "tx_bind m f = (\<lambda>s. case m s of Inl e \<Rightarrow> Inl e | Inr (x, s') \<Rightarrow> f x s')"

definition tx_guard :: "'e \<Rightarrow> bool \<Rightarrow> ('e, 's, unit) tx" where
  "tx_guard e b = (if b then tx_return () else tx_fail e)"

definition tx_read :: "('s \<Rightarrow> 'a) \<Rightarrow> ('e, 's, 'a) tx" where
  "tx_read f = (\<lambda>s. Inr (f s, s))"

definition tx_write :: "('s \<Rightarrow> 's) \<Rightarrow> ('e, 's, unit) tx" where
  "tx_write f = (\<lambda>s. Inr ((), f s))"

lemma tx_bind_Inr:
  "tx_bind m f s = Inr (y, s'') \<longleftrightarrow> (\<exists>x s'. m s = Inr (x, s') \<and> f x s' = Inr (y, s''))"
  by (auto simp: tx_bind_def split: sum.splits)

lemma tx_bind_Inl:
  "tx_bind m f s = Inl e \<longleftrightarrow>
     m s = Inl e \<or> (\<exists>x s'. m s = Inr (x, s') \<and> f x s' = Inl e)"
  by (auto simp: tx_bind_def split: sum.splits)

lemma tx_return_Inr: "tx_return x s = Inr (y, s') \<longleftrightarrow> y = x \<and> s' = s"
  by (auto simp: tx_return_def)

lemma tx_fail_Inr: "tx_fail e s = Inr r \<longleftrightarrow> False"
  by (simp add: tx_fail_def)

lemma tx_guard_Inr: "tx_guard e b s = Inr (u, s') \<longleftrightarrow> b \<and> s' = s"
  by (auto simp: tx_guard_def tx_return_def tx_fail_def)

lemma tx_read_Inr: "tx_read f s = Inr (x, s') \<longleftrightarrow> x = f s \<and> s' = s"
  by (auto simp: tx_read_def)

lemma tx_write_Inr: "tx_write f s = Inr (u, s') \<longleftrightarrow> s' = f s"
  by (auto simp: tx_write_def)

lemmas tx_Inr = tx_bind_Inr tx_return_Inr tx_fail_Inr tx_guard_Inr tx_read_Inr tx_write_Inr

lemmas tx_eval = tx_bind_def tx_return_def tx_fail_def tx_guard_def tx_read_def tx_write_def

subsection \<open>Tables\<close>

definition update_where :: "('r \<Rightarrow> bool) \<Rightarrow> ('r \<Rightarrow> 'r) \<Rightarrow> 'r list \<Rightarrow> 'r list" where
  "update_where P f rows = map (\<lambda>r. if P r then f r else r) rows"

definition count_where :: "('r \<Rightarrow> bool) \<Rightarrow> 'r list \<Rightarrow> nat" where
  "count_where P rows = length (filter P rows)"

lemma set_update_where:
  "set (update_where P f rows) = {f r |r. r \<in> set rows \<and> P r} \<union> {r \<in> set rows. \<not> P r}"
  by (auto simp: update_where_def)

lemma map_update_where:
  "(\<And>r. g (f r) = g r) \<Longrightarrow> map g (update_where P f rows) = map g rows"
  by (simp add: update_where_def)

lemma length_update_where [simp]: "length (update_where P f rows) = length rows"
  by (simp add: update_where_def)

lemma filter_update_where:
  "(\<And>r. Q (f r) = Q r) \<Longrightarrow> filter Q (update_where P f rows) = update_where P f (filter Q rows)"
  by (induction rows) (auto simp: update_where_def)

lemma find_update_where:
  "(\<And>r. Q (f r) = Q r) \<Longrightarrow>
     find Q (update_where P f rows) = map_option (\<lambda>r. if P r then f r else r) (find Q rows)"
  by (induction rows) (auto simp: update_where_def)

lemma find_append: "find P (xs @ ys) = (case find P xs of None \<Rightarrow> find P ys | Some x \<Rightarrow> Some x)"
  by (induction xs) auto

lemma find_SomeD: "find P xs = Some x \<Longrightarrow> x \<in> set xs \<and> P x"
  by (auto simp: find_Some_iff)

lemma find_unique:
  assumes d: "distinct (map k xs)" and x: "x \<in> set xs" "P x"
    and u: "\<forall>y \<in> set xs. P y \<longrightarrow> k y = k x"
  shows "find P xs = Some x"
proof -
  from x obtain y where y: "find P xs = Some y"
    by (cases "find P xs") (auto simp: find_None_iff)
  then have "y \<in> set xs" "P y" by (auto dest: find_SomeD)
  moreover from this u have "k y = k x" by blast
  ultimately have "y = x"
    using d x(1) by (auto simp: distinct_map dest: inj_onD)
  with y show ?thesis by simp
qed

lemma count_where_one:
  "count_where P rows = 1 \<Longrightarrow> \<exists>r. r \<in> set rows \<and> P r \<and> (\<forall>r' \<in> set rows. P r' \<longrightarrow> r' = r)"
proof -
  assume "count_where P rows = 1"
  then obtain r where "filter P rows = [r]"
    by (auto simp: count_where_def length_Suc_conv)
  then have "set (filter P rows) = {r}" by simp
  then show ?thesis by auto
qed

lemma count_where_pos: "0 < count_where P rows \<longleftrightarrow> (\<exists>r \<in> set rows. P r)"
  by (auto simp: count_where_def filter_empty_conv)

lemma count_where_cong:
  "(\<And>r. r \<in> set rows \<Longrightarrow> P r = Q r) \<Longrightarrow> count_where P rows = count_where Q rows"
  by (simp add: count_where_def cong: filter_cong)

lemma count_where_distinct_le:
  assumes d: "distinct (map k rows)" and u: "\<And>r r'. P r \<Longrightarrow> P r' \<Longrightarrow> k r = k r'"
  shows "count_where P rows \<le> 1"
proof (rule ccontr)
  assume "\<not> count_where P rows \<le> 1"
  then obtain a b zs where f: "filter P rows = a # b # zs"
    unfolding count_where_def
    by (cases "filter P rows"; cases "tl (filter P rows)") auto
  have "distinct (map k (filter P rows))"
    using d by (rule distinct_map_filter)
  with f have "k a \<noteq> k b" by simp
  moreover from f have "{a, b} \<subseteq> set (filter P rows)" by simp
  then have "P a" "P b" by auto
  ultimately show False using u by blast
qed

end
