(* ===== verification/Digest.thy ===== *)
theory Digest
  imports Prelude "HOL-Library.Word"
begin

unbundle bit_operations_syntax

text \<open>
  The byte-level library functions the code relies on: UTF-8 validity (\<^verbatim>\<open>unicode/utf8\<close>),
  hexadecimal encoding (\<^verbatim>\<open>encoding/hex\<close>) and SHA-256 (\<^verbatim>\<open>crypto/sha256\<close>), the last over 32-bit
  words whose additions wrap around. The store keys idempotency on SHA-256 digests and
  stores diagnostics as their hexadecimal form, so the shape of a digest (32 bytes, 64
  lowercase hexadecimal digits) is what the components use of it.
\<close>

subsection \<open>UTF-8\<close>

definition in_range :: "nat \<Rightarrow> nat \<Rightarrow> char \<Rightarrow> bool" where
  "in_range lo hi c \<longleftrightarrow> lo \<le> byte_val c \<and> byte_val c \<le> hi"

abbreviation cont_byte :: "char \<Rightarrow> bool" where
  "cont_byte \<equiv> in_range 0x80 0xBF"

text \<open>The number of bytes of the valid rune at the front, 0 where there is none.\<close>

definition rune_len :: "bytes \<Rightarrow> nat" where
  "rune_len s =
     (case s of
        [] \<Rightarrow> 0
      | a # t \<Rightarrow>
          if in_range 0 0x7F a then 1
          else if in_range 0xC2 0xDF a then
            (case t of b # _ \<Rightarrow> if cont_byte b then 2 else 0 | _ \<Rightarrow> 0)
          else if in_range 0xE0 0xEF a then
            (case t of
               b # c # _ \<Rightarrow>
                 if (if byte_val a = 0xE0 then in_range 0xA0 0xBF b
                     else if byte_val a = 0xED then in_range 0x80 0x9F b
                     else cont_byte b) \<and> cont_byte c then 3 else 0
             | _ \<Rightarrow> 0)
          else if in_range 0xF0 0xF4 a then
            (case t of
               b # c # d # _ \<Rightarrow>
                 if (if byte_val a = 0xF0 then in_range 0x90 0xBF b
                     else if byte_val a = 0xF4 then in_range 0x80 0x8F b
                     else cont_byte b) \<and> cont_byte c \<and> cont_byte d then 4 else 0
             | _ \<Rightarrow> 0)
          else 0)"

function utf8_valid :: "bytes \<Rightarrow> bool" where
  "utf8_valid s =
     (if s = [] then True
      else if rune_len s = 0 then False
      else utf8_valid (drop (rune_len s) s))"
  by pat_completeness auto
termination
  by (relation "measure length") auto

declare utf8_valid.simps [simp del]

lemma rune_len_ascii: "in_range 0 0x7F c \<Longrightarrow> rune_len (c # s) = 1"
  by (simp add: rune_len_def)

lemma utf8_valid_ascii: "\<forall>c \<in> set s. in_range 0 0x7F c \<Longrightarrow> utf8_valid s"
  by (induction s) (simp_all add: utf8_valid.simps rune_len_ascii)

subsection \<open>Hexadecimal\<close>

definition hex_digit :: "nat \<Rightarrow> char" where
  "hex_digit n = ''0123456789abcdef'' ! n"

definition hex_encode :: "bytes \<Rightarrow> string" where
  "hex_encode s = concat (map (\<lambda>c. [hex_digit (byte_val c div 16), hex_digit (byte_val c mod 16)]) s)"

definition hex_value :: "char \<Rightarrow> nat option" where
  "hex_value c =
     (let n = byte_val c in
      if 48 \<le> n \<and> n \<le> 57 then Some (n - 48)
      else if 97 \<le> n \<and> n \<le> 102 then Some (n - 87)
      else if 65 \<le> n \<and> n \<le> 70 then Some (n - 55)
      else None)"

text \<open>\<^verbatim>\<open>hex.DecodeString\<close>: both cases are accepted, an odd length is an error.\<close>

fun hex_decode :: "string \<Rightarrow> bytes option" where
  "hex_decode [] = Some []"
| "hex_decode [c] = None"
| "hex_decode (c # d # s) =
     (case (hex_value c, hex_value d, hex_decode s) of
        (Some h, Some l, Some r) \<Rightarrow> Some (char_of (16 * h + l) # r)
      | _ \<Rightarrow> None)"

lemma length_hex_encode [simp]: "length (hex_encode s) = 2 * length s"
  by (induction s) (simp_all add: hex_encode_def)

lemma lower_hex_digit: "n < 16 \<Longrightarrow> lower_hex (hex_digit n)"
proof -
  assume "n < 16"
  then have "hex_digit n \<in> set ''0123456789abcdef''"
    unfolding hex_digit_def by (intro nth_mem) simp
  then show ?thesis by (simp only: lower_hex_def)
qed

lemma lower_hex_encode: "c \<in> set (hex_encode s) \<Longrightarrow> lower_hex c"
proof -
  assume "c \<in> set (hex_encode s)"
  then obtain b where "c = hex_digit (byte_val b div 16) \<or> c = hex_digit (byte_val b mod 16)"
    by (auto simp: hex_encode_def)
  moreover have "byte_val b < 256"
    by (metis of_char_mod_256 mod_less_divisor zero_less_numeral)
  then have "byte_val b div 16 < 16" by (simp add: div_less_iff_less_mult)
  ultimately show ?thesis by (auto intro: lower_hex_digit)
qed

subsection \<open>SHA-256\<close>

text \<open>The round constants, eight words to a number, the first in the highest bits.\<close>

definition sha_k_rows :: "nat list" where
  "sha_k_rows =
     [0x428a2f9871374491b5c0fbcfe9b5dba53956c25b59f111f1923f82a4ab1c5ed5,
      0xd807aa9812835b01243185be550c7dc372be5d7480deb1fe9bdc06a7c19bf174,
      0xe49b69c1efbe47860fc19dc6240ca1cc2de92c6f4a7484aa5cb0a9dc76f988da,
      0x983e5152a831c66db00327c8bf597fc7c6e00bf3d5a7914706ca635114292967,
      0x27b70a852e1b21384d2c6dfc53380d13650a7354766a0abb81c2c92e92722c85,
      0xa2bfe8a1a81a664bc24b8b70c76c51a3d192e819d6990624f40e3585106aa070,
      0x19a4c1161e376c082748774c34b0bcb5391c0cb34ed8aa4a5b9cca4f682e6ff3,
      0x748f82ee78a5636f84c878148cc7020890befffaa4506cebbef9a3f7c67178f2]"

definition sha_k :: "32 word list" where
  "sha_k = concat (map (\<lambda>r. map (\<lambda>i. word_of_nat (r div 2 ^ (32 * i))) (rev [0..<8])) sha_k_rows)"

definition sha_init :: "32 word list" where
  "sha_init = [0x6a09e667, 0xbb67ae85, 0x3c6ef372, 0xa54ff53a, 0x510e527f, 0x9b05688c, 0x1f83d9ab, 0x5be0cd19]"

definition rotr32 :: "nat \<Rightarrow> 32 word \<Rightarrow> 32 word" where
  "rotr32 n x = drop_bit n x OR push_bit (32 - n) x"

text \<open>The message schedule, newest word first.\<close>

fun sha_schedule :: "nat \<Rightarrow> 32 word list \<Rightarrow> 32 word list" where
  "sha_schedule 0 r = r"
| "sha_schedule (Suc n) r =
     sha_schedule n
       (((let x = r ! 1 in rotr32 17 x XOR rotr32 19 x XOR drop_bit 10 x) + r ! 6 +
         (let x = r ! 14 in rotr32 7 x XOR rotr32 18 x XOR drop_bit 3 x) + r ! 15) # r)"

fun sha_round :: "32 word list \<Rightarrow> 32 word \<times> 32 word \<Rightarrow> 32 word list" where
  "sha_round [a, b, c, d, e, f, g, h] (k, w) =
     (let t1 = h + (rotr32 6 e XOR rotr32 11 e XOR rotr32 25 e) + ((e AND f) XOR (NOT e AND g)) + k + w;
          t2 = (rotr32 2 a XOR rotr32 13 a XOR rotr32 22 a) + ((a AND b) XOR (a AND c) XOR (b AND c))
      in [t1 + t2, a, b, c, d + t1, e, f, g])"
| "sha_round s kw = s"

fun sha_words :: "bytes \<Rightarrow> 32 word list" where
  "sha_words (a # b # c # d # s) =
     of_nat (((byte_val a * 256 + byte_val b) * 256 + byte_val c) * 256 + byte_val d) # sha_words s"
| "sha_words s = []"

definition sha_block :: "32 word list \<Rightarrow> bytes \<Rightarrow> 32 word list" where
  "sha_block s b =
     map2 (+) s (foldl sha_round s (zip sha_k (rev (sha_schedule 48 (rev (sha_words b))))))"

definition be_bytes :: "nat \<Rightarrow> nat \<Rightarrow> bytes" where
  "be_bytes k n = map (\<lambda>i. char_of (n div 256 ^ i mod 256)) (rev [0..<k])"

definition sha_pad :: "bytes \<Rightarrow> bytes" where
  "sha_pad s =
     s @ [CHR 0x80] @ replicate ((119 - length s mod 64) mod 64) (CHR 0x00) @ be_bytes 8 (8 * length s)"

fun sha_blocks :: "nat \<Rightarrow> 32 word list \<Rightarrow> bytes \<Rightarrow> 32 word list" where
  "sha_blocks 0 st s = st"
| "sha_blocks (Suc n) st s = sha_blocks n (sha_block st (take 64 s)) (drop 64 s)"

definition sha256 :: "bytes \<Rightarrow> bytes" where
  "sha256 s =
     (let p = sha_pad s
      in concat (map (\<lambda>w. be_bytes 4 (unat w)) (sha_blocks (length p div 64) sha_init p)))"

definition hex_sha256 :: "bytes \<Rightarrow> string" where
  "hex_sha256 s = hex_encode (sha256 s)"

lemma length_be_bytes [simp]: "length (be_bytes k n) = k"
  by (simp add: be_bytes_def)

lemma length_sha_round: "length s = 8 \<Longrightarrow> length (sha_round s kw) = 8"
  by (cases "(s, kw)" rule: sha_round.cases) (auto simp: Let_def)

lemma length_sha_foldl: "length s = 8 \<Longrightarrow> length (foldl sha_round s kws) = 8"
  by (induction kws arbitrary: s) (simp_all add: length_sha_round)

lemma length_sha_blocks: "length st = 8 \<Longrightarrow> length (sha_blocks n st s) = 8"
  by (induction n arbitrary: st s) (simp_all add: sha_block_def length_sha_foldl)

lemma length_sha256 [simp]: "length (sha256 s) = 32"
proof -
  have "length (sha_blocks n sha_init p) = 8" for n p
    by (rule length_sha_blocks) (simp add: sha_init_def)
  then show ?thesis
    by (simp add: sha256_def Let_def length_concat o_def sum_list_triv)
qed

lemma length_hex_sha256 [simp]: "length (hex_sha256 s) = 64"
  by (simp add: hex_sha256_def)

lemma lower_hex_sha256: "c \<in> set (hex_sha256 s) \<Longrightarrow> lower_hex c"
  by (simp add: hex_sha256_def lower_hex_encode)

end
