(* ===== verification/Json.thy ===== *)
theory Json
  imports Digest
begin

text \<open>
  What the program uses of \<^verbatim>\<open>encoding/json\<close>: documents as trees, \<^verbatim>\<open>json.Marshal\<close> with its HTML-safe
  escaping, \<^verbatim>\<open>json.Compact\<close>, and a recursive-descent reader behind \<^verbatim>\<open>json.Valid\<close> and
  \<^verbatim>\<open>json.Unmarshal\<close>. A \<^verbatim>\<open>json.RawMessage\<close> inside a larger document keeps its text (\<open>JRaw\<close>).
  The reader takes fuel; \<open>parse_value_fuel\<close> shows that the fuel \<open>json_parse\<close> passes is
  always enough, so running out is never the reason a document is refused.
\<close>

datatype json =
    JNull
  | JBool bool
  | JNum string
  | JStr string
  | JArr "json list"
  | JObj "(string \<times> json) list"
  | JRaw string

subsection \<open>Numbers as decimal text\<close>

fun show_nat :: "nat \<Rightarrow> string" where
  "show_nat n =
     (if n < 10 then [char_of (48 + n)] else show_nat (n div 10) @ [char_of (48 + n mod 10)])"

declare show_nat.simps [simp del]

definition show_int :: "int \<Rightarrow> string" where
  "show_int i = (if i < 0 then CHR ''-'' # show_nat (nat (- i)) else show_nat (nat i))"

definition JInt :: "int \<Rightarrow> json" where
  "JInt i = JNum (show_int i)"

abbreviation JNat :: "nat \<Rightarrow> json" where
  "JNat n \<equiv> JInt (int n)"

subsection \<open>Printing\<close>

definition ls_ps :: "bytes \<Rightarrow> bool" where
  "ls_ps s \<longleftrightarrow>
     prefix [CHR 0xE2, CHR 0x80, CHR 0xA8] s \<or> prefix [CHR 0xE2, CHR 0x80, CHR 0xA9] s"

definition ls_ps_escape :: "bytes \<Rightarrow> string" where
  "ls_ps_escape s =
     (if prefix [CHR 0xE2, CHR 0x80, CHR 0xA8] s then [CHR 0x5C] @ ''u2028'' else [CHR 0x5C] @ ''u2029'')"

text \<open>One byte below 0x80 of a string, as \<^verbatim>\<open>encoding/json\<close> writes it with HTML escaping on.\<close>

definition escape_byte :: "char \<Rightarrow> string" where
  "escape_byte c =
     (if c = CHR 0x5C \<or> c = CHR 0x22 then [CHR 0x5C, c]
      else if c = CHR 0x08 then [CHR 0x5C, CHR ''b'']
      else if c = CHR 0x0C then [CHR 0x5C, CHR ''f'']
      else if c = CHR 0x0A then [CHR 0x5C, CHR ''n'']
      else if c = CHR 0x0D then [CHR 0x5C, CHR ''r'']
      else if c = CHR 0x09 then [CHR 0x5C, CHR ''t'']
      else if byte_val c < 0x20 \<or> c = CHR ''<'' \<or> c = CHR ''>'' \<or> c = CHR ''&''
        then [CHR 0x5C] @ ''u00'' @ [hex_digit (byte_val c div 16), hex_digit (byte_val c mod 16)]
      else [c])"

function json_escape :: "bytes \<Rightarrow> string" where
  "json_escape [] = []"
| "json_escape (c # s) =
     (if byte_val c < 0x80 then escape_byte c @ json_escape s
      else if rune_len (c # s) = 0 then [CHR 0x5C] @ ''ufffd'' @ json_escape s
      else if ls_ps (c # s) then ls_ps_escape (c # s) @ json_escape (drop 2 s)
      else take (rune_len (c # s)) (c # s) @ json_escape (drop (rune_len (c # s)) (c # s)))"
  by pat_completeness auto
termination
  by (relation "measure length") auto

declare json_escape.simps(2) [simp del]

definition json_quote :: "bytes \<Rightarrow> string" where
  "json_quote s = [CHR 0x22] @ json_escape s @ [CHR 0x22]"

text \<open>
  \<^verbatim>\<open>json.Compact\<close>, and with \<open>html\<close> the compaction \<^verbatim>\<open>json.Marshal\<close> applies to a raw message. The
  second argument says whether the byte is inside a string, the third whether it is escaped.
\<close>

function json_compact_at :: "bool \<Rightarrow> bool \<Rightarrow> bool \<Rightarrow> bytes \<Rightarrow> bytes" where
  "json_compact_at html instr esc [] = []"
| "json_compact_at html instr esc (c # s) =
     (if html \<and> (c = CHR ''<'' \<or> c = CHR ''>'' \<or> c = CHR ''&'')
        then escape_byte c @ json_compact_at html instr False s
      else if html \<and> ls_ps (c # s) then ls_ps_escape (c # s) @ json_compact_at html instr False (drop 2 s)
      else if instr then
        c # json_compact_at html (esc \<or> c \<noteq> CHR 0x22) (\<not> esc \<and> c = CHR 0x5C) s
      else if c \<in> {CHR 0x20, CHR 0x09, CHR 0x0A, CHR 0x0D} then json_compact_at html False False s
      else c # json_compact_at html (c = CHR 0x22) False s)"
  by pat_completeness auto
termination
  by (relation "measure (\<lambda>(h, i, e, s). length s)") auto

definition json_compact :: "bytes \<Rightarrow> bytes" where
  "json_compact = json_compact_at False False False"

definition json_compact_html :: "bytes \<Rightarrow> bytes" where
  "json_compact_html = json_compact_at True False False"

fun join_with :: "string \<Rightarrow> string list \<Rightarrow> string" where
  "join_with sep [] = []"
| "join_with sep [x] = x"
| "join_with sep (x # y # zs) = x @ sep @ join_with sep (y # zs)"

fun json_marshal :: "json \<Rightarrow> bytes" where
  "json_marshal JNull = ''null''"
| "json_marshal (JBool b) = (if b then ''true'' else ''false'')"
| "json_marshal (JNum s) = s"
| "json_marshal (JStr s) = json_quote s"
| "json_marshal (JRaw s) = json_compact_html s"
| "json_marshal (JArr vs) = ''['' @ join_with '','' (map json_marshal vs) @ '']''"
| "json_marshal (JObj fs) =
     ''{'' @ join_with '','' (map (\<lambda>(k, v). json_quote k @ '':'' @ json_marshal v) fs) @ ''}''"

subsection \<open>Reading\<close>

definition json_ws :: "char \<Rightarrow> bool" where
  "json_ws c \<longleftrightarrow> c \<in> {CHR 0x20, CHR 0x09, CHR 0x0A, CHR 0x0D}"

definition skip_ws :: "bytes \<Rightarrow> bytes" where
  "skip_ws s = dropWhile json_ws s"

definition is_digit :: "char \<Rightarrow> bool" where
  "is_digit c \<longleftrightarrow> in_range 48 57 c"

definition replacement :: bytes where
  "replacement = [CHR 0xEF, CHR 0xBF, CHR 0xBD]"

definition utf8_encode :: "nat \<Rightarrow> bytes" where
  "utf8_encode r =
     (if r < 0x80 then [char_of r]
      else if r < 0x800 then [char_of (0xC0 + r div 64), char_of (0x80 + r mod 64)]
      else if 0xD800 \<le> r \<and> r \<le> 0xDFFF \<or> 0x10FFFF < r then replacement
      else if r < 0x10000 then
        [char_of (0xE0 + r div 4096), char_of (0x80 + r div 64 mod 64), char_of (0x80 + r mod 64)]
      else [char_of (0xF0 + r div 262144), char_of (0x80 + r div 4096 mod 64),
            char_of (0x80 + r div 64 mod 64), char_of (0x80 + r mod 64)])"

definition hex4 :: "bytes \<Rightarrow> nat option" where
  "hex4 s =
     (case s of
        a # b # c # d # _ \<Rightarrow>
          (case (hex_value a, hex_value b, hex_value c, hex_value d) of
             (Some w, Some x, Some y, Some z) \<Rightarrow> Some (((w * 16 + x) * 16 + y) * 16 + z)
           | _ \<Rightarrow> None)
      | _ \<Rightarrow> None)"

definition simple_escape :: "char \<Rightarrow> char option" where
  "simple_escape c =
     (if c \<in> {CHR 0x22, CHR 0x5C, CHR ''/''} then Some c
      else if c = CHR ''b'' then Some (CHR 0x08)
      else if c = CHR ''f'' then Some (CHR 0x0C)
      else if c = CHR ''n'' then Some (CHR 0x0A)
      else if c = CHR ''r'' then Some (CHR 0x0D)
      else if c = CHR ''t'' then Some (CHR 0x09)
      else None)"

text \<open>
  The escape after \<open>\u\<close>: the decoded bytes and how many bytes were used. A surrogate pair is
  one code point, a lone surrogate the replacement character.
\<close>

definition unicode_escape :: "bytes \<Rightarrow> (bytes \<times> nat) option" where
  "unicode_escape s =
     (case hex4 s of
        None \<Rightarrow> None
      | Some r \<Rightarrow>
          if 0xD800 \<le> r \<and> r \<le> 0xDFFF then
            (case (if prefix [CHR 0x5C, CHR ''u''] (drop 4 s) then hex4 (drop 6 s) else None) of
               Some r' \<Rightarrow>
                 if r < 0xDC00 \<and> 0xDC00 \<le> r' \<and> r' \<le> 0xDFFF
                 then Some (utf8_encode (0x10000 + (r - 0xD800) * 1024 + (r' - 0xDC00)), 10)
                 else Some (replacement, 4)
             | None \<Rightarrow> Some (replacement, 4))
          else Some (utf8_encode r, 4))"

text \<open>A string after its opening quote: the decoded bytes and the rest.\<close>

function parse_string :: "bytes \<Rightarrow> (bytes \<times> bytes) option" where
  "parse_string [] = None"
| "parse_string (c # s) =
     (if c = CHR 0x22 then Some ([], s)
      else if byte_val c < 0x20 then None
      else if c = CHR 0x5C then
        (case s of
           [] \<Rightarrow> None
         | e # t \<Rightarrow>
             if e = CHR ''u'' then
               (case unicode_escape t of
                  None \<Rightarrow> None
                | Some (u, n) \<Rightarrow> map_option (\<lambda>(r, q). (u @ r, q)) (parse_string (drop n t)))
             else (case simple_escape e of
                     None \<Rightarrow> None
                   | Some x \<Rightarrow> map_option (\<lambda>(r, q). (x # r, q)) (parse_string t)))
      else if rune_len (c # s) = 0
        then map_option (\<lambda>(r, q). (replacement @ r, q)) (parse_string s)
      else map_option (\<lambda>(r, q). (take (rune_len (c # s)) (c # s) @ r, q))
             (parse_string (drop (rune_len (c # s)) (c # s))))"
  by pat_completeness auto
termination
  by (relation "measure length") auto

declare parse_string.simps [simp del]

definition digits1 :: "bytes \<Rightarrow> (bytes \<times> bytes) option" where
  "digits1 s = (let d = takeWhile is_digit s in if d = [] then None else Some (d, dropWhile is_digit s))"

definition parse_int_part :: "bytes \<Rightarrow> (bytes \<times> bytes) option" where
  "parse_int_part s =
     (case s of
        [] \<Rightarrow> None
      | c # t \<Rightarrow> if c = CHR ''0'' then Some ([c], t) else if is_digit c then digits1 s else None)"

definition parse_frac :: "bytes \<Rightarrow> (bytes \<times> bytes) option" where
  "parse_frac s =
     (case s of
        c # t \<Rightarrow> if c = CHR ''.'' then map_option (\<lambda>(d, r). (c # d, r)) (digits1 t) else Some ([], s)
      | [] \<Rightarrow> Some ([], []))"

definition parse_exp :: "bytes \<Rightarrow> (bytes \<times> bytes) option" where
  "parse_exp s =
     (case s of
        c # t \<Rightarrow>
          if c = CHR ''e'' \<or> c = CHR ''E'' then
            (case t of
               x # u \<Rightarrow>
                 if x = CHR ''+'' \<or> x = CHR ''-''
                 then map_option (\<lambda>(d, r). (c # x # d, r)) (digits1 u)
                 else map_option (\<lambda>(d, r). (c # d, r)) (digits1 t)
             | [] \<Rightarrow> None)
          else Some ([], s)
      | [] \<Rightarrow> Some ([], []))"

definition parse_number :: "bytes \<Rightarrow> (bytes \<times> bytes) option" where
  "parse_number s =
     (let (sg, s0) = (case s of c # t \<Rightarrow> if c = CHR ''-'' then ([c], t) else ([], s) | [] \<Rightarrow> ([], s)) in
      case parse_int_part s0 of
        None \<Rightarrow> None
      | Some (i, s1) \<Rightarrow>
          (case parse_frac s1 of
             None \<Rightarrow> None
           | Some (f, s2) \<Rightarrow>
               (case parse_exp s2 of
                  None \<Rightarrow> None
                | Some (e, s3) \<Rightarrow> Some (sg @ i @ f @ e, s3))))"

definition parse_scalar :: "bytes \<Rightarrow> (json \<times> bytes) option" where
  "parse_scalar s =
     (if prefix [CHR 0x22] s then map_option (\<lambda>(x, q). (JStr x, q)) (parse_string (tl s))
      else if prefix ''true'' s then Some (JBool True, drop 4 s)
      else if prefix ''false'' s then Some (JBool False, drop 5 s)
      else if prefix ''null'' s then Some (JNull, drop 4 s)
      else map_option (\<lambda>(x, q). (JNum x, q)) (parse_number s))"

text \<open>
  Values, array elements and object members. The first argument is fuel, the second the
  nesting still allowed (\<^verbatim>\<open>encoding/json\<close> refuses nesting deeper than 10000).
\<close>

fun parse_value :: "nat \<Rightarrow> nat \<Rightarrow> bytes \<Rightarrow> (json \<times> bytes) option"
  and parse_elements :: "nat \<Rightarrow> nat \<Rightarrow> bytes \<Rightarrow> (json list \<times> bytes) option"
  and parse_members :: "nat \<Rightarrow> nat \<Rightarrow> bytes \<Rightarrow> ((string \<times> json) list \<times> bytes) option"
where
  "parse_value 0 d s = None"
| "parse_value (Suc n) d s =
     (case skip_ws s of
        [] \<Rightarrow> None
      | c # t \<Rightarrow>
          if c = CHR ''{'' then
            (if d = 0 then None
             else case skip_ws t of
               x # r \<Rightarrow> if x = CHR ''}'' then Some (JObj [], r)
                        else map_option (\<lambda>(fs, q). (JObj fs, q)) (parse_members n (d - 1) t)
             | [] \<Rightarrow> None)
          else if c = CHR ''['' then
            (if d = 0 then None
             else case skip_ws t of
               x # r \<Rightarrow> if x = CHR '']'' then Some (JArr [], r)
                        else map_option (\<lambda>(vs, q). (JArr vs, q)) (parse_elements n (d - 1) t)
             | [] \<Rightarrow> None)
          else parse_scalar (c # t))"
| "parse_elements 0 d s = None"
| "parse_elements (Suc n) d s =
     (case parse_value n d s of
        None \<Rightarrow> None
      | Some (v, r) \<Rightarrow>
          (case skip_ws r of
             c # t \<Rightarrow> if c = CHR '']'' then Some ([v], t)
                      else if c = CHR '','' then map_option (\<lambda>(vs, q). (v # vs, q)) (parse_elements n d t)
                      else None
           | [] \<Rightarrow> None))"
| "parse_members 0 d s = None"
| "parse_members (Suc n) d s =
     (case skip_ws s of
        q # t \<Rightarrow>
          if q \<noteq> CHR 0x22 then None
          else (case parse_string t of
             None \<Rightarrow> None
           | Some (k, r) \<Rightarrow>
               (case skip_ws r of
                  x # u \<Rightarrow>
                    if x \<noteq> CHR '':'' then None
                    else (case parse_value n d u of
                       None \<Rightarrow> None
                     | Some (v, w) \<Rightarrow>
                         (case skip_ws w of
                            c # y \<Rightarrow>
                              if c = CHR ''}'' then Some ([(k, v)], y)
                              else if c = CHR '','' then map_option (\<lambda>(fs, p). ((k, v) # fs, p)) (parse_members n d y)
                              else None
                          | [] \<Rightarrow> None))
                | [] \<Rightarrow> None))
      | [] \<Rightarrow> None)"

declare parse_value.simps [simp del] parse_elements.simps [simp del] parse_members.simps [simp del]

definition max_nesting :: nat where
  "max_nesting = 10000"

definition parse_fuel :: "bytes \<Rightarrow> nat" where
  "parse_fuel s = 2 * length s + 2"

definition json_parse :: "bytes \<Rightarrow> json option" where
  "json_parse s =
     (case parse_value (parse_fuel s) max_nesting s of
        Some (v, r) \<Rightarrow> if skip_ws r = [] then Some v else None
      | None \<Rightarrow> None)"

definition json_valid :: "bytes \<Rightarrow> bool" where
  "json_valid s \<longleftrightarrow> json_parse s \<noteq> None"

subsection \<open>Field access\<close>

text \<open>\<^verbatim>\<open>json_extract(payload, '$.key')\<close>: the first field of that name; raw text is read first.\<close>

fun json_resolve :: "json \<Rightarrow> json" where
  "json_resolve (JRaw s) = (case json_parse s of Some v \<Rightarrow> v | None \<Rightarrow> JNull)"
| "json_resolve v = v"

definition json_get :: "string \<Rightarrow> json \<Rightarrow> json option" where
  "json_get k v = (case json_resolve v of JObj fs \<Rightarrow> map_of fs k | _ \<Rightarrow> None)"

definition json_text :: "json option \<Rightarrow> string option" where
  "json_text v = (case v of Some (JStr s) \<Rightarrow> Some s | _ \<Rightarrow> None)"

definition extract_text :: "string list \<Rightarrow> json \<Rightarrow> string option" where
  "extract_text path v =
     json_text (foldl (\<lambda>acc k. case acc of None \<Rightarrow> None | Some w \<Rightarrow> json_get k w) (Some v) path)"

text \<open>
  \<^verbatim>\<open>json.Unmarshal\<close> into a struct with a string field: keys match up to case folding (two
  non-ASCII code points fold to ASCII letters), the last match wins, \<^verbatim>\<open>null\<close> and values of
  another type leave the field as it was. Anything but an object leaves it empty.
\<close>

fun fold_name :: "bytes \<Rightarrow> bytes" where
  "fold_name [] = []"
| "fold_name (c # s) =
     (if in_range 65 90 c then char_of (byte_val c + 32) # fold_name s
      else if prefix [CHR 0xC5, CHR 0xBF] (c # s) then CHR ''s'' # fold_name (drop 1 s)
      else if prefix [CHR 0xE2, CHR 0x84, CHR 0xAA] (c # s) then CHR ''k'' # fold_name (drop 2 s)
      else c # fold_name s)"

definition unmarshal_string :: "string \<Rightarrow> json option \<Rightarrow> string" where
  "unmarshal_string k v =
     (case v of
        Some (JObj fs) \<Rightarrow>
          foldl (\<lambda>acc (k', x). if fold_name k' = fold_name k
                               then (case x of JStr s \<Rightarrow> s | _ \<Rightarrow> acc) else acc) [] fs
      | _ \<Rightarrow> [])"

subsection \<open>The fuel is enough\<close>

lemma skip_ws_length: "length (skip_ws s) \<le> length s"
  by (simp add: skip_ws_def length_dropWhile_le)

lemma skip_ws_ConsD: "skip_ws s = c # t \<Longrightarrow> length t < length s"
  using skip_ws_length [of s] by simp

lemma parse_string_length: "parse_string s = Some (x, r) \<Longrightarrow> length r < length s"
proof (induction "length s" arbitrary: s x r rule: less_induct)
  case less
  show ?case
  proof (cases s)
    case Nil
    with less.prems show ?thesis by (simp add: parse_string.simps)
  next
    case (Cons c t)
    have rec: "length q \<le> length t" if "parse_string u = Some (y, q)" "length u \<le> length t" for u y q
      using less.hyps [of u y q] that Cons by simp
    have "rune_len s \<noteq> 0 \<Longrightarrow> length (drop (rune_len s) s) \<le> length t"
      using Cons by simp
    with less.prems have "length r \<le> length t"
      unfolding Cons parse_string.simps(2)
      by (auto split: if_splits list.splits option.splits prod.splits dest!: rec)
    with Cons show ?thesis by simp
  qed
qed

lemma digits1_length: "digits1 s = Some (x, r) \<Longrightarrow> length r \<le> length s"
  by (auto simp: digits1_def Let_def length_dropWhile_le split: if_splits)

lemma parse_frac_length: "parse_frac s = Some (x, r) \<Longrightarrow> length r \<le> length s"
  by (auto simp: parse_frac_def split: list.splits if_splits dest!: digits1_length)

lemma parse_exp_length: "parse_exp s = Some (x, r) \<Longrightarrow> length r \<le> length s"
  by (auto simp: parse_exp_def split: list.splits if_splits dest!: digits1_length)

lemma parse_int_part_length: "parse_int_part s = Some (x, r) \<Longrightarrow> length r < length s"
proof -
  have "length (dropWhile is_digit (c # t)) < length (c # t)" if "is_digit c" for c t
    using that by (simp add: length_dropWhile_le le_imp_less_Suc)
  then show "parse_int_part s = Some (x, r) \<Longrightarrow> length r < length s"
    by (auto simp: parse_int_part_def digits1_def Let_def split: list.splits if_splits)
qed

lemma parse_number_length: "parse_number s = Some (x, r) \<Longrightarrow> length r < length s"
  by (force simp: parse_number_def Let_def split: list.splits if_splits option.splits prod.splits
      dest!: parse_frac_length parse_exp_length parse_int_part_length)

lemma parse_scalar_length:
  assumes "parse_scalar s = Some (v, r)"
  shows "length r < length s"
proof -
  have "p \<noteq> [] \<Longrightarrow> prefix p s \<Longrightarrow> length (drop (length p) s) < length s" for p
    by (auto simp: prefix_def)
  from this [of "''true''"] this [of "''false''"] this [of "''null''"]
  show ?thesis
    using assms unfolding parse_scalar_def
    by (auto split: if_splits simp: prefix_def dest!: parse_string_length parse_number_length)
qed

lemma parse_length:
  "(parse_value n d s = Some (v, r) \<longrightarrow> length r < length s) \<and>
   (parse_elements n d s = Some (vs, r) \<longrightarrow> length r < length s) \<and>
   (parse_members n d s = Some (fs, r) \<longrightarrow> length r < length s)"
proof (induction n arbitrary: d s v vs fs r)
  case 0
  then show ?case by (simp add: parse_value.simps parse_elements.simps parse_members.simps)
next
  case (Suc n)
  have "length r < length s" if p: "parse_value (Suc n) d s = Some (v, r)"
  proof -
    from p obtain c t where ct: "skip_ws s = c # t"
      by (auto simp: parse_value.simps split: list.splits)
    have "length r \<le> length t"
      using p unfolding parse_value.simps ct
      by (auto split: list.splits if_splits dest!: skip_ws_ConsD parse_scalar_length
          Suc.IH [THEN conjunct2, THEN conjunct1, rule_format] Suc.IH [THEN conjunct2, THEN conjunct2, rule_format])
    with skip_ws_ConsD [OF ct] show ?thesis by simp
  qed
  moreover have "length r < length s" if "parse_elements (Suc n) d s = Some (vs, r)"
    using that
    by (auto simp: parse_elements.simps split: list.splits if_splits option.splits
        dest!: skip_ws_ConsD Suc.IH [THEN conjunct1, rule_format]
          Suc.IH [THEN conjunct2, THEN conjunct1, rule_format])
  moreover have "length r < length s" if "parse_members (Suc n) d s = Some (fs, r)"
    using that
    by (auto simp: parse_members.simps split: list.splits if_splits option.splits
        dest!: skip_ws_ConsD parse_string_length Suc.IH [THEN conjunct1, rule_format]
          Suc.IH [THEN conjunct2, THEN conjunct2, rule_format])
  ultimately show ?case by blast
qed

lemmas parse_value_length = parse_length [THEN conjunct1, rule_format]

lemma parse_fuel_cong:
  "(2 * length s + 2 \<le> n \<longrightarrow> 2 * length s + 2 \<le> m \<longrightarrow> parse_value n d s = parse_value m d s) \<and>
   (2 * length s + 3 \<le> n \<longrightarrow> 2 * length s + 3 \<le> m \<longrightarrow> parse_elements n d s = parse_elements m d s) \<and>
   (2 * length s + 3 \<le> n \<longrightarrow> 2 * length s + 3 \<le> m \<longrightarrow> parse_members n d s = parse_members m d s)"
proof (induction n arbitrary: m d s)
  case (Suc n)
  note IHv = Suc.IH [THEN conjunct1, rule_format]
  note IHe = Suc.IH [THEN conjunct2, THEN conjunct1, rule_format]
  note IHm = Suc.IH [THEN conjunct2, THEN conjunct2, rule_format]
  show ?case
  proof (intro conjI impI)
    assume n: "2 * length s + 2 \<le> Suc n" and m: "2 * length s + 2 \<le> m"
    then obtain m' where m': "m = Suc m'" by (cases m) auto
    have "parse_members n d' t = parse_members m' d' t" "parse_elements n d' t = parse_elements m' d' t"
      if "skip_ws s = c # t" for c t d'
      using n m m' skip_ws_ConsD [OF that] by (auto intro!: IHm IHe)
    then show "parse_value (Suc n) d s = parse_value m d s"
      unfolding m' parse_value.simps by (auto split: list.splits)
  next
    assume n: "2 * length s + 3 \<le> Suc n" and m: "2 * length s + 3 \<le> m"
    then obtain m' where m': "m = Suc m'" by (cases m) auto
    have v: "parse_value n d s = parse_value m' d s"
      using n m m' by (intro IHv) auto
    have "parse_elements n d t = parse_elements m' d t"
      if "parse_value m' d s = Some (x, r)" "skip_ws r = c # t" for x r c t
      using n m m' parse_value_length [OF that(1)] skip_ws_ConsD [OF that(2)] by (intro IHe) auto
    then show "parse_elements (Suc n) d s = parse_elements m d s"
      unfolding m' parse_elements.simps v by (auto split: option.splits list.splits)
  next
    assume n: "2 * length s + 3 \<le> Suc n" and m: "2 * length s + 3 \<le> m"
    then obtain m' where m': "m = Suc m'" by (cases m) auto
    have v: "parse_value n d u = parse_value m' d u"
      if "skip_ws s = q # t" "parse_string t = Some (k, r)" "skip_ws r = x # u" for q t k r x u
      using n m m' skip_ws_ConsD [OF that(1)] parse_string_length [OF that(2)] skip_ws_ConsD [OF that(3)]
      by (intro IHv) auto
    have "parse_members n d y = parse_members m' d y"
      if "skip_ws s = q # t" "parse_string t = Some (k, r)" "skip_ws r = x # u"
        "parse_value m' d u = Some (w, z)" "skip_ws z = c # y" for q t k r x u w z c y
      using n m m' skip_ws_ConsD [OF that(1)] parse_string_length [OF that(2)] skip_ws_ConsD [OF that(3)]
        parse_value_length [OF that(4)] skip_ws_ConsD [OF that(5)]
      by (intro IHm) auto
    with v show "parse_members (Suc n) d s = parse_members m d s"
      unfolding m' parse_members.simps by (auto split: option.splits list.splits)
  qed
qed simp

text \<open>More fuel never changes what the reader returns, so \<open>json_parse\<close> decides validity.\<close>

lemma parse_value_fuel:
  "parse_fuel s \<le> n \<Longrightarrow> parse_value n d s = parse_value (parse_fuel s) d s"
  using parse_fuel_cong [of s n "parse_fuel s" d] by (simp add: parse_fuel_def)

end
