(* ===== verification/Room_Types.thy ===== *)
theory Room_Types
  imports Json
begin

text \<open>
  The vocabulary of the room (\<^verbatim>\<open>internal/room/types.go\<close>): identifiers, request and room states,
  the commands clients send with their validation, durable and transient events, completed
  items, thread snapshots and the recovery image. Identifiers are Go strings. A string-typed
  enumeration is a datatype with one constructor per declared constant and one for any other
  text, the zero value included. The errors of the whole program are one datatype.
\<close>

type_synonym uid = nat
type_synonym seqno = nat
type_synonym room_id = string
type_synonym client_message_id = string
type_synonym thread_id = string
type_synonym turn_id = string
type_synonym item_id = string
type_synonym connection_id = string

datatype request_state =
    RequestQueued
  | RequestDispatching
  | RequestRunning
  | RequestCompleted
  | RequestFailed
  | RequestInterrupted
  | RequestNeedsReview
  | RequestOther string

datatype room_status =
    RoomReady
  | RoomRecovering
  | RoomThreadNeedsRepair
  | RoomOther string

datatype control_kind = ControlSteer | ControlCancel | ControlOther string

datatype recovery_action = RecoveryRetry | RecoverySkip | RecoveryContinue | RecoveryOther string

datatype retry_kind = RetryPrompt | RetrySteer | RetryCancel

datatype delivery_certainty = DeliveryNotSent | DeliveryUnknown

datatype runtime_process_state = RuntimeProcessRunning | RuntimeProcessStopped | RuntimeProcessOther string

fun request_state_text :: "request_state \<Rightarrow> string" where
  "request_state_text RequestQueued = ''queued''"
| "request_state_text RequestDispatching = ''dispatching''"
| "request_state_text RequestRunning = ''running''"
| "request_state_text RequestCompleted = ''completed''"
| "request_state_text RequestFailed = ''failed''"
| "request_state_text RequestInterrupted = ''interrupted''"
| "request_state_text RequestNeedsReview = ''needs-review''"
| "request_state_text (RequestOther s) = s"

fun room_status_text :: "room_status \<Rightarrow> string" where
  "room_status_text RoomReady = ''ready''"
| "room_status_text RoomRecovering = ''recovering''"
| "room_status_text RoomThreadNeedsRepair = ''thread-needs-repair''"
| "room_status_text (RoomOther s) = s"

fun recovery_action_text :: "recovery_action \<Rightarrow> string" where
  "recovery_action_text RecoveryRetry = ''retry''"
| "recovery_action_text RecoverySkip = ''skip''"
| "recovery_action_text RecoveryContinue = ''continue''"
| "recovery_action_text (RecoveryOther s) = s"

datatype err =
    ErrBlankMessage
  | ErrInvalidClientMessageID
  | ErrInvalidConnectionID
  | ErrExpectedTurnID
  | ErrInvalidControlKind
  | ErrInvalidRecovery
  | ErrInvalidTaskID
  | ErrStaleTurn
  | ErrAgentRuntimeClosed
  | ErrDeliveryNotSent
  | ErrDeliveryUnknown
  | ErrStaleRecovery
  | ErrAlreadyInitialized
  | ErrConnectionNotFound
  | ErrCorruptStore
  | ErrIdempotencyConflict
  | ErrInvalidInput
  | ErrInvalidState
  | ErrMemberNotFound
  | ErrMessageNotFound
  | ErrRoomNotFound
  | ErrAdmission
  | ErrPendingQueueFull
  | ErrMemberCapacity
  | ErrHostRole
  | ErrTaskReadOnlyRole
  | ErrTaskMissing
  | ErrTaskCompleted
  | ErrTaskBusy
  | ErrTaskRequestInvalid
  | ErrTaskAction
  | ErrTaskQuery
  | ErrTaskTitleOrSource
  | ErrTaskSource
  | ErrTaskRevision
  | ErrTaskNotFinished
  | ErrTaskNotCompleted
  | ErrPrivateTurnOpen
  | ErrNoRows
  | ErrConstraint
  | ErrStorage
  | ErrQuestionBusy
  | ErrQuestionUnsupported
  | ErrQuestionThread
  | ErrQuestionInvalid
  | ErrQuestionActive
  | ErrQuestionFault
  | ErrQuestionUnfinished
  | ErrQuestionEmpty
  | ErrCanceled
  | ErrRecoveryEventsMissing
  | ErrPersonalSender
  | ErrBotSender
  | ErrBotRole
  | ErrPersonalTurn
  | ErrAgent string
  | ErrQuestionOpen
  | ErrDeadline
  | ErrTimeFormat
  | ErrQueryTooLong

record actor =
  actor_uid :: uid
  actor_name :: string

record submit_input =
  si_task_id :: int
  si_client_message_id :: client_message_id
  si_text :: string

record steer_input =
  st_client_message_id :: client_message_id
  st_expected_turn_id :: turn_id
  st_text :: string

record cancel_input =
  ca_client_message_id :: client_message_id
  ca_expected_turn_id :: turn_id

record control_input =
  ci_client_message_id :: client_message_id
  ci_kind :: control_kind
  ci_expected_turn_id :: turn_id
  ci_text :: string

record recover_input =
  ri_client_message_id :: client_message_id
  ri_target_message_id :: client_message_id
  ri_action :: recovery_action
  ri_replacement_message_id :: client_message_id
  ri_instruction :: string

record durable_event =
  de_seq :: seqno
  de_kind :: string
  de_actor_uid :: uid
  de_payload :: json
  de_created_at :: instant

record transient_event =
  te_revision :: nat
  te_kind :: string
  te_thread_id :: thread_id
  te_turn_id :: turn_id
  te_item_id :: item_id
  te_delta :: string

record completed_item =
  it_thread_id :: thread_id
  it_turn_id :: turn_id
  it_item_id :: item_id
  it_payload :: bytes

record turn_snapshot =
  ts_id :: turn_id
  ts_state :: request_state
  ts_items :: "completed_item list"

record thread_snapshot =
  th_id :: thread_id
  th_cwd :: string
  th_turns :: "turn_snapshot list"

record turn_binding =
  tb_message_id :: client_message_id
  tb_turn_id :: turn_id
  tb_state :: request_state

record queued_message =
  qm_input :: submit_input
  qm_actor :: actor
  qm_accepted_seq :: seqno

record runtime_checkpoint =
  cp_state :: runtime_process_state
  cp_generation :: string
  cp_pid :: int
  cp_pgid :: int
  cp_process_start :: string
  cp_codex_version :: string
  cp_schema_sha256 :: string

record recovery_image =
  im_status :: room_status
  im_thread_id :: thread_id
  im_active :: "turn_binding option"
  im_pending_controls :: "turn_binding list"
  im_queue :: "queued_message list"
  im_checkpoint :: "runtime_checkpoint option"

record acceptance =
  ac_message_id :: nat
  ac_client_message_id :: client_message_id
  ac_seq :: seqno
  ac_state :: request_state
  ac_error_code :: string
  ac_duplicate :: bool
  ac_event :: durable_event

record retry_command =
  rc_kind :: retry_kind
  rc_client_message_id :: client_message_id
  rc_actor :: actor
  rc_expected_turn_id :: turn_id
  rc_text :: string

record recovery_result =
  rr_duplicate :: bool
  rr_events :: "durable_event list"
  rr_retry :: "retry_command option"

record outcome =
  oc_state :: request_state
  oc_error_code :: string
  oc_error_digest :: string

record finish_turn_input =
  ft_turn_id :: turn_id
  ft_state :: request_state
  ft_error_code :: string
  ft_error_digest :: string

record reason =
  re_code :: string
  re_detail_digest :: string

record member =
  mb_uid :: uid
  mb_name :: string

record connection_record =
  cr_id :: connection_id
  cr_room_id :: room_id
  cr_uid :: uid
  cr_connected_at :: instant
  cr_disconnected_at :: "instant option"
  cr_last_ack :: seqno

subsection \<open>Validation\<close>

definition validHexID :: "string \<Rightarrow> bool" where
  "validHexID i \<longleftrightarrow> length i = 32 \<and> list_all lower_hex i"

definition ValidClientMessageID :: "client_message_id \<Rightarrow> bool" where
  "ValidClientMessageID i = validHexID i"

definition ValidConnectionID :: "connection_id \<Rightarrow> bool" where
  "ValidConnectionID i = validHexID i"

text \<open>A \<^verbatim>\<open>Validate\<close> method returns the error, or \<open>None\<close> for Go's nil.\<close>

definition validate_submit :: "submit_input \<Rightarrow> err option" where
  "validate_submit i =
     (if si_task_id i < 0 then Some ErrInvalidTaskID
      else if \<not> ValidClientMessageID (si_client_message_id i) then Some ErrInvalidClientMessageID
      else if blank (si_text i) then Some ErrBlankMessage
      else None)"

definition validate_steer :: "steer_input \<Rightarrow> err option" where
  "validate_steer i =
     (if \<not> ValidClientMessageID (st_client_message_id i) then Some ErrInvalidClientMessageID
      else if blank (st_expected_turn_id i) then Some ErrExpectedTurnID
      else if blank (st_text i) then Some ErrBlankMessage
      else None)"

definition validate_cancel :: "cancel_input \<Rightarrow> err option" where
  "validate_cancel i =
     (if \<not> ValidClientMessageID (ca_client_message_id i) then Some ErrInvalidClientMessageID
      else if blank (ca_expected_turn_id i) then Some ErrExpectedTurnID
      else None)"

definition validate_control :: "control_input \<Rightarrow> err option" where
  "validate_control i =
     (if \<not> ValidClientMessageID (ci_client_message_id i) then Some ErrInvalidClientMessageID
      else if blank (ci_expected_turn_id i) then Some ErrExpectedTurnID
      else case ci_kind i of
        ControlSteer \<Rightarrow> if blank (ci_text i) then Some ErrBlankMessage else None
      | ControlCancel \<Rightarrow> if ci_text i \<noteq> [] then Some ErrInvalidControlKind else None
      | ControlOther _ \<Rightarrow> Some ErrInvalidControlKind)"

definition validate_recover :: "recover_input \<Rightarrow> err option" where
  "validate_recover i =
     (if \<not> ValidClientMessageID (ri_client_message_id i) \<or> \<not> ValidClientMessageID (ri_target_message_id i)
      then Some ErrInvalidClientMessageID
      else case ri_action i of
        RecoveryContinue \<Rightarrow>
          if \<not> ValidClientMessageID (ri_replacement_message_id i)
             \<or> ri_replacement_message_id i = ri_client_message_id i
             \<or> ri_replacement_message_id i = ri_target_message_id i
          then Some ErrInvalidRecovery
          else if blank (ri_instruction i) then Some ErrBlankMessage
          else None
      | RecoveryOther _ \<Rightarrow> Some ErrInvalidRecovery
      | _ \<Rightarrow> if ri_replacement_message_id i \<noteq> [] \<or> ri_instruction i \<noteq> []
             then Some ErrInvalidRecovery else None)"

definition validate_connection :: "connection_record \<Rightarrow> err option" where
  "validate_connection r = (if \<not> ValidConnectionID (cr_id r) then Some ErrInvalidConnectionID else None)"

lemma validHexID_not_blank: "validHexID i \<Longrightarrow> i \<noteq> []"
  by (auto simp: validHexID_def)

lemma validate_recover_None:
  "validate_recover i = None \<Longrightarrow>
     ValidClientMessageID (ri_client_message_id i) \<and> ValidClientMessageID (ri_target_message_id i) \<and>
     (ri_action i = RecoveryRetry \<or> ri_action i = RecoverySkip \<or>
      ri_action i = RecoveryContinue \<and> ri_replacement_message_id i \<noteq> ri_client_message_id i
        \<and> ri_replacement_message_id i \<noteq> ri_target_message_id i)"
  by (auto simp: validate_recover_def split: if_splits recovery_action.splits)

subsection \<open>Diagnostics\<close>

text \<open>
  An error value as the coordinator inspects it: its text and, where a \<^verbatim>\<open>MutationError\<close> is in its
  chain, that error's certainty and the text of what it wraps.
\<close>

record agent_error =
  ae_text :: string
  ae_mutation :: "(delivery_certainty \<times> string) option"

definition digest_text :: "string \<Rightarrow> string" where
  "digest_text t = hex_sha256 t"

text \<open>\<^verbatim>\<open>digestError\<close>: the empty string for nil.\<close>

definition digestError :: "string option \<Rightarrow> string" where
  "digestError e = (case e of None \<Rightarrow> [] | Some t \<Rightarrow> digest_text t)"

definition mutationFailure :: "agent_error \<Rightarrow> string \<times> string \<times> delivery_certainty" where
  "mutationFailure e =
     (case ae_mutation e of
        Some (DeliveryNotSent, inner) \<Rightarrow> (''delivery-not-sent'', digest_text inner, DeliveryNotSent)
      | _ \<Rightarrow> (''delivery-unknown'', digest_text (ae_text e), DeliveryUnknown))"

definition normalizedMutationError :: "agent_error \<Rightarrow> err" where
  "normalizedMutationError e =
     (case mutationFailure e of (_, _, certainty) \<Rightarrow>
        if certainty = DeliveryNotSent then ErrDeliveryNotSent else ErrDeliveryUnknown)"

definition isTerminal :: "request_state \<Rightarrow> bool" where
  "isTerminal s \<longleftrightarrow> s = RequestCompleted \<or> s = RequestFailed \<or> s = RequestInterrupted"

subsection \<open>The executor's directory entry\<close>

record virtual_member =
  vm_id :: string
  vm_name :: string
  vm_kind :: string
  vm_status :: string

definition CodexMember :: "bool \<Rightarrow> string \<Rightarrow> virtual_member" where
  "CodexMember connected activeTurn =
     (let state = if connected then (if activeTurn \<noteq> [] then ''working'' else ''idle'') else ''offline''
      in \<lparr>vm_id = ''agent:codex'', vm_name = ''Codex Agent'', vm_kind = ''agent'', vm_status = state\<rparr>)"

end
