(* ===== verification/Store_Schema.thy ===== *)
theory Store_Schema
  imports Room_Types
begin

text \<open>
  The SQLite schema (\<^verbatim>\<open>internal/store/schema\<close>) as a record of tables, each a list of rows in
  insertion order, and the statements every repository operation is made of: transactions
  (\<^verbatim>\<open>sqlite.go\<close>), sequence allocation, event insertion, membership checks, and the paired
  update of a message and its turn binding. Inserts check the schema's primary-key, unique and
  foreign-key constraints and fail with \<open>ErrConstraint\<close> where SQLite would.

  A transaction body is a state transformer that returns the new tables or an error. The
  store runs it under a script of storage outcomes: the transaction commits, or it fails with
  nothing written, or the commit takes effect but its reply is lost. An exhausted script
  means every further transaction commits. The clock is a field of the store; columns of
  encoded times hold the instants themselves.
\<close>

datatype message_kind = KPrompt | KNote | KSteer | KCancel | KRecover | KRecoveryPrompt

fun message_kind_text :: "message_kind \<Rightarrow> string" where
  "message_kind_text KPrompt = ''prompt''"
| "message_kind_text KNote = ''note''"
| "message_kind_text KSteer = ''steer''"
| "message_kind_text KCancel = ''cancel''"
| "message_kind_text KRecover = ''recover''"
| "message_kind_text KRecoveryPrompt = ''recovery-prompt''"

text \<open>
  The body column: the text of a prompt or note, or the JSON object of a control or recovery
  command, kept as its fields.
\<close>

datatype message_body =
    BodyText string
  | BodyControl turn_id string
  | BodyRecover client_message_id recovery_action client_message_id string

definition opt_field :: "string \<Rightarrow> string \<Rightarrow> (string \<times> json) list" where
  "opt_field k v = (if v = [] then [] else [(k, JStr v)])"

fun body_json :: "message_body \<Rightarrow> json" where
  "body_json (BodyText t) = JObj [(''text'', JStr t)]"
| "body_json (BodyControl turn t) = JObj [(''expected_turn_id'', JStr turn), (''text'', JStr t)]"
| "body_json (BodyRecover target action repl instr) =
     JObj ([(''target_message_id'', JStr target), (''action'', JStr (recovery_action_text action))]
           @ opt_field ''replacement_message_id'' repl @ opt_field ''instruction'' instr)"

fun body_column :: "message_body \<Rightarrow> string" where
  "body_column (BodyText t) = t"
| "body_column b = json_marshal (body_json b)"

record room_row =
  r_id :: room_id
  r_display_name :: string
  r_host_id :: string
  r_project_path :: string
  r_execution_owner_uid :: uid
  r_codex_thread_id :: "thread_id option"
  r_status :: room_status
  r_next_seq :: seqno

record member_row =
  m_room :: room_id
  m_uid :: uid
  m_username :: string

record message_row =
  msg_id :: nat
  msg_room :: room_id
  msg_client :: client_message_id
  msg_actor :: uid
  msg_kind :: message_kind
  msg_body :: message_body
  msg_hash :: bytes
  msg_state :: request_state
  msg_seq :: seqno
  msg_created :: instant

record binding_row =
  b_room :: room_id
  b_message :: nat
  b_turn :: "turn_id option"
  b_state :: request_state
  b_started :: "instant option"
  b_completed :: "instant option"
  b_error_code :: "string option"
  b_error_digest :: "string option"

datatype stamp = Stamp instant | BadStamp string

record connection_row =
  cn_id :: connection_id
  cn_room :: room_id
  cn_member :: uid
  cn_connected :: stamp
  cn_disconnected :: "stamp option"
  cn_last_ack :: seqno

record task_row =
  tk_id :: nat
  tk_room :: room_id
  tk_number :: nat
  tk_source_message :: nat
  tk_source_seq :: seqno
  tk_title :: string
  tk_acceptance :: string
  tk_revision :: nat
  tk_created :: instant
  tk_updated :: instant
  tk_completed_at :: "instant option"
  tk_completed_by :: string

record task_change_row =
  tc_room :: room_id
  tc_task :: nat
  tc_action :: string
  tc_actor :: string
  tc_created :: instant
  tc_note :: string

record task_receipt_row =
  tr_room :: room_id
  tr_uid :: uid
  tr_request :: string
  tr_task :: nat
  tr_hash :: bytes

record join_row =
  j_id :: string
  j_room :: room_id
  j_token_hash :: string
  j_name :: string
  j_state :: string
  j_address :: string
  j_uid :: uid
  j_created :: int

record db =
  rooms :: "room_row list"
  members :: "member_row list"
  messages :: "message_row list"
  message_autoinc :: nat
  turn_bindings :: "binding_row list"
  room_events :: "(room_id \<times> durable_event) list"
  runtime_checkpoints :: "(room_id \<times> runtime_checkpoint) list"
  recovery_results :: "(nat \<times> room_id \<times> nat \<times> recovery_action) list"
  recovery_result_events :: "(nat \<times> nat \<times> room_id \<times> seqno) list"
  client_connections :: "connection_row list"
  member_roles :: "(room_id \<times> uid \<times> string) list"
  private_turns :: "(room_id \<times> thread_id \<times> turn_id) list"
  private_turn_frontiers :: "(room_id \<times> thread_id \<times> turn_id list) list"
  project_tasks :: "task_row list"
  task_autoinc :: nat
  task_messages :: "(room_id \<times> nat \<times> nat) list"
  task_changes :: "task_change_row list"
  task_receipts :: "task_receipt_row list"
  join_requests :: "join_row list"

definition empty_db :: db where
  "empty_db =
     \<lparr>rooms = [], members = [], messages = [], message_autoinc = 0, turn_bindings = [],
      room_events = [], runtime_checkpoints = [], recovery_results = [], recovery_result_events = [],
      client_connections = [], member_roles = [], private_turns = [], private_turn_frontiers = [],
      project_tasks = [], task_autoinc = 0, task_messages = [], task_changes = [], task_receipts = [],
      join_requests = []\<rparr>"

type_synonym 'a dbtx = "(err, db, 'a) tx"

subsection \<open>Transactions\<close>

datatype io_outcome = IoCommit | IoFail | IoLost

record store =
  st_db :: db
  st_io :: "io_outcome list"
  st_now :: instant

type_synonym 'a store_op = "store \<Rightarrow> (err + 'a) \<times> store"

definition transact :: "(instant \<Rightarrow> 'a dbtx) \<Rightarrow> 'a store_op" where
  "transact body s =
     (let s' = s\<lparr>st_io := tl (st_io s)\<rparr> in
      case body (st_now s) (st_db s) of
        Inl e \<Rightarrow> (Inl (if st_io s \<noteq> [] \<and> hd (st_io s) = IoFail then ErrStorage else e), s')
      | Inr (x, d) \<Rightarrow>
          (case st_io s of
             IoFail # _ \<Rightarrow> (Inl ErrStorage, s')
           | IoLost # _ \<Rightarrow> (Inl ErrStorage, s'\<lparr>st_db := d\<rparr>)
           | _ \<Rightarrow> (Inr x, s'\<lparr>st_db := d\<rparr>)))"

text \<open>Validation before the transaction opens returns without touching storage.\<close>

definition validated :: "err option \<Rightarrow> 'a store_op \<Rightarrow> 'a store_op" where
  "validated v oper s = (case v of Some e \<Rightarrow> (Inl e, s) | None \<Rightarrow> oper s)"

lemma transact_Inr:
  "transact body s = (Inr x, s') \<Longrightarrow> body (st_now s) (st_db s) = Inr (x, st_db s')"
  by (cases "st_io s"; cases "hd (st_io s)")
     (auto simp: transact_def Let_def split: sum.splits)

lemma transact_Inl:
  "transact body s = (Inl e, s') \<Longrightarrow>
     st_db s' = st_db s \<or> (\<exists>x. body (st_now s) (st_db s) = Inr (x, st_db s'))"
  by (cases "st_io s"; cases "hd (st_io s)")
     (auto simp: transact_def Let_def split: sum.splits)

lemma transact_effect:
  "transact body s = (r, s') \<Longrightarrow>
     st_db s' = st_db s \<and> (\<exists>e. r = Inl e) \<or> (\<exists>x. body (st_now s) (st_db s) = Inr (x, st_db s'))"
  by (cases r) (auto dest: transact_Inr transact_Inl)

lemma transact_ok:
  "body (st_now s) (st_db s) = Inr (x, d) \<Longrightarrow> st_io s = [] \<Longrightarrow>
     transact body s = (Inr x, s\<lparr>st_db := d\<rparr>)"
  by (simp add: transact_def Let_def)

lemma transact_now [simp]: "st_now (snd (transact body s)) = st_now s"
  by (cases "st_io s"; cases "hd (st_io s)") (auto simp: transact_def Let_def split: sum.splits)

subsection \<open>Queries\<close>

definition find_room :: "room_id \<Rightarrow> db \<Rightarrow> room_row option" where
  "find_room rid d = find (\<lambda>r. r_id r = rid) (rooms d)"

definition find_message :: "room_id \<Rightarrow> client_message_id \<Rightarrow> db \<Rightarrow> message_row option" where
  "find_message rid cid d = find (\<lambda>m. msg_room m = rid \<and> msg_client m = cid) (messages d)"

definition find_binding :: "room_id \<Rightarrow> nat \<Rightarrow> db \<Rightarrow> binding_row option" where
  "find_binding rid mid d = find (\<lambda>b. b_room b = rid \<and> b_message b = mid) (turn_bindings d)"

definition find_member :: "room_id \<Rightarrow> uid \<Rightarrow> db \<Rightarrow> member_row option" where
  "find_member rid u d = find (\<lambda>m. m_room m = rid \<and> m_uid m = u) (members d)"

definition events_of :: "room_id \<Rightarrow> db \<Rightarrow> durable_event list" where
  "events_of rid d = map snd (filter (\<lambda>p. fst p = rid) (room_events d))"

definition find_event :: "room_id \<Rightarrow> seqno \<Rightarrow> db \<Rightarrow> durable_event option" where
  "find_event rid n d = find (\<lambda>e. de_seq e = n) (events_of rid d)"

record stored_message =
  sm_id :: nat
  sm_kind :: message_kind
  sm_actor :: uid
  sm_body :: message_body
  sm_hash :: bytes
  sm_state :: request_state
  sm_seq :: seqno
  sm_error_code :: string

definition loadStoredMessage :: "room_id \<Rightarrow> client_message_id \<Rightarrow> db \<Rightarrow> stored_message option" where
  "loadStoredMessage rid cid d =
     (case find_message rid cid d of
        None \<Rightarrow> None
      | Some m \<Rightarrow> Some
          \<lparr>sm_id = msg_id m, sm_kind = msg_kind m, sm_actor = msg_actor m, sm_body = msg_body m,
           sm_hash = msg_hash m, sm_state = msg_state m, sm_seq = msg_seq m,
           sm_error_code =
             (case find_binding rid (msg_id m) d of
                Some b \<Rightarrow> (case b_error_code b of Some c \<Rightarrow> c | None \<Rightarrow> [])
              | None \<Rightarrow> [])\<rparr>)"

definition requireRoom :: "room_id \<Rightarrow> unit dbtx" where
  "requireRoom rid = tx_bind (tx_read (find_room rid)) (\<lambda>r. tx_guard ErrRoomNotFound (r \<noteq> None))"

definition validateRoomID :: "room_id \<Rightarrow> err option" where
  "validateRoomID rid = (if blank rid then Some ErrInvalidInput else None)"

definition validateIdentifiers :: "room_id \<Rightarrow> client_message_id \<Rightarrow> err option" where
  "validateIdentifiers rid cid =
     (case validateRoomID rid of
        Some e \<Rightarrow> Some e
      | None \<Rightarrow> if \<not> ValidClientMessageID cid then Some ErrInvalidClientMessageID else None)"

definition requireActor :: "room_id \<Rightarrow> actor \<Rightarrow> unit dbtx" where
  "requireActor rid a =
     (if actor_uid a = 0 \<or> blank (actor_name a) then tx_fail ErrInvalidInput
      else tx_bind (tx_read (find_member rid (actor_uid a))) (\<lambda>m.
        case m of
          None \<Rightarrow> tx_bind (requireRoom rid) (\<lambda>_. tx_fail ErrMemberNotFound)
        | Some r \<Rightarrow> tx_guard ErrMemberNotFound (m_username r = actor_name a)))"

definition requireMemberUID :: "room_id \<Rightarrow> uid \<Rightarrow> unit dbtx" where
  "requireMemberUID rid u =
     tx_bind (tx_read (find_member rid u)) (\<lambda>m.
       case m of
         None \<Rightarrow> tx_bind (requireRoom rid) (\<lambda>_. tx_fail ErrMemberNotFound)
       | Some _ \<Rightarrow> tx_return ())"

subsection \<open>The event log\<close>

definition allocateSeq :: "room_id \<Rightarrow> seqno dbtx" where
  "allocateSeq rid =
     tx_bind (tx_read (find_room rid)) (\<lambda>r.
       case r of
         None \<Rightarrow> tx_fail ErrRoomNotFound
       | Some row \<Rightarrow>
           tx_bind (tx_write (\<lambda>d. d\<lparr>rooms :=
               update_where (\<lambda>x. r_id x = rid) (\<lambda>x. x\<lparr>r_next_seq := r_next_seq x + 1\<rparr>) (rooms d)\<rparr>))
             (\<lambda>_. tx_return (r_next_seq row)))"

definition insertEventAt ::
  "room_id \<Rightarrow> seqno \<Rightarrow> uid \<Rightarrow> string \<Rightarrow> json \<Rightarrow> instant \<Rightarrow> durable_event dbtx" where
  "insertEventAt rid n u k p now =
     (let e = \<lparr>de_seq = n, de_kind = k, de_actor_uid = u, de_payload = p, de_created_at = now\<rparr> in
      tx_bind (tx_read (\<lambda>d. find_event rid n d = None \<and> find_room rid d \<noteq> None)) (\<lambda>ok.
      tx_bind (tx_guard ErrConstraint ok) (\<lambda>_.
      tx_bind (tx_write (\<lambda>d. d\<lparr>room_events := room_events d @ [(rid, e)]\<rparr>)) (\<lambda>_.
      tx_return e))))"

definition appendEvent :: "instant \<Rightarrow> room_id \<Rightarrow> uid \<Rightarrow> string \<Rightarrow> json \<Rightarrow> durable_event dbtx" where
  "appendEvent now rid u k p =
     tx_bind (allocateSeq rid) (\<lambda>n. insertEventAt rid n u k p now)"

definition loadEventTx :: "room_id \<Rightarrow> seqno \<Rightarrow> durable_event dbtx" where
  "loadEventTx rid n =
     tx_bind (tx_read (find_event rid n)) (\<lambda>e.
       case e of None \<Rightarrow> tx_fail ErrNoRows | Some x \<Rightarrow> tx_return x)"

subsection \<open>Messages and bindings\<close>

definition insertMessage ::
  "room_id \<Rightarrow> client_message_id \<Rightarrow> uid \<Rightarrow> message_kind \<Rightarrow> message_body \<Rightarrow> bytes \<Rightarrow> request_state
     \<Rightarrow> seqno \<Rightarrow> instant \<Rightarrow> nat dbtx" where
  "insertMessage rid cid u k b h s n now =
     tx_bind (tx_read (\<lambda>d. (find_message rid cid d = None \<and> find_member rid u d \<noteq> None, message_autoinc d + 1)))
       (\<lambda>(ok, mid).
     tx_bind (tx_guard ErrConstraint ok) (\<lambda>_.
     tx_bind (tx_write (\<lambda>d. d\<lparr>messages := messages d @
         [\<lparr>msg_id = mid, msg_room = rid, msg_client = cid, msg_actor = u, msg_kind = k, msg_body = b,
           msg_hash = h, msg_state = s, msg_seq = n, msg_created = now\<rparr>],
         message_autoinc := mid\<rparr>)) (\<lambda>_.
     tx_return mid)))"

definition insertBinding :: "room_id \<Rightarrow> nat \<Rightarrow> turn_id option \<Rightarrow> request_state \<Rightarrow> unit dbtx" where
  "insertBinding rid mid turn s =
     tx_bind (tx_read (\<lambda>d. (\<forall>b \<in> set (turn_bindings d). b_message b \<noteq> mid)
         \<and> (\<exists>m \<in> set (messages d). msg_room m = rid \<and> msg_id m = mid))) (\<lambda>ok.
     tx_bind (tx_guard ErrConstraint ok) (\<lambda>_.
     tx_write (\<lambda>d. d\<lparr>turn_bindings := turn_bindings d @
         [\<lparr>b_room = rid, b_message = mid, b_turn = turn, b_state = s, b_started = None,
           b_completed = None, b_error_code = None, b_error_digest = None\<rparr>]\<rparr>)))"

text \<open>
  \<^verbatim>\<open>UPDATE messages SET state = ? WHERE room_id = ? AND id = ? AND state = ?\<close>, and the same on
  the binding, each of which must change exactly one row.
\<close>

definition updateMessageState ::
  "err \<Rightarrow> room_id \<Rightarrow> nat \<Rightarrow> request_state \<Rightarrow> request_state \<Rightarrow> unit dbtx" where
  "updateMessageState e rid mid old new =
     (let P = (\<lambda>m. msg_room m = rid \<and> msg_id m = mid \<and> msg_state m = old) in
      tx_bind (tx_read (\<lambda>d. count_where P (messages d))) (\<lambda>n.
      tx_bind (tx_guard e (n = 1)) (\<lambda>_.
      tx_write (\<lambda>d. d\<lparr>messages := update_where P (\<lambda>m. m\<lparr>msg_state := new\<rparr>) (messages d)\<rparr>))))"

definition updateBinding ::
  "err \<Rightarrow> room_id \<Rightarrow> nat \<Rightarrow> request_state \<Rightarrow> (binding_row \<Rightarrow> binding_row) \<Rightarrow> unit dbtx" where
  "updateBinding e rid mid old f =
     (let P = (\<lambda>b. b_room b = rid \<and> b_message b = mid \<and> b_state b = old) in
      tx_bind (tx_read (\<lambda>d. count_where P (turn_bindings d))) (\<lambda>n.
      tx_bind (tx_guard e (n = 1)) (\<lambda>_.
      tx_write (\<lambda>d. d\<lparr>turn_bindings := update_where P f (turn_bindings d)\<rparr>))))"

definition coalesce :: "'a option \<Rightarrow> 'a option \<Rightarrow> 'a option" where
  "coalesce x y = (case x of Some v \<Rightarrow> Some v | None \<Rightarrow> y)"

definition updateMessageAndBinding ::
  "room_id \<Rightarrow> nat \<Rightarrow> request_state \<Rightarrow> request_state \<Rightarrow> instant option \<Rightarrow> string option
     \<Rightarrow> string option \<Rightarrow> turn_id option \<Rightarrow> instant option \<Rightarrow> unit dbtx" where
  "updateMessageAndBinding rid mid old new completedAt code digest turn started =
     tx_bind (updateMessageState ErrInvalidState rid mid old new) (\<lambda>_.
       updateBinding ErrInvalidState rid mid old (\<lambda>b. b\<lparr>b_state := new,
         b_turn := coalesce turn (b_turn b), b_started := coalesce started (b_started b),
         b_completed := completedAt, b_error_code := code, b_error_digest := digest\<rparr>))"

definition nullableString :: "string \<Rightarrow> string option" where
  "nullableString v = (if v = [] then None else Some v)"

definition nullableCompletedAt :: "request_state \<Rightarrow> instant \<Rightarrow> instant option" where
  "nullableCompletedAt s now = (if s = RequestNeedsReview then None else Some now)"

definition is_prompt :: "message_kind \<Rightarrow> bool" where
  "is_prompt k \<longleftrightarrow> k = KPrompt \<or> k = KRecoveryPrompt"

definition is_control :: "message_kind \<Rightarrow> bool" where
  "is_control k \<longleftrightarrow> k = KSteer \<or> k = KCancel"

definition requireMessageState ::
  "room_id \<Rightarrow> client_message_id \<Rightarrow> message_kind list \<Rightarrow> request_state \<Rightarrow> stored_message dbtx" where
  "requireMessageState rid cid kinds expected =
     tx_bind (tx_read (loadStoredMessage rid cid)) (\<lambda>m.
       case m of
         None \<Rightarrow> tx_bind (requireRoom rid) (\<lambda>_. tx_fail ErrMessageNotFound)
       | Some x \<Rightarrow>
           tx_bind (tx_guard ErrInvalidState (sm_state x = expected \<and> sm_kind x \<in> set kinds)) (\<lambda>_.
           tx_return x))"

end
