(* ===== verification/Store_Tasks.thy ===== *)
theory Store_Tasks
  imports Store_Schema
begin

text \<open>
  Project tasks (\<^verbatim>\<open>internal/store/tasks.go\<close>): the state of a task is computed from the messages
  that run it, writing needs the roommate role, changes carry a request identity whose
  receipt makes them idempotent and an expected revision that makes them optimistic, and a new
  run is linked inside the transaction that accepts its message.
\<close>

datatype task_state =
    TaskCompleted | TaskNeedsConfirmation | TaskRunning | TaskQueued | TaskReview | TaskBlocked | TaskTodo

record task_answer =
  ta_text :: string
  ta_time :: "instant option"

record task_run =
  run_message_id :: nat
  run_client_id :: client_message_id
  run_turn :: turn_id
  run_state :: request_state
  run_text :: string
  run_created :: instant
  run_started :: "instant option"
  run_completed :: "instant option"
  run_answers :: "task_answer list"

record project_task =
  pt_id :: nat
  pt_number :: nat
  pt_title :: string
  pt_acceptance :: string
  pt_source_seq :: seqno
  pt_source_text :: string
  pt_source_client_id :: client_message_id
  pt_state :: task_state
  pt_revision :: nat
  pt_created :: instant
  pt_updated :: instant
  pt_completed_at :: "instant option"
  pt_completed_by :: string
  pt_runs :: "task_run list"
  pt_history :: "task_change_row list"

record task_request =
  tq_action :: string
  tq_request_id :: string
  tq_task_id :: int
  tq_source_seq :: int
  tq_title :: string
  tq_acceptance :: string
  tq_expected_revision :: int
  tq_note :: string
  tq_before :: int

record task_reply =
  tp_tasks :: "project_task list"
  tp_task :: "project_task option"
  tp_more :: bool

subsection \<open>Reading tasks\<close>

definition task_links :: "room_id \<Rightarrow> nat \<Rightarrow> db \<Rightarrow> message_row list" where
  "task_links rid tid d =
     rev (sort_key msg_id
       (filter (\<lambda>m. msg_room m = rid \<and> (rid, tid, msg_id m) \<in> set (task_messages d)) (messages d)))"

text \<open>The scan over the runs, newest first: the newest state and three flags.\<close>

definition scan_run ::
  "request_state option \<times> bool \<times> bool \<times> bool \<Rightarrow> request_state \<Rightarrow> request_state option \<times> bool \<times> bool \<times> bool" where
  "scan_run acc s =
     (case acc of (latest, running, queued, uncertain) \<Rightarrow>
        (if latest = None then Some s else latest,
         running \<or> s = RequestRunning,
         queued \<or> s = RequestQueued,
         uncertain \<or> s = RequestDispatching \<or> s = RequestNeedsReview))"

definition taskState :: "room_id \<Rightarrow> nat \<Rightarrow> bool \<Rightarrow> db \<Rightarrow> task_state" where
  "taskState rid tid completed d =
     (if completed then TaskCompleted
      else case foldl scan_run (None, False, False, False) (map msg_state (task_links rid tid d)) of
        (latest, running, queued, uncertain) \<Rightarrow>
          if uncertain then TaskNeedsConfirmation
          else if running then TaskRunning
          else if queued then TaskQueued
          else if latest = Some RequestCompleted then TaskReview
          else if latest \<noteq> None then TaskBlocked
          else TaskTodo)"

definition scanTask :: "db \<Rightarrow> task_row \<Rightarrow> project_task option" where
  "scanTask d t =
     map_option (\<lambda>m.
       \<lparr>pt_id = tk_id t, pt_number = tk_number t, pt_title = tk_title t, pt_acceptance = tk_acceptance t,
        pt_source_seq = tk_source_seq t, pt_source_text = [], pt_source_client_id = msg_client m,
        pt_state = TaskTodo, pt_revision = tk_revision t, pt_created = tk_created t,
        pt_updated = tk_updated t, pt_completed_at = tk_completed_at t,
        pt_completed_by = tk_completed_by t, pt_runs = [], pt_history = []\<rparr>)
       (find (\<lambda>m. msg_room m = tk_room t \<and> msg_id m = tk_source_message t) (messages d))"

definition find_task :: "room_id \<Rightarrow> nat \<Rightarrow> db \<Rightarrow> task_row option" where
  "find_task rid tid d = find (\<lambda>t. tk_room t = rid \<and> tk_id t = tid) (project_tasks d)"

definition load_task :: "room_id \<Rightarrow> nat \<Rightarrow> db \<Rightarrow> project_task option" where
  "load_task rid tid d =
     (case find_task rid tid d of
        None \<Rightarrow> None
      | Some row \<Rightarrow>
          map_option (\<lambda>t. t\<lparr>pt_state := taskState rid tid (pt_completed_at t \<noteq> None) d\<rparr>) (scanTask d row))"

definition loadTask :: "room_id \<Rightarrow> nat \<Rightarrow> project_task dbtx" where
  "loadTask rid tid =
     tx_bind (tx_read (load_task rid tid)) (\<lambda>t.
       case t of None \<Rightarrow> tx_fail ErrNoRows | Some x \<Rightarrow> tx_return x)"

definition member_role :: "room_id \<Rightarrow> uid \<Rightarrow> db \<Rightarrow> string" where
  "member_role rid u d =
     (case find (\<lambda>(r, v, _). r = rid \<and> v = u) (member_roles d) of
        Some (_, _, role) \<Rightarrow> role
      | None \<Rightarrow> ''roommate'')"

definition requireTaskWriter :: "room_id \<Rightarrow> actor \<Rightarrow> unit dbtx" where
  "requireTaskWriter rid a =
     tx_bind (requireActor rid a) (\<lambda>_.
     tx_bind (tx_read (member_role rid (actor_uid a))) (\<lambda>role.
     tx_guard ErrTaskReadOnlyRole (role = ''roommate'')))"

subsection \<open>The task queries\<close>

definition agent_answers :: "room_id \<Rightarrow> turn_id \<Rightarrow> db \<Rightarrow> (string \<times> instant) list" where
  "agent_answers rid turn d =
     map (\<lambda>e. (case extract_text [''payload'', ''text''] (de_payload e) of Some t \<Rightarrow> t | None \<Rightarrow> [],
               de_created_at e))
       (sort_key de_seq (filter (\<lambda>e. de_kind e = ''item/completed''
            \<and> extract_text [''turn_id''] (de_payload e) = Some turn
            \<and> extract_text [''payload'', ''type''] (de_payload e) = Some ''agentMessage'') (events_of rid d)))"

definition answers_notice :: bytes where
  "answers_notice =
     [CHR 0xE5, CHR 0x85, CHR 0xB6, CHR 0xE4, CHR 0xBD, CHR 0x99, CHR 0xE8, CHR 0xBE,
      CHR 0x93, CHR 0xE5, CHR 0x87, CHR 0xBA, CHR 0xE8, CHR 0xAF, CHR 0xB7, CHR 0xE5,
      CHR 0x9C, CHR 0xA8, CHR 0xE9, CHR 0xA1, CHR 0xB9, CHR 0xE7, CHR 0x9B, CHR 0xAE,
      CHR 0xE8, CHR 0x81, CHR 0x8A, CHR 0xE5, CHR 0xA4, CHR 0xA9, CHR 0xE5, CHR 0x8E,
      CHR 0x86, CHR 0xE5, CHR 0x8F, CHR 0xB2, CHR 0xE4, CHR 0xB8, CHR 0xAD, CHR 0xE6,
      CHR 0x9F, CHR 0xA5, CHR 0xE7, CHR 0x9C, CHR 0x8B, CHR 0xE3, CHR 0x80, CHR 0x82]"

text \<open>Answers up to 64 KiB and 100 entries; the first one past a limit becomes a notice.\<close>

fun take_answers :: "nat \<Rightarrow> (string \<times> instant) list \<Rightarrow> task_answer list \<Rightarrow> task_answer list" where
  "take_answers used [] acc = acc"
| "take_answers used ((t, at) # rest) acc =
     (if 65536 < used + length t \<or> 100 \<le> length acc
      then acc @ [\<lparr>ta_text = answers_notice, ta_time = None\<rparr>]
      else take_answers (used + length t) rest (acc @ [\<lparr>ta_text = t, ta_time = Some at\<rparr>]))"

definition task_run_of :: "room_id \<Rightarrow> db \<Rightarrow> message_row \<Rightarrow> task_run" where
  "task_run_of rid d m =
     (let b = find_binding rid (msg_id m) d in
      \<lparr>run_message_id = msg_id m, run_client_id = msg_client m,
       run_turn = (case b of Some x \<Rightarrow> (case b_turn x of Some t \<Rightarrow> t | None \<Rightarrow> []) | None \<Rightarrow> []),
       run_state = msg_state m, run_text = body_column (msg_body m), run_created = msg_created m,
       run_started = (case b of Some x \<Rightarrow> b_started x | None \<Rightarrow> None),
       run_completed = (case b of Some x \<Rightarrow> b_completed x | None \<Rightarrow> None),
       run_answers = []\<rparr>)"

definition task_source_text :: "room_id \<Rightarrow> task_row \<Rightarrow> message_row \<Rightarrow> db \<Rightarrow> string" where
  "task_source_text rid t m d =
     (case find_event rid (tk_source_seq t) d of
        Some e \<Rightarrow>
          if de_kind e = ''item/completed''
          then (case extract_text [''payload'', ''text''] (de_payload e) of
                  Some x \<Rightarrow> x | None \<Rightarrow> body_column (msg_body m))
          else body_column (msg_body m)
      | None \<Rightarrow> body_column (msg_body m))"

definition get_task :: "room_id \<Rightarrow> nat \<Rightarrow> int \<Rightarrow> db \<Rightarrow> task_reply option" where
  "get_task rid tid before d =
     (case (load_task rid tid d, find_task rid tid d) of
        (Some t, Some row) \<Rightarrow>
          (case find (\<lambda>m. msg_room m = rid \<and> msg_id m = tk_source_message row) (messages d) of
             None \<Rightarrow> None
           | Some m \<Rightarrow>
               let all = filter (\<lambda>x. before = 0 \<or> int (msg_id x) < before) (task_links rid tid d);
                   page = take 11 all;
                   runs = map (task_run_of rid d) (take 10 page);
                   full = map (\<lambda>r. if run_turn r = [] then r
                                    else r\<lparr>run_answers := take_answers 0 (agent_answers rid (run_turn r) d) []\<rparr>) runs;
                   history = take 50 (rev (filter (\<lambda>c. tc_room c = rid \<and> tc_task c = tid) (task_changes d)))
               in Some \<lparr>tp_tasks = [], tp_task = Some (t\<lparr>pt_source_text := task_source_text rid row m d,
                          pt_runs := full, pt_history := history\<rparr>), tp_more = 10 < length page\<rparr>)
      | _ \<Rightarrow> None)"

definition list_tasks :: "room_id \<Rightarrow> int \<Rightarrow> db \<Rightarrow> task_reply" where
  "list_tasks rid before d =
     (let rows = rev (sort_key tk_id (filter (\<lambda>t. tk_room t = rid \<and> (before = 0 \<or> int (tk_id t) < before)) (project_tasks d)));
          page = take 51 (List.map_filter (scanTask d) rows);
          shown = map (\<lambda>t. t\<lparr>pt_state := taskState rid (pt_id t) (pt_completed_at t \<noteq> None) d\<rparr>) (take 50 page)
      in \<lparr>tp_tasks = shown, tp_task = None, tp_more = 50 < length page\<rparr>)"

definition Tasks :: "room_id \<Rightarrow> task_request \<Rightarrow> task_reply store_op" where
  "Tasks rid q =
     transact (\<lambda>now.
       if tq_action q = ''get'' then
         tx_bind (tx_read (\<lambda>d. if tq_task_id q < 0 then None else get_task rid (nat (tq_task_id q)) (tq_before q) d)) (\<lambda>r.
           case r of None \<Rightarrow> tx_fail ErrNoRows | Some x \<Rightarrow> tx_return x)
       else if tq_action q \<noteq> ''list'' then tx_fail ErrTaskQuery
       else tx_read (list_tasks rid (tq_before q)))"

subsection \<open>Changing tasks\<close>

definition opt_int :: "string \<Rightarrow> int \<Rightarrow> (string \<times> json) list" where
  "opt_int k v = (if v = 0 then [] else [(k, JInt v)])"

definition task_request_json :: "task_request \<Rightarrow> json" where
  "task_request_json q =
     JObj ([(''action'', JStr (tq_action q))] @ opt_field ''requestId'' (tq_request_id q)
       @ opt_int ''taskId'' (tq_task_id q) @ opt_int ''sourceSeq'' (tq_source_seq q)
       @ opt_field ''title'' (tq_title q) @ opt_field ''acceptance'' (tq_acceptance q)
       @ opt_int ''expectedRevision'' (tq_expected_revision q) @ opt_field ''note'' (tq_note q)
       @ opt_int ''before'' (tq_before q))"

definition task_request_error :: "task_request \<Rightarrow> err option" where
  "task_request_error q =
     (if (case hex_decode (tq_request_id q) of None \<Rightarrow> True | Some raw \<Rightarrow> length raw \<noteq> 16)
         \<or> tq_task_id q < 0 \<or> tq_source_seq q < 0
         \<or> 240 < length (tq_title q) \<or> 4000 < length (tq_acceptance q) \<or> 2000 < length (tq_note q)
         \<or> \<not> utf8_valid (tq_title q) \<or> \<not> utf8_valid (tq_acceptance q) \<or> \<not> utf8_valid (tq_note q)
      then Some ErrTaskRequestInvalid
      else if tq_action q \<notin> {''convert'', ''complete'', ''reopen''} then Some ErrTaskAction
      else None)"

definition task_source :: "room_id \<Rightarrow> seqno \<Rightarrow> db \<Rightarrow> message_row option" where
  "task_source rid n d =
     (case find (\<lambda>m. msg_room m = rid \<and> msg_seq m = n \<and> (is_prompt (msg_kind m) \<or> msg_kind m = KNote)) (messages d) of
        Some m \<Rightarrow> Some m
      | None \<Rightarrow>
          (case find_event rid n d of
             None \<Rightarrow> None
           | Some e \<Rightarrow>
               if de_kind e = ''item/completed''
                  \<and> extract_text [''payload'', ''type''] (de_payload e) = Some ''agentMessage''
               then (case sort_key msg_id (filter (\<lambda>m. msg_room m = rid \<and> is_prompt (msg_kind m)
                       \<and> (\<exists>b \<in> set (turn_bindings d). b_room b = rid \<and> b_message b = msg_id m
                            \<and> b_turn b \<noteq> None \<and> b_turn b = extract_text [''turn_id''] (de_payload e))) (messages d)) of
                       m # _ \<Rightarrow> Some m | [] \<Rightarrow> None)
               else None))"

definition task_of_message :: "room_id \<Rightarrow> nat \<Rightarrow> db \<Rightarrow> nat option" where
  "task_of_message rid mid d =
     (case sort (map (\<lambda>(_, t, _). t) (filter (\<lambda>(r, _, m). r = rid \<and> m = mid) (task_messages d))
                 @ map tk_id (filter (\<lambda>t. tk_room t = rid \<and> tk_source_message t = mid) (project_tasks d))) of
        [] \<Rightarrow> None | t # _ \<Rightarrow> Some t)"

definition link_task_message :: "room_id \<Rightarrow> nat \<Rightarrow> nat \<Rightarrow> unit dbtx" where
  "link_task_message rid tid mid =
     tx_bind (tx_read (\<lambda>d. (\<forall>(r, _, m) \<in> set (task_messages d). \<not> (r = rid \<and> m = mid))
         \<and> find_task rid tid d \<noteq> None)) (\<lambda>ok.
     tx_bind (tx_guard ErrConstraint ok) (\<lambda>_.
     tx_write (\<lambda>d. d\<lparr>task_messages := task_messages d @ [(rid, tid, mid)]\<rparr>)))"

definition record_task_change :: "room_id \<Rightarrow> nat \<Rightarrow> string \<Rightarrow> string \<Rightarrow> instant \<Rightarrow> string \<Rightarrow> unit dbtx" where
  "record_task_change rid tid act who now note =
     tx_write (\<lambda>d. d\<lparr>task_changes := task_changes d @
       [\<lparr>tc_room = rid, tc_task = tid, tc_action = act, tc_actor = who, tc_created = now, tc_note = note\<rparr>]\<rparr>)"

definition insert_task :: "room_id \<Rightarrow> nat \<Rightarrow> seqno \<Rightarrow> string \<Rightarrow> string \<Rightarrow> instant \<Rightarrow> nat dbtx" where
  "insert_task rid mid n title acceptance now =
     tx_bind (tx_read (\<lambda>d. task_autoinc d + 1)) (\<lambda>tid.
     tx_bind (tx_write (\<lambda>d. d\<lparr>task_autoinc := tid, project_tasks := project_tasks d @
       [\<lparr>tk_id = tid, tk_room = rid,
         tk_number = foldl max 0 (map tk_number (filter (\<lambda>t. tk_room t = rid) (project_tasks d))) + 1,
         tk_source_message = mid, tk_source_seq = n, tk_title = title, tk_acceptance = acceptance,
         tk_revision = 1, tk_created = now, tk_updated = now, tk_completed_at = None, tk_completed_by = []\<rparr>]\<rparr>)) (\<lambda>_.
     tx_return tid))"

definition convert_task :: "instant \<Rightarrow> room_id \<Rightarrow> actor \<Rightarrow> task_request \<Rightarrow> nat dbtx" where
  "convert_task now rid a q =
     (if blank (tq_title q) \<or> tq_source_seq q \<le> 0 then tx_fail ErrTaskTitleOrSource
      else tx_bind (tx_read (task_source rid (nat (tq_source_seq q)))) (\<lambda>src.
        case src of
          None \<Rightarrow> tx_fail ErrTaskSource
        | Some m \<Rightarrow>
            tx_bind (tx_read (task_of_message rid (msg_id m))) (\<lambda>old.
              case old of
                Some tid \<Rightarrow> tx_return tid
              | None \<Rightarrow>
                  tx_bind (insert_task rid (msg_id m) (nat (tq_source_seq q)) (trim_space (tq_title q)) (tq_acceptance q) now) (\<lambda>tid.
                  tx_bind (if msg_kind m \<noteq> KNote then link_task_message rid tid (msg_id m) else tx_return ()) (\<lambda>_.
                  tx_bind (record_task_change rid tid ''created'' (actor_name a) now (tq_note q)) (\<lambda>_.
                  tx_return tid))))))"

definition touch_task :: "room_id \<Rightarrow> nat \<Rightarrow> (task_row \<Rightarrow> task_row) \<Rightarrow> instant \<Rightarrow> unit dbtx" where
  "touch_task rid tid f now =
     tx_write (\<lambda>d. d\<lparr>project_tasks :=
       update_where (\<lambda>t. tk_room t = rid \<and> tk_id t = tid)
         (\<lambda>t. (f t)\<lparr>tk_revision := tk_revision t + 1, tk_updated := now\<rparr>) (project_tasks d)\<rparr>)"

definition close_or_reopen_task :: "instant \<Rightarrow> room_id \<Rightarrow> actor \<Rightarrow> task_request \<Rightarrow> nat dbtx" where
  "close_or_reopen_task now rid a q =
     (let tid = nat (tq_task_id q) in
      tx_bind (loadTask rid tid) (\<lambda>t.
      tx_bind (tx_guard ErrTaskRevision (int (pt_revision t) = tq_expected_revision q)) (\<lambda>_.
      tx_bind (if tq_action q = ''complete''
               then tx_guard ErrTaskNotFinished (pt_state t = TaskReview \<or> pt_state t = TaskTodo)
               else tx_guard ErrTaskNotCompleted (pt_state t = TaskCompleted)) (\<lambda>_.
      tx_bind (touch_task rid tid
         (\<lambda>r. if tq_action q = ''complete'' then r\<lparr>tk_completed_at := Some now, tk_completed_by := actor_name a\<rparr>
              else r\<lparr>tk_completed_at := None, tk_completed_by := []\<rparr>) now) (\<lambda>_.
      tx_bind (record_task_change rid tid (tq_action q) (actor_name a) now (tq_note q)) (\<lambda>_.
      tx_return tid))))))"

definition change_task_body :: "room_id \<Rightarrow> actor \<Rightarrow> task_request \<Rightarrow> instant \<Rightarrow> project_task dbtx" where
  "change_task_body rid a q now =
     (let h = sha256 (json_marshal (task_request_json q)) in
      tx_bind (requireTaskWriter rid a) (\<lambda>_.
      tx_bind (tx_read (\<lambda>d. find (\<lambda>r. tr_room r = rid \<and> tr_uid r = actor_uid a \<and> tr_request r = tq_request_id q) (task_receipts d))) (\<lambda>old.
        case old of
          Some r \<Rightarrow> tx_bind (tx_guard ErrIdempotencyConflict (tr_hash r = h)) (\<lambda>_. loadTask rid (tr_task r))
        | None \<Rightarrow>
            tx_bind (if tq_action q = ''convert'' then convert_task now rid a q
                     else close_or_reopen_task now rid a q) (\<lambda>tid.
            tx_bind (tx_write (\<lambda>d. d\<lparr>task_receipts := task_receipts d @
               [\<lparr>tr_room = rid, tr_uid = actor_uid a, tr_request = tq_request_id q, tr_task = tid, tr_hash = h\<rparr>]\<rparr>)) (\<lambda>_.
            loadTask rid tid)))))"

definition ChangeTask :: "room_id \<Rightarrow> actor \<Rightarrow> task_request \<Rightarrow> project_task store_op" where
  "ChangeTask rid a q = validated (task_request_error q) (transact (change_task_body rid a q))"

text \<open>Linking a new run, inside the transaction that accepts its message.\<close>

definition attachTaskMessage :: "instant \<Rightarrow> room_id \<Rightarrow> actor \<Rightarrow> nat \<Rightarrow> nat \<Rightarrow> unit dbtx" where
  "attachTaskMessage now rid a tid mid =
     tx_bind (requireTaskWriter rid a) (\<lambda>_.
     tx_bind (tx_read (load_task rid tid)) (\<lambda>t.
       case t of
         None \<Rightarrow> tx_fail ErrTaskMissing
       | Some x \<Rightarrow>
           if pt_state x = TaskCompleted then tx_fail ErrTaskCompleted
           else if pt_state x \<in> {TaskQueued, TaskRunning, TaskNeedsConfirmation} then tx_fail ErrTaskBusy
           else tx_bind (link_task_message rid tid mid) (\<lambda>_.
                tx_bind (touch_task rid tid (\<lambda>r. r) now) (\<lambda>_.
                record_task_change rid tid ''run_added'' (actor_name a) now []))))"

end
