(* ===== verification/Store_Messages.thy ===== *)
theory Store_Messages
  imports Store_Tasks
begin

text \<open>
  The repository of accepted commands and the event log (\<^verbatim>\<open>internal/store/repository.go\<close>): room
  initialisation, idempotent acceptance of prompts, notes and controls, the transitions of a
  dispatched prompt, completed items, and the paged read of the log. Every operation is a
  transaction body under \<open>transact\<close>, preceded by the validation the source runs first.
\<close>

subsection \<open>Initialisation and membership\<close>

record room_seed =
  rs_id :: room_id
  rs_display_name :: string
  rs_host_id :: string
  rs_project_root :: string
  rs_execution_owner_uid :: uid
  rs_members :: "member list"

fun validate_seed_members :: "uid \<Rightarrow> uid list \<Rightarrow> string list \<Rightarrow> bool \<Rightarrow> member list \<Rightarrow> err option" where
  "validate_seed_members owner uids names present [] = (if present then None else Some ErrInvalidInput)"
| "validate_seed_members owner uids names present (m # ms) =
     (if mb_uid m = 0 \<or> blank (mb_name m) \<or> trim_space (mb_name m) \<noteq> mb_name m then Some ErrInvalidInput
      else if mb_uid m \<in> set uids then Some ErrInvalidInput
      else if mb_name m \<in> set names then Some ErrInvalidInput
      else validate_seed_members owner (mb_uid m # uids) (mb_name m # names) (present \<or> mb_uid m = owner) ms)"

definition validateRoomSeed :: "room_seed \<Rightarrow> err option" where
  "validateRoomSeed s =
     (if blank (rs_id s) \<or> blank (rs_display_name s) \<or> blank (rs_host_id s) \<or> blank (rs_project_root s)
         \<or> rs_execution_owner_uid s = 0 \<or> rs_members s = []
      then Some ErrInvalidInput
      else validate_seed_members (rs_execution_owner_uid s) [] [] False (rs_members s))"

definition InitializeRoom :: "room_seed \<Rightarrow> unit store_op" where
  "InitializeRoom s = validated (validateRoomSeed s) (transact (\<lambda>now.
     tx_bind (tx_read (\<lambda>d. length (rooms d))) (\<lambda>n.
     tx_bind (tx_guard ErrAlreadyInitialized (n = 0)) (\<lambda>_.
     tx_write (\<lambda>d. d\<lparr>rooms := rooms d @
         [\<lparr>r_id = rs_id s, r_display_name = rs_display_name s, r_host_id = rs_host_id s,
           r_project_path = rs_project_root s, r_execution_owner_uid = rs_execution_owner_uid s,
           r_codex_thread_id = None, r_status = RoomReady, r_next_seq = 1\<rparr>],
         members := members d @ map (\<lambda>m. \<lparr>m_room = rs_id s, m_uid = mb_uid m, m_username = mb_name m\<rparr>) (rs_members s)\<rparr>)))))"

definition FindMember :: "room_id \<Rightarrow> uid \<Rightarrow> member store_op" where
  "FindMember rid u =
     validated (validateRoomID rid) (validated (if u = 0 then Some ErrInvalidInput else None) (transact (\<lambda>now.
       tx_bind (tx_read (find_member rid u)) (\<lambda>m.
         case m of
           None \<Rightarrow> tx_bind (requireRoom rid) (\<lambda>_. tx_fail ErrMemberNotFound)
         | Some r \<Rightarrow> tx_return \<lparr>mb_uid = m_uid r, mb_name = m_username r\<rparr>))))"

subsection \<open>Acceptance\<close>

definition canonicalHash :: "message_kind \<Rightarrow> uid \<Rightarrow> json \<Rightarrow> bytes" where
  "canonicalHash k u body =
     sha256 (json_marshal (JObj [(''version'', JNat 1), (''kind'', JStr (message_kind_text k)),
                                (''actor_uid'', JNat u), (''body'', body)]))"

definition acceptance_of :: "nat \<Rightarrow> client_message_id \<Rightarrow> seqno \<Rightarrow> request_state \<Rightarrow> string \<Rightarrow> bool \<Rightarrow> durable_event \<Rightarrow> acceptance" where
  "acceptance_of mid cid n s c dup e =
     \<lparr>ac_message_id = mid, ac_client_message_id = cid, ac_seq = n, ac_state = s,
      ac_error_code = c, ac_duplicate = dup, ac_event = e\<rparr>"

definition control_turn :: "message_kind \<Rightarrow> message_body \<Rightarrow> turn_id option" where
  "control_turn k b =
     (if is_control k then (case b of BodyControl turn _ \<Rightarrow> Some turn | _ \<Rightarrow> Some []) else None)"

definition accept_duplicate :: "room_id \<Rightarrow> client_message_id \<Rightarrow> stored_message \<Rightarrow> message_kind \<Rightarrow> uid \<Rightarrow> bytes \<Rightarrow> acceptance dbtx" where
  "accept_duplicate rid cid m k u h =
     tx_bind (tx_guard ErrIdempotencyConflict (sm_kind m = k \<and> sm_actor m = u \<and> sm_hash m = h)) (\<lambda>_.
     tx_bind (loadEventTx rid (sm_seq m)) (\<lambda>e.
     tx_return (acceptance_of (sm_id m) cid (sm_seq m) (sm_state m) (sm_error_code m) True e)))"

definition accept_new ::
  "room_id \<Rightarrow> actor \<Rightarrow> client_message_id \<Rightarrow> message_kind \<Rightarrow> message_body \<Rightarrow> bytes \<Rightarrow> request_state
     \<Rightarrow> bool \<Rightarrow> string \<Rightarrow> int \<Rightarrow> instant \<Rightarrow> acceptance dbtx" where
  "accept_new rid a cid k b h initial binding eventKind task now =
     tx_bind (requireActor rid a) (\<lambda>_.
     tx_bind (allocateSeq rid) (\<lambda>n.
     tx_bind (insertMessage rid cid (actor_uid a) k b h initial n now) (\<lambda>mid.
     tx_bind (if 0 < task then attachTaskMessage now rid a (nat task) mid else tx_return ()) (\<lambda>_.
     tx_bind (if binding then insertBinding rid mid (control_turn k b) initial else tx_return ()) (\<lambda>_.
     tx_bind (insertEventAt rid n (actor_uid a) eventKind
        (JObj [(''client_message_id'', JStr cid), (''message_id'', JNat mid),
              (''kind'', JStr (message_kind_text k)), (''body'', JStr (body_column b)),
              (''state'', JStr (request_state_text initial))]) now) (\<lambda>e.
     tx_return (acceptance_of mid cid n initial [] False e)))))))"

definition accept_body ::
  "room_id \<Rightarrow> actor \<Rightarrow> client_message_id \<Rightarrow> message_kind \<Rightarrow> message_body \<Rightarrow> bytes \<Rightarrow> request_state
     \<Rightarrow> bool \<Rightarrow> string \<Rightarrow> int \<Rightarrow> instant \<Rightarrow> acceptance dbtx" where
  "accept_body rid a cid k b h initial binding eventKind task now =
     tx_bind (tx_read (loadStoredMessage rid cid)) (\<lambda>old.
       case old of
         Some m \<Rightarrow> accept_duplicate rid cid m k (actor_uid a) h
       | None \<Rightarrow> accept_new rid a cid k b h initial binding eventKind task now)"

definition accept ::
  "room_id \<Rightarrow> actor \<Rightarrow> client_message_id \<Rightarrow> message_kind \<Rightarrow> message_body \<Rightarrow> bytes \<Rightarrow> request_state
     \<Rightarrow> bool \<Rightarrow> string \<Rightarrow> int \<Rightarrow> acceptance store_op" where
  "accept rid a cid k b h initial binding eventKind task =
     validated (validateRoomID rid) (transact (accept_body rid a cid k b h initial binding eventKind task))"

definition AcceptMessage :: "room_id \<Rightarrow> actor \<Rightarrow> submit_input \<Rightarrow> acceptance store_op" where
  "AcceptMessage rid a i =
     validated (validate_submit i)
       (accept rid a (si_client_message_id i) KPrompt (BodyText (si_text i))
          (canonicalHash KPrompt (actor_uid a) (JObj ([(''text'', JStr (si_text i))] @ opt_int ''taskId'' (si_task_id i))))
          RequestQueued True ''message/accepted'' (si_task_id i))"

definition AppendNote :: "room_id \<Rightarrow> actor \<Rightarrow> submit_input \<Rightarrow> acceptance store_op" where
  "AppendNote rid a i =
     validated (if si_task_id i \<noteq> 0 then Some ErrInvalidInput else None) (validated (validate_submit i)
       (accept rid a (si_client_message_id i) KNote (BodyText (si_text i))
          (canonicalHash KNote (actor_uid a) (JObj [(''text'', JStr (si_text i))]))
          RequestCompleted False ''note/accepted'' 0))"

definition control_message_kind :: "control_kind \<Rightarrow> message_kind" where
  "control_message_kind k = (if k = ControlSteer then KSteer else KCancel)"

definition AcceptControl :: "room_id \<Rightarrow> actor \<Rightarrow> control_input \<Rightarrow> acceptance store_op" where
  "AcceptControl rid a i =
     validated (validate_control i)
       (let k = control_message_kind (ci_kind i); b = BodyControl (ci_expected_turn_id i) (ci_text i) in
        accept rid a (ci_client_message_id i) k b (canonicalHash k (actor_uid a) (body_json b))
          RequestDispatching True ''control/accepted'' 0)"

subsection \<open>Diagnostics\<close>

definition code_alnum :: "char \<Rightarrow> bool" where
  "code_alnum c \<longleftrightarrow> in_range 97 122 c \<or> in_range 48 57 c"

text \<open>The tail of a normalised code; the flag says that the last byte was a separator.\<close>

fun code_tail :: "bool \<Rightarrow> string \<Rightarrow> bool" where
  "code_tail sep [] = (\<not> sep)"
| "code_tail sep (c # s) =
     (if code_alnum c then code_tail False s
      else if c \<in> {CHR ''.'', CHR ''_'', CHR ''-''} \<and> \<not> sep then code_tail True s
      else False)"

definition validErrorCode :: "string \<Rightarrow> bool" where
  "validErrorCode v \<longleftrightarrow>
     length v \<le> 64 \<and> (case v of [] \<Rightarrow> False | c # s \<Rightarrow> in_range 97 122 c \<and> code_tail False s)"

definition validDigest :: "string \<Rightarrow> bool" where
  "validDigest v \<longleftrightarrow> length v = 64 \<and> list_all lower_hex v"

definition validOptionalDigest :: "string \<Rightarrow> bool" where
  "validOptionalDigest v \<longleftrightarrow> v = [] \<or> validDigest v"

definition validateTerminalOutcome :: "request_state \<Rightarrow> string \<Rightarrow> string \<Rightarrow> bool \<Rightarrow> err option" where
  "validateTerminalOutcome s code digest controls =
     (if \<not> (s = RequestFailed \<or> s = RequestNeedsReview
            \<or> (if controls then s = RequestCompleted else s = RequestInterrupted)) then Some ErrInvalidInput
      else if s = RequestCompleted then
        (if code \<noteq> [] \<or> digest \<noteq> [] then Some ErrInvalidInput else None)
      else if \<not> validErrorCode code \<or> \<not> validOptionalDigest digest then Some ErrInvalidInput
      else None)"

definition validateFinishTurn :: "finish_turn_input \<Rightarrow> err option" where
  "validateFinishTurn i =
     (if ft_state i \<noteq> RequestCompleted \<and> ft_state i \<noteq> RequestFailed \<and> ft_state i \<noteq> RequestInterrupted
      then Some ErrInvalidInput
      else if ft_state i = RequestCompleted then
        (if ft_error_code i \<noteq> [] \<or> ft_error_digest i \<noteq> [] then Some ErrInvalidInput else None)
      else if \<not> validErrorCode (ft_error_code i) \<or> \<not> validOptionalDigest (ft_error_digest i)
      then Some ErrInvalidInput
      else None)"

definition validateReason :: "reason \<Rightarrow> err option" where
  "validateReason r =
     (if \<not> validErrorCode (re_code r) \<or> \<not> validDigest (re_detail_digest r) then Some ErrInvalidInput else None)"

lemma validDigest_sha256: "validDigest (hex_sha256 t)"
  by (simp add: validDigest_def list_all_iff lower_hex_sha256)

subsection \<open>Transitions of a dispatched message\<close>

definition begin_dispatch_body :: "room_id \<Rightarrow> client_message_id \<Rightarrow> instant \<Rightarrow> unit dbtx" where
  "begin_dispatch_body rid cid now =
     tx_bind (requireMessageState rid cid [KPrompt, KRecoveryPrompt] RequestQueued) (\<lambda>m.
     updateMessageAndBinding rid (sm_id m) RequestQueued RequestDispatching None None None None None)"

definition BeginDispatch :: "room_id \<Rightarrow> client_message_id \<Rightarrow> unit store_op" where
  "BeginDispatch rid cid = validated (validateIdentifiers rid cid) (transact (begin_dispatch_body rid cid))"

definition finish_control_body :: "room_id \<Rightarrow> client_message_id \<Rightarrow> outcome \<Rightarrow> instant \<Rightarrow> durable_event dbtx" where
  "finish_control_body rid cid oc now =
     tx_bind (requireMessageState rid cid [KSteer, KCancel] RequestDispatching) (\<lambda>m.
     tx_bind (updateMessageAndBinding rid (sm_id m) RequestDispatching (oc_state oc)
        (nullableCompletedAt (oc_state oc) now) (nullableString (oc_error_code oc))
        (nullableString (oc_error_digest oc)) None None) (\<lambda>_.
     appendEvent now rid (sm_actor m) (''control/'' @ request_state_text (oc_state oc))
       (JObj ([(''client_message_id'', JStr cid), (''state'', JStr (request_state_text (oc_state oc)))]
             @ opt_field ''error_code'' (oc_error_code oc) @ opt_field ''error_digest'' (oc_error_digest oc)))))"

definition FinishControl :: "room_id \<Rightarrow> client_message_id \<Rightarrow> outcome \<Rightarrow> durable_event store_op" where
  "FinishControl rid cid oc =
     validated (validateIdentifiers rid cid)
       (validated (validateTerminalOutcome (oc_state oc) (oc_error_code oc) (oc_error_digest oc) True)
         (transact (finish_control_body rid cid oc)))"

definition fail_dispatch_body :: "room_id \<Rightarrow> client_message_id \<Rightarrow> outcome \<Rightarrow> instant \<Rightarrow> durable_event dbtx" where
  "fail_dispatch_body rid cid oc now =
     tx_bind (requireMessageState rid cid [KPrompt, KRecoveryPrompt] RequestDispatching) (\<lambda>m.
     tx_bind (updateMessageAndBinding rid (sm_id m) RequestDispatching (oc_state oc)
        (nullableCompletedAt (oc_state oc) now) (nullableString (oc_error_code oc))
        (nullableString (oc_error_digest oc)) None None) (\<lambda>_.
     appendEvent now rid (sm_actor m) (''message/'' @ request_state_text (oc_state oc))
       (JObj ([(''client_message_id'', JStr cid), (''state'', JStr (request_state_text (oc_state oc))),
              (''error_code'', JStr (oc_error_code oc))] @ opt_field ''error_digest'' (oc_error_digest oc)))))"

definition FailDispatch :: "room_id \<Rightarrow> client_message_id \<Rightarrow> outcome \<Rightarrow> durable_event store_op" where
  "FailDispatch rid cid oc =
     validated (validateIdentifiers rid cid)
       (validated (validateTerminalOutcome (oc_state oc) (oc_error_code oc) (oc_error_digest oc) False)
         (transact (fail_dispatch_body rid cid oc)))"

definition bind_running_body :: "room_id \<Rightarrow> client_message_id \<Rightarrow> turn_id \<Rightarrow> instant \<Rightarrow> durable_event dbtx" where
  "bind_running_body rid cid turn now =
     tx_bind (requireMessageState rid cid [KPrompt, KRecoveryPrompt] RequestDispatching) (\<lambda>m.
     tx_bind (updateMessageAndBinding rid (sm_id m) RequestDispatching RequestRunning None None None
        (Some turn) (Some now)) (\<lambda>_.
     appendEvent now rid (sm_actor m) ''turn/running''
       (JObj [(''client_message_id'', JStr cid), (''turn_id'', JStr turn)])))"

definition BindRunningTurn :: "room_id \<Rightarrow> client_message_id \<Rightarrow> turn_id \<Rightarrow> durable_event store_op" where
  "BindRunningTurn rid cid turn =
     validated (validateIdentifiers rid cid)
       (validated (if blank turn then Some ErrInvalidInput else None) (transact (bind_running_body rid cid turn)))"

definition running_turn :: "room_id \<Rightarrow> turn_id \<Rightarrow> db \<Rightarrow> message_row option" where
  "running_turn rid turn d =
     find (\<lambda>m. msg_room m = rid \<and> is_prompt (msg_kind m)
            \<and> (msg_state m = RequestRunning \<or> msg_state m = RequestNeedsReview)
            \<and> (\<exists>b \<in> set (turn_bindings d). b_message b = msg_id m \<and> b_room b = rid
                 \<and> b_state b = msg_state m \<and> b_turn b = Some turn)) (messages d)"

definition finish_turn_body :: "room_id \<Rightarrow> finish_turn_input \<Rightarrow> instant \<Rightarrow> durable_event list dbtx" where
  "finish_turn_body rid i now =
     tx_bind (tx_read (running_turn rid (ft_turn_id i))) (\<lambda>m.
       case m of
         None \<Rightarrow> tx_bind (requireRoom rid) (\<lambda>_. tx_fail ErrInvalidState)
       | Some r \<Rightarrow>
           tx_bind (updateMessageAndBinding rid (msg_id r) (msg_state r) (ft_state i)
              (nullableCompletedAt (ft_state i) now) (nullableString (ft_error_code i))
              (nullableString (ft_error_digest i)) None None) (\<lambda>_.
           tx_bind (appendEvent now rid (msg_actor r) (''turn/'' @ request_state_text (ft_state i))
             (JObj ([(''turn_id'', JStr (ft_turn_id i)), (''state'', JStr (request_state_text (ft_state i)))]
                   @ opt_field ''error_code'' (ft_error_code i) @ opt_field ''error_digest'' (ft_error_digest i)))) (\<lambda>e.
           tx_return [e])))"

definition FinishTurn :: "room_id \<Rightarrow> finish_turn_input \<Rightarrow> durable_event list store_op" where
  "FinishTurn rid i =
     validated (validateRoomID rid)
       (validated (if blank (ft_turn_id i) then Some ErrInvalidInput else None)
         (validated (validateFinishTurn i) (transact (finish_turn_body rid i))))"

definition mark_needs_review_body :: "room_id \<Rightarrow> client_message_id \<Rightarrow> reason \<Rightarrow> instant \<Rightarrow> durable_event dbtx" where
  "mark_needs_review_body rid cid re now =
     tx_bind (tx_read (loadStoredMessage rid cid)) (\<lambda>m.
       case m of
         None \<Rightarrow> tx_bind (requireRoom rid) (\<lambda>_. tx_fail ErrMessageNotFound)
       | Some x \<Rightarrow>
           tx_bind (tx_guard ErrInvalidState (sm_state x = RequestDispatching \<or> sm_state x = RequestRunning)) (\<lambda>_.
           tx_bind (tx_guard ErrInvalidState (sm_kind x \<noteq> KNote \<and> sm_kind x \<noteq> KRecover)) (\<lambda>_.
           tx_bind (updateMessageAndBinding rid (sm_id x) (sm_state x) RequestNeedsReview None
              (nullableString (re_code re)) (nullableString (re_detail_digest re)) None None) (\<lambda>_.
           appendEvent now rid (sm_actor x) ''message/needs-review''
             (JObj [(''client_message_id'', JStr cid), (''code'', JStr (re_code re)),
                   (''detail_digest'', JStr (re_detail_digest re))])))))"

definition MarkNeedsReview :: "room_id \<Rightarrow> client_message_id \<Rightarrow> reason \<Rightarrow> durable_event store_op" where
  "MarkNeedsReview rid cid re =
     validated (validateIdentifiers rid cid)
       (validated (validateReason re) (transact (mark_needs_review_body rid cid re)))"

subsection \<open>Completed items\<close>

definition max_item_bytes :: nat where
  "max_item_bytes = 8388608 - 131072"

definition item_error :: "completed_item \<Rightarrow> err option" where
  "item_error i =
     (if blank (it_thread_id i) \<or> blank (it_turn_id i) \<or> blank (it_item_id i) \<or> \<not> json_valid (it_payload i)
      then Some ErrInvalidInput
      else if 4096 < length (it_thread_id i) \<or> 4096 < length (it_turn_id i) \<or> 4096 < length (it_item_id i)
      then Some ErrInvalidInput
      else None)"

text \<open>The payload as it is stored: compacted, or a marker where it would not fit a frame.\<close>

definition stored_payload :: "bytes \<Rightarrow> bytes" where
  "stored_payload p =
     (let c = json_compact_html p in
      if length c \<le> max_item_bytes then c
      else json_marshal (JObj [(''type'', JStr ''output-omitted''), (''originalBytes'', JNat (length p)),
                              (''sha256'', JStr (hex_sha256 c))]))"

definition find_item :: "room_id \<Rightarrow> completed_item \<Rightarrow> db \<Rightarrow> durable_event option" where
  "find_item rid i d =
     find (\<lambda>e. de_kind e = ''item/completed''
              \<and> extract_text [''thread_id''] (de_payload e) = Some (it_thread_id i)
              \<and> extract_text [''turn_id''] (de_payload e) = Some (it_turn_id i)
              \<and> extract_text [''item_id''] (de_payload e) = Some (it_item_id i))
       (sort_key de_seq (events_of rid d))"

definition event_item_payload :: "durable_event \<Rightarrow> bytes" where
  "event_item_payload e =
     (case json_get ''payload'' (de_payload e) of
        Some (JRaw t) \<Rightarrow> t | Some v \<Rightarrow> json_marshal v | None \<Rightarrow> [])"

definition same_item_payload :: "bytes \<Rightarrow> bytes \<Rightarrow> bool" where
  "same_item_payload old new =
     (let o' = json_compact old; n' = json_compact new;
          om = json_parse o'; nm = json_parse n' in
      o' = n' \<or>
      (unmarshal_string ''type'' om = ''output-omitted'' \<and> unmarshal_string ''type'' nm = ''output-omitted''
       \<and> unmarshal_string ''sha256'' om \<noteq> [] \<and> unmarshal_string ''sha256'' om = unmarshal_string ''sha256'' nm))"

definition record_item_body :: "room_id \<Rightarrow> completed_item \<Rightarrow> instant \<Rightarrow> durable_event dbtx" where
  "record_item_body rid i now =
     tx_bind (tx_read (find_room rid)) (\<lambda>r.
       case r of
         None \<Rightarrow> tx_fail ErrRoomNotFound
       | Some row \<Rightarrow>
           tx_bind (tx_guard ErrInvalidState (r_codex_thread_id row = Some (it_thread_id i))) (\<lambda>_.
           tx_bind (tx_read (find_item rid i)) (\<lambda>old.
             case old of
               Some e \<Rightarrow>
                 tx_bind (tx_guard ErrInvalidState
                    (same_item_payload (event_item_payload e) (stored_payload (it_payload i)))) (\<lambda>_.
                 tx_return e)
             | None \<Rightarrow>
                 appendEvent now rid 0 ''item/completed''
                   (JObj [(''thread_id'', JStr (it_thread_id i)), (''turn_id'', JStr (it_turn_id i)),
                         (''item_id'', JStr (it_item_id i)), (''payload'', JRaw (stored_payload (it_payload i)))]))))"

definition RecordCompletedItem :: "room_id \<Rightarrow> completed_item \<Rightarrow> durable_event store_op" where
  "RecordCompletedItem rid i =
     validated (validateRoomID rid) (validated (item_error i) (transact (record_item_body rid i)))"

subsection \<open>Reading the log\<close>

definition LatestSeq :: "room_id \<Rightarrow> seqno store_op" where
  "LatestSeq rid = validated (validateRoomID rid) (transact (\<lambda>now.
     tx_bind (tx_read (find_room rid)) (\<lambda>r.
       case r of None \<Rightarrow> tx_fail ErrRoomNotFound | Some row \<Rightarrow> tx_return (r_next_seq row - 1))))"

definition select_events :: "room_id \<Rightarrow> seqno \<Rightarrow> seqno \<Rightarrow> nat \<Rightarrow> db \<Rightarrow> durable_event list" where
  "select_events rid after through limit d =
     take limit (sort_key de_seq
       (filter (\<lambda>e. after < de_seq e \<and> (through = 0 \<or> de_seq e \<le> through)) (events_of rid d)))"

definition Events :: "room_id \<Rightarrow> seqno \<Rightarrow> seqno \<Rightarrow> int \<Rightarrow> durable_event list store_op" where
  "Events rid after through limit =
     validated (validateRoomID rid)
       (validated (if limit \<le> 0 \<or> (through \<noteq> 0 \<and> through < after) then Some ErrInvalidInput else None)
         (transact (\<lambda>now. tx_bind (requireRoom rid) (\<lambda>_. tx_read (select_events rid after through (nat limit))))))"

end
