(* ===== verification/Store_Recovery.thy ===== *)
theory Store_Recovery
  imports Store_Messages
begin

text \<open>
  Durable recovery (\<^verbatim>\<open>internal/store/recovery.go\<close>, \<^verbatim>\<open>private_turns.go\<close>, \<^verbatim>\<open>admin.go\<close>,
  \<^verbatim>\<open>unused_thread.go\<close>): the image a restarted coordinator loads, runtime checkpoints, thread
  binding and repair, room status changes, and the resolution of messages whose delivery is
  uncertain by retrying, skipping or continuing them.
\<close>

subsection \<open>The recovery image\<close>

definition binding_state_agrees :: "message_row \<Rightarrow> db \<Rightarrow> binding_row option" where
  "binding_state_agrees m d =
     (case find_binding (msg_room m) (msg_id m) d of
        Some b \<Rightarrow> if b_state b = msg_state m then Some b else None
      | None \<Rightarrow> None)"

definition turn_binding_of :: "message_row \<Rightarrow> binding_row \<Rightarrow> turn_binding" where
  "turn_binding_of m b =
     \<lparr>tb_message_id = msg_client m,
      tb_turn_id = (case b_turn b of Some t \<Rightarrow> t | None \<Rightarrow> []),
      tb_state = b_state b\<rparr>"

definition bound_messages :: "(message_row \<Rightarrow> bool) \<Rightarrow> room_id \<Rightarrow> db \<Rightarrow> turn_binding list" where
  "bound_messages P rid d =
     List.map_filter (\<lambda>m. map_option (turn_binding_of m) (binding_state_agrees m d))
       (sort_key msg_seq (filter (\<lambda>m. msg_room m = rid \<and> P m) (messages d)))"

definition active_state :: "request_state \<Rightarrow> bool" where
  "active_state s \<longleftrightarrow> s = RequestDispatching \<or> s = RequestRunning \<or> s = RequestNeedsReview"

definition image_active :: "room_id \<Rightarrow> db \<Rightarrow> turn_binding option" where
  "image_active rid d =
     (case bound_messages (\<lambda>m. is_prompt (msg_kind m) \<and> active_state (msg_state m)) rid d of
        [] \<Rightarrow> None | b # _ \<Rightarrow> Some b)"

definition image_controls :: "room_id \<Rightarrow> db \<Rightarrow> turn_binding list" where
  "image_controls rid d =
     bound_messages (\<lambda>m. is_control (msg_kind m)
        \<and> (msg_state m = RequestDispatching \<or> msg_state m = RequestNeedsReview)) rid d"

definition message_task :: "room_id \<Rightarrow> nat \<Rightarrow> db \<Rightarrow> nat option" where
  "message_task rid mid d =
     map_option (\<lambda>(_, t, _). t) (find (\<lambda>(r, _, m). r = rid \<and> m = mid) (task_messages d))"

definition queued_of :: "room_id \<Rightarrow> db \<Rightarrow> message_row \<Rightarrow> queued_message option" where
  "queued_of rid d m =
     map_option (\<lambda>mb.
       \<lparr>qm_input =
          \<lparr>si_task_id = (case message_task rid (msg_id m) d of Some t \<Rightarrow> int t | None \<Rightarrow> 0),
           si_client_message_id = msg_client m, si_text = body_column (msg_body m)\<rparr>,
        qm_actor = \<lparr>actor_uid = msg_actor m, actor_name = m_username mb\<rparr>,
        qm_accepted_seq = msg_seq m\<rparr>)
       (find_member rid (msg_actor m) d)"

definition image_queue :: "room_id \<Rightarrow> db \<Rightarrow> queued_message list" where
  "image_queue rid d =
     List.map_filter (queued_of rid d)
       (sort_key msg_seq (filter (\<lambda>m. msg_room m = rid \<and> is_prompt (msg_kind m) \<and> msg_state m = RequestQueued) (messages d)))"

definition load_image :: "room_id \<Rightarrow> room_row \<Rightarrow> db \<Rightarrow> recovery_image" where
  "load_image rid r d =
     \<lparr>im_status = r_status r,
      im_thread_id = (case r_codex_thread_id r of Some t \<Rightarrow> t | None \<Rightarrow> []),
      im_active = image_active rid d,
      im_pending_controls = image_controls rid d,
      im_queue = image_queue rid d,
      im_checkpoint = map_of (runtime_checkpoints d) rid\<rparr>"

definition load_image_body :: "room_id \<Rightarrow> instant \<Rightarrow> recovery_image dbtx" where
  "load_image_body rid now =
     tx_bind (tx_read (find_room rid)) (\<lambda>r.
       case r of None \<Rightarrow> tx_fail ErrRoomNotFound | Some row \<Rightarrow> tx_read (load_image rid row))"

definition LoadRecoveryImage :: "room_id \<Rightarrow> recovery_image store_op" where
  "LoadRecoveryImage rid = validated (validateRoomID rid) (transact (load_image_body rid))"

subsection \<open>Runtime checkpoints\<close>

definition validateCheckpoint :: "runtime_checkpoint \<Rightarrow> err option" where
  "validateCheckpoint c =
     (if cp_state c \<noteq> RuntimeProcessRunning \<and> cp_state c \<noteq> RuntimeProcessStopped then Some ErrInvalidInput
      else if blank (cp_generation c) \<or> blank (cp_process_start c) \<or> blank (cp_codex_version c)
              \<or> \<not> validDigest (cp_schema_sha256 c) then Some ErrInvalidInput
      else if cp_state c = RuntimeProcessRunning then
        (if cp_pid c \<le> 1 \<or> cp_pgid c \<le> 1 then Some ErrInvalidInput else None)
      else (if cp_pid c \<noteq> 0 \<or> cp_pgid c \<noteq> 0 then Some ErrInvalidInput else None))"

definition save_checkpoint_body :: "room_id \<Rightarrow> runtime_checkpoint \<Rightarrow> instant \<Rightarrow> unit dbtx" where
  "save_checkpoint_body rid c now =
     tx_bind (requireRoom rid) (\<lambda>_.
     tx_write (\<lambda>d. d\<lparr>runtime_checkpoints :=
       (if rid \<in> fst ` set (runtime_checkpoints d)
        then update_where (\<lambda>p. fst p = rid) (\<lambda>p. (fst p, c)) (runtime_checkpoints d)
        else runtime_checkpoints d @ [(rid, c)])\<rparr>))"

definition SaveRuntimeCheckpoint :: "room_id \<Rightarrow> runtime_checkpoint \<Rightarrow> unit store_op" where
  "SaveRuntimeCheckpoint rid c =
     validated (validateRoomID rid) (validated (validateCheckpoint c) (transact (save_checkpoint_body rid c)))"

subsection \<open>Threads and room status\<close>

definition validRequestState :: "request_state \<Rightarrow> bool" where
  "validRequestState s \<longleftrightarrow> (case s of RequestOther _ \<Rightarrow> False | _ \<Rightarrow> True)"

definition validateThreadSnapshot :: "thread_snapshot \<Rightarrow> err option" where
  "validateThreadSnapshot t =
     (if blank (th_id t) \<or> blank (th_cwd t) then Some ErrInvalidInput
      else if list_all (\<lambda>turn. \<not> blank (ts_id turn) \<and> validRequestState (ts_state turn)
          \<and> list_all (\<lambda>i. it_thread_id i = th_id t \<and> it_turn_id i = ts_id turn \<and> \<not> blank (it_item_id i)
                \<and> json_valid (it_payload i)) (ts_items turn)) (th_turns t)
      then None else Some ErrInvalidInput)"

definition update_room :: "room_id \<Rightarrow> (room_row \<Rightarrow> bool) \<Rightarrow> (room_row \<Rightarrow> room_row) \<Rightarrow> unit dbtx" where
  "update_room rid P f =
     tx_bind (tx_read (\<lambda>d. count_where (\<lambda>r. r_id r = rid \<and> P r) (rooms d))) (\<lambda>n.
     tx_bind (tx_guard ErrInvalidState (n = 1)) (\<lambda>_.
     tx_write (\<lambda>d. d\<lparr>rooms := update_where (\<lambda>r. r_id r = rid \<and> P r) f (rooms d)\<rparr>)))"

definition opt_text :: "string option \<Rightarrow> string" where
  "opt_text v = (case v of Some t \<Rightarrow> t | None \<Rightarrow> [])"

definition bind_thread_body :: "room_id \<Rightarrow> thread_snapshot \<Rightarrow> instant \<Rightarrow> durable_event dbtx" where
  "bind_thread_body rid t now =
     tx_bind (tx_read (find_room rid)) (\<lambda>r.
       case r of
         None \<Rightarrow> tx_fail ErrRoomNotFound
       | Some row \<Rightarrow>
           tx_bind (tx_guard ErrInvalidInput (th_cwd t = r_project_path row)) (\<lambda>_.
           tx_bind (update_room rid (\<lambda>x. r_codex_thread_id x = r_codex_thread_id row)
                      (\<lambda>x. x\<lparr>r_codex_thread_id := Some (th_id t)\<rparr>)) (\<lambda>_.
           appendEvent now rid 0 ''thread/bound''
             (JObj (opt_field ''previous_thread_id'' (opt_text (r_codex_thread_id row))
                    @ [(''thread_id'', JStr (th_id t)), (''cwd'', JStr (th_cwd t))])))))"

definition BindThread :: "room_id \<Rightarrow> thread_snapshot \<Rightarrow> durable_event store_op" where
  "BindThread rid t =
     validated (validateRoomID rid) (validated (validateThreadSnapshot t) (transact (bind_thread_body rid t)))"

definition mark_repair_body :: "room_id \<Rightarrow> reason \<Rightarrow> instant \<Rightarrow> durable_event dbtx" where
  "mark_repair_body rid re now =
     tx_bind (tx_read (find_room rid)) (\<lambda>r.
       case r of
         None \<Rightarrow> tx_fail ErrRoomNotFound
       | Some row \<Rightarrow>
           tx_bind (tx_guard ErrInvalidState (r_status row \<noteq> RoomThreadNeedsRepair)) (\<lambda>_.
           tx_bind (update_room rid (\<lambda>x. r_status x = r_status row) (\<lambda>x. x\<lparr>r_status := RoomThreadNeedsRepair\<rparr>)) (\<lambda>_.
           appendEvent now rid 0 ''thread/needs-repair''
             (JObj (opt_field ''thread_id'' (opt_text (r_codex_thread_id row))
                    @ [(''code'', JStr (re_code re)), (''detail_digest'', JStr (re_detail_digest re))])))))"

definition MarkThreadNeedsRepair :: "room_id \<Rightarrow> reason \<Rightarrow> durable_event store_op" where
  "MarkThreadNeedsRepair rid re =
     validated (validateRoomID rid) (validated (validateReason re) (transact (mark_repair_body rid re)))"

definition set_status_body :: "room_id \<Rightarrow> room_status \<Rightarrow> instant \<Rightarrow> durable_event option dbtx" where
  "set_status_body rid st now =
     tx_bind (tx_read (find_room rid)) (\<lambda>r.
       case r of
         None \<Rightarrow> tx_fail ErrRoomNotFound
       | Some row \<Rightarrow>
           if r_status row = st then tx_return None
           else tx_bind (update_room rid (\<lambda>x. r_status x = r_status row) (\<lambda>x. x\<lparr>r_status := st\<rparr>)) (\<lambda>_.
                tx_bind (appendEvent now rid 0 ''room/status''
                   (JObj [(''previous'', JStr (room_status_text (r_status row))),
                          (''current'', JStr (room_status_text st))])) (\<lambda>e.
                tx_return (Some e))))"

definition SetRoomStatus :: "room_id \<Rightarrow> room_status \<Rightarrow> durable_event option store_op" where
  "SetRoomStatus rid st =
     validated (validateRoomID rid)
       (validated (case st of RoomOther _ \<Rightarrow> Some ErrInvalidInput | _ \<Rightarrow> None) (transact (set_status_body rid st)))"

definition repair_thread_body :: "room_id \<Rightarrow> thread_snapshot \<Rightarrow> reason \<Rightarrow> instant \<Rightarrow> durable_event dbtx" where
  "repair_thread_body rid t re now =
     tx_bind (tx_read (find_room rid)) (\<lambda>r.
       case r of
         None \<Rightarrow> tx_fail ErrRoomNotFound
       | Some row \<Rightarrow>
           tx_bind (tx_guard ErrInvalidInput (th_cwd t = r_project_path row)) (\<lambda>_.
           tx_bind (tx_write (\<lambda>d. d\<lparr>rooms := update_where (\<lambda>x. r_id x = rid)
               (\<lambda>x. x\<lparr>r_codex_thread_id := Some (th_id t), r_status := RoomRecovering\<rparr>) (rooms d)\<rparr>)) (\<lambda>_.
           appendEvent now rid 0 ''thread/repaired''
             (JObj (opt_field ''previous_thread_id'' (opt_text (r_codex_thread_id row))
                    @ [(''thread_id'', JStr (th_id t)), (''cwd'', JStr (th_cwd t)),
                       (''code'', JStr (re_code re)), (''detail_digest'', JStr (re_detail_digest re))])))))"

definition RepairThread :: "room_id \<Rightarrow> thread_snapshot \<Rightarrow> reason \<Rightarrow> durable_event store_op" where
  "RepairThread rid t re =
     validated (validateRoomID rid) (validated (validateThreadSnapshot t)
       (validated (validateReason re) (transact (repair_thread_body rid t re))))"

definition agent_activity :: "room_id \<Rightarrow> db \<Rightarrow> bool" where
  "agent_activity rid d \<longleftrightarrow>
     (\<exists>m \<in> set (messages d). msg_room m = rid \<and> msg_kind m \<noteq> KNote)
     \<or> (\<exists>b \<in> set (turn_bindings d). b_room b = rid)
     \<or> (\<exists>e \<in> set (events_of rid d). de_kind e = ''item/completed'')"

definition HasAgentActivity :: "room_id \<Rightarrow> bool store_op" where
  "HasAgentActivity rid = transact (\<lambda>now. tx_read (agent_activity rid))"

definition reset_thread_body :: "room_id \<Rightarrow> thread_id \<Rightarrow> instant \<Rightarrow> bool dbtx" where
  "reset_thread_body rid expected now =
     tx_bind (tx_read (\<lambda>d. (find_room rid d, agent_activity rid d))) (\<lambda>(r, active).
       case r of
         None \<Rightarrow> tx_fail ErrRoomNotFound
       | Some row \<Rightarrow>
           if r_codex_thread_id row \<noteq> Some expected \<or> active then tx_return False
           else tx_bind (tx_write (\<lambda>d. d\<lparr>rooms := update_where (\<lambda>x. r_id x = rid \<and> r_codex_thread_id x = Some expected)
                    (\<lambda>x. x\<lparr>r_codex_thread_id := None, r_status := RoomReady\<rparr>) (rooms d)\<rparr>)) (\<lambda>_.
                tx_bind (appendEvent now rid 0 ''thread/empty-reset''
                   (JObj [(''previous_thread_id'', JStr expected),
                          (''reason'', JStr ''upstream-missing-before-first-task'')])) (\<lambda>_.
                tx_return True)))"

definition ResetUnusedThread :: "room_id \<Rightarrow> thread_id \<Rightarrow> bool store_op" where
  "ResetUnusedThread rid expected =
     validated (if expected = [] then Some ErrInvalidInput else None) (transact (reset_thread_body rid expected))"

subsection \<open>Resolving reviews\<close>

definition resetReviewedPrompt :: "room_id \<Rightarrow> nat \<Rightarrow> unit dbtx" where
  "resetReviewedPrompt rid mid =
     tx_bind (updateMessageState ErrStaleRecovery rid mid RequestNeedsReview RequestQueued) (\<lambda>_.
     updateBinding ErrStaleRecovery rid mid RequestNeedsReview
       (\<lambda>b. b\<lparr>b_state := RequestQueued, b_turn := None, b_started := None, b_completed := None,
             b_error_code := None, b_error_digest := None\<rparr>))"

definition resetReviewedControl :: "room_id \<Rightarrow> nat \<Rightarrow> unit dbtx" where
  "resetReviewedControl rid mid =
     tx_bind (updateMessageState ErrStaleRecovery rid mid RequestNeedsReview RequestDispatching) (\<lambda>_.
     updateBinding ErrStaleRecovery rid mid RequestNeedsReview
       (\<lambda>b. b\<lparr>b_state := RequestDispatching, b_completed := None, b_error_code := None, b_error_digest := None\<rparr>))"

definition terminalizeReviewed :: "room_id \<Rightarrow> nat \<Rightarrow> string \<Rightarrow> instant \<Rightarrow> unit dbtx" where
  "terminalizeReviewed rid mid code completedAt =
     tx_bind (updateMessageState ErrStaleRecovery rid mid RequestNeedsReview RequestFailed) (\<lambda>_.
     updateBinding ErrStaleRecovery rid mid RequestNeedsReview
       (\<lambda>b. b\<lparr>b_state := RequestFailed, b_completed := Some completedAt, b_error_code := Some code,
             b_error_digest := None\<rparr>))"

definition retryCommand :: "room_id \<Rightarrow> client_message_id \<Rightarrow> stored_message \<Rightarrow> retry_command dbtx" where
  "retryCommand rid cid m =
     tx_bind (tx_read (find_member rid (sm_actor m))) (\<lambda>mb.
       case mb of
         None \<Rightarrow> tx_fail ErrNoRows
       | Some r \<Rightarrow> tx_return
           \<lparr>rc_kind = (if sm_kind m = KCancel then RetryCancel else RetrySteer),
            rc_client_message_id = cid,
            rc_actor = \<lparr>actor_uid = m_uid r, actor_name = m_username r\<rparr>,
            rc_expected_turn_id = (case sm_body m of BodyControl turn _ \<Rightarrow> turn | _ \<Rightarrow> []),
            rc_text = (case sm_body m of BodyControl _ t \<Rightarrow> t | _ \<Rightarrow> [])\<rparr>)"

definition recoveryRetryState :: "message_kind \<Rightarrow> request_state" where
  "recoveryRetryState k = (if is_prompt k then RequestQueued else RequestDispatching)"

definition tx_map_err :: "('e \<Rightarrow> 'e) \<Rightarrow> ('e, 's, 'a) tx \<Rightarrow> ('e, 's, 'a) tx" where
  "tx_map_err f m = (\<lambda>s. case m s of Inl e \<Rightarrow> Inl (f e) | Inr r \<Rightarrow> Inr r)"

lemma tx_map_err_Inr [simp]: "tx_map_err f m s = Inr r \<longleftrightarrow> m s = Inr r"
  by (auto simp: tx_map_err_def split: sum.splits)

definition insertRecoveryPrompt ::
  "instant \<Rightarrow> room_id \<Rightarrow> actor \<Rightarrow> client_message_id \<Rightarrow> string \<Rightarrow> nat \<Rightarrow> durable_event dbtx" where
  "insertRecoveryPrompt now rid a cid instr source =
     tx_bind (allocateSeq rid) (\<lambda>n.
     tx_bind (tx_map_err (\<lambda>e. if e = ErrConstraint then ErrIdempotencyConflict else e)
        (insertMessage rid cid (actor_uid a) KRecoveryPrompt (BodyText instr)
           (canonicalHash KRecoveryPrompt (actor_uid a) (JObj [(''text'', JStr instr)])) RequestQueued n now)) (\<lambda>mid.
     tx_bind (insertBinding rid mid None RequestQueued) (\<lambda>_.
     tx_bind (tx_read (message_task rid source)) (\<lambda>task.
     tx_bind (case task of Some t \<Rightarrow> attachTaskMessage now rid a t mid | None \<Rightarrow> tx_return ()) (\<lambda>_.
     insertEventAt rid n (actor_uid a) ''message/accepted''
       (JObj [(''client_message_id'', JStr cid), (''message_id'', JNat mid),
              (''kind'', JStr ''recovery-prompt''), (''body'', JStr instr),
              (''state'', JStr (request_state_text RequestQueued))]) now)))))"

definition loadRecoveryEvents :: "room_id \<Rightarrow> nat \<Rightarrow> durable_event list dbtx" where
  "loadRecoveryEvents rid mid =
     tx_bind (tx_read (\<lambda>d.
        List.map_filter (\<lambda>(_, _, _, n). find_event rid n d)
          (sort_key (\<lambda>(_, ordinal, _, _). ordinal)
             (filter (\<lambda>(m, _, r, _). m = mid \<and> r = rid) (recovery_result_events d))))) (\<lambda>es.
     tx_bind (tx_guard ErrRecoveryEventsMissing (es \<noteq> [])) (\<lambda>_.
     tx_return es))"

definition resolve_retry ::
  "instant \<Rightarrow> room_id \<Rightarrow> actor \<Rightarrow> recover_input \<Rightarrow> stored_message
     \<Rightarrow> (durable_event list \<times> retry_command option) dbtx" where
  "resolve_retry now rid a i target =
     tx_bind (if is_prompt (sm_kind target)
              then tx_bind (resetReviewedPrompt rid (sm_id target)) (\<lambda>_. tx_return None)
              else tx_bind (resetReviewedControl rid (sm_id target)) (\<lambda>_.
                   tx_bind (retryCommand rid (ri_target_message_id i) target) (\<lambda>rc. tx_return (Some rc)))) (\<lambda>retry.
     tx_bind (appendEvent now rid (actor_uid a) ''recovery/retried''
        (JObj [(''target_message_id'', JStr (ri_target_message_id i)),
               (''state'', JStr (request_state_text (recoveryRetryState (sm_kind target)))),
               (''duplicate_effects_possible'', JBool True)])) (\<lambda>e.
     tx_return ([e], retry)))"

definition resolve_abandon ::
  "instant \<Rightarrow> room_id \<Rightarrow> actor \<Rightarrow> recover_input \<Rightarrow> stored_message
     \<Rightarrow> (durable_event list \<times> retry_command option) dbtx" where
  "resolve_abandon now rid a i target =
     (let cont = (ri_action i = RecoveryContinue);
          code = (if cont then ''recovery-continued'' else ''recovery-skipped'');
          kind = (if cont then ''recovery/continued'' else ''recovery/skipped'') in
      tx_bind (terminalizeReviewed rid (sm_id target) code now) (\<lambda>_.
      tx_bind (appendEvent now rid (actor_uid a) kind
         (JObj [(''target_message_id'', JStr (ri_target_message_id i)),
                (''state'', JStr (request_state_text RequestFailed)), (''error_code'', JStr code)])) (\<lambda>e.
      if cont then
        tx_bind (insertRecoveryPrompt now rid a (ri_replacement_message_id i) (ri_instruction i) (sm_id target)) (\<lambda>r.
        tx_return ([e, r], None))
      else tx_return ([e], None))))"

definition link_recovery_events :: "room_id \<Rightarrow> nat \<Rightarrow> durable_event list \<Rightarrow> unit dbtx" where
  "link_recovery_events rid mid es =
     tx_write (\<lambda>d. d\<lparr>recovery_result_events := recovery_result_events d @
       map2 (\<lambda>i e. (mid, i, rid, de_seq e)) [0..<length es] es\<rparr>)"

definition resolve_new :: "room_id \<Rightarrow> actor \<Rightarrow> recover_input \<Rightarrow> bytes \<Rightarrow> instant \<Rightarrow> recovery_result dbtx" where
  "resolve_new rid a i h now =
     tx_bind (requireActor rid a) (\<lambda>_.
     tx_bind (tx_read (loadStoredMessage rid (ri_target_message_id i))) (\<lambda>t.
       case t of
         None \<Rightarrow> tx_fail ErrMessageNotFound
       | Some target \<Rightarrow>
           tx_bind (tx_guard ErrStaleRecovery
              (sm_state target = RequestNeedsReview \<and> sm_kind target \<noteq> KNote \<and> sm_kind target \<noteq> KRecover)) (\<lambda>_.
           tx_bind (tx_read (find_message rid (ri_replacement_message_id i))) (\<lambda>repl.
           tx_bind (tx_guard ErrIdempotencyConflict (ri_action i = RecoveryContinue \<longrightarrow> repl = None)) (\<lambda>_.
           tx_bind (allocateSeq rid) (\<lambda>n.
           tx_bind (insertMessage rid (ri_client_message_id i) (actor_uid a) KRecover
              (BodyRecover (ri_target_message_id i) (ri_action i) (ri_replacement_message_id i) (ri_instruction i))
              h RequestCompleted n now) (\<lambda>mid.
           tx_bind (insertEventAt rid n (actor_uid a) ''recovery/accepted''
              (JObj [(''client_message_id'', JStr (ri_client_message_id i)),
                     (''target_message_id'', JStr (ri_target_message_id i)),
                     (''action'', JStr (recovery_action_text (ri_action i)))]) now) (\<lambda>acc.
           tx_bind (case ri_action i of
                RecoveryRetry \<Rightarrow> resolve_retry now rid a i target
              | RecoveryOther _ \<Rightarrow> tx_fail ErrInvalidInput
              | _ \<Rightarrow> resolve_abandon now rid a i target) (\<lambda>(es, retry).
           tx_bind (tx_write (\<lambda>d. d\<lparr>recovery_results := recovery_results d @ [(mid, rid, sm_id target, ri_action i)]\<rparr>)) (\<lambda>_.
           tx_bind (link_recovery_events rid mid (acc # es)) (\<lambda>_.
           tx_return \<lparr>rr_duplicate = False, rr_events = acc # es, rr_retry = retry\<rparr>)))))))))))"

definition resolve_body :: "room_id \<Rightarrow> actor \<Rightarrow> recover_input \<Rightarrow> instant \<Rightarrow> recovery_result dbtx" where
  "resolve_body rid a i now =
     (let h = canonicalHash KRecover (actor_uid a)
          (body_json (BodyRecover (ri_target_message_id i) (ri_action i) (ri_replacement_message_id i) (ri_instruction i))) in
      tx_bind (tx_read (loadStoredMessage rid (ri_client_message_id i))) (\<lambda>old.
        case old of
          Some m \<Rightarrow>
            tx_bind (tx_guard ErrIdempotencyConflict (sm_kind m = KRecover \<and> sm_actor m = actor_uid a \<and> sm_hash m = h)) (\<lambda>_.
            tx_bind (loadRecoveryEvents rid (sm_id m)) (\<lambda>es.
            tx_return \<lparr>rr_duplicate = True, rr_events = es, rr_retry = None\<rparr>))
        | None \<Rightarrow> resolve_new rid a i h now))"

definition ResolveReview :: "room_id \<Rightarrow> actor \<Rightarrow> recover_input \<Rightarrow> recovery_result store_op" where
  "ResolveReview rid a i =
     validated (validate_recover i) (validated (validateRoomID rid) (transact (resolve_body rid a i)))"

subsection \<open>Private turns\<close>

definition BeginPrivateTurn :: "room_id \<Rightarrow> thread_id \<Rightarrow> turn_id list \<Rightarrow> unit store_op" where
  "BeginPrivateTurn rid th baseline = transact (\<lambda>now.
     tx_bind (tx_read (\<lambda>d. rid \<notin> fst ` set (private_turn_frontiers d) \<and> find_room rid d \<noteq> None)) (\<lambda>ok.
     tx_bind (tx_guard ErrConstraint ok) (\<lambda>_.
     tx_write (\<lambda>d. d\<lparr>private_turn_frontiers := private_turn_frontiers d @ [(rid, th, baseline)]\<rparr>))))"

definition end_private_body :: "room_id \<Rightarrow> thread_id \<Rightarrow> turn_id list \<Rightarrow> unit dbtx" where
  "end_private_body rid th turns =
     tx_write (\<lambda>d. d\<lparr>private_turns := foldl (\<lambda>acc t. if (rid, th, t) \<in> set acc then acc else acc @ [(rid, th, t)])
                        (private_turns d) turns,
                     private_turn_frontiers := filter (\<lambda>(r, t, _). \<not> (r = rid \<and> t = th)) (private_turn_frontiers d)\<rparr>)"

definition EndPrivateTurn :: "room_id \<Rightarrow> thread_id \<Rightarrow> turn_id list \<Rightarrow> unit store_op" where
  "EndPrivateTurn rid th turns = transact (\<lambda>now. end_private_body rid th turns)"

definition hidden_turns :: "room_id \<Rightarrow> thread_id \<Rightarrow> db \<Rightarrow> turn_id list" where
  "hidden_turns rid th d = map (\<lambda>(_, _, t). t) (filter (\<lambda>(r, t, _). r = rid \<and> t = th) (private_turns d))"

definition private_baseline :: "room_id \<Rightarrow> thread_id \<Rightarrow> db \<Rightarrow> turn_id list option" where
  "private_baseline rid th d =
     map_option (\<lambda>(_, _, b). b) (find (\<lambda>(r, t, _). r = rid \<and> t = th) (private_turn_frontiers d))"

text \<open>
  \<^verbatim>\<open>PrivateTurns\<close>: the recorded private turns, and, where a frontier is still open, every turn
  not in its baseline; one of those still running stops recovery, otherwise they are recorded
  and the frontier is closed in a second transaction.
\<close>

definition PrivateTurns :: "room_id \<Rightarrow> thread_id \<Rightarrow> turn_snapshot list \<Rightarrow> turn_id list store_op" where
  "PrivateTurns rid th turns s =
     (case transact (\<lambda>now. tx_read (\<lambda>d. (hidden_turns rid th d, private_baseline rid th d))) s of
        (Inl e, s') \<Rightarrow> (Inl e, s')
      | (Inr (hidden, None), s') \<Rightarrow> (Inr hidden, s')
      | (Inr (hidden, Some known), s') \<Rightarrow>
          let added = filter (\<lambda>t. ts_id t \<notin> set known) turns in
          if \<exists>t \<in> set added. ts_state t = RequestRunning then (Inl ErrPrivateTurnOpen, s')
          else case EndPrivateTurn rid th (map ts_id added) s' of
                 (Inl e, s'') \<Rightarrow> (Inl e, s'')
               | (Inr _, s'') \<Rightarrow> (Inr (hidden @ map ts_id added), s''))"

end
