(* ===== verification/Store_Effects.thy ===== *)
theory Store_Effects
  imports Store_Recovery
begin

text \<open>
  What a successful transaction does to the core tables (rooms, members, messages, bindings,
  events), as four kinds of change: nothing (\<open>same_core\<close>), one event at the next sequence
  number (\<open>logged\<close>), one message with its binding and its event (\<open>added\<close>), one message and its
  binding moved to another state (\<open>moved\<close>). Each kind keeps the store's well-formedness
  \<open>wf_db\<close> and has a known effect on the message states \<open>mstate\<close> and on the number of
  durable retries \<open>retries\<close>, the two views the abstract machine is about.
\<close>

subsection \<open>Well-formed stores\<close>

definition bound_kind :: "message_kind \<Rightarrow> bool" where
  "bound_kind k \<longleftrightarrow> k \<noteq> KNote \<and> k \<noteq> KRecover"

definition agrees :: "message_row \<Rightarrow> binding_row \<Rightarrow> bool" where
  "agrees m b \<longleftrightarrow> b_message b = msg_id m \<and> b_room b = msg_room m \<and> b_state b = msg_state m"

definition wf_ids :: "db \<Rightarrow> bool" where
  "wf_ids d \<longleftrightarrow>
     distinct (map msg_id (messages d)) \<and> (\<forall>m \<in> set (messages d). msg_id m \<le> message_autoinc d)
     \<and> distinct (map (\<lambda>m. (msg_room m, msg_client m)) (messages d))
     \<and> distinct (map b_message (turn_bindings d)) \<and> distinct (map r_id (rooms d))"

definition wf_bindings :: "db \<Rightarrow> bool" where
  "wf_bindings d \<longleftrightarrow>
     (\<forall>b \<in> set (turn_bindings d). \<exists>m \<in> set (messages d). agrees m b \<and> bound_kind (msg_kind m))
     \<and> (\<forall>m \<in> set (messages d). bound_kind (msg_kind m) \<longrightarrow> (\<exists>b \<in> set (turn_bindings d). agrees m b))
     \<and> (\<forall>m \<in> set (messages d). \<not> bound_kind (msg_kind m) \<longrightarrow> msg_state m = RequestCompleted)"

definition wf_log :: "db \<Rightarrow> bool" where
  "wf_log d \<longleftrightarrow>
     (\<forall>r \<in> set (rooms d). 1 \<le> r_next_seq r \<and> map de_seq (events_of (r_id r) d) = [1..<r_next_seq r])
     \<and> (\<forall>m \<in> set (messages d). \<exists>r \<in> set (rooms d). r_id r = msg_room m \<and> 1 \<le> msg_seq m \<and> msg_seq m < r_next_seq r)
     \<and> distinct (map (\<lambda>m. (msg_room m, msg_seq m)) (messages d))"

definition wf_db :: "db \<Rightarrow> bool" where
  "wf_db d \<longleftrightarrow> wf_ids d \<and> wf_bindings d \<and> wf_log d"

subsection \<open>Views\<close>

definition mstate :: "room_id \<Rightarrow> db \<Rightarrow> client_message_id \<Rightarrow> (message_kind \<times> request_state) option" where
  "mstate rid d cid = map_option (\<lambda>m. (msg_kind m, msg_state m)) (find_message rid cid d)"

definition is_retry_of :: "client_message_id \<Rightarrow> durable_event \<Rightarrow> bool" where
  "is_retry_of cid e \<longleftrightarrow>
     de_kind e = ''recovery/retried'' \<and> extract_text [''target_message_id''] (de_payload e) = Some cid"

definition retries :: "room_id \<Rightarrow> db \<Rightarrow> client_message_id \<Rightarrow> nat" where
  "retries rid d cid = length (filter (is_retry_of cid) (events_of rid d))"

subsection \<open>Kinds of change\<close>

definition same_core :: "db \<Rightarrow> db \<Rightarrow> bool" where
  "same_core d d' \<longleftrightarrow>
     rooms d' = rooms d \<and> members d' = members d \<and> messages d' = messages d
     \<and> message_autoinc d' = message_autoinc d \<and> turn_bindings d' = turn_bindings d
     \<and> room_events d' = room_events d"

definition bump :: "room_id \<Rightarrow> room_row list \<Rightarrow> room_row list" where
  "bump rid rs = update_where (\<lambda>x. r_id x = rid) (\<lambda>x. x\<lparr>r_next_seq := r_next_seq x + 1\<rparr>) rs"

text \<open>Room rows that differ only in thread and status.\<close>

definition room_key :: "room_row \<Rightarrow> room_id \<times> seqno" where
  "room_key r = (r_id r, r_next_seq r)"

definition logged :: "room_id \<Rightarrow> durable_event \<Rightarrow> db \<Rightarrow> db \<Rightarrow> bool" where
  "logged rid e d d' \<longleftrightarrow>
     (\<exists>r. find_room rid d = Some r \<and> de_seq e = r_next_seq r)
     \<and> map room_key (rooms d') = map room_key (bump rid (rooms d))
     \<and> members d' = members d \<and> messages d' = messages d \<and> message_autoinc d' = message_autoinc d
     \<and> turn_bindings d' = turn_bindings d \<and> room_events d' = room_events d @ [(rid, e)]"

definition added :: "room_id \<Rightarrow> message_row \<Rightarrow> durable_event \<Rightarrow> db \<Rightarrow> db \<Rightarrow> bool" where
  "added rid row e d d' \<longleftrightarrow>
     (\<exists>r. find_room rid d = Some r \<and> msg_seq row = r_next_seq r \<and> de_seq e = r_next_seq r)
     \<and> rooms d' = bump rid (rooms d) \<and> members d' = members d
     \<and> messages d' = messages d @ [row] \<and> message_autoinc d' = msg_id row
     \<and> room_events d' = room_events d @ [(rid, e)]
     \<and> msg_room row = rid \<and> msg_id row = message_autoinc d + 1
     \<and> find_message rid (msg_client row) d = None
     \<and> (if bound_kind (msg_kind row) then \<exists>b. turn_bindings d' = turn_bindings d @ [b] \<and> agrees row b
        else turn_bindings d' = turn_bindings d \<and> msg_state row = RequestCompleted)"

definition moved :: "room_id \<Rightarrow> nat \<Rightarrow> request_state \<Rightarrow> request_state \<Rightarrow> db \<Rightarrow> db \<Rightarrow> bool" where
  "moved rid mid old new d d' \<longleftrightarrow>
     rooms d' = rooms d \<and> members d' = members d \<and> message_autoinc d' = message_autoinc d
     \<and> room_events d' = room_events d
     \<and> messages d' = update_where (\<lambda>m. msg_room m = rid \<and> msg_id m = mid \<and> msg_state m = old)
                       (\<lambda>m. m\<lparr>msg_state := new\<rparr>) (messages d)
     \<and> (\<exists>b \<in> set (turn_bindings d). b_room b = rid \<and> b_message b = mid \<and> b_state b = old)
     \<and> (\<exists>f. (\<forall>b. b_message (f b) = b_message b \<and> b_room (f b) = b_room b \<and> b_state (f b) = new)
          \<and> turn_bindings d' = update_where (\<lambda>b. b_room b = rid \<and> b_message b = mid \<and> b_state b = old)
                                 f (turn_bindings d))"

subsection \<open>Change of the views\<close>

lemma find_message_cong: "messages d' = messages d \<Longrightarrow> find_message rid cid d' = find_message rid cid d"
  by (simp add: find_message_def)

lemma mstate_cong: "messages d' = messages d \<Longrightarrow> mstate rid d' = mstate rid d"
  by (simp add: mstate_def find_message_def fun_eq_iff)

lemma retries_cong: "room_events d' = room_events d \<Longrightarrow> retries rid d' = retries rid d"
  by (simp add: retries_def events_of_def fun_eq_iff)

lemma same_core_mstate: "same_core d d' \<Longrightarrow> mstate rid d' = mstate rid d"
  by (rule mstate_cong) (simp add: same_core_def)

lemma same_core_retries: "same_core d d' \<Longrightarrow> retries rid d' = retries rid d"
  by (rule retries_cong) (simp add: same_core_def)

lemma logged_mstate: "logged rid e d d' \<Longrightarrow> mstate rid' d' = mstate rid' d"
  by (rule mstate_cong) (simp add: logged_def)

lemma events_of_append:
  "room_events d' = room_events d @ [(rid, e)] \<Longrightarrow>
     events_of rid' d' = events_of rid' d @ (if rid' = rid then [e] else [])"
  by (simp add: events_of_def)

lemma retries_append:
  "room_events d' = room_events d @ [(rid, e)] \<Longrightarrow>
     retries rid d' cid = retries rid d cid + (if is_retry_of cid e then 1 else 0)"
  by (simp add: retries_def events_of_append)

lemma logged_retries:
  "logged rid e d d' \<Longrightarrow> retries rid d' cid = retries rid d cid + (if is_retry_of cid e then 1 else 0)"
  by (simp add: logged_def retries_append)

lemma added_retries:
  "added rid row e d d' \<Longrightarrow> retries rid d' cid = retries rid d cid + (if is_retry_of cid e then 1 else 0)"
  by (simp add: added_def retries_append)

lemma added_find_message:
  "added rid row e d d' \<Longrightarrow>
     find_message rid cid d' = (if cid = msg_client row then Some row else find_message rid cid d)"
  by (auto simp: added_def find_message_def find_append split: option.splits)

lemma added_mstate:
  "added rid row e d d' \<Longrightarrow>
     mstate rid d' = (mstate rid d)(msg_client row \<mapsto> (msg_kind row, msg_state row))"
  by (auto simp: mstate_def added_find_message)

lemma added_fresh: "added rid row e d d' \<Longrightarrow> mstate rid d (msg_client row) = None"
  by (auto simp: mstate_def added_def)

lemma find_message_SomeD:
  "find_message rid cid d = Some m \<Longrightarrow> m \<in> set (messages d) \<and> msg_room m = rid \<and> msg_client m = cid"
  by (auto simp: find_message_def dest: find_SomeD)

lemma wf_ids_msg_id:
  "wf_ids d \<Longrightarrow> m \<in> set (messages d) \<Longrightarrow> m' \<in> set (messages d) \<Longrightarrow> msg_id m = msg_id m' \<Longrightarrow> m = m'"
  unfolding wf_ids_def distinct_map by (blast dest: inj_onD)

lemma wf_ids_find_message:
  "wf_ids d \<Longrightarrow> m \<in> set (messages d) \<Longrightarrow> find_message (msg_room m) (msg_client m) d = Some m"
  unfolding find_message_def
  by (rule find_unique [where k = "\<lambda>m. (msg_room m, msg_client m)"]) (auto simp: wf_ids_def)

lemma moved_find_message:
  "moved rid mid old new d d' \<Longrightarrow>
     find_message r c d' = map_option
       (\<lambda>m. if msg_room m = rid \<and> msg_id m = mid \<and> msg_state m = old then m\<lparr>msg_state := new\<rparr> else m)
       (find_message r c d)"
  by (simp add: moved_def find_message_def find_update_where)

lemma moved_mstate:
  assumes "wf_ids d" "moved rid mid old new d d'"
    and m: "find_message rid cid d = Some m" "msg_id m = mid" "msg_state m = old"
  shows "mstate rid d' = (mstate rid d)(cid \<mapsto> (msg_kind m, new))"
proof
  fix c
  have md: "m \<in> set (messages d)" "msg_room m = rid" "msg_client m = cid"
    using find_message_SomeD [OF m(1)] by auto
  show "mstate rid d' c = ((mstate rid d)(cid \<mapsto> (msg_kind m, new))) c"
  proof (cases "c = cid")
    case True
    with m md(2) show ?thesis
      by (simp add: mstate_def moved_find_message [OF assms(2)])
  next
    case False
    have "msg_id x \<noteq> mid" if "find_message rid c d = Some x" for x
      using find_message_SomeD [OF that] md m(2) False wf_ids_msg_id [OF assms(1), of x m] by auto
    with False show ?thesis
      by (cases "find_message rid c d") (auto simp: mstate_def moved_find_message [OF assms(2)])
  qed
qed

lemma moved_retries: "moved rid mid old new d d' \<Longrightarrow> retries r d' = retries r d"
  by (rule retries_cong) (simp add: moved_def)

subsection \<open>Every kind of change keeps the store well-formed\<close>

lemma same_core_wf: "same_core d d' \<Longrightarrow> wf_db d \<Longrightarrow> wf_db d'"
  unfolding same_core_def wf_db_def wf_ids_def wf_bindings_def wf_log_def events_of_def by simp

lemma moved_wf_ids: "moved rid mid old new d d' \<Longrightarrow> wf_ids d \<Longrightarrow> wf_ids d'"
  unfolding moved_def wf_ids_def
  by (auto simp: map_update_where set_update_where)

lemma moved_wf_log:
  assumes "moved rid mid old new d d'" "wf_log d"
  shows "wf_log d'"
proof -
  have same: "rooms d' = rooms d" "room_events d' = room_events d"
    and keys: "map (\<lambda>m. (msg_room m, msg_seq m)) (messages d') = map (\<lambda>m. (msg_room m, msg_seq m)) (messages d)"
    using assms(1) by (auto simp: moved_def map_update_where)
  have "(msg_room m, msg_seq m) \<in> (\<lambda>m. (msg_room m, msg_seq m)) ` set (messages d)" if "m \<in> set (messages d')" for m
    using that keys by (metis (no_types, lifting) image_eqI list.set_map)
  then have "\<exists>m1 \<in> set (messages d). msg_room m1 = msg_room m \<and> msg_seq m1 = msg_seq m" if "m \<in> set (messages d')" for m
    using that by fastforce
  then show ?thesis
    using assms(2) same keys unfolding wf_log_def events_of_def by (metis (no_types, lifting))
qed

lemma moved_wf_bindings:
  assumes "moved rid mid old new d d'" "wf_ids d" "wf_bindings d"
  shows "wf_bindings d'"
proof -
  let ?P = "\<lambda>m. msg_room m = rid \<and> msg_id m = mid \<and> msg_state m = old"
  let ?Q = "\<lambda>b. b_room b = rid \<and> b_message b = mid \<and> b_state b = old"
  from assms(1) obtain f b0 where
    ms: "messages d' = update_where ?P (\<lambda>m. m\<lparr>msg_state := new\<rparr>) (messages d)" and
    bs: "turn_bindings d' = update_where ?Q f (turn_bindings d)" and
    f: "\<And>b. b_message (f b) = b_message b \<and> b_room (f b) = b_room b \<and> b_state (f b) = new" and
    b0: "b0 \<in> set (turn_bindings d)" "?Q b0"
    unfolding moved_def by blast
  have PQ: "?P m \<longleftrightarrow> ?Q b" if "agrees m b" for m b
    using that by (auto simp: agrees_def)
  have agree': "agrees (if ?P m then m\<lparr>msg_state := new\<rparr> else m) (if ?Q b then f b else b)"
    if "agrees m b" for m b
    using that f [of b] PQ [OF that] by (auto simp: agrees_def)
  have bound: "bound_kind (msg_kind m)" if "m \<in> set (messages d)" "?P m" for m
  proof -
    from assms(3) b0 obtain m0 where m0: "m0 \<in> set (messages d)" "agrees m0 b0" "bound_kind (msg_kind m0)"
      unfolding wf_bindings_def by blast
    then have "m0 = m"
      using b0(2) that wf_ids_msg_id [OF assms(2)] by (auto simp: agrees_def)
    with m0 show ?thesis by simp
  qed
  have B: "\<exists>m \<in> set (messages d'). agrees m b \<and> bound_kind (msg_kind m)" if "b \<in> set (turn_bindings d')" for b
  proof -
    from that obtain b1 where b1: "b1 \<in> set (turn_bindings d)" "b = (if ?Q b1 then f b1 else b1)"
      unfolding bs update_where_def by auto
    with assms(3) obtain m where m: "m \<in> set (messages d)" "agrees m b1" "bound_kind (msg_kind m)"
      unfolding wf_bindings_def by blast
    let ?m = "if ?P m then m\<lparr>msg_state := new\<rparr> else m"
    have "?m \<in> set (messages d')"
      using m(1) unfolding ms update_where_def by auto
    moreover have "agrees ?m b" using agree' [OF m(2)] b1(2) by simp
    moreover have "bound_kind (msg_kind ?m)" using m(3) by simp
    ultimately show ?thesis by blast
  qed
  have M: "(bound_kind (msg_kind m) \<longrightarrow> (\<exists>b \<in> set (turn_bindings d'). agrees m b)) \<and>
           (\<not> bound_kind (msg_kind m) \<longrightarrow> msg_state m = RequestCompleted)"
    if "m \<in> set (messages d')" for m
  proof -
    from that obtain m1 where m1: "m1 \<in> set (messages d)" "m = (if ?P m1 then m1\<lparr>msg_state := new\<rparr> else m1)"
      unfolding ms update_where_def by auto
    have k: "msg_kind m = msg_kind m1" using m1(2) by simp
    show ?thesis
    proof (cases "bound_kind (msg_kind m1)")
      case True
      with assms(3) m1(1) obtain b where b: "b \<in> set (turn_bindings d)" "agrees m1 b"
        unfolding wf_bindings_def by blast
      have "(if ?Q b then f b else b) \<in> set (turn_bindings d')"
        using b(1) unfolding bs update_where_def by auto
      with agree' [OF b(2)] m1(2) k True show ?thesis by auto
    next
      case False
      with bound [OF m1(1)] have "\<not> ?P m1" by blast
      with m1 k False assms(3) show ?thesis unfolding wf_bindings_def by auto
    qed
  qed
  from B M show ?thesis unfolding wf_bindings_def by blast
qed

lemma moved_wf: "moved rid mid old new d d' \<Longrightarrow> wf_db d \<Longrightarrow> wf_db d'"
  unfolding wf_db_def by (blast intro: moved_wf_ids moved_wf_bindings moved_wf_log)

lemma map_r_id_bump [simp]: "map r_id (bump rid rs) = map r_id rs"
  by (simp add: bump_def map_update_where)

lemma room_key_r_id: "map room_key xs = map room_key ys \<Longrightarrow> map r_id xs = map r_id ys"
proof -
  have *: "map r_id zs = map fst (map room_key zs)" for zs
    by (simp add: room_key_def)
  assume "map room_key xs = map room_key ys"
  then show ?thesis by (simp only: *)
qed

lemma bump_rooms:
  assumes "map room_key (rooms d') = map room_key (bump rid (rooms d))" "r' \<in> set (rooms d')"
  shows "\<exists>r \<in> set (rooms d). r_id r' = r_id r \<and> r_next_seq r' = r_next_seq r + (if r_id r = rid then 1 else 0)"
proof -
  have "room_key ` set (rooms d') = room_key ` set (bump rid (rooms d))"
    using assms(1) by (metis list.set_map)
  with assms(2) have "room_key r' \<in> room_key ` set (bump rid (rooms d))" by blast
  then show ?thesis by (auto simp: bump_def set_update_where room_key_def)
qed

lemma bump_rooms_back:
  assumes "map room_key (rooms d') = map room_key (bump rid (rooms d))" "r \<in> set (rooms d)"
  shows "\<exists>r' \<in> set (rooms d'). r_id r' = r_id r \<and> r_next_seq r \<le> r_next_seq r'
           \<and> (r_id r = rid \<longrightarrow> r_next_seq r < r_next_seq r')"
proof -
  let ?r = "if r_id r = rid then r\<lparr>r_next_seq := r_next_seq r + 1\<rparr> else r"
  have "?r \<in> set (bump rid (rooms d))"
    using assms(2) by (auto simp: bump_def update_where_def)
  moreover have "room_key ` set (rooms d') = room_key ` set (bump rid (rooms d))"
    using assms(1) by (metis list.set_map)
  ultimately have "room_key ?r \<in> room_key ` set (rooms d')" by blast
  then obtain r' where "r' \<in> set (rooms d')" "room_key r' = room_key ?r" by (metis imageE)
  then show ?thesis by (intro bexI [of _ r']) (auto simp: room_key_def split: if_splits)
qed

lemma find_room_SomeD: "find_room rid d = Some r \<Longrightarrow> r \<in> set (rooms d) \<and> r_id r = rid"
  by (auto simp: find_room_def dest: find_SomeD)

lemma wf_ids_room:
  "wf_ids d \<Longrightarrow> r \<in> set (rooms d) \<Longrightarrow> r' \<in> set (rooms d) \<Longrightarrow> r_id r = r_id r' \<Longrightarrow> r = r'"
  unfolding wf_ids_def distinct_map by (blast dest: inj_onD)

text \<open>One event at the next sequence number keeps the log contiguous.\<close>

lemma bumped_log:
  assumes wf: "wf_ids d" "wf_log d"
    and keys: "map room_key (rooms d') = map room_key (bump rid (rooms d))"
    and ev: "room_events d' = room_events d @ [(rid, e)]"
    and r: "find_room rid d = Some r" "de_seq e = r_next_seq r"
    and r': "r' \<in> set (rooms d')"
  shows "1 \<le> r_next_seq r' \<and> map de_seq (events_of (r_id r') d') = [1..<r_next_seq r']"
proof -
  from bump_rooms [OF keys r'] obtain x where x: "x \<in> set (rooms d)" "r_id r' = r_id x"
    "r_next_seq r' = r_next_seq x + (if r_id x = rid then 1 else 0)" by blast
  then have w: "1 \<le> r_next_seq x" "map de_seq (events_of (r_id x) d) = [1..<r_next_seq x]"
    using wf(2) by (auto simp: wf_log_def)
  show ?thesis
  proof (cases "r_id x = rid")
    case True
    then have "x = r"
      using wf_ids_room [OF wf(1) x(1)] find_room_SomeD [OF r(1)] by auto
    with True x w r(2) show ?thesis by (simp add: events_of_append [OF ev])
  next
    case False
    with x w show ?thesis by (simp add: events_of_append [OF ev])
  qed
qed

lemma logged_wf: "logged rid e d d' \<Longrightarrow> wf_db d \<Longrightarrow> wf_db d'"
proof -
  assume l: "logged rid e d d'" and w: "wf_db d"
  then obtain r where r: "find_room rid d = Some r" "de_seq e = r_next_seq r"
    unfolding logged_def by blast
  have keys: "map room_key (rooms d') = map room_key (bump rid (rooms d))"
    and ev: "room_events d' = room_events d @ [(rid, e)]"
    and same: "messages d' = messages d" "message_autoinc d' = message_autoinc d" "turn_bindings d' = turn_bindings d"
    using l by (auto simp: logged_def)
  have "wf_ids d'"
    using w room_key_r_id [OF keys] same by (simp add: wf_db_def wf_ids_def)
  moreover have "wf_bindings d'" using w same by (simp add: wf_db_def wf_bindings_def)
  moreover have "\<exists>r' \<in> set (rooms d'). r_id r' = msg_room m \<and> 1 \<le> msg_seq m \<and> msg_seq m < r_next_seq r'"
    if "m \<in> set (messages d')" for m
  proof -
    from that w same obtain x where "x \<in> set (rooms d)" "r_id x = msg_room m" "1 \<le> msg_seq m" "msg_seq m < r_next_seq x"
      unfolding wf_db_def wf_log_def by auto
    with bump_rooms_back [OF keys, of x] show ?thesis by fastforce
  qed
  then have "wf_log d'"
    using bumped_log [OF _ _ keys ev r] w same unfolding wf_db_def wf_log_def by simp
  ultimately show ?thesis by (simp add: wf_db_def)
qed

lemma added_wf: "added rid row e d d' \<Longrightarrow> wf_db d \<Longrightarrow> wf_db d'"
proof -
  assume a: "added rid row e d d'" and w: "wf_db d"
  then obtain r where r: "find_room rid d = Some r" "msg_seq row = r_next_seq r" "de_seq e = r_next_seq r"
    unfolding added_def by blast
  have keys: "map room_key (rooms d') = map room_key (bump rid (rooms d))"
    and ev: "room_events d' = room_events d @ [(rid, e)]"
    and ms: "messages d' = messages d @ [row]" and id: "msg_id row = message_autoinc d + 1"
    and auto: "message_autoinc d' = msg_id row" and rm: "msg_room row = rid" "rooms d' = bump rid (rooms d)"
    and fresh: "find_message rid (msg_client row) d = None"
    using a by (auto simp: added_def)
  have newid: "m \<in> set (messages d) \<Longrightarrow> msg_id m < msg_id row" for m
    using w id by (auto simp: wf_db_def wf_ids_def)
  have newclient: "m \<in> set (messages d) \<Longrightarrow> (msg_room m, msg_client m) \<noteq> (rid, msg_client row)" for m
    using fresh by (auto simp: find_message_def find_None_iff)
  have newbinding: "msg_id row \<notin> b_message ` set (turn_bindings d)"
    using w newid by (fastforce simp: wf_db_def wf_bindings_def agrees_def)
  have newseq: "m \<in> set (messages d) \<Longrightarrow> (msg_room m, msg_seq m) \<noteq> (rid, msg_seq row)" for m
  proof
    assume m: "m \<in> set (messages d)" and eq: "(msg_room m, msg_seq m) = (rid, msg_seq row)"
    from w m obtain x where x: "x \<in> set (rooms d)" "r_id x = msg_room m" "msg_seq m < r_next_seq x"
      unfolding wf_db_def wf_log_def by blast
    with eq have "x = r"
      using w wf_ids_room [of d x r] find_room_SomeD [OF r(1)] by (auto simp: wf_db_def)
    with x eq r show False by simp
  qed
  have "wf_ids d'"
  proof -
    have "turn_bindings d' = turn_bindings d \<or> (\<exists>b. turn_bindings d' = turn_bindings d @ [b] \<and> b_message b = msg_id row)"
      using a by (auto simp: added_def agrees_def split: if_splits)
    then have "distinct (map b_message (turn_bindings d'))"
      using w newbinding unfolding wf_db_def wf_ids_def by auto
    moreover have "msg_id row \<notin> msg_id ` set (messages d)"
      using newid by force
    moreover have "(rid, msg_client row) \<notin> (\<lambda>m. (msg_room m, msg_client m)) ` set (messages d)"
      using newclient by force
    moreover have "\<forall>m \<in> set (messages d'). msg_id m \<le> message_autoinc d'"
      using newid auto by (auto simp: ms intro: order.strict_implies_order)
    ultimately show ?thesis
      using w rm unfolding wf_db_def wf_ids_def ms by simp
  qed
  moreover have "wf_bindings d'"
    using a w ms unfolding added_def wf_db_def wf_bindings_def by (auto split: if_splits)
  moreover have "\<exists>r' \<in> set (rooms d'). r_id r' = msg_room m \<and> 1 \<le> msg_seq m \<and> msg_seq m < r_next_seq r'"
    if "m \<in> set (messages d')" for m
  proof (cases "m = row")
    case True
    have "r \<in> set (rooms d)" "r_id r = rid" "1 \<le> r_next_seq r"
      using find_room_SomeD [OF r(1)] w by (auto simp: wf_db_def wf_log_def)
    with bump_rooms_back [OF keys, of r] True r rm show ?thesis by fastforce
  next
    case False
    with that w obtain x where "x \<in> set (rooms d)" "r_id x = msg_room m" "1 \<le> msg_seq m" "msg_seq m < r_next_seq x"
      unfolding wf_db_def wf_log_def ms by auto
    with bump_rooms_back [OF keys, of x] show ?thesis by fastforce
  qed
  moreover have "distinct (map (\<lambda>m. (msg_room m, msg_seq m)) (messages d'))"
  proof -
    have "(rid, msg_seq row) \<notin> (\<lambda>m. (msg_room m, msg_seq m)) ` set (messages d)"
      using newseq by force
    then show ?thesis using w rm(1) unfolding wf_db_def wf_log_def ms by simp
  qed
  ultimately show ?thesis
    using bumped_log [OF _ _ keys ev r(1,3)] w unfolding wf_db_def wf_log_def by blast
qed

end
