(* ===== verification/Store_Machine.thy ===== *)
theory Store_Machine
  imports Store_Effects
begin

text \<open>
  The life cycle of accepted messages as an abstract machine, and its refinement by the store.
  A state of the machine gives every client message identifier its kind and request state and
  counts the durable retries; a step accepts a message or moves one message along its life
  cycle. Every repository operation that commits, whether or not its reply is lost, is a
  sequence of such steps on the views \<open>mstate\<close> and \<open>retries\<close> and keeps the store well-formed.
\<close>

subsection \<open>The abstract machine\<close>

type_synonym aview = "(client_message_id \<Rightarrow> (message_kind \<times> request_state) option) \<times> (client_message_id \<Rightarrow> nat)"

datatype alabel =
    LAccept client_message_id message_kind
  | LDispatch client_message_id
  | LRun client_message_id
  | LFail client_message_id request_state
  | LFinish client_message_id request_state
  | LReview client_message_id
  | LControl client_message_id request_state
  | LAbandon client_message_id
  | LRequeue client_message_id
  | LRedispatch client_message_id

definition initial_state :: "message_kind \<Rightarrow> request_state" where
  "initial_state k =
     (if is_prompt k then RequestQueued else if is_control k then RequestDispatching else RequestCompleted)"

inductive astep :: "alabel \<Rightarrow> aview \<Rightarrow> aview \<Rightarrow> bool" where
  accept: "m c = None \<Longrightarrow> astep (LAccept c k) (m, r) (m(c \<mapsto> (k, initial_state k)), r)"
| dispatch: "m c = Some (k, RequestQueued) \<Longrightarrow> is_prompt k \<Longrightarrow>
     astep (LDispatch c) (m, r) (m(c \<mapsto> (k, RequestDispatching)), r)"
| run: "m c = Some (k, RequestDispatching) \<Longrightarrow> is_prompt k \<Longrightarrow>
     astep (LRun c) (m, r) (m(c \<mapsto> (k, RequestRunning)), r)"
| fail: "m c = Some (k, RequestDispatching) \<Longrightarrow> is_prompt k \<Longrightarrow>
     s \<in> {RequestFailed, RequestInterrupted, RequestNeedsReview} \<Longrightarrow>
     astep (LFail c s) (m, r) (m(c \<mapsto> (k, s)), r)"
| finish: "m c = Some (k, old) \<Longrightarrow> is_prompt k \<Longrightarrow> old \<in> {RequestRunning, RequestNeedsReview} \<Longrightarrow>
     isTerminal s \<Longrightarrow> astep (LFinish c s) (m, r) (m(c \<mapsto> (k, s)), r)"
| review: "m c = Some (k, old) \<Longrightarrow> bound_kind k \<Longrightarrow> old \<in> {RequestDispatching, RequestRunning} \<Longrightarrow>
     astep (LReview c) (m, r) (m(c \<mapsto> (k, RequestNeedsReview)), r)"
| control: "m c = Some (k, RequestDispatching) \<Longrightarrow> is_control k \<Longrightarrow>
     s \<in> {RequestCompleted, RequestFailed, RequestNeedsReview} \<Longrightarrow>
     astep (LControl c s) (m, r) (m(c \<mapsto> (k, s)), r)"
| abandon: "m c = Some (k, RequestNeedsReview) \<Longrightarrow> bound_kind k \<Longrightarrow>
     astep (LAbandon c) (m, r) (m(c \<mapsto> (k, RequestFailed)), r)"
| requeue: "m c = Some (k, RequestNeedsReview) \<Longrightarrow> is_prompt k \<Longrightarrow>
     astep (LRequeue c) (m, r) (m(c \<mapsto> (k, RequestQueued)), r(c := r c + 1))"
| redispatch: "m c = Some (k, RequestNeedsReview) \<Longrightarrow> is_control k \<Longrightarrow>
     astep (LRedispatch c) (m, r) (m(c \<mapsto> (k, RequestDispatching)), r(c := r c + 1))"

inductive_cases astepE: "astep l v w"

primrec asteps :: "alabel list \<Rightarrow> aview \<Rightarrow> aview \<Rightarrow> bool" where
  "asteps [] v w \<longleftrightarrow> v = w"
| "asteps (l # ls) v w \<longleftrightarrow> (\<exists>u. astep l v u \<and> asteps ls u w)"

lemma asteps_append: "asteps (ks @ ls) v w \<longleftrightarrow> (\<exists>u. asteps ks v u \<and> asteps ls u w)"
  by (induction ks arbitrary: v) auto

definition is_dispatch :: "alabel \<Rightarrow> bool" where
  "is_dispatch l \<longleftrightarrow> (\<exists>c. l = LDispatch c)"

text \<open>A run without dispatch steps.\<close>

definition quiet :: "aview \<Rightarrow> aview \<Rightarrow> bool" where
  "quiet v w \<longleftrightarrow> (\<exists>ls. asteps ls v w \<and> (\<forall>l \<in> set ls. \<not> is_dispatch l))"

lemma quiet_refl [simp, intro]: "quiet v v"
  unfolding quiet_def by (rule exI [of _ "[]"]) simp

lemma quiet_step: "astep l v w \<Longrightarrow> \<not> is_dispatch l \<Longrightarrow> quiet v w"
  unfolding quiet_def by (rule exI [of _ "[l]"]) (simp del: split_paired_Ex)

lemma quiet_trans: "quiet u v \<Longrightarrow> quiet v w \<Longrightarrow> quiet u w"
  unfolding quiet_def by (metis asteps_append UnE set_append)

text \<open>The prompts that occupy the execution slot.\<close>

definition actives :: "aview \<Rightarrow> client_message_id set" where
  "actives v = {c. \<exists>k s. fst v c = Some (k, s) \<and> is_prompt k \<and> active_state s}"

text \<open>
  How many turn starts the history of a message allows: one per durable retry, and one more
  once it has left the queue.
\<close>

definition start_budget :: "aview \<Rightarrow> client_message_id \<Rightarrow> nat" where
  "start_budget v c =
     snd v c + (case fst v c of None \<Rightarrow> 0 | Some (k, s) \<Rightarrow> if s = RequestQueued then 0 else 1)"

lemma astep_actives: "astep l v w \<Longrightarrow> \<not> is_dispatch l \<Longrightarrow> actives w \<subseteq> actives v"
  by (erule astepE)
     (auto simp: actives_def active_state_def is_dispatch_def initial_state_def isTerminal_def
        is_prompt_def is_control_def split: if_splits)

lemma quiet_actives: "quiet v w \<Longrightarrow> actives w \<subseteq> actives v"
proof -
  have "asteps ls v w \<Longrightarrow> \<forall>l \<in> set ls. \<not> is_dispatch l \<Longrightarrow> actives w \<subseteq> actives v" for ls
  proof (induction ls arbitrary: v)
    case (Cons l ls)
    then obtain u where "astep l v u" "asteps ls u w" by (auto simp del: split_paired_Ex)
    with Cons.prems(2) Cons.IH [of u] astep_actives [of l v u] show ?case by auto
  qed simp
  then show "quiet v w \<Longrightarrow> ?thesis" by (auto simp: quiet_def)
qed

lemma astep_start_budget: "astep l v w \<Longrightarrow> start_budget v c \<le> start_budget w c"
  by (erule astepE) (auto simp: start_budget_def isTerminal_def split: option.splits)

lemma asteps_start_budget: "asteps ls v w \<Longrightarrow> start_budget v c \<le> start_budget w c"
proof (induction ls arbitrary: v)
  case (Cons l ls)
  then obtain u where "astep l v u" "asteps ls u w" by (auto simp del: split_paired_Ex)
  with Cons.IH [of u] astep_start_budget [of l v u c] show ?case by simp
qed simp

lemma quiet_start_budget: "quiet v w \<Longrightarrow> start_budget v c \<le> start_budget w c"
  by (auto simp: quiet_def dest: asteps_start_budget)

lemma astep_dispatch:
  "astep (LDispatch c) v w \<longleftrightarrow>
     (\<exists>k. fst v c = Some (k, RequestQueued) \<and> is_prompt k \<and> fst w = (fst v)(c \<mapsto> (k, RequestDispatching)) \<and> snd w = snd v)"
  by (cases v; cases w) (auto elim!: astepE intro: astep.dispatch)

lemma dispatch_actives: "astep (LDispatch c) v w \<Longrightarrow> actives w = insert c (actives v) \<and> c \<notin> actives v"
  by (auto simp: astep_dispatch actives_def active_state_def)

lemma dispatch_start_budget:
  "astep (LDispatch c) v w \<Longrightarrow>
     start_budget w = (start_budget v)(c := start_budget v c + 1)"
  by (auto simp: astep_dispatch start_budget_def fun_eq_iff)

text \<open>Accepted messages stay, with their kind; a terminal state is final.\<close>

lemma astep_kind: "astep l v w \<Longrightarrow> fst v c = Some (k, s) \<Longrightarrow> \<exists>s'. fst w c = Some (k, s')"
  by (erule astepE) auto

lemma astep_terminal: "astep l v w \<Longrightarrow> fst v c = Some (k, s) \<Longrightarrow> isTerminal s \<Longrightarrow> fst w c = Some (k, s)"
  by (erule astepE) (auto simp: isTerminal_def)

lemma asteps_terminal:
  "asteps ls v w \<Longrightarrow> fst v c = Some (k, s) \<Longrightarrow> isTerminal s \<Longrightarrow> fst w c = Some (k, s)"
proof (induction ls arbitrary: v)
  case (Cons l ls)
  from Cons.prems(1) obtain u where "astep l v u" "asteps ls u w" by auto
  with Cons.prems(2,3) show ?case by (blast intro: Cons.IH dest: astep_terminal)
qed simp

subsection \<open>The store as an implementation of the machine\<close>

definition aview_of :: "room_id \<Rightarrow> db \<Rightarrow> aview" where
  "aview_of rid d = (mstate rid d, retries rid d)"

text \<open>
  What no operation takes back: the log only grows, and an accepted message keeps every field
  but its state.
\<close>

definition frozen :: "message_row \<Rightarrow> message_row" where
  "frozen m = m\<lparr>msg_state := RequestQueued\<rparr>"

definition extends :: "db \<Rightarrow> db \<Rightarrow> bool" where
  "extends d d' \<longleftrightarrow>
     prefix (room_events d) (room_events d') \<and> prefix (map frozen (messages d)) (map frozen (messages d'))"

lemma extends_refl [simp]: "extends d d"
  by (simp add: extends_def)

lemma extends_trans: "extends d d1 \<Longrightarrow> extends d1 d' \<Longrightarrow> extends d d'"
  unfolding extends_def by (blast intro: prefix_order.trans)

lemma map_frozen_update: "map frozen (update_where P (\<lambda>m. m\<lparr>msg_state := new\<rparr>) ms) = map frozen ms"
  by (simp add: map_update_where frozen_def)

lemma extends_kinds:
  "same_core d d' \<Longrightarrow> extends d d'"
  "logged rid e d d' \<Longrightarrow> extends d d'"
  "added rid row e d d' \<Longrightarrow> extends d d'"
  "moved rid mid old new d d' \<Longrightarrow> extends d d'"
  by (auto simp: extends_def same_core_def logged_def added_def moved_def map_frozen_update)

text \<open>A transaction body refines the labels \<open>L\<close> where its commit is a run with one of them.\<close>

definition refines :: "room_id \<Rightarrow> (alabel list \<Rightarrow> bool) \<Rightarrow> db \<Rightarrow> db \<Rightarrow> bool" where
  "refines rid L d d' \<longleftrightarrow>
     wf_db d' \<and> extends d d' \<and> (\<exists>ls. L ls \<and> asteps ls (aview_of rid d) (aview_of rid d'))"

lemma refines_trans:
  "refines rid L d d1 \<Longrightarrow> refines rid M d1 d' \<Longrightarrow>
     refines rid (\<lambda>ls. \<exists>ks ms. ls = ks @ ms \<and> L ks \<and> M ms) d d'"
  unfolding refines_def by (metis asteps_append extends_trans)

lemma refines_mono: "refines rid L d d' \<Longrightarrow> (\<And>ls. L ls \<Longrightarrow> M ls) \<Longrightarrow> refines rid M d d'"
  unfolding refines_def by blast

lemma refines_then_nil:
  "refines rid L d d1 \<Longrightarrow> refines rid (\<lambda>ls. ls = []) d1 d' \<Longrightarrow> refines rid L d d'"
  by (drule (1) refines_trans) simp

lemma refines_wf: "refines rid L d d' \<Longrightarrow> wf_db d'"
  by (simp add: refines_def)

lemma refines_same: "wf_db d \<Longrightarrow> same_core d d' \<Longrightarrow> refines rid (\<lambda>ls. ls = []) d d'"
  unfolding refines_def aview_of_def
  by (simp add: same_core_wf same_core_mstate same_core_retries extends_kinds)

lemma refines_id: "wf_db d \<Longrightarrow> refines rid (\<lambda>ls. ls = []) d d"
  by (simp add: refines_def)

lemma refines_logged:
  "wf_db d \<Longrightarrow> logged rid e d d' \<Longrightarrow> de_kind e \<noteq> ''recovery/retried'' \<Longrightarrow> refines rid (\<lambda>ls. ls = []) d d'"
  unfolding refines_def aview_of_def
  by (auto simp: logged_wf logged_mstate logged_retries is_retry_of_def fun_eq_iff extends_kinds)

lemma refines_added:
  assumes "wf_db d" "added rid row e d d'" "de_kind e \<noteq> ''recovery/retried''"
    "msg_state row = initial_state (msg_kind row)"
  shows "refines rid (\<lambda>ls. ls = [LAccept (msg_client row) (msg_kind row)]) d d'"
proof -
  have "aview_of rid d' = ((mstate rid d)(msg_client row \<mapsto> (msg_kind row, initial_state (msg_kind row))), retries rid d)"
    using assms(3,4) by (auto simp: aview_of_def added_mstate [OF assms(2)] added_retries [OF assms(2)] is_retry_of_def)
  then have "astep (LAccept (msg_client row) (msg_kind row)) (aview_of rid d) (aview_of rid d')"
    unfolding aview_of_def using added_fresh [OF assms(2)] by (simp add: astep.accept)
  with added_wf [OF assms(2,1)] extends_kinds(3) [OF assms(2)] show ?thesis
    by (simp add: refines_def del: split_paired_Ex)
qed

text \<open>A state change of one message.\<close>

lemma moved_view:
  assumes "wf_db d" "moved rid (msg_id m) (msg_state m) new d d'" "find_message rid c d = Some m"
  shows "aview_of rid d' = ((mstate rid d)(c \<mapsto> (msg_kind m, new)), retries rid d)"
    and "mstate rid d c = Some (msg_kind m, msg_state m)"
  using assms moved_mstate [of d rid "msg_id m" "msg_state m" new d' c m]
  by (auto simp: aview_of_def wf_db_def moved_retries mstate_def)

lemma refines_moved:
  assumes "wf_db d" "moved rid (msg_id m) (msg_state m) new d d'" "find_message rid c d = Some m"
    and step: "\<And>v r. v c = Some (msg_kind m, msg_state m) \<Longrightarrow>
                 astep l (v, r) (v(c \<mapsto> (msg_kind m, new)), r)"
  shows "refines rid (\<lambda>ls. ls = [l]) d d'"
  using step [of "mstate rid d" "retries rid d"] moved_view [OF assms(1-3)]
    moved_wf [OF assms(2,1)] extends_kinds(4) [OF assms(2)]
  by (simp add: refines_def aview_of_def del: split_paired_Ex)

text \<open>A state change together with the event that records it as a retry.\<close>

lemma refines_retried:
  assumes "wf_db d" "moved rid (msg_id m) (msg_state m) new d d1" "find_message rid c d = Some m"
    and l: "logged rid e d1 d'" "\<And>x. is_retry_of x e \<longleftrightarrow> x = c"
    and step: "\<And>v r. v c = Some (msg_kind m, msg_state m) \<Longrightarrow>
                 astep l (v, r) (v(c \<mapsto> (msg_kind m, new)), r(c := r c + 1))"
  shows "refines rid (\<lambda>ls. ls = [l]) d d'"
proof -
  have "aview_of rid d' = ((mstate rid d)(c \<mapsto> (msg_kind m, new)), (retries rid d)(c := retries rid d c + 1))"
    using moved_view [OF assms(1-3)] logged_mstate [OF l(1)] logged_retries [OF l(1)] l(2)
    by (auto simp: aview_of_def fun_eq_iff)
  with step [of "mstate rid d" "retries rid d"] moved_view(2) [OF assms(1-3)]
  show ?thesis
    using logged_wf [OF l(1)] moved_wf [OF assms(2,1)] extends_trans [OF extends_kinds(4) [OF assms(2)] extends_kinds(2) [OF l(1)]]
    by (simp add: refines_def aview_of_def del: split_paired_Ex)
qed

subsection \<open>Operations\<close>

text \<open>
  An operation implements the labels \<open>L\<close>: where it returns a result \<open>x\<close> its commit is a run
  with labels \<open>L x\<close>, and where it fails it has changed nothing, or its commit took effect and
  only the reply was lost.
\<close>

definition implements :: "room_id \<Rightarrow> ('a \<Rightarrow> alabel list \<Rightarrow> bool) \<Rightarrow> 'a store_op \<Rightarrow> bool" where
  "implements rid L oper \<longleftrightarrow>
     (\<forall>s r s'. wf_db (st_db s) \<longrightarrow> oper s = (r, s') \<longrightarrow>
        (case r of
           Inr x \<Rightarrow> refines rid (L x) (st_db s) (st_db s')
         | Inl e \<Rightarrow> refines rid (\<lambda>ls. ls = [] \<or> (\<exists>x. L x ls)) (st_db s) (st_db s')))"

lemma implements_validated:
  "(v = None \<Longrightarrow> implements rid L oper) \<Longrightarrow> implements rid L (validated v oper)"
  unfolding implements_def validated_def
  by (auto simp: refines_mono [OF refines_id] split: option.splits sum.splits)

lemma implements_transact:
  assumes "\<And>now d x d'. wf_db d \<Longrightarrow> body now d = Inr (x, d') \<Longrightarrow> refines rid (L x) d d'"
  shows "implements rid L (transact body)"
proof -
  have "case r of Inr x \<Rightarrow> refines rid (L x) (st_db s) (st_db s')
         | Inl e \<Rightarrow> refines rid (\<lambda>ls. ls = [] \<or> (\<exists>x. L x ls)) (st_db s) (st_db s')"
    if "wf_db (st_db s)" "transact body s = (r, s')" for s r s'
  proof (cases r)
    case (Inr x)
    with that transact_Inr [of body s x s'] assms show ?thesis by auto
  next
    case (Inl e)
    with that(2) transact_Inl [of body s e s']
    consider "st_db s' = st_db s" | x where "body (st_now s) (st_db s) = Inr (x, st_db s')" by auto
    then show ?thesis
    proof cases
      case 1
      with refines_mono [OF refines_id [OF that(1)]] Inl show ?thesis by auto
    next
      case 2
      have "refines rid (\<lambda>ls. ls = [] \<or> (\<exists>x. L x ls)) (st_db s) (st_db s')"
        using assms [OF that(1) 2] by (rule refines_mono) blast
      with Inl show ?thesis by simp
    qed
  qed
  then show ?thesis by (simp add: implements_def)
qed

lemma implements_Inr:
  "implements rid L oper \<Longrightarrow> wf_db (st_db s) \<Longrightarrow> oper s = (Inr x, s') \<Longrightarrow> refines rid (L x) (st_db s) (st_db s')"
  unfolding implements_def by fastforce

lemma implements_any:
  "implements rid L oper \<Longrightarrow> wf_db (st_db s) \<Longrightarrow> oper s = (r, s') \<Longrightarrow>
     refines rid (\<lambda>ls. ls = [] \<or> (\<exists>x. L x ls)) (st_db s) (st_db s')"
  unfolding implements_def by (cases r) (fastforce intro: refines_mono)+

end
