(* ===== verification/Store_Refinement.thy ===== *)
theory Store_Refinement
  imports Store_Machine
begin

text \<open>
  Every repository operation implements the life-cycle machine: the effect of each statement
  of a transaction as one of the four kinds of change, then one lemma per operation that names
  the machine steps its commit stands for.
\<close>

subsection \<open>Statements that change nothing of the core\<close>

lemma requireRoom_Inr: "requireRoom rid d = Inr (u, d') \<Longrightarrow> d' = d \<and> find_room rid d \<noteq> None"
  by (auto simp: requireRoom_def tx_Inr)

lemma requireActor_Inr:
  "requireActor rid a d = Inr (u, d') \<Longrightarrow> d' = d \<and> (\<exists>r. find_member rid (actor_uid a) d = Some r \<and> m_username r = actor_name a)"
  by (auto simp: requireActor_def tx_Inr requireRoom_def split: if_splits option.splits)

lemma requireTaskWriter_Inr:
  "requireTaskWriter rid a d = Inr (u, d') \<Longrightarrow> d' = d \<and> member_role rid (actor_uid a) d = ''roommate''"
  by (auto simp: requireTaskWriter_def tx_Inr dest: requireActor_Inr)

lemma same_core_refl [simp]: "same_core d d"
  by (simp add: same_core_def)

lemma same_core_trans: "same_core d d1 \<Longrightarrow> same_core d1 d' \<Longrightarrow> same_core d d'"
  by (simp add: same_core_def)

lemma link_task_message_core: "link_task_message rid t m d = Inr (u, d') \<Longrightarrow> same_core d d'"
  by (auto simp: link_task_message_def tx_Inr same_core_def)

lemma touch_task_core: "touch_task rid t f now d = Inr (u, d') \<Longrightarrow> same_core d d'"
  by (auto simp: touch_task_def tx_Inr same_core_def)

lemma record_task_change_core: "record_task_change rid t act who now note d = Inr (u, d') \<Longrightarrow> same_core d d'"
  by (auto simp: record_task_change_def tx_Inr same_core_def)

lemma attachTaskMessage_core: "attachTaskMessage now rid a t m d = Inr (u, d') \<Longrightarrow> same_core d d'"
  by (auto simp: attachTaskMessage_def tx_Inr split: option.splits if_splits dest!: requireTaskWriter_Inr
      intro: same_core_trans [OF link_task_message_core same_core_trans [OF touch_task_core record_task_change_core]])

subsection \<open>Statements of the log and of messages\<close>

lemma allocateSeq_Inr:
  "allocateSeq rid d = Inr (n, d') \<Longrightarrow>
     d' = d\<lparr>rooms := bump rid (rooms d)\<rparr> \<and> (\<exists>r. find_room rid d = Some r \<and> n = r_next_seq r)"
  by (auto simp: allocateSeq_def tx_Inr bump_def split: option.splits)

lemma insertEventAt_Inr:
  "insertEventAt rid n u k p now d = Inr (e, d') \<Longrightarrow>
     d' = d\<lparr>room_events := room_events d @ [(rid, e)]\<rparr> \<and>
     e = \<lparr>de_seq = n, de_kind = k, de_actor_uid = u, de_payload = p, de_created_at = now\<rparr>"
  by (auto simp: insertEventAt_def tx_Inr Let_def)

lemma appendEvent_Inr:
  "appendEvent now rid u k p d = Inr (e, d') \<Longrightarrow>
     logged rid e d d' \<and> de_kind e = k \<and> de_payload e = p \<and> de_actor_uid e = u \<and> de_created_at e = now"
  by (auto simp: appendEvent_def tx_Inr logged_def dest!: allocateSeq_Inr insertEventAt_Inr)

lemma insertMessage_Inr:
  "insertMessage rid cid u k b h s n now d = Inr (mid, d') \<Longrightarrow>
     find_message rid cid d = None \<and> mid = message_autoinc d + 1 \<and>
     d' = d\<lparr>messages := messages d @ [\<lparr>msg_id = mid, msg_room = rid, msg_client = cid, msg_actor = u,
       msg_kind = k, msg_body = b, msg_hash = h, msg_state = s, msg_seq = n, msg_created = now\<rparr>],
       message_autoinc := mid\<rparr>"
  by (auto simp: insertMessage_def tx_Inr)

lemma insertBinding_Inr:
  "insertBinding rid mid turn s d = Inr (u, d') \<Longrightarrow>
     d' = d\<lparr>turn_bindings := turn_bindings d @ [\<lparr>b_room = rid, b_message = mid, b_turn = turn, b_state = s,
       b_started = None, b_completed = None, b_error_code = None, b_error_digest = None\<rparr>]\<rparr>"
  by (auto simp: insertBinding_def tx_Inr)

lemma paired_update_moved:
  assumes "updateMessageState e rid mid old new d = Inr (u, d1)"
    and "updateBinding e rid mid old f d1 = Inr (u', d')"
    and "\<And>b. b_message (f b) = b_message b \<and> b_room (f b) = b_room b \<and> b_state (f b) = new"
  shows "moved rid mid old new d d'"
proof -
  from assms(1) have d1: "d1 = d\<lparr>messages := update_where
     (\<lambda>m. msg_room m = rid \<and> msg_id m = mid \<and> msg_state m = old) (\<lambda>m. m\<lparr>msg_state := new\<rparr>) (messages d)\<rparr>"
    by (auto simp: updateMessageState_def Let_def tx_Inr)
  let ?Q = "\<lambda>b. b_room b = rid \<and> b_message b = mid \<and> b_state b = old"
  from assms(2) d1 have "d' = d1\<lparr>turn_bindings := update_where ?Q f (turn_bindings d)\<rparr>"
    and c: "count_where ?Q (turn_bindings d) = 1"
    by (auto simp: updateBinding_def Let_def tx_Inr)
  moreover from c have "\<exists>b \<in> set (turn_bindings d). ?Q b"
    using count_where_pos [of ?Q "turn_bindings d"] by simp
  ultimately show ?thesis
    unfolding moved_def using d1 assms(3) by auto
qed

lemma updateMessageAndBinding_moved:
  "updateMessageAndBinding rid mid old new t c g turn st d = Inr (u, d') \<Longrightarrow> moved rid mid old new d d'"
  by (auto simp: updateMessageAndBinding_def tx_Inr intro: paired_update_moved)

lemma resetReviewedPrompt_moved:
  "resetReviewedPrompt rid mid d = Inr (u, d') \<Longrightarrow> moved rid mid RequestNeedsReview RequestQueued d d'"
  by (auto simp: resetReviewedPrompt_def tx_Inr intro: paired_update_moved)

lemma resetReviewedControl_moved:
  "resetReviewedControl rid mid d = Inr (u, d') \<Longrightarrow> moved rid mid RequestNeedsReview RequestDispatching d d'"
  by (auto simp: resetReviewedControl_def tx_Inr intro: paired_update_moved)

lemma terminalizeReviewed_moved:
  "terminalizeReviewed rid mid code now d = Inr (u, d') \<Longrightarrow> moved rid mid RequestNeedsReview RequestFailed d d'"
  by (auto simp: terminalizeReviewed_def tx_Inr intro: paired_update_moved)

definition shows_message :: "stored_message \<Rightarrow> message_row \<Rightarrow> bool" where
  "shows_message x m \<longleftrightarrow>
     sm_id x = msg_id m \<and> sm_kind x = msg_kind m \<and> sm_actor x = msg_actor m \<and> sm_body x = msg_body m
     \<and> sm_hash x = msg_hash m \<and> sm_state x = msg_state m \<and> sm_seq x = msg_seq m"

lemma loadStoredMessage_Some:
  "loadStoredMessage rid cid d = Some x \<Longrightarrow> \<exists>m. find_message rid cid d = Some m \<and> shows_message x m"
  by (auto simp: loadStoredMessage_def shows_message_def split: option.splits)

lemma loadStoredMessage_None: "loadStoredMessage rid cid d = None \<longleftrightarrow> find_message rid cid d = None"
  by (auto simp: loadStoredMessage_def split: option.splits)

lemma requireMessageState_Inr:
  "requireMessageState rid cid ks s d = Inr (x, d') \<Longrightarrow>
     d' = d \<and> (\<exists>m. find_message rid cid d = Some m \<and> shows_message x m \<and> msg_state m = s \<and> msg_kind m \<in> set ks)"
  by (auto simp: requireMessageState_def tx_Inr shows_message_def split: option.splits
      dest: loadStoredMessage_Some)

lemma accept_new_added:
  assumes "accept_new rid a cid k b h initial binding ek task now d = Inr (ac, d')"
    and "binding = bound_kind k" "\<not> bound_kind k \<Longrightarrow> initial = RequestCompleted"
  shows "\<exists>row e. added rid row e d d' \<and> msg_client row = cid \<and> msg_kind row = k \<and> msg_state row = initial
     \<and> de_kind e = ek \<and> msg_actor row = actor_uid a \<and> msg_hash row = h \<and> msg_body row = b
     \<and> ac = acceptance_of (msg_id row) cid (msg_seq row) initial [] False e"
proof -
  from assms(1) obtain n d1 mid d2 d3 d4 e where
    1: "allocateSeq rid d = Inr (n, d1)" and
    2: "insertMessage rid cid (actor_uid a) k b h initial n now d1 = Inr (mid, d2)" and
    3: "(if 0 < task then attachTaskMessage now rid a (nat task) mid else tx_return ()) d2 = Inr ((), d3)" and
    4: "(if binding then insertBinding rid mid (control_turn k b) initial else tx_return ()) d3 = Inr ((), d4)" and
    5: "insertEventAt rid n (actor_uid a) ek
        (JObj [(''client_message_id'', JStr cid), (''message_id'', JNat mid),
              (''kind'', JStr (message_kind_text k)), (''body'', JStr (body_column b)),
              (''state'', JStr (request_state_text initial))]) now d4 = Inr (e, d')" and
    ac: "ac = acceptance_of mid cid n initial [] False e"
    by (auto simp: accept_new_def tx_Inr dest!: requireActor_Inr)
  have sc: "same_core d2 d3"
    using 3 by (auto simp: tx_Inr dest: attachTaskMessage_core split: if_splits)
  let ?row = "\<lparr>msg_id = mid, msg_room = rid, msg_client = cid, msg_actor = actor_uid a,
     msg_kind = k, msg_body = b, msg_hash = h, msg_state = initial, msg_seq = n, msg_created = now\<rparr>"
  have "added rid ?row e d d'"
    using allocateSeq_Inr [OF 1] insertMessage_Inr [OF 2] sc insertEventAt_Inr [OF 5] 4 assms(2,3)
    by (auto simp: added_def same_core_def tx_Inr agrees_def find_message_def
        dest!: insertBinding_Inr split: if_splits)
  then show ?thesis
    using insertEventAt_Inr [OF 5] ac by (intro exI [of _ ?row] exI [of _ e]) simp
qed

subsection \<open>Acceptance\<close>

abbreviation accept_labels :: "client_message_id \<Rightarrow> message_kind \<Rightarrow> acceptance \<Rightarrow> alabel list \<Rightarrow> bool" where
  "accept_labels cid k ac ls \<equiv> ls = (if ac_duplicate ac then [] else [LAccept cid k])"

lemma accept_duplicate_Inr:
  "accept_duplicate rid cid m k u h d = Inr (ac, d') \<Longrightarrow>
     d' = d \<and> sm_kind m = k \<and> sm_actor m = u \<and> sm_hash m = h \<and>
     (\<exists>e. find_event rid (sm_seq m) d = Some e \<and>
        ac = acceptance_of (sm_id m) cid (sm_seq m) (sm_state m) (sm_error_code m) True e)"
  by (auto simp: accept_duplicate_def loadEventTx_def tx_Inr split: option.splits)

lemma accept_body_refines:
  assumes "wf_db d" "accept_body rid a cid k b h (initial_state k) (bound_kind k) ek task now d = Inr (ac, d')"
    and "ek \<noteq> ''recovery/retried''"
  shows "refines rid (accept_labels cid k ac) d d'"
proof (cases "loadStoredMessage rid cid d")
  case None
  then have new: "accept_new rid a cid k b h (initial_state k) (bound_kind k) ek task now d = Inr (ac, d')"
    using assms(2) by (simp add: accept_body_def tx_Inr)
  have "\<not> bound_kind k \<Longrightarrow> initial_state k = RequestCompleted"
    by (auto simp: bound_kind_def initial_state_def is_prompt_def is_control_def)
  from accept_new_added [OF new refl this] obtain row e where
    "added rid row e d d'" "msg_client row = cid" "msg_kind row = k" "msg_state row = initial_state k"
    "de_kind e = ek" "ac = acceptance_of (msg_id row) cid (msg_seq row) (initial_state k) [] False e"
    by blast
  with refines_added [OF assms(1), of rid row e d'] assms(3) show ?thesis
    by (simp add: acceptance_of_def)
next
  case (Some m)
  with assms(2) have "accept_duplicate rid cid m k (actor_uid a) h d = Inr (ac, d')"
    by (simp add: accept_body_def tx_Inr)
  from accept_duplicate_Inr [OF this] show ?thesis
    by (auto simp: acceptance_of_def refines_id [OF assms(1)])
qed

lemma implements_accept:
  "ek \<noteq> ''recovery/retried'' \<Longrightarrow> initial = initial_state k \<Longrightarrow> binding = bound_kind k \<Longrightarrow>
   implements rid (accept_labels cid k) (accept rid a cid k b h initial binding ek task)"
  unfolding accept_def
  by (intro implements_validated implements_transact, hypsubst) (rule accept_body_refines)

lemma AcceptMessage_implements:
  "implements rid (accept_labels (si_client_message_id i) KPrompt) (AcceptMessage rid a i)"
  unfolding AcceptMessage_def
  by (intro implements_validated implements_accept)
     (simp_all add: initial_state_def bound_kind_def is_prompt_def)

lemma AppendNote_implements:
  "implements rid (accept_labels (si_client_message_id i) KNote) (AppendNote rid a i)"
  unfolding AppendNote_def
  by (intro implements_validated implements_accept)
     (simp_all add: initial_state_def bound_kind_def is_prompt_def is_control_def)

lemma AcceptControl_implements:
  "implements rid (accept_labels (ci_client_message_id i) (control_message_kind (ci_kind i))) (AcceptControl rid a i)"
  unfolding AcceptControl_def Let_def
  by (intro implements_validated implements_accept)
     (auto simp: initial_state_def bound_kind_def is_prompt_def is_control_def control_message_kind_def)

subsection \<open>Transitions\<close>

lemma moved_then_logged:
  assumes "wf_db d" "moved rid (msg_id m) (msg_state m) new d d1" "find_message rid c d = Some m"
    and "logged rid e d1 d'" "de_kind e \<noteq> ''recovery/retried''"
    and step: "\<And>v r. v c = Some (msg_kind m, msg_state m) \<Longrightarrow> astep l (v, r) (v(c \<mapsto> (msg_kind m, new)), r)"
  shows "refines rid (\<lambda>ls. ls = [l]) d d'"
proof (rule refines_then_nil)
  show "refines rid (\<lambda>ls. ls = [l]) d d1"
    using step by (rule refines_moved [OF assms(1-3)])
  show "refines rid (\<lambda>ls. ls = []) d1 d'"
    by (rule refines_logged [OF moved_wf [OF assms(2,1)] assms(4,5)])
qed

lemma begin_dispatch_body_refines:
  assumes "wf_db d" "begin_dispatch_body rid cid now d = Inr (u, d')"
  shows "refines rid (\<lambda>ls. ls = [LDispatch cid]) d d'"
proof -
  from assms(2) obtain m where m: "find_message rid cid d = Some m" "msg_state m = RequestQueued" "is_prompt (msg_kind m)"
    and "moved rid (msg_id m) RequestQueued RequestDispatching d d'"
    by (auto simp: begin_dispatch_body_def tx_Inr shows_message_def is_prompt_def
        dest!: requireMessageState_Inr updateMessageAndBinding_moved)
  with assms(1) show ?thesis by (intro refines_moved [of d rid m _ d' cid]) (auto intro: astep.dispatch)
qed

lemma bind_running_body_refines:
  assumes "wf_db d" "bind_running_body rid cid turn now d = Inr (x, d')"
  shows "refines rid (\<lambda>ls. ls = [LRun cid]) d d'"
proof -
  from assms(2) obtain m d1 where m: "find_message rid cid d = Some m" "msg_state m = RequestDispatching" "is_prompt (msg_kind m)"
    and "moved rid (msg_id m) RequestDispatching RequestRunning d d1" "logged rid x d1 d'" "de_kind x = ''turn/running''"
    by (auto simp: bind_running_body_def tx_Inr shows_message_def is_prompt_def
        dest!: requireMessageState_Inr updateMessageAndBinding_moved appendEvent_Inr)
  with assms(1) show ?thesis by (intro moved_then_logged [of d rid m _ d1 cid x]) (auto intro: astep.run)
qed

lemma fail_dispatch_body_refines:
  assumes "wf_db d" "fail_dispatch_body rid cid oc now d = Inr (x, d')"
    and ok: "oc_state oc \<in> {RequestFailed, RequestInterrupted, RequestNeedsReview}"
  shows "refines rid (\<lambda>ls. ls = [LFail cid (oc_state oc)]) d d'"
proof -
  from assms(2) obtain m d1 where m: "find_message rid cid d = Some m" "msg_state m = RequestDispatching" "is_prompt (msg_kind m)"
    and "moved rid (msg_id m) RequestDispatching (oc_state oc) d d1" "logged rid x d1 d'"
    and "de_kind x = ''message/'' @ request_state_text (oc_state oc)"
    by (auto simp: fail_dispatch_body_def tx_Inr shows_message_def is_prompt_def
        dest!: requireMessageState_Inr updateMessageAndBinding_moved appendEvent_Inr)
  with assms(1) ok show ?thesis by (intro moved_then_logged [of d rid m _ d1 cid x]) (auto intro: astep.fail)
qed

lemma finish_control_body_refines:
  assumes "wf_db d" "finish_control_body rid cid oc now d = Inr (x, d')"
    and ok: "oc_state oc \<in> {RequestCompleted, RequestFailed, RequestNeedsReview}"
  shows "refines rid (\<lambda>ls. ls = [LControl cid (oc_state oc)]) d d'"
proof -
  from assms(2) obtain m d1 where m: "find_message rid cid d = Some m" "msg_state m = RequestDispatching" "is_control (msg_kind m)"
    and "moved rid (msg_id m) RequestDispatching (oc_state oc) d d1" "logged rid x d1 d'"
    and "de_kind x = ''control/'' @ request_state_text (oc_state oc)"
    by (auto simp: finish_control_body_def tx_Inr shows_message_def is_control_def
        dest!: requireMessageState_Inr updateMessageAndBinding_moved appendEvent_Inr)
  with assms(1) ok show ?thesis by (intro moved_then_logged [of d rid m _ d1 cid x]) (auto intro: astep.control)
qed

lemma running_turn_Some:
  "wf_db d \<Longrightarrow> running_turn rid turn d = Some m \<Longrightarrow>
     find_message rid (msg_client m) d = Some m \<and> is_prompt (msg_kind m)
     \<and> (msg_state m = RequestRunning \<or> msg_state m = RequestNeedsReview)"
  unfolding running_turn_def wf_db_def by (auto dest!: find_SomeD dest: wf_ids_find_message)

lemma finish_turn_body_refines:
  assumes "wf_db d" "finish_turn_body rid i now d = Inr (x, d')" and ok: "isTerminal (ft_state i)"
  shows "refines rid (\<lambda>ls. \<exists>c. ls = [LFinish c (ft_state i)]) d d'"
proof -
  from assms(2) obtain m d1 e where r: "running_turn rid (ft_turn_id i) d = Some m"
    and mv: "moved rid (msg_id m) (msg_state m) (ft_state i) d d1" and l: "logged rid e d1 d'"
    and k: "de_kind e = ''turn/'' @ request_state_text (ft_state i)"
    by (auto simp: finish_turn_body_def tx_Inr dest!: updateMessageAndBinding_moved appendEvent_Inr requireRoom_Inr
        split: option.splits)
  note f = running_turn_Some [OF assms(1) r]
  have "refines rid (\<lambda>ls. ls = [LFinish (msg_client m) (ft_state i)]) d d'"
    using f ok k by (intro moved_then_logged [OF assms(1) mv _ l]) (auto intro: astep.finish)
  then show ?thesis by (rule refines_mono) blast
qed

lemma mark_needs_review_body_refines:
  assumes "wf_db d" "mark_needs_review_body rid cid re now d = Inr (x, d')"
  shows "refines rid (\<lambda>ls. ls = [LReview cid]) d d'"
proof -
  from assms(2) obtain m d1 where m: "find_message rid cid d = Some m" "bound_kind (msg_kind m)"
      "msg_state m = RequestDispatching \<or> msg_state m = RequestRunning"
    and "moved rid (msg_id m) (msg_state m) RequestNeedsReview d d1" "logged rid x d1 d'"
    and "de_kind x = ''message/needs-review''"
    by (auto simp: mark_needs_review_body_def tx_Inr shows_message_def bound_kind_def split: option.splits
        dest!: loadStoredMessage_Some requireRoom_Inr updateMessageAndBinding_moved appendEvent_Inr)
  with assms(1) show ?thesis by (intro moved_then_logged [of d rid m _ d1 cid x]) (auto intro: astep.review)
qed

lemma validateTerminalOutcome_None:
  "validateTerminalOutcome s c g controls = None \<Longrightarrow>
     s \<in> (if controls then {RequestCompleted, RequestFailed, RequestNeedsReview}
           else {RequestFailed, RequestInterrupted, RequestNeedsReview})"
  by (auto simp: validateTerminalOutcome_def split: if_splits)

lemma validateFinishTurn_None: "validateFinishTurn i = None \<Longrightarrow> isTerminal (ft_state i)"
  by (auto simp: validateFinishTurn_def isTerminal_def split: if_splits)

lemma BeginDispatch_implements: "implements rid (\<lambda>_ ls. ls = [LDispatch cid]) (BeginDispatch rid cid)"
  unfolding BeginDispatch_def
  by (intro implements_validated implements_transact) (rule begin_dispatch_body_refines)

lemma BindRunningTurn_implements: "implements rid (\<lambda>_ ls. ls = [LRun cid]) (BindRunningTurn rid cid turn)"
  unfolding BindRunningTurn_def
  by (intro implements_validated implements_transact) (rule bind_running_body_refines)

lemma FailDispatch_implements:
  "implements rid (\<lambda>_ ls. ls = [LFail cid (oc_state oc)]) (FailDispatch rid cid oc)"
  unfolding FailDispatch_def
  by (intro implements_validated implements_transact)
     (auto dest: validateTerminalOutcome_None intro!: fail_dispatch_body_refines)

lemma FinishControl_implements:
  "implements rid (\<lambda>_ ls. ls = [LControl cid (oc_state oc)]) (FinishControl rid cid oc)"
  unfolding FinishControl_def
  by (intro implements_validated implements_transact)
     (auto dest: validateTerminalOutcome_None intro!: finish_control_body_refines)

lemma FinishTurn_implements:
  "implements rid (\<lambda>_ ls. \<exists>c. ls = [LFinish c (ft_state i)]) (FinishTurn rid i)"
  unfolding FinishTurn_def
  by (intro implements_validated implements_transact)
     (auto dest: validateFinishTurn_None intro!: finish_turn_body_refines)

lemma MarkNeedsReview_implements: "implements rid (\<lambda>_ ls. ls = [LReview cid]) (MarkNeedsReview rid cid re)"
  unfolding MarkNeedsReview_def
  by (intro implements_validated implements_transact) (rule mark_needs_review_body_refines)

subsection \<open>Threads, status, items, checkpoints, private turns\<close>

text \<open>A change of a room's thread or status only.\<close>

definition retitled :: "db \<Rightarrow> db \<Rightarrow> bool" where
  "retitled d d' \<longleftrightarrow> (\<exists>rs. d' = d\<lparr>rooms := rs\<rparr> \<and> map room_key rs = map room_key (rooms d))"

lemma room_key_set: "map room_key rs = map room_key ss \<Longrightarrow> r \<in> set rs \<Longrightarrow> \<exists>s \<in> set ss. room_key s = room_key r"
  by (metis (no_types, lifting) image_iff list.set_map)

lemma retitled_wf:
  assumes "retitled d d'" "wf_db d"
  shows "wf_db d'"
proof -
  from assms(1) obtain rs where d': "d' = d\<lparr>rooms := rs\<rparr>" and k: "map room_key rs = map room_key (rooms d)"
    unfolding retitled_def by blast
  have 1: "\<exists>s \<in> set (rooms d). r_id s = r_id r \<and> r_next_seq s = r_next_seq r" if "r \<in> set rs" for r
    using room_key_set [OF k that] by (simp add: room_key_def)
  have 2: "\<exists>r \<in> set rs. r_id r = r_id s \<and> r_next_seq r = r_next_seq s" if "s \<in> set (rooms d)" for s
    using room_key_set [OF k [symmetric] that] by (simp add: room_key_def)
  have "wf_ids d'" "wf_bindings d'"
    using assms(2) room_key_r_id [OF k] d' by (auto simp: wf_db_def wf_ids_def wf_bindings_def)
  moreover have "1 \<le> r_next_seq r \<and> map de_seq (events_of (r_id r) d') = [1..<r_next_seq r]" if "r \<in> set rs" for r
    using 1 [OF that] assms(2) unfolding wf_db_def wf_log_def d' events_of_def by fastforce
  moreover have "\<exists>r \<in> set rs. r_id r = msg_room m \<and> 1 \<le> msg_seq m \<and> msg_seq m < r_next_seq r"
    if "m \<in> set (messages d)" for m
  proof -
    from that assms(2) obtain s where "s \<in> set (rooms d)" "r_id s = msg_room m" "1 \<le> msg_seq m" "msg_seq m < r_next_seq s"
      unfolding wf_db_def wf_log_def by blast
    with 2 [of s] show ?thesis by force
  qed
  then have "wf_log d'"
    using assms(2) calculation(3) unfolding wf_db_def wf_log_def d' by simp
  ultimately show ?thesis by (simp add: wf_db_def)
qed

lemma refines_retitled: "wf_db d \<Longrightarrow> retitled d d' \<Longrightarrow> refines rid (\<lambda>ls. ls = []) d d'"
  using retitled_wf [of d d']
  by (auto simp: refines_def aview_of_def retitled_def extends_def mstate_def find_message_def retries_def events_of_def fun_eq_iff)

lemma retitled_update_where:
  "(\<And>r. room_key (f r) = room_key r) \<Longrightarrow> retitled d (d\<lparr>rooms := update_where P f (rooms d)\<rparr>)"
  unfolding retitled_def by (auto simp: map_update_where)

lemma update_room_retitled:
  "update_room rid P f d = Inr (u, d') \<Longrightarrow> (\<And>r. room_key (f r) = room_key r) \<Longrightarrow> retitled d d'"
  by (auto simp: update_room_def tx_Inr intro: retitled_update_where)

lemma retitled_then_logged:
  assumes "wf_db d" "retitled d d1" "appendEvent now rid u k p d1 = Inr (e, d')" "k \<noteq> ''recovery/retried''"
  shows "refines rid (\<lambda>ls. ls = []) d d'"
  using refines_retitled [OF assms(1,2)]
  by (rule refines_then_nil)
     (use appendEvent_Inr [OF assms(3)] assms(4) refines_logged [OF retitled_wf [OF assms(2,1)]] in auto)

lemmas room_change_intros = retitled_then_logged [rotated 2] update_room_retitled
lemmas room_write_intros = retitled_then_logged [rotated 2] retitled_update_where

lemma SetRoomStatus_implements: "implements rid (\<lambda>_ ls. ls = []) (SetRoomStatus rid st)"
  unfolding SetRoomStatus_def
  by (intro implements_validated implements_transact)
     (auto simp: set_status_body_def tx_Inr room_key_def refines_id split: option.splits if_splits
       intro!: room_change_intros)

lemma BindThread_implements: "implements rid (\<lambda>_ ls. ls = []) (BindThread rid t)"
  unfolding BindThread_def
  by (intro implements_validated implements_transact)
     (auto simp: bind_thread_body_def tx_Inr room_key_def split: option.splits
       intro!: room_change_intros)

lemma MarkThreadNeedsRepair_implements: "implements rid (\<lambda>_ ls. ls = []) (MarkThreadNeedsRepair rid re)"
  unfolding MarkThreadNeedsRepair_def
  by (intro implements_validated implements_transact)
     (auto simp: mark_repair_body_def tx_Inr room_key_def split: option.splits
       intro!: room_change_intros)

lemma RepairThread_implements: "implements rid (\<lambda>_ ls. ls = []) (RepairThread rid t re)"
  unfolding RepairThread_def
  by (intro implements_validated implements_transact)
     (auto simp: repair_thread_body_def tx_Inr room_key_def split: option.splits
       intro!: room_write_intros)

lemma ResetUnusedThread_implements: "implements rid (\<lambda>_ ls. ls = []) (ResetUnusedThread rid t)"
  unfolding ResetUnusedThread_def
  by (intro implements_validated implements_transact)
     (auto simp: reset_thread_body_def tx_Inr room_key_def refines_id split: option.splits if_splits
       intro!: room_write_intros)

lemma RecordCompletedItem_implements: "implements rid (\<lambda>_ ls. ls = []) (RecordCompletedItem rid i)"
  unfolding RecordCompletedItem_def
  by (intro implements_validated implements_transact)
     (auto simp: record_item_body_def tx_Inr refines_id split: option.splits
       dest!: appendEvent_Inr intro: refines_logged)

lemma implements_same:
  "(\<And>now d x d'. body now d = Inr (x, d') \<Longrightarrow> same_core d d') \<Longrightarrow> implements rid (\<lambda>_ ls. ls = []) (transact body)"
  by (intro implements_transact refines_same)

lemma SaveRuntimeCheckpoint_implements: "implements rid (\<lambda>_ ls. ls = []) (SaveRuntimeCheckpoint rid c)"
  unfolding SaveRuntimeCheckpoint_def
  by (intro implements_validated implements_same)
     (auto simp: save_checkpoint_body_def tx_Inr same_core_def dest!: requireRoom_Inr)

lemma LoadRecoveryImage_implements: "implements rid (\<lambda>_ ls. ls = []) (LoadRecoveryImage rid)"
  unfolding LoadRecoveryImage_def
  by (intro implements_validated implements_same)
     (auto simp: load_image_body_def tx_Inr split: option.splits)

lemma BeginPrivateTurn_implements: "implements rid (\<lambda>_ ls. ls = []) (BeginPrivateTurn rid' th b)"
  unfolding BeginPrivateTurn_def by (intro implements_same) (auto simp: tx_Inr same_core_def)

lemma EndPrivateTurn_implements: "implements rid (\<lambda>_ ls. ls = []) (EndPrivateTurn rid' th ts)"
  unfolding EndPrivateTurn_def
  by (intro implements_same) (auto simp: end_private_body_def tx_Inr same_core_def)

lemma implements_nil_iff:
  "implements rid (\<lambda>_ ls. ls = []) oper \<longleftrightarrow>
     (\<forall>s. wf_db (st_db s) \<longrightarrow> refines rid (\<lambda>ls. ls = []) (st_db s) (st_db (snd (oper s))))"
  unfolding implements_def by (auto split: sum.splits) (metis obj_sumE prod.exhaust_sel)

lemma PrivateTurns_implements: "implements rid (\<lambda>_ ls. ls = []) (PrivateTurns rid' th ts)"
proof -
  let ?q = "\<lambda>d. (hidden_turns rid' th d, private_baseline rid' th d)"
  have q: "implements rid (\<lambda>_ ls. ls = []) (transact (\<lambda>now. tx_read ?q))"
    by (intro implements_same) (auto simp: tx_Inr)
  have "refines rid (\<lambda>ls. ls = []) (st_db s) (st_db (snd (PrivateTurns rid' th ts s)))" if "wf_db (st_db s)" for s
  proof -
    let ?s1 = "snd (transact (\<lambda>now. tx_read ?q) s)"
    have 1: "refines rid (\<lambda>ls. ls = []) (st_db s) (st_db ?s1)"
      using q that by (simp add: implements_nil_iff)
    have 2: "refines rid (\<lambda>ls. ls = []) (st_db s) (st_db (snd (EndPrivateTurn rid' th xs ?s1)))" for xs
      using EndPrivateTurn_implements [of rid rid' th xs] refines_wf [OF 1]
      by (intro refines_then_nil [OF 1]) (simp add: implements_nil_iff)
    show ?thesis
    proof (cases "transact (\<lambda>now. tx_read ?q) s")
      case (Pair r s1)
      with 1 2 show ?thesis
        by (auto simp: PrivateTurns_def Let_def split: sum.splits prod.splits option.splits if_splits)
           (metis snd_conv)+
    qed
  qed
  then show ?thesis by (simp add: implements_nil_iff)
qed

subsection \<open>Tasks\<close>

lemma loadTask_Inr: "loadTask rid t d = Inr (x, d') \<Longrightarrow> d' = d \<and> load_task rid t d = Some x"
  by (auto simp: loadTask_def tx_Inr split: option.splits)

lemma insert_task_core: "insert_task rid m n t a now d = Inr (x, d') \<Longrightarrow> same_core d d'"
  by (auto simp: insert_task_def tx_Inr same_core_def)

lemma convert_task_core: "convert_task now rid a q d = Inr (x, d') \<Longrightarrow> same_core d d'"
  by (auto simp: convert_task_def tx_Inr split: if_splits option.splits
      dest!: insert_task_core link_task_message_core record_task_change_core intro: same_core_trans)

lemma close_or_reopen_task_core: "close_or_reopen_task now rid a q d = Inr (x, d') \<Longrightarrow> same_core d d'"
  by (auto simp: close_or_reopen_task_def Let_def tx_Inr split: if_splits
      dest!: loadTask_Inr touch_task_core record_task_change_core intro: same_core_trans)

lemma ChangeTask_implements: "implements rid (\<lambda>_ ls. ls = []) (ChangeTask rid' a q)"
proof -
  have "same_core d d'" if "change_task_body rid' a q now d = Inr (x, d')" for now d x d'
    using that
    by (auto simp: change_task_body_def Let_def tx_Inr same_core_def split: option.splits if_splits
        dest!: requireTaskWriter_Inr loadTask_Inr close_or_reopen_task_core convert_task_core)
  then show ?thesis
    unfolding ChangeTask_def by (intro implements_validated implements_same)
qed

subsection \<open>Reviews\<close>

text \<open>The steps a resolved review stands for.\<close>

inductive resolve_labels :: "recover_input \<Rightarrow> alabel list \<Rightarrow> bool" for i where
  prompt_retry: "ri_action i = RecoveryRetry \<Longrightarrow>
     resolve_labels i [LAccept (ri_client_message_id i) KRecover, LRequeue (ri_target_message_id i)]"
| control_retry: "ri_action i = RecoveryRetry \<Longrightarrow>
     resolve_labels i [LAccept (ri_client_message_id i) KRecover, LRedispatch (ri_target_message_id i)]"
| skipped: "ri_action i = RecoverySkip \<Longrightarrow>
     resolve_labels i [LAccept (ri_client_message_id i) KRecover, LAbandon (ri_target_message_id i)]"
| continued: "ri_action i = RecoveryContinue \<Longrightarrow>
     resolve_labels i [LAccept (ri_client_message_id i) KRecover, LAbandon (ri_target_message_id i),
       LAccept (ri_replacement_message_id i) KRecoveryPrompt]"

lemma insertRecoveryPrompt_added:
  assumes "insertRecoveryPrompt now rid a cid instr source d = Inr (e, d')"
  shows "\<exists>row. added rid row e d d' \<and> msg_client row = cid \<and> msg_kind row = KRecoveryPrompt
     \<and> msg_state row = RequestQueued \<and> de_kind e = ''message/accepted''"
proof -
  let ?h = "canonicalHash KRecoveryPrompt (actor_uid a) (JObj [(''text'', JStr instr)])"
  from assms obtain n d1 mid d2 d3 d4 where
    1: "allocateSeq rid d = Inr (n, d1)" and
    2: "insertMessage rid cid (actor_uid a) KRecoveryPrompt (BodyText instr) ?h RequestQueued n now d1 = Inr (mid, d2)" and
    3: "insertBinding rid mid None RequestQueued d2 = Inr ((), d3)" and
    4: "(case message_task rid source d3 of Some t \<Rightarrow> attachTaskMessage now rid a t mid | None \<Rightarrow> tx_return ()) d3 = Inr ((), d4)" and
    5: "insertEventAt rid n (actor_uid a) ''message/accepted''
       (JObj [(''client_message_id'', JStr cid), (''message_id'', JNat mid),
              (''kind'', JStr ''recovery-prompt''), (''body'', JStr instr),
              (''state'', JStr (request_state_text RequestQueued))]) now d4 = Inr (e, d')"
    by (auto simp: insertRecoveryPrompt_def tx_Inr)
  have sc: "same_core d3 d4"
    using 4 by (auto simp: tx_Inr dest: attachTaskMessage_core split: option.splits)
  let ?row = "\<lparr>msg_id = mid, msg_room = rid, msg_client = cid, msg_actor = actor_uid a,
     msg_kind = KRecoveryPrompt, msg_body = BodyText instr, msg_hash = ?h, msg_state = RequestQueued, msg_seq = n, msg_created = now\<rparr>"
  have "added rid ?row e d d'"
    using allocateSeq_Inr [OF 1] insertMessage_Inr [OF 2] insertBinding_Inr [OF 3] sc insertEventAt_Inr [OF 5]
    by (auto simp: added_def same_core_def agrees_def find_message_def bound_kind_def)
  then show ?thesis
    using insertEventAt_Inr [OF 5] by (intro exI [of _ ?row]) simp
qed

lemma insertRecoveryPrompt_refines:
  assumes "wf_db d" "insertRecoveryPrompt now rid a cid instr source d = Inr (e, d')"
  shows "refines rid (\<lambda>ls. ls = [LAccept cid KRecoveryPrompt]) d d'"
proof -
  from insertRecoveryPrompt_added [OF assms(2)] obtain row where
    "added rid row e d d'" "msg_client row = cid" "msg_kind row = KRecoveryPrompt"
    "msg_state row = RequestQueued" "de_kind e = ''message/accepted''" by blast
  with refines_added [OF assms(1), of rid row e d'] show ?thesis
    by (simp add: initial_state_def is_prompt_def)
qed

lemma bound_kind_cases: "bound_kind k \<Longrightarrow> is_prompt k \<or> is_control k"
  by (cases k) (auto simp: bound_kind_def is_prompt_def is_control_def)

lemma resolve_retry_refines:
  assumes "wf_db d" "resolve_retry now rid a i t d = Inr (x, d')"
    and m: "find_message rid (ri_target_message_id i) d = Some m" "shows_message t m"
      "msg_state m = RequestNeedsReview" "bound_kind (msg_kind m)"
  shows "refines rid (\<lambda>ls. ls = [if is_prompt (msg_kind m) then LRequeue (ri_target_message_id i)
                                  else LRedispatch (ri_target_message_id i)]) d d'"
proof -
  let ?new = "if is_prompt (msg_kind m) then RequestQueued else RequestDispatching"
  from assms(2) m(2) obtain d1 e where mv: "moved rid (msg_id m) (msg_state m) ?new d d1"
    and l: "logged rid e d1 d'" and k: "de_kind e = ''recovery/retried''"
    and p: "de_payload e = JObj [(''target_message_id'', JStr (ri_target_message_id i)),
               (''state'', JStr (request_state_text (recoveryRetryState (sm_kind t)))),
               (''duplicate_effects_possible'', JBool True)]"
    unfolding resolve_retry_def tx_Inr m(3)
    by (auto simp: tx_Inr shows_message_def retryCommand_def split: if_splits option.splits
        dest!: resetReviewedPrompt_moved resetReviewedControl_moved appendEvent_Inr)
  have retry: "is_retry_of x e \<longleftrightarrow> x = ri_target_message_id i" for x
    by (auto simp: is_retry_of_def k p extract_text_def json_get_def json_text_def)
  show ?thesis
  proof (rule refines_retried [OF assms(1) mv m(1) l retry])
    fix v r
    assume "v (ri_target_message_id i) = Some (msg_kind m, msg_state m)"
    then show "astep (if is_prompt (msg_kind m) then LRequeue (ri_target_message_id i) else LRedispatch (ri_target_message_id i))
        (v, r) (v(ri_target_message_id i \<mapsto> (msg_kind m, ?new)), r(ri_target_message_id i := r (ri_target_message_id i) + 1))"
      using m(3) bound_kind_cases [OF m(4)] by (cases "is_prompt (msg_kind m)") (simp_all add: astep.intros del: One_nat_def)
  qed
qed

lemma resolve_abandon_refines:
  assumes "wf_db d" "resolve_abandon now rid a i t d = Inr (x, d')"
    and m: "find_message rid (ri_target_message_id i) d = Some m" "shows_message t m"
      "msg_state m = RequestNeedsReview" "bound_kind (msg_kind m)"
  shows "refines rid (\<lambda>ls. ls = LAbandon (ri_target_message_id i) #
           (if ri_action i = RecoveryContinue then [LAccept (ri_replacement_message_id i) KRecoveryPrompt] else [])) d d'"
proof -
  let ?tail = "if ri_action i = RecoveryContinue then [LAccept (ri_replacement_message_id i) KRecoveryPrompt] else []"
  from assms(2) m(2) obtain d1 d2 e where mv: "moved rid (msg_id m) (msg_state m) RequestFailed d d1"
    and l: "logged rid e d1 d2" "de_kind e \<noteq> ''recovery/retried''"
    and rest: "if ri_action i = RecoveryContinue
      then \<exists>r. insertRecoveryPrompt now rid a (ri_replacement_message_id i) (ri_instruction i) (sm_id t) d2 = Inr (r, d')
      else d' = d2"
    unfolding resolve_abandon_def tx_Inr m(3) Let_def
    by (auto simp: tx_Inr shows_message_def split: if_splits dest!: terminalizeReviewed_moved appendEvent_Inr)
  have 1: "refines rid (\<lambda>ls. ls = [LAbandon (ri_target_message_id i)]) d d2"
    using m(3,4) by (intro moved_then_logged [OF assms(1) mv m(1) l]) (auto intro: astep.abandon)
  have "refines rid (\<lambda>ls. ls = ?tail) d2 d'"
    using rest insertRecoveryPrompt_refines [OF refines_wf [OF 1]] refines_id [OF refines_wf [OF 1]]
    by (auto split: if_splits)
  from refines_trans [OF 1 this] show ?thesis by simp
qed

text \<open>The recovery command itself is a message without a binding.\<close>

lemma recover_command_added:
  assumes "allocateSeq rid d = Inr (n, d1)"
    and "insertMessage rid cid u KRecover b h RequestCompleted n now d1 = Inr (mid, d2)"
    and "insertEventAt rid n u k p now d2 = Inr (e, d3)"
  shows "\<exists>row. added rid row e d d3 \<and> msg_client row = cid \<and> msg_kind row = KRecover
     \<and> msg_state row = RequestCompleted"
proof -
  let ?row = "\<lparr>msg_id = mid, msg_room = rid, msg_client = cid, msg_actor = u, msg_kind = KRecover,
     msg_body = b, msg_hash = h, msg_state = RequestCompleted, msg_seq = n, msg_created = now\<rparr>"
  have "added rid ?row e d d3"
    using allocateSeq_Inr [OF assms(1)] insertMessage_Inr [OF assms(2)] insertEventAt_Inr [OF assms(3)]
    by (auto simp: added_def agrees_def find_message_def bound_kind_def)
  then show ?thesis by (intro exI [of _ ?row]) simp
qed

lemma resolve_newE:
  assumes "resolve_new rid a i h now d = Inr (x, d')"
  obtains t m n d1 mid d2 e d3 y d4 where
    "find_message rid (ri_target_message_id i) d = Some m" "shows_message t m" "msg_state m = RequestNeedsReview"
    "bound_kind (msg_kind m)" "allocateSeq rid d = Inr (n, d1)"
    "insertMessage rid (ri_client_message_id i) (actor_uid a) KRecover
       (BodyRecover (ri_target_message_id i) (ri_action i) (ri_replacement_message_id i) (ri_instruction i))
       h RequestCompleted n now d1 = Inr (mid, d2)"
    "insertEventAt rid n (actor_uid a) ''recovery/accepted''
       (JObj [(''client_message_id'', JStr (ri_client_message_id i)), (''target_message_id'', JStr (ri_target_message_id i)),
              (''action'', JStr (recovery_action_text (ri_action i)))]) now d2 = Inr (e, d3)"
    "(case ri_action i of RecoveryRetry \<Rightarrow> resolve_retry now rid a i t
       | RecoveryOther _ \<Rightarrow> tx_fail ErrInvalidInput | _ \<Rightarrow> resolve_abandon now rid a i t) d3 = Inr (y, d4)"
    "same_core d4 d'" "\<not> rr_duplicate x"
proof -
  from assms have "requireActor rid a d = Inr ((), d)"
    by (auto simp: resolve_new_def tx_Inr dest: requireActor_Inr)
  moreover obtain t where "loadStoredMessage rid (ri_target_message_id i) d = Some t"
    using assms calculation by (auto simp: resolve_new_def tx_Inr split: option.splits)
  moreover from loadStoredMessage_Some [OF this] obtain m where
    "find_message rid (ri_target_message_id i) d = Some m" "shows_message t m" by blast
  ultimately show thesis
    using assms that [of m t]
    by (simp add: resolve_new_def tx_Inr link_recovery_events_def same_core_def shows_message_def bound_kind_def)
       (elim exE conjE, simp)
qed

lemma resolve_new_refines:
  assumes wf: "wf_db d" and run: "resolve_new rid a i h now d = Inr (x, d')"
  shows "refines rid (resolve_labels i) d d' \<and> \<not> rr_duplicate x"
proof -
  let ?c = "ri_client_message_id i" and ?t = "ri_target_message_id i"
  from run obtain t m n d1 mid d2 e d3 y d4 where
    m: "find_message rid ?t d = Some m" "shows_message t m" "msg_state m = RequestNeedsReview" "bound_kind (msg_kind m)"
    and ins: "allocateSeq rid d = Inr (n, d1)"
      "insertMessage rid ?c (actor_uid a) KRecover (BodyRecover ?t (ri_action i) (ri_replacement_message_id i) (ri_instruction i))
        h RequestCompleted n now d1 = Inr (mid, d2)"
      "insertEventAt rid n (actor_uid a) ''recovery/accepted''
              (JObj [(''client_message_id'', JStr ?c), (''target_message_id'', JStr ?t),
                     (''action'', JStr (recovery_action_text (ri_action i)))]) now d2 = Inr (e, d3)"
    and act: "(case ri_action i of RecoveryRetry \<Rightarrow> resolve_retry now rid a i t
       | RecoveryOther _ \<Rightarrow> tx_fail ErrInvalidInput | _ \<Rightarrow> resolve_abandon now rid a i t) d3 = Inr (y, d4)"
    and core: "same_core d4 d'" and dup: "\<not> rr_duplicate x"
    by (elim resolve_newE)
  from recover_command_added [OF ins] obtain row where row: "added rid row e d d3" "msg_client row = ?c"
    "msg_kind row = KRecover" "msg_state row = RequestCompleted" by blast
  have ek: "de_kind e = ''recovery/accepted''"
    using insertEventAt_Inr [OF ins(3)] by simp
  have 1: "refines rid (\<lambda>ls. ls = [LAccept ?c KRecover]) d d3"
    using refines_added [OF wf row(1)] row ek by (simp add: initial_state_def is_prompt_def is_control_def)
  have "?t \<noteq> ?c"
    using m(1) row(1,2) by (auto simp: added_def)
  then have m3: "find_message rid ?t d3 = Some m"
    using m(1) row(2) added_find_message [OF row(1), of ?t] by simp
  note wf3 = refines_wf [OF 1]
  have 2: "refines rid (\<lambda>ls. resolve_labels i (LAccept ?c KRecover # ls)) d3 d4"
  proof (cases "ri_action i")
    case RecoveryRetry
    with act have "resolve_retry now rid a i t d3 = Inr (y, d4)" by simp
    from resolve_retry_refines [OF wf3 this m3 m(2-4)] show ?thesis
      by (rule refines_mono) (auto intro: resolve_labels.intros simp: RecoveryRetry split: if_splits)
  next
    case (RecoveryOther z)
    with act show ?thesis by (simp add: tx_Inr)
  next
    case RecoverySkip
    with act have "resolve_abandon now rid a i t d3 = Inr (y, d4)" by simp
    from resolve_abandon_refines [OF wf3 this m3 m(2-4)] RecoverySkip show ?thesis
      by (elim refines_mono) (auto intro: resolve_labels.intros)
  next
    case RecoveryContinue
    with act have "resolve_abandon now rid a i t d3 = Inr (y, d4)" by simp
    from resolve_abandon_refines [OF wf3 this m3 m(2-4)] RecoveryContinue show ?thesis
      by (elim refines_mono) (auto intro: resolve_labels.intros)
  qed
  have "refines rid (resolve_labels i) d d4"
    by (rule refines_mono [OF refines_trans [OF 1 2]]) auto
  then have "refines rid (resolve_labels i) d d'"
    by (rule refines_then_nil) (rule refines_same [OF refines_wf [OF 2] core])
  with dup show ?thesis by simp
qed

lemma resolve_body_refines:
  assumes "wf_db d" "resolve_body rid a i now d = Inr (x, d')"
  shows "refines rid (if rr_duplicate x then (\<lambda>ls. ls = []) else resolve_labels i) d d'"
proof (cases "loadStoredMessage rid (ri_client_message_id i) d")
  case None
  with assms(2) have "\<exists>h. resolve_new rid a i h now d = Inr (x, d')"
    by (auto simp: resolve_body_def Let_def tx_Inr)
  with resolve_new_refines [OF assms(1)] show ?thesis by auto
next
  case (Some m)
  with assms(2) have "d' = d" "rr_duplicate x"
    by (auto simp: resolve_body_def Let_def tx_Inr loadRecoveryEvents_def)
  with refines_id [OF assms(1)] show ?thesis by simp
qed

lemma ResolveReview_implements:
  "implements rid (\<lambda>x. if rr_duplicate x then (\<lambda>ls. ls = []) else resolve_labels i) (ResolveReview rid a i)"
  unfolding ResolveReview_def
  by (intro implements_validated implements_transact) (rule resolve_body_refines)

end
