(* ===== verification/Projection.thy ===== *)
theory Projection
  imports Room_Types "HOL-Library.List_Lexorder" "HOL-Library.Char_ord"
begin

text \<open>
  The live projection (\<^verbatim>\<open>internal/room/projection.go\<close>): partial output of the running turn, kept
  within a byte budget. A Go map is an association list with distinct keys; nothing depends on
  the order of iteration, because snapshots are sorted by key. Revisions count from 0 and are
  natural numbers (a \<^verbatim>\<open>uint64\<close> that a room cannot exhaust).
\<close>

record agent_event =
  ev_kind :: string
  ev_thread_id :: thread_id
  ev_turn_id :: turn_id
  ev_item_id :: item_id
  ev_delta :: string
  ev_completed :: "completed_item option"
  ev_error :: "string option"

record live_item_snapshot =
  li_thread_id :: thread_id
  li_turn_id :: turn_id
  li_item_id :: item_id
  li_partial :: string

datatype projection_key = ProjectionKey (pk_thread: thread_id) (pk_turn: turn_id) (pk_item: item_id)

text \<open>The order in which snapshots list items.\<close>

instantiation projection_key :: linorder
begin

definition less_eq_projection_key :: "projection_key \<Rightarrow> projection_key \<Rightarrow> bool" where
  "less_eq_projection_key a b \<longleftrightarrow>
     (if pk_thread a \<noteq> pk_thread b then pk_thread a < pk_thread b
      else if pk_turn a \<noteq> pk_turn b then pk_turn a < pk_turn b
      else pk_item a \<le> pk_item b)"

definition less_projection_key :: "projection_key \<Rightarrow> projection_key \<Rightarrow> bool" where
  "less_projection_key a b \<longleftrightarrow>
     (if pk_thread a \<noteq> pk_thread b then pk_thread a < pk_thread b
      else if pk_turn a \<noteq> pk_turn b then pk_turn a < pk_turn b
      else pk_item a < pk_item b)"

instance
  by standard
     (auto simp: less_eq_projection_key_def less_projection_key_def projection_key.expand split: if_splits)

end

record projected_item =
  pi_partial :: string
  pi_completed :: "completed_item option"

record projection =
  p_revision :: nat
  p_items :: "(projection_key \<times> projected_item) list"
  p_used :: int
  p_truncated :: bool

record projection_update =
  pu_transient :: "transient_event option"
  pu_durable :: "completed_item option"

definition LiveProjectionBudget :: int where
  "LiveProjectionBudget = 1048576"

definition LiveItemCost :: "string \<Rightarrow> string \<Rightarrow> string \<Rightarrow> string \<Rightarrow> int" where
  "LiveItemCost thread turn item part =
     256 + 6 * int (length thread + length turn + length item + length part)"

definition NewProjection :: projection where
  "NewProjection = \<lparr>p_revision = 0, p_items = [], p_used = 0, p_truncated = False\<rparr>"

definition no_update :: projection_update where
  "no_update = \<lparr>pu_transient = None, pu_durable = None\<rparr>"

definition put :: "'k \<Rightarrow> 'v \<Rightarrow> ('k \<times> 'v) list \<Rightarrow> ('k \<times> 'v) list" where
  "put k v m = (k, v) # filter (\<lambda>p. fst p \<noteq> k) m"

definition transient :: "nat \<Rightarrow> string \<Rightarrow> thread_id \<Rightarrow> turn_id \<Rightarrow> item_id \<Rightarrow> string \<Rightarrow> transient_event" where
  "transient r k th tu it d =
     \<lparr>te_revision = r, te_kind = k, te_thread_id = th, te_turn_id = tu, te_item_id = it, te_delta = d\<rparr>"

definition key_cost :: "projection_key \<Rightarrow> string \<Rightarrow> int" where
  "key_cost k part = LiveItemCost (pk_thread k) (pk_turn k) (pk_item k) part"

definition apply_delta :: "agent_event \<Rightarrow> projection \<Rightarrow> projection_update \<times> projection" where
  "apply_delta ev p =
     (if p_truncated p then (no_update, p)
      else
        let key = ProjectionKey (ev_thread_id ev) (ev_turn_id ev) (ev_item_id ev);
            found = map_of (p_items p) key;
            current = (case found of Some v \<Rightarrow> v | None \<Rightarrow> \<lparr>pi_partial = [], pi_completed = None\<rparr>)
        in if pi_completed current \<noteq> None then (no_update, p)
           else
             let cost = 6 * int (length (ev_delta ev)) + (if found = None then key_cost key [] else 0);
                 rev' = p_revision p + 1
             in if LiveProjectionBudget - p_used p < cost
                then (\<lparr>pu_transient = Some (transient rev' ''projection-truncated'' (ev_thread_id ev) (ev_turn_id ev) [] []),
                       pu_durable = None\<rparr>,
                      p\<lparr>p_truncated := True, p_revision := rev'\<rparr>)
                else (\<lparr>pu_transient = Some (transient rev' (ev_kind ev) (ev_thread_id ev) (ev_turn_id ev) (ev_item_id ev) (ev_delta ev)),
                       pu_durable = None\<rparr>,
                      p\<lparr>p_used := p_used p + cost,
                        p_items := put key (current\<lparr>pi_partial := pi_partial current @ ev_delta ev\<rparr>) (p_items p),
                        p_revision := rev'\<rparr>))"

text \<open>Deleting a key gives its charge back.\<close>

definition forget :: "projection_key \<Rightarrow> projection \<Rightarrow> projection" where
  "forget key p =
     (case map_of (p_items p) key of
        Some old \<Rightarrow> p\<lparr>p_used := p_used p - key_cost key (pi_partial old),
                     p_items := filter (\<lambda>q. fst q \<noteq> key) (p_items p)\<rparr>
      | None \<Rightarrow> p)"

definition apply_completed :: "completed_item \<Rightarrow> string \<Rightarrow> projection \<Rightarrow> projection_update \<times> projection" where
  "apply_completed c kind p =
     (let key = ProjectionKey (it_thread_id c) (it_turn_id c) (it_item_id c);
          p1 = forget key p;
          cost = key_cost key [];
          wasTruncated = p_truncated p;
          p2 = (if \<not> p_truncated p1 \<and> cost \<le> LiveProjectionBudget - p_used p1
                then p1\<lparr>p_items := put key \<lparr>pi_partial = [],
                           pi_completed = Some \<lparr>it_thread_id = pk_thread key, it_turn_id = pk_turn key,
                                                it_item_id = pk_item key, it_payload = []\<rparr>\<rparr> (p_items p1),
                        p_used := p_used p1 + cost\<rparr>
                else p1\<lparr>p_truncated := True\<rparr>);
          p3 = p2\<lparr>p_revision := p_revision p2 + 1\<rparr>
      in if p_truncated p3 \<and> \<not> wasTruncated
         then (\<lparr>pu_transient = Some (transient (p_revision p3) ''projection-truncated'' (pk_thread key) (pk_turn key) [] []),
                pu_durable = Some c\<rparr>, p3)
         else (\<lparr>pu_transient = Some (transient (p_revision p3) kind (it_thread_id c) (it_turn_id c) (it_item_id c) []),
                pu_durable = Some c\<rparr>, p3))"

definition Apply :: "agent_event \<Rightarrow> projection \<Rightarrow> projection_update \<times> projection" where
  "Apply ev p =
     (if ev_kind ev = ''item-delta'' then apply_delta ev p
      else if ev_kind ev = ''item-completed'' then
        (case ev_completed ev of None \<Rightarrow> (no_update, p) | Some c \<Rightarrow> apply_completed c (ev_kind ev) p)
      else (no_update, p))"

definition live_items :: "projection \<Rightarrow> (projection_key \<times> projected_item) list" where
  "live_items p = sort_key fst (filter (\<lambda>q. pi_partial (snd q) \<noteq> []) (p_items p))"

definition Snapshot :: "projection \<Rightarrow> nat \<times> live_item_snapshot list" where
  "Snapshot p =
     (p_revision p, map (\<lambda>(k, v). \<lparr>li_thread_id = pk_thread k, li_turn_id = pk_turn k,
        li_item_id = pk_item k, li_partial = pi_partial v\<rparr>) (live_items p))"

text \<open>The loop that announces removals: one revision per item, in snapshot order.\<close>

definition removals :: "nat \<Rightarrow> live_item_snapshot list \<Rightarrow> transient_event list" where
  "removals r items =
     map2 (\<lambda>i l. transient (r + i) ''item-removed'' (li_thread_id l) (li_turn_id l) (li_item_id l) [])
       [1..<Suc (length items)] items"

definition reset :: "projection \<Rightarrow> transient_event list \<times> projection" where
  "reset p =
     (let items = snd (Snapshot p); r = p_revision p + length items; evs = removals (p_revision p) items in
      if p_truncated p
      then (evs @ [transient (r + 1) ''projection-reset'' [] [] [] []],
            \<lparr>p_revision = r + 1, p_items = [], p_used = 0, p_truncated = False\<rparr>)
      else (evs, \<lparr>p_revision = r, p_items = [], p_used = 0, p_truncated = False\<rparr>))"

definition of_turn :: "thread_id \<Rightarrow> turn_id \<Rightarrow> projection_key \<Rightarrow> bool" where
  "of_turn th tu k \<longleftrightarrow> pk_thread k = th \<and> pk_turn k = tu"

definition removeTurn :: "thread_id \<Rightarrow> turn_id \<Rightarrow> projection \<Rightarrow> transient_event list \<times> projection" where
  "removeTurn th tu p =
     (let items = filter (\<lambda>l. li_thread_id l = th \<and> li_turn_id l = tu) (snd (Snapshot p));
          r = p_revision p + length items;
          gone = filter (\<lambda>q. of_turn th tu (fst q)) (p_items p);
          p1 = p\<lparr>p_revision := r, p_items := filter (\<lambda>q. \<not> of_turn th tu (fst q)) (p_items p),
                 p_used := p_used p - sum_list (map (\<lambda>(k, v). key_cost k (pi_partial v)) gone)\<rparr>;
          evs = removals (p_revision p) items
      in if p_truncated p
         then (evs @ [transient (r + 1) ''projection-reset'' th tu [] []], p1\<lparr>p_revision := r + 1, p_truncated := False\<rparr>)
         else (evs, p1))"

subsection \<open>The budget\<close>

lemma map_of_put: "map_of (put k v m) = (map_of m)(k \<mapsto> v)"
proof -
  have "map_of (filter (\<lambda>p. fst p \<noteq> k) m) = (map_of m)(k := None)"
    by (induction m) auto
  then show ?thesis by (simp add: put_def)
qed

definition charge :: "(projection_key \<times> projected_item) list \<Rightarrow> int" where
  "charge m = sum_list (map (\<lambda>(k, v). key_cost k (pi_partial v)) m)"

definition wf_projection :: "projection \<Rightarrow> bool" where
  "wf_projection p \<longleftrightarrow>
     distinct (map fst (p_items p)) \<and> p_used p = charge (p_items p) \<and> p_used p \<le> LiveProjectionBudget
     \<and> (\<forall>(k, v) \<in> set (p_items p). pi_completed v \<noteq> None \<longrightarrow> pi_partial v = [])"

lemma key_cost_nonneg: "0 \<le> key_cost k s"
  by (simp add: key_cost_def LiveItemCost_def)

lemma key_cost_append: "key_cost k (s @ t) = key_cost k s + 6 * int (length t)"
  by (simp add: key_cost_def LiveItemCost_def)

lemma charge_nonneg: "0 \<le> charge m"
  unfolding charge_def by (rule sum_list_nonneg) (auto simp: key_cost_nonneg)

lemma charge_filter: "charge (filter P m) + charge (filter (\<lambda>q. \<not> P q) m) = charge m"
  by (induction m) (auto simp: charge_def)

lemma charge_without:
  "distinct (map fst m) \<Longrightarrow> map_of m k = Some v \<Longrightarrow>
     charge (filter (\<lambda>q. fst q \<noteq> k) m) = charge m - key_cost k (pi_partial v)"
proof (induction m)
  case (Cons q m)
  show ?case
  proof (cases "fst q = k")
    case True
    with Cons.prems(1) have "k \<notin> fst ` set m" by auto
    then have "filter (\<lambda>q. fst q \<noteq> k) m = m"
      by (intro filter_True) auto
    with True Cons.prems show ?thesis by (cases q) (simp add: charge_def)
  next
    case False
    with Cons.prems have "map_of m k = Some v" by (cases q) auto
    with Cons.IH Cons.prems(1) False show ?thesis by (cases q) (simp add: charge_def)
  qed
qed simp

lemma without_absent: "map_of m k = None \<Longrightarrow> filter (\<lambda>q. fst q \<noteq> k) m = m"
  by (intro filter_True) (auto simp: map_of_eq_None_iff)

lemma charge_put:
  assumes "distinct (map fst m)"
  shows "charge (put k v m) = charge m + key_cost k (pi_partial v)
     - (case map_of m k of Some old \<Rightarrow> key_cost k (pi_partial old) | None \<Rightarrow> 0)"
proof -
  have *: "charge (put k v m) = key_cost k (pi_partial v) + charge (filter (\<lambda>q. fst q \<noteq> k) m)"
    by (simp add: put_def charge_def)
  show ?thesis
    using charge_without [OF assms, of k] without_absent [of m k]
    by (cases "map_of m k") (simp_all add: *)
qed

lemma distinct_put: "distinct (map fst m) \<Longrightarrow> distinct (map fst (put k v m))"
  by (auto simp: put_def distinct_map_filter)

lemma apply_delta_wf: "wf_projection p \<Longrightarrow> wf_projection (snd (apply_delta ev p))"
proof -
  assume wf: "wf_projection p"
  let ?k = "ProjectionKey (ev_thread_id ev) (ev_turn_id ev) (ev_item_id ev)"
  have d: "distinct (map fst (p_items p))" "p_used p = charge (p_items p)"
    using wf by (auto simp: wf_projection_def)
  show ?thesis
  proof (cases "map_of (p_items p) ?k")
    case None
    with wf charge_put [OF d(1), of ?k] key_cost_append [of ?k "[]" "ev_delta ev"] show ?thesis
      unfolding apply_delta_def Let_def
      by (auto simp: wf_projection_def distinct_put) (auto simp: put_def)
  next
    case (Some v)
    with wf charge_put [OF d(1), of ?k] show ?thesis
      unfolding apply_delta_def Let_def
      by (auto simp: wf_projection_def distinct_put key_cost_append) (auto simp: put_def)
  qed
qed

lemma wf_projection_without:
  assumes "wf_projection p" "map_of (p_items p) k = Some v"
  shows "wf_projection (p\<lparr>p_used := p_used p - key_cost k (pi_partial v), p_items := filter (\<lambda>q. fst q \<noteq> k) (p_items p)\<rparr>)"
  using assms key_cost_nonneg [of k "pi_partial v"] charge_without [of "p_items p" k v]
  by (auto simp: wf_projection_def distinct_map_filter)

lemma map_of_filter_keys: "map_of (filter (\<lambda>q. P (fst q)) m) = (\<lambda>k. if P k then map_of m k else None)"
  by (induction m) auto

lemma forget_simps:
  "p_truncated (forget k p) = p_truncated p"
  "p_revision (forget k p) = p_revision p"
  "map_of (p_items (forget k p)) = (map_of (p_items p))(k := None)"
  using map_of_filter_keys [of "\<lambda>j. j \<noteq> k" "p_items p"]
  by (auto simp: forget_def fun_eq_iff split: option.splits)

lemma apply_completed_wf:
  assumes wf: "wf_projection p"
  shows "wf_projection (snd (apply_completed c kind p))"
proof -
  let ?k = "ProjectionKey (it_thread_id c) (it_turn_id c) (it_item_id c)"
  define p1 where "p1 = forget ?k p"
  have w1: "wf_projection p1"
    using wf by (auto simp: p1_def forget_def wf_projection_without split: option.splits)
  have "map_of (p_items p1) ?k = None"
    by (simp add: p1_def forget_simps)
  with w1 have "wf_projection (p1\<lparr>p_items := put ?k \<lparr>pi_partial = [], pi_completed = Some x\<rparr> (p_items p1),
      p_used := p_used p1 + key_cost ?k []\<rparr>)" if "key_cost ?k [] \<le> LiveProjectionBudget - p_used p1" for x
    using that charge_put [of "p_items p1" ?k] by (auto simp: wf_projection_def distinct_put) (auto simp: put_def)
  moreover have "wf_projection (p1\<lparr>p_truncated := True\<rparr>)"
    using w1 by (simp add: wf_projection_def)
  moreover have "wf_projection (q\<lparr>p_revision := r\<rparr>) = wf_projection q" for q r
    by (simp add: wf_projection_def)
  ultimately show ?thesis
    unfolding apply_completed_def Let_def p1_def [symmetric] by (simp split: if_splits)
qed

lemma Apply_wf: "wf_projection p \<Longrightarrow> wf_projection (snd (Apply ev p))"
  by (auto simp: Apply_def apply_delta_wf apply_completed_wf split: option.splits)

lemma reset_wf: "wf_projection (snd (reset p))"
  by (auto simp: reset_def Let_def wf_projection_def charge_def LiveProjectionBudget_def)

lemma removeTurn_wf:
  assumes "wf_projection p"
  shows "wf_projection (snd (removeTurn th tu p))"
proof -
  have "charge (filter (\<lambda>q. \<not> of_turn th tu (fst q)) (p_items p)) = charge (p_items p) - charge (filter (\<lambda>q. of_turn th tu (fst q)) (p_items p))"
    using charge_filter [of "\<lambda>q. of_turn th tu (fst q)" "p_items p"] by simp
  with assms charge_nonneg [of "filter (\<lambda>q. of_turn th tu (fst q)) (p_items p)"] show ?thesis
    unfolding removeTurn_def Let_def charge_def [symmetric]
    by (auto simp: wf_projection_def distinct_map_filter)
qed

subsection \<open>The stream of transient events\<close>

lemma removals_revisions: "map te_revision (removals r items) = [r + 1..<r + 1 + length items]"
  unfolding removals_def
  by (rule nth_equalityI) (auto simp: transient_def nth_append)

datatype projection_op = PApply agent_event | PReset | PRemoveTurn thread_id turn_id

fun run_op :: "projection_op \<Rightarrow> projection \<Rightarrow> transient_event list \<times> projection" where
  "run_op (PApply ev) p =
     (case pu_transient (fst (Apply ev p)) of Some t \<Rightarrow> [t] | None \<Rightarrow> [], snd (Apply ev p))"
| "run_op PReset p = reset p"
| "run_op (PRemoveTurn th tu) p = removeTurn th tu p"

fun run_ops :: "projection_op list \<Rightarrow> projection \<Rightarrow> transient_event list \<times> projection" where
  "run_ops [] p = ([], p)"
| "run_ops (x # xs) p =
     (fst (run_op x p) @ fst (run_ops xs (snd (run_op x p))), snd (run_ops xs (snd (run_op x p))))"

lemma run_op_wf: "wf_projection p \<Longrightarrow> wf_projection (snd (run_op x p))"
  by (cases x) (simp_all add: Apply_wf reset_wf removeTurn_wf)

lemma run_ops_wf: "wf_projection p \<Longrightarrow> wf_projection (snd (run_ops xs p))"
  by (induction xs arbitrary: p) (simp_all add: run_op_wf)

lemma NewProjection_wf: "wf_projection NewProjection"
  by (simp add: NewProjection_def wf_projection_def charge_def LiveProjectionBudget_def)

text \<open>The outcomes of \<open>Apply\<close>: nothing, a truncation, or an item event.\<close>

lemma apply_delta_cases:
  obtains (ignored) "apply_delta ev p = (no_update, p)"
  | (truncated) t where "pu_transient (fst (apply_delta ev p)) = Some t" "te_revision t = p_revision p + 1"
      "te_kind t = ''projection-truncated''"
      "snd (apply_delta ev p) = p\<lparr>p_truncated := True, p_revision := p_revision p + 1\<rparr>"
  | (applied) v where
      "pu_transient (fst (apply_delta ev p)) =
         Some (transient (p_revision p + 1) (ev_kind ev) (ev_thread_id ev) (ev_turn_id ev) (ev_item_id ev) (ev_delta ev))"
      "p_revision (snd (apply_delta ev p)) = p_revision p + 1"
      "\<not> p_truncated (snd (apply_delta ev p))"
      "map_of (p_items (snd (apply_delta ev p))) =
         (map_of (p_items p))(ProjectionKey (ev_thread_id ev) (ev_turn_id ev) (ev_item_id ev) \<mapsto> v)"
      "pi_partial v = (case map_of (p_items p) (ProjectionKey (ev_thread_id ev) (ev_turn_id ev) (ev_item_id ev)) of
           Some old \<Rightarrow> pi_partial old | None \<Rightarrow> []) @ ev_delta ev"
proof -
  let ?k = "ProjectionKey (ev_thread_id ev) (ev_turn_id ev) (ev_item_id ev)"
  let ?cur = "case map_of (p_items p) ?k of Some v \<Rightarrow> v | None \<Rightarrow> \<lparr>pi_partial = [], pi_completed = None\<rparr>"
  let ?cost = "6 * int (length (ev_delta ev)) + (if map_of (p_items p) ?k = None then key_cost ?k [] else 0)"
  consider "p_truncated p \<or> pi_completed ?cur \<noteq> None"
    | "\<not> p_truncated p" "pi_completed ?cur = None" "LiveProjectionBudget - p_used p < ?cost"
    | "\<not> p_truncated p" "pi_completed ?cur = None" "\<not> LiveProjectionBudget - p_used p < ?cost" by blast
  then show thesis
  proof cases
    case 1
    then show thesis by (intro ignored) (auto simp: apply_delta_def Let_def)
  next
    case 2
    then show thesis by (intro truncated) (auto simp: apply_delta_def Let_def transient_def)
  next
    case 3
    let ?v = "?cur\<lparr>pi_partial := pi_partial ?cur @ ev_delta ev\<rparr>"
    from 3 have "apply_delta ev p =
       (\<lparr>pu_transient = Some (transient (p_revision p + 1) (ev_kind ev) (ev_thread_id ev) (ev_turn_id ev) (ev_item_id ev) (ev_delta ev)),
         pu_durable = None\<rparr>,
        p\<lparr>p_used := p_used p + ?cost, p_items := put ?k ?v (p_items p), p_revision := p_revision p + 1\<rparr>)"
      by (simp add: apply_delta_def Let_def)
    then show thesis
      using 3(1) by (intro applied [of ?v]) (auto simp: map_of_put split: option.splits)
  qed
qed

lemma apply_completed_cases:
  obtains (truncated) t where "pu_transient (fst (apply_completed c kind p)) = Some t" "te_revision t = p_revision p + 1"
      "p_truncated (snd (apply_completed c kind p))" "p_revision (snd (apply_completed c kind p)) = p_revision p + 1"
  | (applied) v where
      "pu_transient (fst (apply_completed c kind p)) =
         Some (transient (p_revision p + 1) kind (it_thread_id c) (it_turn_id c) (it_item_id c) [])"
      "p_revision (snd (apply_completed c kind p)) = p_revision p + 1"
      "\<not> p_truncated (snd (apply_completed c kind p))"
      "map_of (p_items (snd (apply_completed c kind p))) =
         (map_of (p_items p))(ProjectionKey (it_thread_id c) (it_turn_id c) (it_item_id c) \<mapsto> v)"
      "pi_partial v = []" "pi_completed v \<noteq> None"
proof -
  let ?k = "ProjectionKey (it_thread_id c) (it_turn_id c) (it_item_id c)"
  let ?p1 = "forget ?k p"
  show thesis
  proof (cases "\<not> p_truncated p \<and> key_cost ?k [] \<le> LiveProjectionBudget - p_used ?p1")
    case True
    then show thesis
      by (intro applied [of "\<lparr>pi_partial = [], pi_completed = Some \<lparr>it_thread_id = pk_thread ?k,
             it_turn_id = pk_turn ?k, it_item_id = pk_item ?k, it_payload = []\<rparr>\<rparr>"])
         (simp_all add: apply_completed_def Let_def map_of_put forget_simps)
  next
    case False
    then have "\<exists>t. pu_transient (fst (apply_completed c kind p)) = Some t \<and> te_revision t = p_revision p + 1"
      by (auto simp: apply_completed_def Let_def forget_simps transient_def)
    with False show thesis
      using truncated by (auto simp: apply_completed_def Let_def forget_simps)
  qed
qed

lemma run_op_revisions:
  "p_revision p \<le> p_revision (snd (run_op x p)) \<and>
   map te_revision (fst (run_op x p)) = [p_revision p + 1..<p_revision (snd (run_op x p)) + 1]"
proof (cases x)
  case (PApply ev)
  have "p_revision p \<le> p_revision (snd (apply_delta ev p)) \<and>
     map te_revision (case pu_transient (fst (apply_delta ev p)) of Some t \<Rightarrow> [t] | None \<Rightarrow> []) =
       [p_revision p + 1..<p_revision (snd (apply_delta ev p)) + 1]"
    by (cases rule: apply_delta_cases [of ev p]) (simp_all add: no_update_def transient_def)
  moreover have "p_revision p \<le> p_revision (snd (apply_completed c k p)) \<and>
     map te_revision (case pu_transient (fst (apply_completed c k p)) of Some t \<Rightarrow> [t] | None \<Rightarrow> []) =
       [p_revision p + 1..<p_revision (snd (apply_completed c k p)) + 1]" for c k
    by (cases rule: apply_completed_cases [of c k p]) (simp_all add: transient_def)
  ultimately show ?thesis
    using PApply
    by (cases "ev_completed ev") (auto simp: Apply_def no_update_def simp del: upt_Suc)
qed (auto simp: reset_def removeTurn_def Let_def removals_revisions transient_def simp del: upt_Suc,
     auto)

lemma upt_join: "a \<le> b \<Longrightarrow> b \<le> c \<Longrightarrow> [a..<b] @ [b..<c] = [a..<c]"
  by (metis upt_add_eq_append le_add_diff_inverse)

lemma run_ops_revisions:
  "p_revision p \<le> p_revision (snd (run_ops xs p)) \<and>
   map te_revision (fst (run_ops xs p)) = [p_revision p + 1..<p_revision (snd (run_ops xs p)) + 1]"
proof (induction xs arbitrary: p)
  case (Cons x xs)
  from Cons.IH [of "snd (run_op x p)"] run_op_revisions [of p x] show ?case
    by (auto simp: upt_join simp del: upt_Suc)
qed simp

subsection \<open>What a subscriber can rebuild\<close>

text \<open>
  A subscriber that appends deltas and drops completed and removed items. Its view is a map
  from items to their non-empty partial text.
\<close>

type_synonym live_view = "projection_key \<Rightarrow> string option"

definition subscriber :: "live_view \<Rightarrow> transient_event \<Rightarrow> live_view" where
  "subscriber v e =
     (let k = ProjectionKey (te_thread_id e) (te_turn_id e) (te_item_id e) in
      if te_kind e = ''item-delta''
      then v(k := (let s = (case v k of Some t \<Rightarrow> t | None \<Rightarrow> []) @ te_delta e in if s = [] then None else Some s))
      else if te_kind e = ''item-completed'' \<or> te_kind e = ''item-removed'' then v(k := None)
      else v)"

definition live_view :: "projection \<Rightarrow> live_view" where
  "live_view p k =
     (case map_of (p_items p) k of
        Some v \<Rightarrow> if pi_partial v = [] then None else Some (pi_partial v)
      | None \<Rightarrow> None)"

lemma apply_delta_view:
  assumes "ev_kind ev = ''item-delta''" "\<not> p_truncated (snd (apply_delta ev p))"
  shows "foldl subscriber (live_view p) (case pu_transient (fst (apply_delta ev p)) of Some t \<Rightarrow> [t] | None \<Rightarrow> [])
    = live_view (snd (apply_delta ev p))"
proof (cases rule: apply_delta_cases [of ev p])
  case ignored
  then show ?thesis by (simp add: no_update_def)
next
  case (truncated t)
  with assms(2) show ?thesis by simp
next
  case (applied v)
  with assms(1) show ?thesis
    by (auto simp: subscriber_def transient_def live_view_def fun_eq_iff split: option.splits)
qed

lemma apply_completed_view:
  assumes "\<not> p_truncated (snd (apply_completed c ''item-completed'' p))"
  shows "foldl subscriber (live_view p)
      (case pu_transient (fst (apply_completed c ''item-completed'' p)) of Some t \<Rightarrow> [t] | None \<Rightarrow> [])
    = live_view (snd (apply_completed c ''item-completed'' p))"
proof (cases rule: apply_completed_cases [of c "''item-completed''" p])
  case (truncated t)
  with assms show ?thesis by simp
next
  case (applied v)
  then show ?thesis
    by (auto simp: subscriber_def transient_def live_view_def fun_eq_iff split: option.splits)
qed

lemma removals_view:
  "foldl subscriber v (removals r items) =
     (\<lambda>k. if \<exists>l \<in> set items. k = ProjectionKey (li_thread_id l) (li_turn_id l) (li_item_id l) then None else v k)"
proof -
  have "length is = length items \<Longrightarrow>
     foldl subscriber v (map2 (\<lambda>i l. transient (r + i) ''item-removed'' (li_thread_id l) (li_turn_id l) (li_item_id l) []) is items) =
     (\<lambda>k. if \<exists>l \<in> set items. k = ProjectionKey (li_thread_id l) (li_turn_id l) (li_item_id l) then None else v k)" for "is"
    by (induction "is" items arbitrary: v rule: list_induct2) (auto simp: subscriber_def transient_def fun_eq_iff)
  then show ?thesis by (simp add: removals_def del: upt_Suc)
qed

lemma in_snapshot:
  assumes "wf_projection p"
  shows "(\<exists>l \<in> set (snd (Snapshot p)). P l \<and> k = ProjectionKey (li_thread_id l) (li_turn_id l) (li_item_id l)) \<longleftrightarrow>
     (\<exists>v. map_of (p_items p) k = Some v \<and> pi_partial v \<noteq> [] \<and>
        P \<lparr>li_thread_id = pk_thread k, li_turn_id = pk_turn k, li_item_id = pk_item k, li_partial = pi_partial v\<rparr>)"
  using assms
  by (auto simp: Snapshot_def live_items_def wf_projection_def map_of_eq_Some_iff)

lemma reset_view:
  assumes "wf_projection p" "\<not> p_truncated p"
  shows "foldl subscriber (live_view p) (fst (reset p)) = live_view (snd (reset p))"
  using assms(2) in_snapshot [OF assms(1), of "\<lambda>_. True"]
  by (auto simp: reset_def Let_def removals_view live_view_def fun_eq_iff split: option.splits)

lemma removeTurn_view:
  assumes "wf_projection p" "\<not> p_truncated p"
  shows "foldl subscriber (live_view p) (fst (removeTurn th tu p)) = live_view (snd (removeTurn th tu p))"
proof -
  have "(\<exists>l \<in> set (filter (\<lambda>l. li_thread_id l = th \<and> li_turn_id l = tu) (snd (Snapshot p))).
       k = ProjectionKey (li_thread_id l) (li_turn_id l) (li_item_id l)) \<longleftrightarrow>
     (\<exists>v. map_of (p_items p) k = Some v \<and> pi_partial v \<noteq> [] \<and> of_turn th tu k)" for k
    using in_snapshot [OF assms(1), of "\<lambda>l. li_thread_id l = th \<and> li_turn_id l = tu" k]
    by (auto simp: of_turn_def)
  then show ?thesis
    using assms(2) map_of_filter_keys [of "\<lambda>k. \<not> of_turn th tu k" "p_items p"]
    by (auto simp: removeTurn_def Let_def removals_view live_view_def fun_eq_iff split: option.splits)
qed

lemma run_op_view:
  assumes "wf_projection p" "\<not> p_truncated p" "\<not> p_truncated (snd (run_op x p))"
  shows "foldl subscriber (live_view p) (fst (run_op x p)) = live_view (snd (run_op x p))"
proof (cases x)
  case (PApply ev)
  with assms(3) show ?thesis
    using apply_delta_view [of ev p] apply_completed_view [of "the (ev_completed ev)" p]
    by (cases "ev_completed ev") (auto simp: Apply_def no_update_def split: if_splits)
next
  case PReset
  with reset_view [OF assms(1,2)] show ?thesis by simp
next
  case (PRemoveTurn th tu)
  with removeTurn_view [OF assms(1,2)] show ?thesis by simp
qed

fun never_truncated :: "projection_op list \<Rightarrow> projection \<Rightarrow> bool" where
  "never_truncated [] p = (\<not> p_truncated p)"
| "never_truncated (x # xs) p = (\<not> p_truncated p \<and> never_truncated xs (snd (run_op x p)))"

lemma never_truncated_start: "never_truncated xs p \<Longrightarrow> \<not> p_truncated p"
  by (cases xs) auto

lemma run_ops_view:
  "wf_projection p \<Longrightarrow> never_truncated xs p \<Longrightarrow>
     foldl subscriber (live_view p) (fst (run_ops xs p)) = live_view (snd (run_ops xs p))"
proof (induction xs arbitrary: p)
  case (Cons x xs)
  then have "never_truncated xs (snd (run_op x p))" "\<not> p_truncated p" by auto
  with Cons.IH [OF run_op_wf [OF Cons.prems(1)], of x] run_op_view [OF Cons.prems(1), of x]
    never_truncated_start [of xs "snd (run_op x p)"] show ?case by simp
qed simp

subsection \<open>Properties\<close>

text \<open>
  Whatever sequence of agent output, turn removals and resets reaches a new projection, the
  bytes it is charged are the sum of the costs of the items it holds, each item is held once,
  and the charge never exceeds the live projection budget.
\<close>

theorem projection_within_budget:
  "let p = snd (run_ops xs NewProjection) in
     p_used p = charge (p_items p) \<and> charge (p_items p) \<le> LiveProjectionBudget \<and> distinct (map fst (p_items p))"
  using run_ops_wf [OF NewProjection_wf, of xs] by (simp add: Let_def wf_projection_def)

text \<open>
  The transient events a projection emits carry consecutive revisions: no revision is
  skipped or used twice, and the last one is the revision a snapshot reports.
\<close>

theorem projection_revisions_gap_free:
  "map te_revision (fst (run_ops xs p)) = [p_revision p + 1..<fst (Snapshot (snd (run_ops xs p))) + 1]"
  using run_ops_revisions [of p xs] by (simp add: Snapshot_def del: upt_Suc)

definition example_delta :: agent_event where
  "example_delta = \<lparr>ev_kind = ''item-delta'', ev_thread_id = ''th'', ev_turn_id = ''tu'', ev_item_id = ''it'',
     ev_delta = ''abc'', ev_completed = None, ev_error = None\<rparr>"

text \<open>
  Once an item is completed within the budget, a delayed delta for it changes nothing and
  emits nothing: completed output is never shown as live again.
\<close>

theorem completed_item_not_resurrected:
  assumes "ev_kind ev = ''item-delta''" "ev_thread_id ev = it_thread_id c" "ev_turn_id ev = it_turn_id c"
    "ev_item_id ev = it_item_id c" "p' = snd (apply_completed c ''item-completed'' p)"
  shows "Apply ev p' = (no_update, p')"
proof (cases rule: apply_completed_cases [of c "''item-completed''" p])
  case (truncated t)
  with assms show ?thesis by (simp add: Apply_def apply_delta_def)
next
  case (applied v)
  with assms show ?thesis by (simp add: Apply_def apply_delta_def Let_def)
qed

theorem completed_item_not_resurrected_witness:
  "let c = \<lparr>it_thread_id = ''th'', it_turn_id = ''tu'', it_item_id = ''it'', it_payload = ''{}''\<rparr>;
       p' = snd (apply_completed c ''item-completed'' (snd (Apply example_delta NewProjection)))
   in Apply example_delta p' = (no_update, p')"
  using completed_item_not_resurrected [of example_delta
      "\<lparr>it_thread_id = ''th'', it_turn_id = ''tu'', it_item_id = ''it'', it_payload = ''{}''\<rparr>" _ "snd (Apply example_delta NewProjection)"]
  by (simp add: example_delta_def)

end
