(* ===== verification/Coordinator.thy ===== *)
theory Coordinator
  imports Projection Store_Recovery
begin

text \<open>
  The room coordinator (\<^verbatim>\<open>internal/room/coordinator.go\<close>, \<^verbatim>\<open>recovery.go\<close>, \<^verbatim>\<open>questions.go\<close>): one
  command loop that accepts commands, dispatches one prompt at a time to the agent, follows the
  agent's events, and rebuilds its state from the repository and the agent's history.

  The interfaces of \<^verbatim>\<open>ports.go\<close> are records of functions. The repository is a state transformer
  per method over an arbitrary store type. The agent is code outside the repository: each
  method answers with a function of the calls made so far, so its answers are arbitrary, and
  methods Go finds by a type assertion are optional. The world keeps the coordinator, the
  store, the calls made to the agent, what was published to the sink, and the answers given to
  private questions. A canceled context shows as an error of the repository or agent call that
  receives it.
\<close>

subsection \<open>Ports\<close>

record 's private_turn_journal =
  jn_BeginPrivateTurn :: "room_id \<Rightarrow> thread_id \<Rightarrow> turn_id list \<Rightarrow> 's \<Rightarrow> (err + unit) \<times> 's"
  jn_EndPrivateTurn :: "room_id \<Rightarrow> thread_id \<Rightarrow> turn_id list \<Rightarrow> 's \<Rightarrow> (err + unit) \<times> 's"
  jn_PrivateTurns :: "room_id \<Rightarrow> thread_id \<Rightarrow> turn_snapshot list \<Rightarrow> 's \<Rightarrow> (err + turn_id list) \<times> 's"

record 's repository =
  rp_LoadRecoveryImage :: "room_id \<Rightarrow> 's \<Rightarrow> (err + recovery_image) \<times> 's"
  rp_AcceptMessage :: "room_id \<Rightarrow> actor \<Rightarrow> submit_input \<Rightarrow> 's \<Rightarrow> (err + acceptance) \<times> 's"
  rp_AppendNote :: "room_id \<Rightarrow> actor \<Rightarrow> submit_input \<Rightarrow> 's \<Rightarrow> (err + acceptance) \<times> 's"
  rp_AcceptControl :: "room_id \<Rightarrow> actor \<Rightarrow> control_input \<Rightarrow> 's \<Rightarrow> (err + acceptance) \<times> 's"
  rp_FinishControl :: "room_id \<Rightarrow> client_message_id \<Rightarrow> outcome \<Rightarrow> 's \<Rightarrow> (err + durable_event) \<times> 's"
  rp_BeginDispatch :: "room_id \<Rightarrow> client_message_id \<Rightarrow> 's \<Rightarrow> (err + unit) \<times> 's"
  rp_FailDispatch :: "room_id \<Rightarrow> client_message_id \<Rightarrow> outcome \<Rightarrow> 's \<Rightarrow> (err + durable_event) \<times> 's"
  rp_BindRunningTurn :: "room_id \<Rightarrow> client_message_id \<Rightarrow> turn_id \<Rightarrow> 's \<Rightarrow> (err + durable_event) \<times> 's"
  rp_RecordCompletedItem :: "room_id \<Rightarrow> completed_item \<Rightarrow> 's \<Rightarrow> (err + durable_event) \<times> 's"
  rp_FinishTurn :: "room_id \<Rightarrow> finish_turn_input \<Rightarrow> 's \<Rightarrow> (err + durable_event list) \<times> 's"
  rp_MarkNeedsReview :: "room_id \<Rightarrow> client_message_id \<Rightarrow> reason \<Rightarrow> 's \<Rightarrow> (err + durable_event) \<times> 's"
  rp_ResolveReview :: "room_id \<Rightarrow> actor \<Rightarrow> recover_input \<Rightarrow> 's \<Rightarrow> (err + recovery_result) \<times> 's"
  rp_BindThread :: "room_id \<Rightarrow> thread_snapshot \<Rightarrow> 's \<Rightarrow> (err + durable_event) \<times> 's"
  rp_MarkThreadNeedsRepair :: "room_id \<Rightarrow> reason \<Rightarrow> 's \<Rightarrow> (err + durable_event) \<times> 's"
  rp_SetRoomStatus :: "room_id \<Rightarrow> room_status \<Rightarrow> 's \<Rightarrow> (err + durable_event option) \<times> 's"
  rp_LatestSeq :: "room_id \<Rightarrow> 's \<Rightarrow> (err + seqno) \<times> 's"
  rp_journal :: "'s private_turn_journal option"
  rp_error_text :: "err \<Rightarrow> string"

datatype agent_call =
    CallStartThread
  | CallReadThread thread_id
  | CallResumeThread thread_id
  | CallStartTurn thread_id client_message_id string
  | CallReadOnlyTurn thread_id client_message_id string
  | CallSteerTurn thread_id turn_id string
  | CallInterruptTurn thread_id turn_id

record agent_member =
  am_id :: string
  am_name :: string
  am_provider :: string
  am_description :: string
  am_status :: string

record agent =
  ag_StartThread :: "agent_call list \<Rightarrow> agent_error + thread_snapshot"
  ag_ReadThread :: "agent_call list \<Rightarrow> thread_id \<Rightarrow> agent_error + thread_snapshot"
  ag_ResumeThread :: "agent_call list \<Rightarrow> thread_id \<Rightarrow> agent_error + thread_snapshot"
  ag_StartTurn :: "agent_call list \<Rightarrow> submit_input \<Rightarrow> thread_id \<Rightarrow> client_message_id \<Rightarrow> string \<Rightarrow> agent_error + turn_id"
  ag_StartTurnFor :: "(agent_call list \<Rightarrow> submit_input \<Rightarrow> thread_id \<Rightarrow> client_message_id \<Rightarrow> actor \<Rightarrow> string \<Rightarrow> agent_error + turn_id) option"
  ag_SteerTurn :: "agent_call list \<Rightarrow> thread_id \<Rightarrow> turn_id \<Rightarrow> string \<Rightarrow> agent_error option"
  ag_InterruptTurn :: "agent_call list \<Rightarrow> thread_id \<Rightarrow> turn_id \<Rightarrow> agent_error option"
  ag_StartReadOnlyTurn :: "(agent_call list \<Rightarrow> thread_id \<Rightarrow> client_message_id \<Rightarrow> string \<Rightarrow> agent_error + turn_id) option"
  ag_ValidateSubmission :: "(submit_input \<Rightarrow> err option) option"
  ag_AgentMembers :: "(agent_call list \<Rightarrow> agent_member list) option"

subsection \<open>State\<close>

record question_command =
  qc_canceled :: bool
  qc_id :: client_message_id
  qc_actor :: actor
  qc_text :: string

record private_question =
  pq_command :: question_command
  pq_turn :: turn_id
  pq_items :: "(item_id \<times> string) list"
  pq_order :: "item_id list"
  pq_fault :: "err option"

record question_result =
  qr_session :: string
  qr_text :: string
  qr_error :: "err option"

text \<open>The fields of \<^verbatim>\<open>coordinatorState\<close> and of \<^verbatim>\<open>Coordinator\<close>, less the channels and ports.\<close>

record coordinator =
  co_room :: room_id
  co_root :: string
  co_question :: "private_question option"
  co_status :: room_status
  co_thread :: thread_id
  co_active :: "turn_binding option"
  co_controls :: "turn_binding list"
  co_queue :: "queued_message list"
  co_latest :: seqno
  co_creation_uncertain :: bool
  co_ready_seen :: bool
  co_thread_ready :: bool
  co_projection :: projection
  co_fatal :: "err option"
  co_fault :: string

datatype published = PubDurable durable_event | PubTransient transient_event

record 's world =
  w_co :: coordinator
  w_store :: 's
  w_calls :: "agent_call list"
  w_published :: "published list"
  w_answers :: "(client_message_id \<times> question_result) list"

definition NewCoordinator :: "room_id \<Rightarrow> string \<Rightarrow> coordinator option" where
  "NewCoordinator rid root =
     (if blank rid \<or> blank root then None
      else Some \<lparr>co_room = rid, co_root = root, co_question = None, co_status = RoomOther [], co_thread = [],
             co_active = None, co_controls = [], co_queue = [], co_latest = 0,
             co_creation_uncertain = False, co_ready_seen = False, co_thread_ready = False,
             co_projection = NewProjection, co_fatal = None, co_fault = []\<rparr>)"

subsection \<open>Primitive effects\<close>

definition on_co :: "(coordinator \<Rightarrow> coordinator) \<Rightarrow> 's world \<Rightarrow> 's world" where
  "on_co f w = w\<lparr>w_co := f (w_co w)\<rparr>"

definition repo :: "('s \<Rightarrow> 'r \<times> 's) \<Rightarrow> 's world \<Rightarrow> 'r \<times> 's world" where
  "repo f w = (case f (w_store w) of (r, s) \<Rightarrow> (r, w\<lparr>w_store := s\<rparr>))"

definition call_agent :: "agent_call \<Rightarrow> (agent_call list \<Rightarrow> 'r) \<Rightarrow> 's world \<Rightarrow> 'r \<times> 's world" where
  "call_agent c f w = (f (w_calls w), w\<lparr>w_calls := w_calls w @ [c]\<rparr>)"

definition freeze :: "room_status \<Rightarrow> 's world \<Rightarrow> 's world" where
  "freeze st = on_co (\<lambda>c. c\<lparr>co_status := st\<rparr>)"

definition set_active :: "turn_binding option \<Rightarrow> 's world \<Rightarrow> 's world" where
  "set_active b = on_co (\<lambda>c. c\<lparr>co_active := b\<rparr>)"

definition review_active :: "'s world \<Rightarrow> 's world" where
  "review_active = on_co (\<lambda>c. c\<lparr>co_active := map_option (\<lambda>b. b\<lparr>tb_state := RequestNeedsReview\<rparr>) (co_active c)\<rparr>)"

definition set_queue :: "queued_message list \<Rightarrow> 's world \<Rightarrow> 's world" where
  "set_queue q = on_co (\<lambda>c. c\<lparr>co_queue := q\<rparr>)"

definition publish :: "durable_event \<Rightarrow> 's world \<Rightarrow> 's world" where
  "publish e w =
     (let c = w_co w in
      w\<lparr>w_co := (if co_latest c < de_seq e then c\<lparr>co_latest := de_seq e\<rparr> else c),
        w_published := w_published w @ [PubDurable e]\<rparr>)"

definition publish_all :: "durable_event list \<Rightarrow> 's world \<Rightarrow> 's world" where
  "publish_all es w = fold publish es w"

definition publish_status :: "durable_event option \<Rightarrow> 's world \<Rightarrow> 's world" where
  "publish_status e w = (case e of None \<Rightarrow> w | Some x \<Rightarrow> publish x w)"

definition publish_transients :: "transient_event list \<Rightarrow> 's world \<Rightarrow> 's world" where
  "publish_transients ts w = w\<lparr>w_published := w_published w @ map PubTransient ts\<rparr>"

text \<open>A change of the projection, with the transient events it emits.\<close>

definition with_projection :: "(projection \<Rightarrow> transient_event list \<times> projection) \<Rightarrow> 's world \<Rightarrow> 's world" where
  "with_projection f w =
     (case f (co_projection (w_co w)) of (ts, p) \<Rightarrow>
        publish_transients ts (on_co (\<lambda>c. c\<lparr>co_projection := p\<rparr>) w))"

definition resetProjection :: "'s world \<Rightarrow> 's world" where
  "resetProjection = with_projection reset"

definition failPersistence :: "err \<Rightarrow> 's world \<Rightarrow> 's world" where
  "failPersistence e = on_co (\<lambda>c. c\<lparr>co_status := RoomRecovering, co_fatal := Some e\<rparr>)"

definition unknown_text :: string where
  "unknown_text = ''agent mutation delivery is uncertain''"

definition closed_text :: string where
  "closed_text = ''agent runtime event stream closed''"

subsection \<open>Dispatch\<close>

definition newline :: string where
  "newline = [CHR 0x0A]"

definition turn_text :: "queued_message \<Rightarrow> string" where
  "turn_text m =
     (let text = ''[participant: '' @ actor_name (qm_actor m) @ '']'' @ newline @ si_text (qm_input m) in
      if 0 < si_task_id (qm_input m)
      then ''[project task id: '' @ show_nat (nat (si_task_id (qm_input m))) @ '']'' @ newline @ text
      else text)"

definition start_turn :: "agent \<Rightarrow> thread_id \<Rightarrow> queued_message \<Rightarrow> 's world \<Rightarrow> (agent_error + turn_id) \<times> 's world" where
  "start_turn A th m =
     (let cid = si_client_message_id (qm_input m) in
      call_agent (CallStartTurn th cid (turn_text m)) (\<lambda>cs.
        case ag_StartTurnFor A of
          Some f \<Rightarrow> f cs (qm_input m) th cid (qm_actor m) (turn_text m)
        | None \<Rightarrow> ag_StartTurn A cs (qm_input m) th cid (turn_text m)))"

definition may_dispatch :: "coordinator \<Rightarrow> bool" where
  "may_dispatch c \<longleftrightarrow>
     co_question c = None \<and> co_status c = RoomReady \<and> co_active c = None \<and> co_controls c = [] \<and> co_queue c \<noteq> []"

text \<open>The tail of a dispatch whose delivery is unknown: freeze, record the review, record the status.\<close>

definition dispatch_unknown ::
  "'s repository \<Rightarrow> client_message_id \<Rightarrow> queued_message list \<Rightarrow> string \<Rightarrow> string \<Rightarrow> 's world \<Rightarrow> err option \<times> 's world" where
  "dispatch_unknown R cid rest code digest w =
     (let rid = co_room (w_co w); w0 = freeze RoomRecovering w in
      case repo (rp_MarkNeedsReview R rid cid \<lparr>re_code = code, re_detail_digest = digest\<rparr>) w0 of
        (Inl e, w1) \<Rightarrow> (Some e, w1)
      | (Inr ev, w1) \<Rightarrow>
          (case repo (rp_SetRoomStatus R rid RoomRecovering)
                  (set_queue rest (review_active (publish ev w1))) of
             (Inl e, w2) \<Rightarrow> (Some e, w2)
           | (Inr se, w2) \<Rightarrow> (Some ErrDeliveryUnknown, publish_status se w2)))"

definition dispatch_bind ::
  "'s repository \<Rightarrow> client_message_id \<Rightarrow> queued_message list \<Rightarrow> turn_id \<Rightarrow> 's world \<Rightarrow> err option \<times> 's world" where
  "dispatch_bind R cid rest turn w =
     (case repo (rp_BindRunningTurn R (co_room (w_co w)) cid turn) w of
        (Inl e, w1) \<Rightarrow> (Some e, freeze RoomRecovering w1)
      | (Inr ev, w1) \<Rightarrow>
          (None, set_active (Some \<lparr>tb_message_id = cid, tb_turn_id = turn, tb_state = RequestRunning\<rparr>)
                   (set_queue rest (publish ev w1))))"

function dispatchNext :: "'s repository \<Rightarrow> agent \<Rightarrow> 's world \<Rightarrow> err option \<times> 's world" where
  "dispatchNext R A w =
     (if \<not> may_dispatch (w_co w) then (None, w)
      else
        let rid = co_room (w_co w); m = hd (co_queue (w_co w)); rest = tl (co_queue (w_co w));
            cid = si_client_message_id (qm_input m)
        in case repo (rp_BeginDispatch R rid cid) w of
             (Inl e, w1) \<Rightarrow> (Some e, w1)
           | (Inr _, w1) \<Rightarrow>
               (case start_turn A (co_thread (w_co w)) m
                       (set_active (Some \<lparr>tb_message_id = cid, tb_turn_id = [], tb_state = RequestDispatching\<rparr>) w1) of
                  (Inr turn, w2) \<Rightarrow> dispatch_bind R cid rest turn w2
                | (Inl ae, w2) \<Rightarrow>
                    (case mutationFailure ae of (code, digest, certainty) \<Rightarrow>
                       if certainty = DeliveryNotSent then
                         (case repo (rp_FailDispatch R rid cid
                                   \<lparr>oc_state = RequestFailed, oc_error_code = code, oc_error_digest = digest\<rparr>) w2 of
                            (Inl e, w3) \<Rightarrow> (Some e, w3)
                          | (Inr ev, w3) \<Rightarrow>
                              (Some ErrDeliveryNotSent,
                               snd (dispatchNext R A (set_active None (set_queue rest (publish ev w3))))))
                       else dispatch_unknown R cid rest code digest w2)))"
  by pat_completeness auto
termination
  by (relation "measure (\<lambda>(R, A, w). length (co_queue (w_co w)))")
     (auto simp: set_active_def set_queue_def on_co_def may_dispatch_def)

declare dispatchNext.simps [simp del]

definition handleSubmit ::
  "'s repository \<Rightarrow> agent \<Rightarrow> actor \<Rightarrow> submit_input \<Rightarrow> bool \<Rightarrow> 's world \<Rightarrow> (acceptance option \<times> err option) \<times> 's world" where
  "handleSubmit R A a i note w =
     (let rid = co_room (w_co w) in
      case (if note then None else case ag_ValidateSubmission A of Some v \<Rightarrow> v i | None \<Rightarrow> None) of
        Some e \<Rightarrow> ((None, Some e), w)
      | None \<Rightarrow>
          (case repo (if note then rp_AppendNote R rid a i else rp_AcceptMessage R rid a i) w of
             (Inl e, w1) \<Rightarrow> ((None, Some e), w1)
           | (Inr got, w1) \<Rightarrow>
               let w2 = publish (ac_event got) w1 in
               if ac_duplicate got \<or> note then ((Some got, None), w2)
               else
                 let m = \<lparr>qm_input = i, qm_actor = a, qm_accepted_seq = ac_seq got\<rparr>;
                     (e, w3) = dispatchNext R A (set_queue (co_queue (w_co w2) @ [m]) w2)
                 in ((Some got, e), w3)))"

subsection \<open>Controls\<close>

text \<open>The first pending control with the given message: marked for review, or removed.\<close>

fun settle_control :: "client_message_id \<Rightarrow> request_state \<Rightarrow> turn_binding list \<Rightarrow> turn_binding list" where
  "settle_control cid s [] = []"
| "settle_control cid s (b # bs) =
     (if tb_message_id b \<noteq> cid then b # settle_control cid s bs
      else if s = RequestNeedsReview then b\<lparr>tb_state := RequestNeedsReview\<rparr> # bs
      else bs)"

definition finishControl ::
  "'s repository \<Rightarrow> acceptance \<Rightarrow> outcome \<Rightarrow> err option \<Rightarrow> 's world \<Rightarrow> (acceptance option \<times> err option) \<times> 's world" where
  "finishControl R got oc resultErr w =
     (case repo (rp_FinishControl R (co_room (w_co w)) (ac_client_message_id got) oc) w of
        (Inl e, w1) \<Rightarrow> ((Some got, Some e), freeze RoomRecovering w1)
      | (Inr ev, w1) \<Rightarrow>
          ((Some (got\<lparr>ac_state := oc_state oc, ac_error_code := oc_error_code oc\<rparr>), resultErr),
           publish ev (on_co (\<lambda>c. c\<lparr>co_controls := settle_control (ac_client_message_id got) (oc_state oc) (co_controls c)\<rparr>) w1)))"

definition duplicate_control :: "acceptance \<Rightarrow> err option" where
  "duplicate_control got =
     (if ac_error_code got = ''stale-turn'' then Some ErrStaleTurn
      else if ac_state got = RequestNeedsReview then Some ErrDeliveryUnknown
      else if ac_state got = RequestFailed then Some ErrDeliveryNotSent
      else None)"

definition controls_turn :: "coordinator \<Rightarrow> turn_id \<Rightarrow> bool" where
  "controls_turn c turn \<longleftrightarrow>
     co_status c = RoomReady \<and>
     (case co_active c of None \<Rightarrow> False | Some b \<Rightarrow> tb_state b = RequestRunning \<and> tb_turn_id b = turn)"

definition send_control :: "agent \<Rightarrow> control_input \<Rightarrow> 's world \<Rightarrow> agent_error option \<times> 's world" where
  "send_control A i w =
     (let th = co_thread (w_co w); turn = ci_expected_turn_id i in
      if ci_kind i = ControlSteer
      then call_agent (CallSteerTurn th turn (ci_text i)) (\<lambda>cs. ag_SteerTurn A cs th turn (ci_text i)) w
      else call_agent (CallInterruptTurn th turn) (\<lambda>cs. ag_InterruptTurn A cs th turn) w)"

definition handleControl ::
  "'s repository \<Rightarrow> agent \<Rightarrow> actor \<Rightarrow> control_input \<Rightarrow> 's world \<Rightarrow> (acceptance option \<times> err option) \<times> 's world" where
  "handleControl R A a i w =
     (let rid = co_room (w_co w) in
      case repo (rp_AcceptControl R rid a i) w of
        (Inl e, w1) \<Rightarrow> ((None, Some e), w1)
      | (Inr got, w1) \<Rightarrow>
          let w2 = publish (ac_event got) w1 in
          if ac_duplicate got then ((Some got, duplicate_control got), w2)
          else
            let w3 = on_co (\<lambda>c. c\<lparr>co_controls := co_controls c @
                   [\<lparr>tb_message_id = ac_client_message_id got, tb_turn_id = ci_expected_turn_id i, tb_state = RequestDispatching\<rparr>]\<rparr>) w2
            in if \<not> controls_turn (w_co w3) (ci_expected_turn_id i)
               then finishControl R got \<lparr>oc_state = RequestFailed, oc_error_code = ''stale-turn'', oc_error_digest = []\<rparr> (Some ErrStaleTurn) w3
               else case send_control A i w3 of
                 (None, w4) \<Rightarrow>
                   finishControl R got \<lparr>oc_state = RequestCompleted, oc_error_code = [], oc_error_digest = []\<rparr> None w4
               | (Some ae, w4) \<Rightarrow>
                   (case mutationFailure ae of (code, digest, certainty) \<Rightarrow>
                      if certainty = DeliveryNotSent
                      then finishControl R got \<lparr>oc_state = RequestFailed, oc_error_code = code, oc_error_digest = digest\<rparr> (Some ErrDeliveryNotSent) w4
                      else
                        (case finishControl R got \<lparr>oc_state = RequestNeedsReview, oc_error_code = code, oc_error_digest = digest\<rparr>
                                (Some ErrDeliveryUnknown) (freeze RoomRecovering w4) of
                           ((finished, finishErr), w5) \<Rightarrow>
                             if finishErr \<noteq> None \<and> finishErr \<noteq> Some ErrDeliveryUnknown then ((finished, finishErr), w5)
                             else (case repo (rp_SetRoomStatus R rid RoomRecovering) w5 of
                                     (Inl e, w6) \<Rightarrow> ((finished, Some e), w6)
                                   | (Inr se, w6) \<Rightarrow> ((finished, Some ErrDeliveryUnknown), publish_status se w6)))))"

subsection \<open>Recovery\<close>

definition loadRecovery :: "'s repository \<Rightarrow> 's world \<Rightarrow> (err + recovery_image) \<times> 's world" where
  "loadRecovery R w =
     (let rid = co_room (w_co w) in
      case repo (rp_LoadRecoveryImage R rid) w of
        (Inl e, w1) \<Rightarrow> (Inl e, w1)
      | (Inr img, w1) \<Rightarrow>
          (case repo (rp_LatestSeq R rid) w1 of
             (Inl e, w2) \<Rightarrow> (Inl e, w2)
           | (Inr latest, w2) \<Rightarrow>
               (Inr img, on_co (\<lambda>c. c\<lparr>co_status := RoomRecovering, co_thread := im_thread_id img,
                  co_active := im_active img, co_controls := im_pending_controls img,
                  co_queue := im_queue img, co_latest := max latest (co_latest c)\<rparr>) w2)))"

definition setStatus :: "'s repository \<Rightarrow> room_status \<Rightarrow> 's world \<Rightarrow> err option \<times> 's world" where
  "setStatus R st w =
     (case repo (rp_SetRoomStatus R (co_room (w_co w)) st) w of
        (Inl e, w1) \<Rightarrow> (Some e, w1)
      | (Inr ev, w1) \<Rightarrow> (None, freeze st (publish_status ev w1)))"

definition markThreadRepair :: "'s repository \<Rightarrow> string \<Rightarrow> string \<Rightarrow> 's world \<Rightarrow> 's world" where
  "markThreadRepair R code text w =
     (let w0 = on_co (\<lambda>c. c\<lparr>co_creation_uncertain := True, co_status := RoomThreadNeedsRepair\<rparr>) w in
      case repo (rp_MarkThreadNeedsRepair R (co_room (w_co w))
              \<lparr>re_code = code, re_detail_digest = digestError (Some text)\<rparr>) w0 of
        (Inl _, w1) \<Rightarrow> w1
      | (Inr ev, w1) \<Rightarrow> publish ev w1)"

text \<open>
  \<^verbatim>\<open>validThread\<close>: the thread, its turns and its items belong together, identifiers are present and
  not repeated, states are known, payloads are valid JSON.
\<close>

definition validItems :: "thread_id \<Rightarrow> turn_id \<Rightarrow> completed_item list \<Rightarrow> bool" where
  "validItems th tu items \<longleftrightarrow>
     list_all (\<lambda>i. it_thread_id i = th \<and> it_turn_id i = tu \<and> it_item_id i \<noteq> [] \<and> json_valid (it_payload i)) items
     \<and> distinct (map it_item_id items)"

definition validThread :: "coordinator \<Rightarrow> thread_snapshot \<Rightarrow> thread_id \<Rightarrow> bool" where
  "validThread c t th \<longleftrightarrow>
     th \<noteq> [] \<and> th_id t = th \<and> th_cwd t = co_root c
     \<and> list_all (\<lambda>turn. ts_id turn \<noteq> [] \<and>
          (ts_state turn = RequestRunning \<or> isTerminal (ts_state turn)) \<and> validItems th (ts_id turn) (ts_items turn)) (th_turns t)
     \<and> distinct (map ts_id (th_turns t))"

definition is_active_turn :: "coordinator \<Rightarrow> turn_id \<Rightarrow> bool" where
  "is_active_turn c turn \<longleftrightarrow> (case co_active c of None \<Rightarrow> False | Some b \<Rightarrow> tb_turn_id b = turn)"

definition completed_event :: "completed_item \<Rightarrow> agent_event" where
  "completed_event i =
     \<lparr>ev_kind = ''item-completed'', ev_thread_id = [], ev_turn_id = [], ev_item_id = [], ev_delta = [],
      ev_completed = Some i, ev_error = None\<rparr>"

definition apply_projection :: "agent_event \<Rightarrow> 's world \<Rightarrow> 's world" where
  "apply_projection ev =
     with_projection (\<lambda>p. case Apply ev p of (u, p') \<Rightarrow> (case pu_transient u of Some t \<Rightarrow> [t] | None \<Rightarrow> [], p'))"

fun record_items ::
  "'s repository \<Rightarrow> turn_snapshot \<Rightarrow> bool \<Rightarrow> completed_item list \<Rightarrow> 's world \<Rightarrow> err option \<times> 's world" where
  "record_items R turn terminal [] w = (None, w)"
| "record_items R turn terminal (i # items) w =
     (case repo (rp_RecordCompletedItem R (co_room (w_co w)) i) w of
        (Inl e, w1) \<Rightarrow> (Some e, w1)
      | (Inr ev, w1) \<Rightarrow>
          let w2 = publish ev w1;
              w3 = (if is_active_turn (w_co w2) (ts_id turn) \<and> \<not> isTerminal (ts_state turn) \<and> \<not> terminal
                    then apply_projection (completed_event i) w2 else w2)
          in record_items R turn terminal items w3)"

fun reconcile_turns ::
  "'s repository \<Rightarrow> turn_id list \<Rightarrow> request_state option \<Rightarrow> turn_snapshot list \<Rightarrow> 's world
     \<Rightarrow> (err + request_state option) \<times> 's world" where
  "reconcile_turns R hidden terminal [] w = (Inr terminal, w)"
| "reconcile_turns R hidden terminal (turn # turns) w =
     (if ts_id turn \<in> set hidden then reconcile_turns R hidden terminal turns w
      else case record_items R turn (terminal \<noteq> None) (ts_items turn) w of
        (Some e, w1) \<Rightarrow> (Inl e, w1)
      | (None, w1) \<Rightarrow>
          if is_active_turn (w_co w1) (ts_id turn) \<and> isTerminal (ts_state turn)
          then (if terminal \<noteq> None \<and> terminal \<noteq> Some (ts_state turn)
                then (Inl ErrDeliveryUnknown, markThreadRepair R ''thread-terminal-conflict'' unknown_text w1)
                else reconcile_turns R hidden (Some (ts_state turn)) turns w1)
          else reconcile_turns R hidden terminal turns w1)"

text \<open>What history says of the active turn: finished, or its outcome is unproven.\<close>

definition reconcile_active :: "'s repository \<Rightarrow> request_state option \<Rightarrow> 's world \<Rightarrow> err option \<times> 's world" where
  "reconcile_active R terminal w =
     (let rid = co_room (w_co w) in
      case co_active (w_co w) of
        None \<Rightarrow> (None, w)
      | Some b \<Rightarrow>
          (case terminal of
             Some st \<Rightarrow>
               (case repo (rp_FinishTurn R rid
                       \<lparr>ft_turn_id = tb_turn_id b, ft_state = st,
                        ft_error_code = (if st \<noteq> RequestCompleted then ''recovered-'' @ request_state_text st else []),
                        ft_error_digest = []\<rparr>) w of
                  (Inl e, w1) \<Rightarrow> (Some e, w1)
                | (Inr evs, w1) \<Rightarrow>
                    (None, set_active None (with_projection (removeTurn (co_thread (w_co w1)) (tb_turn_id b)) (publish_all evs w1))))
           | None \<Rightarrow>
               if tb_state b = RequestNeedsReview then (None, w)
               else (case repo (rp_MarkNeedsReview R rid (tb_message_id b)
                           \<lparr>re_code = ''turn-outcome-unproven'', re_detail_digest = digestError (Some unknown_text)\<rparr>) w of
                       (Inl e, w1) \<Rightarrow> (Some e, w1)
                     | (Inr ev, w1) \<Rightarrow> (None, review_active (publish ev w1)))))"

definition reconcileHistory :: "'s repository \<Rightarrow> thread_snapshot list \<Rightarrow> 's world \<Rightarrow> err option \<times> 's world" where
  "reconcileHistory R histories w =
     (let turns = concat (map th_turns histories);
          journal = (case rp_journal R of
              None \<Rightarrow> (Inr [], w)
            | Some j \<Rightarrow> repo (jn_PrivateTurns j (co_room (w_co w)) (co_thread (w_co w)) turns) w)
      in case journal of
           (Inl e, w1) \<Rightarrow> (Some e, w1)
         | (Inr hidden, w1) \<Rightarrow>
             (case reconcile_turns R hidden None turns w1 of
                (Inl e, w2) \<Rightarrow> (Some e, w2)
              | (Inr terminal, w2) \<Rightarrow> reconcile_active R terminal w2))"

text \<open>Every pending control that is not yet under review is put there, in order.\<close>

fun review_controls :: "'s repository \<Rightarrow> turn_binding list \<Rightarrow> turn_binding list \<Rightarrow> 's world \<Rightarrow> err option \<times> 's world" where
  "review_controls R done [] w = (None, w)"
| "review_controls R done (b # bs) w =
     (if tb_state b = RequestNeedsReview then review_controls R (done @ [b]) bs w
      else case repo (rp_MarkNeedsReview R (co_room (w_co w)) (tb_message_id b)
              \<lparr>re_code = ''control-delivery-unknown'', re_detail_digest = digestError (Some unknown_text)\<rparr>) w of
        (Inl e, w1) \<Rightarrow> (Some e, w1)
      | (Inr ev, w1) \<Rightarrow>
          let b' = b\<lparr>tb_state := RequestNeedsReview\<rparr> in
          review_controls R (done @ [b']) bs
            (on_co (\<lambda>c. c\<lparr>co_controls := done @ b' # bs\<rparr>) (publish ev w1)))"

definition recover_new_thread :: "'s repository \<Rightarrow> agent \<Rightarrow> 's world \<Rightarrow> err option \<times> 's world" where
  "recover_new_thread R A w =
     (case call_agent CallStartThread (ag_StartThread A) w of
        (Inl ae, w1) \<Rightarrow>
          (Some (normalizedMutationError ae),
           if normalizedMutationError ae = ErrDeliveryNotSent
           then freeze RoomRecovering (snd (setStatus R RoomReady w1))
           else markThreadRepair R ''thread-creation-unknown'' (ae_text ae) w1)
      | (Inr t, w1) \<Rightarrow>
          if \<not> validThread (w_co w1) t (th_id t)
          then (Some ErrDeliveryUnknown, markThreadRepair R ''thread-creation-invalid'' unknown_text w1)
          else (case repo (rp_BindThread R (co_room (w_co w1)) t) w1 of
                  (Inl e, w2) \<Rightarrow> (Some ErrDeliveryUnknown, markThreadRepair R ''thread-bind-unknown'' (rp_error_text R e) w2)
                | (Inr ev, w2) \<Rightarrow> (None, on_co (\<lambda>c. c\<lparr>co_thread := th_id t\<rparr>) (publish ev w2))))"

definition recover_old_thread :: "'s repository \<Rightarrow> agent \<Rightarrow> 's world \<Rightarrow> err option \<times> 's world" where
  "recover_old_thread R A w =
     (let th = co_thread (w_co w) in
      case call_agent (CallReadThread th) (\<lambda>cs. ag_ReadThread A cs th) w of
        (Inl ae, w1) \<Rightarrow> (Some (normalizedMutationError ae), markThreadRepair R ''thread-read-failed'' (ae_text ae) w1)
      | (Inr t, w1) \<Rightarrow>
          if \<not> validThread (w_co w1) t th
          then (Some ErrDeliveryUnknown, markThreadRepair R ''thread-mismatch'' unknown_text w1)
          else (case call_agent (CallResumeThread th) (\<lambda>cs. ag_ResumeThread A cs th) w1 of
                  (Inl ae, w2) \<Rightarrow> (Some (normalizedMutationError ae), w2)
                | (Inr resumed, w2) \<Rightarrow>
                    if \<not> validThread (w_co w2) resumed th
                    then (Some ErrDeliveryUnknown, markThreadRepair R ''thread-resume-mismatch'' unknown_text w2)
                    else reconcileHistory R [t, resumed] w2))"

definition recover_finish :: "'s repository \<Rightarrow> agent \<Rightarrow> 's world \<Rightarrow> err option \<times> 's world" where
  "recover_finish R A w =
     (case review_controls R [] (co_controls (w_co w)) w of
        (Some e, w1) \<Rightarrow> (Some e, w1)
      | (None, w1) \<Rightarrow>
          let w2 = on_co (\<lambda>c. c\<lparr>co_thread_ready := True\<rparr>) w1 in
          if co_active (w_co w2) = None \<and> co_controls (w_co w2) = []
          then (case setStatus R RoomReady w2 of
                  (Some e, w3) \<Rightarrow> (Some e, w3)
                | (None, w3) \<Rightarrow> dispatchNext R A w3)
          else (None, w2))"

definition recover :: "'s repository \<Rightarrow> agent \<Rightarrow> 's world \<Rightarrow> err option \<times> 's world" where
  "recover R A w =
     (if co_question (w_co w) \<noteq> None then (Some ErrQuestionOpen, w)
      else
        let w0 = on_co (\<lambda>c. c\<lparr>co_thread_ready := False\<rparr>) w in
        if co_creation_uncertain (w_co w0) then (Some ErrDeliveryUnknown, freeze RoomThreadNeedsRepair w0)
        else
          case loadRecovery R (resetProjection (freeze RoomRecovering w0)) of
            (Inl e, w1) \<Rightarrow> (Some e, w1)
          | (Inr img, w1) \<Rightarrow>
              if im_status img = RoomThreadNeedsRepair then (Some ErrDeliveryUnknown, freeze RoomThreadNeedsRepair w1)
              else if im_thread_id img = [] \<and> (im_status img = RoomRecovering \<or> im_active img \<noteq> None \<or> im_pending_controls img \<noteq> [])
              then (Some ErrDeliveryUnknown, markThreadRepair R ''thread-creation-unknown'' unknown_text w1)
              else case setStatus R RoomRecovering w1 of
                (Some e, w2) \<Rightarrow> (Some e, w2)
              | (None, w2) \<Rightarrow>
                  (case (if co_thread (w_co w2) = [] then recover_new_thread R A w2 else recover_old_thread R A w2) of
                     (Some e, w3) \<Rightarrow> (Some e, w3)
                   | (None, w3) \<Rightarrow> recover_finish R A w3))"

subsection \<open>Review decisions\<close>

definition retry_control :: "agent \<Rightarrow> retry_command \<Rightarrow> 's world \<Rightarrow> agent_error option \<times> 's world" where
  "retry_control A rc w =
     (let th = co_thread (w_co w); turn = rc_expected_turn_id rc in
      if rc_kind rc = RetrySteer
      then call_agent (CallSteerTurn th turn (rc_text rc)) (\<lambda>cs. ag_SteerTurn A cs th turn (rc_text rc)) w
      else call_agent (CallInterruptTurn th turn) (\<lambda>cs. ag_InterruptTurn A cs th turn) w)"

text \<open>The outcome of retrying a control, and the error the command returns for it.\<close>

definition retry_outcome :: "agent_error option \<Rightarrow> outcome \<times> err option" where
  "retry_outcome r =
     (case r of
        None \<Rightarrow> (\<lparr>oc_state = RequestCompleted, oc_error_code = [], oc_error_digest = []\<rparr>, None)
      | Some ae \<Rightarrow>
          (case mutationFailure ae of (code, digest, certainty) \<Rightarrow>
             (\<lparr>oc_state = (if certainty = DeliveryUnknown then RequestNeedsReview else RequestFailed),
               oc_error_code = code, oc_error_digest = digest\<rparr>, Some (normalizedMutationError ae))))"

definition run_retry ::
  "'s repository \<Rightarrow> agent \<Rightarrow> retry_command option \<Rightarrow> 's world \<Rightarrow> (err + err option) \<times> 's world" where
  "run_retry R A retry w =
     (case retry of
        None \<Rightarrow> (Inr None, w)
      | Some rc \<Rightarrow>
          if (case co_active (w_co w) of None \<Rightarrow> False
              | Some b \<Rightarrow> tb_state b = RequestRunning \<and> tb_turn_id b = rc_expected_turn_id rc)
             \<and> co_thread (w_co w) \<noteq> [] \<and> rc_kind rc = RetryPrompt
          then (Inl ErrInvalidRecovery, w)
          else
            let ((oc, retryErr), w1) =
              (if (case co_active (w_co w) of None \<Rightarrow> False
                   | Some b \<Rightarrow> tb_state b = RequestRunning \<and> tb_turn_id b = rc_expected_turn_id rc)
                  \<and> co_thread (w_co w) \<noteq> []
               then (case retry_control A rc w of (r, w') \<Rightarrow> (retry_outcome r, w'))
               else ((\<lparr>oc_state = RequestFailed, oc_error_code = ''stale-turn'', oc_error_digest = []\<rparr>, Some ErrStaleTurn), w))
            in case repo (rp_FinishControl R (co_room (w_co w)) (rc_client_message_id rc) oc) w1 of
                 (Inl e, w2) \<Rightarrow> (Inl e, w2)
               | (Inr ev, w2) \<Rightarrow>
                   (case loadRecovery R (publish ev w2) of
                      (Inl e, w3) \<Rightarrow> (Inl e, w3)
                    | (Inr _, w3) \<Rightarrow> (Inr retryErr, w3)))"

definition resume_after_review :: "'s repository \<Rightarrow> agent \<Rightarrow> err option \<Rightarrow> 's world \<Rightarrow> err option \<times> 's world" where
  "resume_after_review R A retryErr w =
     (if co_controls (w_co w) = [] \<and>
         (case co_active (w_co w) of None \<Rightarrow> True | Some b \<Rightarrow> tb_state b = RequestRunning)
      then (case setStatus R RoomReady w of
              (Some e, w1) \<Rightarrow> (Some e, w1)
            | (None, w1) \<Rightarrow>
                (case dispatchNext R A w1 of
                   (Some e, w2) \<Rightarrow> (Some e, w2)
                 | (None, w2) \<Rightarrow> (retryErr, w2)))
      else (retryErr, w))"

definition resolve :: "'s repository \<Rightarrow> agent \<Rightarrow> actor \<Rightarrow> recover_input \<Rightarrow> 's world \<Rightarrow> err option \<times> 's world" where
  "resolve R A a i w =
     (if co_fault (w_co w) \<noteq> [] then (Some ErrDeliveryUnknown, w)
      else case repo (rp_ResolveReview R (co_room (w_co w)) a i) w of
        (Inl e, w1) \<Rightarrow> (Some e, w1)
      | (Inr res, w1) \<Rightarrow>
          if rr_duplicate res then (None, w1)
          else
            let w2 = publish_all (rr_events res) (freeze RoomRecovering w1) in
            if \<not> co_thread_ready (w_co w2) then (Some ErrDeliveryUnknown, w2)
            else case loadRecovery R w2 of
              (Inl e, w3) \<Rightarrow> (Some e, w3)
            | (Inr img, w3) \<Rightarrow>
                if im_status img = RoomThreadNeedsRepair \<or> co_creation_uncertain (w_co w3)
                then (Some ErrDeliveryUnknown, freeze RoomThreadNeedsRepair w3)
                else (case run_retry R A (rr_retry res) w3 of
                        (Inl e, w4) \<Rightarrow> (Some e, w4)
                      | (Inr retryErr, w4) \<Rightarrow> resume_after_review R A retryErr w4))"

subsection \<open>Private questions\<close>

definition question_head :: bytes where
  "question_head =
     [CHR 0x5B, CHR 0xE5, CHR 0x8F, CHR 0xAA, CHR 0xE8, CHR 0xAF, CHR 0xBB, CHR 0xE9, CHR 0x97, CHR 0xAE,
      CHR 0xE7, CHR 0xAD, CHR 0x94, CHR 0x20, CHR 0xC2, CHR 0xB7, CHR 0x20, CHR 0xE8, CHR 0xAF, CHR 0xA2,
      CHR 0xE9, CHR 0x97, CHR 0xAE, CHR 0xE8, CHR 0x80, CHR 0x85, CHR 0x20]"

definition question_rules :: bytes where
  "question_rules =
     [CHR 0x5D, CHR 0x0A, CHR 0xE6, CHR 0x9C, CHR 0xAC, CHR 0xE8, CHR 0xBD, CHR 0xAE, CHR 0xE4, CHR 0xBB,
      CHR 0x85, CHR 0xE5, CHR 0x9B, CHR 0x9E, CHR 0xE7, CHR 0xAD, CHR 0x94, CHR 0xE5, CHR 0x92, CHR 0x8C,
      CHR 0xE8, CHR 0xA7, CHR 0xA3, CHR 0xE9, CHR 0x87, CHR 0x8A, CHR 0xEF, CHR 0xBC, CHR 0x8C, CHR 0xE4,
      CHR 0xB8, CHR 0x8D, CHR 0xE6, CHR 0x8E, CHR 0xA5, CHR 0xE5, CHR 0x8F, CHR 0x97, CHR 0xE5, CHR 0xAE,
      CHR 0x89, CHR 0xE6, CHR 0x8E, CHR 0x92, CHR 0xE5, CHR 0xB7, CHR 0xA5, CHR 0xE4, CHR 0xBD, CHR 0x9C,
      CHR 0xE3, CHR 0x80, CHR 0x82, CHR 0xE7, CHR 0xA6, CHR 0x81, CHR 0xE6, CHR 0xAD, CHR 0xA2, CHR 0xE4,
      CHR 0xBF, CHR 0xAE, CHR 0xE6, CHR 0x94, CHR 0xB9, CHR 0xE3, CHR 0x80, CHR 0x81, CHR 0xE5, CHR 0x88,
      CHR 0x9B, CHR 0xE5, CHR 0xBB, CHR 0xBA, CHR 0xE6, CHR 0x88, CHR 0x96, CHR 0xE5, CHR 0x88, CHR 0xA0,
      CHR 0xE9, CHR 0x99, CHR 0xA4, CHR 0xE9, CHR 0xA1, CHR 0xB9, CHR 0xE7, CHR 0x9B, CHR 0xAE, CHR 0xE6,
      CHR 0x95, CHR 0xB0, CHR 0xE6, CHR 0x8D, CHR 0xAE, CHR 0xEF, CHR 0xBC, CHR 0x8C, CHR 0xE7, CHR 0xA6,
      CHR 0x81, CHR 0xE6, CHR 0xAD, CHR 0xA2, CHR 0xE5, CHR 0xAE, CHR 0x89, CHR 0xE8, CHR 0xA3, CHR 0x85,
      CHR 0xE3, CHR 0x80, CHR 0x81, CHR 0xE6, CHR 0x9E, CHR 0x84, CHR 0xE5, CHR 0xBB, CHR 0xBA, CHR 0xE3,
      CHR 0x80, CHR 0x81, CHR 0xE6, CHR 0xB5, CHR 0x8B, CHR 0xE8, CHR 0xAF, CHR 0x95, CHR 0xE3, CHR 0x80,
      CHR 0x81, CHR 0xE6, CHR 0x89, CHR 0xA7, CHR 0xE8, CHR 0xA1, CHR 0x8C, CHR 0xE5, CHR 0x8F, CHR 0x98,
      CHR 0xE6, CHR 0x9B, CHR 0xB4, CHR 0xE5, CHR 0x91, CHR 0xBD, CHR 0xE4, CHR 0xBB, CHR 0xA4, CHR 0xE6,
      CHR 0x88, CHR 0x96, CHR 0xE8, CHR 0xB0, CHR 0x83, CHR 0xE7, CHR 0x94, CHR 0xA8, CHR 0xE5, CHR 0xA4,
      CHR 0x96, CHR 0xE9, CHR 0x83, CHR 0xA8, CHR 0xE5, CHR 0x86, CHR 0x99, CHR 0xE5, CHR 0x85, CHR 0xA5,
      CHR 0xE5, CHR 0xB7, CHR 0xA5, CHR 0xE5, CHR 0x85, CHR 0xB7, CHR 0xE3, CHR 0x80, CHR 0x82, CHR 0xE7,
      CHR 0x94, CHR 0xA8, CHR 0xE6, CHR 0x88, CHR 0xB7, CHR 0xE9, CHR 0x97, CHR 0xAE, CHR 0xE9, CHR 0xA2,
      CHR 0x98, CHR 0xE4, CHR 0xB8, CHR 0xAD, CHR 0xE7, CHR 0x9A, CHR 0x84, CHR 0xE5, CHR 0xB7, CHR 0xA5,
      CHR 0xE4, CHR 0xBD, CHR 0x9C, CHR 0xE6, CHR 0x8C, CHR 0x87, CHR 0xE4, CHR 0xBB, CHR 0xA4, CHR 0xE4,
      CHR 0xBB, CHR 0x85, CHR 0xE4, CHR 0xBD, CHR 0x9C, CHR 0xE4, CHR 0xB8, CHR 0xBA, CHR 0xE5, CHR 0xBE,
      CHR 0x85, CHR 0xE8, CHR 0xA7, CHR 0xA3, CHR 0xE9, CHR 0x87, CHR 0x8A, CHR 0xE7, CHR 0x9A, CHR 0x84,
      CHR 0xE6, CHR 0x96, CHR 0x87, CHR 0xE6, CHR 0x9C, CHR 0xAC, CHR 0xEF, CHR 0xBC, CHR 0x8C, CHR 0xE4,
      CHR 0xB8, CHR 0x8D, CHR 0xE5, CHR 0xBE, CHR 0x97, CHR 0xE6, CHR 0x89, CHR 0xA7, CHR 0xE8, CHR 0xA1,
      CHR 0x8C, CHR 0xEF, CHR 0xBC, CHR 0x8C, CHR 0xE4, CHR 0xB9, CHR 0x9F, CHR 0xE4, CHR 0xB8, CHR 0x8D,
      CHR 0xE5, CHR 0xBE, CHR 0x97, CHR 0xE5, CHR 0x9C, CHR 0xA8, CHR 0xE5, CHR 0x90, CHR 0x8E, CHR 0xE7,
      CHR 0xBB, CHR 0xAD, CHR 0xE5, CHR 0xB7, CHR 0xA5, CHR 0xE4, CHR 0xBD, CHR 0x9C, CHR 0xE8, CHR 0xBD,
      CHR 0xAE, CHR 0xE6, CHR 0xAC, CHR 0xA1, CHR 0xE8, CHR 0x87, CHR 0xAA, CHR 0xE5, CHR 0x8A, CHR 0xA8,
      CHR 0xE6, CHR 0x89, CHR 0xA7, CHR 0xE8, CHR 0xA1, CHR 0x8C, CHR 0xE3, CHR 0x80, CHR 0x82, CHR 0xE5,
      CHR 0x8F, CHR 0xAF, CHR 0xE4, CHR 0xBB, CHR 0xA5, CHR 0xE5, CHR 0x8F, CHR 0xAA, CHR 0xE8, CHR 0xAF,
      CHR 0xBB, CHR 0xE6, CHR 0x9F, CHR 0xA5, CHR 0xE7, CHR 0x9C, CHR 0x8B, CHR 0xE9, CHR 0xA1, CHR 0xB9,
      CHR 0xE7, CHR 0x9B, CHR 0xAE, CHR 0xE4, CHR 0xBB, CHR 0xA5, CHR 0xE5, CHR 0x9B, CHR 0x9E, CHR 0xE7,
      CHR 0xAD, CHR 0x94, CHR 0xE9, CHR 0x97, CHR 0xAE, CHR 0xE9, CHR 0xA2, CHR 0x98, CHR 0xE3, CHR 0x80,
      CHR 0x82, CHR 0x0A, CHR 0xE9, CHR 0x97, CHR 0xAE, CHR 0xE9, CHR 0xA2, CHR 0x98, CHR 0xEF, CHR 0xBC,
      CHR 0x9A, CHR 0x0A]"

definition question_prompt :: "actor \<Rightarrow> string \<Rightarrow> string" where
  "question_prompt a text = question_head @ actor_name a @ question_rules @ text"

definition answer :: "client_message_id \<Rightarrow> question_result \<Rightarrow> 's world \<Rightarrow> 's world" where
  "answer cid r w = w\<lparr>w_answers := w_answers w @ [(cid, r)]\<rparr>"

definition refuse :: "question_command \<Rightarrow> err \<Rightarrow> 's world \<Rightarrow> 's world" where
  "refuse q e = answer (qc_id q) \<lparr>qr_session = [], qr_text = [], qr_error = Some e\<rparr>"

definition question_input_error :: "question_command \<Rightarrow> err option" where
  "question_input_error q =
     (if \<not> ValidClientMessageID (qc_id q) \<or> blank (qc_text q) \<or> 6000 < length (qc_text q)
      then Some ErrQuestionInvalid else None)"

definition question_turn ::
  "'s repository \<Rightarrow> 's private_turn_journal
     \<Rightarrow> (agent_call list \<Rightarrow> thread_id \<Rightarrow> client_message_id \<Rightarrow> string \<Rightarrow> agent_error + turn_id)
     \<Rightarrow> question_command \<Rightarrow> turn_id list \<Rightarrow> 's world \<Rightarrow> 's world" where
  "question_turn R j start q baseline w =
     (let rid = co_room (w_co w); th = co_thread (w_co w); text = question_prompt (qc_actor q) (qc_text q) in
      case repo (jn_BeginPrivateTurn j rid th baseline) w of
        (Inl e, w1) \<Rightarrow> refuse q e w1
      | (Inr _, w1) \<Rightarrow>
          (case call_agent (CallReadOnlyTurn th (qc_id q) text) (\<lambda>cs. start cs th (qc_id q) text) w1 of
             (Inl ae, w2) \<Rightarrow>
               if normalizedMutationError ae = ErrDeliveryNotSent
               then (case repo (jn_EndPrivateTurn j rid th []) w2 of
                       (Inl e, w3) \<Rightarrow> refuse q e (freeze RoomRecovering w3)
                     | (Inr _, w3) \<Rightarrow> refuse q (ErrAgent (ae_text ae)) w3)
               else refuse q (ErrAgent (ae_text ae)) (freeze RoomRecovering w2)
           | (Inr turn, w2) \<Rightarrow>
               on_co (\<lambda>c. c\<lparr>co_question := Some \<lparr>pq_command = q, pq_turn = turn, pq_items = [],
                                                  pq_order = [], pq_fault = None\<rparr>\<rparr>) w2))"

definition startQuestion :: "'s repository \<Rightarrow> agent \<Rightarrow> question_command \<Rightarrow> 's world \<Rightarrow> 's world" where
  "startQuestion R A q w =
     (let c = w_co w; th = co_thread c in
      if qc_canceled q then refuse q ErrCanceled w
      else if co_question c \<noteq> None \<or> co_active c \<noteq> None \<or> co_queue c \<noteq> [] \<or> co_controls c \<noteq> []
              \<or> co_status c \<noteq> RoomReady \<or> \<not> co_thread_ready c
      then refuse q ErrQuestionBusy w
      else case (ag_StartReadOnlyTurn A, rp_journal R) of
        (Some start, Some j) \<Rightarrow>
          (case call_agent (CallReadThread th) (\<lambda>cs. ag_ReadThread A cs th) w of
             (Inl ae, w1) \<Rightarrow> refuse q (ErrAgent (ae_text ae)) w1
           | (Inr t, w1) \<Rightarrow>
               if \<not> validThread c t th then refuse q ErrQuestionThread w1
               else if list_ex (\<lambda>turn. ts_state turn = RequestRunning) (th_turns t) then refuse q ErrQuestionActive w1
               else question_turn R j start q (map ts_id (th_turns t)) w1)
      | _ \<Rightarrow> refuse q ErrQuestionUnsupported w)"

definition cancelQuestion :: "agent \<Rightarrow> client_message_id \<Rightarrow> 's world \<Rightarrow> 's world" where
  "cancelQuestion A cid w =
     (let th = co_thread (w_co w) in
      case co_question (w_co w) of
        None \<Rightarrow> w
      | Some q \<Rightarrow>
          if qc_id (pq_command q) \<noteq> cid then w
          else snd (call_agent (CallInterruptTurn th (pq_turn q)) (\<lambda>cs. ag_InterruptTurn A cs th (pq_turn q))
                 (on_co (\<lambda>c. c\<lparr>co_question := Some (q\<lparr>pq_fault := Some ErrCanceled\<rparr>)\<rparr>) w)))"

text \<open>\<^verbatim>\<open>json.Unmarshal\<close> into two string fields fails on a field of another type and on non-objects.\<close>

definition unmarshal_ok :: "string list \<Rightarrow> json option \<Rightarrow> bool" where
  "unmarshal_ok ks v =
     (case v of
        Some (JObj fs) \<Rightarrow>
          list_all (\<lambda>(k, x). fold_name k \<in> set (map fold_name ks) \<longrightarrow> (case x of JStr _ \<Rightarrow> True | JNull \<Rightarrow> True | _ \<Rightarrow> False)) fs
      | Some JNull \<Rightarrow> True
      | _ \<Rightarrow> False)"

definition agent_message_text :: "bytes \<Rightarrow> string option" where
  "agent_message_text payload =
     (let v = json_parse payload in
      if unmarshal_ok [''type'', ''text''] v \<and> unmarshal_string ''type'' v = ''agentMessage''
      then Some (unmarshal_string ''text'' v) else None)"

definition note_answer :: "item_id \<Rightarrow> string \<Rightarrow> private_question \<Rightarrow> private_question" where
  "note_answer i t q =
     q\<lparr>pq_order := (if map_of (pq_items q) i = None then pq_order q @ [i] else pq_order q),
       pq_items := put i t (pq_items q)\<rparr>"

fun join_answers :: "string \<Rightarrow> string list \<Rightarrow> string" where
  "join_answers acc [] = acc"
| "join_answers acc (t # ts) = join_answers ((if acc = [] then [] else acc @ newline @ newline) @ t) ts"

definition answer_text :: "private_question \<Rightarrow> string" where
  "answer_text q = join_answers [] (map (\<lambda>i. case map_of (pq_items q) i of Some t \<Rightarrow> t | None \<Rightarrow> []) (pq_order q))"

definition is_turn_end :: "string \<Rightarrow> bool" where
  "is_turn_end k \<longleftrightarrow> k = ''turn-completed'' \<or> k = ''turn-failed'' \<or> k = ''turn-interrupted''"

definition is_fault :: "string \<Rightarrow> bool" where
  "is_fault k \<longleftrightarrow> k = ''unsupported-server-request'' \<or> k = ''protocol-error''"

definition answer_error :: "string \<Rightarrow> private_question \<Rightarrow> err option" where
  "answer_error kind q =
     (let e = (if kind \<noteq> ''turn-completed'' \<and> pq_fault q = None then Some ErrQuestionUnfinished else pq_fault q) in
      if answer_text q = [] \<and> e = None then Some ErrQuestionEmpty else e)"

text \<open>A dispatch whose storage failed stops the coordinator; delivery failures are recorded already.\<close>

definition dispatch_or_fail :: "'s repository \<Rightarrow> agent \<Rightarrow> 's world \<Rightarrow> 's world" where
  "dispatch_or_fail R A w =
     (case dispatchNext R A w of
        (None, w1) \<Rightarrow> w1
      | (Some e, w1) \<Rightarrow>
          if e = ErrDeliveryNotSent \<or> e = ErrDeliveryUnknown then w1 else failPersistence e w1)"

definition end_question :: "'s repository \<Rightarrow> agent \<Rightarrow> string \<Rightarrow> private_question \<Rightarrow> 's world \<Rightarrow> 's world" where
  "end_question R A kind q w =
     (let th = co_thread (w_co w);
          (e, w1) = (case rp_journal R of
              None \<Rightarrow> (answer_error kind q, w)
            | Some j \<Rightarrow>
                (case repo (jn_EndPrivateTurn j (co_room (w_co w)) th [pq_turn q]) w of
                   (Inl e, w1) \<Rightarrow> (Some e, freeze RoomRecovering w1)
                 | (Inr _, w1) \<Rightarrow> (answer_error kind q, w1)))
      in dispatch_or_fail R A
           (on_co (\<lambda>c. c\<lparr>co_question := None\<rparr>)
             (answer (qc_id (pq_command q)) \<lparr>qr_session = th, qr_text = answer_text q, qr_error = e\<rparr> w1)))"

text \<open>Whether the event belonged to the private turn and was consumed by it.\<close>

definition questionEvent :: "'s repository \<Rightarrow> agent \<Rightarrow> agent_event \<Rightarrow> 's world \<Rightarrow> bool \<times> 's world" where
  "questionEvent R A ev w =
     (case co_question (w_co w) of
        None \<Rightarrow> (False, w)
      | Some q \<Rightarrow>
          if ev_kind ev = ''runtime-unavailable''
          then (False, on_co (\<lambda>c. c\<lparr>co_question := None\<rparr>) (refuse (pq_command q) ErrAgentRuntimeClosed w))
          else
            let thread = (case ev_completed ev of Some i \<Rightarrow> it_thread_id i | None \<Rightarrow> ev_thread_id ev);
                turn = (case ev_completed ev of Some i \<Rightarrow> it_turn_id i | None \<Rightarrow> ev_turn_id ev);
                th = co_thread (w_co w)
            in if (thread \<noteq> [] \<and> thread \<noteq> th) \<or> (turn \<noteq> [] \<and> turn \<noteq> pq_turn q) then (False, w)
               else (True,
                 if ev_kind ev = ''item-completed'' then
                   (case ev_completed ev of
                      Some i \<Rightarrow>
                        (case agent_message_text (it_payload i) of
                           Some t \<Rightarrow> on_co (\<lambda>c. c\<lparr>co_question := Some (note_answer (it_item_id i) t q)\<rparr>) w
                         | None \<Rightarrow> w)
                    | None \<Rightarrow> w)
                 else if is_fault (ev_kind ev) then
                   snd (call_agent (CallInterruptTurn th (pq_turn q)) (\<lambda>cs. ag_InterruptTurn A cs th (pq_turn q))
                     (on_co (\<lambda>c. c\<lparr>co_question := Some (q\<lparr>pq_fault := Some ErrQuestionFault\<rparr>)\<rparr>) w))
                 else if is_turn_end (ev_kind ev) then end_question R A (ev_kind ev) q w
                 else w))"

subsection \<open>Agent events\<close>

text \<open>The active turn still produces output: it runs, or a fault was reported and it is being stopped.\<close>

definition follows_turn :: "coordinator \<Rightarrow> turn_id \<Rightarrow> bool" where
  "follows_turn c turn \<longleftrightarrow>
     (case co_active c of
        None \<Rightarrow> False
      | Some b \<Rightarrow>
          (tb_state b = RequestRunning \<or> (co_fault c \<noteq> [] \<and> tb_state b = RequestNeedsReview))
          \<and> tb_turn_id b = turn)"

definition item_event :: "'s repository \<Rightarrow> agent_event \<Rightarrow> 's world \<Rightarrow> 's world" where
  "item_event R ev w =
     (let c = w_co w;
          turn = (case ev_completed ev of Some i \<Rightarrow> it_turn_id i | None \<Rightarrow> ev_turn_id ev)
      in if \<not> follows_turn c turn then w
         else case ev_completed ev of
           Some i \<Rightarrow>
             if it_thread_id i \<noteq> co_thread c then w
             else (case repo (rp_RecordCompletedItem R (co_room c) i) w of
                     (Inl e, w1) \<Rightarrow> failPersistence e w1
                   | (Inr d, w1) \<Rightarrow> apply_projection ev (publish d w1))
         | None \<Rightarrow> if ev_thread_id ev \<noteq> co_thread c then w else apply_projection ev w)"

definition finish_input :: "coordinator \<Rightarrow> agent_event \<Rightarrow> finish_turn_input" where
  "finish_input c ev =
     (let state = (if ev_kind ev = ''turn-failed'' then RequestFailed
                   else if ev_kind ev = ''turn-interrupted'' then RequestInterrupted
                   else RequestCompleted)
      in \<lparr>ft_turn_id = ev_turn_id ev,
          ft_state = (if co_fault c \<noteq> [] then RequestFailed else state),
          ft_error_code = (if co_fault c \<noteq> [] then co_fault c else if state \<noteq> RequestCompleted then ev_kind ev else []),
          ft_error_digest = (if state \<noteq> RequestCompleted then digestError (ev_error ev) else [])\<rparr>)"

definition turn_end_event :: "'s repository \<Rightarrow> agent \<Rightarrow> agent_event \<Rightarrow> 's world \<Rightarrow> 's world" where
  "turn_end_event R A ev w =
     (let c = w_co w; rid = co_room c in
      if \<not> follows_turn c (ev_turn_id ev) \<or> (ev_thread_id ev \<noteq> [] \<and> ev_thread_id ev \<noteq> co_thread c) then w
      else case repo (rp_FinishTurn R rid (finish_input c ev)) w of
        (Inl e, w1) \<Rightarrow> failPersistence e w1
      | (Inr evs, w1) \<Rightarrow>
          let w2 = set_active None (with_projection (removeTurn (co_thread c) (ev_turn_id ev)) (publish_all evs w1)) in
          if co_fault c = [] then dispatch_or_fail R A w2
          else (case repo (rp_SetRoomStatus R rid RoomReady) (on_co (\<lambda>c. c\<lparr>co_fault := []\<rparr>) w2) of
                  (Inl e, w3) \<Rightarrow> failPersistence e w3
                | (Inr se, w3) \<Rightarrow> dispatch_or_fail R A (freeze RoomReady (publish_status se w3))))"

definition fault_event :: "'s repository \<Rightarrow> agent \<Rightarrow> agent_event \<Rightarrow> 's world \<Rightarrow> 's world" where
  "fault_event R A ev w =
     (let c = w_co w; rid = co_room c; th = co_thread c in
      case co_active c of
        None \<Rightarrow> failPersistence (ErrAgent (''agent '' @ ev_kind ev @ '' without active turn'')) w
      | Some b \<Rightarrow>
          if co_fault c \<noteq> [] then w
          else if (ev_thread_id ev \<noteq> [] \<and> ev_thread_id ev \<noteq> th) \<or> (ev_turn_id ev \<noteq> [] \<and> ev_turn_id ev \<noteq> tb_turn_id b) then w
          else
            let text = (case ev_error ev of Some t \<Rightarrow> t | None \<Rightarrow> ev_kind ev);
                w1 = on_co (\<lambda>c. c\<lparr>co_status := RoomRecovering, co_fault := ev_kind ev\<rparr>) w
            in case repo (rp_MarkNeedsReview R rid (tb_message_id b)
                      \<lparr>re_code = ev_kind ev, re_detail_digest = digestError (Some text)\<rparr>) w1 of
                 (Inl e, w2) \<Rightarrow> failPersistence e w2
               | (Inr d, w2) \<Rightarrow>
                   (case repo (rp_SetRoomStatus R rid RoomRecovering) (review_active (publish d w2)) of
                      (Inl e, w3) \<Rightarrow> failPersistence e w3
                    | (Inr se, w3) \<Rightarrow>
                        snd (call_agent (CallInterruptTurn th (tb_turn_id b)) (\<lambda>cs. ag_InterruptTurn A cs th (tb_turn_id b))
                          (publish_status se w3))))"

definition unavailable_event :: "'s repository \<Rightarrow> agent_event \<Rightarrow> 's world \<Rightarrow> 's world" where
  "unavailable_event R ev w =
     (let w1 = resetProjection (on_co (\<lambda>c. c\<lparr>co_fault := [], co_thread_ready := False, co_ready_seen := False\<rparr>) w);
          rid = co_room (w_co w)
      in if co_status (w_co w1) = RoomRecovering then w1
         else
           let w2 = (case repo (rp_SetRoomStatus R rid RoomRecovering) (freeze RoomRecovering w1) of
                       (Inl _, w2) \<Rightarrow> w2 | (Inr se, w2) \<Rightarrow> publish_status se w2)
           in case co_active (w_co w2) of
                None \<Rightarrow> w2
              | Some b \<Rightarrow>
                  if tb_state b = RequestNeedsReview then w2
                  else
                    let text = (case ev_error ev of Some t \<Rightarrow> t | None \<Rightarrow> closed_text) in
                    (case repo (rp_MarkNeedsReview R rid (tb_message_id b)
                            \<lparr>re_code = ''runtime-unavailable'', re_detail_digest = digestError (Some text)\<rparr>) w2 of
                       (Inl _, w3) \<Rightarrow> w3
                     | (Inr d, w3) \<Rightarrow> review_active (publish d w3)))"

definition handleAgentEvent :: "'s repository \<Rightarrow> agent \<Rightarrow> agent_event \<Rightarrow> 's world \<Rightarrow> 's world" where
  "handleAgentEvent R A ev w =
     (case questionEvent R A ev w of
        (True, w1) \<Rightarrow> w1
      | (False, w1) \<Rightarrow>
          if ev_kind ev = ''item-delta'' \<or> ev_kind ev = ''item-completed'' then item_event R ev w1
          else if is_turn_end (ev_kind ev) then turn_end_event R A ev w1
          else if is_fault (ev_kind ev) then fault_event R A ev w1
          else if ev_kind ev = ''runtime-unavailable'' then unavailable_event R ev w1
          else if ev_kind ev = ''runtime-ready'' then
            (if co_status (w_co w1) \<noteq> RoomReady \<and> \<not> co_ready_seen (w_co w1)
             then snd (recover R A (on_co (\<lambda>c. c\<lparr>co_ready_seen := True\<rparr>) w1))
             else w1)
          else w1)"

subsection \<open>Snapshots\<close>

record room_snapshot =
  sn_agents :: "agent_member list"
  sn_projection_truncated :: bool
  sn_status :: room_status
  sn_thread_id :: thread_id
  sn_active :: "turn_binding option"
  sn_queue :: "queued_message list"
  sn_projection_revision :: nat
  sn_live_items :: "live_item_snapshot list"
  sn_latest_seq :: seqno

definition snapshot_agents :: "agent \<Rightarrow> agent_call list \<Rightarrow> coordinator \<Rightarrow> agent_member list" where
  "snapshot_agents A cs c =
     (case ag_AgentMembers A of
        None \<Rightarrow> []
      | Some f \<Rightarrow>
          map (\<lambda>m. if (case co_active c of None \<Rightarrow> False | Some b \<Rightarrow> \<not> prefix ''workgroup-'' (tb_turn_id b)) \<and> am_id m = ''codex''
                   then m\<lparr>am_status := ''working''\<rparr> else m) (f cs))"

definition snapshot :: "agent \<Rightarrow> 's world \<Rightarrow> room_snapshot" where
  "snapshot A w =
     (let c = w_co w in case Snapshot (co_projection c) of (revision, items) \<Rightarrow>
        \<lparr>sn_agents = snapshot_agents A (w_calls w) c, sn_projection_truncated = p_truncated (co_projection c),
         sn_status = co_status c, sn_thread_id = co_thread c, sn_active = co_active c, sn_queue = co_queue c,
         sn_projection_revision = revision, sn_live_items = items, sn_latest_seq = co_latest c\<rparr>)"

subsection \<open>The command loop\<close>

text \<open>
  The commands that reach the loop, after the validation the exported methods run first; a
  rejected command is answered without reaching it.
\<close>

datatype command =
    CmdRecover
  | CmdResolve actor recover_input
  | CmdSubmit actor submit_input bool
  | CmdControl actor control_input
  | CmdSnapshot
  | CmdQuestion question_command
  | CmdCancelQuestion client_message_id

fun command_error :: "command \<Rightarrow> err option" where
  "command_error (CmdResolve a i) = validate_recover i"
| "command_error (CmdSubmit a i note) = validate_submit i"
| "command_error (CmdQuestion q) = question_input_error q"
| "command_error (CmdControl a i) =
     (case ci_kind i of
        ControlSteer \<Rightarrow> validate_steer \<lparr>st_client_message_id = ci_client_message_id i,
                          st_expected_turn_id = ci_expected_turn_id i, st_text = ci_text i\<rparr>
      | ControlCancel \<Rightarrow> validate_cancel \<lparr>ca_client_message_id = ci_client_message_id i,
                          ca_expected_turn_id = ci_expected_turn_id i\<rparr>
      | ControlOther _ \<Rightarrow> Some ErrInvalidControlKind)"
| "command_error c = None"

datatype reply =
    ReplyError "err option"
  | ReplyAcceptance "acceptance option" "err option"
  | ReplySnapshot room_snapshot
  | ReplyNone

fun handleCommand :: "'s repository \<Rightarrow> agent \<Rightarrow> command \<Rightarrow> 's world \<Rightarrow> reply \<times> 's world" where
  "handleCommand R A CmdRecover w = (case recover R A w of (e, w1) \<Rightarrow> (ReplyError e, w1))"
| "handleCommand R A (CmdResolve a i) w = (case resolve R A a i w of (e, w1) \<Rightarrow> (ReplyError e, w1))"
| "handleCommand R A (CmdSubmit a i note) w =
     (case handleSubmit R A a i note w of ((got, e), w1) \<Rightarrow> (ReplyAcceptance got e, w1))"
| "handleCommand R A (CmdControl a i) w =
     (case handleControl R A a i w of ((got, e), w1) \<Rightarrow> (ReplyAcceptance got e, w1))"
| "handleCommand R A CmdSnapshot w = (ReplySnapshot (snapshot A w), w)"
| "handleCommand R A (CmdQuestion q) w = (ReplyNone, startQuestion R A q w)"
| "handleCommand R A (CmdCancelQuestion cid) w = (ReplyNone, cancelQuestion A cid w)"

text \<open>
  The runs of \<^verbatim>\<open>Run\<close>: commands and agent events in any order until a durable transition failed,
  changes of the store by other parts of the daemon, and restarts of the process with the same
  store.
\<close>

inductive reachable ::
  "'s repository \<Rightarrow> agent \<Rightarrow> room_id \<Rightarrow> string \<Rightarrow> ('s \<Rightarrow> 's \<Rightarrow> bool) \<Rightarrow> 's \<Rightarrow> 's world \<Rightarrow> bool"
  for R A rid root env s0 where
  boot: "NewCoordinator rid root = Some c \<Longrightarrow>
     reachable R A rid root env s0 \<lparr>w_co = c, w_store = s0, w_calls = [], w_published = [], w_answers = []\<rparr>"
| command: "reachable R A rid root env s0 w \<Longrightarrow> co_fatal (w_co w) = None \<Longrightarrow> command_error cmd = None \<Longrightarrow>
     reachable R A rid root env s0 (snd (handleCommand R A cmd w))"
| event: "reachable R A rid root env s0 w \<Longrightarrow> co_fatal (w_co w) = None \<Longrightarrow>
     reachable R A rid root env s0 (handleAgentEvent R A ev w)"
| external: "reachable R A rid root env s0 w \<Longrightarrow> env (w_store w) s \<Longrightarrow>
     reachable R A rid root env s0 (w\<lparr>w_store := s\<rparr>)"
| restart: "reachable R A rid root env s0 w \<Longrightarrow> NewCoordinator rid root = Some c \<Longrightarrow>
     reachable R A rid root env s0 (w\<lparr>w_co := c\<rparr>)"

end
