(* ===== verification/Room_Contract.thy ===== *)
theory Room_Contract
  imports Coordinator Store_Machine
begin

text \<open>
  What the coordinator relies on of its repository, as a locale, and what it guarantees on top of
  it, proved once there: at most one prompt is in flight, a prompt is started at most once per
  durable dispatch, and the queue is in the order of acceptance. The laws are about the
  life-cycle view of the store: every method but \<^verbatim>\<open>BeginDispatch\<close> only takes steps that dispatch
  nothing, whether or not it reports success.
\<close>

subsection \<open>Fields through the primitive effects\<close>

lemma on_co_simps [simp]:
  "w_co (on_co f w) = f (w_co w)" "w_store (on_co f w) = w_store w" "w_calls (on_co f w) = w_calls w"
  "w_published (on_co f w) = w_published w"
  by (simp_all add: on_co_def)

definition same_core_co :: "coordinator \<Rightarrow> coordinator \<Rightarrow> bool" where
  "same_core_co c c' \<longleftrightarrow> co_room c' = co_room c \<and> co_status c' = co_status c \<and> co_active c' = co_active c
     \<and> co_queue c' = co_queue c \<and> co_thread c' = co_thread c \<and> co_controls c' = co_controls c
     \<and> co_creation_uncertain c' = co_creation_uncertain c \<and> co_thread_ready c' = co_thread_ready c
     \<and> co_fault c' = co_fault c \<and> co_question c' = co_question c \<and> co_fatal c' = co_fatal c"

lemma publish_core: "same_core_co (w_co w) (w_co (publish e w))"
  by (simp add: publish_def Let_def same_core_co_def)

lemma publish_simps [simp]:
  "w_store (publish e w) = w_store w" "w_calls (publish e w) = w_calls w"
  "co_room (w_co (publish e w)) = co_room (w_co w)" "co_status (w_co (publish e w)) = co_status (w_co w)"
  "co_active (w_co (publish e w)) = co_active (w_co w)" "co_queue (w_co (publish e w)) = co_queue (w_co w)"
  "co_thread (w_co (publish e w)) = co_thread (w_co w)" "co_controls (w_co (publish e w)) = co_controls (w_co w)"
  "co_fault (w_co (publish e w)) = co_fault (w_co w)" "co_thread_ready (w_co (publish e w)) = co_thread_ready (w_co w)"
  "co_question (w_co (publish e w)) = co_question (w_co w)"
  "co_creation_uncertain (w_co (publish e w)) = co_creation_uncertain (w_co w)"
  by (simp_all add: publish_def Let_def)

lemma publish_all_simps [simp]:
  "w_store (publish_all es w) = w_store w" "w_calls (publish_all es w) = w_calls w"
  "co_room (w_co (publish_all es w)) = co_room (w_co w)" "co_status (w_co (publish_all es w)) = co_status (w_co w)"
  "co_active (w_co (publish_all es w)) = co_active (w_co w)" "co_queue (w_co (publish_all es w)) = co_queue (w_co w)"
  "co_thread (w_co (publish_all es w)) = co_thread (w_co w)" "co_controls (w_co (publish_all es w)) = co_controls (w_co w)"
  "co_fault (w_co (publish_all es w)) = co_fault (w_co w)" "co_thread_ready (w_co (publish_all es w)) = co_thread_ready (w_co w)"
  "co_question (w_co (publish_all es w)) = co_question (w_co w)"
  by (induction es arbitrary: w) (simp_all add: publish_all_def)

lemma publish_status_simps [simp]:
  "w_store (publish_status e w) = w_store w" "w_calls (publish_status e w) = w_calls w"
  "co_room (w_co (publish_status e w)) = co_room (w_co w)" "co_status (w_co (publish_status e w)) = co_status (w_co w)"
  "co_active (w_co (publish_status e w)) = co_active (w_co w)" "co_queue (w_co (publish_status e w)) = co_queue (w_co w)"
  "co_thread (w_co (publish_status e w)) = co_thread (w_co w)" "co_controls (w_co (publish_status e w)) = co_controls (w_co w)"
  "co_fault (w_co (publish_status e w)) = co_fault (w_co w)" "co_question (w_co (publish_status e w)) = co_question (w_co w)"
  by (simp_all add: publish_status_def split: option.splits)

lemma with_projection_simps [simp]:
  "w_store (with_projection f w) = w_store w" "w_calls (with_projection f w) = w_calls w"
  "co_room (w_co (with_projection f w)) = co_room (w_co w)" "co_status (w_co (with_projection f w)) = co_status (w_co w)"
  "co_active (w_co (with_projection f w)) = co_active (w_co w)" "co_queue (w_co (with_projection f w)) = co_queue (w_co w)"
  "co_thread (w_co (with_projection f w)) = co_thread (w_co w)" "co_controls (w_co (with_projection f w)) = co_controls (w_co w)"
  "co_fault (w_co (with_projection f w)) = co_fault (w_co w)" "co_question (w_co (with_projection f w)) = co_question (w_co w)"
  by (simp_all add: with_projection_def publish_transients_def split: prod.splits)

lemma primitive_simps [simp]:
  "w_store (freeze st w) = w_store w" "w_calls (freeze st w) = w_calls w"
  "co_active (w_co (freeze st w)) = co_active (w_co w)" "co_queue (w_co (freeze st w)) = co_queue (w_co w)"
  "co_room (w_co (freeze st w)) = co_room (w_co w)" "co_status (w_co (freeze st w)) = st"
  "co_controls (w_co (freeze st w)) = co_controls (w_co w)"
  "w_store (set_active b w) = w_store w" "w_calls (set_active b w) = w_calls w"
  "co_active (w_co (set_active b w)) = b" "co_queue (w_co (set_active b w)) = co_queue (w_co w)"
  "co_room (w_co (set_active b w)) = co_room (w_co w)" "co_status (w_co (set_active b w)) = co_status (w_co w)"
  "w_store (set_queue q w) = w_store w" "w_calls (set_queue q w) = w_calls w"
  "co_active (w_co (set_queue q w)) = co_active (w_co w)" "co_queue (w_co (set_queue q w)) = q"
  "co_room (w_co (set_queue q w)) = co_room (w_co w)" "co_status (w_co (set_queue q w)) = co_status (w_co w)"
  "w_store (review_active w) = w_store w" "w_calls (review_active w) = w_calls w"
  "co_active (w_co (review_active w)) = map_option (\<lambda>b. b\<lparr>tb_state := RequestNeedsReview\<rparr>) (co_active (w_co w))"
  "co_queue (w_co (review_active w)) = co_queue (w_co w)"
  "co_room (w_co (review_active w)) = co_room (w_co w)" "co_status (w_co (review_active w)) = co_status (w_co w)"
  by (simp_all add: freeze_def set_active_def set_queue_def review_active_def)

lemmas effect_defs = freeze_def set_active_def set_queue_def review_active_def resetProjection_def
  apply_projection_def failPersistence_def

lemma repo_Pair:
  "repo f w = (r, w1) \<longleftrightarrow> f (w_store w) = (r, w_store w1) \<and> w1 = w\<lparr>w_store := w_store w1\<rparr>"
  by (cases w; cases w1) (auto simp: repo_def split: prod.splits)

lemma call_agent_Pair:
  "call_agent c f w = (r, w1) \<longleftrightarrow> r = f (w_calls w) \<and> w1 = w\<lparr>w_calls := w_calls w @ [c]\<rparr>"
  by (auto simp: call_agent_def)

lemma call_agent_simps [simp]: "snd (call_agent c f w) = w\<lparr>w_calls := w_calls w @ [c]\<rparr>"
  by (simp add: call_agent_def)

subsection \<open>Starts of turns\<close>

definition is_start :: "client_message_id \<Rightarrow> agent_call \<Rightarrow> bool" where
  "is_start cid c \<longleftrightarrow> (case c of CallStartTurn _ i _ \<Rightarrow> i = cid | _ \<Rightarrow> False)"

definition starts :: "agent_call list \<Rightarrow> client_message_id \<Rightarrow> nat" where
  "starts cs cid = length (filter (is_start cid) cs)"

lemma starts_snoc [simp]: "starts (cs @ [c]) cid = starts cs cid + (if is_start cid c then 1 else 0)"
  by (simp add: starts_def)

lemma is_start_simps [simp]:
  "is_start cid (CallStartTurn th i t) \<longleftrightarrow> i = cid"
  "\<not> is_start cid CallStartThread" "\<not> is_start cid (CallReadThread th)" "\<not> is_start cid (CallResumeThread th)"
  "\<not> is_start cid (CallReadOnlyTurn th i t)" "\<not> is_start cid (CallSteerTurn th tu t)" "\<not> is_start cid (CallInterruptTurn th tu)"
  by (simp_all add: is_start_def)

subsection \<open>The contract\<close>

definition queue_heads :: "queued_message list \<Rightarrow> client_message_id set" where
  "queue_heads q = (case q of [] \<Rightarrow> {} | m # _ \<Rightarrow> {si_client_message_id (qm_input m)})"

definition queue_ordered :: "nat \<Rightarrow> queued_message list \<Rightarrow> bool" where
  "queue_ordered n q \<longleftrightarrow> sorted_wrt (<) (map qm_accepted_seq q) \<and> (\<forall>m \<in> set q. qm_accepted_seq m < n)"

definition harmless :: "('s \<Rightarrow> bool) \<Rightarrow> ('s \<Rightarrow> aview) \<Rightarrow> ('s \<Rightarrow> nat) \<Rightarrow> ('s \<Rightarrow> 'r \<times> 's) \<Rightarrow> bool" where
  "harmless sound view frontier f \<longleftrightarrow>
     (\<forall>s. sound s \<longrightarrow> sound (snd (f s)) \<and> quiet (view s) (view (snd (f s))) \<and> frontier s \<le> frontier (snd (f s)))"

text \<open>
  The invariant of coordinator and store: one prompt in flight at most; where the coordinator
  believes the slot is free, only the head of its queue can be in flight (its dispatch
  committed and the reply was lost); every turn start is paid for by a durable dispatch; the
  queue is in the order of acceptance.
\<close>

definition slot_free :: "room_status \<Rightarrow> turn_binding option \<Rightarrow> bool" where
  "slot_free st ac \<longleftrightarrow> st = RoomReady \<and> ac = None"

definition room_inv ::
  "room_id \<Rightarrow> ('s \<Rightarrow> bool) \<Rightarrow> ('s \<Rightarrow> aview) \<Rightarrow> ('s \<Rightarrow> nat) \<Rightarrow> coordinator \<Rightarrow> 's \<Rightarrow> agent_call list \<Rightarrow> bool" where
  "room_inv rid sound view frontier c s cs \<longleftrightarrow>
     sound s \<and> co_room c = rid
     \<and> (\<forall>x \<in> actives (view s). \<forall>y \<in> actives (view s). x = y)
     \<and> (slot_free (co_status c) (co_active c) \<longrightarrow> actives (view s) \<subseteq> queue_heads (co_queue c))
     \<and> (\<forall>cid. starts cs cid \<le> start_budget (view s) cid)
     \<and> queue_ordered (frontier s) (co_queue c)"

text \<open>Which fields the invariant reads.\<close>

lemma room_inv_cong:
  "co_room c' = co_room c \<Longrightarrow> co_status c' = co_status c \<Longrightarrow> co_active c' = co_active c \<Longrightarrow> co_queue c' = co_queue c \<Longrightarrow>
   room_inv rid sound view frontier c' s cs = room_inv rid sound view frontier c s cs"
  by (simp add: room_inv_def)

lemma room_inv_fields [simp]:
  "room_inv rid sound view frontier (w_co (publish e w)) s cs = room_inv rid sound view frontier (w_co w) s cs"
  "room_inv rid sound view frontier (w_co (publish_all es w)) s cs = room_inv rid sound view frontier (w_co w) s cs"
  "room_inv rid sound view frontier (w_co (publish_status se w)) s cs = room_inv rid sound view frontier (w_co w) s cs"
  "room_inv rid sound view frontier (w_co (with_projection f w)) s cs = room_inv rid sound view frontier (w_co w) s cs"
  "room_inv rid sound view frontier (c\<lparr>co_controls := bs\<rparr>) s cs = room_inv rid sound view frontier c s cs"
  "room_inv rid sound view frontier (c\<lparr>co_question := q\<rparr>) s cs = room_inv rid sound view frontier c s cs"
  "room_inv rid sound view frontier (c\<lparr>co_thread := t\<rparr>) s cs = room_inv rid sound view frontier c s cs"
  "room_inv rid sound view frontier (c\<lparr>co_fault := k\<rparr>) s cs = room_inv rid sound view frontier c s cs"
  "room_inv rid sound view frontier (c\<lparr>co_fatal := er\<rparr>) s cs = room_inv rid sound view frontier c s cs"
  "room_inv rid sound view frontier (c\<lparr>co_thread_ready := b\<rparr>) s cs = room_inv rid sound view frontier c s cs"
  "room_inv rid sound view frontier (c\<lparr>co_ready_seen := b\<rparr>) s cs = room_inv rid sound view frontier c s cs"
  "room_inv rid sound view frontier (c\<lparr>co_creation_uncertain := b\<rparr>) s cs = room_inv rid sound view frontier c s cs"
  "room_inv rid sound view frontier (c\<lparr>co_latest := n\<rparr>) s cs = room_inv rid sound view frontier c s cs"
  "room_inv rid sound view frontier (c\<lparr>co_active := map_option g (co_active c)\<rparr>) s cs = room_inv rid sound view frontier c s cs"
  by (simp_all add: room_inv_def slot_free_def)

lemma room_inv_status:
  "room_inv rid sound view frontier c s cs \<Longrightarrow> st \<noteq> RoomReady \<Longrightarrow>
     room_inv rid sound view frontier (c\<lparr>co_status := st\<rparr>) s cs"
  by (simp add: room_inv_def slot_free_def)

lemma room_inv_active:
  "room_inv rid sound view frontier c s cs \<Longrightarrow> room_inv rid sound view frontier (c\<lparr>co_active := Some b\<rparr>) s cs"
  by (simp add: room_inv_def slot_free_def)

lemma room_inv_call:
  "room_inv rid sound view frontier c s cs \<Longrightarrow> (\<And>cid. \<not> is_start cid x) \<Longrightarrow>
     room_inv rid sound view frontier c s (cs @ [x])"
  by (simp add: room_inv_def)

lemma queue_ordered_mono: "queue_ordered n q \<Longrightarrow> n \<le> n' \<Longrightarrow> queue_ordered n' q"
  by (auto simp: queue_ordered_def)

lemma queue_ordered_tl: "queue_ordered n q \<Longrightarrow> queue_ordered n (tl q)"
  by (cases q) (auto simp: queue_ordered_def)

lemma queue_ordered_snoc:
  "queue_ordered n q \<Longrightarrow> n \<le> qm_accepted_seq m \<Longrightarrow> qm_accepted_seq m < n' \<Longrightarrow> queue_ordered n' (q @ [m])"
  by (fastforce simp: queue_ordered_def sorted_wrt_append)

lemma room_inv_queue:
  assumes "room_inv rid sound view frontier c s cs" "queue_ordered (frontier s) q" "queue_heads (co_queue c) \<subseteq> queue_heads q"
  shows "room_inv rid sound view frontier (c\<lparr>co_queue := q\<rparr>) s cs"
proof -
  have "slot_free (co_status c) (co_active c) \<Longrightarrow> actives (view s) \<subseteq> queue_heads q"
    using assms(1,3) unfolding room_inv_def by (meson subset_trans)
  with assms(1,2) show ?thesis by (simp add: room_inv_def)
qed

lemma room_inv_store:
  assumes "room_inv rid sound view frontier c s cs" "sound s'" "quiet (view s) (view s')" "frontier s \<le> frontier s'"
  shows "room_inv rid sound view frontier c s' cs"
proof -
  have "actives (view s') \<subseteq> actives (view s)" by (rule quiet_actives [OF assms(3)])
  moreover have "start_budget (view s) cid \<le> start_budget (view s') cid" for cid
    by (rule quiet_start_budget [OF assms(3)])
  ultimately show ?thesis
    using assms(1,2,4) unfolding room_inv_def
    by (meson in_mono order.trans queue_ordered_mono subset_trans)
qed

text \<open>A new coordinator on a store with at most one prompt in flight.\<close>

lemma NewCoordinator_Some:
  "NewCoordinator rid root = Some c \<Longrightarrow>
     co_room c = rid \<and> co_status c = RoomOther [] \<and> co_queue c = [] \<and> co_active c = None \<and> co_root c = root"
  by (auto simp: NewCoordinator_def split: if_splits)

lemma room_inv_fresh:
  assumes "NewCoordinator rid root = Some c" "sound s" "\<forall>x \<in> actives (view s). \<forall>y \<in> actives (view s). x = y"
    "\<forall>cid. starts cs cid \<le> start_budget (view s) cid"
  shows "room_inv rid sound view frontier c s cs"
proof -
  have "\<not> slot_free (co_status c) ac" "queue_ordered n (co_queue c)" "co_room c = rid" for ac n
    using NewCoordinator_Some [OF assms(1)] by (auto simp: slot_free_def queue_ordered_def)
  with assms(2-4) show ?thesis unfolding room_inv_def by blast
qed

text \<open>Taking the next message off the queue, once the slot is known to be empty.\<close>

lemma room_inv_free:
  "room_inv rid sound view frontier c s cs \<Longrightarrow> actives (view s) = {} \<Longrightarrow> queue_ordered (frontier s) q \<Longrightarrow>
     room_inv rid sound view frontier (c\<lparr>co_active := None, co_queue := q\<rparr>) s cs"
  by (simp add: room_inv_def)

lemma room_inv_ready:
  "room_inv rid sound view frontier c s cs \<Longrightarrow> (co_active c = None \<Longrightarrow> actives (view s) = {}) \<Longrightarrow>
     room_inv rid sound view frontier (c\<lparr>co_status := st\<rparr>) s cs"
  by (auto simp: room_inv_def slot_free_def)

locale room_repository =
  fixes R :: "'s repository" and rid :: room_id and sound :: "'s \<Rightarrow> bool" and view :: "'s \<Rightarrow> aview"
    and frontier :: "'s \<Rightarrow> nat"
  assumes quiet_ops:
    "harmless sound view frontier (rp_LoadRecoveryImage R rid)"
    "harmless sound view frontier (rp_AcceptMessage R rid a si)"
    "harmless sound view frontier (rp_AppendNote R rid a si)"
    "harmless sound view frontier (rp_AcceptControl R rid a ci)"
    "harmless sound view frontier (rp_FinishControl R rid cid oc)"
    "harmless sound view frontier (rp_FailDispatch R rid cid oc)"
    "harmless sound view frontier (rp_BindRunningTurn R rid cid turn)"
    "harmless sound view frontier (rp_RecordCompletedItem R rid item)"
    "harmless sound view frontier (rp_FinishTurn R rid fi)"
    "harmless sound view frontier (rp_MarkNeedsReview R rid cid re)"
    "harmless sound view frontier (rp_ResolveReview R rid a ri)"
    "harmless sound view frontier (rp_BindThread R rid th)"
    "harmless sound view frontier (rp_MarkThreadNeedsRepair R rid re)"
    "harmless sound view frontier (rp_SetRoomStatus R rid st)"
    "harmless sound view frontier (rp_LatestSeq R rid)"
    and journal_ops: "rp_journal R = Some j \<Longrightarrow>
      harmless sound view frontier (jn_BeginPrivateTurn j rid t ts)
      \<and> harmless sound view frontier (jn_EndPrivateTurn j rid t ts)
      \<and> harmless sound view frontier (jn_PrivateTurns j rid t tss)"
    and begin_ok: "sound s \<Longrightarrow> rp_BeginDispatch R rid cid s = (Inr u, s') \<Longrightarrow> astep (LDispatch cid) (view s) (view s')"
    and begin_err: "sound s \<Longrightarrow> rp_BeginDispatch R rid cid s = (Inl e, s') \<Longrightarrow>
      view s' = view s \<or> astep (LDispatch cid) (view s) (view s')"
    and begin_wf: "sound s \<Longrightarrow> rp_BeginDispatch R rid cid s = (r, s') \<Longrightarrow> sound s' \<and> frontier s \<le> frontier s'"
    and fail_ok: "sound s \<Longrightarrow> rp_FailDispatch R rid cid oc s = (Inr ev, s') \<Longrightarrow> oc_state oc = RequestFailed \<Longrightarrow>
      astep (LFail cid RequestFailed) (view s) (view s')"
    and finish_ok: "sound s \<Longrightarrow> rp_FinishTurn R rid fi s = (Inr evs, s') \<Longrightarrow>
      \<exists>cid st. astep (LFinish cid st) (view s) (view s')"
    and load_ok: "sound s \<Longrightarrow> rp_LoadRecoveryImage R rid s = (Inr img, s') \<Longrightarrow>
      (im_active img = None \<longrightarrow> actives (view s') = {}) \<and> queue_ordered (frontier s') (im_queue img)"
    and accept_ok: "sound s \<Longrightarrow> rp_AcceptMessage R rid a si s = (Inr ac, s') \<Longrightarrow> \<not> ac_duplicate ac \<Longrightarrow>
      frontier s \<le> ac_seq ac \<and> ac_seq ac < frontier s'"
begin

definition ok :: "'s world \<Rightarrow> bool" where
  "ok w \<longleftrightarrow> room_inv rid sound view frontier (w_co w) (w_store w) (w_calls w)"

text \<open>In addition, once the state was loaded: no active binding means nothing is in flight.\<close>

definition calm :: "'s world \<Rightarrow> bool" where
  "calm w \<longleftrightarrow> ok w \<and> (co_active (w_co w) = None \<longrightarrow> actives (view (w_store w)) = {})"

lemma calm_ok: "calm w \<Longrightarrow> ok w"
  by (simp add: calm_def)

lemma ok_room: "ok w \<Longrightarrow> co_room (w_co w) = rid"
  by (simp add: ok_def room_inv_def)

lemma calm_room: "calm w \<Longrightarrow> co_room (w_co w) = rid"
  by (simp add: calm_def ok_room)

subsubsection \<open>Primitive effects\<close>

lemma ok_publish [simp]:
  "ok (publish e w) = ok w" "ok (publish_all es w) = ok w" "ok (publish_status se w) = ok w"
  "ok (with_projection f w) = ok w" "ok (resetProjection w) = ok w" "ok (apply_projection ev w) = ok w"
  "ok (review_active w) = ok w" "ok (answer cid r w) = ok w" "ok (refuse q er w) = ok w"
  by (simp_all add: ok_def resetProjection_def apply_projection_def review_active_def answer_def refuse_def)

lemma calm_publish [simp]:
  "calm (publish e w) = calm w" "calm (publish_all es w) = calm w" "calm (publish_status se w) = calm w"
  "calm (with_projection f w) = calm w"
  unfolding calm_def ok_publish by simp_all

lemma calm_effects [simp]:
  "calm (resetProjection w) = calm w" "calm (apply_projection ev w) = calm w"
  unfolding resetProjection_def apply_projection_def by (rule calm_publish)+

lemma calm_review_active [simp]: "calm (review_active w) = calm w"
  unfolding calm_def ok_publish by simp

lemma ok_on_co [simp]:
  "(\<And>c. co_room (f c) = co_room c \<and> co_status (f c) = co_status c \<and> co_active (f c) = co_active c \<and> co_queue (f c) = co_queue c)
     \<Longrightarrow> ok (on_co f w) = ok w"
  unfolding ok_def on_co_simps by (rule room_inv_cong) blast+

lemma calm_on_co [simp]:
  "(\<And>c. co_room (f c) = co_room c \<and> co_status (f c) = co_status c \<and> co_active (f c) = co_active c \<and> co_queue (f c) = co_queue c)
     \<Longrightarrow> calm (on_co f w) = calm w"
  by (simp add: calm_def)

lemma ok_freeze [simp]: "ok w \<Longrightarrow> st \<noteq> RoomReady \<Longrightarrow> ok (freeze st w)"
  by (simp add: ok_def freeze_def room_inv_status)

lemma calm_freeze [simp]: "calm w \<Longrightarrow> calm (freeze st w)"
  by (auto simp: calm_def ok_def freeze_def intro: room_inv_ready)

lemma ok_failPersistence [simp]: "ok w \<Longrightarrow> ok (failPersistence e w)"
  by (simp add: ok_def failPersistence_def room_inv_status)

lemma ok_call [simp]: "cs = w_calls w \<Longrightarrow> (\<And>cid. \<not> is_start cid x) \<Longrightarrow> ok (w\<lparr>w_calls := cs @ [x]\<rparr>) = ok w"
  by (simp add: ok_def room_inv_def)

lemma calm_call [simp]: "cs = w_calls w \<Longrightarrow> (\<And>cid. \<not> is_start cid x) \<Longrightarrow> calm (w\<lparr>w_calls := cs @ [x]\<rparr>) = calm w"
  by (simp add: calm_def)

subsubsection \<open>Repository calls\<close>

lemma repo_ok:
  assumes "ok w" "harmless sound view frontier f" "repo f w = (r, w1)"
  shows "ok w1 \<and> w_co w1 = w_co w \<and> w_calls w1 = w_calls w \<and> f (w_store w) = (r, w_store w1)"
proof -
  from assms(3) have f: "f (w_store w) = (r, w_store w1)" and w1: "w1 = w\<lparr>w_store := w_store w1\<rparr>"
    by (simp_all add: repo_Pair)
  have eq: "w_co w1 = w_co w \<and> w_calls w1 = w_calls w"
    by (subst w1, subst (2) w1) simp
  have "sound (w_store w)" using assms(1) by (simp add: ok_def room_inv_def)
  with assms(2) f have "sound (w_store w1)" "quiet (view (w_store w)) (view (w_store w1))" "frontier (w_store w) \<le> frontier (w_store w1)"
    unfolding harmless_def by (metis snd_conv)+
  with assms(1) eq f show ?thesis
    by (simp add: ok_def room_inv_store)
qed

lemma repo_calm:
  assumes "calm w" "harmless sound view frontier f" "repo f w = (r, w1)"
  shows "calm w1 \<and> w_co w1 = w_co w \<and> w_calls w1 = w_calls w \<and> f (w_store w) = (r, w_store w1)"
proof -
  from repo_ok [OF calm_ok [OF assms(1)] assms(2,3)] have 1: "ok w1" "w_co w1 = w_co w" "w_calls w1 = w_calls w" "f (w_store w) = (r, w_store w1)"
    by auto
  have "sound (w_store w)" using assms(1) by (simp add: calm_def ok_def room_inv_def)
  with assms(2) 1(4) have "quiet (view (w_store w)) (view (w_store w1))"
    unfolding harmless_def by (metis snd_conv)
  from quiet_actives [OF this] have "actives (view (w_store w)) = {} \<Longrightarrow> actives (view (w_store w1)) = {}"
    by blast
  then have "calm w1"
    using assms(1) 1(1,2) unfolding calm_def by metis
  with 1 show ?thesis by blast
qed

lemma repo_okI:
  assumes "ok w" "harmless sound view frontier f"
    and "\<And>e w1. ok w1 \<Longrightarrow> w_co w1 = w_co w \<Longrightarrow> ok (snd (A e w1))"
    and "\<And>x w1. ok w1 \<Longrightarrow> w_co w1 = w_co w \<Longrightarrow> ok (snd (B x w1))"
  shows "ok (snd (case repo f w of (Inl e, w1) \<Rightarrow> A e w1 | (Inr x, w1) \<Rightarrow> B x w1))"
proof (cases "repo f w")
  case (Pair r w1)
  from repo_ok [OF assms(1,2) Pair] have w1: "ok w1" "w_co w1 = w_co w" by simp_all
  show ?thesis
    using assms(3) [OF w1] assms(4) [OF w1] by (cases r) (simp_all add: Pair)
qed

lemma repo_okW:
  assumes "ok w" "harmless sound view frontier f"
    and "\<And>e w1. ok w1 \<Longrightarrow> w_co w1 = w_co w \<Longrightarrow> ok (A e w1)"
    and "\<And>x w1. ok w1 \<Longrightarrow> w_co w1 = w_co w \<Longrightarrow> ok (B x w1)"
  shows "ok (case repo f w of (Inl e, w1) \<Rightarrow> A e w1 | (Inr x, w1) \<Rightarrow> B x w1)"
proof (cases "repo f w")
  case (Pair r w1)
  from repo_ok [OF assms(1,2) Pair] have w1: "ok w1" "w_co w1 = w_co w" by simp_all
  show ?thesis
    using assms(3) [OF w1] assms(4) [OF w1] by (cases r) (simp_all add: Pair)
qed

lemma repo_calmI:
  assumes "calm w" "harmless sound view frontier f"
    and "\<And>e w1. calm w1 \<Longrightarrow> w_co w1 = w_co w \<Longrightarrow> calm (snd (A e w1))"
    and "\<And>x w1. calm w1 \<Longrightarrow> w_co w1 = w_co w \<Longrightarrow> calm (snd (B x w1))"
  shows "calm (snd (case repo f w of (Inl e, w1) \<Rightarrow> A e w1 | (Inr x, w1) \<Rightarrow> B x w1))"
proof (cases "repo f w")
  case (Pair r w1)
  from repo_calm [OF assms(1,2) Pair] have w1: "calm w1" "w_co w1 = w_co w" by simp_all
  show ?thesis
    using assms(3) [OF w1] assms(4) [OF w1] by (cases r) (simp_all add: Pair)
qed

lemma repo_calmW:
  assumes "calm w" "harmless sound view frontier f"
    and "\<And>e w1. calm w1 \<Longrightarrow> w_co w1 = w_co w \<Longrightarrow> calm (A e w1)"
    and "\<And>x w1. calm w1 \<Longrightarrow> w_co w1 = w_co w \<Longrightarrow> calm (B x w1)"
  shows "calm (case repo f w of (Inl e, w1) \<Rightarrow> A e w1 | (Inr x, w1) \<Rightarrow> B x w1)"
proof (cases "repo f w")
  case (Pair r w1)
  from repo_calm [OF assms(1,2) Pair] have w1: "calm w1" "w_co w1 = w_co w" by simp_all
  show ?thesis
    using assms(3) [OF w1] assms(4) [OF w1] by (cases r) (simp_all add: Pair)
qed

subsubsection \<open>Controls\<close>

lemma finishControl_ok: "ok w \<Longrightarrow> ok (snd (finishControl R got oc e w))"
  unfolding finishControl_def by (rule repo_okI) (auto simp: quiet_ops ok_room)

lemma send_control_ok: "ok w \<Longrightarrow> ok (snd (send_control A i w))"
  by (simp add: send_control_def Let_def)

text \<open>Rules for the branches of the code, which the proofs below follow.\<close>

lemma ok_if: "(b \<Longrightarrow> ok (snd x)) \<Longrightarrow> (\<not> b \<Longrightarrow> ok (snd y)) \<Longrightarrow> ok (snd (if b then x else y))"
  by simp

lemma ok_option: "ok (snd p) \<Longrightarrow> (\<And>w. ok w \<Longrightarrow> ok (snd (A w))) \<Longrightarrow> (\<And>x w. ok w \<Longrightarrow> ok (snd (B x w))) \<Longrightarrow>
     ok (snd (case p of (None, w) \<Rightarrow> A w | (Some x, w) \<Rightarrow> B x w))"
  by (cases p) (auto split: option.splits)

lemma ok_sum: "ok (snd p) \<Longrightarrow> (\<And>x w. ok w \<Longrightarrow> ok (snd (A x w))) \<Longrightarrow> (\<And>x w. ok w \<Longrightarrow> ok (snd (B x w))) \<Longrightarrow>
     ok (snd (case p of (Inl x, w) \<Rightarrow> A x w | (Inr x, w) \<Rightarrow> B x w))"
  by (cases p) (auto split: sum.splits)

lemma ok_prod: "(\<And>x y. p = (x, y) \<Longrightarrow> ok (snd (f x y))) \<Longrightarrow> ok (snd (case p of (x, y) \<Rightarrow> f x y))"
  by (cases p) simp

lemma ok_prod_world: "ok (snd p) \<Longrightarrow> (\<And>x w. ok w \<Longrightarrow> ok (snd (f x w))) \<Longrightarrow> ok (snd (case p of (x, w) \<Rightarrow> f x w))"
  by (cases p) simp

lemma ok_option_value: "(x = None \<Longrightarrow> ok (snd a)) \<Longrightarrow> (\<And>y. x = Some y \<Longrightarrow> ok (snd (b y))) \<Longrightarrow>
     ok (snd (case x of None \<Rightarrow> a | Some y \<Rightarrow> b y))"
  by (cases x) auto

lemma ok_if_world: "(b \<Longrightarrow> ok x) \<Longrightarrow> (\<not> b \<Longrightarrow> ok y) \<Longrightarrow> ok (if b then x else y)"
  by simp

lemma ok_option_world: "(x = None \<Longrightarrow> ok a) \<Longrightarrow> (\<And>y. x = Some y \<Longrightarrow> ok (b y)) \<Longrightarrow>
     ok (case x of None \<Rightarrow> a | Some y \<Rightarrow> b y)"
  by (cases x) auto

lemma ok_sum_world: "ok (snd p) \<Longrightarrow> (\<And>x w. ok w \<Longrightarrow> ok (A x w)) \<Longrightarrow> (\<And>x w. ok w \<Longrightarrow> ok (B x w)) \<Longrightarrow>
     ok (case p of (Inl x, w) \<Rightarrow> A x w | (Inr x, w) \<Rightarrow> B x w)"
  by (cases p) (auto split: sum.splits)

lemmas ok_branches = repo_okI ok_if ok_option ok_sum ok_prod_world ok_prod ok_option_value

lemmas ok_branches_world = repo_okW ok_if_world ok_sum_world ok_option_world

lemma handleControl_ok: "ok w \<Longrightarrow> ok (snd (handleControl R A a i w))"
  unfolding handleControl_def Let_def
  by (rule ok_branches | (auto simp: quiet_ops ok_room finishControl_ok send_control_ok; fail))+

subsubsection \<open>Dispatch\<close>

lemma set_active_ok [simp]: "ok w \<Longrightarrow> ok (set_active (Some b) w)"
  by (simp add: ok_def set_active_def room_inv_active)

lemma calm_set_active [simp]: "calm w \<Longrightarrow> calm (set_active (Some b) w)"
  by (simp add: calm_def)

lemma ok_pop:
  assumes "ok w" "co_active (w_co w) \<noteq> None" "q = tl (co_queue (w_co w))"
  shows "ok (set_queue q w)"
proof -
  from assms(2) have "\<not> slot_free st (co_active (w_co w))" for st by (simp add: slot_free_def)
  with assms(1,3) show ?thesis
    unfolding ok_def set_queue_def on_co_simps room_inv_def by (simp add: queue_ordered_tl)
qed

lemma dispatch_unknown_ok:
  "ok w \<Longrightarrow> co_active (w_co w) \<noteq> None \<Longrightarrow> rest = tl (co_queue (w_co w)) \<Longrightarrow>
     ok (snd (dispatch_unknown R cid rest code digest w))"
  unfolding dispatch_unknown_def Let_def
  by (rule ok_branches | (auto simp: quiet_ops ok_room intro!: set_active_ok ok_pop; fail))+

lemma dispatch_bind_ok:
  "ok w \<Longrightarrow> co_active (w_co w) \<noteq> None \<Longrightarrow> rest = tl (co_queue (w_co w)) \<Longrightarrow>
     ok (snd (dispatch_bind R cid rest turn w))"
  unfolding dispatch_bind_def
  by (rule ok_branches | (auto simp: quiet_ops ok_room intro!: set_active_ok ok_pop; fail))+

text \<open>A dispatch that commits finds the slot empty, and pays for one turn start.\<close>

lemma begin_dispatch_ok:
  assumes "ok w" "may_dispatch (w_co w)" "cid = si_client_message_id (qm_input (hd (co_queue (w_co w))))"
    and run: "repo (rp_BeginDispatch R rid cid) w = (r, w1)"
  shows "ok w1 \<and> w_co w1 = w_co w \<and> w_calls w1 = w_calls w \<and>
     (\<forall>u. r = Inr u \<longrightarrow> starts (w_calls w) cid < start_budget (view (w_store w1)) cid)"
proof -
  let ?v = "view (w_store w)" and ?v1 = "view (w_store w1)"
  from run have f: "rp_BeginDispatch R rid cid (w_store w) = (r, w_store w1)" and w1: "w1 = w\<lparr>w_store := w_store w1\<rparr>"
    by (simp_all add: repo_Pair)
  have eq: "w_co w1 = w_co w" "w_calls w1 = w_calls w"
    by (subst w1, simp)+
  from assms(1) have inv: "sound (w_store w)" "actives ?v \<subseteq> queue_heads (co_queue (w_co w))"
      "\<forall>c. starts (w_calls w) c \<le> start_budget ?v c"
      "queue_ordered (frontier (w_store w)) (co_queue (w_co w))" "co_room (w_co w) = rid"
    using assms(2) by (auto simp: ok_def room_inv_def may_dispatch_def slot_free_def)
  have heads: "queue_heads (co_queue (w_co w)) = {cid}"
    using assms(2,3) by (cases "co_queue (w_co w)") (auto simp: may_dispatch_def queue_heads_def)
  note bwf = begin_wf [OF inv(1) f]
  from inv(4) bwf have q: "queue_ordered (frontier (w_store w1)) (co_queue (w_co w))"
    by (blast intro: queue_ordered_mono)
  have dispatched: "actives ?v1 = {cid}" "starts (w_calls w) c + (if c = cid then 1 else 0) \<le> start_budget ?v1 c"
    if "astep (LDispatch cid) ?v ?v1" for c
    using dispatch_actives [OF that] dispatch_start_budget [OF that] inv(2,3) heads by auto
  consider "?v1 = ?v" "\<not> (\<exists>u. r = Inr u)" | "astep (LDispatch cid) ?v ?v1"
    using begin_ok [OF inv(1)] begin_err [OF inv(1)] f by (cases r) blast+
  then show ?thesis
  proof cases
    case 1
    with assms(1) bwf q inv(5) eq show ?thesis
      by (auto simp: ok_def room_inv_def)
  next
    case 2
    have "starts (w_calls w) c \<le> start_budget ?v1 c" for c
      using dispatched(2) [OF 2, of c] by (simp split: if_splits)
    moreover have "starts (w_calls w) cid < start_budget ?v1 cid"
      using dispatched(2) [OF 2, of cid] by simp
    ultimately show ?thesis
      using dispatched(1) [OF 2] bwf q inv(5) eq heads by (auto simp: ok_def room_inv_def)
  qed
qed

lemma start_turn_ok:
  assumes "ok w" "starts (w_calls w) (si_client_message_id (qm_input m)) < start_budget (view (w_store w)) (si_client_message_id (qm_input m))"
  shows "ok (snd (start_turn A th m w))"
proof -
  have "starts (w_calls w @ [CallStartTurn th (si_client_message_id (qm_input m)) t]) c \<le> start_budget (view (w_store w)) c" for c t
    using assms by (auto simp: ok_def room_inv_def Suc_le_eq)
  with assms(1) show ?thesis
    unfolding start_turn_def Let_def call_agent_simps ok_def room_inv_def by simp
qed

text \<open>Ending the prompt in flight empties the slot.\<close>

lemma actives_after_end:
  assumes "astep l v v'" "l = LFail cid RequestFailed \<or> (\<exists>st. l = LFinish cid st)"
  shows "actives v' = actives v - {cid} \<and> cid \<in> actives v"
  using assms
  by (auto elim!: astepE simp: actives_def active_state_def isTerminal_def split: if_splits)

lemma fail_dispatch_empties:
  assumes "ok w" "repo (rp_FailDispatch R rid cid oc) w = (Inr ev, w1)" "oc_state oc = RequestFailed"
  shows "actives (view (w_store w1)) = {}"
proof -
  have u: "\<forall>x \<in> actives (view (w_store w)). \<forall>y \<in> actives (view (w_store w)). x = y" and "sound (w_store w)"
    using assms(1) by (auto simp: ok_def room_inv_def)
  with fail_ok [of "w_store w" cid oc ev "w_store w1"] assms(2,3)
  have "astep (LFail cid RequestFailed) (view (w_store w)) (view (w_store w1))" by (simp add: repo_Pair)
  from actives_after_end [OF this] u show ?thesis by blast
qed

lemma finish_turn_empties:
  assumes "ok w" "repo (rp_FinishTurn R rid fi) w = (Inr evs, w1)"
  shows "actives (view (w_store w1)) = {}"
proof -
  have u: "\<forall>x \<in> actives (view (w_store w)). \<forall>y \<in> actives (view (w_store w)). x = y" and "sound (w_store w)"
    using assms(1) by (auto simp: ok_def room_inv_def)
  with finish_ok [of "w_store w" fi evs "w_store w1"] assms(2)
  obtain cid st where "astep (LFinish cid st) (view (w_store w)) (view (w_store w1))" by (auto simp: repo_Pair)
  from actives_after_end [OF this] u show ?thesis by blast
qed

lemma ok_free:
  "ok w \<Longrightarrow> actives (view (w_store w)) = {} \<Longrightarrow> q = tl (co_queue (w_co w)) \<or> q = co_queue (w_co w) \<Longrightarrow>
     ok (set_active None (set_queue q w))"
  unfolding ok_def set_queue_def set_active_def on_co_simps room_inv_def
  by (auto simp: queue_ordered_tl)

lemma calm_free: "ok w \<Longrightarrow> actives (view (w_store w)) = {} \<Longrightarrow> calm (set_active None w)"
  unfolding calm_def ok_def set_active_def on_co_simps room_inv_def by simp

lemma dispatchNext_ok: "ok w \<Longrightarrow> ok (snd (dispatchNext R A w))"
proof (induction R\<equiv>R A w rule: dispatchNext.induct)
  case (1 A w)
  let ?m = "hd (co_queue (w_co w))" let ?cid = "si_client_message_id (qm_input ?m)" let ?rest = "tl (co_queue (w_co w))"
  show ?case
  proof (cases "may_dispatch (w_co w)")
    case False
    with 1(2) show ?thesis by (simp add: dispatchNext.simps)
  next
    case True
    obtain r w1 where b: "repo (rp_BeginDispatch R rid ?cid) w = (r, w1)" by fastforce
    note ok1 = begin_dispatch_ok [OF 1(2) True refl b]
    show ?thesis
    proof (cases r)
      case (Inl e)
      with b ok1 ok_room [OF 1(2)] True show ?thesis by (simp add: dispatchNext.simps Let_def)
    next
      case (Inr u)
      define w2 where "w2 = set_active (Some \<lparr>tb_message_id = ?cid, tb_turn_id = [], tb_state = RequestDispatching\<rparr>) w1"
      obtain sr w3 where st: "start_turn A (co_thread (w_co w)) ?m w2 = (sr, w3)" by fastforce
      have "ok w2" "starts (w_calls w2) ?cid < start_budget (view (w_store w2)) ?cid"
        using ok1 Inr by (auto simp: w2_def)
      from start_turn_ok [OF this, of A "co_thread (w_co w)"] st have ok3: "ok w3" by simp
      have co3: "w_co w3 = w_co w2" "co_active (w_co w2) \<noteq> None" "co_queue (w_co w2) = co_queue (w_co w)"
        using st ok1 by (auto simp: w2_def start_turn_def Let_def call_agent_Pair)
      note unfolded = dispatchNext.simps [of R A w] True b Inr Let_def ok_room [OF 1(2)] w2_def [symmetric] st
      show ?thesis
      proof (cases sr)
        case (Inr turn)
        with ok3 co3 show ?thesis
          by (simp add: unfolded dispatch_bind_ok)
      next
        case (Inl ae)
        obtain code digest certainty where mf: "mutationFailure ae = (code, digest, certainty)" by (cases "mutationFailure ae")
        show ?thesis
        proof (cases "certainty = DeliveryNotSent")
          case False
          with Inl mf ok3 co3 show ?thesis by (simp add: unfolded dispatch_unknown_ok)
        next
          case sent: True
          let ?oc = "\<lparr>oc_state = RequestFailed, oc_error_code = code, oc_error_digest = digest\<rparr>"
          obtain fr w4 where fd: "repo (rp_FailDispatch R rid ?cid ?oc) w3 = (fr, w4)" by fastforce
          note ok4 = repo_ok [OF ok3 quiet_ops(6) fd]
          show ?thesis
          proof (cases fr)
            case failed: (Inl e)
            with Inl mf sent fd ok4 show ?thesis by (simp add: unfolded)
          next
            case (Inr ev)
            define w5 where "w5 = set_active None (set_queue ?rest (publish ev w4))"
            have "ok w5"
              unfolding w5_def using fail_dispatch_empties [OF ok3, of ?cid ?oc ev w4] fd Inr ok4 co3
              by (intro ok_free) auto
            then have "ok (snd (dispatchNext R A w5))"
              using 1(1) b fd st Inl mf sent Inr ok_room [OF 1(2)] True \<open>r = Inr u\<close>
              by (simp add: w5_def w2_def)
            with Inl mf sent fd Inr show ?thesis
              by (simp add: unfolded w5_def)
          qed
        qed
      qed
    qed
  qed
qed

lemma ok_enqueue:
  assumes "ok w" "queue_ordered (frontier (w_store w)) (co_queue (w_co w) @ [m])"
  shows "ok (set_queue (co_queue (w_co w) @ [m]) w)"
proof -
  have "queue_heads (co_queue (w_co w)) \<subseteq> queue_heads (co_queue (w_co w) @ [m])"
    by (cases "co_queue (w_co w)") (auto simp: queue_heads_def)
  with assms show ?thesis
    unfolding ok_def set_queue_def on_co_simps by (intro room_inv_queue)
qed

lemma handleSubmit_ok:
  assumes "ok w"
  shows "ok (snd (handleSubmit R A a i note w))"
proof (cases "note")
  case True
  with assms show ?thesis
    unfolding handleSubmit_def Let_def
    by (simp, intro repo_okI) (auto simp: quiet_ops ok_room)
next
  case False
  let ?v = "case ag_ValidateSubmission A of Some v \<Rightarrow> v i | None \<Rightarrow> None"
  obtain r w1 where acc: "repo (rp_AcceptMessage R rid a i) w = (r, w1)" by fastforce
  note 1 = repo_ok [OF assms quiet_ops(2) acc]
  show ?thesis
  proof (cases "?v = None \<and> (\<exists>got. r = Inr got \<and> \<not> ac_duplicate got)")
    case False
    with \<open>\<not> note\<close> 1 acc assms ok_room [OF assms] show ?thesis
      by (auto simp: handleSubmit_def Let_def split: option.splits sum.splits)
  next
    case True
    then obtain got where got: "r = Inr got" "\<not> ac_duplicate got" and v: "?v = None" by auto
    let ?m = "\<lparr>qm_input = i, qm_actor = a, qm_accepted_seq = ac_seq got\<rparr>"
    let ?w2 = "publish (ac_event got) w1"
    have "sound (w_store w)" "queue_ordered (frontier (w_store w)) (co_queue (w_co w))"
      using assms by (auto simp: ok_def room_inv_def)
    with accept_ok [of "w_store w" a i got "w_store w1"] 1 got
    have q: "queue_ordered (frontier (w_store w1)) (co_queue (w_co w) @ [?m])"
      by (intro queue_ordered_snoc) auto
    with 1 have "ok (set_queue (co_queue (w_co ?w2) @ [?m]) ?w2)"
      by (intro ok_enqueue) simp_all
    note d = dispatchNext_ok [OF this, of A]
    obtain e w3 where "dispatchNext R A (set_queue (co_queue (w_co ?w2) @ [?m]) ?w2) = (e, w3)" by fastforce
    with d show ?thesis
      using \<open>\<not> note\<close> acc got v ok_room [OF assms]
      by (simp add: handleSubmit_def Let_def)
  qed
qed

subsubsection \<open>Recovery\<close>

lemma calm_if: "(b \<Longrightarrow> calm (snd x)) \<Longrightarrow> (\<not> b \<Longrightarrow> calm (snd y)) \<Longrightarrow> calm (snd (if b then x else y))"
  by simp

lemma calm_option: "calm (snd p) \<Longrightarrow> (\<And>w. calm w \<Longrightarrow> calm (snd (A w))) \<Longrightarrow> (\<And>x w. calm w \<Longrightarrow> calm (snd (B x w))) \<Longrightarrow>
     calm (snd (case p of (None, w) \<Rightarrow> A w | (Some x, w) \<Rightarrow> B x w))"
  by (cases p) (auto split: option.splits)

lemma calm_sum: "calm (snd p) \<Longrightarrow> (\<And>x w. calm w \<Longrightarrow> calm (snd (A x w))) \<Longrightarrow> (\<And>x w. calm w \<Longrightarrow> calm (snd (B x w))) \<Longrightarrow>
     calm (snd (case p of (Inl x, w) \<Rightarrow> A x w | (Inr x, w) \<Rightarrow> B x w))"
  by (cases p) (auto split: sum.splits)

lemma calm_option_value: "(x = None \<Longrightarrow> calm (snd a)) \<Longrightarrow> (\<And>y. x = Some y \<Longrightarrow> calm (snd (b y))) \<Longrightarrow>
     calm (snd (case x of None \<Rightarrow> a | Some y \<Rightarrow> b y))"
  by (cases x) auto

lemmas calm_branches = repo_calmI calm_if calm_option calm_sum calm_option_value

lemma loadRecovery_calm:
  assumes "ok w" "loadRecovery R w = (r, w1)"
  shows "ok w1 \<and> (calm w \<or> (\<exists>img. r = Inr img) \<longrightarrow> calm w1)"
proof -
  note room = ok_room [OF assms(1)]
  obtain r1 w2 where l: "repo (rp_LoadRecoveryImage R rid) w = (r1, w2)" by fastforce
  note 1 = repo_ok [OF assms(1) quiet_ops(1) l]
  show ?thesis
  proof (cases r1)
    case (Inl e)
    with l assms room 1 repo_calm [OF _ quiet_ops(1) l] show ?thesis
      by (auto simp: loadRecovery_def)
  next
    case (Inr img)
    obtain r2 w3 where l2: "repo (rp_LatestSeq R rid) w2 = (r2, w3)" by fastforce
    from 1 have ok2: "ok w2" by simp
    note 2 = repo_ok [OF ok2 quiet_ops(15) l2]
    show ?thesis
    proof (cases r2)
      case (Inl e)
      with l l2 assms room 1 2 \<open>r1 = Inr img\<close> repo_calm [OF _ quiet_ops(1) l] repo_calm [OF _ quiet_ops(15) l2] show ?thesis
        by (auto simp: loadRecovery_def)
    next
      case (Inr latest)
      have "sound (w_store w)" using assms(1) by (simp add: ok_def room_inv_def)
      with load_ok [of "w_store w" img "w_store w2"] 1 \<open>r1 = Inr img\<close>
      have img: "im_active img = None \<longrightarrow> actives (view (w_store w2)) = {}" "queue_ordered (frontier (w_store w2)) (im_queue img)"
        by auto
      have "sound (w_store w2)" using ok2 by (simp add: ok_def room_inv_def)
      with quiet_ops(15) 2 have "quiet (view (w_store w2)) (view (w_store w3))" "frontier (w_store w2) \<le> frontier (w_store w3)"
        unfolding harmless_def by (metis snd_conv)+
      with img quiet_actives have img3: "im_active img = None \<longrightarrow> actives (view (w_store w3)) = {}"
          "queue_ordered (frontier (w_store w3)) (im_queue img)"
        by (blast, blast intro: queue_ordered_mono)
      have w1: "w1 = on_co (\<lambda>c. c\<lparr>co_status := RoomRecovering, co_thread := im_thread_id img,
                  co_active := im_active img, co_controls := im_pending_controls img,
                  co_queue := im_queue img, co_latest := max latest (co_latest c)\<rparr>) w3"
        using assms(2) l l2 room \<open>r1 = Inr img\<close> \<open>r2 = Inr latest\<close> 1 by (simp add: loadRecovery_def)
      have "ok w1"
        using 2 img3 unfolding w1 ok_def on_co_simps room_inv_def by (auto simp: slot_free_def)
      with img3 show ?thesis by (simp add: calm_def w1)
    qed
  qed
qed

lemma setStatus_calm: "calm w \<Longrightarrow> calm (snd (setStatus R st w))"
  unfolding setStatus_def by (rule calm_branches | (auto simp: quiet_ops calm_room; fail))+

lemma setStatus_ok: "ok w \<Longrightarrow> st \<noteq> RoomReady \<Longrightarrow> ok (snd (setStatus R st w))"
  unfolding setStatus_def by (rule ok_branches | (auto simp: quiet_ops ok_room; fail))+

lemma calm_uncertain [simp]: "calm (on_co (\<lambda>c. c\<lparr>co_creation_uncertain := b, co_status := st\<rparr>) w) = calm (freeze st w)"
  unfolding calm_def ok_def freeze_def on_co_simps room_inv_def by simp

lemma markThreadRepair_calm: "calm w \<Longrightarrow> calm (markThreadRepair R code text w)"
  unfolding markThreadRepair_def Let_def
  by (rule repo_calmW) (auto simp: quiet_ops calm_room)

lemma record_items_calm: "calm w \<Longrightarrow> calm (snd (record_items R turn t items w))"
proof (induction items arbitrary: w)
  case (Cons i items)
  show ?case
    unfolding record_items.simps Let_def
    by (rule calm_branches | (auto simp: quiet_ops calm_room Cons; fail))+
qed simp

lemma reconcile_turns_calm: "calm w \<Longrightarrow> calm (snd (reconcile_turns R hidden t turns w))"
proof (induction turns arbitrary: w t)
  case (Cons turn turns)
  show ?case
    unfolding reconcile_turns.simps
    by (rule calm_branches | (auto simp: Cons record_items_calm markThreadRepair_calm; fail))+
qed simp

lemma reconcile_active_calm:
  assumes "calm w"
  shows "calm (snd (reconcile_active R t w))"
proof -
  have fin: "calm (set_active None (with_projection f (publish_all evs w1)))"
    if "repo (rp_FinishTurn R rid fi) w = (Inr evs, w1)" for fi evs w1 f
    using repo_ok [OF calm_ok [OF assms] quiet_ops(9) that] finish_turn_empties [OF calm_ok [OF assms] that]
    by (intro calm_free) auto
  have other: "calm w1" if "repo (rp_FinishTurn R rid fi) w = (r, w1)" for fi r w1
    using repo_calm [OF assms quiet_ops(9) that] by simp
  show ?thesis
  proof (cases "co_active (w_co w)")
    case None
    with assms show ?thesis by (simp add: reconcile_active_def Let_def)
  next
    case (Some b)
    show ?thesis
    proof (cases t)
      case None
      with Some assms show ?thesis
        unfolding reconcile_active_def Let_def
        by simp (rule impI, rule repo_calmI, auto simp: quiet_ops calm_room)
    next
      case st: (Some st)
      with Some fin other calm_room [OF assms] show ?thesis
        by (auto simp: reconcile_active_def Let_def split: prod.splits sum.splits)
    qed
  qed
qed

lemma reconcileHistory_calm:
  assumes "calm w"
  shows "calm (snd (reconcileHistory R hs w))"
proof -
  let ?j = "case rp_journal R of None \<Rightarrow> (Inr [], w)
     | Some j \<Rightarrow> repo (jn_PrivateTurns j (co_room (w_co w)) (co_thread (w_co w)) (concat (map th_turns hs))) w"
  have "calm (snd ?j)"
  proof (cases "rp_journal R")
    case (Some j)
    with assms journal_ops [OF Some] calm_room [OF assms] show ?thesis
      using repo_calm [OF assms, of "jn_PrivateTurns j rid (co_thread (w_co w)) (concat (map th_turns hs))"]
      by (metis (no_types, lifting) option.simps(5) prod.collapse)
  qed (use assms in simp)
  then show ?thesis
    unfolding reconcileHistory_def Let_def
  proof (rule calm_sum)
    show "calm (snd (case reconcile_turns R hidden None (concat (map th_turns hs)) w1 of
        (Inl e, w2) \<Rightarrow> (Some e, w2) | (Inr terminal, w2) \<Rightarrow> reconcile_active R terminal w2))" if "calm w1" for hidden w1
      using that by (intro calm_sum) (auto simp: reconcile_turns_calm reconcile_active_calm)
  qed simp
qed

lemma review_controls_calm: "calm w \<Longrightarrow> calm (snd (review_controls R done bs w))"
proof (induction bs arbitrary: w "done")
  case (Cons b bs)
  show ?case
    unfolding review_controls.simps Let_def
    by (rule calm_branches | (auto simp: quiet_ops calm_room Cons; fail))+
qed simp

lemma recover_new_thread_calm:
  assumes "calm w"
  shows "calm (snd (recover_new_thread R A w))"
proof (cases "ag_StartThread A (w_calls w)")
  case (Inl ae)
  with assms show ?thesis
    by (auto simp: recover_new_thread_def call_agent_def setStatus_calm markThreadRepair_calm)
next
  case (Inr t)
  have "calm (w\<lparr>w_calls := w_calls w @ [CallStartThread]\<rparr>)" using assms by simp
  with Inr show ?thesis
    unfolding recover_new_thread_def call_agent_def
    by (simp, intro conjI impI) (auto simp: markThreadRepair_calm quiet_ops calm_room intro!: repo_calmI)
qed

lemma recover_old_thread_calm:
  assumes "calm w"
  shows "calm (snd (recover_old_thread R A w))"
proof -
  have "calm (snd (call_agent x f w'))" if "calm w'" "\<And>cid. \<not> is_start cid x" for x and f :: "agent_call list \<Rightarrow> 'r" and w'
    using that by simp
  note this [simp del] 
  show ?thesis
    unfolding recover_old_thread_def Let_def
    apply (rule calm_sum)
    using assms apply simp
     apply (simp add: markThreadRepair_calm)
    apply (rule calm_if)
     apply (simp add: markThreadRepair_calm)
    apply (rule calm_sum)
      apply simp
     apply simp
    apply (rule calm_if)
     apply (simp add: markThreadRepair_calm)
    apply (rule reconcileHistory_calm)
    apply assumption
    done
qed

lemma recover_finish_ok:
  assumes "calm w"
  shows "ok (snd (recover_finish R A w))"
proof -
  obtain e w1 where r: "review_controls R [] (co_controls (w_co w)) w = (e, w1)" by fastforce
  have c1: "calm w1" using review_controls_calm [OF assms, of "[]" "co_controls (w_co w)"] r by simp
  let ?w2 = "on_co (\<lambda>c. c\<lparr>co_thread_ready := True\<rparr>) w1"
  have c2: "calm ?w2" using c1 by simp
  have ready: "ok (snd (case setStatus R RoomReady ?w2 of (Some e, w3) \<Rightarrow> (Some e, w3) | (None, w3) \<Rightarrow> dispatchNext R A w3))"
  proof -
    obtain e w3 where "setStatus R RoomReady ?w2 = (e, w3)" by fastforce
    with setStatus_calm [OF c2, of RoomReady] have "ok w3" by (simp add: calm_ok)
    with \<open>setStatus R RoomReady ?w2 = (e, w3)\<close> dispatchNext_ok show ?thesis by (cases e) auto
  qed
  show ?thesis
    using c1 c2 ready calm_ok by (cases e) (simp_all add: recover_finish_def r Let_def)
qed

lemma recover_ok:
  assumes "ok w"
  shows "ok (snd (recover R A w))"
proof -
  let ?w0 = "on_co (\<lambda>c. c\<lparr>co_thread_ready := False\<rparr>) w"
  let ?wf = "resetProjection (freeze RoomRecovering ?w0)"
  have ok0: "ok ?w0" "ok ?wf" using assms by simp_all
  obtain r w1 where l: "loadRecovery R ?wf = (r, w1)" by fastforce
  note 1 = loadRecovery_calm [OF ok0(2) l]
  have go: "ok (snd (case setStatus R RoomRecovering w1 of (Some e, w2) \<Rightarrow> (Some e, w2)
      | (None, w2) \<Rightarrow> (case (if co_thread (w_co w2) = [] then recover_new_thread R A w2 else recover_old_thread R A w2) of
           (Some e, w3) \<Rightarrow> (Some e, w3) | (None, w3) \<Rightarrow> recover_finish R A w3)))" if "calm w1"
  proof -
    obtain e w2 where s: "setStatus R RoomRecovering w1 = (e, w2)" by fastforce
    with setStatus_calm [OF that, of RoomRecovering] have c2: "calm w2" by simp
    obtain e' w3 where t: "(if co_thread (w_co w2) = [] then recover_new_thread R A w2 else recover_old_thread R A w2) = (e', w3)" by fastforce
    with recover_new_thread_calm [OF c2, of A] recover_old_thread_calm [OF c2, of A] have "calm w3"
      by (auto split: if_splits)
    with s t c2 calm_ok recover_finish_ok show ?thesis by (cases e; cases e') auto
  qed
  show ?thesis
  proof (cases r)
    case (Inl e)
    with assms ok0 l 1 show ?thesis by (simp add: recover_def Let_def)
  next
    case (Inr img)
    with 1 have "calm w1" by simp
    with assms ok0 l Inr go calm_ok markThreadRepair_calm show ?thesis by (simp add: recover_def Let_def)
  qed
qed

subsubsection \<open>Review decisions\<close>

lemma run_retry_calm:
  assumes "calm w"
  shows "calm (snd (run_retry R A rc w))"
proof (cases rc)
  case None
  with assms show ?thesis by (simp add: run_retry_def)
next
  case (Some c)
  define running where "running \<longleftrightarrow> (case co_active (w_co w) of None \<Rightarrow> False
              | Some b \<Rightarrow> tb_state b = RequestRunning \<and> tb_turn_id b = rc_expected_turn_id c) \<and> co_thread (w_co w) \<noteq> []"
  let ?p = "if running then (case retry_control A c w of (r, w') \<Rightarrow> (retry_outcome r, w'))
     else ((\<lparr>oc_state = RequestFailed, oc_error_code = ''stale-turn'', oc_error_digest = []\<rparr>, Some ErrStaleTurn), w)"
  obtain x w1 where p': "?p = (x, w1)" by (rule prod.exhaust)
  obtain oc e where "x = (oc, e)" by (rule prod.exhaust)
  with p' have p: "?p = ((oc, e), w1)" by simp
  obtain rr w' where rr: "retry_control A c w = (rr, w')" by fastforce
  have "calm (snd (retry_control A c w))"
    using assms by (simp add: retry_control_def Let_def)
  with rr have "calm w'" by simp
  then have c1: "calm w1" using p assms by (cases running) (simp_all add: rr)
  have load: "calm (snd (case loadRecovery R w2 of (Inl e, w3) \<Rightarrow> (Inl e, w3) | (Inr x, w3) \<Rightarrow> (Inr e', w3)))"
    if "calm w2" for w2 and e' :: "err option"
  proof -
    obtain r w3 where l: "loadRecovery R w2 = (r, w3)" by fastforce
    with loadRecovery_calm [OF calm_ok [OF that] l] that show ?thesis by (cases r) auto
  qed
  have "calm (snd (case repo (rp_FinishControl R (co_room (w_co w)) (rc_client_message_id c) oc) w1 of
      (Inl e, w2) \<Rightarrow> (Inl e, w2)
    | (Inr ev, w2) \<Rightarrow> (case loadRecovery R (publish ev w2) of (Inl e, w3) \<Rightarrow> (Inl e, w3) | (Inr x, w3) \<Rightarrow> (Inr e, w3))))"
    using c1 calm_room [OF assms] by (intro repo_calmI load) (auto simp: quiet_ops)
  with p assms Some show ?thesis by (simp add: run_retry_def running_def)
qed

lemma resume_after_review_ok:
  assumes "calm w"
  shows "ok (snd (resume_after_review R A e w))"
proof -
  obtain r w1 where s: "setStatus R RoomReady w = (r, w1)" by fastforce
  with setStatus_calm [OF assms, of RoomReady] have "ok w1" by (simp add: calm_ok)
  moreover obtain d w2 where "dispatchNext R A w1 = (d, w2)" by fastforce
  moreover from dispatchNext_ok [OF calculation(1), of A] calculation(2) have "ok w2" by simp
  ultimately show ?thesis
    using s calm_ok [OF assms] by (cases r; cases d) (simp_all add: resume_after_review_def)
qed

lemma resolve_ok:
  assumes "ok w"
  shows "ok (snd (resolve R A a i w))"
proof -
  have go: "ok (snd (case loadRecovery R w2 of (Inl e, w3) \<Rightarrow> (Some e, w3)
      | (Inr img, w3) \<Rightarrow>
          if im_status img = RoomThreadNeedsRepair \<or> co_creation_uncertain (w_co w3)
          then (Some ErrDeliveryUnknown, freeze RoomThreadNeedsRepair w3)
          else (case run_retry R A rt w3 of (Inl e, w4) \<Rightarrow> (Some e, w4)
                | (Inr retryErr, w4) \<Rightarrow> resume_after_review R A retryErr w4)))" if "ok w2" for w2 rt
  proof -
    obtain r w3 where l: "loadRecovery R w2 = (r, w3)" by fastforce
    note 3 = loadRecovery_calm [OF that l]
    obtain q w4 where q: "run_retry R A rt w3 = (q, w4)" by fastforce
    show ?thesis
    proof (cases r)
      case (Inl e)
      with l 3 show ?thesis by simp
    next
      case (Inr img)
      with 3 have c3: "calm w3" by simp
      from run_retry_calm [OF c3, of A rt] q have c4: "calm w4" by simp
      from l Inr q c3 c4 calm_ok resume_after_review_ok [OF c4] show ?thesis by (cases q) simp_all
    qed
  qed
  show ?thesis
    unfolding resolve_def Let_def
    by (rule ok_if repo_okI | (auto simp: assms quiet_ops ok_room go; fail) | rule go | simp add: assms)+
qed

subsubsection \<open>Private questions\<close>

lemma question_turn_ok:
  assumes "ok w" "rp_journal R = Some j"
  shows "ok (snd ((), question_turn R j start q baseline w))"
proof -
  note jo = journal_ops [OF assms(2)]
  show ?thesis
    unfolding question_turn_def Let_def snd_conv
    apply (rule repo_okW)
       apply (rule assms(1))
      apply (simp add: jo ok_room [OF assms(1)])
     apply simp
    apply (rule ok_sum_world)
      apply simp
     apply (rule ok_if_world)
      apply (rule repo_okW)
         apply simp
        apply (simp add: jo ok_room [OF assms(1)])
       apply simp
      apply simp
     apply simp
    apply simp
    done
qed

lemma startQuestion_ok:
  assumes "ok w"
  shows "ok (startQuestion R A q w)"
proof -
  let ?th = "co_thread (w_co w)"
  have go: "ok (case call_agent (CallReadThread ?th) (\<lambda>cs. ag_ReadThread A cs ?th) w of
        (Inl ae, w1) \<Rightarrow> refuse q (ErrAgent (ae_text ae)) w1
      | (Inr t, w1) \<Rightarrow>
          if \<not> validThread (w_co w) t ?th then refuse q ErrQuestionThread w1
          else if list_ex (\<lambda>turn. ts_state turn = RequestRunning) (th_turns t) then refuse q ErrQuestionActive w1
          else question_turn R j start q (map ts_id (th_turns t)) w1)" if "rp_journal R = Some j" for j start
    using assms question_turn_ok [OF _ that]
    by (intro ok_sum_world ok_if_world) auto
  show ?thesis
    using assms go by (simp add: startQuestion_def Let_def split: option.splits)
qed

lemma cancelQuestion_ok: "ok w \<Longrightarrow> ok (cancelQuestion A cid w)"
  by (simp add: cancelQuestion_def Let_def split: option.splits) 

lemma dispatch_or_fail_ok:
  assumes "ok w"
  shows "ok (dispatch_or_fail R A w)"
proof -
  obtain e w1 where d: "dispatchNext R A w = (e, w1)" by fastforce
  with dispatchNext_ok [OF assms, of A] show ?thesis
    by (cases e) (simp_all add: dispatch_or_fail_def)
qed

lemma end_question_ok:
  assumes "ok w"
  shows "ok (end_question R A kind q w)"
proof (cases "rp_journal R")
  case None
  with assms show ?thesis by (simp add: end_question_def Let_def dispatch_or_fail_ok)
next
  case (Some j)
  obtain r w1 where r: "repo (jn_EndPrivateTurn j (co_room (w_co w)) (co_thread (w_co w)) [pq_turn q]) w = (r, w1)" by fastforce
  have "harmless sound view frontier (jn_EndPrivateTurn j (co_room (w_co w)) (co_thread (w_co w)) [pq_turn q])"
    using journal_ops [OF Some] ok_room [OF assms] by simp
  from repo_ok [OF assms this r] Some r show ?thesis
    by (cases r) (simp_all add: end_question_def Let_def dispatch_or_fail_ok)
qed

lemma questionEvent_ok:
  assumes "ok w"
  shows "ok (snd (questionEvent R A ev w))"
proof (cases "co_question (w_co w)")
  case None
  with assms show ?thesis by (simp add: questionEvent_def)
next
  case (Some q)
  with assms show ?thesis
    by (simp add: questionEvent_def Let_def end_question_ok split: option.splits)
qed

subsubsection \<open>Agent events\<close>

lemma item_event_ok: "ok w \<Longrightarrow> ok (item_event R ev w)"
  unfolding item_event_def Let_def
  by (rule ok_branches_world | (auto simp: quiet_ops ok_room; fail))+

lemma turn_end_event_ok:
  assumes "ok w"
  shows "ok (turn_end_event R A ev w)"
proof (cases "\<not> follows_turn (w_co w) (ev_turn_id ev) \<or> (ev_thread_id ev \<noteq> [] \<and> ev_thread_id ev \<noteq> co_thread (w_co w))")
  case True
  with assms show ?thesis by (simp add: turn_end_event_def Let_def)
next
  case False
  let ?fi = "finish_input (w_co w) ev"
  obtain r w1 where f: "repo (rp_FinishTurn R rid ?fi) w = (r, w1)" by fastforce
  note 1 = repo_ok [OF assms quiet_ops(9) f]
  show ?thesis
  proof (cases r)
    case (Inl e)
    with False f assms 1 ok_room [OF assms] show ?thesis by (simp add: turn_end_event_def Let_def)
  next
    case (Inr evs)
    let ?w2 = "set_active None (with_projection (removeTurn (co_thread (w_co w)) (ev_turn_id ev)) (publish_all evs w1))"
    have c2: "calm ?w2"
      using 1 finish_turn_empties [OF assms] f Inr by (intro calm_free) auto
    let ?w2' = "on_co (\<lambda>c. c\<lparr>co_fault := []\<rparr>) ?w2"
    have c2': "calm ?w2'" using c2 by simp
    have "ok (case repo (rp_SetRoomStatus R rid RoomReady) ?w2' of (Inl e, w3) \<Rightarrow> failPersistence e w3
        | (Inr se, w3) \<Rightarrow> dispatch_or_fail R A (freeze RoomReady (publish_status se w3)))"
    proof -
      obtain sr w3 where s: "repo (rp_SetRoomStatus R rid RoomReady) ?w2' = (sr, w3)" by fastforce
      from repo_calm [OF c2' quiet_ops(14) s] have c3: "calm w3" by simp
      show ?thesis
      proof (cases sr)
        case (Inl e)
        with s c3 calm_ok show ?thesis by simp
      next
        case (Inr se)
        have "calm (freeze RoomReady (publish_status se w3))" using c3 by simp
        with s Inr calm_ok dispatch_or_fail_ok show ?thesis by simp
      qed
    qed
    with False f Inr ok_room [OF assms] dispatch_or_fail_ok [OF calm_ok [OF c2]] show ?thesis
      by (auto simp: turn_end_event_def Let_def)
  qed
qed

lemma ok_fault_status [simp]:
  "st \<noteq> RoomReady \<Longrightarrow> ok w \<Longrightarrow> ok (on_co (\<lambda>c. c\<lparr>co_status := st, co_fault := k\<rparr>) w)"
  unfolding ok_def on_co_simps by (simp add: room_inv_status)

lemma fault_event_ok: "ok w \<Longrightarrow> ok (fault_event R A ev w)"
  unfolding fault_event_def Let_def
  by (rule ok_branches_world | (auto simp: quiet_ops ok_room; fail))+

lemma ok_unavailable [simp]:
  "ok (on_co (\<lambda>c. c\<lparr>co_fault := [], co_thread_ready := False, co_ready_seen := False\<rparr>) w) = ok w"
  by (rule ok_on_co) simp

lemma unavailable_event_ok:
  assumes "ok w"
  shows "ok (unavailable_event R ev w)"
proof -
  let ?w1 = "resetProjection (on_co (\<lambda>c. c\<lparr>co_fault := [], co_thread_ready := False, co_ready_seen := False\<rparr>) w)"
  have 1: "ok ?w1" "ok (freeze RoomRecovering ?w1)" using assms by simp_all
  let ?w2 = "case repo (rp_SetRoomStatus R (co_room (w_co w)) RoomRecovering) (freeze RoomRecovering ?w1) of
                       (Inl e, w2) \<Rightarrow> w2 | (Inr se, w2) \<Rightarrow> publish_status se w2"
  have 2: "ok ?w2"
    using 1 assms by (intro repo_okW) (auto simp: quiet_ops ok_room)
  have 3: "ok (case co_active (w_co w2) of None \<Rightarrow> w2 | Some b \<Rightarrow>
                  if tb_state b = RequestNeedsReview then w2
                  else (case repo (rp_MarkNeedsReview R (co_room (w_co w)) (tb_message_id b) re) w2 of
                       (Inl e, w3) \<Rightarrow> w3 | (Inr d, w3) \<Rightarrow> review_active (publish d w3)))" if "ok w2" for w2 re
    using that assms by (intro ok_option_world ok_if_world repo_okW) (auto simp: quiet_ops ok_room)
  show ?thesis
    unfolding unavailable_event_def Let_def by (rule ok_if_world [OF 1(1) 3 [OF 2]])
qed

lemma handleAgentEvent_ok:
  assumes "ok w"
  shows "ok (handleAgentEvent R A ev w)"
proof -
  obtain b w1 where q: "questionEvent R A ev w = (b, w1)" by fastforce
  with questionEvent_ok [OF assms, of A ev] have "ok w1" by simp
  then show ?thesis
    using q by (cases b)
      (simp_all add: handleAgentEvent_def item_event_ok turn_end_event_ok fault_event_ok unavailable_event_ok recover_ok)
qed

lemma handleCommand_ok:
  assumes "ok w"
  shows "ok (snd (handleCommand R A cmd w))"
  using assms recover_ok resolve_ok handleSubmit_ok handleControl_ok startQuestion_ok cancelQuestion_ok
  by (cases cmd) (simp_all add: case_prod_beta)

subsubsection \<open>Reachable worlds\<close>

lemma reachable_ok:
  assumes "reachable R A rid root env s0 w"
    and env: "\<And>s s'. sound s \<Longrightarrow> env s s' \<Longrightarrow> sound s' \<and> quiet (view s) (view s') \<and> frontier s \<le> frontier s'"
    and init: "sound s0" "\<forall>x \<in> actives (view s0). \<forall>y \<in> actives (view s0). x = y"
  shows "ok w"
  using assms(1)
proof induction
  case (boot c)
  with init show ?case
    using room_inv_fresh [OF boot, of sound s0 view "[]"] by (simp add: ok_def starts_def)
next
  case (command w cmd)
  then show ?case by (simp add: handleCommand_ok)
next
  case (event w ev)
  then show ?case by (simp add: handleAgentEvent_ok)
next
  case (external w s)
  then have "sound (w_store w)" by (simp add: ok_def room_inv_def)
  with env external show ?case by (simp add: ok_def room_inv_store)
next
  case (restart w c)
  have "sound (w_store w)" "\<forall>x \<in> actives (view (w_store w)). \<forall>y \<in> actives (view (w_store w)). x = y"
    "\<forall>cid. starts (w_calls w) cid \<le> start_budget (view (w_store w)) cid"
    using restart.IH unfolding ok_def room_inv_def by blast+
  from room_inv_fresh [where sound = sound and view = view, OF restart.hyps(2) this] show ?case by (simp add: ok_def)
qed

lemma reachable_single_flight:
  assumes "reachable R A rid root env s0 w"
    and "\<And>s s'. sound s \<Longrightarrow> env s s' \<Longrightarrow> sound s' \<and> quiet (view s) (view s') \<and> frontier s \<le> frontier s'"
    and "sound s0" "\<forall>x \<in> actives (view s0). \<forall>y \<in> actives (view s0). x = y"
  shows "x \<in> actives (view (w_store w)) \<Longrightarrow> y \<in> actives (view (w_store w)) \<Longrightarrow> x = y"
    and "starts (w_calls w) cid \<le> start_budget (view (w_store w)) cid"
    and "sorted_wrt (<) (map qm_accepted_seq (co_queue (w_co w)))"
  using reachable_ok [OF assms] by (auto simp: ok_def room_inv_def queue_ordered_def)

end

end
