(* ===== verification/Store_Contract.thy ===== *)
theory Store_Contract
  imports Store_Refinement Room_Contract
begin

text \<open>
  The SQLite store as the coordinator's repository: the record of its operations, the laws of
  the contract discharged for them, and what follows for every run of a coordinator on a store.
  The texts of the store's errors come from the database driver and are a parameter; they
  reach only the digest of a repair reason.
\<close>

definition sqlite_journal :: "store private_turn_journal" where
  "sqlite_journal =
     \<lparr>jn_BeginPrivateTurn = BeginPrivateTurn, jn_EndPrivateTurn = EndPrivateTurn, jn_PrivateTurns = PrivateTurns\<rparr>"

definition sqlite_repository :: "(err \<Rightarrow> string) \<Rightarrow> store repository" where
  "sqlite_repository txt =
     \<lparr>rp_LoadRecoveryImage = LoadRecoveryImage, rp_AcceptMessage = AcceptMessage, rp_AppendNote = AppendNote,
      rp_AcceptControl = AcceptControl, rp_FinishControl = FinishControl, rp_BeginDispatch = BeginDispatch,
      rp_FailDispatch = FailDispatch, rp_BindRunningTurn = BindRunningTurn,
      rp_RecordCompletedItem = RecordCompletedItem, rp_FinishTurn = FinishTurn, rp_MarkNeedsReview = MarkNeedsReview,
      rp_ResolveReview = ResolveReview, rp_BindThread = BindThread, rp_MarkThreadNeedsRepair = MarkThreadNeedsRepair,
      rp_SetRoomStatus = SetRoomStatus, rp_LatestSeq = LatestSeq, rp_journal = Some sqlite_journal, rp_error_text = txt\<rparr>"

subsection \<open>Every operation but \<open>BeginDispatch\<close> is harmless\<close>

definition sound_store :: "store \<Rightarrow> bool" where
  "sound_store s \<longleftrightarrow> wf_db (st_db s)"

definition store_view :: "room_id \<Rightarrow> store \<Rightarrow> aview" where
  "store_view rid s = aview_of rid (st_db s)"

definition store_frontier :: "room_id \<Rightarrow> store \<Rightarrow> nat" where
  "store_frontier rid s = length (events_of rid (st_db s)) + 1"

lemma extends_frontier: "extends d d' \<Longrightarrow> length (events_of rid d) \<le> length (events_of rid d')"
  by (auto simp: extends_def events_of_def prefix_def)

lemma frontier_next_seq:
  assumes "wf_db d" "find_room rid d = Some r"
  shows "length (events_of rid d) + 1 = r_next_seq r"
proof -
  have "r \<in> set (rooms d)" "r_id r = rid" using find_room_SomeD [OF assms(2)] by auto
  with assms(1) have "1 \<le> r_next_seq r" "map de_seq (events_of rid d) = [1..<r_next_seq r]"
    unfolding wf_db_def wf_log_def by blast+
  then show ?thesis using length_map [of de_seq "events_of rid d"] by simp
qed

lemma implements_harmless:
  assumes imp: "implements rid L oper" and quietL: "\<And>x ls l. L x ls \<Longrightarrow> l \<in> set ls \<Longrightarrow> \<not> is_dispatch l"
  shows "harmless sound_store (store_view rid) (store_frontier rid) oper"
  unfolding harmless_def
proof (intro allI impI)
  fix s assume s: "sound_store s"
  obtain r s' where run: "oper s = (r, s')" by fastforce
  from implements_any [OF imp _ run] s
  have "refines rid (\<lambda>ls. ls = [] \<or> (\<exists>x. L x ls)) (st_db s) (st_db s')" by (simp add: sound_store_def)
  then obtain ls where r: "wf_db (st_db s')" "extends (st_db s) (st_db s')" "ls = [] \<or> (\<exists>x. L x ls)"
      "asteps ls (store_view rid s) (store_view rid s')"
    unfolding refines_def store_view_def by blast
  with quietL have "quiet (store_view rid s) (store_view rid s')"
    unfolding quiet_def by (metis empty_iff empty_set)
  with r run show "sound_store (snd (oper s)) \<and> quiet (store_view rid s) (store_view rid (snd (oper s)))
      \<and> store_frontier rid s \<le> store_frontier rid (snd (oper s))"
    by (simp add: sound_store_def store_frontier_def extends_frontier)
qed

lemma LatestSeq_implements: "implements rid (\<lambda>_ ls. ls = []) (LatestSeq rid)"
  unfolding LatestSeq_def
  by (intro implements_validated implements_same) (auto simp: tx_Inr split: option.splits)

lemma resolve_labels_quiet: "resolve_labels i ls \<Longrightarrow> l \<in> set ls \<Longrightarrow> \<not> is_dispatch l"
  by (auto elim!: resolve_labels.cases simp: is_dispatch_def)

lemma store_ops_harmless:
  "harmless sound_store (store_view rid) (store_frontier rid) (LoadRecoveryImage rid)"
  "harmless sound_store (store_view rid) (store_frontier rid) (AcceptMessage rid a si)"
  "harmless sound_store (store_view rid) (store_frontier rid) (AppendNote rid a si)"
  "harmless sound_store (store_view rid) (store_frontier rid) (AcceptControl rid a ci)"
  "harmless sound_store (store_view rid) (store_frontier rid) (FinishControl rid cid oc)"
  "harmless sound_store (store_view rid) (store_frontier rid) (FailDispatch rid cid oc)"
  "harmless sound_store (store_view rid) (store_frontier rid) (BindRunningTurn rid cid turn)"
  "harmless sound_store (store_view rid) (store_frontier rid) (RecordCompletedItem rid item)"
  "harmless sound_store (store_view rid) (store_frontier rid) (FinishTurn rid fi)"
  "harmless sound_store (store_view rid) (store_frontier rid) (MarkNeedsReview rid cid re)"
  "harmless sound_store (store_view rid) (store_frontier rid) (ResolveReview rid a ri)"
  "harmless sound_store (store_view rid) (store_frontier rid) (BindThread rid th)"
  "harmless sound_store (store_view rid) (store_frontier rid) (MarkThreadNeedsRepair rid re)"
  "harmless sound_store (store_view rid) (store_frontier rid) (SetRoomStatus rid st)"
  "harmless sound_store (store_view rid) (store_frontier rid) (LatestSeq rid)"
  "harmless sound_store (store_view rid) (store_frontier rid) (BeginPrivateTurn rid t ts)"
  "harmless sound_store (store_view rid) (store_frontier rid) (EndPrivateTurn rid t ts)"
  "harmless sound_store (store_view rid) (store_frontier rid) (PrivateTurns rid t tss)"
  by (rule implements_harmless, rule LoadRecoveryImage_implements AcceptMessage_implements AppendNote_implements
        AcceptControl_implements FinishControl_implements FailDispatch_implements BindRunningTurn_implements
        RecordCompletedItem_implements FinishTurn_implements MarkNeedsReview_implements ResolveReview_implements
        BindThread_implements MarkThreadNeedsRepair_implements SetRoomStatus_implements LatestSeq_implements
        BeginPrivateTurn_implements EndPrivateTurn_implements PrivateTurns_implements,
      auto simp: is_dispatch_def split: if_splits elim: resolve_labels.cases)+

subsection \<open>The image a coordinator recovers from\<close>

lemma find_binding_agrees:
  assumes "wf_db d" "m \<in> set (messages d)" "bound_kind (msg_kind m)"
  shows "\<exists>b. binding_state_agrees m d = Some b"
proof -
  from assms obtain b where b: "b \<in> set (turn_bindings d)" "agrees m b"
    unfolding wf_db_def wf_bindings_def by blast
  have "find_binding (msg_room m) (msg_id m) d = Some b"
    unfolding find_binding_def
    using assms(1) b by (intro find_unique [where k = b_message]) (auto simp: wf_db_def wf_ids_def agrees_def)
  with b show ?thesis by (simp add: binding_state_agrees_def agrees_def)
qed

lemma image_active_None:
  assumes "wf_db d" "image_active rid d = None"
  shows "actives (aview_of rid d) = {}"
proof (rule ccontr)
  assume "actives (aview_of rid d) \<noteq> {}"
  then obtain c m where m: "find_message rid c d = Some m" "is_prompt (msg_kind m)" "active_state (msg_state m)"
    by (auto simp: actives_def aview_of_def mstate_def)
  then have mem: "m \<in> set (messages d)" "msg_room m = rid" using find_message_SomeD by auto
  moreover have "bound_kind (msg_kind m)" using m(2) by (auto simp: is_prompt_def bound_kind_def)
  ultimately obtain b where b: "binding_state_agrees m d = Some b"
    using find_binding_agrees [OF assms(1)] by blast
  let ?ms = "sort_key msg_seq (filter (\<lambda>m. msg_room m = rid \<and> is_prompt (msg_kind m) \<and> active_state (msg_state m)) (messages d))"
  have "m \<in> set ?ms" using mem m by simp
  with b have "turn_binding_of m b \<in> set (bound_messages (\<lambda>m. is_prompt (msg_kind m) \<and> active_state (msg_state m)) rid d)"
    unfolding bound_messages_def List.map_filter_def by force
  with assms(2) show False by (auto simp: image_active_def split: list.splits)
qed

lemma map_filter_sorted:
  assumes "sorted_wrt (\<lambda>x y. f x < f y) xs" "\<And>x y. x \<in> set xs \<Longrightarrow> g x = Some y \<Longrightarrow> h y = f x"
  shows "sorted_wrt (<) (map h (List.map_filter g xs))"
  using assms
proof (induction xs)
  case (Cons x xs)
  then have IH: "sorted_wrt (<) (map h (List.map_filter g xs))" by simp
  have "f x < h y" if "y \<in> set (List.map_filter g xs)" for y
  proof -
    from that obtain z where z: "z \<in> set xs" "g z = Some y"
      by (auto simp: List.map_filter_def)
    with Cons.prems(2) [of z y] Cons.prems(1) show ?thesis by simp
  qed
  with IH Cons.prems(2) [of x] show ?case
    by (cases "g x") (simp_all add: List.map_filter_simps)
qed (simp add: List.map_filter_simps)

lemma image_queue_ordered:
  assumes "wf_db d" "find_room rid d = Some r"
  shows "queue_ordered (r_next_seq r) (image_queue rid d)"
proof -
  let ?P = "\<lambda>m. msg_room m = rid \<and> is_prompt (msg_kind m) \<and> msg_state m = RequestQueued"
  let ?ms = "sort_key msg_seq (filter ?P (messages d))"
  have "distinct (map (\<lambda>m. (msg_room m, msg_seq m)) (filter ?P (messages d)))"
    using assms(1) by (simp add: wf_db_def wf_log_def distinct_map_filter)
  then have "inj_on msg_seq (set (filter ?P (messages d)))" "distinct (filter ?P (messages d))"
    by (auto simp: distinct_map inj_on_def)
  then have "distinct (map msg_seq ?ms)"
    by (simp add: distinct_map)
  then have sorted: "sorted_wrt (\<lambda>x y. msg_seq x < msg_seq y) ?ms"
    using sorted_sort_key [of msg_seq "filter ?P (messages d)"]
    by (simp only: strict_sorted_iff sorted_wrt_map [symmetric])
  have q: "queued_of rid d m = Some qm \<Longrightarrow> qm_accepted_seq qm = msg_seq m" for m qm
    by (auto simp: queued_of_def)
  have lt: "msg_seq m < r_next_seq r" if "m \<in> set ?ms" for m
  proof -
    from that assms(1) obtain r' where "r' \<in> set (rooms d)" "r_id r' = rid" "msg_seq m < r_next_seq r'"
      by (auto simp: wf_db_def wf_log_def)
    with assms wf_ids_room [of d r' r] find_room_SomeD [OF assms(2)] show ?thesis by (auto simp: wf_db_def)
  qed
  have "sorted_wrt (<) (map qm_accepted_seq (image_queue rid d))"
    unfolding image_queue_def using sorted q by (rule map_filter_sorted)
  moreover have "qm_accepted_seq m < r_next_seq r" if "m \<in> set (image_queue rid d)" for m
    using that lt q by (auto simp: image_queue_def List.map_filter_def)
  ultimately show ?thesis by (simp add: queue_ordered_def)
qed

lemma LoadRecoveryImage_Inr:
  assumes "wf_db (st_db s)" "LoadRecoveryImage rid s = (Inr img, s')"
  shows "\<exists>r. find_room rid (st_db s) = Some r \<and> img = load_image rid r (st_db s) \<and> st_db s' = st_db s"
proof -
  from assms(2) have "transact (load_image_body rid) s = (Inr img, s')"
    by (auto simp: LoadRecoveryImage_def validated_def split: option.splits)
  from transact_Inr [OF this] show ?thesis
    by (auto simp: load_image_body_def tx_Inr split: option.splits)
qed

lemma load_image_contract:
  assumes "sound_store s" "LoadRecoveryImage rid s = (Inr img, s')"
  shows "(im_active img = None \<longrightarrow> actives (store_view rid s') = {}) \<and> queue_ordered (store_frontier rid s') (im_queue img)"
proof -
  from LoadRecoveryImage_Inr [OF _ assms(2)] assms(1) obtain r where
    r: "find_room rid (st_db s) = Some r" "img = load_image rid r (st_db s)" "st_db s' = st_db s"
    by (auto simp: sound_store_def)
  with assms(1) image_active_None [of "st_db s" rid] image_queue_ordered [of "st_db s" rid r]
    frontier_next_seq [of "st_db s" rid r]
  show ?thesis by (simp add: sound_store_def store_view_def store_frontier_def load_image_def)
qed

lemma AcceptMessage_Inr:
  assumes "AcceptMessage rid a i s = (Inr ac, s')"
  shows "accept_body rid a (si_client_message_id i) KPrompt (BodyText (si_text i))
     (canonicalHash KPrompt (actor_uid a) (JObj ([(''text'', JStr (si_text i))] @ opt_int ''taskId'' (si_task_id i))))
     RequestQueued True ''message/accepted'' (si_task_id i) (st_now s) (st_db s) = Inr (ac, st_db s')"
  using assms
  by (auto simp: AcceptMessage_def accept_def validated_def split: option.splits dest!: transact_Inr)

lemma accept_contract:
  assumes "sound_store s" "AcceptMessage rid a i s = (Inr ac, s')" "\<not> ac_duplicate ac"
  shows "store_frontier rid s \<le> ac_seq ac \<and> ac_seq ac < store_frontier rid s'"
proof (cases "loadStoredMessage rid (si_client_message_id i) (st_db s)")
  case (Some m)
  with AcceptMessage_Inr [OF assms(2)] assms(3) show ?thesis
    by (auto simp: accept_body_def tx_Inr acceptance_of_def dest!: accept_duplicate_Inr)
next
  case None
  with AcceptMessage_Inr [OF assms(2)] have "accept_new rid a (si_client_message_id i) KPrompt (BodyText (si_text i))
     (canonicalHash KPrompt (actor_uid a) (JObj ([(''text'', JStr (si_text i))] @ opt_int ''taskId'' (si_task_id i))))
     RequestQueued True ''message/accepted'' (si_task_id i) (st_now s) (st_db s) = Inr (ac, st_db s')"
    by (simp add: accept_body_def tx_Inr)
  from accept_new_added [OF this] obtain row e where
    add: "added rid row e (st_db s) (st_db s')" and ac: "ac = acceptance_of (msg_id row) (si_client_message_id i) (msg_seq row) RequestQueued [] False e"
    by (auto simp: bound_kind_def)
  from add obtain r where r: "find_room rid (st_db s) = Some r" "msg_seq row = r_next_seq r"
    and ev: "room_events (st_db s') = room_events (st_db s) @ [(rid, e)]"
    by (auto simp: added_def)
  from frontier_next_seq [OF _ r(1)] assms(1) r(2) ac events_of_append [OF ev, of rid] show ?thesis
    by (simp add: sound_store_def store_frontier_def acceptance_of_def)
qed

subsection \<open>The contract holds of the store\<close>

lemma asteps_one: "asteps [l] v w \<longleftrightarrow> astep l v w"
  by (simp del: split_paired_Ex)

lemma begin_dispatch_contract:
  assumes "sound_store s" "BeginDispatch rid cid s = (r, s')"
  shows "sound_store s' \<and> store_frontier rid s \<le> store_frontier rid s'
    \<and> (case r of Inr u \<Rightarrow> astep (LDispatch cid) (store_view rid s) (store_view rid s')
         | Inl e \<Rightarrow> store_view rid s' = store_view rid s \<or> astep (LDispatch cid) (store_view rid s) (store_view rid s'))"
proof -
  note imp = BeginDispatch_implements [of rid cid]
  have wf: "wf_db (st_db s)" using assms(1) by (simp add: sound_store_def)
  from implements_any [OF imp wf assms(2)]
  have "refines rid (\<lambda>ls. ls = [] \<or> ls = [LDispatch cid]) (st_db s) (st_db s')" by simp
  then obtain ls where any: "wf_db (st_db s')" "extends (st_db s) (st_db s')" "ls = [] \<or> ls = [LDispatch cid]"
      "asteps ls (store_view rid s) (store_view rid s')"
    unfolding refines_def store_view_def by blast
  show ?thesis
  proof (cases r)
    case (Inl e)
    with any show ?thesis
      by (auto simp: sound_store_def store_frontier_def extends_frontier asteps_one simp del: asteps.simps(2))
  next
    case (Inr u)
    with implements_Inr [OF imp wf] assms(2) have "refines rid (\<lambda>ls. ls = [LDispatch cid]) (st_db s) (st_db s')" by simp
    then have "astep (LDispatch cid) (store_view rid s) (store_view rid s')"
      unfolding refines_def store_view_def using asteps_one by blast
    with any Inr show ?thesis by (simp add: sound_store_def store_frontier_def extends_frontier)
  qed
qed

lemma success_step:
  assumes "implements rid L oper" "sound_store s" "oper s = (Inr x, s')"
  shows "\<exists>ls. L x ls \<and> asteps ls (store_view rid s) (store_view rid s')"
  using implements_Inr [OF assms(1) _ assms(3)] assms(2)
  by (auto simp: refines_def sound_store_def store_view_def)

interpretation sqlite: room_repository "sqlite_repository txt" rid sound_store "store_view rid" "store_frontier rid"
proof (unfold_locales, goal_cases)
  case (16 j t ts tss)
  then show ?case by (auto simp: sqlite_repository_def sqlite_journal_def store_ops_harmless)
next
  case (17 s cid u s')
  with begin_dispatch_contract [of s rid cid "Inr u" s'] show ?case by (simp add: sqlite_repository_def)
next
  case (18 s cid e s')
  with begin_dispatch_contract [of s rid cid "Inl e" s'] show ?case by (simp add: sqlite_repository_def)
next
  case (19 s cid r s')
  with begin_dispatch_contract [of s rid cid r s'] show ?case by (simp add: sqlite_repository_def)
next
  case (20 s cid oc ev s')
  with success_step [OF FailDispatch_implements [of rid cid oc], of s ev s'] show ?case
    by (auto simp: sqlite_repository_def asteps_one simp del: asteps.simps(2))
next
  case (21 s fi evs s')
  with success_step [OF FinishTurn_implements [of rid fi], of s evs s']
  have "\<exists>c. astep (LFinish c (ft_state fi)) (store_view rid s) (store_view rid s')"
    by (auto simp: sqlite_repository_def asteps_one simp del: asteps.simps(2))
  then show ?case by blast
next
  case (22 s img s')
  then show ?case using load_image_contract [of s rid img s'] by (simp add: sqlite_repository_def)
next
  case (23 s a si ac s')
  then show ?case using accept_contract [of s rid a si ac s'] by (simp add: sqlite_repository_def)
qed (simp_all add: sqlite_repository_def store_ops_harmless)

end
