(* ===== verification/Store_Connections.thy ===== *)
theory Store_Connections
  imports Store_Refinement
begin

text \<open>
  Client connections (\<^verbatim>\<open>internal/store/repository.go\<close>, the \<^verbatim>\<open>ConnectionStore\<close>): opening,
  acknowledging events, closing, and closing what a dead process left open. A stored time is the
  instant it encodes, or a text that does not parse. Along every history the acknowledged
  sequence number of a connection never decreases and its end is final.
\<close>

subsection \<open>Operations\<close>

definition connected_body :: "connection_record \<Rightarrow> instant \<Rightarrow> unit dbtx" where
  "connected_body r now =
     tx_bind (requireMemberUID (cr_room_id r) (cr_uid r)) (\<lambda>_.
     tx_bind (tx_read (\<lambda>d. (\<forall>c \<in> set (client_connections d). cn_id c \<noteq> cr_id r) \<and> find_room (cr_room_id r) d \<noteq> None)) (\<lambda>ok.
     tx_bind (tx_guard ErrInvalidState ok) (\<lambda>_.
     tx_write (\<lambda>d. d\<lparr>client_connections := client_connections d @
       [\<lparr>cn_id = cr_id r, cn_room = cr_room_id r, cn_member = cr_uid r, cn_connected = Stamp (cr_connected_at r),
         cn_disconnected = map_option Stamp (cr_disconnected_at r), cn_last_ack = cr_last_ack r\<rparr>]\<rparr>))))"

definition connection_error :: "connection_record \<Rightarrow> err option" where
  "connection_error r =
     (if cr_uid r = 0 \<or> cr_connected_at r = 0
         \<or> (case cr_disconnected_at r of None \<Rightarrow> False | Some t \<Rightarrow> t < cr_connected_at r)
      then Some ErrInvalidInput else None)"

definition Connected :: "connection_record \<Rightarrow> unit store_op" where
  "Connected r =
     validated (validate_connection r) (validated (validateRoomID (cr_room_id r)) (validated (connection_error r)
       (transact (connected_body r))))"

definition find_connection :: "connection_id \<Rightarrow> db \<Rightarrow> connection_row option" where
  "find_connection cid d = find (\<lambda>c. cn_id c = cid) (client_connections d)"

text \<open>An update of connections that must change exactly one row.\<close>

definition update_connection :: "(connection_row \<Rightarrow> bool) \<Rightarrow> (connection_row \<Rightarrow> connection_row) \<Rightarrow> unit dbtx" where
  "update_connection P f =
     tx_bind (tx_read (\<lambda>d. count_where P (client_connections d))) (\<lambda>n.
     tx_bind (tx_guard ErrInvalidState (n = 1)) (\<lambda>_.
     tx_write (\<lambda>d. d\<lparr>client_connections := update_where P f (client_connections d)\<rparr>)))"

definition ack_body :: "connection_id \<Rightarrow> seqno \<Rightarrow> instant \<Rightarrow> unit dbtx" where
  "ack_body cid n now =
     tx_bind (tx_read (find_connection cid)) (\<lambda>c.
       case c of
         None \<Rightarrow> tx_fail ErrConnectionNotFound
       | Some row \<Rightarrow>
           tx_bind (tx_guard ErrInvalidState (cn_last_ack row \<le> n)) (\<lambda>_.
           update_connection (\<lambda>c. cn_id c = cid \<and> cn_last_ack c = cn_last_ack row) (\<lambda>c. c\<lparr>cn_last_ack := n\<rparr>)))"

definition Ack :: "connection_id \<Rightarrow> seqno \<Rightarrow> unit store_op" where
  "Ack cid n = validated (if \<not> ValidConnectionID cid then Some ErrInvalidConnectionID else None) (transact (ack_body cid n))"

definition disconnected_body :: "connection_id \<Rightarrow> instant \<Rightarrow> instant \<Rightarrow> unit dbtx" where
  "disconnected_body cid at now =
     tx_bind (tx_read (find_connection cid)) (\<lambda>c.
       case c of
         None \<Rightarrow> tx_fail ErrConnectionNotFound
       | Some row \<Rightarrow>
           tx_bind (tx_guard ErrInvalidState (cn_disconnected row = None)) (\<lambda>_.
             case cn_connected row of
               BadStamp t \<Rightarrow> tx_fail ErrTimeFormat
             | Stamp since \<Rightarrow>
                 tx_bind (tx_guard ErrInvalidInput (since \<le> at)) (\<lambda>_.
                 update_connection
                   (\<lambda>c. cn_id c = cid \<and> cn_connected c = cn_connected row \<and> cn_disconnected c = None)
                   (\<lambda>c. c\<lparr>cn_disconnected := Some (Stamp at)\<rparr>))))"

definition Disconnected :: "connection_id \<Rightarrow> instant \<Rightarrow> unit store_op" where
  "Disconnected cid at =
     validated (if \<not> ValidConnectionID cid then Some ErrInvalidConnectionID else if at = 0 then Some ErrInvalidInput else None)
       (transact (disconnected_body cid at))"

definition open_in :: "room_id \<Rightarrow> connection_row \<Rightarrow> bool" where
  "open_in rid c \<longleftrightarrow> cn_room c = rid \<and> cn_disconnected c = None"

definition close_stale_body :: "room_id \<Rightarrow> instant \<Rightarrow> instant \<Rightarrow> unit dbtx" where
  "close_stale_body rid at now =
     tx_bind (requireRoom rid) (\<lambda>_.
     tx_bind (tx_read (\<lambda>d. map cn_connected (filter (open_in rid) (client_connections d)))) (\<lambda>times.
     tx_bind (tx_guard ErrCorruptStore (list_all (\<lambda>t. case t of Stamp _ \<Rightarrow> True | BadStamp _ \<Rightarrow> False) times)) (\<lambda>_.
     tx_bind (tx_guard ErrInvalidInput (list_all (\<lambda>t. case t of Stamp since \<Rightarrow> since \<le> at | BadStamp _ \<Rightarrow> True) times)) (\<lambda>_.
     tx_write (\<lambda>d. d\<lparr>client_connections :=
        update_where (open_in rid) (\<lambda>c. c\<lparr>cn_disconnected := Some (Stamp at)\<rparr>) (client_connections d)\<rparr>)))))"

definition CloseStale :: "room_id \<Rightarrow> instant \<Rightarrow> unit store_op" where
  "CloseStale rid at =
     validated (validateRoomID rid) (validated (if at = 0 then Some ErrInvalidInput else None) (transact (close_stale_body rid at)))"

subsection \<open>No effect on the messages of a room\<close>

lemma update_connection_core: "update_connection P f d = Inr (u, d') \<Longrightarrow> same_core d d'"
  by (auto simp: update_connection_def tx_Inr same_core_def)

lemma requireMemberUID_Inr: "requireMemberUID rid u d = Inr (x, d') \<Longrightarrow> d' = d \<and> find_member rid u d \<noteq> None"
  by (auto simp: requireMemberUID_def requireRoom_def tx_Inr split: option.splits)

lemma Connected_implements: "implements rid (\<lambda>_ ls. ls = []) (Connected r)"
  unfolding Connected_def
  by (intro implements_validated implements_same) (auto simp: connected_body_def tx_Inr same_core_def dest!: requireMemberUID_Inr)

lemma Ack_implements: "implements rid (\<lambda>_ ls. ls = []) (Ack cid n)"
  unfolding Ack_def
  by (intro implements_validated implements_same) (auto simp: ack_body_def tx_Inr split: option.splits dest: update_connection_core)

lemma Disconnected_implements: "implements rid (\<lambda>_ ls. ls = []) (Disconnected cid at)"
  unfolding Disconnected_def
  by (intro implements_validated implements_same)
     (auto simp: disconnected_body_def tx_Inr split: option.splits stamp.splits dest: update_connection_core)

lemma CloseStale_implements: "implements rid (\<lambda>_ ls. ls = []) (CloseStale rid' at)"
  unfolding CloseStale_def
  by (intro implements_validated implements_same) (auto simp: close_stale_body_def tx_Inr same_core_def dest!: requireRoom_Inr)

subsection \<open>Histories\<close>

inductive connection_step :: "store \<Rightarrow> store \<Rightarrow> bool" where
  connected: "connection_step s (snd (Connected r s))"
| acknowledged: "connection_step s (snd (Ack cid n s))"
| disconnected: "connection_step s (snd (Disconnected cid at s))"
| closed_stale: "connection_step s (snd (CloseStale rid at s))"
| clock: "connection_step s (s\<lparr>st_io := io, st_now := now\<rparr>)"

text \<open>What a connection keeps: who and when, an end once it has one, and its acknowledgements.\<close>

definition progressed :: "connection_row \<Rightarrow> connection_row \<Rightarrow> bool" where
  "progressed c c' \<longleftrightarrow> cn_id c' = cn_id c \<and> cn_room c' = cn_room c \<and> cn_member c' = cn_member c
     \<and> cn_connected c' = cn_connected c \<and> cn_last_ack c \<le> cn_last_ack c'
     \<and> (cn_disconnected c \<noteq> None \<longrightarrow> cn_disconnected c' = cn_disconnected c)"

definition lasting :: "connection_row \<Rightarrow> bool" where
  "lasting c \<longleftrightarrow> (case (cn_connected c, cn_disconnected c) of
      (Stamp since, Some (Stamp till)) \<Rightarrow> since \<le> till | _ \<Rightarrow> True)"

definition wf_connections :: "db \<Rightarrow> bool" where
  "wf_connections d \<longleftrightarrow> distinct (map cn_id (client_connections d)) \<and> list_all lasting (client_connections d)"

definition connections_grow :: "db \<Rightarrow> db \<Rightarrow> bool" where
  "connections_grow d d' \<longleftrightarrow>
     (\<exists>cs new. client_connections d' = cs @ new \<and> list_all2 progressed (client_connections d) cs)"

lemma progressed_refl [simp]: "progressed c c"
  by (simp add: progressed_def)

lemma connections_grow_refl [simp]: "connections_grow d d"
  unfolding connections_grow_def
  by (intro exI [of _ "client_connections d"] exI [of _ "[]"]) (simp add: list_all2_refl)

lemma connections_grow_trans: "connections_grow a b \<Longrightarrow> connections_grow b c \<Longrightarrow> connections_grow a c"
proof -
  assume "connections_grow a b" "connections_grow b c"
  then obtain bs new cs new' where b: "client_connections b = bs @ new" "list_all2 progressed (client_connections a) bs"
    and c: "client_connections c = cs @ new'" "list_all2 progressed (bs @ new) cs"
    by (auto simp: connections_grow_def)
  then obtain us vs where u: "cs = us @ vs" "list_all2 progressed bs us" by (auto simp: list_all2_append1)
  have "list_all2 progressed (client_connections a) us"
    by (rule list_all2_trans [OF _ b(2) u(2)]) (auto simp: progressed_def)
  with u(1) c(1) show ?thesis by (auto simp: connections_grow_def)
qed

text \<open>The three kinds of change.\<close>

lemma append_connection:
  assumes "wf_connections d" "\<forall>c \<in> set (client_connections d). cn_id c \<noteq> cn_id row" "lasting row"
    "client_connections d' = client_connections d @ [row]"
  shows "wf_connections d' \<and> connections_grow d d'"
  using assms by (auto simp: wf_connections_def connections_grow_def list_all2_refl image_iff)

lemma update_connections:
  assumes "wf_connections d" "\<And>c. c \<in> set (client_connections d) \<Longrightarrow> P c \<Longrightarrow> progressed c (f c) \<and> lasting (f c)"
    "client_connections d' = update_where P f (client_connections d)"
  shows "wf_connections d' \<and> connections_grow d d'"
proof -
  have "map cn_id (client_connections d') = map cn_id (client_connections d)"
    using assms(2,3) by (auto simp: update_where_def progressed_def)
  moreover have "list_all lasting (client_connections d')"
    using assms by (auto simp: wf_connections_def update_where_def list_all_iff)
  moreover have "list_all2 progressed (client_connections d) (client_connections d')"
    using assms(2,3) by (auto simp: update_where_def list_all2_conv_all_nth)
  ultimately show ?thesis
    using assms(1) by (auto simp: wf_connections_def connections_grow_def)
qed

lemma find_connection_Some:
  assumes "wf_connections d" "find_connection cid d = Some row"
  shows "row \<in> set (client_connections d)" "c \<in> set (client_connections d) \<Longrightarrow> cn_id c = cid \<Longrightarrow> c = row"
proof -
  from assms(2) have row: "row \<in> set (client_connections d)" "cn_id row = cid"
    by (auto simp: find_connection_def dest: find_SomeD)
  then show "row \<in> set (client_connections d)" by simp
  show "c \<in> set (client_connections d) \<Longrightarrow> cn_id c = cid \<Longrightarrow> c = row"
    using assms(1) row by (auto simp: wf_connections_def distinct_map dest: inj_onD)
qed

lemma update_connection_Inr: "update_connection P f d = Inr (u, d') \<Longrightarrow>
    client_connections d' = update_where P f (client_connections d)"
  by (auto simp: update_connection_def tx_Inr)

definition good_bodies :: "(instant \<Rightarrow> unit dbtx) \<Rightarrow> bool" where
  "good_bodies body \<longleftrightarrow> (\<forall>now d d'. wf_connections d \<longrightarrow> body now d = Inr ((), d') \<longrightarrow> wf_connections d' \<and> connections_grow d d')"

lemma connected_good: "connection_error r = None \<Longrightarrow> good_bodies (connected_body r)"
  unfolding good_bodies_def
proof (intro allI impI)
  fix now d d' assume ok: "connection_error r = None" and wf: "wf_connections d" and run: "connected_body r now d = Inr ((), d')"
  let ?row = "\<lparr>cn_id = cr_id r, cn_room = cr_room_id r, cn_member = cr_uid r, cn_connected = Stamp (cr_connected_at r),
      cn_disconnected = map_option Stamp (cr_disconnected_at r), cn_last_ack = cr_last_ack r\<rparr>"
  from run have new: "\<forall>c \<in> set (client_connections d). cn_id c \<noteq> cn_id ?row" "client_connections d' = client_connections d @ [?row]"
    by (auto simp: connected_body_def tx_Inr dest!: requireMemberUID_Inr)
  have "lasting ?row" using ok by (auto simp: connection_error_def lasting_def split: option.splits if_splits)
  from append_connection [OF wf new(1) this new(2)] show "wf_connections d' \<and> connections_grow d d'" .
qed

lemma ack_good: "good_bodies (ack_body cid n)"
  unfolding good_bodies_def
proof (intro allI impI)
  fix now d d' assume wf: "wf_connections d" and run: "ack_body cid n now d = Inr ((), d')"
  then obtain row where row: "find_connection cid d = Some row" "cn_last_ack row \<le> n"
    and upd: "client_connections d' = update_where (\<lambda>c. cn_id c = cid \<and> cn_last_ack c = cn_last_ack row)
        (\<lambda>c. c\<lparr>cn_last_ack := n\<rparr>) (client_connections d)"
    by (auto simp: ack_body_def tx_Inr split: option.splits dest!: update_connection_Inr)
  show "wf_connections d' \<and> connections_grow d d'"
    by (rule update_connections [OF wf _ upd])
       (use wf row in \<open>auto simp: progressed_def wf_connections_def list_all_iff lasting_def\<close>)
qed

lemma disconnected_good: "good_bodies (disconnected_body cid at)"
  unfolding good_bodies_def
proof (intro allI impI)
  fix now d d' assume wf: "wf_connections d" and run: "disconnected_body cid at now d = Inr ((), d')"
  then obtain row since where row: "find_connection cid d = Some row" "cn_connected row = Stamp since" "since \<le> at"
    and upd: "client_connections d' = update_where
        (\<lambda>c. cn_id c = cid \<and> cn_connected c = cn_connected row \<and> cn_disconnected c = None)
        (\<lambda>c. c\<lparr>cn_disconnected := Some (Stamp at)\<rparr>) (client_connections d)"
    by (auto simp: disconnected_body_def tx_Inr split: option.splits stamp.splits dest!: update_connection_Inr)
  show "wf_connections d' \<and> connections_grow d d'"
    by (rule update_connections [OF wf _ upd]) (use row in \<open>auto simp: progressed_def lasting_def\<close>)
qed

lemma close_stale_good: "good_bodies (close_stale_body rid at)"
  unfolding good_bodies_def
proof (intro allI impI)
  fix now d d' assume wf: "wf_connections d" and run: "close_stale_body rid at now d = Inr ((), d')"
  then have upd: "client_connections d' = update_where (open_in rid)
        (\<lambda>c. c\<lparr>cn_disconnected := Some (Stamp at)\<rparr>) (client_connections d)"
    and before: "\<forall>c \<in> set (client_connections d). open_in rid c \<longrightarrow> (\<forall>since. cn_connected c = Stamp since \<longrightarrow> since \<le> at)"
    by (auto simp: close_stale_body_def tx_Inr list_all_iff split: stamp.splits dest!: requireRoom_Inr)
  show "wf_connections d' \<and> connections_grow d d'"
    by (rule update_connections [OF wf _ upd])
       (use before in \<open>auto simp: progressed_def lasting_def open_in_def split: stamp.splits\<close>)
qed

lemma good_transact:
  "good_bodies body \<Longrightarrow> wf_connections (st_db s) \<Longrightarrow>
     wf_connections (st_db (snd (transact body s))) \<and> connections_grow (st_db s) (st_db (snd (transact body s)))"
  using transact_effect [of body s "fst (transact body s)" "snd (transact body s)"]
  unfolding good_bodies_def by fastforce

lemma good_validated:
  "wf_connections (st_db s) \<Longrightarrow>
   (v = None \<Longrightarrow> wf_connections (st_db (snd (oper s))) \<and> connections_grow (st_db s) (st_db (snd (oper s)))) \<Longrightarrow>
     wf_connections (st_db (snd (validated v oper s))) \<and> connections_grow (st_db s) (st_db (snd (validated v oper s)))"
  by (cases v) (auto simp: validated_def)

lemma connection_step_good:
  "connection_step s s' \<Longrightarrow> wf_connections (st_db s) \<Longrightarrow> wf_connections (st_db s') \<and> connections_grow (st_db s) (st_db s')"
  by (erule connection_step.cases)
     (simp_all add: Connected_def Ack_def Disconnected_def CloseStale_def good_validated good_transact
        connected_good ack_good disconnected_good close_stale_good)

subsection \<open>A concrete store for the witnesses\<close>

definition connection_demo :: store where
  "connection_demo =
     \<lparr>st_db = empty_db
       \<lparr>rooms := [\<lparr>r_id = ''r'', r_display_name = ''d'', r_host_id = ''h'', r_project_path = ''p'', r_execution_owner_uid = 1,
                   r_codex_thread_id = None, r_status = RoomReady, r_next_seq = 1\<rparr>],
        members := [\<lparr>m_room = ''r'', m_uid = 1, m_username = ''ann''\<rparr>],
        client_connections :=
          [\<lparr>cn_id = replicate 32 CHR ''a'', cn_room = ''r'', cn_member = 1, cn_connected = Stamp 5, cn_disconnected = None, cn_last_ack = 2\<rparr>]\<rparr>,
      st_io = [], st_now = 9\<rparr>"

lemma connection_demo_wf: "wf_connections (st_db connection_demo)"
  by (simp add: wf_connections_def lasting_def connection_demo_def)

lemma demo_connection_room: "\<not> blank ''r''"
  by code_simp

text \<open>
  Along every history of connection operations, whatever storage did, no connection is
  forgotten: it keeps its member, room and start, the sequence number it has acknowledged never
  decreases, once it has ended its end stays, and no connection ends before it began.
\<close>

theorem connections_only_progress:
  assumes "connection_step\<^sup>*\<^sup>* s s'" "wf_connections (st_db s)"
  shows "connections_grow (st_db s) (st_db s') \<and> list_all lasting (client_connections (st_db s'))"
proof -
  have "wf_connections (st_db s') \<and> connections_grow (st_db s) (st_db s')"
    using assms(1)
  proof (induction rule: rtranclp_induct)
    case base
    with assms(2) show ?case by simp
  next
    case (step t u)
    with connection_step_good [OF step.hyps(2)] show ?case by (blast intro: connections_grow_trans)
  qed
  then show ?thesis by (simp add: wf_connections_def)
qed

theorem connections_only_progress_witness:
  "connections_grow (st_db connection_demo) (st_db (snd (Ack (replicate 32 CHR ''a'') 7 connection_demo)))"
  using connections_only_progress [OF r_into_rtranclp [of connection_step, OF connection_step.acknowledged] connection_demo_wf]
  by simp

text \<open>
  When a host starts after a crash and closes what was left open, afterwards every connection
  of the room has an end, the others are untouched; if any start cannot be read or lies in the
  future nothing is closed at all.
\<close>

theorem close_stale_all_or_nothing:
  assumes "CloseStale rid at s = (r, s')" "st_io s = []"
  shows "case r of
      Inr u \<Rightarrow> (\<forall>c \<in> set (client_connections (st_db s')). cn_room c = rid \<longrightarrow> cn_disconnected c \<noteq> None)
        \<and> filter (\<lambda>c. cn_room c \<noteq> rid) (client_connections (st_db s')) = filter (\<lambda>c. cn_room c \<noteq> rid) (client_connections (st_db s))
    | Inl e \<Rightarrow> client_connections (st_db s') = client_connections (st_db s)"
proof -
  let ?f = "\<lambda>c. c\<lparr>cn_disconnected := Some (Stamp at)\<rparr>"
  have "cn_disconnected c \<noteq> None" if "c \<in> set (update_where (open_in rid) ?f cs)" "cn_room c = rid" for c cs
  proof -
    from that(1) obtain r where r: "c = (if open_in rid r then ?f r else r)" unfolding update_where_def set_map by blast
    show ?thesis
    proof (cases "open_in rid r")
      case True
      with r show ?thesis by simp
    next
      case False
      with r have "c = r" by simp
      with False that(2) show ?thesis by (simp add: open_in_def)
    qed
  qed
  moreover have "filter (\<lambda>c. cn_room c \<noteq> rid) (update_where (open_in rid) ?f cs) = filter (\<lambda>c. cn_room c \<noteq> rid) cs" for cs
    by (induction cs) (simp_all add: update_where_def open_in_def)
  moreover note upd = calculation
  consider "transact (close_stale_body rid at) s = (r, s')" | e where "r = Inl e" "s' = s"
    using assms(1) by (auto simp: CloseStale_def validated_def split: option.splits if_splits)
  then show ?thesis
  proof cases
    case 1
    show ?thesis
    proof (cases r)
      case (Inr u)
      with 1 have "close_stale_body rid at (st_now s) (st_db s) = Inr (u, st_db s')"
        by (simp add: transact_Inr)
      then have "client_connections (st_db s') = update_where (open_in rid)
          (\<lambda>c. c\<lparr>cn_disconnected := Some (Stamp at)\<rparr>) (client_connections (st_db s))"
        by (auto simp: close_stale_body_def tx_Inr dest!: requireRoom_Inr)
      with upd Inr show ?thesis by auto
    next
      case (Inl e)
      with 1 assms(2) have "st_db s' = st_db s"
        by (auto simp: transact_def Let_def split: sum.splits prod.splits)
      with Inl show ?thesis by simp
    qed
  next
    case 2
    then show ?thesis by simp
  qed
qed

theorem close_stale_all_or_nothing_witness:
  "list_all (\<lambda>c. cn_disconnected c \<noteq> None) (client_connections (st_db (snd (CloseStale ''r'' 9 connection_demo))))"
proof -
  have run: "CloseStale ''r'' 9 connection_demo = (Inr (), snd (CloseStale ''r'' 9 connection_demo))"
    by (simp add: CloseStale_def validated_def validateRoomID_def demo_connection_room transact_def close_stale_body_def tx_eval
        requireRoom_def find_room_def open_in_def Let_def connection_demo_def empty_db_def)
  have "cn_room c = ''r''" if "c \<in> set (client_connections (st_db (snd (CloseStale ''r'' 9 connection_demo))))" for c
    using that
    by (simp add: CloseStale_def validated_def validateRoomID_def demo_connection_room transact_def close_stale_body_def tx_eval
        requireRoom_def find_room_def open_in_def Let_def connection_demo_def empty_db_def update_where_def)
  with close_stale_all_or_nothing [OF run] show ?thesis by (simp add: list_all_iff connection_demo_def)
qed

end
