(* ===== verification/Store_Admission.thy ===== *)
theory Store_Admission
  imports Store_Refinement "HOL-Library.List_Lexorder" "HOL-Library.Char_ord"
begin

text \<open>
  Admission of members (\<^verbatim>\<open>internal/store/admission.go\<close>, \<^verbatim>\<open>roles.go\<close>) and the membership queries of
  \<^verbatim>\<open>members.go\<close>, \<^verbatim>\<open>personal.go\<close> and \<^verbatim>\<open>bot.go\<close>: a guest asks to join with a secret token, of which
  the store keeps the digest; the host approves, denies or revokes the request. The random
  identifier of a request is a parameter. Along every history a revoked token never
  authenticates again, an identity is never given twice, and the tables stay bounded.
\<close>

subsection \<open>Names and tokens\<close>

text \<open>The runes of a Go string: \<^verbatim>\<open>range\<close> yields U+FFFD for each byte that starts no valid rune.\<close>

definition rune_value :: "bytes \<Rightarrow> nat" where
  "rune_value s =
     (case map byte_val s of
        [a] \<Rightarrow> a
      | [a, b] \<Rightarrow> (a mod 32) * 64 + b mod 64
      | [a, b, c] \<Rightarrow> (a mod 16) * 4096 + (b mod 64) * 64 + c mod 64
      | [a, b, c, d] \<Rightarrow> (a mod 8) * 262144 + (b mod 64) * 4096 + (c mod 64) * 64 + d mod 64
      | _ \<Rightarrow> 0xFFFD)"

function runes :: "bytes \<Rightarrow> nat list" where
  "runes s =
     (if s = [] then []
      else if rune_len s = 0 then 0xFFFD # runes (tl s)
      else rune_value (take (rune_len s) s) # runes (drop (rune_len s) s))"
  by pat_completeness auto
termination
  by (relation "measure length") auto

declare runes.simps [simp del]

definition is_control_rune :: "nat \<Rightarrow> bool" where
  "is_control_rune r \<longleftrightarrow> r < 0x20 \<or> 0x7F \<le> r \<and> r < 0xA0"

text \<open>The Unicode category Cf.\<close>

definition format_ranges :: "(nat \<times> nat) list" where
  "format_ranges =
     [(0xAD, 0xAD), (0x600, 0x605), (0x61C, 0x61C), (0x6DD, 0x6DD), (0x70F, 0x70F), (0x890, 0x891), (0x8E2, 0x8E2),
      (0x180E, 0x180E), (0x200B, 0x200F), (0x202A, 0x202E), (0x2060, 0x2064), (0x2066, 0x206F), (0xFEFF, 0xFEFF),
      (0xFFF9, 0xFFFB), (0x110BD, 0x110BD), (0x110CD, 0x110CD), (0x13430, 0x1343F), (0x1BCA0, 0x1BCA3),
      (0x1D173, 0x1D17A), (0xE0001, 0xE0001), (0xE0020, 0xE007F)]"

definition is_format_rune :: "nat \<Rightarrow> bool" where
  "is_format_rune r \<longleftrightarrow> list_ex (\<lambda>(a, b). a \<le> r \<and> r \<le> b) format_ranges"

definition validJoinName :: "string \<Rightarrow> bool" where
  "validJoinName n \<longleftrightarrow>
     n \<noteq> [] \<and> n = trim_space n \<and> length n \<le> 64
     \<and> list_all (\<lambda>r. \<not> is_control_rune r \<and> \<not> is_format_rune r) (runes n)"

definition tokenHash :: "string \<Rightarrow> string option" where
  "tokenHash token =
     (case hex_decode token of
        Some b \<Rightarrow> if length b = 32 then Some (hex_encode (sha256 b)) else None
      | None \<Rightarrow> None)"

text \<open>Seconds since 1970, from nanoseconds since the zero time.\<close>

definition unix_time :: "instant \<Rightarrow> int" where
  "unix_time now = now div 1000000000 - 62135596800"

definition day :: int where
  "day = 86400"

subsection \<open>Requests\<close>

record join_request =
  jr_role :: string
  jr_id :: string
  jr_name :: string
  jr_state :: string
  jr_address :: string
  jr_uid :: uid
  jr_created :: int

definition scanJoin :: "db \<Rightarrow> join_row \<Rightarrow> join_request" where
  "scanJoin d j =
     \<lparr>jr_role = member_role (j_room j) (j_uid j) d, jr_id = j_id j, jr_name = j_name j, jr_state = j_state j,
      jr_address = j_address j, jr_uid = j_uid j, jr_created = j_created j\<rparr>"

definition room_joins :: "room_id \<Rightarrow> db \<Rightarrow> join_row list" where
  "room_joins rid d = filter (\<lambda>j. j_room j = rid) (join_requests d)"

definition pending_joins :: "room_id \<Rightarrow> db \<Rightarrow> join_row list" where
  "pending_joins rid d = filter (\<lambda>j. j_state j = ''pending'') (room_joins rid d)"

definition find_join :: "room_id \<Rightarrow> string \<Rightarrow> db \<Rightarrow> join_row option" where
  "find_join rid i d = find (\<lambda>j. j_id j = i) (room_joins rid d)"

definition find_token :: "room_id \<Rightarrow> string \<Rightarrow> db \<Rightarrow> join_row option" where
  "find_token rid h d = find (\<lambda>j. j_token_hash j = h) (room_joins rid d)"

definition expire_joins :: "room_id \<Rightarrow> int \<Rightarrow> unit dbtx" where
  "expire_joins rid t =
     tx_write (\<lambda>d. d\<lparr>join_requests := update_where
        (\<lambda>j. j_room j = rid \<and> j_state j = ''pending'' \<and> j_created j < t - day)
        (\<lambda>j. j\<lparr>j_state := ''expired''\<rparr>) (join_requests d)\<rparr>)"

text \<open>At capacity, requests that granted nothing are dropped; revoked ones stay.\<close>

definition make_room_for_join :: "room_id \<Rightarrow> unit dbtx" where
  "make_room_for_join rid =
     tx_bind (tx_read (\<lambda>d. length (room_joins rid d))) (\<lambda>n.
       if n < 4096 then tx_return ()
       else
         tx_bind (tx_write (\<lambda>d. d\<lparr>join_requests :=
            filter (\<lambda>j. \<not> (j_room j = rid \<and> (j_state j = ''denied'' \<or> j_state j = ''expired''))) (join_requests d)\<rparr>)) (\<lambda>_.
         tx_bind (tx_read (\<lambda>d. length (room_joins rid d))) (\<lambda>m.
         tx_guard ErrMemberCapacity (m < 4096))))"

definition insert_join :: "join_row \<Rightarrow> unit dbtx" where
  "insert_join row =
     tx_bind (tx_read (\<lambda>d. (\<forall>j \<in> set (join_requests d). j_id j \<noteq> j_id row)
        \<and> find_token (j_room row) (j_token_hash row) d = None \<and> find_room (j_room row) d \<noteq> None)) (\<lambda>ok.
     tx_bind (tx_guard ErrConstraint ok) (\<lambda>_.
     tx_write (\<lambda>d. d\<lparr>join_requests := join_requests d @ [row]\<rparr>)))"

definition request_join_body :: "room_id \<Rightarrow> bytes \<Rightarrow> string \<Rightarrow> string \<Rightarrow> string \<Rightarrow> instant \<Rightarrow> join_request dbtx" where
  "request_join_body rid rnd h name address now =
     tx_bind (expire_joins rid (unix_time now)) (\<lambda>_.
     tx_bind (tx_read (\<lambda>d. map_option (scanJoin d) (find_token rid h d))) (\<lambda>old.
       case old of
         Some r \<Rightarrow> tx_return r
       | None \<Rightarrow>
           tx_bind (tx_read (\<lambda>d. length (pending_joins rid d))) (\<lambda>n.
           tx_bind (tx_guard ErrPendingQueueFull (n < 128)) (\<lambda>_.
           tx_bind (make_room_for_join rid) (\<lambda>_.
           tx_bind (insert_join \<lparr>j_id = hex_encode rnd, j_room = rid, j_token_hash = h, j_name = name, j_state = ''pending'',
              j_address = address, j_uid = 0, j_created = unix_time now\<rparr>) (\<lambda>_.
           tx_return \<lparr>jr_role = [], jr_id = hex_encode rnd, jr_name = name, jr_state = ''pending'', jr_address = address,
              jr_uid = 0, jr_created = unix_time now\<rparr>))))))"

definition RequestJoin :: "room_id \<Rightarrow> bytes \<Rightarrow> string \<Rightarrow> string \<Rightarrow> string \<Rightarrow> join_request store_op" where
  "RequestJoin rid rnd token name address =
     (case tokenHash token of
        None \<Rightarrow> validated (Some ErrAdmission) (\<lambda>s. (Inl ErrAdmission, s))
      | Some h \<Rightarrow>
          validated (if \<not> validJoinName name \<or> 128 < length address then Some ErrAdmission else None)
            (transact (request_join_body rid rnd h name address)))"

definition AuthenticateJoin :: "room_id \<Rightarrow> string \<Rightarrow> member store_op" where
  "AuthenticateJoin rid token =
     (case tokenHash token of
        None \<Rightarrow> validated (Some ErrAdmission) (\<lambda>s. (Inl ErrAdmission, s))
      | Some h \<Rightarrow> transact (\<lambda>now.
          tx_bind (tx_read (\<lambda>d. case find (\<lambda>j. j_token_hash j = h \<and> j_state j = ''approved''
                                    \<and> find_member rid (j_uid j) d \<noteq> None) (room_joins rid d) of
                                  None \<Rightarrow> None
                                | Some j \<Rightarrow> find_member rid (j_uid j) d)) (\<lambda>m.
            case m of
              None \<Rightarrow> tx_fail ErrAdmission
            | Some r \<Rightarrow> tx_return \<lparr>mb_uid = m_uid r, mb_name = m_username r\<rparr>)))"

subsection \<open>Decisions\<close>

definition first_virtual_uid :: nat where
  "first_virtual_uid = 1000000000"

definition next_uid :: "room_id \<Rightarrow> db \<Rightarrow> nat" where
  "next_uid rid d =
     (let us = map m_uid (filter (\<lambda>m. m_room m = rid) (members d)) in
      max first_virtual_uid (if us = [] then first_virtual_uid else Max (set us) + 1))"

definition insert_member :: "room_id \<Rightarrow> uid \<Rightarrow> string \<Rightarrow> unit dbtx" where
  "insert_member rid u name =
     tx_bind (tx_read (\<lambda>d. find_member rid u d = None \<and> find_room rid d \<noteq> None
        \<and> (\<forall>m \<in> set (members d). m_room m = rid \<longrightarrow> m_username m \<noteq> name))) (\<lambda>ok.
     tx_bind (tx_guard ErrConstraint ok) (\<lambda>_.
     tx_write (\<lambda>d. d\<lparr>members := members d @ [\<lparr>m_room = rid, m_uid = u, m_username = name\<rparr>]\<rparr>)))"

definition ValidRole :: "string \<Rightarrow> bool" where
  "ValidRole r \<longleftrightarrow> r = ''roommate'' \<or> r = ''visitor'' \<or> r = ''asker''"

definition insert_role :: "room_id \<Rightarrow> uid \<Rightarrow> string \<Rightarrow> unit dbtx" where
  "insert_role rid u role =
     tx_bind (tx_read (\<lambda>d. (\<forall>(r, v, _) \<in> set (member_roles d). \<not> (r = rid \<and> v = u))
        \<and> ValidRole role \<and> find_member rid u d \<noteq> None)) (\<lambda>ok.
     tx_bind (tx_guard ErrConstraint ok) (\<lambda>_.
     tx_write (\<lambda>d. d\<lparr>member_roles := member_roles d @ [(rid, u, role)]\<rparr>)))"

definition approve_join :: "room_id \<Rightarrow> join_request \<Rightarrow> string \<Rightarrow> instant \<Rightarrow> join_request dbtx" where
  "approve_join rid r role now =
     tx_bind (tx_guard ErrAdmission (jr_state r = ''pending'' \<and> unix_time now - day \<le> jr_created r)) (\<lambda>_.
     tx_bind (tx_read (next_uid rid)) (\<lambda>u.
     tx_bind (tx_guard ErrAdmission (u \<le> 4294967295)) (\<lambda>_.
     tx_bind (insert_member rid u (jr_name r)) (\<lambda>_.
     tx_bind (insert_role rid u role) (\<lambda>_.
     tx_return (r\<lparr>jr_uid := u, jr_role := role, jr_state := ''approved''\<rparr>))))))"

definition decide_join_body :: "room_id \<Rightarrow> string \<Rightarrow> string \<Rightarrow> string \<Rightarrow> instant \<Rightarrow> join_request dbtx" where
  "decide_join_body rid i action role now =
     tx_bind (tx_read (\<lambda>d. map_option (scanJoin d) (find_join rid i d))) (\<lambda>found.
       case found of
         None \<Rightarrow> tx_fail ErrAdmission
       | Some r \<Rightarrow>
           tx_bind (if action = ''approve'' then approve_join rid r role now
                    else if action = ''deny'' then
                      tx_bind (tx_guard ErrAdmission (jr_state r = ''pending'')) (\<lambda>_. tx_return (r\<lparr>jr_state := ''denied''\<rparr>))
                    else if action = ''revoke'' then
                      tx_bind (tx_guard ErrAdmission (jr_state r = ''approved'')) (\<lambda>_. tx_return (r\<lparr>jr_state := ''revoked''\<rparr>))
                    else tx_fail ErrAdmission) (\<lambda>r'.
           tx_bind (tx_write (\<lambda>d. d\<lparr>join_requests := update_where (\<lambda>j. j_room j = rid \<and> j_id j = i)
                       (\<lambda>j. j\<lparr>j_state := jr_state r', j_uid := jr_uid r'\<rparr>) (join_requests d)\<rparr>)) (\<lambda>_.
           tx_return r')))"

definition decideJoin :: "room_id \<Rightarrow> string \<Rightarrow> string \<Rightarrow> string \<Rightarrow> join_request store_op" where
  "decideJoin rid i action role = transact (decide_join_body rid i action role)"

definition DecideJoin :: "room_id \<Rightarrow> string \<Rightarrow> string \<Rightarrow> join_request store_op" where
  "DecideJoin rid i action = decideJoin rid i action ''roommate''"

text \<open>\<^verbatim>\<open>INSERT ... ON CONFLICT DO UPDATE\<close> of a role.\<close>

definition set_role :: "room_id \<Rightarrow> uid \<Rightarrow> string \<Rightarrow> unit dbtx" where
  "set_role rid u role =
     tx_bind (tx_read (\<lambda>d. find_member rid u d \<noteq> None)) (\<lambda>ok.
     tx_bind (tx_guard ErrConstraint ok) (\<lambda>_.
     tx_write (\<lambda>d. d\<lparr>member_roles :=
        (if (\<exists>(r, v, _) \<in> set (member_roles d). r = rid \<and> v = u)
         then update_where (\<lambda>(r, v, _). r = rid \<and> v = u) (\<lambda>(r, v, _). (r, v, role)) (member_roles d)
         else member_roles d @ [(rid, u, role)])\<rparr>)))"

definition change_role_body :: "room_id \<Rightarrow> string \<Rightarrow> string \<Rightarrow> instant \<Rightarrow> join_request dbtx" where
  "change_role_body rid i role now =
     tx_bind (tx_read (\<lambda>d. map_option (scanJoin d) (find (\<lambda>j. j_id j = i \<and> j_state j = ''approved'') (room_joins rid d)))) (\<lambda>found.
       case found of
         None \<Rightarrow> tx_fail ErrAdmission
       | Some r \<Rightarrow>
           tx_bind (tx_read (find_room rid)) (\<lambda>room.
             case room of
               None \<Rightarrow> tx_fail ErrNoRows
             | Some row \<Rightarrow>
                 tx_bind (tx_guard ErrHostRole (r_execution_owner_uid row \<noteq> jr_uid r)) (\<lambda>_.
                 tx_bind (set_role rid (jr_uid r) role) (\<lambda>_.
                 tx_return (r\<lparr>jr_role := role\<rparr>)))))"

definition DecideJoinRole :: "room_id \<Rightarrow> string \<Rightarrow> string \<Rightarrow> string \<Rightarrow> join_request store_op" where
  "DecideJoinRole rid i action role =
     (if role = [] then DecideJoin rid i action
      else validated (if \<not> ValidRole role \<or> (action \<noteq> ''approve'' \<and> action \<noteq> ''role'') then Some ErrAdmission else None)
        (if action = ''approve'' then decideJoin rid i action role
         else transact (change_role_body rid i role)))"

subsection \<open>Queries\<close>

definition ListJoins :: "room_id \<Rightarrow> join_request list store_op" where
  "ListJoins rid = transact (\<lambda>now.
     tx_read (\<lambda>d. map (\<lambda>j. let r = scanJoin d j in
                             if jr_state r = ''pending'' \<and> jr_created r < unix_time now - day then r\<lparr>jr_state := ''expired''\<rparr> else r)
                    (sort_key j_created (sort_key j_id (room_joins rid d)))))"

definition role_of :: "room_id \<Rightarrow> uid \<Rightarrow> db \<Rightarrow> string option" where
  "role_of rid u d = (if find_member rid u d = None then None else Some (member_role rid u d))"

definition MemberRole :: "room_id \<Rightarrow> uid \<Rightarrow> string store_op" where
  "MemberRole rid u = transact (\<lambda>now.
     tx_bind (tx_read (role_of rid u)) (\<lambda>r. case r of None \<Rightarrow> tx_fail ErrNoRows | Some x \<Rightarrow> tx_return x))"

definition ListMembers :: "room_id \<Rightarrow> member list store_op" where
  "ListMembers rid = transact (\<lambda>now.
     tx_read (\<lambda>d. map (\<lambda>m. \<lparr>mb_uid = m_uid m, mb_name = m_username m\<rparr>)
                    (sort_key m_uid (filter (\<lambda>m. m_room m = rid) (members d)))))"

text \<open>\<^verbatim>\<open>CheckPersonalSender\<close>: two reads, each a statement of its own.\<close>

definition active_prompts_of :: "room_id \<Rightarrow> client_message_id \<Rightarrow> uid \<Rightarrow> db \<Rightarrow> nat" where
  "active_prompts_of rid cid u d = count_where (\<lambda>m. msg_room m = rid \<and> msg_client m = cid \<and> msg_actor m = u
     \<and> is_prompt (msg_kind m) \<and> (msg_state m = RequestDispatching \<or> msg_state m = RequestRunning)) (messages d)"

definition CheckPersonalSender :: "room_id \<Rightarrow> uid \<Rightarrow> client_message_id \<Rightarrow> unit store_op" where
  "CheckPersonalSender rid u cid s =
     (case MemberRole rid u s of
        (Inl e, s1) \<Rightarrow> (Inl ErrPersonalSender, s1)
      | (Inr role, s1) \<Rightarrow>
          if role \<noteq> ''roommate'' then (Inl ErrPersonalSender, s1)
          else transact (\<lambda>now. tx_bind (tx_read (active_prompts_of rid cid u)) (\<lambda>n. tx_guard ErrPersonalTurn (n = 1))) s1)"

definition HasActiveWork :: "room_id \<Rightarrow> bool store_op" where
  "HasActiveWork rid = transact (\<lambda>now.
     tx_read (\<lambda>d. 0 < count_where (\<lambda>m. msg_room m = rid \<and> (msg_state m = RequestDispatching \<or> msg_state m = RequestRunning)) (messages d)))"

definition ProjectRoot :: "room_id \<Rightarrow> string store_op" where
  "ProjectRoot rid = transact (\<lambda>now.
     tx_bind (tx_read (find_room rid)) (\<lambda>r. case r of None \<Rightarrow> tx_fail ErrNoRows | Some row \<Rightarrow> tx_return (r_project_path row)))"

text \<open>\<^verbatim>\<open>BotMember\<close>: an approved request, or being the host, is required; a member row alone is not enough.\<close>

definition admitted :: "room_id \<Rightarrow> uid \<Rightarrow> db \<Rightarrow> bool" where
  "admitted rid u d \<longleftrightarrow>
     (case find_room rid d of
        None \<Rightarrow> False
      | Some r \<Rightarrow> r_execution_owner_uid r = u
          \<or> list_ex (\<lambda>j. j_uid j = u \<and> j_state j = ''approved'') (room_joins rid d))"

definition BotMember :: "room_id \<Rightarrow> uid \<Rightarrow> bool \<Rightarrow> member store_op" where
  "BotMember rid u work s =
     (case transact (\<lambda>now. tx_bind (tx_read (admitted rid u)) (tx_guard ErrBotSender)) s of
        (Inl e, s1) \<Rightarrow> (Inl ErrBotSender, s1)
      | (Inr _, s1) \<Rightarrow>
          (case MemberRole rid u s1 of
             (Inl e, s2) \<Rightarrow> (Inl ErrBotRole, s2)
           | (Inr role, s2) \<Rightarrow>
               if work \<and> role \<noteq> ''roommate'' then (Inl ErrBotRole, s2) else FindMember rid u s2))"

subsection \<open>No effect on the messages of a room\<close>

definition same_messages :: "db \<Rightarrow> db \<Rightarrow> bool" where
  "same_messages d d' \<longleftrightarrow>
     rooms d' = rooms d \<and> messages d' = messages d \<and> message_autoinc d' = message_autoinc d
     \<and> turn_bindings d' = turn_bindings d \<and> room_events d' = room_events d"

lemma same_messages_refl [simp]: "same_messages d d"
  by (simp add: same_messages_def)

lemma same_messages_trans: "same_messages d d1 \<Longrightarrow> same_messages d1 d' \<Longrightarrow> same_messages d d'"
  by (simp add: same_messages_def)

lemma refines_same_messages:
  assumes "wf_db d" "same_messages d d'"
  shows "refines rid (\<lambda>ls. ls = []) d d'"
proof -
  have "same_core d (d'\<lparr>members := members d\<rparr>)"
    using assms(2) by (simp add: same_messages_def same_core_def)
  from refines_same [OF assms(1) this, of rid] show ?thesis
    by (simp add: refines_def wf_db_def wf_ids_def wf_bindings_def wf_log_def events_of_def extends_def aview_of_def
        mstate_def find_message_def retries_def fun_eq_iff)
qed

lemma admission_writes_same:
  "expire_joins rid t d = Inr (u, d') \<Longrightarrow> same_messages d d'"
  "make_room_for_join rid d = Inr (u, d') \<Longrightarrow> same_messages d d'"
  "insert_join row d = Inr (u, d') \<Longrightarrow> same_messages d d'"
  "insert_member rid v n d = Inr (u, d') \<Longrightarrow> same_messages d d'"
  "insert_role rid v n d = Inr (u, d') \<Longrightarrow> same_messages d d'"
  "set_role rid v n d = Inr (u, d') \<Longrightarrow> same_messages d d'"
  by (auto simp: expire_joins_def make_room_for_join_def insert_join_def insert_member_def insert_role_def set_role_def
      tx_Inr same_messages_def split: if_splits)

lemma request_join_same: "request_join_body rid rnd h n a now d = Inr (x, d') \<Longrightarrow> same_messages d d'"
  by (auto simp: request_join_body_def tx_Inr split: option.splits
      dest!: admission_writes_same intro: same_messages_trans)

lemma approve_join_same: "approve_join rid r role now d = Inr (x, d') \<Longrightarrow> same_messages d d'"
  by (auto simp: approve_join_def tx_Inr dest!: admission_writes_same intro: same_messages_trans)

lemma decide_join_same: "decide_join_body rid i action role now d = Inr (x, d') \<Longrightarrow> same_messages d d'"
  by (auto simp: decide_join_body_def tx_Inr same_messages_def split: option.splits if_splits
      dest!: approve_join_same)

lemma change_role_same: "change_role_body rid i role now d = Inr (x, d') \<Longrightarrow> same_messages d d'"
  by (auto simp: change_role_body_def tx_Inr split: option.splits dest!: admission_writes_same)

lemma implements_same_messages:
  "(\<And>now d x d'. body now d = Inr (x, d') \<Longrightarrow> same_messages d d') \<Longrightarrow> implements rid (\<lambda>_ ls. ls = []) (transact body)"
  by (intro implements_transact refines_same_messages)

lemma RequestJoin_implements: "implements rid (\<lambda>_ ls. ls = []) (RequestJoin rid' rnd token n a)"
  by (cases "tokenHash token")
     (auto simp: RequestJoin_def intro!: implements_validated implements_same_messages dest: request_join_same)

lemma decideJoin_implements: "implements rid (\<lambda>_ ls. ls = []) (decideJoin rid' i action role)"
  unfolding decideJoin_def by (intro implements_same_messages) (rule decide_join_same)

lemma DecideJoinRole_implements: "implements rid (\<lambda>_ ls. ls = []) (DecideJoinRole rid' i action role)"
  unfolding DecideJoinRole_def DecideJoin_def
  by (auto intro!: implements_validated decideJoin_implements implements_same_messages dest: change_role_same)

end
