(* ===== verification/Store_Properties.thy ===== *)
theory Store_Properties
  imports Store_Contract Store_Connections Store_Admission
begin

text \<open>
  Properties of the store that hold along every history of operations: one relation for every
  operation that changes the tables of this model, and what no sequence of them, with any
  storage outcome, can break.
\<close>

subsection \<open>Histories\<close>

text \<open>
  Changes by other parts of the daemon while a coordinator runs: tasks, runtime checkpoints,
  thread administration, the clock, and the outcomes storage has in store.
\<close>

inductive store_env :: "room_id \<Rightarrow> store \<Rightarrow> store \<Rightarrow> bool" for rid where
  change_task: "store_env rid s (snd (ChangeTask rid a q s))"
| checkpoint: "store_env rid s (snd (SaveRuntimeCheckpoint rid c s))"
| repair_thread: "store_env rid s (snd (RepairThread rid t re s))"
| reset_thread: "store_env rid s (snd (ResetUnusedThread rid t s))"
| connected: "store_env rid s (snd (Connected rc s))"
| acknowledged: "store_env rid s (snd (Ack cid n s))"
| disconnected: "store_env rid s (snd (Disconnected cid at s))"
| closed_stale: "store_env rid s (snd (CloseStale rid' at s))"
| requested: "store_env rid s (snd (RequestJoin rid' rnd token name address s))"
| decided: "store_env rid s (snd (DecideJoinRole rid' i action role s))"
| conditions: "store_env rid s (s\<lparr>st_io := io, st_now := now\<rparr>)"

inductive store_step :: "room_id \<Rightarrow> store \<Rightarrow> store \<Rightarrow> bool" for rid where
  environment: "store_env rid s s' \<Longrightarrow> store_step rid s s'"
| accept_message: "store_step rid s (snd (AcceptMessage rid a i s))"
| append_note: "store_step rid s (snd (AppendNote rid a i s))"
| accept_control: "store_step rid s (snd (AcceptControl rid a c s))"
| finish_control: "store_step rid s (snd (FinishControl rid cid oc s))"
| begin_dispatch: "store_step rid s (snd (BeginDispatch rid cid s))"
| fail_dispatch: "store_step rid s (snd (FailDispatch rid cid oc s))"
| bind_running: "store_step rid s (snd (BindRunningTurn rid cid turn s))"
| record_item: "store_step rid s (snd (RecordCompletedItem rid item s))"
| finish_turn: "store_step rid s (snd (FinishTurn rid fi s))"
| mark_review: "store_step rid s (snd (MarkNeedsReview rid cid re s))"
| resolve_review: "store_step rid s (snd (ResolveReview rid a ri s))"
| bind_thread: "store_step rid s (snd (BindThread rid t s))"
| mark_repair: "store_step rid s (snd (MarkThreadNeedsRepair rid re s))"
| set_status: "store_step rid s (snd (SetRoomStatus rid st s))"
| begin_private: "store_step rid s (snd (BeginPrivateTurn rid th ts s))"
| end_private: "store_step rid s (snd (EndPrivateTurn rid th ts s))"
| private_turns: "store_step rid s (snd (PrivateTurns rid th tss s))"

abbreviation store_history :: "room_id \<Rightarrow> store \<Rightarrow> store \<Rightarrow> bool" where
  "store_history rid \<equiv> (store_step rid)\<^sup>*\<^sup>*"

definition advances :: "room_id \<Rightarrow> db \<Rightarrow> db \<Rightarrow> bool" where
  "advances rid d d' \<longleftrightarrow> wf_db d' \<and> extends d d' \<and> (\<exists>ls. asteps ls (aview_of rid d) (aview_of rid d'))"

lemma advances_refl: "wf_db d \<Longrightarrow> advances rid d d"
  unfolding advances_def by (auto intro: exI [of _ "[]"])

lemma advances_trans: "advances rid d d1 \<Longrightarrow> advances rid d1 d' \<Longrightarrow> advances rid d d'"
  unfolding advances_def by (metis asteps_append extends_trans)

lemma implements_advances:
  "implements rid L oper \<Longrightarrow> wf_db (st_db s) \<Longrightarrow> advances rid (st_db s) (st_db (snd (oper s)))"
  using implements_any [of rid L oper s "fst (oper s)" "snd (oper s)"]
  by (auto simp: refines_def advances_def)

lemma store_env_advances:
  "store_env rid s s' \<Longrightarrow> wf_db (st_db s) \<Longrightarrow> advances rid (st_db s) (st_db s')"
  by (erule store_env.cases)
     (auto intro: advances_refl implements_advances [OF ChangeTask_implements]
        implements_advances [OF SaveRuntimeCheckpoint_implements] implements_advances [OF RepairThread_implements]
        implements_advances [OF ResetUnusedThread_implements] implements_advances [OF Connected_implements]
        implements_advances [OF Ack_implements] implements_advances [OF Disconnected_implements]
        implements_advances [OF CloseStale_implements] implements_advances [OF RequestJoin_implements]
        implements_advances [OF DecideJoinRole_implements])

lemma store_step_advances:
  "store_step rid s s' \<Longrightarrow> wf_db (st_db s) \<Longrightarrow> advances rid (st_db s) (st_db s')"
  by (erule store_step.cases)
     (auto intro: store_env_advances implements_advances [OF AcceptMessage_implements]
        implements_advances [OF AppendNote_implements] implements_advances [OF AcceptControl_implements]
        implements_advances [OF FinishControl_implements] implements_advances [OF BeginDispatch_implements]
        implements_advances [OF FailDispatch_implements] implements_advances [OF BindRunningTurn_implements]
        implements_advances [OF RecordCompletedItem_implements] implements_advances [OF FinishTurn_implements]
        implements_advances [OF MarkNeedsReview_implements] implements_advances [OF ResolveReview_implements]
        implements_advances [OF BindThread_implements] implements_advances [OF MarkThreadNeedsRepair_implements]
        implements_advances [OF SetRoomStatus_implements] implements_advances [OF BeginPrivateTurn_implements]
        implements_advances [OF EndPrivateTurn_implements] implements_advances [OF PrivateTurns_implements])

lemma history_advances:
  "store_history rid s s' \<Longrightarrow> wf_db (st_db s) \<Longrightarrow> advances rid (st_db s) (st_db s')"
proof (induction rule: rtranclp_induct)
  case (step t u)
  then have "advances rid (st_db s) (st_db t)" by simp
  moreover from this have "wf_db (st_db t)" by (simp add: advances_def)
  ultimately show ?case using step.hyps(2) store_step_advances advances_trans by blast
qed (rule advances_refl)

text \<open>The environment of a coordinator is harmless.\<close>

lemma implements_env:
  assumes "implements rid (\<lambda>_ ls. ls = []) oper" "sound_store s"
  shows "sound_store (snd (oper s)) \<and> quiet (store_view rid s) (store_view rid (snd (oper s)))
    \<and> store_frontier rid s \<le> store_frontier rid (snd (oper s))"
  using implements_harmless [OF assms(1)] assms(2) by (auto simp: harmless_def)

lemma store_env_harmless:
  assumes "sound_store s" "store_env rid s s'"
  shows "sound_store s' \<and> quiet (store_view rid s) (store_view rid s') \<and> store_frontier rid s \<le> store_frontier rid s'"
  using assms(2)
proof cases
  case conditions
  with assms(1) show ?thesis by (simp add: sound_store_def store_view_def store_frontier_def)
next
  case (change_task a q)
  then show ?thesis by (simp add: implements_env [OF ChangeTask_implements assms(1)])
next
  case (checkpoint c)
  then show ?thesis by (simp add: implements_env [OF SaveRuntimeCheckpoint_implements assms(1)])
next
  case (repair_thread t re)
  then show ?thesis by (simp add: implements_env [OF RepairThread_implements assms(1)])
next
  case (reset_thread t)
  then show ?thesis by (simp add: implements_env [OF ResetUnusedThread_implements assms(1)])
next
  case (connected rc)
  then show ?thesis by (simp add: implements_env [OF Connected_implements assms(1)])
next
  case (acknowledged cid n)
  then show ?thesis by (simp add: implements_env [OF Ack_implements assms(1)])
next
  case (disconnected cid at)
  then show ?thesis by (simp add: implements_env [OF Disconnected_implements assms(1)])
next
  case (closed_stale rid' at)
  then show ?thesis by (simp add: implements_env [OF CloseStale_implements assms(1)])
next
  case (requested rid' rnd token name address)
  then show ?thesis by (simp add: implements_env [OF RequestJoin_implements assms(1)])
next
  case (decided rid' i action role)
  then show ?thesis by (simp add: implements_env [OF DecideJoinRole_implements assms(1)])
qed

subsection \<open>A new room\<close>

lemma InitializeRoom_wf:
  assumes "InitializeRoom seed \<lparr>st_db = empty_db, st_io = io, st_now = now\<rparr> = (r, s)"
  shows "wf_db (st_db s)"
proof -
  have e: "wf_db empty_db"
    by (simp add: wf_db_def wf_ids_def wf_bindings_def wf_log_def empty_db_def)
  have i: "wf_db d'" if "(tx_bind (tx_read (\<lambda>d. length (rooms d))) (\<lambda>n.
     tx_bind (tx_guard ErrAlreadyInitialized (n = 0)) (\<lambda>_.
     tx_write (\<lambda>d. d\<lparr>rooms := rooms d @
         [\<lparr>r_id = rs_id seed, r_display_name = rs_display_name seed, r_host_id = rs_host_id seed,
           r_project_path = rs_project_root seed, r_execution_owner_uid = rs_execution_owner_uid seed,
           r_codex_thread_id = None, r_status = RoomReady, r_next_seq = 1\<rparr>],
         members := members d @ map (\<lambda>m. \<lparr>m_room = rs_id seed, m_uid = mb_uid m, m_username = mb_name m\<rparr>) (rs_members seed)\<rparr>))))
       empty_db = Inr (x, d')" for x d'
    using that
    by (auto simp: tx_Inr wf_db_def wf_ids_def wf_bindings_def wf_log_def empty_db_def events_of_def)
  show ?thesis
    using assms e i
    by (auto simp: InitializeRoom_def validated_def split: option.splits dest!: transact_effect)
qed

subsection \<open>A concrete store for the witnesses\<close>

definition demo_id :: "char \<Rightarrow> string" where
  "demo_id c = replicate 32 c"

definition demo_message :: "nat \<Rightarrow> char \<Rightarrow> request_state \<Rightarrow> message_row" where
  "demo_message n c st =
     \<lparr>msg_id = n, msg_room = ''r'', msg_client = demo_id c, msg_actor = 1, msg_kind = KPrompt,
      msg_body = BodyText ''go'', msg_hash = ''h'', msg_state = st, msg_seq = n, msg_created = 0\<rparr>"

definition demo_binding :: "nat \<Rightarrow> request_state \<Rightarrow> binding_row" where
  "demo_binding n st =
     \<lparr>b_room = ''r'', b_message = n, b_turn = None, b_state = st, b_started = None, b_completed = None,
      b_error_code = None, b_error_digest = None\<rparr>"

definition demo_event :: "nat \<Rightarrow> durable_event" where
  "demo_event n = \<lparr>de_seq = n, de_kind = ''message/accepted'', de_actor_uid = 1, de_payload = JNull, de_created_at = 0\<rparr>"

text \<open>A room with one member, a completed message, and a queued one.\<close>

definition demo_db :: db where
  "demo_db = empty_db
     \<lparr>rooms := [\<lparr>r_id = ''r'', r_display_name = ''d'', r_host_id = ''h'', r_project_path = ''p'', r_execution_owner_uid = 1,
                 r_codex_thread_id = Some ''th'', r_status = RoomReady, r_next_seq = 3\<rparr>],
      members := [\<lparr>m_room = ''r'', m_uid = 1, m_username = ''ann''\<rparr>],
      messages := [demo_message 1 CHR ''a'' RequestCompleted, demo_message 2 CHR ''b'' RequestQueued],
      message_autoinc := 2,
      turn_bindings := [demo_binding 1 RequestCompleted, demo_binding 2 RequestQueued],
      room_events := [(''r'', demo_event 1), (''r'', demo_event 2)]\<rparr>"

definition demo_store :: store where
  "demo_store = \<lparr>st_db = demo_db, st_io = [], st_now = 0\<rparr>"

lemmas demo_defs = demo_db_def demo_store_def demo_message_def demo_binding_def demo_event_def empty_db_def

lemma demo_id_eq [simp]: "demo_id a = demo_id b \<longleftrightarrow> a = b"
  by (simp add: demo_id_def)

lemma demo_wf: "wf_db demo_db"
  by (simp add: demo_defs wf_db_def wf_ids_def wf_bindings_def wf_log_def agrees_def bound_kind_def events_of_def upt_rec)

lemma demo_sound: "sound_store demo_store"
  by (simp add: sound_store_def demo_wf demo_store_def)

lemma demo_valid: "ValidClientMessageID (demo_id CHR ''b'')" "ValidClientMessageID (demo_id CHR ''a'')"
    "ValidClientMessageID (demo_id CHR ''c'')"
  by (simp_all add: ValidClientMessageID_def validHexID_def demo_id_def lower_hex_def list_all_iff)

lemma demo_room: "\<not> blank ''r''"
  by code_simp

text \<open>The queued message, dispatched.\<close>

definition demo_dispatched :: store where
  "demo_dispatched = snd (BeginDispatch ''r'' (demo_id CHR ''b'') demo_store)"

lemma demo_dispatched_eq:
  "demo_dispatched = demo_store\<lparr>st_db := demo_db\<lparr>
      messages := [demo_message 1 CHR ''a'' RequestCompleted, demo_message 2 CHR ''b'' RequestDispatching],
      turn_bindings := [demo_binding 1 RequestCompleted, demo_binding 2 RequestDispatching]\<rparr>\<rparr>"
  by (simp add: demo_dispatched_def BeginDispatch_def validated_def validateIdentifiers_def validateRoomID_def demo_room demo_valid
      transact_def begin_dispatch_body_def tx_eval Let_def requireMessageState_def loadStoredMessage_def find_message_def
      find_binding_def updateMessageAndBinding_def updateMessageState_def updateBinding_def count_where_def update_where_def
      coalesce_def demo_defs)

lemma demo_dispatched_history: "store_history ''r'' demo_store demo_dispatched"
  unfolding demo_dispatched_def by (intro r_into_rtranclp store_step.begin_dispatch)

subsection \<open>The log\<close>

text \<open>
  C5. After any history of store operations, whatever storage did, the events of every room are
  numbered 1, 2, 3, ... without a gap up to the room's next sequence number.
\<close>

theorem log_contiguous:
  assumes "store_history rid s s'" "wf_db (st_db s)" "r \<in> set (rooms (st_db s'))"
  shows "map de_seq (events_of (r_id r) (st_db s')) = [1..<r_next_seq r]"
  using history_advances [OF assms(1,2)] assms(3) by (auto simp: advances_def wf_db_def wf_log_def)

theorem log_contiguous_witness: "map de_seq (events_of ''r'' (st_db demo_dispatched)) = [1..<3]"
  using log_contiguous [OF demo_dispatched_history, of "hd (rooms demo_db)"] demo_wf
  by (simp add: demo_dispatched_eq, simp add: demo_defs)

text \<open>
  C6. The log of a room is append-only, and an accepted message is never lost: it keeps its
  author, kind, body, hash and sequence number; only its state can change.
\<close>

theorem history_append_only:
  assumes "store_history rid s s'" "wf_db (st_db s)"
  shows "prefix (events_of rid' (st_db s)) (events_of rid' (st_db s'))
    \<and> prefix (map frozen (messages (st_db s))) (map frozen (messages (st_db s')))"
  using history_advances [OF assms]
  by (auto simp: advances_def extends_def events_of_def prefix_def)

theorem history_append_only_witness:
  "prefix (events_of ''r'' (st_db demo_store)) (events_of ''r'' (st_db demo_dispatched))
   \<and> prefix (map frozen (messages (st_db demo_store))) (map frozen (messages (st_db demo_dispatched)))"
  by (rule history_append_only [OF demo_dispatched_history]) (simp add: demo_store_def demo_wf)

text \<open>
  C3. A completed, failed or interrupted message stays so along every history of operations, late
  events, retries and recovery decisions included.
\<close>

theorem terminal_states_final:
  assumes "store_history rid s s'" "wf_db (st_db s)" "find_message rid cid (st_db s) = Some m" "isTerminal (msg_state m)"
  shows "\<exists>m'. find_message rid cid (st_db s') = Some m' \<and> msg_state m' = msg_state m"
proof -
  from history_advances [OF assms(1,2)] obtain ls where
    "asteps ls (aview_of rid (st_db s)) (aview_of rid (st_db s'))" by (auto simp: advances_def)
  from asteps_terminal [OF this, of cid "msg_kind m" "msg_state m"] assms(3,4)
  have "mstate rid (st_db s') cid = Some (msg_kind m, msg_state m)"
    by (simp add: aview_of_def mstate_def)
  then show ?thesis by (auto simp: mstate_def)
qed

theorem terminal_states_final_witness:
  "\<exists>m'. find_message ''r'' (demo_id CHR ''a'') (st_db demo_dispatched) = Some m' \<and> msg_state m' = RequestCompleted"
  using terminal_states_final [OF demo_dispatched_history, of "demo_id CHR ''a''" "demo_message 1 CHR ''a'' RequestCompleted"] demo_wf
  by (simp add: demo_store_def demo_defs find_message_def isTerminal_def)

text \<open>
  C12. Along every history each prompt and control has exactly one turn binding, and the binding is
  always in the state of its message; notes and recovery commands have none and are complete.
\<close>

theorem bindings_agree_with_messages:
  assumes "store_history rid s s'" "wf_db (st_db s)" "m \<in> set (messages (st_db s'))"
  shows "if bound_kind (msg_kind m)
     then \<exists>!b. b \<in> set (turn_bindings (st_db s')) \<and> b_message b = msg_id m \<and> b_state b = msg_state m
     else msg_state m = RequestCompleted \<and> (\<forall>b \<in> set (turn_bindings (st_db s')). b_message b \<noteq> msg_id m)"
proof -
  from history_advances [OF assms(1,2)] have wf: "wf_ids (st_db s')" "wf_bindings (st_db s')"
    by (auto simp: advances_def wf_db_def)
  have unique: "b = b'" if "b \<in> set (turn_bindings (st_db s'))" "b' \<in> set (turn_bindings (st_db s'))" "b_message b = b_message b'" for b b'
    using wf(1) that unfolding wf_ids_def distinct_map by (blast dest: inj_onD)
  show ?thesis
  proof (cases "bound_kind (msg_kind m)")
    case True
    with wf(2) assms(3) obtain b where "b \<in> set (turn_bindings (st_db s'))" "agrees m b"
      unfolding wf_bindings_def by blast
    with True unique show ?thesis by (auto simp: agrees_def)
  next
    case False
    have "b_message b \<noteq> msg_id m" if b: "b \<in> set (turn_bindings (st_db s'))" for b
    proof
      assume eq: "b_message b = msg_id m"
      from wf(2) b obtain m' where m': "m' \<in> set (messages (st_db s'))" "agrees m' b" "bound_kind (msg_kind m')"
        unfolding wf_bindings_def by blast
      with eq wf_ids_msg_id [OF wf(1) m'(1) assms(3)] False show False by (auto simp: agrees_def)
    qed
    with False wf(2) assms(3) show ?thesis unfolding wf_bindings_def by auto
  qed
qed

theorem bindings_agree_with_messages_witness:
  "\<exists>!b. b \<in> set (turn_bindings (st_db demo_dispatched)) \<and> b_message b = 2 \<and> b_state b = RequestDispatching"
proof -
  have m: "demo_message 2 CHR ''b'' RequestDispatching \<in> set (messages (st_db demo_dispatched))"
    by (simp add: demo_dispatched_eq)
  have "wf_db (st_db demo_store)" by (simp add: demo_store_def demo_wf)
  from bindings_agree_with_messages [OF demo_dispatched_history this m] show ?thesis
    by (simp add: demo_message_def bound_kind_def)
qed

subsection \<open>Idempotent acceptance\<close>

definition accepted_as ::
  "room_id \<Rightarrow> client_message_id \<Rightarrow> message_kind \<Rightarrow> uid \<Rightarrow> bytes \<Rightarrow> acceptance \<Rightarrow> db \<Rightarrow> bool" where
  "accepted_as rid cid k u h ac d \<longleftrightarrow>
     (\<exists>m. find_message rid cid d = Some m \<and> msg_kind m = k \<and> msg_actor m = u \<and> msg_hash m = h
        \<and> msg_id m = ac_message_id ac \<and> msg_seq m = ac_seq ac \<and> find_event rid (ac_seq ac) d = Some (ac_event ac))"

lemma find_event_wf:
  assumes "wf_log d" "r \<in> set (rooms d)" "r_id r = rid" "e \<in> set (events_of rid d)"
  shows "find_event rid (de_seq e) d = Some e"
proof -
  have "map de_seq (events_of rid d) = [1..<r_next_seq r]"
    using assms(1-3) unfolding wf_log_def by blast
  then have "distinct (map de_seq (events_of rid d))" by simp
  then show ?thesis
    unfolding find_event_def using assms(4) by (intro find_unique [where k = de_seq]) auto
qed

lemma extends_message:
  assumes "wf_db d'" "extends d d'" "find_message rid cid d = Some m"
  shows "\<exists>m'. find_message rid cid d' = Some m' \<and> frozen m' = frozen m"
proof -
  from assms(3) have m: "m \<in> set (messages d)" "msg_room m = rid" "msg_client m = cid"
    using find_message_SomeD by auto
  then have "frozen m \<in> set (map frozen (messages d'))"
    using assms(2) set_mono_prefix [of "map frozen (messages d)" "map frozen (messages d')"]
    by (auto simp: extends_def)
  then obtain m' where m': "m' \<in> set (messages d')" "frozen m' = frozen m" by auto
  then have "msg_room m' = rid \<and> msg_client m' = cid"
    using m(2,3) by (auto simp: frozen_def dest: arg_cong [where f = msg_room] arg_cong [where f = msg_client])
  with wf_ids_find_message [of d' m'] assms(1) m' show ?thesis by (auto simp: wf_db_def)
qed

lemma frozen_fields:
  "frozen m' = frozen m \<Longrightarrow> msg_kind m' = msg_kind m \<and> msg_actor m' = msg_actor m \<and> msg_hash m' = msg_hash m
     \<and> msg_id m' = msg_id m \<and> msg_seq m' = msg_seq m \<and> msg_body m' = msg_body m"
  by (cases m; cases m') (simp add: frozen_def)

lemma extends_event:
  assumes "wf_db d'" "extends d d'" "find_event rid n d = Some e" "find_message rid cid d' = Some m"
  shows "find_event rid n d' = Some e"
proof -
  have e: "e \<in> set (events_of rid d)" "de_seq e = n"
    using assms(3) by (auto simp: find_event_def dest: find_SomeD)
  then have "e \<in> set (events_of rid d')"
    using assms(2) by (auto simp: extends_def events_of_def prefix_def)
  moreover obtain r where "r \<in> set (rooms d')" "r_id r = rid"
    using assms(1) find_message_SomeD [OF assms(4)] unfolding wf_db_def wf_log_def by blast
  ultimately show ?thesis
    using find_event_wf [of d' r rid e] assms(1) e(2) by (simp add: wf_db_def)
qed

lemma accepted_as_persists:
  assumes "advances rid d d'" "accepted_as rid cid k u h ac d"
  shows "accepted_as rid cid k u h ac d'"
proof -
  from assms(1) have a: "wf_db d'" "extends d d'" by (auto simp: advances_def)
  from assms(2) obtain m where m: "find_message rid cid d = Some m" "msg_kind m = k" "msg_actor m = u" "msg_hash m = h"
     "msg_id m = ac_message_id ac" "msg_seq m = ac_seq ac" "find_event rid (ac_seq ac) d = Some (ac_event ac)"
    by (auto simp: accepted_as_def)
  from extends_message [OF a m(1)] obtain m' where m': "find_message rid cid d' = Some m'" "frozen m' = frozen m" by blast
  from frozen_fields [OF m'(2)] m m'(1) extends_event [OF a m(7) m'(1)] show ?thesis
    by (simp add: accepted_as_def)
qed

lemma accept_body_accepted:
  assumes wf: "wf_db d"
    and run: "accept_body rid a cid k b h (initial_state k) (bound_kind k) ek task now d = Inr (ac, d')"
    and ek: "ek \<noteq> ''recovery/retried''"
  shows "accepted_as rid cid k (actor_uid a) h ac d'"
proof (cases "loadStoredMessage rid cid d")
  case (Some m)
  from loadStoredMessage_Some [OF this] obtain row where row: "find_message rid cid d = Some row" "shows_message m row" by blast
  from Some run have "accept_duplicate rid cid m k (actor_uid a) h d = Inr (ac, d')"
    by (simp add: accept_body_def tx_Inr)
  from accept_duplicate_Inr [OF this] row show ?thesis
    by (auto simp: accepted_as_def acceptance_of_def shows_message_def)
next
  case None
  with run have new: "accept_new rid a cid k b h (initial_state k) (bound_kind k) ek task now d = Inr (ac, d')"
    by (simp add: accept_body_def tx_Inr)
  have "\<not> bound_kind k \<Longrightarrow> initial_state k = RequestCompleted"
    by (auto simp: bound_kind_def initial_state_def is_prompt_def is_control_def)
  from accept_new_added [OF new refl this] obtain row e where
    add: "added rid row e d d'" "msg_client row = cid" "msg_kind row = k" "msg_actor row = actor_uid a" "msg_hash row = h"
    and ac: "ac = acceptance_of (msg_id row) cid (msg_seq row) (initial_state k) [] False e" by blast
  from add(1) have seq: "de_seq e = msg_seq row" and ev: "room_events d' = room_events d @ [(rid, e)]" by (auto simp: added_def)
  have m: "find_message rid cid d' = Some row"
    using added_find_message [OF add(1), of cid] add(2) by simp
  from added_wf [OF add(1) wf] have wf': "wf_db d'" .
  obtain r where "r \<in> set (rooms d')" "r_id r = rid"
    using wf' find_message_SomeD [OF m] unfolding wf_db_def wf_log_def by blast
  with find_event_wf [of d' r rid e] wf' events_of_append [OF ev, of rid] seq
  have "find_event rid (msg_seq row) d' = Some e" by (simp add: wf_db_def)
  with m add ac show ?thesis by (simp add: accepted_as_def acceptance_of_def)
qed

lemma accepted_as_duplicate:
  assumes "accepted_as rid cid k (actor_uid a) h ac d"
  shows "\<exists>ac'. accept_body rid a cid k b h initial binding ek task now d = Inr (ac', d) \<and> ac_duplicate ac'
     \<and> ac_seq ac' = ac_seq ac \<and> ac_message_id ac' = ac_message_id ac \<and> ac_event ac' = ac_event ac"
proof -
  from assms obtain m where m: "find_message rid cid d = Some m" "msg_kind m = k" "msg_actor m = actor_uid a" "msg_hash m = h"
     "msg_id m = ac_message_id ac" "msg_seq m = ac_seq ac" "find_event rid (ac_seq ac) d = Some (ac_event ac)"
    by (auto simp: accepted_as_def)
  then show ?thesis
    by (simp add: accept_body_def loadStoredMessage_def accept_duplicate_def loadEventTx_def tx_eval acceptance_of_def)
qed

text \<open>
  C4. Submitting the same message again, at any later time and whatever happened in between, is
  answered with the original message number, sequence number and event, is marked as a
  duplicate, and changes nothing.
\<close>

theorem accept_message_idempotent:
  assumes "wf_db (st_db s)" "AcceptMessage rid a i s = (Inr ac, s1)" "store_history rid s1 s2" "st_io s2 = []"
  shows "\<exists>ac'. AcceptMessage rid a i s2 = (Inr ac', s2) \<and> ac_duplicate ac' \<and> ac_seq ac' = ac_seq ac
     \<and> ac_message_id ac' = ac_message_id ac \<and> ac_event ac' = ac_event ac"
proof -
  let ?h = "canonicalHash KPrompt (actor_uid a) (JObj ([(''text'', JStr (si_text i))] @ opt_int ''taskId'' (si_task_id i)))"
  have k: "initial_state KPrompt = RequestQueued" "bound_kind KPrompt = True"
    by (simp_all add: initial_state_def is_prompt_def bound_kind_def)
  have v: "validate_submit i = None" "validateRoomID rid = None"
    using assms(2) by (auto simp: AcceptMessage_def accept_def validated_def split: option.splits)
  note body = AcceptMessage_Inr [OF assms(2)]
  have acc: "accepted_as rid (si_client_message_id i) KPrompt (actor_uid a) ?h ac (st_db s1)"
    using body k by (intro accept_body_accepted [OF assms(1)]) auto
  have "wf_db (st_db s1)"
    using implements_advances [OF AcceptMessage_implements assms(1), of rid a i] assms(2) by (simp add: advances_def)
  from accepted_as_persists [OF history_advances [OF assms(3) this] acc]
  have "accepted_as rid (si_client_message_id i) KPrompt (actor_uid a) ?h ac (st_db s2)" .
  from accepted_as_duplicate [OF this] obtain ac' where
    "accept_body rid a (si_client_message_id i) KPrompt (BodyText (si_text i)) ?h RequestQueued True ''message/accepted'' (si_task_id i)
       (st_now s2) (st_db s2) = Inr (ac', st_db s2)"
    "ac_duplicate ac'" "ac_seq ac' = ac_seq ac" "ac_message_id ac' = ac_message_id ac" "ac_event ac' = ac_event ac" by blast
  with v assms(4) show ?thesis
    by (auto simp: AcceptMessage_def accept_def validated_def transact_ok)
qed

definition demo_submit :: submit_input where
  "demo_submit = \<lparr>si_task_id = 0, si_client_message_id = demo_id CHR ''c'', si_text = ''go''\<rparr>"

definition demo_actor :: actor where
  "demo_actor = \<lparr>actor_uid = 1, actor_name = ''ann''\<rparr>"

lemma demo_texts: "\<not> blank ''go''" "\<not> blank ''ann''"
  by code_simp+

lemma demo_accept: "\<exists>ac. AcceptMessage ''r'' demo_actor demo_submit demo_store = (Inr ac, snd (AcceptMessage ''r'' demo_actor demo_submit demo_store))
     \<and> ac_seq ac = 3 \<and> \<not> ac_duplicate ac"
  by (simp add: AcceptMessage_def accept_def validated_def validate_submit_def validateRoomID_def demo_valid demo_room demo_texts
      demo_submit_def demo_actor_def transact_def accept_body_def loadStoredMessage_def find_message_def accept_new_def requireActor_def
      find_member_def allocateSeq_def find_room_def insertMessage_def insertBinding_def insertEventAt_def find_event_def events_of_def
      Let_def tx_eval demo_defs update_where_def acceptance_of_def find_append)

theorem accept_message_idempotent_witness:
  "\<exists>ac'. AcceptMessage ''r'' demo_actor demo_submit (snd (AcceptMessage ''r'' demo_actor demo_submit demo_store))
       = (Inr ac', snd (AcceptMessage ''r'' demo_actor demo_submit demo_store))
     \<and> ac_duplicate ac' \<and> ac_seq ac' = 3"
proof -
  obtain ac where ac: "AcceptMessage ''r'' demo_actor demo_submit demo_store = (Inr ac, snd (AcceptMessage ''r'' demo_actor demo_submit demo_store))"
    "ac_seq ac = 3" using demo_accept by blast
  have "st_io (snd (AcceptMessage ''r'' demo_actor demo_submit demo_store)) = []"
    by (auto simp: AcceptMessage_def accept_def validated_def transact_def Let_def demo_store_def split: option.splits sum.splits)
  with accept_message_idempotent [OF _ ac(1) rtranclp.rtrancl_refl] ac(2) demo_wf show ?thesis
    by (fastforce simp: demo_store_def)
qed

text \<open>
  A client message identifier names one command for ever: another kind, author or content
  under the same identifier is refused as an idempotency conflict, and nothing changes.
\<close>

theorem accept_message_conflict:
  assumes "find_message rid (si_client_message_id i) (st_db s) = Some m"
    and "msg_kind m \<noteq> KPrompt \<or> msg_actor m \<noteq> actor_uid a
       \<or> msg_hash m \<noteq> canonicalHash KPrompt (actor_uid a) (JObj ([(''text'', JStr (si_text i))] @ opt_int ''taskId'' (si_task_id i)))"
    and "validate_submit i = None" "validateRoomID rid = None" "st_io s = []"
  shows "AcceptMessage rid a i s = (Inl ErrIdempotencyConflict, s)"
  using assms
  by (auto simp: AcceptMessage_def accept_def validated_def transact_def Let_def accept_body_def loadStoredMessage_def
      accept_duplicate_def tx_eval)

theorem accept_message_conflict_witness:
  "AcceptMessage ''r'' (demo_actor\<lparr>actor_uid := 2\<rparr>) (demo_submit\<lparr>si_client_message_id := demo_id CHR ''b''\<rparr>) demo_store
     = (Inl ErrIdempotencyConflict, demo_store)"
  by (rule accept_message_conflict [where m = "demo_message 2 CHR ''b'' RequestQueued"])
     (simp_all add: demo_defs demo_submit_def demo_actor_def find_message_def validate_submit_def demo_valid demo_texts
        validateRoomID_def demo_room)

subsection \<open>Reading the log\<close>

lemma map_insort_key: "map f (insort_key f x xs) = insort (f x) (map f xs)"
  by (induction xs) auto

lemma map_sort_key: "map f (sort_key f xs) = sort (map f xs)"
  by (induction xs) (simp_all add: map_insort_key)

lemma filter_upt: "filter (\<lambda>n. a < n \<and> (b = 0 \<or> n \<le> b)) [1..<N] = [a + 1..<(if b = 0 then N else min N (b + 1))]"
proof -
  have "filter (\<lambda>n. a < n \<and> (b = 0 \<or> n \<le> b)) [1..<N] = filter (\<lambda>n. a < n \<and> n < (if b = 0 then N else min N (b + 1))) [1..<N]"
    by (rule filter_cong) auto
  also have "filter (\<lambda>n. a < n \<and> n < M) [1..<N] = [a + 1..<M]" if "M \<le> N" for M
    using that
  proof (induction N arbitrary: M)
    case (Suc N)
    show ?case
    proof (cases "M = Suc N")
      case True
      have "filter (\<lambda>n. a < n \<and> n < Suc N) [1..<N] = filter (\<lambda>n. a < n \<and> n < N) [1..<N]"
        by (rule filter_cong) auto
      with Suc.IH [of N] True show ?thesis by auto
    next
      case False
      with Suc show ?thesis by auto
    qed
  qed simp
  finally show ?thesis by simp
qed

lemma select_events_seqs:
  assumes "wf_db d" "find_room rid d = Some r"
  shows "map de_seq (select_events rid after through limit d) =
     take limit [after + 1..<(if through = 0 then r_next_seq r else min (r_next_seq r) (through + 1))]"
proof -
  have log: "map de_seq (events_of rid d) = [1..<r_next_seq r]"
    using assms find_room_SomeD [OF assms(2)] by (auto simp: wf_db_def wf_log_def)
  have "map de_seq (filter (\<lambda>e. after < de_seq e \<and> (through = 0 \<or> de_seq e \<le> through)) (events_of rid d)) =
     filter (\<lambda>n. after < n \<and> (through = 0 \<or> n \<le> through)) (map de_seq (events_of rid d))"
    by (simp add: filter_map o_def)
  also have "\<dots> = [after + 1..<(if through = 0 then r_next_seq r else min (r_next_seq r) (through + 1))]"
    unfolding log by (rule filter_upt)
  finally have "map de_seq (sort_key de_seq (filter (\<lambda>e. after < de_seq e \<and> (through = 0 \<or> de_seq e \<le> through)) (events_of rid d)))
     = [after + 1..<(if through = 0 then r_next_seq r else min (r_next_seq r) (through + 1))]"
    by (simp add: map_sort_key sort_upt del: upt_Suc)
  then show ?thesis by (simp add: select_events_def flip: take_map)
qed

text \<open>
  A page of the log holds exactly the next \<open>limit\<close> events after a position, up to the
  requested end: consecutive sequence numbers, nothing skipped, nothing repeated, and reading
  changes nothing.
\<close>

theorem events_page_exact:
  assumes "wf_db (st_db s)" "find_room rid (st_db s) = Some r" "validateRoomID rid = None"
    "0 < limit" "through = 0 \<or> after \<le> through" "st_io s = []"
  shows "\<exists>page. Events rid after through limit s = (Inr page, s) \<and> set page \<subseteq> set (events_of rid (st_db s)) \<and>
     map de_seq page = take (nat limit) [after + 1..<(if through = 0 then r_next_seq r else min (r_next_seq r) (through + 1))]"
proof -
  have "Events rid after through limit s = (Inr (select_events rid after through (nat limit) (st_db s)), s)"
    using assms by (auto simp: Events_def validated_def transact_def requireRoom_def tx_eval Let_def)
  moreover have "set (select_events rid after through (nat limit) (st_db s)) \<subseteq> set (events_of rid (st_db s))"
    by (auto simp: select_events_def dest: in_set_takeD)
  ultimately show ?thesis using select_events_seqs [OF assms(1,2)] by blast
qed

theorem events_page_exact_witness:
  "\<exists>page. Events ''r'' 1 0 10 demo_store = (Inr page, demo_store) \<and> map de_seq page = [2]"
proof -
  let ?r = "\<lparr>r_id = ''r'', r_display_name = ''d'', r_host_id = ''h'', r_project_path = ''p'', r_execution_owner_uid = 1,
                 r_codex_thread_id = Some ''th'', r_status = RoomReady, r_next_seq = 3\<rparr>"
  have "\<exists>page. Events ''r'' 1 0 10 demo_store = (Inr page, demo_store) \<and> set page \<subseteq> set (events_of ''r'' (st_db demo_store)) \<and>
     map de_seq page = take (nat 10) [1 + 1..<(if (0::nat) = 0 then r_next_seq ?r else min (r_next_seq ?r) (0 + 1))]"
    by (rule events_page_exact) (simp_all add: demo_wf demo_store_def, simp_all add: demo_defs find_room_def validateRoomID_def demo_room)
  then show ?thesis by (auto simp: upt_rec)
qed

subsection \<open>Completed items\<close>

definition item_matches :: "completed_item \<Rightarrow> durable_event \<Rightarrow> bool" where
  "item_matches i e \<longleftrightarrow>
     de_kind e = ''item/completed''
     \<and> extract_text [''thread_id''] (de_payload e) = Some (it_thread_id i)
     \<and> extract_text [''turn_id''] (de_payload e) = Some (it_turn_id i)
     \<and> extract_text [''item_id''] (de_payload e) = Some (it_item_id i)"

lemma sort_key_events:
  assumes "wf_db d" "find_room rid d = Some r"
  shows "sort_key de_seq (events_of rid d) = events_of rid d"
proof -
  have "map de_seq (events_of rid d) = [1..<r_next_seq r]"
    using assms find_room_SomeD [OF assms(2)] by (auto simp: wf_db_def wf_log_def)
  then have "sorted (map de_seq (events_of rid d))" by simp
  then show ?thesis by (rule sort_key_id_if_sorted)
qed

lemma find_item_eq:
  "wf_db d \<Longrightarrow> find_room rid d = Some r \<Longrightarrow> find_item rid i d = find (item_matches i) (events_of rid d)"
  by (simp add: find_item_def sort_key_events item_matches_def [abs_def])

lemma same_item_payload_refl: "same_item_payload p p"
  by (simp add: same_item_payload_def Let_def)

lemma record_item_recorded:
  assumes wf: "wf_db d" and run: "record_item_body rid i now d = Inr (e, d')"
  shows "wf_db d' \<and> find (item_matches i) (events_of rid d') = Some e
     \<and> same_item_payload (event_item_payload e) (stored_payload (it_payload i))"
proof -
  from run obtain r where r: "find_room rid d = Some r" "r_codex_thread_id r = Some (it_thread_id i)"
    by (auto simp: record_item_body_def tx_Inr split: option.splits)
  show ?thesis
  proof (cases "find_item rid i d")
    case (Some e0)
    with run r have "e = e0" "d' = d" "same_item_payload (event_item_payload e) (stored_payload (it_payload i))"
      by (auto simp: record_item_body_def tx_Inr)
    with Some wf find_item_eq [OF wf r(1), of i] show ?thesis by simp
  next
    case None
    let ?p = "JObj [(''thread_id'', JStr (it_thread_id i)), (''turn_id'', JStr (it_turn_id i)),
                         (''item_id'', JStr (it_item_id i)), (''payload'', JRaw (stored_payload (it_payload i)))]"
    from None run r have "appendEvent now rid 0 ''item/completed'' ?p d = Inr (e, d')"
      by (auto simp: record_item_body_def tx_Inr)
    from appendEvent_Inr [OF this] have l: "logged rid e d d'" "de_kind e = ''item/completed''" "de_payload e = ?p" by auto
    then have ev: "events_of rid d' = events_of rid d @ [e]"
      using events_of_append [of d' d rid e rid] by (simp add: logged_def)
    have "item_matches i e"
      by (simp add: item_matches_def l extract_text_def json_get_def json_text_def)
    moreover have "event_item_payload e = stored_payload (it_payload i)"
      by (simp add: event_item_payload_def l json_get_def)
    moreover have "find (item_matches i) (events_of rid d) = None"
      using None find_item_eq [OF wf r(1), of i] by simp
    ultimately show ?thesis
      using logged_wf [OF l(1) wf] by (simp add: ev find_append same_item_payload_refl)
  qed
qed

text \<open>
  Recording a completed item again, while its thread is still bound and after any other
  operations, returns the event it was first recorded under and appends nothing: replaying the
  agent's history after a restart does not duplicate output.
\<close>

theorem record_item_idempotent:
  assumes "wf_db (st_db s)" "RecordCompletedItem rid i s = (Inr e, s1)" "store_history rid s1 s2"
    "find_room rid (st_db s2) = Some r" "r_codex_thread_id r = Some (it_thread_id i)" "st_io s2 = []"
  shows "RecordCompletedItem rid i s2 = (Inr e, s2)"
proof -
  have v: "validateRoomID rid = None" "item_error i = None"
    and body: "record_item_body rid i (st_now s) (st_db s) = Inr (e, st_db s1)"
    using assms(2) by (auto simp: RecordCompletedItem_def validated_def split: option.splits dest!: transact_Inr)
  note 1 = record_item_recorded [OF assms(1) body]
  from 1 history_advances [OF assms(3)] have adv: "advances rid (st_db s1) (st_db s2)" by simp
  then have wf2: "wf_db (st_db s2)" and "prefix (events_of rid (st_db s1)) (events_of rid (st_db s2))"
    by (auto simp: advances_def extends_def events_of_def prefix_def)
  then obtain es where "events_of rid (st_db s2) = events_of rid (st_db s1) @ es" by (auto simp: prefix_def)
  with 1 have "find (item_matches i) (events_of rid (st_db s2)) = Some e" by (simp add: find_append)
  with find_item_eq [OF wf2 assms(4)] have "find_item rid i (st_db s2) = Some e" by simp
  with v assms(4-6) 1 show ?thesis
    by (simp add: RecordCompletedItem_def validated_def transact_def record_item_body_def tx_eval Let_def)
qed

definition demo_item :: completed_item where
  "demo_item = \<lparr>it_thread_id = ''th'', it_turn_id = ''tu'', it_item_id = ''it'', it_payload = ''{}''\<rparr>"

lemma demo_item_ok: "item_error demo_item = None"
  by code_simp

lemma demo_item_run:
  "\<exists>e d. RecordCompletedItem ''r'' demo_item demo_store = (Inr e, \<lparr>st_db = d, st_io = [], st_now = 0\<rparr>)
     \<and> find_room ''r'' d = Some ((hd (rooms demo_db))\<lparr>r_next_seq := 4\<rparr>)"
  by (simp add: RecordCompletedItem_def validated_def validateRoomID_def demo_room demo_item_ok transact_def record_item_body_def
        find_room_def find_item_def events_of_def tx_eval Let_def appendEvent_def allocateSeq_def insertEventAt_def
        find_event_def update_where_def demo_defs extract_text_def json_text_def, simp add: demo_item_def)

theorem record_item_idempotent_witness:
  "\<exists>e. RecordCompletedItem ''r'' demo_item (snd (RecordCompletedItem ''r'' demo_item demo_store))
      = (Inr e, snd (RecordCompletedItem ''r'' demo_item demo_store))"
proof -
  obtain e d where run: "RecordCompletedItem ''r'' demo_item demo_store = (Inr e, \<lparr>st_db = d, st_io = [], st_now = 0\<rparr>)"
    and room: "find_room ''r'' d = Some ((hd (rooms demo_db))\<lparr>r_next_seq := 4\<rparr>)" using demo_item_run by blast
  have "RecordCompletedItem ''r'' demo_item \<lparr>st_db = d, st_io = [], st_now = 0\<rparr> = (Inr e, \<lparr>st_db = d, st_io = [], st_now = 0\<rparr>)"
    by (rule record_item_idempotent [OF _ run rtranclp.rtrancl_refl, where r = "(hd (rooms demo_db))\<lparr>r_next_seq := 4\<rparr>"])
       (use room demo_sound in \<open>simp_all add: sound_store_def\<close>, simp add: demo_db_def demo_item_def)
  with run show ?thesis by simp
qed

end
