(* ===== verification/Store_Lifecycle.thy ===== *)
theory Store_Lifecycle
  imports Store_Properties
begin

text \<open>
  The life cycle of a prompt in the store, branch by branch: what each transition requires and
  answers, that an undisturbed store takes a prompt from the queue to its end, what the
  recovery image shows, and that a review is decided once.
\<close>

subsection \<open>Statements that succeed\<close>

lemma count_where_unique:
  assumes "distinct (map k xs)" "x \<in> set xs" "P x" "\<And>y. P y \<Longrightarrow> k y = k x"
  shows "count_where P xs = 1"
proof -
  have "count_where P xs \<le> 1" by (rule count_where_distinct_le [OF assms(1)]) (metis assms(4))
  moreover have "0 < count_where P xs" using assms(2,3) by (auto simp: count_where_pos)
  ultimately show ?thesis by simp
qed

lemma update_state_succeeds:
  assumes wf: "wf_db d" and m: "find_message rid cid d = Some m" "bound_kind (msg_kind m)"
    and f: "\<And>b. b_message (f b) = b_message b \<and> b_room (f b) = b_room b \<and> b_state (f b) = new"
  shows "\<exists>d'. tx_bind (updateMessageState e rid (msg_id m) (msg_state m) new)
       (\<lambda>_. updateBinding e rid (msg_id m) (msg_state m) f) d = Inr ((), d')
     \<and> moved rid (msg_id m) (msg_state m) new d d'"
proof -
  let ?P = "\<lambda>x. msg_room x = rid \<and> msg_id x = msg_id m \<and> msg_state x = msg_state m"
  let ?Q = "\<lambda>b. b_room b = rid \<and> b_message b = msg_id m \<and> b_state b = msg_state m"
  from find_message_SomeD [OF m(1)] have md: "m \<in> set (messages d)" "msg_room m = rid" by auto
  with wf have 1: "count_where ?P (messages d) = 1"
    by (intro count_where_unique [where k = msg_id and x = m]) (auto simp: wf_db_def wf_ids_def)
  from wf md m(2) obtain b where "b \<in> set (turn_bindings d)" "agrees m b"
    unfolding wf_db_def wf_bindings_def by blast
  with wf md have 2: "count_where ?Q (turn_bindings d) = 1"
    by (intro count_where_unique [where k = b_message and x = b]) (auto simp: wf_db_def wf_ids_def agrees_def)
  let ?d1 = "d\<lparr>messages := update_where ?P (\<lambda>m. m\<lparr>msg_state := new\<rparr>) (messages d)\<rparr>"
  have u: "updateMessageState e rid (msg_id m) (msg_state m) new d = Inr ((), ?d1)"
    using 1 by (simp add: updateMessageState_def Let_def tx_eval)
  have b: "updateBinding e rid (msg_id m) (msg_state m) f ?d1 = Inr ((), ?d1\<lparr>turn_bindings := update_where ?Q f (turn_bindings d)\<rparr>)"
    using 2 by (simp add: updateBinding_def Let_def tx_eval)
  from paired_update_moved [OF u b f] u b show ?thesis by (auto simp: tx_bind_def)
qed

lemma appendEvent_succeeds:
  assumes "wf_db d" "find_room rid d = Some r"
  shows "\<exists>e d'. appendEvent now rid u k p d = Inr (e, d')"
proof -
  have log: "map de_seq (events_of rid d) = [1..<r_next_seq r]"
    using assms find_room_SomeD [OF assms(2)] by (auto simp: wf_db_def wf_log_def)
  then have "r_next_seq r \<notin> set (map de_seq (events_of rid d))" by simp
  then have "find_event rid (r_next_seq r) d = None"
    unfolding find_event_def find_None_iff by (metis image_eqI list.set_map)
  moreover have "find_room rid (d\<lparr>rooms := bump rid (rooms d)\<rparr>) \<noteq> None"
    using assms(2) by (simp add: find_room_def bump_def find_update_where)
  ultimately show ?thesis
    using assms(2)
    by (simp add: appendEvent_def allocateSeq_def insertEventAt_def tx_eval find_event_def events_of_def bump_def Let_def)
qed

lemma message_room: "wf_db d \<Longrightarrow> find_message rid cid d = Some m \<Longrightarrow> \<exists>r. find_room rid d = Some r"
proof -
  assume "wf_db d" "find_message rid cid d = Some m"
  then obtain r where "r \<in> set (rooms d)" "r_id r = rid"
    using find_message_SomeD unfolding wf_db_def wf_log_def by blast
  then have "find_room rid d \<noteq> None" by (auto simp: find_room_def find_None_iff)
  then show ?thesis by auto
qed

lemma moved_find_room: "moved rid mid old new d d' \<Longrightarrow> find_room rid' d' = find_room rid' d"
  by (simp add: moved_def find_room_def)

text \<open>One transition of one message: its state changes and nobody else's.\<close>

definition becomes :: "room_id \<Rightarrow> client_message_id \<Rightarrow> request_state \<Rightarrow> db \<Rightarrow> db \<Rightarrow> bool" where
  "becomes rid cid new d d' \<longleftrightarrow>
     (\<exists>k st. mstate rid d cid = Some (k, st) \<and> mstate rid d' = (mstate rid d)(cid \<mapsto> (k, new)))"

lemma move_succeeds:
  assumes "wf_db d" "find_message rid cid d = Some m" "bound_kind (msg_kind m)" "old = msg_state m"
  shows "\<exists>d'. updateMessageAndBinding rid (msg_id m) old new t c g turn st d = Inr ((), d')
     \<and> moved rid (msg_id m) (msg_state m) new d d' \<and> wf_db d' \<and> becomes rid cid new d d'"
proof -
  from update_state_succeeds [OF assms(1-3), of "\<lambda>b. b\<lparr>b_state := new, b_turn := coalesce turn (b_turn b),
      b_started := coalesce st (b_started b), b_completed := t, b_error_code := c, b_error_digest := g\<rparr>" new ErrInvalidState]
  obtain d' where d': "updateMessageAndBinding rid (msg_id m) (msg_state m) new t c g turn st d = Inr ((), d')"
    "moved rid (msg_id m) (msg_state m) new d d'"
    by (auto simp: updateMessageAndBinding_def)
  from moved_view [OF assms(1) d'(2) assms(2)] moved_wf [OF d'(2) assms(1)] d' assms(4) show ?thesis
    by (auto simp: becomes_def aview_of_def)
qed

lemma move_and_log_succeeds:
  assumes "wf_db d" "find_message rid cid d = Some m" "bound_kind (msg_kind m)" "old = msg_state m"
  shows "\<exists>e d'. tx_bind (updateMessageAndBinding rid (msg_id m) old new t c g turn st) (\<lambda>_. appendEvent now rid u k p) d = Inr (e, d')
     \<and> becomes rid cid new d d'"
proof -
  from move_succeeds [OF assms, of new t c g turn st] obtain d1 where
    d1: "updateMessageAndBinding rid (msg_id m) old new t c g turn st d = Inr ((), d1)" "moved rid (msg_id m) (msg_state m) new d d1"
      "wf_db d1" "becomes rid cid new d d1" by blast
  from message_room [OF assms(1,2)] moved_find_room [OF d1(2)] obtain r where "find_room rid d1 = Some r" by metis
  from appendEvent_succeeds [OF d1(3) this] obtain e d' where e: "appendEvent now rid u k p d1 = Inr (e, d')" by blast
  from logged_mstate [of rid e d1 d' rid] appendEvent_Inr [OF e] d1(4) have "becomes rid cid new d d'"
    by (simp add: becomes_def)
  with d1(1) e show ?thesis by (auto simp: tx_bind_def)
qed

subsection \<open>Transitions, branch by branch\<close>

definition missing_message :: "room_id \<Rightarrow> db \<Rightarrow> err" where
  "missing_message rid d = (if find_room rid d = None then ErrRoomNotFound else ErrMessageNotFound)"

lemma requireMessageState_cases:
  "requireMessageState rid cid ks st d =
     (case loadStoredMessage rid cid d of
        None \<Rightarrow> Inl (missing_message rid d)
      | Some x \<Rightarrow> if sm_state x = st \<and> sm_kind x \<in> set ks then Inr (x, d) else Inl ErrInvalidState)"
  by (auto simp: requireMessageState_def requireRoom_def missing_message_def tx_eval split: option.splits)

lemma loaded: "find_message rid cid d = Some m \<Longrightarrow> \<exists>x. loadStoredMessage rid cid d = Some x \<and> shows_message x m"
  by (cases "loadStoredMessage rid cid d") (auto simp: loadStoredMessage_None dest: loadStoredMessage_Some)

text \<open>
  C14. Beginning a dispatch, on every branch: a bad room or message identifier is refused, an
  unknown message or room is reported as missing, a message that is not a queued prompt is an
  invalid state, and a queued prompt becomes dispatching; only that last case writes.
\<close>

theorem begin_dispatch_branches:
  assumes "wf_db (st_db s)" "st_io s = []"
  shows "case validateIdentifiers rid cid of
     Some e \<Rightarrow> BeginDispatch rid cid s = (Inl e, s)
   | None \<Rightarrow>
      (case find_message rid cid (st_db s) of
         None \<Rightarrow> BeginDispatch rid cid s = (Inl (missing_message rid (st_db s)), s)
       | Some m \<Rightarrow>
          if is_prompt (msg_kind m) \<and> msg_state m = RequestQueued
          then \<exists>d. BeginDispatch rid cid s = (Inr (), s\<lparr>st_db := d\<rparr>) \<and> becomes rid cid RequestDispatching (st_db s) d
          else BeginDispatch rid cid s = (Inl ErrInvalidState, s))"
proof (cases "validateIdentifiers rid cid")
  case (Some e)
  then show ?thesis by (simp add: BeginDispatch_def validated_def)
next
  case None
  then have run: "BeginDispatch rid cid s = transact (begin_dispatch_body rid cid) s"
    by (simp add: BeginDispatch_def validated_def)
  show ?thesis
  proof (cases "find_message rid cid (st_db s)")
    case miss: None
    then have "loadStoredMessage rid cid (st_db s) = None" by (simp add: loadStoredMessage_None)
    with None miss assms(2) show ?thesis
      by (simp add: run transact_def begin_dispatch_body_def tx_bind_def requireMessageState_cases Let_def)
  next
    case (Some m)
    from loaded [OF this] obtain x where x: "loadStoredMessage rid cid (st_db s) = Some x" "shows_message x m" by blast
    show ?thesis
    proof (cases "is_prompt (msg_kind m) \<and> msg_state m = RequestQueued")
      case True
      then have b: "bound_kind (msg_kind m)" "sm_kind x \<in> {KPrompt, KRecoveryPrompt}" "sm_state x = RequestQueued"
        using x(2) by (auto simp: is_prompt_def bound_kind_def shows_message_def)
      from move_succeeds [OF assms(1) Some b(1), of RequestQueued RequestDispatching None None None None None] True
      obtain d where "updateMessageAndBinding rid (msg_id m) RequestQueued RequestDispatching None None None None None (st_db s) = Inr ((), d)"
        "becomes rid cid RequestDispatching (st_db s) d" by auto
      then have "begin_dispatch_body rid cid (st_now s) (st_db s) = Inr ((), d)" "becomes rid cid RequestDispatching (st_db s) d"
        using x b by (auto simp: begin_dispatch_body_def tx_bind_def requireMessageState_cases shows_message_def)
      with None Some True assms(2) show ?thesis
        by (auto simp: run transact_ok)
    next
      case False
      with None Some x assms(2) show ?thesis
        by (auto simp: run transact_def begin_dispatch_body_def tx_bind_def requireMessageState_cases shows_message_def
            is_prompt_def Let_def)
    qed
  qed
qed

theorem begin_dispatch_branches_witness:
  "\<exists>d. BeginDispatch ''r'' (demo_id CHR ''b'') demo_store = (Inr (), demo_store\<lparr>st_db := d\<rparr>)
     \<and> becomes ''r'' (demo_id CHR ''b'') RequestDispatching (st_db demo_store) d"
  using begin_dispatch_branches [of demo_store "''r''" "demo_id CHR ''b''"] demo_sound
  by (simp add: sound_store_def validateIdentifiers_def validateRoomID_def demo_room demo_valid)
     (simp add: demo_defs find_message_def is_prompt_def)

subsection \<open>From the queue to the end\<close>

lemma transition_succeeds:
  assumes "wf_db d" "mstate rid d cid = Some (k, old)" "bound_kind k" "k \<in> set ks"
  shows "\<exists>e d'. tx_bind (requireMessageState rid cid ks old) (\<lambda>m.
       tx_bind (updateMessageAndBinding rid (sm_id m) old new t c g turn st) (\<lambda>_.
       appendEvent now rid (sm_actor m) ek p)) d = Inr (e, d') \<and> becomes rid cid new d d'"
proof -
  from assms(2) obtain m where m: "find_message rid cid d = Some m" "msg_kind m = k" "msg_state m = old"
    by (auto simp: mstate_def)
  from loaded [OF m(1)] obtain x where x: "loadStoredMessage rid cid d = Some x" "shows_message x m" by blast
  from move_and_log_succeeds [OF assms(1) m(1), of old new t c g turn st now "sm_actor x" ek p] assms(3) m
  obtain e d' where "tx_bind (updateMessageAndBinding rid (msg_id m) old new t c g turn st)
      (\<lambda>_. appendEvent now rid (sm_actor x) ek p) d = Inr (e, d')" "becomes rid cid new d d'" by auto
  with x m assms(4) show ?thesis
    by (auto simp: tx_bind_def [of "requireMessageState rid cid ks old"] requireMessageState_cases shows_message_def)
qed

text \<open>
  A prompt that is dispatching can always be bound to its turn: with a turn identifier and no
  storage fault the store answers with an event and the prompt is running.
\<close>

theorem bind_running_succeeds:
  assumes "wf_db (st_db s)" "st_io s = []" "validateIdentifiers rid cid = None" "\<not> blank turn"
    and "mstate rid (st_db s) cid = Some (k, RequestDispatching)" "is_prompt k"
  shows "\<exists>e d. BindRunningTurn rid cid turn s = (Inr e, s\<lparr>st_db := d\<rparr>) \<and> becomes rid cid RequestRunning (st_db s) d"
proof -
  have "bound_kind k" "k \<in> set [KPrompt, KRecoveryPrompt]"
    using assms(6) by (auto simp: is_prompt_def bound_kind_def)
  from transition_succeeds [OF assms(1,5) this, of RequestRunning None None None "Some turn" "Some (st_now s)" "st_now s" "''turn/running''"
      "JObj [(''client_message_id'', JStr cid), (''turn_id'', JStr turn)]"]
  obtain e d where "bind_running_body rid cid turn (st_now s) (st_db s) = Inr (e, d)" "becomes rid cid RequestRunning (st_db s) d"
    by (auto simp: bind_running_body_def)
  with assms(2-4) show ?thesis
    by (auto simp: BindRunningTurn_def validated_def transact_ok)
qed

lemma demo_turn: "\<not> blank ''tu''"
  by code_simp

theorem bind_running_succeeds_witness:
  "\<exists>e d. BindRunningTurn ''r'' (demo_id CHR ''b'') ''tu'' demo_dispatched = (Inr e, demo_dispatched\<lparr>st_db := d\<rparr>)
     \<and> becomes ''r'' (demo_id CHR ''b'') RequestRunning (st_db demo_dispatched) d"
proof -
  show ?thesis
  proof (rule bind_running_succeeds)
    show "wf_db (st_db demo_dispatched)"
      using history_advances [OF demo_dispatched_history] demo_sound by (simp add: sound_store_def advances_def)
    show "mstate ''r'' (st_db demo_dispatched) (demo_id CHR ''b'') = Some (KPrompt, RequestDispatching)"
      by (simp add: demo_dispatched_eq, simp add: demo_defs mstate_def find_message_def)
  qed (simp_all add: demo_dispatched_eq demo_turn validateIdentifiers_def validateRoomID_def demo_room demo_valid is_prompt_def, simp add: demo_store_def)
qed

subsection \<open>The recovery image\<close>

lemma image_active_Some:
  assumes "wf_db d" "image_active rid d = Some b"
  shows "\<exists>k. mstate rid d (tb_message_id b) = Some (k, tb_state b) \<and> is_prompt k \<and> active_state (tb_state b)"
proof -
  let ?P = "\<lambda>m. is_prompt (msg_kind m) \<and> active_state (msg_state m)"
  from assms(2) have "b \<in> set (bound_messages ?P rid d)"
    by (auto simp: image_active_def split: list.splits)
  then obtain m bb where m: "m \<in> set (messages d)" "msg_room m = rid" "is_prompt (msg_kind m)" "active_state (msg_state m)"
    and bb: "binding_state_agrees m d = Some bb" "b = turn_binding_of m bb"
    by (auto simp: bound_messages_def List.map_filter_def)
  from bb(1) have "b_state bb = msg_state m"
    by (auto simp: binding_state_agrees_def split: option.splits if_splits)
  moreover have "find_message rid (msg_client m) d = Some m"
    using wf_ids_find_message [of d m] assms(1) m by (auto simp: wf_db_def)
  ultimately show ?thesis using m bb(2) by (auto simp: mstate_def turn_binding_of_def)
qed

lemma in_image_queue:
  assumes "wf_db d"
  shows "q \<in> set (image_queue rid d) \<Longrightarrow> \<exists>k. mstate rid d (si_client_message_id (qm_input q)) = Some (k, RequestQueued) \<and> is_prompt k"
    and "mstate rid d cid = Some (k, RequestQueued) \<Longrightarrow> is_prompt k \<Longrightarrow>
       \<forall>m \<in> set (messages d). find_member (msg_room m) (msg_actor m) d \<noteq> None \<Longrightarrow>
       \<exists>q \<in> set (image_queue rid d). si_client_message_id (qm_input q) = cid"
proof -
  assume "q \<in> set (image_queue rid d)"
  then obtain m where m: "m \<in> set (messages d)" "msg_room m = rid" "is_prompt (msg_kind m)" "msg_state m = RequestQueued"
    "queued_of rid d m = Some q" by (auto simp: image_queue_def List.map_filter_def)
  then have "find_message rid (msg_client m) d = Some m" "si_client_message_id (qm_input q) = msg_client m"
    using wf_ids_find_message [of d m] assms by (auto simp: wf_db_def queued_of_def)
  with m show "\<exists>k. mstate rid d (si_client_message_id (qm_input q)) = Some (k, RequestQueued) \<and> is_prompt k"
    by (simp add: mstate_def)
next
  assume st: "mstate rid d cid = Some (k, RequestQueued)" "is_prompt k"
    and mem: "\<forall>m \<in> set (messages d). find_member (msg_room m) (msg_actor m) d \<noteq> None"
  then obtain m where m: "find_message rid cid d = Some m" "msg_kind m = k" "msg_state m = RequestQueued"
    by (auto simp: mstate_def)
  note md = find_message_SomeD [OF m(1)]
  with mem obtain mb where "find_member rid (msg_actor m) d = Some mb" by auto
  then obtain q where q: "queued_of rid d m = Some q" "si_client_message_id (qm_input q) = cid"
    using md by (auto simp: queued_of_def)
  moreover have "q \<in> set (image_queue rid d)"
    using md m st(2) q(1) by (force simp: image_queue_def List.map_filter_def)
  ultimately show "\<exists>q \<in> set (image_queue rid d). si_client_message_id (qm_input q) = cid" by blast
qed

text \<open>
  C7. The image a restarted coordinator loads tells the truth: it names an active prompt exactly
  when one is dispatching, running or under review, with its durable state; its queue holds
  exactly the queued prompts of the room's members, in the order they were accepted.
\<close>

theorem recovery_image_faithful:
  assumes "wf_db (st_db s)" "LoadRecoveryImage rid s = (Inr img, s')"
    "\<forall>m \<in> set (messages (st_db s)). find_member (msg_room m) (msg_actor m) (st_db s) \<noteq> None"
  shows "(case im_active img of
            None \<Rightarrow> \<forall>cid k st. mstate rid (st_db s) cid = Some (k, st) \<and> is_prompt k \<longrightarrow> \<not> active_state st
          | Some b \<Rightarrow> \<exists>k. mstate rid (st_db s) (tb_message_id b) = Some (k, tb_state b) \<and> is_prompt k \<and> active_state (tb_state b))
     \<and> (si_client_message_id \<circ> qm_input) ` set (im_queue img) = {cid. \<exists>k. mstate rid (st_db s) cid = Some (k, RequestQueued) \<and> is_prompt k}
     \<and> sorted_wrt (<) (map qm_accepted_seq (im_queue img))"
proof -
  from LoadRecoveryImage_Inr [OF assms(1,2)] obtain r where
    r: "find_room rid (st_db s) = Some r" "img = load_image rid r (st_db s)" by blast
  have "\<forall>cid k st. mstate rid (st_db s) cid = Some (k, st) \<and> is_prompt k \<longrightarrow> \<not> active_state st"
    if "im_active img = None"
    using image_active_None [OF assms(1), of rid] that r(2)
    by (auto simp: load_image_def actives_def aview_of_def)
  moreover have "(si_client_message_id \<circ> qm_input) ` set (im_queue img) =
      {cid. \<exists>k. mstate rid (st_db s) cid = Some (k, RequestQueued) \<and> is_prompt k}"
    using in_image_queue [OF assms(1)] assms(3) r(2) by (auto simp: load_image_def image_iff) metis
  moreover have "sorted_wrt (<) (map qm_accepted_seq (im_queue img))"
    using image_queue_ordered [OF assms(1) r(1)] r(2) by (simp add: load_image_def queue_ordered_def)
  ultimately show ?thesis
    using image_active_Some [OF assms(1), of rid] r(2) by (auto simp: load_image_def split: option.splits)
qed

lemma demo_image: "\<exists>img. LoadRecoveryImage ''r'' demo_store = (Inr img, demo_store)"
  by (simp add: LoadRecoveryImage_def validated_def validateRoomID_def demo_room transact_def load_image_body_def tx_eval
      find_room_def Let_def demo_defs)

theorem recovery_image_faithful_witness:
  "\<exists>img. LoadRecoveryImage ''r'' demo_store = (Inr img, demo_store)
     \<and> (si_client_message_id \<circ> qm_input) ` set (im_queue img) =
         {cid. \<exists>k. mstate ''r'' (st_db demo_store) cid = Some (k, RequestQueued) \<and> is_prompt k}"
proof -
  from demo_image obtain img where img: "LoadRecoveryImage ''r'' demo_store = (Inr img, demo_store)" by blast
  have "\<forall>m \<in> set (messages (st_db demo_store)). find_member (msg_room m) (msg_actor m) (st_db demo_store) \<noteq> None"
    by (simp add: demo_defs find_member_def)
  from recovery_image_faithful [OF _ img this] demo_sound img show ?thesis
    by (auto simp: sound_store_def)
qed

subsection \<open>Review decisions\<close>

text \<open>The state a decision leaves its target in.\<close>

definition decided_state :: "recovery_action \<Rightarrow> message_kind \<Rightarrow> request_state" where
  "decided_state act k = (if act = RecoveryRetry then (if is_prompt k then RequestQueued else RequestDispatching) else RequestFailed)"

lemma resolve_labels_target:
  assumes "resolve_labels i ls" "asteps ls v w" "ri_target_message_id i \<noteq> ri_client_message_id i"
  shows "\<exists>k. fst v (ri_target_message_id i) = Some (k, RequestNeedsReview)
     \<and> fst w (ri_target_message_id i) = Some (k, decided_state (ri_action i) k)
     \<and> snd w (ri_target_message_id i) = snd v (ri_target_message_id i) + (if ri_action i = RecoveryRetry then 1 else 0)"
proof -
  have acc: "astep (LAccept c k) v u \<Longrightarrow> fst v c = None \<and> fst u = (fst v)(c \<mapsto> (k, initial_state k)) \<and> snd u = snd v" for c k v u
    by (erule astepE) auto
  have req: "astep (LRequeue c) v u \<Longrightarrow> \<exists>k. fst v c = Some (k, RequestNeedsReview) \<and> is_prompt k
       \<and> fst u = (fst v)(c \<mapsto> (k, RequestQueued)) \<and> snd u = (snd v)(c := snd v c + 1)" for c v u
    by (erule astepE) auto
  have red: "astep (LRedispatch c) v u \<Longrightarrow> \<exists>k. fst v c = Some (k, RequestNeedsReview) \<and> is_control k
       \<and> fst u = (fst v)(c \<mapsto> (k, RequestDispatching)) \<and> snd u = (snd v)(c := snd v c + 1)" for c v u
    by (erule astepE) auto
  have aba: "astep (LAbandon c) v u \<Longrightarrow> \<exists>k. fst v c = Some (k, RequestNeedsReview) \<and> bound_kind k
       \<and> fst u = (fst v)(c \<mapsto> (k, RequestFailed)) \<and> snd u = snd v" for c v u
    by (erule astepE) auto
  have control: "is_control k \<Longrightarrow> \<not> is_prompt k" for k by (auto simp: is_control_def is_prompt_def)
  show ?thesis
    using assms(1)
  proof cases
    case prompt_retry
    with assms(2) obtain u where "astep (LAccept (ri_client_message_id i) KRecover) v u" "astep (LRequeue (ri_target_message_id i)) u w"
      by (auto simp del: split_paired_Ex)
    from acc [OF this(1)] req [OF this(2)] assms(3) prompt_retry show ?thesis by (auto simp: decided_state_def)
  next
    case control_retry
    with assms(2) obtain u where "astep (LAccept (ri_client_message_id i) KRecover) v u" "astep (LRedispatch (ri_target_message_id i)) u w"
      by (auto simp del: split_paired_Ex)
    from acc [OF this(1)] red [OF this(2)] assms(3) control_retry control show ?thesis by (auto simp: decided_state_def)
  next
    case skipped
    with assms(2) obtain u where "astep (LAccept (ri_client_message_id i) KRecover) v u" "astep (LAbandon (ri_target_message_id i)) u w"
      by (auto simp del: split_paired_Ex)
    from acc [OF this(1)] aba [OF this(2)] assms(3) skipped show ?thesis by (auto simp: decided_state_def)
  next
    case continued
    with assms(2) obtain u x where "astep (LAccept (ri_client_message_id i) KRecover) v u" "astep (LAbandon (ri_target_message_id i)) u x"
        "astep (LAccept (ri_replacement_message_id i) KRecoveryPrompt) x w"
      by (auto simp del: split_paired_Ex)
    from acc [OF this(1)] aba [OF this(2)] acc [OF this(3)] assms(3) continued show ?thesis by (auto simp: decided_state_def)
  qed
qed

text \<open>
  C13. A review decision that takes effect finds its target under review and leaves it in the one
  state its action stands for: a retried prompt is queued again, a retried control is
  dispatching again, a skipped or continued message has failed; a retry is counted once.
\<close>

theorem resolve_review_effect:
  assumes "wf_db (st_db s)" "ResolveReview rid a i s = (Inr res, s')" "\<not> rr_duplicate res"
  shows "\<exists>k. mstate rid (st_db s) (ri_target_message_id i) = Some (k, RequestNeedsReview)
     \<and> mstate rid (st_db s') (ri_target_message_id i) = Some (k, decided_state (ri_action i) k)
     \<and> retries rid (st_db s') (ri_target_message_id i) =
        retries rid (st_db s) (ri_target_message_id i) + (if ri_action i = RecoveryRetry then 1 else 0)"
proof -
  from implements_Inr [OF ResolveReview_implements assms(1,2)] assms(3)
  obtain ls where ls: "resolve_labels i ls" "asteps ls (aview_of rid (st_db s)) (aview_of rid (st_db s'))"
    by (auto simp: refines_def)
  then have "fst (aview_of rid (st_db s)) (ri_client_message_id i) = None"
    by (auto elim!: resolve_labels.cases astepE simp: aview_of_def simp del: split_paired_Ex)
  moreover have "ri_target_message_id i \<noteq> ri_client_message_id i"
  proof
    assume eq: "ri_target_message_id i = ri_client_message_id i"
    from ls show False
      by (auto simp: eq elim!: resolve_labels.cases astepE simp: initial_state_def is_prompt_def is_control_def
          simp del: split_paired_Ex)
  qed
  ultimately show ?thesis
    using resolve_labels_target [OF ls] by (simp add: aview_of_def)
qed

text \<open>The queued message of the concrete room, under review.\<close>

definition demo_review :: store where
  "demo_review = \<lparr>st_db = demo_db\<lparr>
      messages := [demo_message 1 CHR ''a'' RequestCompleted, demo_message 2 CHR ''b'' RequestNeedsReview],
      turn_bindings := [demo_binding 1 RequestCompleted, demo_binding 2 RequestNeedsReview]\<rparr>, st_io = [], st_now = 0\<rparr>"

definition demo_skip :: recover_input where
  "demo_skip = \<lparr>ri_client_message_id = demo_id CHR ''c'', ri_target_message_id = demo_id CHR ''b'', ri_action = RecoverySkip,
     ri_replacement_message_id = [], ri_instruction = []\<rparr>"

lemma demo_review_wf: "wf_db (st_db demo_review)"
  by (simp add: demo_review_def demo_defs wf_db_def wf_ids_def wf_bindings_def wf_log_def agrees_def bound_kind_def events_of_def upt_rec)

lemma ann: "\<not> blank ''ann''"
  by code_simp

lemma demo_skip_runs:
  "\<exists>res s'. ResolveReview ''r'' \<lparr>actor_uid = 1, actor_name = ''ann''\<rparr> demo_skip demo_review = (Inr res, s') \<and> \<not> rr_duplicate res"
  by (simp add: ResolveReview_def validated_def validate_recover_def validateRoomID_def demo_room demo_valid demo_skip_def
      transact_def resolve_body_def tx_eval Let_def loadStoredMessage_def find_message_def find_binding_def resolve_new_def
      requireActor_def ann find_member_def allocateSeq_def insertMessage_def insertEventAt_def find_event_def events_of_def
      find_room_def resolve_abandon_def terminalizeReviewed_def updateMessageState_def updateBinding_def count_where_def
      update_where_def appendEvent_def link_recovery_events_def demo_review_def demo_defs)

theorem resolve_review_effect_witness:
  "\<exists>res s'. ResolveReview ''r'' \<lparr>actor_uid = 1, actor_name = ''ann''\<rparr> demo_skip demo_review = (Inr res, s')
     \<and> (\<exists>k. mstate ''r'' (st_db s') (demo_id CHR ''b'') = Some (k, RequestFailed))"
proof -
  from demo_skip_runs obtain res s' where
    r: "ResolveReview ''r'' \<lparr>actor_uid = 1, actor_name = ''ann''\<rparr> demo_skip demo_review = (Inr res, s')" "\<not> rr_duplicate res"
    by blast
  from resolve_review_effect [OF demo_review_wf r] r(1) show ?thesis
    by (auto simp: demo_skip_def decided_state_def)
qed

text \<open>
  A review is decided once: a decision, however new, on a message that is not under review
  is refused as stale and changes nothing.
\<close>

theorem resolve_review_stale:
  assumes "validate_recover i = None" "validateRoomID rid = None" "st_io s = []"
    "find_message rid (ri_client_message_id i) (st_db s) = None"
    "find_member rid (actor_uid a) (st_db s) = Some mb" "m_username mb = actor_name a" "actor_uid a \<noteq> 0" "\<not> blank (actor_name a)"
    "find_message rid (ri_target_message_id i) (st_db s) = Some m" "msg_state m \<noteq> RequestNeedsReview"
  shows "ResolveReview rid a i s = (Inl ErrStaleRecovery, s)"
proof -
  from loaded [OF assms(9)] obtain x where x: "loadStoredMessage rid (ri_target_message_id i) (st_db s) = Some x" "shows_message x m"
    by blast
  have "loadStoredMessage rid (ri_client_message_id i) (st_db s) = None"
    using assms(4) by (simp add: loadStoredMessage_None)
  then have "resolve_body rid a i (st_now s) (st_db s) = Inl ErrStaleRecovery"
    using assms(5-8,10) x by (simp add: resolve_body_def resolve_new_def requireActor_def tx_eval Let_def shows_message_def)
  with assms(1-3) show ?thesis
    by (simp add: ResolveReview_def validated_def transact_def)
qed

theorem resolve_review_stale_witness:
  "ResolveReview ''r'' \<lparr>actor_uid = 1, actor_name = ''ann''\<rparr> demo_skip demo_store = (Inl ErrStaleRecovery, demo_store)"
proof (rule resolve_review_stale)
  show "validate_recover demo_skip = None" by (simp add: validate_recover_def demo_skip_def demo_valid)
  show "find_message ''r'' (ri_target_message_id demo_skip) (st_db demo_store) = Some (demo_message 2 CHR ''b'' RequestQueued)"
    by (simp add: demo_skip_def demo_defs find_message_def)
qed (simp_all add: demo_skip_def validateRoomID_def demo_room ann, (simp add: demo_defs find_message_def find_member_def)+)

end
