(* ===== verification/Room_Properties.thy ===== *)
theory Room_Properties
  imports Store_Lifecycle
begin

text \<open>
  What every run of a room coordinator on the SQLite store guarantees, whatever the agent answers
  and whenever storage fails or the process restarts; and what single handlers of the
  coordinator guarantee over any repository.
\<close>

subsection \<open>Runs on the store\<close>

definition in_flight :: "room_id \<Rightarrow> store \<Rightarrow> client_message_id \<Rightarrow> bool" where
  "in_flight rid s cid \<longleftrightarrow>
     (case mstate rid (st_db s) cid of None \<Rightarrow> False | Some (k, st) \<Rightarrow> is_prompt k \<and> active_state st)"

definition one_in_flight :: "room_id \<Rightarrow> store \<Rightarrow> bool" where
  "one_in_flight rid s \<longleftrightarrow> (\<forall>c c'. in_flight rid s c \<and> in_flight rid s c' \<longrightarrow> c = c')"

abbreviation room_run :: "(err \<Rightarrow> string) \<Rightarrow> agent \<Rightarrow> room_id \<Rightarrow> string \<Rightarrow> store \<Rightarrow> store world \<Rightarrow> bool" where
  "room_run txt A rid root s0 w \<equiv> reachable (sqlite_repository txt) A rid root (store_env rid) s0 w"

lemma in_flight_actives: "in_flight rid s c \<longleftrightarrow> c \<in> actives (store_view rid s)"
  by (auto simp: in_flight_def actives_def store_view_def aview_of_def split: option.splits)

lemma room_run_facts:
  assumes "room_run txt A rid root s0 w" "wf_db (st_db s0)" "one_in_flight rid s0"
  shows "one_in_flight rid (w_store w)"
    and "starts (w_calls w) cid \<le> start_budget (store_view rid (w_store w)) cid"
    and "sorted_wrt (<) (map qm_accepted_seq (co_queue (w_co w)))"
proof -
  have "sound_store s0" using assms(2) by (simp add: sound_store_def)
  moreover have "\<forall>x \<in> actives (store_view rid s0). \<forall>y \<in> actives (store_view rid s0). x = y"
    using assms(3) unfolding one_in_flight_def in_flight_actives by metis
  note facts = sqlite.reachable_single_flight [OF assms(1) store_env_harmless calculation this]
  show "one_in_flight rid (w_store w)"
    unfolding one_in_flight_def in_flight_actives using facts(1) by metis
  show "starts (w_calls w) cid \<le> start_budget (store_view rid (w_store w)) cid" by (rule facts(2))
  show "sorted_wrt (<) (map qm_accepted_seq (co_queue (w_co w)))" by (rule facts(3))
qed

subsection \<open>A concrete run for the witnesses\<close>

definition demo_thread :: thread_snapshot where
  "demo_thread = \<lparr>th_id = ''th'', th_cwd = ''p'', th_turns = []\<rparr>"

definition demo_agent :: agent where
  "demo_agent =
     \<lparr>ag_StartThread = (\<lambda>cs. Inr demo_thread), ag_ReadThread = (\<lambda>cs th. Inr demo_thread),
      ag_ResumeThread = (\<lambda>cs th. Inr demo_thread), ag_StartTurn = (\<lambda>cs i th cid t. Inr ''tu''),
      ag_StartTurnFor = None, ag_SteerTurn = (\<lambda>cs th tu t. None), ag_InterruptTurn = (\<lambda>cs th tu. None),
      ag_StartReadOnlyTurn = None, ag_ValidateSubmission = None, ag_AgentMembers = None\<rparr>"

definition demo_booted :: "store world" where
  "demo_booted =
     \<lparr>w_co = the (NewCoordinator ''r'' ''p''), w_store = demo_store, w_calls = [], w_published = [], w_answers = []\<rparr>"

definition demo_repository :: "store repository" where
  "demo_repository = sqlite_repository (\<lambda>_. ''store'')"

text \<open>The room after its first recovery: the queued message is dispatched and running.\<close>

definition demo_recovered :: "store world" where
  "demo_recovered = snd (handleCommand demo_repository demo_agent CmdRecover demo_booted)"

lemma demo_path: "\<not> blank ''p''"
  by code_simp

lemma demo_booted_run: "room_run (\<lambda>_. ''store'') demo_agent ''r'' ''p'' demo_store demo_booted"
proof -
  obtain c where "NewCoordinator ''r'' ''p'' = Some c" by (simp add: NewCoordinator_def demo_room demo_path)
  then show ?thesis unfolding demo_booted_def by (simp add: reachable.boot)
qed

lemma demo_recovered_run: "room_run (\<lambda>_. ''store'') demo_agent ''r'' ''p'' demo_store demo_recovered"
  unfolding demo_recovered_def demo_repository_def
  by (rule reachable.command [OF demo_booted_run]) (simp_all add: demo_booted_def NewCoordinator_def demo_room demo_path)

lemma demo_one_in_flight: "one_in_flight ''r'' demo_store"
  by (simp add: one_in_flight_def in_flight_def mstate_def find_message_def demo_defs active_state_def)

text \<open>The evaluated run: the queued message was started exactly once, and is running.\<close>

lemma demo_recovered_started:
  "starts (w_calls demo_recovered) (demo_id CHR ''b'') = 1 \<and> in_flight ''r'' (w_store demo_recovered) (demo_id CHR ''b'')"
  by code_simp

subsection \<open>Safety of every run\<close>

text \<open>
  C1. In every run of a coordinator on the store, through storage faults, lost commit replies, agent
  errors, review decisions and restarts, at most one prompt of the room is dispatching, running
  or under review.
\<close>

theorem single_flight:
  assumes "room_run txt A rid root s0 w" "wf_db (st_db s0)" "one_in_flight rid s0"
  shows "one_in_flight rid (w_store w)"
  by (rule room_run_facts(1) [OF assms])

theorem single_flight_witness: "one_in_flight ''r'' (w_store demo_recovered)"
  by (rule single_flight [OF demo_recovered_run _ demo_one_in_flight]) (simp add: demo_store_def demo_wf)

text \<open>
  C2. The agent is never asked to start a turn that the log does not account for: over the whole
  life of a room, restarts included, a prompt is started at most once plus once for each
  explicit retry recorded in the log, and while it is queued at most once for each retry.
\<close>

theorem starts_accounted_for:
  assumes "room_run txt A rid root s0 w" "wf_db (st_db s0)" "one_in_flight rid s0"
  shows "starts (w_calls w) cid \<le> retries rid (st_db (w_store w)) cid +
     (case mstate rid (st_db (w_store w)) cid of None \<Rightarrow> 0 | Some (k, st) \<Rightarrow> if st = RequestQueued then 0 else 1)"
  using room_run_facts(2) [OF assms, of cid] by (simp add: start_budget_def store_view_def aview_of_def)

theorem starts_accounted_for_witness:
  "starts (w_calls demo_recovered) (demo_id CHR ''b'') \<le> retries ''r'' (st_db (w_store demo_recovered)) (demo_id CHR ''b'') +
     (case mstate ''r'' (st_db (w_store demo_recovered)) (demo_id CHR ''b'') of None \<Rightarrow> 0
      | Some (k, st) \<Rightarrow> if st = RequestQueued then 0 else 1)"
  by (rule starts_accounted_for [OF demo_recovered_run _ demo_one_in_flight]) (simp add: demo_store_def demo_wf)

text \<open>C16. In every run the coordinator's queue is in the order in which the store accepted the messages.\<close>

theorem queue_in_acceptance_order:
  assumes "room_run txt A rid root s0 w" "wf_db (st_db s0)" "one_in_flight rid s0"
  shows "sorted_wrt (<) (map qm_accepted_seq (co_queue (w_co w)))"
  by (rule room_run_facts(3) [OF assms])

theorem queue_in_acceptance_order_witness:
  "sorted_wrt (<) (map qm_accepted_seq (co_queue (w_co demo_recovered)))"
  by (rule queue_in_acceptance_order [OF demo_recovered_run _ demo_one_in_flight]) (simp add: demo_store_def demo_wf)

subsection \<open>Dispatch, over any repository\<close>

definition started :: "agent_call list \<Rightarrow> client_message_id list" where
  "started cs = List.map_filter (\<lambda>c. case c of CallStartTurn _ cid _ \<Rightarrow> Some cid | _ \<Rightarrow> None) cs"

lemma started_append [simp]: "started (cs @ ds) = started cs @ started ds"
  by (simp add: started_def map_filter_def)

lemma started_single [simp]: "started [] = []" "started [CallStartTurn th cid t] = [cid]"
  by (simp_all add: started_def map_filter_def)

abbreviation queue_ids :: "queued_message list \<Rightarrow> client_message_id list" where
  "queue_ids q \<equiv> map (si_client_message_id \<circ> qm_input) q"

definition fifo :: "'s world \<Rightarrow> 's world \<Rightarrow> bool" where
  "fifo w w' \<longleftrightarrow> (\<exists>n \<le> length (co_queue (w_co w)).
     started (w_calls w') = started (w_calls w) @ take n (queue_ids (co_queue (w_co w)))
     \<and> (co_queue (w_co w') = drop n (co_queue (w_co w))
        \<or> 0 < n \<and> co_queue (w_co w') = drop (n - 1) (co_queue (w_co w))
          \<and> (co_status (w_co w') \<noteq> RoomReady \<or> co_active (w_co w') \<noteq> None)))"

lemma start_turn_calls:
  "start_turn A th m w = (r, w1) \<Longrightarrow>
     w_co w1 = w_co w \<and> started (w_calls w1) = started (w_calls w) @ [si_client_message_id (qm_input m)]"
  by (auto simp: start_turn_def Let_def call_agent_Pair)

lemma repo_co: "repo f w = (r, w1) \<Longrightarrow> w_co w1 = w_co w \<and> w_calls w1 = w_calls w"
  by (auto simp: repo_def split: prod.splits)

lemma dispatch_bind_fields:
  "w_calls (snd (dispatch_bind R cid rest turn w)) = w_calls w
   \<and> (co_queue (w_co (snd (dispatch_bind R cid rest turn w))) = rest
      \<or> co_queue (w_co (snd (dispatch_bind R cid rest turn w))) = co_queue (w_co w)
        \<and> co_status (w_co (snd (dispatch_bind R cid rest turn w))) \<noteq> RoomReady)"
  by (auto simp: dispatch_bind_def dest!: repo_co split: prod.splits sum.splits)

lemma dispatch_unknown_fields:
  "w_calls (snd (dispatch_unknown R cid rest code digest w)) = w_calls w
   \<and> (co_queue (w_co (snd (dispatch_unknown R cid rest code digest w))) = rest
      \<or> co_queue (w_co (snd (dispatch_unknown R cid rest code digest w))) = co_queue (w_co w)
        \<and> co_status (w_co (snd (dispatch_unknown R cid rest code digest w))) \<noteq> RoomReady)"
  by (auto simp: dispatch_unknown_def Let_def dest!: repo_co split: prod.splits sum.splits)

lemma fifo_none: "w_calls w' = w_calls w \<Longrightarrow> co_queue (w_co w') = co_queue (w_co w) \<Longrightarrow> fifo w w'"
  unfolding fifo_def by (intro exI [of _ 0]) simp

lemma fifo_one:
  assumes "co_queue (w_co w) = m # rest" "started (w_calls w') = started (w_calls w) @ [si_client_message_id (qm_input m)]"
    "co_queue (w_co w') = rest \<or> co_queue (w_co w') = co_queue (w_co w) \<and> (co_status (w_co w') \<noteq> RoomReady \<or> co_active (w_co w') \<noteq> None)"
  shows "fifo w w'"
  unfolding fifo_def using assms by (intro exI [of _ 1]) auto

lemma fifo_more:
  assumes "co_queue (w_co w) = m # rest" "started (w_calls u) = started (w_calls w) @ [si_client_message_id (qm_input m)]"
    "co_queue (w_co u) = rest" "fifo u w'"
  shows "fifo w w'"
proof -
  from assms(4) obtain n where n: "n \<le> length rest"
    "started (w_calls w') = started (w_calls u) @ take n (queue_ids rest)"
    "co_queue (w_co w') = drop n rest \<or> 0 < n \<and> co_queue (w_co w') = drop (n - 1) rest
        \<and> (co_status (w_co w') \<noteq> RoomReady \<or> co_active (w_co w') \<noteq> None)"
    by (auto simp: fifo_def assms(3))
  then show ?thesis
    unfolding fifo_def using assms(1,2) by (intro exI [of _ "Suc n"]) (auto simp: drop_Cons split: nat.splits)
qed


text \<open>
  Dispatch is work conserving: when it reports success, the room is not ready, or a prompt,
  a control or a private question occupies it, or the queue is empty.
\<close>

theorem dispatch_work_conserving:
  "fst (dispatchNext R A w) = None \<Longrightarrow> \<not> may_dispatch (w_co (snd (dispatchNext R A w)))"
  by (subst (asm) (1) dispatchNext.simps, subst dispatchNext.simps)
     (auto simp: Let_def dispatch_bind_def dispatch_unknown_def may_dispatch_def split: if_splits prod.splits sum.splits)

text \<open>A ready room with one queued message.\<close>

definition demo_ready :: "store world" where
  "demo_ready = on_co (\<lambda>c. c\<lparr>co_status := RoomReady, co_thread := ''th'', co_thread_ready := True,
     co_queue := [\<lparr>qm_input = \<lparr>si_task_id = 0, si_client_message_id = demo_id CHR ''b'', si_text = ''go''\<rparr>,
                    qm_actor = \<lparr>actor_uid = 1, actor_name = ''ann''\<rparr>, qm_accepted_seq = 2\<rparr>]\<rparr>) demo_booted"

lemma demo_ready_dispatch: "fst (dispatchNext demo_repository demo_agent demo_ready) = None"
  by code_simp

theorem dispatch_work_conserving_witness:
  "\<not> may_dispatch (w_co (snd (dispatchNext demo_repository demo_agent demo_ready)))"
  by (rule dispatch_work_conserving [OF demo_ready_dispatch])

subsection \<open>What reaches the agent\<close>

lemma finishControl_fields:
  "w_calls (snd (finishControl R got oc re w)) = w_calls w
   \<and> (co_status (w_co w) \<noteq> RoomReady \<longrightarrow> co_status (w_co (snd (finishControl R got oc re w))) \<noteq> RoomReady)
   \<and> co_queue (w_co (snd (finishControl R got oc re w))) = co_queue (w_co w)"
  by (auto simp: finishControl_def dest!: repo_co split: prod.splits sum.splits)

text \<open>A control whose delivery to the agent was decided: what is left of \<^const>\<open>handleControl\<close>.\<close>

definition control_result ::
  "'s repository \<Rightarrow> room_id \<Rightarrow> acceptance \<Rightarrow> agent_error option \<Rightarrow> 's world \<Rightarrow> (acceptance option \<times> err option) \<times> 's world" where
  "control_result R rid got er w4 = (case er of
      None \<Rightarrow> finishControl R got \<lparr>oc_state = RequestCompleted, oc_error_code = [], oc_error_digest = []\<rparr> None w4
    | Some ae \<Rightarrow>
        (case mutationFailure ae of (code, digest, certainty) \<Rightarrow>
           if certainty = DeliveryNotSent
           then finishControl R got \<lparr>oc_state = RequestFailed, oc_error_code = code, oc_error_digest = digest\<rparr> (Some ErrDeliveryNotSent) w4
           else
             (case finishControl R got \<lparr>oc_state = RequestNeedsReview, oc_error_code = code, oc_error_digest = digest\<rparr>
                     (Some ErrDeliveryUnknown) (freeze RoomRecovering w4) of
                ((finished, finishErr), w5) \<Rightarrow>
                  if finishErr \<noteq> None \<and> finishErr \<noteq> Some ErrDeliveryUnknown then ((finished, finishErr), w5)
                  else (case repo (rp_SetRoomStatus R rid RoomRecovering) w5 of
                          (Inl e, w6) \<Rightarrow> ((finished, Some e), w6)
                        | (Inr se, w6) \<Rightarrow> ((finished, Some ErrDeliveryUnknown), publish_status se w6)))))"

lemma control_result_calls: "w_calls (snd (control_result R rid got er w)) = w_calls w"
proof (cases er)
  case None
  then show ?thesis by (simp add: control_result_def finishControl_fields)
next
  case (Some ae)
  obtain code digest certainty where mf: "mutationFailure ae = (code, digest, certainty)" by (cases "mutationFailure ae")
  let ?oc = "\<lparr>oc_state = RequestNeedsReview, oc_error_code = code, oc_error_digest = digest\<rparr>"
  obtain f fe w5 where fc: "finishControl R got ?oc (Some ErrDeliveryUnknown) (freeze RoomRecovering w) = ((f, fe), w5)"
    by (metis prod.exhaust)
  have "w_calls w5 = w_calls w"
    using finishControl_fields [of R got ?oc "Some ErrDeliveryUnknown" "freeze RoomRecovering w"] fc by simp
  then show ?thesis
    by (auto simp: control_result_def Some mf fc finishControl_fields dest!: repo_co split: prod.splits sum.splits)
qed

lemma handleControl_cases:
  assumes "repo (rp_AcceptControl R (co_room (w_co w)) a i) w = (r, w1)"
  shows "handleControl R A a i w = (case r of
      Inl e \<Rightarrow> ((None, Some e), w1)
    | Inr got \<Rightarrow>
        let w2 = publish (ac_event got) w1 in
        if ac_duplicate got then ((Some got, duplicate_control got), w2)
        else
          let w3 = on_co (\<lambda>c. c\<lparr>co_controls := co_controls c @
                 [\<lparr>tb_message_id = ac_client_message_id got, tb_turn_id = ci_expected_turn_id i, tb_state = RequestDispatching\<rparr>]\<rparr>) w2
          in if \<not> controls_turn (w_co w3) (ci_expected_turn_id i)
             then finishControl R got \<lparr>oc_state = RequestFailed, oc_error_code = ''stale-turn'', oc_error_digest = []\<rparr> (Some ErrStaleTurn) w3
             else case send_control A i w3 of (er, w4) \<Rightarrow> control_result R (co_room (w_co w)) got er w4)"
  unfolding handleControl_def control_result_def Let_def assms
  by (cases r) (simp_all split: prod.split option.split)

lemma send_control_calls:
  "send_control A i w = (er, w4) \<Longrightarrow> w_calls w4 = w_calls w @
     [if ci_kind i = ControlSteer then CallSteerTurn (co_thread (w_co w)) (ci_expected_turn_id i) (ci_text i)
      else CallInterruptTurn (co_thread (w_co w)) (ci_expected_turn_id i)]"
  by (auto simp: send_control_def Let_def call_agent_Pair split: if_splits)

text \<open>A control sent again after a review is one call, or none and a refusal.\<close>

lemma retry_control_calls:
  "retry_control A rc w = (er, w1) \<Longrightarrow> w_calls w1 = w_calls w @
     [if rc_kind rc = RetrySteer then CallSteerTurn (co_thread (w_co w)) (rc_expected_turn_id rc) (rc_text rc)
      else CallInterruptTurn (co_thread (w_co w)) (rc_expected_turn_id rc)]"
  by (auto simp: retry_control_def Let_def call_agent_Pair split: if_splits)

lemma loadRecovery_calls: "w_calls (snd (loadRecovery R w)) = w_calls w"
  by (auto simp: loadRecovery_def Let_def dest!: repo_co split: prod.splits sum.splits)

lemma run_retry_calls:
  "w_calls (snd (run_retry R A retry w)) = w_calls w
   \<or> (\<exists>rc b. retry = Some rc \<and> rc_kind rc \<noteq> RetryPrompt \<and> co_thread (w_co w) \<noteq> []
       \<and> co_active (w_co w) = Some b \<and> tb_state b = RequestRunning \<and> tb_turn_id b = rc_expected_turn_id rc
       \<and> w_calls (snd (run_retry R A retry w)) = w_calls w @
           [if rc_kind rc = RetrySteer then CallSteerTurn (co_thread (w_co w)) (rc_expected_turn_id rc) (rc_text rc)
            else CallInterruptTurn (co_thread (w_co w)) (rc_expected_turn_id rc)])"
proof (cases retry)
  case None
  then show ?thesis by (simp add: run_retry_def)
next
  case (Some rc)
  define running where "running \<longleftrightarrow> (case co_active (w_co w) of None \<Rightarrow> False
      | Some b \<Rightarrow> tb_state b = RequestRunning \<and> tb_turn_id b = rc_expected_turn_id rc) \<and> co_thread (w_co w) \<noteq> []"
  obtain er w1 where rc: "retry_control A rc w = (er, w1)" by fastforce
  have same: "w_calls (snd (case repo f v of (Inl e, w2) \<Rightarrow> (Inl e, w2)
      | (Inr ev, w2) \<Rightarrow> (case loadRecovery R (publish ev w2) of (Inl e, w3) \<Rightarrow> (Inl e, w3) | (Inr _, w3) \<Rightarrow> (Inr x, w3)))) = w_calls v"
    for f v and x :: "err option"
    using loadRecovery_calls [of R]
    by (auto dest!: repo_co split: prod.splits sum.splits) (metis publish_simps(2) snd_conv)+
  obtain oc re where out: "retry_outcome er = (oc, re)" by fastforce
  show ?thesis
  proof (cases running)
    case True
    then obtain b where b: "co_active (w_co w) = Some b" "tb_state b = RequestRunning" "tb_turn_id b = rc_expected_turn_id rc"
        "co_thread (w_co w) \<noteq> []" by (auto simp: running_def split: option.splits)
    then show ?thesis
      using retry_control_calls [OF rc] by (simp add: run_retry_def Some Let_def rc out same)
  next
    case False
    then have "w_calls (snd (run_retry R A retry w)) = w_calls w"
      unfolding running_def de_Morgan_conj by (elim disjE) (simp_all add: run_retry_def Some Let_def same)
    then show ?thesis by blast
  qed
qed

text \<open>
  C9. A steer or cancel reaches the agent only as one call, on the room's thread and for the turn
  the member named. A new one is sent only while the room is ready and that very turn is its
  running one; one that is sent again after a review, which happens before the room is ready, only
  while that very turn is the room's running one. In every other case the agent is not called.
\<close>

theorem control_reaches_running_turn_only:
  "(w_calls (snd (handleControl R A a i w)) = w_calls w
    \<or> (\<exists>b. co_status (w_co w) = RoomReady \<and> co_active (w_co w) = Some b
        \<and> tb_state b = RequestRunning \<and> tb_turn_id b = ci_expected_turn_id i
        \<and> w_calls (snd (handleControl R A a i w)) = w_calls w @
            [if ci_kind i = ControlSteer then CallSteerTurn (co_thread (w_co w)) (ci_expected_turn_id i) (ci_text i)
             else CallInterruptTurn (co_thread (w_co w)) (ci_expected_turn_id i)]))
   \<and> (w_calls (snd (run_retry R A retry w)) = w_calls w
    \<or> (\<exists>rc b. retry = Some rc \<and> rc_kind rc \<noteq> RetryPrompt \<and> co_thread (w_co w) \<noteq> []
        \<and> co_active (w_co w) = Some b \<and> tb_state b = RequestRunning \<and> tb_turn_id b = rc_expected_turn_id rc
        \<and> w_calls (snd (run_retry R A retry w)) = w_calls w @
            [if rc_kind rc = RetrySteer then CallSteerTurn (co_thread (w_co w)) (rc_expected_turn_id rc) (rc_text rc)
             else CallInterruptTurn (co_thread (w_co w)) (rc_expected_turn_id rc)]))"
proof (rule conjI [OF _ run_retry_calls])
  obtain r w1 where acc: "repo (rp_AcceptControl R (co_room (w_co w)) a i) w = (r, w1)" by fastforce
  note same = repo_co [OF acc] and run = handleControl_cases [OF acc, of A]
  show "w_calls (snd (handleControl R A a i w)) = w_calls w
    \<or> (\<exists>b. co_status (w_co w) = RoomReady \<and> co_active (w_co w) = Some b
        \<and> tb_state b = RequestRunning \<and> tb_turn_id b = ci_expected_turn_id i
        \<and> w_calls (snd (handleControl R A a i w)) = w_calls w @
            [if ci_kind i = ControlSteer then CallSteerTurn (co_thread (w_co w)) (ci_expected_turn_id i) (ci_text i)
             else CallInterruptTurn (co_thread (w_co w)) (ci_expected_turn_id i)])"
  proof (cases r)
    case (Inl e)
    then show ?thesis by (simp add: run same)
  next
    case (Inr got)
    define w3 where "w3 = on_co (\<lambda>c. c\<lparr>co_controls := co_controls c @
       [\<lparr>tb_message_id = ac_client_message_id got, tb_turn_id = ci_expected_turn_id i, tb_state = RequestDispatching\<rparr>]\<rparr>)
       (publish (ac_event got) w1)"
    have w3: "w_calls w3 = w_calls w" "co_thread (w_co w3) = co_thread (w_co w)"
        "controls_turn (w_co w3) t \<longleftrightarrow> (\<exists>b. co_status (w_co w) = RoomReady \<and> co_active (w_co w) = Some b
           \<and> tb_state b = RequestRunning \<and> tb_turn_id b = t)" for t
      using same by (simp_all add: w3_def controls_turn_def split: option.splits)
    obtain er w4 where sc: "send_control A i w3 = (er, w4)" by fastforce
    show ?thesis
      using send_control_calls [OF sc]
      by (simp add: run Inr Let_def w3_def [symmetric] w3 sc finishControl_fields control_result_calls same) blast
  qed
qed

subsection \<open>Frozen rooms\<close>

lemma dispatchNext_frozen: "co_status (w_co w) \<noteq> RoomReady \<Longrightarrow> dispatchNext R A w = (None, w)"
  by (simp add: dispatchNext.simps may_dispatch_def)

text \<open>The commands that cannot change the status of a room: everything but recovery and review decisions.\<close>

fun ordinary :: "command \<Rightarrow> bool" where
  "ordinary CmdRecover = False"
| "ordinary (CmdResolve a i) = False"
| "ordinary c = True"

lemma handleSubmit_frozen:
  assumes "co_status (w_co w) \<noteq> RoomReady"
  shows "w_calls (snd (handleSubmit R A a i note w)) = w_calls w
    \<and> co_status (w_co (snd (handleSubmit R A a i note w))) \<noteq> RoomReady"
  using assms
  by (auto simp: handleSubmit_def Let_def dispatchNext_frozen dest!: repo_co split: option.splits prod.splits sum.splits)

lemma control_result_frozen:
  "co_status (w_co w) \<noteq> RoomReady \<Longrightarrow> co_status (w_co (snd (control_result R rid got er w))) \<noteq> RoomReady"
proof (cases er)
  case None
  then show "co_status (w_co w) \<noteq> RoomReady \<Longrightarrow> ?thesis" by (simp add: control_result_def finishControl_fields)
next
  case (Some ae)
  obtain code digest certainty where mf: "mutationFailure ae = (code, digest, certainty)" by (cases "mutationFailure ae")
  let ?oc = "\<lparr>oc_state = RequestNeedsReview, oc_error_code = code, oc_error_digest = digest\<rparr>"
  obtain f fe w5 where fc: "finishControl R got ?oc (Some ErrDeliveryUnknown) (freeze RoomRecovering w) = ((f, fe), w5)"
    by (metis prod.exhaust)
  have "co_status (w_co w5) \<noteq> RoomReady"
    using finishControl_fields [of R got ?oc "Some ErrDeliveryUnknown" "freeze RoomRecovering w"] fc by simp
  then show "co_status (w_co w) \<noteq> RoomReady \<Longrightarrow> ?thesis"
    by (auto simp: control_result_def Some mf fc finishControl_fields dest!: repo_co split: prod.splits sum.splits)
qed

lemma handleControl_frozen:
  assumes "co_status (w_co w) \<noteq> RoomReady"
  shows "w_calls (snd (handleControl R A a i w)) = w_calls w
    \<and> co_status (w_co (snd (handleControl R A a i w))) \<noteq> RoomReady"
proof -
  obtain r w1 where acc: "repo (rp_AcceptControl R (co_room (w_co w)) a i) w = (r, w1)" by fastforce
  with assms repo_co [OF acc] show ?thesis
    by (cases r) (simp_all add: handleControl_cases [OF acc] Let_def controls_turn_def finishControl_fields)
qed

lemma startQuestion_frozen:
  "co_status (w_co w) \<noteq> RoomReady \<Longrightarrow>
     w_calls (startQuestion R A q w) = w_calls w \<and> co_status (w_co (startQuestion R A q w)) = co_status (w_co w)"
  by (simp add: startQuestion_def Let_def refuse_def answer_def)

text \<open>
  C10. In a room that is not ready - recovering, under review, or waiting for its thread to be
  repaired - no submission, note, control, question or snapshot sends the agent anything new,
  and none of them makes the room ready; only the cancellation of an open question interrupts
  that question's turn.
\<close>

theorem frozen_room_stays_quiet:
  assumes "co_status (w_co w) \<noteq> RoomReady" "ordinary cmd"
  shows "co_status (w_co (snd (handleCommand R A cmd w))) \<noteq> RoomReady
    \<and> (w_calls (snd (handleCommand R A cmd w)) = w_calls w
       \<or> (\<exists>cid q. cmd = CmdCancelQuestion cid \<and> co_question (w_co w) = Some q
            \<and> w_calls (snd (handleCommand R A cmd w)) = w_calls w @ [CallInterruptTurn (co_thread (w_co w)) (pq_turn q)]))"
proof (cases cmd)
  case (CmdSubmit a i b)
  with handleSubmit_frozen [OF assms(1), of R A a i b] show ?thesis by (cases "handleSubmit R A a i b w") auto
next
  case (CmdControl a i)
  with handleControl_frozen [OF assms(1), of R A a i] show ?thesis by (cases "handleControl R A a i w") auto
next
  case (CmdCancelQuestion cid)
  with assms show ?thesis by (auto simp: cancelQuestion_def Let_def split: option.splits)
qed (use assms startQuestion_frozen [OF assms(1)] in auto)

theorem frozen_room_stays_quiet_witness:
  "w_calls (snd (handleCommand demo_repository demo_agent
       (CmdSubmit \<lparr>actor_uid = 1, actor_name = ''ann''\<rparr>
          \<lparr>si_task_id = 0, si_client_message_id = demo_id CHR ''c'', si_text = ''x''\<rparr> False) demo_booted)) = []"
proof -
  have "co_status (w_co demo_booted) \<noteq> RoomReady" "w_calls demo_booted = []"
    by (simp_all add: demo_booted_def NewCoordinator_def demo_room demo_path)
  from frozen_room_stays_quiet [OF this(1), of "CmdSubmit \<lparr>actor_uid = 1, actor_name = ''ann''\<rparr>
      \<lparr>si_task_id = 0, si_client_message_id = demo_id CHR ''c'', si_text = ''x''\<rparr> False"] this(2)
  show ?thesis by auto
qed

subsection \<open>Private questions\<close>

definition idle :: "coordinator \<Rightarrow> bool" where
  "idle c \<longleftrightarrow> co_question c = None \<and> co_active c = None \<and> co_queue c = [] \<and> co_controls c = []
     \<and> co_status c = RoomReady \<and> co_thread_ready c"

lemma question_turn_journal_first:
  assumes "repo (jn_BeginPrivateTurn j (co_room (w_co w)) (co_thread (w_co w)) baseline) w = (Inl e, w1)"
  shows "question_turn R j start q baseline w = refuse q e w1"
  using assms by (simp add: question_turn_def Let_def)

lemma startQuestion_effect:
  assumes "startQuestion R A q w = w'"
  shows "w_calls w' = w_calls w \<and> w_co w' = w_co w
    \<or> idle (w_co w) \<and> \<not> qc_canceled q
      \<and> (\<exists>ts j start. rp_journal R = Some j \<and> ag_StartReadOnlyTurn A = Some start
          \<and> (w_calls w' = w_calls w @ [CallReadThread (co_thread (w_co w))] \<and> w_co w' = w_co w
             \<or> (\<exists>s. jn_BeginPrivateTurn j (co_room (w_co w)) (co_thread (w_co w)) ts (w_store w) = (Inr (), s)
                \<and> w_calls w' = w_calls w @ [CallReadThread (co_thread (w_co w)),
                    CallReadOnlyTurn (co_thread (w_co w)) (qc_id q) (question_prompt (qc_actor q) (qc_text q))])))"
proof (cases "\<not> qc_canceled q \<and> idle (w_co w) \<and> ag_StartReadOnlyTurn A \<noteq> None \<and> rp_journal R \<noteq> None")
  case False
  then have "startQuestion R A q w = refuse q (if qc_canceled q then ErrCanceled
     else if idle (w_co w) then ErrQuestionUnsupported else ErrQuestionBusy) w"
    by (auto simp: startQuestion_def Let_def idle_def split: option.splits)
  with assms show ?thesis by (auto simp: refuse_def answer_def)
next
  case True
  then obtain start j where sj: "ag_StartReadOnlyTurn A = Some start" "rp_journal R = Some j" by auto
  let ?th = "co_thread (w_co w)" and ?rid = "co_room (w_co w)"
  let ?w1 = "w\<lparr>w_calls := w_calls w @ [CallReadThread ?th]\<rparr>"
  have run: "startQuestion R A q w = (case ag_ReadThread A (w_calls w) ?th of
       Inl ae \<Rightarrow> refuse q (ErrAgent (ae_text ae)) ?w1
     | Inr t \<Rightarrow> if \<not> validThread (w_co w) t ?th then refuse q ErrQuestionThread ?w1
          else if list_ex (\<lambda>turn. ts_state turn = RequestRunning) (th_turns t) then refuse q ErrQuestionActive ?w1
          else question_turn R j start q (map ts_id (th_turns t)) ?w1)"
    using True sj by (simp add: startQuestion_def Let_def idle_def call_agent_def)
  have turn: "w_calls (question_turn R j start q ts ?w1) = w_calls ?w1 \<and> w_co (question_turn R j start q ts ?w1) = w_co w
     \<or> (\<exists>s. jn_BeginPrivateTurn j ?rid ?th ts (w_store w) = (Inr (), s)
          \<and> w_calls (question_turn R j start q ts ?w1) = w_calls ?w1 @ [CallReadOnlyTurn ?th (qc_id q) (question_prompt (qc_actor q) (qc_text q))])"
    for ts
  proof (cases "jn_BeginPrivateTurn j ?rid ?th ts (w_store w)")
    case (Pair r s)
    show ?thesis
    proof (cases r)
      case (Inl e)
      with Pair show ?thesis by (simp add: question_turn_def Let_def repo_def refuse_def answer_def)
    next
      case (Inr u)
      with Pair show ?thesis
        by (auto simp: question_turn_def Let_def repo_def call_agent_def refuse_def answer_def
            split: sum.splits prod.splits)
    qed
  qed
  show ?thesis
  proof (cases "\<exists>e. w' = refuse q e ?w1")
    case refused: True
    then have "w_calls w' = w_calls w @ [CallReadThread ?th] \<and> w_co w' = w_co w"
      by (auto simp: refuse_def answer_def)
    with True sj show ?thesis by blast
  next
    case asked: False
    obtain ts where "w' = question_turn R j start q ts ?w1"
    proof (cases "ag_ReadThread A (w_calls w) ?th")
      case (Inl ae)
      with run assms asked show ?thesis by auto
    next
      case (Inr t)
      with run assms asked have "w' = question_turn R j start q (map ts_id (th_turns t)) ?w1"
        by (auto split: if_splits)
      then show ?thesis by (rule that)
    qed
    with turn [of ts] True sj show ?thesis by auto
  qed
qed

text \<open>
  A private question reaches the agent only in an idle room - nothing queued, active, pending
  or already asked - and a read-only turn is started only after its frontier was written to the
  private-turn journal; otherwise the question is refused and the agent is at most read.
\<close>

theorem question_only_when_idle:
  "let w' = startQuestion R A q w in
     w_calls w' = w_calls w \<and> w_co w' = w_co w
    \<or> idle (w_co w) \<and> \<not> qc_canceled q
      \<and> (\<exists>ts j start. rp_journal R = Some j \<and> ag_StartReadOnlyTurn A = Some start
          \<and> (w_calls w' = w_calls w @ [CallReadThread (co_thread (w_co w))] \<and> w_co w' = w_co w
             \<or> (\<exists>s. jn_BeginPrivateTurn j (co_room (w_co w)) (co_thread (w_co w)) ts (w_store w) = (Inr (), s)
                \<and> w_calls w' = w_calls w @ [CallReadThread (co_thread (w_co w)),
                    CallReadOnlyTurn (co_thread (w_co w)) (qc_id q) (question_prompt (qc_actor q) (qc_text q))])))"
  unfolding Let_def by (rule startQuestion_effect [OF refl])

subsection \<open>Recovery\<close>

lemma dispatchNext_success:
  assumes "dispatchNext R A w = (None, w')"
  shows "\<not> may_dispatch (w_co w) \<and> w' = w
    \<or> (\<exists>b. co_active (w_co w') = Some b \<and> tb_state b = RequestRunning) \<and> co_status (w_co w') = co_status (w_co w)
      \<and> co_controls (w_co w') = co_controls (w_co w) \<and> co_thread_ready (w_co w') = co_thread_ready (w_co w)"
  using assms
  by (subst (asm) dispatchNext.simps)
     (auto simp: Let_def dispatch_bind_def dispatch_unknown_def start_turn_def call_agent_Pair set_active_def set_queue_def
        dest!: repo_co split: if_splits prod.splits sum.splits)

lemma review_controls_success:
  assumes "review_controls R done bs w = (None, w')" "co_controls (w_co w) = done @ bs"
    "\<forall>b \<in> set done. tb_state b = RequestNeedsReview"
  shows "map tb_message_id (co_controls (w_co w')) = map tb_message_id (done @ bs)
    \<and> (\<forall>b \<in> set (co_controls (w_co w')). tb_state b = RequestNeedsReview)
    \<and> co_active (w_co w') = co_active (w_co w) \<and> co_status (w_co w') = co_status (w_co w)
    \<and> co_question (w_co w') = co_question (w_co w)"
  using assms
proof (induction R "done" bs w rule: review_controls.induct)
  case (2 R ds b bs w)
  show ?case
  proof (cases "tb_state b = RequestNeedsReview")
    case True
    with 2 show ?thesis by simp
  next
    case False
    obtain r w1 where m: "repo (rp_MarkNeedsReview R (co_room (w_co w)) (tb_message_id b)
        \<lparr>re_code = ''control-delivery-unknown'', re_detail_digest = digestError (Some unknown_text)\<rparr>) w = (r, w1)" by fastforce
    with False 2(3) obtain ev where ev: "r = Inr ev" by (cases r) auto
    let ?b = "b\<lparr>tb_state := RequestNeedsReview\<rparr>"
    let ?w2 = "on_co (\<lambda>c. c\<lparr>co_controls := ds @ ?b # bs\<rparr>) (publish ev w1)"
    have run: "review_controls R (ds @ [?b]) bs ?w2 = (None, w')"
      using 2(3) False m ev by (simp add: Let_def)
    have "map tb_message_id (co_controls (w_co w')) = map tb_message_id ((ds @ [?b]) @ bs)
      \<and> (\<forall>b \<in> set (co_controls (w_co w')). tb_state b = RequestNeedsReview)
      \<and> co_active (w_co w') = co_active (w_co ?w2) \<and> co_status (w_co w') = co_status (w_co ?w2)
      \<and> co_question (w_co w') = co_question (w_co ?w2)"
      by (rule 2(2) [OF False m [symmetric] ev refl run]) (use 2(5) in auto)
    then show ?thesis using repo_co [OF m] by simp
  qed
qed simp

lemma setStatus_success:
  "setStatus R st w = (None, w') \<Longrightarrow> co_status (w_co w') = st \<and> co_active (w_co w') = co_active (w_co w)
     \<and> co_controls (w_co w') = co_controls (w_co w) \<and> co_thread (w_co w') = co_thread (w_co w)
     \<and> co_thread_ready (w_co w') = co_thread_ready (w_co w)"
  by (auto simp: setStatus_def freeze_def publish_status_def dest!: repo_co split: prod.splits sum.splits option.splits)

lemma resetProjection_question: "co_question (w_co (resetProjection w)) = co_question (w_co w)"
  by (simp add: resetProjection_def with_projection_def publish_transients_def split: prod.splits)

lemma setStatus_question: "setStatus R st w = (None, w') \<Longrightarrow> co_question (w_co w') = co_question (w_co w)"
  by (auto simp: setStatus_def freeze_def publish_status_def dest!: repo_co split: prod.splits sum.splits option.splits)

text \<open>Nothing that was active before the restart is left without an answer.\<close>

definition reviewed :: "turn_binding option \<Rightarrow> bool" where
  "reviewed b \<longleftrightarrow> (case b of None \<Rightarrow> True | Some x \<Rightarrow> tb_state x = RequestNeedsReview)"

lemma record_items_status:
  "co_status (w_co (snd (record_items R turn t items w))) = co_status (w_co w)
   \<and> co_question (w_co (snd (record_items R turn t items w))) = co_question (w_co w)"
proof (induction items arbitrary: w)
  case (Cons i items)
  then show ?case by (auto simp: Let_def apply_projection_def dest!: repo_co split: prod.splits sum.splits)
qed simp

lemma reconcile_turns_status:
  "reconcile_turns R hidden terminal turns w = (Inr x, w') \<Longrightarrow> co_status (w_co w') = co_status (w_co w) \<and> co_question (w_co w') = co_question (w_co w)"
proof (induction R hidden terminal turns w rule: reconcile_turns.induct)
  case (2 R hidden terminal turn turns w)
  obtain e w1 where r: "record_items R turn (terminal \<noteq> None) (ts_items turn) w = (e, w1)" by fastforce
  with record_items_status [of R turn "terminal \<noteq> None" "ts_items turn" w]
  have same: "co_status (w_co w1) = co_status (w_co w)" "co_question (w_co w1) = co_question (w_co w)" by simp_all
  show ?case
  proof (cases e)
    case None
    with 2 r same show ?thesis by (auto split: if_splits)
  next
    case (Some err)
    with 2 r show ?thesis by (auto split: if_splits)
  qed
qed simp

lemma reconcile_active_success:
  "reconcile_active R terminal w = (None, w') \<Longrightarrow> reviewed (co_active (w_co w')) \<and> co_status (w_co w') = co_status (w_co w)
     \<and> co_question (w_co w') = co_question (w_co w)"
  by (auto simp: reconcile_active_def Let_def reviewed_def review_active_def set_active_def dest!: repo_co
      split: option.splits prod.splits sum.splits if_splits)

lemma reconcileHistory_success:
  "reconcileHistory R hs w = (None, w') \<Longrightarrow> reviewed (co_active (w_co w')) \<and> co_status (w_co w') = co_status (w_co w)
     \<and> co_question (w_co w') = co_question (w_co w)"
  by (auto simp: reconcileHistory_def Let_def dest!: reconcile_active_success reconcile_turns_status repo_co
      split: option.splits prod.splits sum.splits)

lemma call_agent_co: "call_agent call f w = (r, w1) \<Longrightarrow> w_co w1 = w_co w"
  by (auto simp: call_agent_Pair)

lemma recover_old_thread_success:
  "recover_old_thread R A w = (None, w') \<Longrightarrow> reviewed (co_active (w_co w')) \<and> co_status (w_co w') = co_status (w_co w)
     \<and> co_question (w_co w') = co_question (w_co w)"
  by (auto simp: recover_old_thread_def Let_def dest!: reconcileHistory_success call_agent_co split: prod.splits sum.splits if_splits)

lemma recover_new_thread_success:
  "recover_new_thread R A w = (None, w') \<Longrightarrow> co_active (w_co w') = co_active (w_co w) \<and> co_status (w_co w') = co_status (w_co w)
     \<and> co_question (w_co w') = co_question (w_co w)"
  by (auto simp: recover_new_thread_def dest!: repo_co call_agent_co split: prod.splits sum.splits if_splits)

lemma loadRecovery_success:
  "loadRecovery R w = (Inr img, w') \<Longrightarrow> co_thread (w_co w') = im_thread_id img \<and> co_active (w_co w') = im_active img
     \<and> co_question (w_co w') = co_question (w_co w)"
  by (auto simp: loadRecovery_def Let_def dest!: repo_co split: prod.splits sum.splits)

text \<open>
  How a recovery that succeeds may leave a room: in business, idle with an empty queue or with one
  prompt running, or still recovering because a prompt or a control waits for a review.
\<close>

definition in_business :: "coordinator \<Rightarrow> bool" where
  "in_business c \<longleftrightarrow> co_status c = RoomReady \<and> co_controls c = [] \<and>
     (co_active c = None \<and> co_queue c = [] \<or> (\<exists>b. co_active c = Some b \<and> tb_state b = RequestRunning))"

definition under_review :: "coordinator \<Rightarrow> bool" where
  "under_review c \<longleftrightarrow> co_status c = RoomRecovering \<and> (co_active c \<noteq> None \<or> co_controls c \<noteq> []) \<and>
     (\<forall>b. co_active c = Some b \<longrightarrow> tb_state b = RequestNeedsReview) \<and>
     (\<forall>b \<in> set (co_controls c). tb_state b = RequestNeedsReview)"

lemma recover_finish_success:
  assumes "recover_finish R A w = (None, w')" "reviewed (co_active (w_co w))" "co_status (w_co w) = RoomRecovering"
    "co_question (w_co w) = None"
  shows "co_thread_ready (w_co w') \<and> (in_business (w_co w') \<or> under_review (w_co w'))"
proof -
  obtain e w1 where rc: "review_controls R [] (co_controls (w_co w)) w = (e, w1)" by fastforce
  with assms(1) have e: "e = None" by (cases e) (auto simp: recover_finish_def)
  note 1 = review_controls_success [OF rc [unfolded e]]
  let ?w2 = "on_co (\<lambda>c. c\<lparr>co_thread_ready := True\<rparr>) w1"
  show ?thesis
  proof (cases "co_active (w_co w1) = None \<and> co_controls (w_co w1) = []")
    case True
    then obtain w3 where w3: "setStatus R RoomReady ?w2 = (None, w3)" "dispatchNext R A w3 = (None, w')"
      using assms(1) rc e by (auto simp: recover_finish_def Let_def split: prod.splits option.splits)
    from setStatus_success [OF w3(1)] True have 3: "co_status (w_co w3) = RoomReady" "co_active (w_co w3) = None"
      "co_controls (w_co w3) = []" "co_thread_ready (w_co w3)" "co_question (w_co w3) = None"
      using 1 assms(4) setStatus_question [OF w3(1)] by auto
    from dispatchNext_success [OF w3(2)] 3 show ?thesis by (auto simp: may_dispatch_def in_business_def)
  next
    case False
    then have "w' = ?w2" using assms(1) rc e by (auto simp: recover_finish_def Let_def split: if_splits)
    with False 1 assms(2,3) show ?thesis
      by (auto simp: under_review_def reviewed_def split: option.splits)
  qed
qed

text \<open>
  C11. A recovery that reports success leaves nothing undecided. The thread is ready, and either
  the room is ready, without pending controls, and has either no prompt at all, active or
  waiting, or one that is running; or it is still recovering, because a
  prompt or a control occupies it, and each of these waits for a review.
\<close>

theorem recover_leaves_consistent_room:
  assumes "recover R A w = (None, w')"
  shows "co_thread_ready (w_co w') \<and> (in_business (w_co w') \<or> under_review (w_co w'))"
proof -
  let ?w0 = "resetProjection (freeze RoomRecovering (on_co (\<lambda>c. c\<lparr>co_thread_ready := False\<rparr>) w))"
  obtain l w1 where l: "loadRecovery R ?w0 = (l, w1)" by fastforce
  with assms obtain img where img: "l = Inr img"
    by (cases l) (auto simp: recover_def Let_def split: if_splits)
  obtain s w2 where s: "setStatus R RoomRecovering w1 = (s, w2)" by fastforce
  obtain t w3 where t: "(if co_thread (w_co w2) = [] then recover_new_thread R A w2 else recover_old_thread R A w2) = (t, w3)"
    by fastforce
  from assms l img s t have ok: "s = None" "t = None" "recover_finish R A w3 = (None, w')"
      "\<not> (im_thread_id img = [] \<and> (im_status img = RoomRecovering \<or> im_active img \<noteq> None \<or> im_pending_controls img \<noteq> []))"
    by (auto simp: recover_def Let_def split: if_splits option.splits)
  have idle: "co_question (w_co ?w0) = None"
    using assms by (simp add: recover_def resetProjection_question freeze_def split: if_splits)
  note st = setStatus_success [OF s [unfolded ok(1)]] setStatus_question [OF s [unfolded ok(1)]]
  have "reviewed (co_active (w_co w3)) \<and> co_status (w_co w3) = RoomRecovering \<and> co_question (w_co w3) = None"
  proof (cases "co_thread (w_co w2) = []")
    case True
    with loadRecovery_success [OF l [unfolded img]] st ok(4)
    have "co_active (w_co w2) = None" by auto
    with recover_new_thread_success [of R A w2 w3] loadRecovery_success [OF l [unfolded img]] t ok(2) True st idle
    show ?thesis by (simp add: reviewed_def)
  next
    case False
    with recover_old_thread_success [of R A w2 w3] loadRecovery_success [OF l [unfolded img]] t ok(2) st idle
    show ?thesis by simp
  qed
  then show ?thesis using recover_finish_success [OF ok(3)] by simp
qed

lemma demo_recover: "fst (recover demo_repository demo_agent demo_booted) = None"
  by code_simp

theorem recover_leaves_consistent_room_witness:
  "\<exists>w'. recover demo_repository demo_agent demo_booted = (None, w') \<and> co_thread_ready (w_co w')
     \<and> (in_business (w_co w') \<or> under_review (w_co w'))"
proof -
  obtain w' where r: "recover demo_repository demo_agent demo_booted = (None, w')"
    using demo_recover by (metis prod.collapse)
  from recover_leaves_consistent_room [OF r] r show ?thesis by blast
qed

end
