(* ===== verification/Admission_Properties.thy ===== *)
theory Admission_Properties
  imports Store_Admission
begin

text \<open>
  What the admission of guests guarantees: along every history of requests and decisions the
  tables stay bounded, an identity is given once, an approval admits exactly the guest who asked,
  and a revoked token is out for good.
\<close>

subsection \<open>Well-formed admissions\<close>

definition wf_joins :: "db \<Rightarrow> bool" where
  "wf_joins d \<longleftrightarrow>
     distinct (map j_id (join_requests d)) \<and> distinct (map (\<lambda>j. (j_room j, j_token_hash j)) (join_requests d))
     \<and> (\<forall>j \<in> set (join_requests d). j_uid j \<noteq> 0 \<longleftrightarrow> j_state j = ''approved'' \<or> j_state j = ''revoked'')
     \<and> (\<forall>j \<in> set (join_requests d). j_uid j \<noteq> 0 \<longrightarrow> find_member (j_room j) (j_uid j) d \<noteq> None)
     \<and> (\<forall>j \<in> set (join_requests d). \<forall>k \<in> set (join_requests d).
          j_uid j \<noteq> 0 \<and> j_uid k = j_uid j \<and> j_room k = j_room j \<longrightarrow> j_id k = j_id j)
     \<and> (\<forall>rid. length (pending_joins rid d) \<le> 128 \<and> length (room_joins rid d) \<le> 4096)"

text \<open>What an admission keeps: an identity once given, and a revocation.\<close>

definition joins_kept :: "db \<Rightarrow> db \<Rightarrow> bool" where
  "joins_kept d d' \<longleftrightarrow>
     (\<forall>j \<in> set (join_requests d). j_uid j \<noteq> 0 \<longrightarrow>
        (\<exists>k \<in> set (join_requests d'). j_id k = j_id j \<and> j_room k = j_room j \<and> j_token_hash k = j_token_hash j
           \<and> j_uid k = j_uid j \<and> (j_state k = j_state j \<or> j_state k = ''revoked'')))"

lemma joins_kept_refl [simp]: "joins_kept d d"
  by (auto simp: joins_kept_def)

lemma joins_kept_trans: "joins_kept a b \<Longrightarrow> joins_kept b c \<Longrightarrow> joins_kept a c"
  unfolding joins_kept_def by metis

lemma wf_joinsI:
  assumes "distinct (map j_id (join_requests d))" "distinct (map (\<lambda>j. (j_room j, j_token_hash j)) (join_requests d))"
    "\<And>j. j \<in> set (join_requests d) \<Longrightarrow> j_uid j \<noteq> 0 \<longleftrightarrow> j_state j = ''approved'' \<or> j_state j = ''revoked''"
    "\<And>j. j \<in> set (join_requests d) \<Longrightarrow> j_uid j \<noteq> 0 \<Longrightarrow> find_member (j_room j) (j_uid j) d \<noteq> None"
    "\<And>j k. j \<in> set (join_requests d) \<Longrightarrow> k \<in> set (join_requests d) \<Longrightarrow> j_uid j \<noteq> 0 \<Longrightarrow> j_uid k = j_uid j \<Longrightarrow>
       j_room k = j_room j \<Longrightarrow> j_id k = j_id j"
    "\<And>r. length (pending_joins r d) \<le> 128" "\<And>r. length (room_joins r d) \<le> 4096"
  shows "wf_joins d"
  unfolding wf_joins_def using assms by blast

lemma wf_joinsD:
  assumes "wf_joins d"
  shows "distinct (map j_id (join_requests d))" "distinct (map (\<lambda>j. (j_room j, j_token_hash j)) (join_requests d))"
    and "j \<in> set (join_requests d) \<Longrightarrow> j_uid j \<noteq> 0 \<longleftrightarrow> j_state j = ''approved'' \<or> j_state j = ''revoked''"
    and "j \<in> set (join_requests d) \<Longrightarrow> j_uid j \<noteq> 0 \<Longrightarrow> find_member (j_room j) (j_uid j) d \<noteq> None"
    and "j \<in> set (join_requests d) \<Longrightarrow> k \<in> set (join_requests d) \<Longrightarrow> j_uid j \<noteq> 0 \<Longrightarrow> j_uid k = j_uid j \<Longrightarrow>
       j_room k = j_room j \<Longrightarrow> j_id k = j_id j"
    and "length (pending_joins r d) \<le> 128" "length (room_joins r d) \<le> 4096"
  using assms unfolding wf_joins_def by blast+

lemma length_filter_map_le:
  "(\<And>x. x \<in> set xs \<Longrightarrow> Q (g x) \<Longrightarrow> Q x) \<Longrightarrow> length (filter Q (map g xs)) \<le> length (filter Q xs)"
  by (induction xs) (auto simp: le_SucI)

lemma wf_joins_update:
  assumes wf: "wf_joins d" and upd: "join_requests d' = update_where P f (join_requests d)"
    and members: "\<And>r u. find_member r u d \<noteq> None \<Longrightarrow> find_member r u d' \<noteq> None"
    and keys: "\<And>j. j_id (f j) = j_id j \<and> j_room (f j) = j_room j \<and> j_token_hash (f j) = j_token_hash j"
    and state: "\<And>j. j \<in> set (join_requests d) \<Longrightarrow> P j \<Longrightarrow> (j_state (f j) = ''pending'' \<longrightarrow> j_state j = ''pending'')
      \<and> (j_uid (f j) \<noteq> 0 \<longleftrightarrow> j_state (f j) = ''approved'' \<or> j_state (f j) = ''revoked'')
      \<and> (j_uid j \<noteq> 0 \<longrightarrow> j_state (f j) = j_state j \<or> j_state (f j) = ''revoked'')"
    and uid: "\<And>j. j \<in> set (join_requests d) \<Longrightarrow> P j \<Longrightarrow> j_uid (f j) = j_uid j
      \<or> j_uid j = 0 \<and> find_member (j_room j) (j_uid (f j)) d = None \<and> find_member (j_room j) (j_uid (f j)) d' \<noteq> None
        \<and> (\<forall>k \<in> set (join_requests d). P k \<longrightarrow> k = j)"
  shows "wf_joins d' \<and> joins_kept d d'"
proof -
  let ?g = "\<lambda>j. if P j then f j else j"
  have g: "join_requests d' = map ?g (join_requests d)" using upd by (simp add: update_where_def)
  have gk: "j_id (?g j) = j_id j" "j_room (?g j) = j_room j" "j_token_hash (?g j) = j_token_hash j" for j
    using keys by simp_all
  have maps: "map j_id (join_requests d') = map j_id (join_requests d)"
    "map (\<lambda>j. (j_room j, j_token_hash j)) (join_requests d') = map (\<lambda>j. (j_room j, j_token_hash j)) (join_requests d)"
    by (simp_all add: g keys)
  have uids: "j_uid (?g j) = j_uid j \<or> j_uid j = 0 \<and> find_member (j_room j) (j_uid (?g j)) d = None
      \<and> find_member (j_room j) (j_uid (?g j)) d' \<noteq> None \<and> (\<forall>k \<in> set (join_requests d). k \<noteq> j \<longrightarrow> ?g k = k)"
    if "j \<in> set (join_requests d)" for j
    using uid [OF that] by auto
  have member: "find_member (j_room j) (j_uid j) d \<noteq> None" if "j \<in> set (join_requests d)" "j_uid j \<noteq> 0" for j
    using wf that unfolding wf_joins_def by blast
  have states: "j_uid (?g j) \<noteq> 0 \<longleftrightarrow> j_state (?g j) = ''approved'' \<or> j_state (?g j) = ''revoked''"
    if "j \<in> set (join_requests d)" for j
    using wf state [OF that] that unfolding wf_joins_def by auto
  have member': "find_member (j_room (?g j)) (j_uid (?g j)) d' \<noteq> None" if "j \<in> set (join_requests d)" "j_uid (?g j) \<noteq> 0" for j
    using uids [OF that(1)] member [OF that(1)] that(2) members by (metis gk(2))
  have ids': "j_id (?g k) = j_id (?g j)"
    if jk: "j \<in> set (join_requests d)" "k \<in> set (join_requests d)" "j_uid (?g j) \<noteq> 0" "j_uid (?g k) = j_uid (?g j)" "j_room (?g k) = j_room (?g j)"
    for j k
  proof (cases "k = j")
    case False
    have same: "j_uid x \<noteq> 0 \<Longrightarrow> j_uid y = j_uid x \<Longrightarrow> j_room y = j_room x \<Longrightarrow> j_id y = j_id x"
      if "x \<in> set (join_requests d)" "y \<in> set (join_requests d)" for x y
      using wf that unfolding wf_joins_def by blast
    have room: "j_room k = j_room j" using jk(5) by (simp only: gk)
    consider "j_uid (?g j) = j_uid j" "j_uid (?g k) = j_uid k"
      | "find_member (j_room j) (j_uid (?g j)) d = None" "?g k = k"
      | "find_member (j_room k) (j_uid (?g k)) d = None" "?g j = j"
      using uids [OF jk(1)] uids [OF jk(2)] jk(1,2) False by metis
    then show ?thesis
    proof cases
      case 1
      with jk(3,4) have "j_uid j \<noteq> 0" "j_uid k = j_uid j" by metis+
      from same [OF jk(1,2) this room] show ?thesis by (simp only: gk)
    next
      case 2
      then have "j_uid k = j_uid (?g j)" using jk(4) by simp
      with member [OF jk(2)] jk(3) 2(1) room show ?thesis by simp
    next
      case 3
      then have "j_uid j = j_uid (?g k)" using jk(4) by simp
      with member [OF jk(1)] jk(3,4) 3(1) room show ?thesis by simp
    qed
  qed simp
  have rooms': "length (room_joins r d') \<le> 4096" for r
  proof -
    have "length (room_joins r d') \<le> length (room_joins r d)"
      unfolding room_joins_def g by (rule length_filter_map_le) (simp only: gk)
    with wf show ?thesis unfolding wf_joins_def by (meson le_trans)
  qed
  have pending': "length (pending_joins r d') \<le> 128" for r
  proof -
    have "length (filter (\<lambda>j. j_room j = r \<and> j_state j = ''pending'') (map ?g (join_requests d)))
        \<le> length (filter (\<lambda>j. j_room j = r \<and> j_state j = ''pending'') (join_requests d))"
      by (rule length_filter_map_le) (use state gk in \<open>auto split: if_splits\<close>)
    then have "length (pending_joins r d') \<le> length (pending_joins r d)"
      by (simp add: pending_joins_def room_joins_def g)
    with wf show ?thesis unfolding wf_joins_def by (meson le_trans)
  qed
  have img: "\<exists>i \<in> set (join_requests d). j = ?g i" if "j \<in> set (join_requests d')" for j
    using that unfolding g set_map by blast
  have "wf_joins d'"
  proof (rule wf_joinsI)
    fix j assume "j \<in> set (join_requests d')"
    with img obtain i where i: "i \<in> set (join_requests d)" "j = ?g i" by blast
    show "j_uid j \<noteq> 0 \<longleftrightarrow> j_state j = ''approved'' \<or> j_state j = ''revoked''" unfolding i(2) by (rule states [OF i(1)])
    show "j_uid j \<noteq> 0 \<Longrightarrow> find_member (j_room j) (j_uid j) d' \<noteq> None" unfolding i(2) by (rule member' [OF i(1)])
    fix k assume "k \<in> set (join_requests d')"
    with img obtain l where l: "l \<in> set (join_requests d)" "k = ?g l" by blast
    show "j_uid j \<noteq> 0 \<Longrightarrow> j_uid k = j_uid j \<Longrightarrow> j_room k = j_room j \<Longrightarrow> j_id k = j_id j"
      unfolding i(2) l(2) by (rule ids' [OF i(1) l(1)])
  qed (simp_all only: maps wf_joinsD(1,2) [OF wf] rooms' pending')
  moreover have "joins_kept d d'"
    unfolding joins_kept_def g
  proof (intro ballI impI)
    fix j assume j: "j \<in> set (join_requests d)" "j_uid j \<noteq> 0"
    have "j_uid (?g j) = j_uid j" by (metis j(2) uids [OF j(1)])
    moreover have "j_state (?g j) = j_state j \<or> j_state (?g j) = ''revoked''" using state [OF j(1)] j(2) by auto
    ultimately show "\<exists>k \<in> set (map ?g (join_requests d)). j_id k = j_id j \<and> j_room k = j_room j
        \<and> j_token_hash k = j_token_hash j \<and> j_uid k = j_uid j \<and> (j_state k = j_state j \<or> j_state k = ''revoked'')"
      using j(1) gk by (intro bexI [of _ "?g j"]) simp_all
  qed
  ultimately show ?thesis by blast
qed

lemma wf_joins_filter:
  assumes wf: "wf_joins d" and upd: "join_requests d' = filter Q (join_requests d)" and members: "members d' = members d"
    and none: "\<And>j. j \<in> set (join_requests d) \<Longrightarrow> \<not> Q j \<Longrightarrow> j_state j \<noteq> ''approved'' \<and> j_state j \<noteq> ''revoked''"
  shows "wf_joins d' \<and> joins_kept d d'"
proof -
  have le: "length (filter R (filter Q xs)) \<le> length (filter R xs)" for R and xs :: "join_row list"
    by (induction xs) (auto simp: le_SucI)
  have "length (room_joins r d') \<le> length (room_joins r d)" "length (pending_joins r d') \<le> length (pending_joins r d)" for r
    using le [of "\<lambda>j. j_room j = r"] le [of "\<lambda>j. j_room j = r \<and> j_state j = ''pending''"]
    by (simp_all add: room_joins_def pending_joins_def upd)
  note shorter = this
  have sub: "j \<in> set (join_requests d') \<Longrightarrow> j \<in> set (join_requests d)" for j by (simp add: upd)
  have "wf_joins d'"
  proof (rule wf_joinsI)
    show "length (pending_joins r d') \<le> 128" "length (room_joins r d') \<le> 4096" for r
      using shorter [of r] wf_joinsD(6,7) [OF wf, of r] by simp_all
    show "distinct (map j_id (join_requests d'))" "distinct (map (\<lambda>j. (j_room j, j_token_hash j)) (join_requests d'))"
      using wf_joinsD(1,2) [OF wf] by (simp_all add: upd distinct_map_filter)
    show "find_member (j_room j) (j_uid j) d' \<noteq> None" if "j \<in> set (join_requests d')" "j_uid j \<noteq> 0" for j
      using wf_joinsD(4) [OF wf sub [OF that(1)] that(2)] members by (simp add: find_member_def)
  qed (use wf_joinsD(3,5) [OF wf] sub in blast)+
  moreover have "Q j" if "j \<in> set (join_requests d)" "j_uid j \<noteq> 0" for j
    using none [OF that(1)] wf_joinsD(3) [OF wf that(1)] that(2) by blast
  then have "joins_kept d d'"
    unfolding joins_kept_def by (auto simp: upd)
  ultimately show ?thesis by blast
qed

lemma wf_joins_append:
  assumes wf: "wf_joins d" and upd: "join_requests d' = join_requests d @ [row]" and members: "members d' = members d"
    and new: "\<forall>j \<in> set (join_requests d). j_id j \<noteq> j_id row" "find_token (j_room row) (j_token_hash row) d = None"
      "j_uid row = 0" "j_state row = ''pending''"
    and room: "length (pending_joins (j_room row) d) < 128" "length (room_joins (j_room row) d) < 4096"
  shows "wf_joins d' \<and> joins_kept d d'"
proof -
  have bounds: "length (pending_joins r d') \<le> 128" "length (room_joins r d') \<le> 4096" for r
    using wf_joinsD(6,7) [OF wf, of r] room new(4)
    by (cases "j_room row = r"; simp add: room_joins_def pending_joins_def upd)+
  have fresh: "(j_room j, j_token_hash j) \<noteq> (j_room row, j_token_hash row)" if "j \<in> set (join_requests d)" for j
    using new(2) that by (auto simp: find_token_def room_joins_def find_None_iff)
  have ids': "j_id k = j_id j"
    if "j \<in> set (join_requests d')" "k \<in> set (join_requests d')" "j_uid j \<noteq> 0" "j_uid k = j_uid j" "j_room k = j_room j" for j k
  proof -
    have "j \<in> set (join_requests d)" "k \<in> set (join_requests d)" using that new(3) by (auto simp: upd)
    from wf_joinsD(5) [OF wf this that(3-5)] show ?thesis .
  qed
  have "wf_joins d'"
  proof (rule wf_joinsI)
    show "distinct (map j_id (join_requests d'))" using wf_joinsD(1) [OF wf] new(1) by (auto simp: upd)
    show "distinct (map (\<lambda>j. (j_room j, j_token_hash j)) (join_requests d'))"
    proof -
      have "(j_room row, j_token_hash row) \<notin> (\<lambda>j. (j_room j, j_token_hash j)) ` set (join_requests d)"
        using fresh by (metis (no_types, lifting) imageE)
      with wf_joinsD(2) [OF wf] show ?thesis by (simp add: upd)
    qed
    fix j assume "j \<in> set (join_requests d')"
    then consider "j \<in> set (join_requests d)" | "j = row" by (auto simp: upd)
    then show "j_uid j \<noteq> 0 \<longleftrightarrow> j_state j = ''approved'' \<or> j_state j = ''revoked''"
      by cases (simp add: wf_joinsD(3) [OF wf] del: neq0_conv, simp add: new(3,4))
  next
    fix j assume j: "j \<in> set (join_requests d')" "j_uid j \<noteq> 0"
    then have "j \<in> set (join_requests d)" using new(3) by (auto simp: upd)
    from wf_joinsD(4) [OF wf this j(2)] members show "find_member (j_room j) (j_uid j) d' \<noteq> None"
      by (simp add: find_member_def)
  qed (rule ids' bounds; assumption)+
  moreover have "joins_kept d d'" by (auto simp: joins_kept_def upd)
  ultimately show ?thesis by blast
qed


subsection \<open>Every operation keeps admissions well-formed\<close>

definition admission_good :: "(instant \<Rightarrow> 'a dbtx) \<Rightarrow> bool" where
  "admission_good body \<longleftrightarrow>
     (\<forall>now d x d'. wf_joins d \<longrightarrow> body now d = Inr (x, d') \<longrightarrow> wf_joins d' \<and> joins_kept d d')"

lemma expire_joins_good:
  assumes "wf_joins d" "expire_joins rid t d = Inr (u, d')"
  shows "wf_joins d' \<and> joins_kept d d'"
proof -
  from assms(2) have upd: "join_requests d' = update_where
        (\<lambda>j. j_room j = rid \<and> j_state j = ''pending'' \<and> j_created j < t - day) (\<lambda>j. j\<lparr>j_state := ''expired''\<rparr>) (join_requests d)"
    and m: "members d' = members d" by (auto simp: expire_joins_def tx_Inr)
  show ?thesis
    by (rule wf_joins_update [OF assms(1) upd]) (use wf_joinsD(3) [OF assms(1)] m in \<open>auto simp: find_member_def\<close>)
qed

lemma make_room_for_join_good:
  assumes "wf_joins d" "make_room_for_join rid d = Inr (u, d')"
  shows "wf_joins d' \<and> joins_kept d d' \<and> length (room_joins rid d') < 4096
    \<and> length (pending_joins rid d') \<le> length (pending_joins rid d) \<and> (find_token rid h d = None \<longrightarrow> find_token rid h d' = None)"
proof (cases "length (room_joins rid d) < 4096")
  case True
  with assms show ?thesis by (simp add: make_room_for_join_def tx_Inr)
next
  case False
  let ?Q = "\<lambda>j. \<not> (j_room j = rid \<and> (j_state j = ''denied'' \<or> j_state j = ''expired''))"
  from False assms(2) have upd: "join_requests d' = filter ?Q (join_requests d)" and m: "members d' = members d"
    and n: "length (room_joins rid d') < 4096"
    by (auto simp: make_room_for_join_def tx_Inr room_joins_def)
  have "pending_joins rid d' = pending_joins rid d"
    by (auto simp: pending_joins_def room_joins_def upd intro!: filter_cong)
  moreover have "find_token rid h d = None \<longrightarrow> find_token rid h d' = None"
    by (auto simp: find_token_def find_None_iff room_joins_def upd)
  moreover have "wf_joins d' \<and> joins_kept d d'"
    by (rule wf_joins_filter [OF assms(1) upd m]) auto
  ultimately show ?thesis using n by simp
qed

lemma request_join_good: "admission_good (request_join_body rid rnd h name address)"
  unfolding admission_good_def
proof (intro allI impI)
  fix now d x d' assume wf: "wf_joins d" and run: "request_join_body rid rnd h name address now d = Inr (x, d')"
  let ?row = "\<lparr>j_id = hex_encode rnd, j_room = rid, j_token_hash = h, j_name = name, j_state = ''pending'',
              j_address = address, j_uid = 0, j_created = unix_time now\<rparr>"
  from run obtain d1 where 1: "expire_joins rid (unix_time now) d = Inr ((), d1)"
    by (auto simp: request_join_body_def tx_Inr)
  note good1 = expire_joins_good [OF wf 1]
  show "wf_joins d' \<and> joins_kept d d'"
  proof (cases "find_token rid h d1")
    case (Some j)
    with run 1 have "d' = d1" by (auto simp: request_join_body_def tx_Inr)
    with good1 show ?thesis by simp
  next
    case None
    with run 1 obtain d2 where 2: "length (pending_joins rid d1) < 128" "make_room_for_join rid d1 = Inr ((), d2)"
        "insert_join ?row d2 = Inr ((), d')"
      by (auto simp: request_join_body_def tx_Inr)
    note good2 = make_room_for_join_good [OF conjunct1 [OF good1] 2(2), of h]
    from 2(3) have new: "join_requests d' = join_requests d2 @ [?row]" "members d' = members d2"
      "\<forall>j \<in> set (join_requests d2). j_id j \<noteq> j_id ?row" "find_token (j_room ?row) (j_token_hash ?row) d2 = None"
      by (auto simp: insert_join_def tx_Inr)
    have "wf_joins d' \<and> joins_kept d2 d'"
      by (rule wf_joins_append [OF _ new(1,2,3,4)]) (use good2 2(1) in auto)
    with good1 good2 show ?thesis by (blast intro: joins_kept_trans)
  qed
qed

text \<open>What an approval hands out: a new identity above every other one of the room.\<close>

lemma next_uid_fresh:
  "find_member rid (next_uid rid d) d = None \<and> first_virtual_uid \<le> next_uid rid d"
proof -
  have "m_uid m < next_uid rid d" if "m \<in> set (members d)" "m_room m = rid" for m
  proof -
    let ?us = "map m_uid (filter (\<lambda>m. m_room m = rid) (members d))"
    have mem: "m_uid m \<in> set ?us" using that by simp
    then have "m_uid m \<le> Max (set ?us)" by simp
    moreover have "?us \<noteq> []" using mem by (metis list.set(1) empty_iff)
    ultimately have "m_uid m \<le> Max (set ?us)" "?us \<noteq> []" by simp_all
    then show ?thesis by (simp add: next_uid_def Let_def)
  qed
  then have "find_member rid (next_uid rid d) d = None"
    unfolding find_member_def find_None_iff by (metis less_irrefl)
  then show ?thesis by (simp add: next_uid_def Let_def)
qed

lemma approve_join_Inr:
  assumes "approve_join rid r role now d = Inr (r', d')"
  shows "jr_state r = ''pending'' \<and> unix_time now - day \<le> jr_created r
    \<and> r' = r\<lparr>jr_uid := next_uid rid d, jr_role := role, jr_state := ''approved''\<rparr>
    \<and> members d' = members d @ [\<lparr>m_room = rid, m_uid = next_uid rid d, m_username = jr_name r\<rparr>]
    \<and> join_requests d' = join_requests d \<and> member_roles d' = member_roles d @ [(rid, next_uid rid d, role)]
    \<and> (\<forall>(a, v, _) \<in> set (member_roles d). \<not> (a = rid \<and> v = next_uid rid d)) \<and> ValidRole role"
  using assms by (auto simp: approve_join_def tx_Inr insert_member_def insert_role_def)

lemma find_join_unique:
  assumes "wf_joins d" "find_join rid i d = Some j"
  shows "j \<in> set (join_requests d)" "j_room j = rid" "j_id j = i"
    and "k \<in> set (join_requests d) \<Longrightarrow> j_id k = i \<Longrightarrow> k = j"
proof -
  from assms(2) show j: "j \<in> set (join_requests d)" "j_room j = rid" "j_id j = i"
    by (auto simp: find_join_def room_joins_def dest: find_SomeD)
  show "k \<in> set (join_requests d) \<Longrightarrow> j_id k = i \<Longrightarrow> k = j"
    using wf_joinsD(1) [OF assms(1)] j by (auto simp: distinct_map dest: inj_onD)
qed

lemma decide_join_good: "admission_good (decide_join_body rid i action role)"
  unfolding admission_good_def
proof (intro allI impI)
  fix now d x d' assume wf: "wf_joins d" and run: "decide_join_body rid i action role now d = Inr (x, d')"
  then obtain j where j: "find_join rid i d = Some j"
    by (auto simp: decide_join_body_def tx_Inr split: option.splits)
  note u = find_join_unique [OF wf j]
  let ?r = "scanJoin d j"
  let ?P = "\<lambda>j. j_room j = rid \<and> j_id j = i" and ?f = "\<lambda>r j. j\<lparr>j_state := jr_state r, j_uid := jr_uid r\<rparr>"
  have only: "k \<in> set (join_requests d) \<Longrightarrow> ?P k \<Longrightarrow> k = j" for k using u(4) by blast
  note st = wf_joinsD(3) [OF wf u(1)]
  show "wf_joins d' \<and> joins_kept d d'"
  proof (cases "action = ''approve''")
    case True
    with run j obtain r' d1 where a: "approve_join rid ?r role now d = Inr (r', d1)"
      and upd: "join_requests d' = update_where ?P (?f r') (join_requests d1)" and m: "members d' = members d1"
      by (auto simp: decide_join_body_def tx_Inr)
    note eff = approve_join_Inr [OF a]
    from eff have pend: "j_state j = ''pending''" and r': "jr_uid r' = next_uid rid d" "jr_state r' = ''approved''"
      by (auto simp: scanJoin_def)
    from pend st have uid0: "j_uid j = 0" by simp
    have nz: "next_uid rid d \<noteq> 0" using next_uid_fresh [of rid d] by (simp add: first_virtual_uid_def)
    have upd': "join_requests d' = update_where ?P (?f r') (join_requests d)" using upd eff by simp
    have new: "find_member rid (next_uid rid d) d = None" "find_member rid (next_uid rid d) d' \<noteq> None"
      using next_uid_fresh [of rid d] eff m by (simp_all add: find_member_def find_append split: option.splits)
    show ?thesis
    proof (rule wf_joins_update [OF wf upd'])
      show "find_member r v d' \<noteq> None" if "find_member r v d \<noteq> None" for r v
        using that eff m by (auto simp: find_member_def find_append split: option.splits)
      show "j_uid (?f r' k) = j_uid k \<or> j_uid k = 0 \<and> find_member (j_room k) (j_uid (?f r' k)) d = None
          \<and> find_member (j_room k) (j_uid (?f r' k)) d' \<noteq> None \<and> (\<forall>l \<in> set (join_requests d). ?P l \<longrightarrow> l = k)"
        if "k \<in> set (join_requests d)" "?P k" for k
        using only [OF that] only new u(2) uid0 r' by auto
      show "(j_state (?f r' k) = ''pending'' \<longrightarrow> j_state k = ''pending'')
          \<and> (j_uid (?f r' k) \<noteq> 0 \<longleftrightarrow> j_state (?f r' k) = ''approved'' \<or> j_state (?f r' k) = ''revoked'')
          \<and> (j_uid k \<noteq> 0 \<longrightarrow> j_state (?f r' k) = j_state k \<or> j_state (?f r' k) = ''revoked'')"
        if "k \<in> set (join_requests d)" "?P k" for k
        using only [OF that] r' nz uid0 by simp
    qed simp
  next
    case False
    with run j obtain s where s: "s = ''denied'' \<and> j_state j = ''pending'' \<or> s = ''revoked'' \<and> j_state j = ''approved''"
      and upd: "join_requests d' = update_where ?P (?f (?r\<lparr>jr_state := s\<rparr>)) (join_requests d)" and m: "members d' = members d"
      by (auto simp: decide_join_body_def tx_Inr scanJoin_def split: if_splits)
    show ?thesis
    proof (rule wf_joins_update [OF wf upd])
      show "find_member r v d' \<noteq> None" if "find_member r v d \<noteq> None" for r v
        using that m by (simp add: find_member_def)
      show "j_uid (?f (?r\<lparr>jr_state := s\<rparr>) k) = j_uid k \<or> j_uid k = 0 \<and> find_member (j_room k) (j_uid (?f (?r\<lparr>jr_state := s\<rparr>) k)) d = None
          \<and> find_member (j_room k) (j_uid (?f (?r\<lparr>jr_state := s\<rparr>) k)) d' \<noteq> None \<and> (\<forall>l \<in> set (join_requests d). ?P l \<longrightarrow> l = k)"
        if "k \<in> set (join_requests d)" "?P k" for k
        using only [OF that] by (simp add: scanJoin_def)
      show "(j_state (?f (?r\<lparr>jr_state := s\<rparr>) k) = ''pending'' \<longrightarrow> j_state k = ''pending'')
          \<and> (j_uid (?f (?r\<lparr>jr_state := s\<rparr>) k) \<noteq> 0 \<longleftrightarrow>
               j_state (?f (?r\<lparr>jr_state := s\<rparr>) k) = ''approved'' \<or> j_state (?f (?r\<lparr>jr_state := s\<rparr>) k) = ''revoked'')
          \<and> (j_uid k \<noteq> 0 \<longrightarrow> j_state (?f (?r\<lparr>jr_state := s\<rparr>) k) = j_state k \<or> j_state (?f (?r\<lparr>jr_state := s\<rparr>) k) = ''revoked'')"
        if "k \<in> set (join_requests d)" "?P k" for k
        using only [OF that] s st by (elim disjE conjE) (simp_all add: scanJoin_def)
    qed simp
  qed
qed

lemma change_role_good: "admission_good (change_role_body rid i role)"
  unfolding admission_good_def
proof (intro allI impI)
  fix now d x d' assume wf: "wf_joins d" and run: "change_role_body rid i role now d = Inr (x, d')"
  then have "join_requests d' = join_requests d" "members d' = members d"
    by (auto simp: change_role_body_def set_role_def tx_Inr split: option.splits)
  then show "wf_joins d' \<and> joins_kept d d'"
    using wf_joins_filter [OF wf, of d' "\<lambda>_. True"] by simp
qed


subsection \<open>Histories of admissions\<close>

inductive admission_step :: "store \<Rightarrow> store \<Rightarrow> bool" where
  requested: "admission_step s (snd (RequestJoin rid rnd token name address s))"
| decided: "admission_step s (snd (DecideJoin rid i action s))"
| decided_role: "admission_step s (snd (DecideJoinRole rid i action role s))"
| clock: "admission_step s (s\<lparr>st_io := io, st_now := now\<rparr>)"

lemma admission_transact:
  assumes "admission_good body" "wf_joins (st_db s)"
  shows "wf_joins (st_db (snd (transact body s))) \<and> joins_kept (st_db s) (st_db (snd (transact body s)))"
  using transact_effect [of body s "fst (transact body s)" "snd (transact body s)"] assms
  unfolding admission_good_def by fastforce

lemma admission_validated:
  assumes "wf_joins (st_db s)"
    and "wf_joins (st_db (snd (oper s))) \<and> joins_kept (st_db s) (st_db (snd (oper s)))"
  shows "wf_joins (st_db (snd (validated v oper s))) \<and> joins_kept (st_db s) (st_db (snd (validated v oper s)))"
  using assms by (cases v) (auto simp: validated_def)

lemma decideJoin_good:
  "wf_joins (st_db s) \<Longrightarrow> wf_joins (st_db (snd (decideJoin rid i action role s)))
     \<and> joins_kept (st_db s) (st_db (snd (decideJoin rid i action role s)))"
  by (simp add: decideJoin_def admission_transact decide_join_good)

lemma admission_step_good:
  assumes "admission_step s s'" "wf_joins (st_db s)"
  shows "wf_joins (st_db s') \<and> joins_kept (st_db s) (st_db s')"
  using assms
proof cases
  case (requested rid rnd token name address)
  then show ?thesis
    using assms(2) by (cases "tokenHash token")
      (simp_all add: RequestJoin_def admission_validated admission_transact request_join_good)
next
  case (decided rid i action)
  then show ?thesis using assms(2) by (simp add: DecideJoin_def decideJoin_good)
next
  case (decided_role rid i action role)
  then show ?thesis
    using assms(2) by (cases "role = []"; cases "action = ''approve''")
      (simp_all add: DecideJoinRole_def DecideJoin_def decideJoin_good admission_validated admission_transact change_role_good)
qed (use assms in simp_all)

lemma admission_history:
  assumes "admission_step\<^sup>*\<^sup>* s s'" "wf_joins (st_db s)"
  shows "wf_joins (st_db s') \<and> joins_kept (st_db s) (st_db s')"
  using assms(1)
proof (induction rule: rtranclp_induct)
  case base
  with assms(2) show ?case by simp
next
  case (step t u)
  with admission_step_good [OF step.hyps(2)] show ?case by (blast intro: joins_kept_trans)
qed

text \<open>Authenticating a token: only its own request counts, and only while it is approved.\<close>

lemma find_token_unique:
  assumes "wf_joins d" "j \<in> set (join_requests d)" "j_room j = rid" "j_token_hash j = h"
    and "k \<in> set (join_requests d)" "j_room k = rid" "j_token_hash k = h"
  shows "k = j"
  using wf_joinsD(2) [OF assms(1)] assms(2-) by (auto simp: distinct_map dest: inj_onD)

lemma AuthenticateJoin_Inr:
  assumes "AuthenticateJoin rid token s = (Inr m, s')"
  obtains h j r where "tokenHash token = Some h" "j \<in> set (join_requests (st_db s))" "j_room j = rid" "j_token_hash j = h"
    "j_state j = ''approved''" "find_member rid (j_uid j) (st_db s) = Some r" "m = \<lparr>mb_uid = m_uid r, mb_name = m_username r\<rparr>"
proof -
  let ?P = "\<lambda>h j. j_token_hash j = h \<and> j_state j = ''approved'' \<and> find_member rid (j_uid j) (st_db s) \<noteq> None"
  from assms obtain h where h: "tokenHash token = Some h"
    by (cases "tokenHash token") (auto simp: AuthenticateJoin_def validated_def)
  with assms obtain j r where *: "find (?P h) (room_joins rid (st_db s)) = Some j" "find_member rid (j_uid j) (st_db s) = Some r"
    "m = \<lparr>mb_uid = m_uid r, mb_name = m_username r\<rparr>"
    by (auto simp: AuthenticateJoin_def tx_Inr dest!: transact_Inr split: option.splits)
  from find_SomeD [OF *(1)] h *(2,3) show thesis
    by (intro that [of h j r]) (auto simp: room_joins_def)
qed

text \<open>
  C17. Whatever requests and decisions follow, and whatever storage did to them, a token whose
  request was revoked never authenticates again: its row is not dropped to make room, it is not
  requested anew, and no later decision revives it.
\<close>

theorem revoked_token_stays_out:
  assumes "admission_step\<^sup>*\<^sup>* s s'" "wf_joins (st_db s)"
    and "j \<in> set (join_requests (st_db s))" "j_state j = ''revoked''" "tokenHash token = Some (j_token_hash j)"
  shows "\<exists>e. fst (AuthenticateJoin (j_room j) token s') = Inl e"
proof (rule ccontr)
  have wf: "wf_joins (st_db s')" and kept: "joins_kept (st_db s) (st_db s')"
    using admission_history [OF assms(1,2)] by simp_all
  have "j_uid j \<noteq> 0" using wf_joinsD(3) [OF assms(2,3)] assms(4) by blast
  with kept assms(3,4) obtain k where k: "k \<in> set (join_requests (st_db s'))" "j_room k = j_room j"
      "j_token_hash k = j_token_hash j" "j_state k = ''revoked''"
    unfolding joins_kept_def by metis
  assume "\<nexists>e. fst (AuthenticateJoin (j_room j) token s') = Inl e"
  then obtain m t where "AuthenticateJoin (j_room j) token s' = (Inr m, t)"
    by (metis prod.collapse sum.exhaust)
  then obtain l where l: "l \<in> set (join_requests (st_db s'))" "j_room l = j_room j" "j_token_hash l = j_token_hash j" "j_state l = ''approved''"
    using assms(5) by (auto elim: AuthenticateJoin_Inr)
  from find_token_unique [OF wf k(1-3) l(1-3)] k(4) l(4) show False by simp
qed

text \<open>
  However many requests arrive, no room ever holds more than 128 pending or 4096 recorded
  requests, and two requests of a room never share an identity.
\<close>

theorem admissions_bounded:
  assumes "admission_step\<^sup>*\<^sup>* s s'" "wf_joins (st_db s)"
  shows "length (pending_joins rid (st_db s')) \<le> 128 \<and> length (room_joins rid (st_db s')) \<le> 4096
    \<and> distinct (map j_uid (filter (\<lambda>j. j_uid j \<noteq> 0) (room_joins rid (st_db s'))))"
proof -
  have wf: "wf_joins (st_db s')" using admission_history [OF assms] by simp
  have "j = k" if "j \<in> set (join_requests (st_db s'))" "k \<in> set (join_requests (st_db s'))"
    "j_uid j \<noteq> 0" "j_uid k = j_uid j" "j_room k = j_room j" for j k
    using wf_joinsD(5) [OF wf that] wf_joinsD(1) [OF wf] that(1,2) by (auto simp: distinct_map dest: inj_onD)
  then have "inj_on j_uid (set (filter (\<lambda>j. j_uid j \<noteq> 0) (room_joins rid (st_db s'))))"
    by (intro inj_onI) (auto simp: room_joins_def)
  moreover have "distinct (filter (\<lambda>j. j_uid j \<noteq> 0) (room_joins rid (st_db s')))"
    using wf_joinsD(1) [OF wf] by (simp add: distinct_map room_joins_def)
  ultimately show ?thesis using wf_joinsD(6,7) [OF wf] by (simp add: distinct_map)
qed

text \<open>
  C18. The host's approval of a request, when it returns, found that request pending and less than
  a day old; the guest gets an identity of at least a billion that no member had, and the guest's
  own token then authenticates as exactly that new member, with the role the host chose.
\<close>

theorem approval_admits_guest:
  assumes "DecideJoinRole rid i ''approve'' role s = (Inr r, s')" "wf_joins (st_db s)" "find_join rid i (st_db s) = Some j"
    and "tokenHash token = Some (j_token_hash j)" "st_io s' = []"
  shows "j_state j = ''pending'' \<and> unix_time (st_now s) - 86400 \<le> j_created j
    \<and> 1000000000 \<le> jr_uid r \<and> find_member rid (jr_uid r) (st_db s) = None
    \<and> AuthenticateJoin rid token s' = (Inr \<lparr>mb_uid = jr_uid r, mb_name = j_name j\<rparr>, s')
    \<and> MemberRole rid (jr_uid r) s' = (Inr (if role = [] then ''roommate'' else role), s')"
proof -
  let ?role = "if role = [] then ''roommate'' else role"
  let ?u = "next_uid rid (st_db s)" and ?P = "\<lambda>j. j_room j = rid \<and> j_id j = i"
  from assms(1) have "decideJoin rid i ''approve'' ?role s = (Inr r, s')"
    by (auto simp: DecideJoinRole_def DecideJoin_def validated_def split: if_splits option.splits)
  then have "decide_join_body rid i ''approve'' ?role (st_now s) (st_db s) = Inr (r, st_db s')"
    by (simp add: decideJoin_def transact_Inr)
  with assms(3) obtain d1 where a: "approve_join rid (scanJoin (st_db s) j) ?role (st_now s) (st_db s) = Inr (r, d1)"
    and upd: "st_db s' = d1\<lparr>join_requests := update_where ?P (\<lambda>j. j\<lparr>j_state := jr_state r, j_uid := jr_uid r\<rparr>) (join_requests d1)\<rparr>"
    by (auto simp: decide_join_body_def tx_Inr)
  note eff = approve_join_Inr [OF a]
  note u = find_join_unique [OF assms(2,3)]
  have r: "jr_uid r = ?u" "jr_state r = ''approved''" using eff by simp_all
  let ?j = "j\<lparr>j_state := ''approved'', j_uid := ?u\<rparr>"
  let ?Q = "\<lambda>k. j_token_hash k = j_token_hash j \<and> j_state k = ''approved'' \<and> find_member rid (j_uid k) (st_db s') \<noteq> None"
  have new: "find_member rid ?u (st_db s') = Some \<lparr>m_room = rid, m_uid = ?u, m_username = j_name j\<rparr>"
    using next_uid_fresh [of rid "st_db s"] eff upd
    by (simp add: find_member_def find_append scanJoin_def)
  have wf': "wf_joins (st_db s')"
    using admission_step_good [OF admission_step.decided_role [of s rid i "''approve''" role] assms(2)] assms(1) by simp
  have j': "?j \<in> set (join_requests (st_db s'))"
    using u(1-3) eff upd r by (force simp: update_where_def)
  have "find ?Q (room_joins rid (st_db s')) = Some ?j"
  proof -
    have "?j \<in> set (room_joins rid (st_db s'))" "?Q ?j" using j' u(2) new by (simp_all add: room_joins_def)
    then have "find ?Q (room_joins rid (st_db s')) \<noteq> None" unfolding find_None_iff by blast
    then obtain k where k: "find ?Q (room_joins rid (st_db s')) = Some k" by blast
    then have "k = ?j"
      using find_token_unique [OF wf' j', of rid "j_token_hash j" k] u(2) by (auto simp: room_joins_def dest: find_SomeD)
    with k show ?thesis by simp
  qed
  with new assms(4,5) have auth: "AuthenticateJoin rid token s' = (Inr \<lparr>mb_uid = ?u, mb_name = j_name j\<rparr>, s')"
    by (simp add: AuthenticateJoin_def transact_def tx_eval Let_def)
  have "find (\<lambda>(a, v, _). a = rid \<and> v = ?u) (member_roles (st_db s)) = None"
    using eff unfolding find_None_iff by (auto simp: case_prod_unfold)
  then have "member_role rid ?u (st_db s') = ?role"
    using eff upd by (simp add: member_role_def find_append)
  then have "MemberRole rid ?u s' = (Inr ?role, s')"
    using new assms(5) by (simp add: MemberRole_def role_of_def transact_def tx_eval Let_def)
  with auth r eff next_uid_fresh [of rid "st_db s"] show ?thesis
    by (simp add: scanJoin_def day_def first_virtual_uid_def)
qed


subsection \<open>A concrete room for the witnesses\<close>

definition demo_token :: string where
  "demo_token = replicate 64 CHR ''0''"

definition demo_hash :: string where
  "demo_hash = hex_encode (sha256 (replicate 32 (CHR 0x00)))"

definition admission_demo :: "string \<Rightarrow> uid \<Rightarrow> store" where
  "admission_demo state u =
     \<lparr>st_db = empty_db
       \<lparr>rooms := [\<lparr>r_id = ''r'', r_display_name = ''d'', r_host_id = ''h'', r_project_path = ''p'', r_execution_owner_uid = 1,
                   r_codex_thread_id = None, r_status = RoomReady, r_next_seq = 1\<rparr>],
        members := [\<lparr>m_room = ''r'', m_uid = 1, m_username = ''ann''\<rparr>, \<lparr>m_room = ''r'', m_uid = 1000000000, m_username = ''bob''\<rparr>],
        join_requests := [\<lparr>j_id = ''q'', j_room = ''r'', j_token_hash = demo_hash, j_name = ''eve'', j_state = state,
                           j_address = ''a'', j_uid = u, j_created = 0\<rparr>]\<rparr>,
      st_io = [], st_now = 62135596800000000000\<rparr>"

lemma demo_tokenHash: "tokenHash demo_token = Some demo_hash"
proof -
  have "hex_decode demo_token = Some (replicate 32 (CHR 0x00))" by code_simp
  then show ?thesis by (simp add: tokenHash_def demo_hash_def)
qed

lemma admission_demo_wf:
  "wf_joins (st_db (admission_demo ''pending'' 0))" "wf_joins (st_db (admission_demo ''revoked'' 1000000000))"
  by (auto simp: wf_joins_def admission_demo_def room_joins_def pending_joins_def find_member_def empty_db_def)

theorem revoked_token_stays_out_witness:
  "\<exists>e. fst (AuthenticateJoin ''r'' demo_token
      (snd (RequestJoin ''r'' (replicate 12 CHR ''x'') demo_token ''eve'' ''b'' (admission_demo ''revoked'' 1000000000)))) = Inl e"
  using revoked_token_stays_out [OF r_into_rtranclp [of admission_step, OF admission_step.requested] admission_demo_wf(2),
      of "hd (join_requests (st_db (admission_demo ''revoked'' 1000000000)))" demo_token] demo_tokenHash
  by (simp add: admission_demo_def)

theorem admissions_bounded_witness:
  "length (pending_joins ''r'' (st_db (snd (DecideJoin ''r'' ''q'' ''deny'' (admission_demo ''pending'' 0))))) \<le> 128"
  using admissions_bounded [OF r_into_rtranclp [of admission_step, OF admission_step.decided] admission_demo_wf(1)] by blast

lemma demo_approval:
  "DecideJoinRole ''r'' ''q'' ''approve'' ''visitor'' (admission_demo ''pending'' 0) = (Inr r, s') \<Longrightarrow> st_io s' = []"
  "\<exists>r s'. DecideJoinRole ''r'' ''q'' ''approve'' ''visitor'' (admission_demo ''pending'' 0) = (Inr r, s') \<and> jr_uid r = 1000000001"
  by (auto simp: DecideJoinRole_def validated_def ValidRole_def decideJoin_def transact_def Let_def decide_join_body_def
      approve_join_def insert_member_def insert_role_def tx_eval admission_demo_def empty_db_def find_join_def room_joins_def
      scanJoin_def unix_time_def day_def next_uid_def first_virtual_uid_def find_member_def find_room_def)

theorem approval_admits_guest_witness:
  "\<exists>s'. AuthenticateJoin ''r'' demo_token s' = (Inr \<lparr>mb_uid = 1000000001, mb_name = ''eve''\<rparr>, s')"
proof -
  obtain r s' where run: "DecideJoinRole ''r'' ''q'' ''approve'' ''visitor'' (admission_demo ''pending'' 0) = (Inr r, s')"
    "jr_uid r = 1000000001" using demo_approval(2) by blast
  have "find_join ''r'' ''q'' (st_db (admission_demo ''pending'' 0)) = Some (hd (join_requests (st_db (admission_demo ''pending'' 0))))"
    by (simp add: find_join_def room_joins_def admission_demo_def)
  from approval_admits_guest [OF run(1) admission_demo_wf(1) this _ demo_approval(1) [OF run(1)], of demo_token]
  show ?thesis using demo_tokenHash run(2) by (auto simp: admission_demo_def)
qed

end
