(* ===== verification/Json_Roundtrip.thy ===== *)
theory Json_Roundtrip
  imports Json
begin

text \<open>
  Printing and reading JSON are inverse: what \<^verbatim>\<open>json.Marshal\<close> writes for a tree of valid UTF-8
  strings and well-formed numbers is read back as that tree, wherever in a larger document it
  stands, and compacting it as a raw message changes nothing.
\<close>

subsection \<open>Characters\<close>

lemma hex_value_digit: "n < 16 \<Longrightarrow> hex_value (hex_digit n) = Some n"
proof -
  have "list_all (\<lambda>n. hex_value (hex_digit n) = Some n) [0..<16]" by code_simp
  then show "n < 16 \<Longrightarrow> ?thesis" by (simp add: list_all_iff)
qed

definition escape_class :: "char \<Rightarrow> bool" where
  "escape_class c =
     (case escape_byte c of
        [x] \<Rightarrow> x = c \<and> c \<noteq> CHR 0x22 \<and> c \<noteq> CHR 0x5C \<and> c \<noteq> CHR ''<'' \<and> c \<noteq> CHR ''>'' \<and> c \<noteq> CHR ''&'' \<and> 0x20 \<le> byte_val c
      | [b, x] \<Rightarrow> b = CHR 0x5C \<and> x \<noteq> CHR ''u'' \<and> x \<noteq> CHR ''<'' \<and> x \<noteq> CHR ''>'' \<and> x \<noteq> CHR ''&'' \<and> byte_val x < 0x80
                  \<and> simple_escape x = Some c
      | [b, u, h, i, j, k] \<Rightarrow> b = CHR 0x5C \<and> u = CHR ''u'' \<and> h = CHR ''0'' \<and> i = CHR ''0''
                  \<and> j \<in> set ''0123456789abcdef'' \<and> k \<in> set ''0123456789abcdef'' \<and> hex4 [h, i, j, k] = Some (byte_val c)
      | _ \<Rightarrow> False)"

lemma hex_digit_in: "n < 16 \<Longrightarrow> hex_digit n \<in> set ''0123456789abcdef''"
  unfolding hex_digit_def by (intro nth_mem) simp

lemma escape_class_ascii:
  assumes "byte_val c < 0x80"
  shows "escape_class c"
proof -
  have "hex4 [CHR ''0'', CHR ''0'', hex_digit (byte_val c div 16), hex_digit (byte_val c mod 16)] = Some (byte_val c)"
    using assms hex_value_digit [of "byte_val c div 16"] hex_value_digit [of "byte_val c mod 16"]
    by (simp add: hex4_def) (simp add: hex_value_def)
  moreover have "hex_digit (byte_val c div 16) \<in> set ''0123456789abcdef''" "hex_digit (byte_val c mod 16) \<in> set ''0123456789abcdef''"
    using assms by (intro hex_digit_in; simp)+
  ultimately show ?thesis
    unfolding escape_class_def escape_byte_def by (simp add: simple_escape_def not_less)
qed

lemma escape_byte_cases:
  assumes "byte_val c < 0x80"
  obtains "escape_byte c = [c]" "c \<noteq> CHR 0x22" "c \<noteq> CHR 0x5C" "c \<noteq> CHR ''<''" "c \<noteq> CHR ''>''" "c \<noteq> CHR ''&''" "0x20 \<le> byte_val c"
  | x where "escape_byte c = [CHR 0x5C, x]" "x \<noteq> CHR ''u''" "x \<noteq> CHR ''<''" "x \<noteq> CHR ''>''" "x \<noteq> CHR ''&''"
      "byte_val x < 0x80" "simple_escape x = Some c"
  | j k where "escape_byte c = [CHR 0x5C, CHR ''u'', CHR ''0'', CHR ''0'', j, k]" "j \<in> set ''0123456789abcdef''"
      "k \<in> set ''0123456789abcdef''" "hex4 [CHR ''0'', CHR ''0'', j, k] = Some (byte_val c)"
  using escape_class_ascii [OF assms] unfolding escape_class_def by (auto split: list.splits)

lemma hex4_append: "hex4 [a, b, c, d] = Some n \<Longrightarrow> hex4 (a # b # c # d # s) = Some n"
  by (simp add: hex4_def)

lemma parse_escape_byte:
  assumes "byte_val c < 0x80"
  shows "parse_string (escape_byte c @ s) = map_option (\<lambda>(r, q). (c # r, q)) (parse_string s)"
  using assms
proof (cases rule: escape_byte_cases)
  case 1
  then have "rune_len (c # s) = 1" using assms by (intro rune_len_ascii) (simp add: in_range_def)
  with 1 show ?thesis by (simp add: parse_string.simps(2) not_less)
next
  case (2 x)
  then show ?thesis by (simp add: parse_string.simps(2))
next
  case (3 j k)
  have "unicode_escape (CHR ''0'' # CHR ''0'' # j # k # s) = Some ([c], 4)"
    using hex4_append [OF 3(4)] assms by (simp add: unicode_escape_def utf8_encode_def)
  with 3(1) show ?thesis by (simp add: parse_string.simps(2))
qed

subsection \<open>Runes\<close>

lemma rune_split:
  assumes "rune_len (c # s) \<noteq> 0" "\<not> byte_val c < 0x80"
  obtains t u where "s = t @ u" "rune_len (c # s) = Suc (length t)" "list_all cont_byte t"
    "c = CHR 0xE2 \<Longrightarrow> length t = 2" "\<And>x. rune_len (c # t @ x) = Suc (length t)"
proof -
  have a: "\<not> in_range 0 0x7F c" using assms(2) by (simp add: in_range_def)
  have e2: "c = CHR 0xE2 \<Longrightarrow> in_range 0xE0 0xEF c" "in_range 0xC2 0xDF c \<Longrightarrow> c \<noteq> CHR 0xE2" "in_range 0xF0 0xF4 c \<Longrightarrow> c \<noteq> CHR 0xE2"
    by (auto simp: in_range_def)
  consider "in_range 0xC2 0xDF c" | "\<not> in_range 0xC2 0xDF c" "in_range 0xE0 0xEF c"
    | "\<not> in_range 0xC2 0xDF c" "\<not> in_range 0xE0 0xEF c" "in_range 0xF0 0xF4 c"
    using assms(1) a by (auto simp: rune_len_def split: if_splits)
  then show thesis
  proof cases
    case 1
    with assms(1) a obtain b u where "s = [b] @ u" "cont_byte b"
      by (auto simp: rune_len_def split: list.splits if_splits)
    with 1 a e2(2) show thesis by (intro that [of "[b]" u]) (auto simp: rune_len_def)
  next
    case 2
    with assms(1) a obtain b d u where s: "s = [b, d] @ u"
      and ok: "if byte_val c = 0xE0 then in_range 0xA0 0xBF b else if byte_val c = 0xED then in_range 0x80 0x9F b else cont_byte b" "cont_byte d"
      by (auto simp: rune_len_def split: list.splits if_splits)
    from ok have "cont_byte b" by (auto simp: in_range_def split: if_splits)
    with 2 a s ok show thesis by (intro that [of "[b, d]" u]) (auto simp: rune_len_def)
  next
    case 3
    with assms(1) a obtain b d e u where s: "s = [b, d, e] @ u"
      and ok: "if byte_val c = 0xF0 then in_range 0x90 0xBF b else if byte_val c = 0xF4 then in_range 0x80 0x8F b else cont_byte b"
        "cont_byte d" "cont_byte e"
      by (auto simp: rune_len_def split: list.splits if_splits)
    from ok have "cont_byte b" by (auto simp: in_range_def split: if_splits)
    with 3 a s ok e2(3) show thesis by (intro that [of "[b, d, e]" u]) (auto simp: rune_len_def)
  qed
qed

lemma utf8_valid_drop: "utf8_valid (c # s) \<Longrightarrow> rune_len (c # s) \<noteq> 0 \<and> utf8_valid (drop (rune_len (c # s)) (c # s))"
  by (subst (asm) utf8_valid.simps) (auto split: if_splits)

lemma ls_ps_rune: "ls_ps (c # s) \<Longrightarrow> rune_len (c # s) = 3 \<and> \<not> byte_val c < 0x80"
  by (auto simp: ls_ps_def rune_len_def prefix_def in_range_def)

subsection \<open>Strings\<close>

lemma ls_ps_bytes:
  "char_of (226 :: nat) = CHR 0xE2" "char_of (128 :: nat) = CHR 0x80" "char_of (168 :: nat) = CHR 0xA8" "char_of (169 :: nat) = CHR 0xA9"
  by code_simp+

lemma parse_json_escape: "utf8_valid s \<Longrightarrow> parse_string (json_escape s @ CHR 0x22 # q) = Some (s, q)"
proof (induction "length s" arbitrary: s rule: less_induct)
  case less
  show ?case
  proof (cases s)
    case Nil
    then show ?thesis by (simp add: parse_string.simps)
  next
    case (Cons c t)
    note valid = utf8_valid_drop [OF less.prems [unfolded Cons]]
    show ?thesis
    proof (cases "byte_val c < 0x80")
      case True
      then have "rune_len (c # t) = 1" by (intro rune_len_ascii) (simp add: in_range_def)
      with valid have "utf8_valid t" by simp
      with less.hyps [of t] Cons have "parse_string (json_escape t @ CHR 0x22 # q) = Some (t, q)" by simp
      with True Cons show ?thesis by (simp add: json_escape.simps(2) parse_escape_byte)
    next
      case False
      obtain u v where uv: "t = u @ v" "rune_len (c # t) = Suc (length u)" "\<And>x. rune_len (c # u @ x) = Suc (length u)"
        using rune_split [OF _ False] valid by metis
      with valid have "utf8_valid v" by simp
      with less.hyps [of v] Cons uv(1) have IH: "parse_string (json_escape v @ CHR 0x22 # q) = Some (v, q)" by simp
      show ?thesis
      proof (cases "ls_ps (c # t)")
        case True
        with ls_ps_rune [OF True] uv have "drop 2 t = v" by simp
        moreover have "parse_string (ls_ps_escape (c # t) @ x) = map_option (\<lambda>(r, p). (c # u @ r, p)) (parse_string x)" for x
          using True ls_ps_rune [OF True] uv
          by (auto simp: ls_ps_def ls_ps_escape_def prefix_def parse_string.simps(2) unicode_escape_def hex4_def hex_value_def
              utf8_encode_def length_Suc_conv append_eq_Cons_conv Cons_eq_append_conv ls_ps_bytes)
        ultimately show ?thesis using Cons False True uv valid IH by (simp add: json_escape.simps(2))
      next
        case no: False
        have "CHR 0x22 \<noteq> c" "CHR 0x5C \<noteq> c" "\<not> byte_val c < 0x20" using False by auto
        then show ?thesis using Cons False no uv valid IH by (auto simp: json_escape.simps(2) parse_string.simps(2))
      qed
    qed
  qed
qed

text \<open>Inside a string the compaction of a raw message copies what was escaped.\<close>

lemma compact_plain:
  assumes "c \<notin> {CHR ''<'', CHR ''>'', CHR ''&'', CHR 0x22, CHR 0x5C}" "c \<noteq> CHR 0xE2"
  shows "json_compact_at True True False (c # s) = c # json_compact_at True True False s"
  using assms by (simp add: ls_ps_def)

lemma compact_cont: "list_all cont_byte t \<Longrightarrow> json_compact_at True True False (t @ s) = t @ json_compact_at True True False s"
proof (induction t)
  case (Cons c t)
  then have "c \<notin> {CHR ''<'', CHR ''>'', CHR ''&'', CHR 0x22, CHR 0x5C}" "c \<noteq> CHR 0xE2" by (auto simp: in_range_def)
  from compact_plain [OF this] Cons show ?case by simp
qed simp

lemma compact_escape_byte:
  assumes "byte_val c < 0x80"
  shows "json_compact_at True True False (escape_byte c @ s) = escape_byte c @ json_compact_at True True False s"
  using assms
proof (cases rule: escape_byte_cases)
  case 1
  moreover have "c \<noteq> CHR 0xE2" using assms by auto
  ultimately show ?thesis by (simp add: ls_ps_def)
next
  case (2 x)
  moreover have "x \<noteq> CHR 0xE2" using 2 by auto
  ultimately show ?thesis by (simp add: ls_ps_def)
next
  case (3 j k)
  have x: "x \<notin> {CHR ''<'', CHR ''>'', CHR ''&'', CHR 0x22, CHR 0x5C} \<and> x \<noteq> CHR 0xE2" if "x \<in> set ''0123456789abcdef''" for x
    using that by auto
  have "json_compact_at True True False (CHR 0x5C # CHR ''u'' # r) = CHR 0x5C # CHR ''u'' # json_compact_at True True False r" for r
    by (simp add: ls_ps_def)
  then show ?thesis
    using 3(1) x [OF 3(2)] x [OF 3(3)] by (simp add: compact_plain del: json_compact_at.simps)
qed

lemma compact_json_escape:
  "utf8_valid s \<Longrightarrow> json_compact_at True True False (json_escape s @ CHR 0x22 # q)
     = json_escape s @ CHR 0x22 # json_compact_at True False False q"
proof (induction "length s" arbitrary: s rule: less_induct)
  case less
  show ?case
  proof (cases s)
    case Nil
    then show ?thesis by (simp add: ls_ps_def)
  next
    case (Cons c t)
    note valid = utf8_valid_drop [OF less.prems [unfolded Cons]]
    show ?thesis
    proof (cases "byte_val c < 0x80")
      case True
      then have "rune_len (c # t) = 1" by (intro rune_len_ascii) (simp add: in_range_def)
      with valid have "utf8_valid t" by simp
      with less.hyps [of t] Cons True show ?thesis by (simp add: json_escape.simps(2) compact_escape_byte)
    next
      case False
      obtain u v where uv: "t = u @ v" "rune_len (c # t) = Suc (length u)" "list_all cont_byte u" "c = CHR 0xE2 \<longrightarrow> length u = 2"
        using rune_split [OF _ False] valid by metis
      with valid have "utf8_valid v" by simp
      with less.hyps [of v] Cons uv(1) have IH: "json_compact_at True True False (json_escape v @ CHR 0x22 # q)
          = json_escape v @ CHR 0x22 # json_compact_at True False False q" by simp
      show ?thesis
      proof (cases "ls_ps (c # t)")
        case True
        with ls_ps_rune [OF True] uv have "drop 2 t = v" by simp
        moreover have "json_compact_at True True False (ls_ps_escape (c # t) @ x) = ls_ps_escape (c # t) @ json_compact_at True True False x" for x
          by (simp add: ls_ps_escape_def ls_ps_def)
        ultimately show ?thesis using Cons False True uv valid IH by (simp add: json_escape.simps(2))
      next
        case no: False
        have "\<not> ls_ps (c # u @ x)" for x
          using no uv by (auto simp: ls_ps_def prefix_def length_Suc_conv numeral_2_eq_2)
        moreover have "CHR 0x22 \<noteq> c" "CHR 0x5C \<noteq> c" "c \<notin> {CHR ''<'', CHR ''>'', CHR ''&''}" using False by auto
        ultimately show ?thesis using Cons False no uv valid IH by (auto simp: json_escape.simps(2) compact_cont)
      qed
    qed
  qed
qed


subsection \<open>Numbers\<close>

definition number_char :: "char \<Rightarrow> bool" where
  "number_char c \<longleftrightarrow> is_digit c \<or> c \<in> set ''-+.eE''"

text \<open>What may follow a value in a document.\<close>

definition delimited :: "bytes \<Rightarrow> bool" where
  "delimited q \<longleftrightarrow> q = [] \<or> hd q \<in> set ''],}''"

lemma delimited_no_number: "delimited q \<Longrightarrow> q \<noteq> [] \<Longrightarrow> \<not> number_char (hd q)"
  by (auto simp: delimited_def number_char_def is_digit_def in_range_def)

lemma takeWhile_delimited:
  assumes "delimited q"
  shows "takeWhile is_digit (s @ q) = takeWhile is_digit s" "dropWhile is_digit (s @ q) = dropWhile is_digit s @ q"
proof -
  have "\<not> is_digit (hd q)" if "q \<noteq> []"
    using delimited_no_number [OF assms that] by (simp add: number_char_def)
  then have "takeWhile is_digit q = []" "dropWhile is_digit q = q" by (cases q; simp)+
  then show "takeWhile is_digit (s @ q) = takeWhile is_digit s" "dropWhile is_digit (s @ q) = dropWhile is_digit s @ q"
    by (induction s) auto
qed

lemma digits1_delimited: "delimited q \<Longrightarrow> digits1 s = Some (d, r) \<Longrightarrow> digits1 (s @ q) = Some (d, r @ q)"
  by (auto simp: digits1_def Let_def takeWhile_delimited split: if_splits)

lemma delimited_hd: "delimited q \<Longrightarrow> q = c # t \<Longrightarrow> c \<notin> {CHR ''.'', CHR ''e'', CHR ''E'', CHR ''+'', CHR ''-''}"
  by (auto simp: delimited_def)

lemma parse_number_parts_delimited:
  assumes "delimited q"
  shows "parse_int_part s = Some (d, r) \<Longrightarrow> parse_int_part (s @ q) = Some (d, r @ q)"
    and "parse_frac s = Some (d, r) \<Longrightarrow> parse_frac (s @ q) = Some (d, r @ q)"
    and "parse_exp s = Some (d, r) \<Longrightarrow> parse_exp (s @ q) = Some (d, r @ q)"
proof -
  show "parse_int_part s = Some (d, r) \<Longrightarrow> parse_int_part (s @ q) = Some (d, r @ q)"
    using digits1_delimited [OF assms, of s] by (cases s) (auto simp: parse_int_part_def split: if_splits)
  show "parse_frac s = Some (d, r) \<Longrightarrow> parse_frac (s @ q) = Some (d, r @ q)"
    using digits1_delimited [OF assms, of "tl s"] delimited_hd [OF assms]
    by (cases s; cases q) (auto simp: parse_frac_def split: if_splits)
  show "parse_exp s = Some (d, r) \<Longrightarrow> parse_exp (s @ q) = Some (d, r @ q)"
    using digits1_delimited [OF assms, of "tl s"] digits1_delimited [OF assms, of "tl (tl s)"] delimited_hd [OF assms]
    by (cases s; cases "tl s"; cases q) (auto simp: parse_exp_def split: if_splits)
qed

lemma parse_number_delimited:
  assumes "delimited q" "parse_number s = Some (x, r)"
  shows "parse_number (s @ q) = Some (x, r @ q)"
proof -
  have "s \<noteq> []" using assms(2) by (auto simp: parse_number_def parse_int_part_def)
  then obtain c t where s: "s = c # t" by (cases s) auto
  obtain sg s0 where sg: "(if c = CHR ''-'' then ([c], t) else ([], s)) = (sg, s0)" by fastforce
  then have sg': "(if c = CHR ''-'' then ([c], t @ q) else ([], s @ q)) = (sg, s0 @ q)" by (auto split: if_splits)
  from assms(2) s sg obtain i s1 f s2 e s3 where "parse_int_part s0 = Some (i, s1)" "parse_frac s1 = Some (f, s2)"
      "parse_exp s2 = Some (e, s3)" "x = sg @ i @ f @ e" "r = s3"
    by (auto simp: parse_number_def split: option.splits)
  note p = this
  have "parse_number (s @ q) = (case (sg, s0 @ q) of (sg, s0) \<Rightarrow>
      (case parse_int_part s0 of None \<Rightarrow> None | Some (i, s1) \<Rightarrow>
        (case parse_frac s1 of None \<Rightarrow> None | Some (f, s2) \<Rightarrow>
          (case parse_exp s2 of None \<Rightarrow> None | Some (e, s3) \<Rightarrow> Some (sg @ i @ f @ e, s3)))))"
    unfolding parse_number_def using s sg' by simp
  then show ?thesis
    using p(4,5) parse_number_parts_delimited(1) [OF assms(1) p(1)] parse_number_parts_delimited(2) [OF assms(1) p(2)]
      parse_number_parts_delimited(3) [OF assms(1) p(3)] by simp
qed

lemma digits1_chars: "digits1 s = Some (d, r) \<Longrightarrow> list_all number_char d"
  by (auto simp: digits1_def Let_def list_all_iff number_char_def dest: set_takeWhileD split: if_splits)

lemma parse_number_chars:
  assumes "parse_number s = Some (x, r)"
  shows "list_all number_char x" "\<exists>c t. x = c # t \<and> (is_digit c \<or> c = CHR ''-'')"
proof -
  have i: "list_all number_char d \<and> (\<exists>c t. d = c # t \<and> is_digit c)" if "parse_int_part u = Some (d, v)" for u d v
  proof (cases u)
    case (Cons c t)
    show ?thesis
    proof (cases "c = CHR ''0''")
      case True
      with that Cons have "d = ''0''" by (simp add: parse_int_part_def)
      then show ?thesis by (simp add: number_char_def is_digit_def in_range_def)
    next
      case False
      with that Cons have "is_digit c" "digits1 u = Some (d, v)" by (auto simp: parse_int_part_def split: if_splits)
      with Cons digits1_chars [of u d v] show ?thesis by (auto simp: digits1_def Let_def)
    qed
  qed (use that in \<open>simp add: parse_int_part_def\<close>)
  have f: "list_all number_char d" if "parse_frac u = Some (d, v)" for u d v
    using that by (auto simp: parse_frac_def number_char_def split: list.splits if_splits dest: digits1_chars)
  have e: "list_all number_char d" if "parse_exp u = Some (d, v)" for u d v
    using that by (auto simp: parse_exp_def number_char_def split: list.splits if_splits dest: digits1_chars)
  obtain sg s0 where sg: "(case s of c # t \<Rightarrow> if c = CHR ''-'' then ([c], t) else ([], s) | [] \<Rightarrow> ([], s)) = (sg, s0)"
    by fastforce
  then have minus: "sg = [] \<or> sg = ''-''" by (auto split: list.splits if_splits)
  from assms sg obtain i' s1 f' s2 e' s3 where p: "parse_int_part s0 = Some (i', s1)" "parse_frac s1 = Some (f', s2)"
      "parse_exp s2 = Some (e', s3)" and x: "x = sg @ i' @ f' @ e'"
    by (auto simp: parse_number_def split: option.splits)
  from i [OF p(1)] obtain c t where ct: "i' = c # t" "is_digit c" by blast
  from minus x ct show "\<exists>c t. x = c # t \<and> (is_digit c \<or> c = CHR ''-'')" by auto
  from minus x i [OF p(1)] f [OF p(2)] e [OF p(3)] show "list_all number_char x"
    by (auto simp: number_char_def)
qed

subsection \<open>Trees\<close>

fun printable :: "json \<Rightarrow> bool" where
  "printable (JNum s) = (parse_number s = Some (s, []))"
| "printable (JStr s) = utf8_valid s"
| "printable (JArr vs) = list_all printable vs"
| "printable (JObj fs) = list_all (\<lambda>(k, v). utf8_valid k \<and> printable v) fs"
| "printable (JRaw s) = False"
| "printable _ = True"

fun nesting :: "json \<Rightarrow> nat" where
  "nesting (JArr vs) = Suc (fold max (map nesting vs) 0)"
| "nesting (JObj fs) = Suc (fold max (map (\<lambda>(k, v). nesting v) fs) 0)"
| "nesting _ = 0"

lemma fold_max_le: "fold max ns m \<le> d \<longleftrightarrow> m \<le> d \<and> (\<forall>n \<in> set ns. n \<le> (d :: nat))"
  by (induction ns arbitrary: m) auto

lemma marshal_head:
  assumes "printable v"
  obtains c t where "json_marshal v = c # t" "\<not> json_ws c" "c \<notin> {CHR '']'', CHR ''}'', CHR '',''}"
proof (cases v)
  case (JNum s)
  with assms parse_number_chars(2) [of s s "[]"] obtain c t where "s = c # t" "is_digit c \<or> c = CHR ''-''" by auto
  with JNum show thesis by (intro that [of c t]) (auto simp: is_digit_def in_range_def json_ws_def)
next
  case (JBool b)
  then show thesis by (cases b; intro that) (auto simp: json_ws_def)
qed (use assms that in \<open>auto simp: json_quote_def json_ws_def\<close>)

lemma skip_ws_head: "\<not> json_ws c \<Longrightarrow> skip_ws (c # t) = c # t"
  by (simp add: skip_ws_def)

text \<open>Reading back elements and members, given that their values are read back.\<close>

definition reads_back :: "json \<Rightarrow> bool" where
  "reads_back v \<longleftrightarrow>
     (\<forall>n d q. nesting v \<le> d \<longrightarrow> delimited q \<longrightarrow> 2 * length (json_marshal v @ q) + 2 \<le> n \<longrightarrow>
        parse_value n d (json_marshal v @ q) = Some (v, q))"

lemma reads_back_bool: "reads_back (JBool b)"
proof -
  have "parse_value (Suc m) d (json_marshal (JBool b) @ q) = Some (JBool b, q)" for m d q
    by (cases b) (simp_all add: parse_value.simps parse_scalar_def skip_ws_def json_ws_def)
  then show ?thesis
    unfolding reads_back_def by (metis Suc_le_D add_2_eq_Suc')
qed

lemma reads_backD:
  "reads_back v \<Longrightarrow> nesting v \<le> d \<Longrightarrow> delimited q \<Longrightarrow> 2 * length (json_marshal v @ q) + 2 \<le> n \<Longrightarrow>
     parse_value n d (json_marshal v @ q) = Some (v, q)"
  unfolding reads_back_def by blast

lemma delimited_brackets [simp]: "delimited (CHR '']'' # q)" "delimited (CHR ''}'' # q)" "delimited (CHR '','' # q)" "delimited []"
  by (simp_all add: delimited_def)

lemma skip_ws_brackets [simp]: "skip_ws (CHR '']'' # q) = CHR '']'' # q" "skip_ws (CHR ''}'' # q) = CHR ''}'' # q"
    "skip_ws (CHR '','' # q) = CHR '','' # q" "skip_ws (CHR '':'' # q) = CHR '':'' # q" "skip_ws (CHR 0x22 # q) = CHR 0x22 # q"
    "skip_ws (CHR ''{'' # q) = CHR ''{'' # q" "skip_ws (CHR ''['' # q) = CHR ''['' # q"
  by (simp_all add: skip_ws_def json_ws_def)

lemma parse_elements_marshal:
  assumes "vs \<noteq> []" "\<forall>v \<in> set vs. reads_back v \<and> nesting v \<le> d"
    and "2 * length (join_with '','' (map json_marshal vs) @ '']'' @ q) + 3 \<le> n"
  shows "parse_elements n d (join_with '','' (map json_marshal vs) @ '']'' @ q) = Some (vs, q)"
  using assms
proof (induction vs arbitrary: n)
  case (Cons v vs)
  obtain m where n: "n = Suc m" using Cons.prems(3) by (cases n) auto
  have v: "reads_back v" "nesting v \<le> d" using Cons.prems(2) by simp_all
  show ?case
  proof (cases vs)
    case Nil
    have "parse_value m d (json_marshal v @ '']'' @ q) = Some (v, '']'' @ q)"
      using Cons.prems(3) n Nil v by (intro reads_backD) auto
    with n Nil show ?thesis by (simp add: parse_elements.simps)
  next
    case (Cons w ws)
    let ?rest = "join_with '','' (map json_marshal vs) @ '']'' @ q"
    have "parse_value m d (json_marshal v @ '','' @ ?rest) = Some (v, '','' @ ?rest)"
      using Cons.prems(3) n Cons v by (intro reads_backD) auto
    moreover have "parse_elements m d ?rest = Some (vs, q)"
      using Cons.prems(2,3) n Cons by (intro Cons.IH) auto
    ultimately show ?thesis using n Cons by (simp add: parse_elements.simps)
  qed
qed simp

lemma parse_members_marshal:
  assumes "fs \<noteq> []" "\<forall>(k, v) \<in> set fs. utf8_valid k \<and> reads_back v \<and> nesting v \<le> d"
    and "2 * length (join_with '','' (map (\<lambda>(k, v). json_quote k @ '':'' @ json_marshal v) fs) @ ''}'' @ q) + 3 \<le> n"
  shows "parse_members n d (join_with '','' (map (\<lambda>(k, v). json_quote k @ '':'' @ json_marshal v) fs) @ ''}'' @ q) = Some (fs, q)"
  using assms
proof (induction fs arbitrary: n)
  case (Cons kv fs)
  obtain k v where kv: "kv = (k, v)" by (cases kv)
  obtain m where n: "n = Suc m" using Cons.prems(3) by (cases n) auto
  have v: "utf8_valid k" "reads_back v" "nesting v \<le> d" using Cons.prems(2) kv by simp_all
  show ?case
  proof (cases fs)
    case Nil
    have "parse_value m d (json_marshal v @ ''}'' @ q) = Some (v, ''}'' @ q)"
      using Cons.prems(3) n Nil kv v by (intro reads_backD) auto
    with n Nil kv v(1) show ?thesis by (simp add: parse_members.simps json_quote_def parse_json_escape)
  next
    case (Cons w ws)
    let ?rest = "join_with '','' (map (\<lambda>(k, v). json_quote k @ '':'' @ json_marshal v) fs) @ ''}'' @ q"
    have "parse_value m d (json_marshal v @ '','' @ ?rest) = Some (v, '','' @ ?rest)"
      using Cons.prems(3) n Cons kv v by (intro reads_backD) (auto simp: case_prod_unfold)
    moreover have "parse_members m d ?rest = Some (fs, q)"
      using Cons.prems(2,3) n Cons kv by (intro Cons.IH) (auto simp: case_prod_unfold)
    ultimately show ?thesis using n Cons kv v(1) by (simp add: parse_members.simps json_quote_def parse_json_escape)
  qed
qed simp

lemma join_with_head:
  assumes "x = c # t"
  shows "\<exists>u. join_with sep (x # xs) @ r = c # u"
  using assms by (cases xs) auto

lemma marshal_reads_back: "printable v \<Longrightarrow> reads_back v"
proof (induction v rule: printable.induct)
  case (1 s)
  show ?case
    unfolding reads_back_def
  proof (intro allI impI)
    fix n d q assume q: "delimited q" and n: "2 * length (json_marshal (JNum s) @ q) + 2 \<le> n"
    then obtain m where m: "n = Suc m" by (cases n) auto
    from 1 have p: "parse_number s = Some (s, [])" by simp
    from parse_number_chars(2) [OF p] obtain c t where c: "s = c # t" "is_digit c \<or> c = CHR ''-''" by blast
    then have h: "\<not> json_ws c" "c \<notin> {CHR ''{'', CHR ''['', CHR 0x22, CHR ''t'', CHR ''f'', CHR ''n''}"
      by (auto simp: is_digit_def in_range_def json_ws_def)
    from h c(1) have "parse_scalar (s @ q) = map_option (\<lambda>(x, q). (JNum x, q)) (parse_number (s @ q))"
      by (auto simp: parse_scalar_def)
    also have "\<dots> = Some (JNum s, q)" using parse_number_delimited [OF q p] by simp
    finally show "parse_value n d (json_marshal (JNum s) @ q) = Some (JNum s, q)"
      using h c(1) m skip_ws_head [OF h(1)] by (simp add: parse_value.simps)
  qed
next
  case (2 s)
  show ?case
    unfolding reads_back_def
  proof (intro allI impI)
    fix n d q assume n: "2 * length (json_marshal (JStr s) @ q) + 2 \<le> n"
    then obtain m where m: "n = Suc m" by (cases n) auto
    from 2 m show "parse_value n d (json_marshal (JStr s) @ q) = Some (JStr s, q)"
      by (simp add: parse_value.simps json_quote_def parse_scalar_def parse_json_escape)
  qed
next
  case (3 vs)
  then have IH: "\<forall>v \<in> set vs. reads_back v" by (auto simp: list_all_iff)
  show ?case
    unfolding reads_back_def
  proof (intro allI impI)
    fix n d q assume nest: "nesting (JArr vs) \<le> d" and n: "2 * length (json_marshal (JArr vs) @ q) + 2 \<le> n"
    then obtain m where m: "n = Suc m" by (cases n) auto
    from nest have "d \<noteq> 0" "fold max (map nesting vs) 0 \<le> d - 1" by auto
    then have d: "d \<noteq> 0" "\<forall>v \<in> set vs. nesting v \<le> d - 1" by (simp_all add: fold_max_le)
    let ?t = "join_with '','' (map json_marshal vs) @ '']'' @ q"
    show "parse_value n d (json_marshal (JArr vs) @ q) = Some (JArr vs, q)"
    proof (cases vs)
      case Nil
      with m d show ?thesis by (simp add: parse_value.simps)
    next
      case (Cons v ws)
      from 3 Cons have "printable v" by simp
      then obtain c t where c: "json_marshal v = c # t" "\<not> json_ws c" "c \<notin> {CHR '']'', CHR ''}'', CHR '',''}" by (rule marshal_head)
      then obtain u where u: "?t = c # u" using join_with_head [of "json_marshal v" c t] Cons by fastforce
      have "parse_elements m (d - 1) ?t = Some (vs, q)"
        using n m Cons IH d by (intro parse_elements_marshal) auto
      with u c m d skip_ws_head [OF c(2), of u] show ?thesis by (simp add: parse_value.simps)
    qed
  qed
next
  case (4 fs)
  then have IH: "\<forall>(k, v) \<in> set fs. utf8_valid k \<and> reads_back v" by (auto simp: list_all_iff)
  show ?case
    unfolding reads_back_def
  proof (intro allI impI)
    fix n d q assume nest: "nesting (JObj fs) \<le> d" and n: "2 * length (json_marshal (JObj fs) @ q) + 2 \<le> n"
    then obtain m where m: "n = Suc m" by (cases n) auto
    from nest have "d \<noteq> 0" "fold max (map (\<lambda>(k, v). nesting v) fs) 0 \<le> d - 1" by auto
    then have d: "d \<noteq> 0" "\<forall>(k, v) \<in> set fs. nesting v \<le> d - 1" by (auto simp: fold_max_le)
    let ?t = "join_with '','' (map (\<lambda>(k, v). json_quote k @ '':'' @ json_marshal v) fs) @ ''}'' @ q"
    show "parse_value n d (json_marshal (JObj fs) @ q) = Some (JObj fs, q)"
    proof (cases fs)
      case Nil
      with m d show ?thesis by (simp add: parse_value.simps)
    next
      case (Cons kv ws)
      obtain k v where kv: "kv = (k, v)" by (cases kv)
      obtain u where u: "?t = CHR 0x22 # u"
        using join_with_head [of "json_quote k @ '':'' @ json_marshal v" "CHR 0x22"] Cons kv by (fastforce simp: json_quote_def)
      have "parse_members m (d - 1) ?t = Some (fs, q)"
        using n m Cons IH d by (intro parse_members_marshal) auto
      with u m d show ?thesis by (simp add: parse_value.simps)
    qed
  qed
next
  case "6_2"
  show ?case by (rule reads_back_bool)
qed (auto simp: reads_back_def parse_value.simps parse_scalar_def skip_ws_def json_ws_def dest!: Suc_le_D)

text \<open>Compaction of a printed tree changes nothing.\<close>

definition compacts :: "bytes \<Rightarrow> bool" where
  "compacts s \<longleftrightarrow> (\<forall>q. json_compact_at True False False (s @ q) = s @ json_compact_at True False False q)"

lemma compacts_append: "compacts s \<Longrightarrow> compacts t \<Longrightarrow> compacts (s @ t)"
  by (simp add: compacts_def)

lemma compacts_Nil [simp]: "compacts []"
  by (simp add: compacts_def)

lemma compacts_char: "c \<notin> {CHR ''<'', CHR ''>'', CHR ''&'', CHR 0x22, CHR 0xE2} \<Longrightarrow> \<not> json_ws c \<Longrightarrow> compacts [c]"
  by (auto simp: compacts_def ls_ps_def json_ws_def)

lemma compacts_chars: "list_all (\<lambda>c. c \<notin> {CHR ''<'', CHR ''>'', CHR ''&'', CHR 0x22, CHR 0xE2} \<and> \<not> json_ws c) s \<Longrightarrow> compacts s"
proof (induction s)
  case (Cons c s)
  with compacts_append [of "[c]" s] compacts_char [of c] show ?case by simp
qed simp

lemma compacts_quote: "utf8_valid s \<Longrightarrow> compacts (json_quote s)"
  using compact_json_escape [of s] by (simp add: compacts_def json_quote_def ls_ps_def)

lemma compacts_join: "list_all compacts xs \<Longrightarrow> compacts (join_with '','' xs)"
proof (induction "'',''" xs rule: join_with.induct)
  case (3 x y zs)
  then have "compacts (x @ '','' @ join_with '','' (y # zs))"
    by (intro compacts_append) (auto simp: compacts_char json_ws_def)
  then show ?case by simp
qed auto

lemma marshal_compacts: "printable v \<Longrightarrow> compacts (json_marshal v)"
proof (induction v rule: printable.induct)
  case (1 s)
  then have "list_all number_char s" using parse_number_chars(1) by auto
  then have "list_all (\<lambda>c. c \<notin> {CHR ''<'', CHR ''>'', CHR ''&'', CHR 0x22, CHR 0xE2} \<and> \<not> json_ws c) s"
    by (rule list.pred_mono_strong) (auto simp: number_char_def is_digit_def in_range_def json_ws_def)
  then show ?case by (simp add: compacts_chars)
next
  case (3 vs)
  then have "list_all compacts (map json_marshal vs)" by (auto simp: list_all_iff)
  then have "compacts (''['' @ join_with '','' (map json_marshal vs) @ '']'')"
    by (intro compacts_append compacts_join) (auto simp: compacts_char json_ws_def)
  then show ?case by simp
next
  case (4 fs)
  then have "compacts (json_quote k @ '':'' @ json_marshal v)" if "(k, v) \<in> set fs" for k v
    using that by (intro compacts_append) (auto simp: list_all_iff compacts_quote compacts_char json_ws_def)
  then have "list_all compacts (map (\<lambda>(k, v). json_quote k @ '':'' @ json_marshal v) fs)" by (auto simp: list_all_iff)
  then have "compacts (''{'' @ join_with '','' (map (\<lambda>(k, v). json_quote k @ '':'' @ json_marshal v) fs) @ ''}'')"
    by (intro compacts_append compacts_join) (auto simp: compacts_char json_ws_def)
  then show ?case by simp
qed (simp_all add: compacts_quote compacts_chars json_ws_def)

lemma marshal_raw: "printable v \<Longrightarrow> json_marshal (JRaw (json_marshal v)) = json_marshal v"
  using marshal_compacts [of v] by (simp add: compacts_def json_compact_html_def) (metis append_Nil2 json_compact_at.simps(1))

subsection \<open>Decimal numbers\<close>

definition digits_val :: "bytes \<Rightarrow> nat" where
  "digits_val s = foldl (\<lambda>n c. 10 * n + (byte_val c - 48)) 0 s"

lemma digits_val_snoc: "digits_val (s @ [c]) = 10 * digits_val s + (byte_val c - 48)"
  by (simp add: digits_val_def)

lemma show_nat_digits:
  "list_all is_digit (show_nat n) \<and> show_nat n \<noteq> [] \<and> digits_val (show_nat n) = n \<and> (hd (show_nat n) = CHR ''0'' \<longrightarrow> n = 0)"
proof (induction n rule: show_nat.induct)
  case (1 n)
  have d: "is_digit (char_of (48 + m))" "byte_val (char_of (48 + m) :: char) = 48 + m" if "m < 10" for m :: nat
    using that by (simp_all add: is_digit_def in_range_def)
  have z: "m = 0" if "char_of (48 + m) = CHR ''0''" "m < 10" for m :: nat
    using d(2) [OF that(2)] that(1) by simp
  show ?case
  proof (cases "n < 10")
    case True
    then show ?thesis using d [of n] z [of n] by (simp add: show_nat.simps digits_val_def)
  next
    case False
    have "hd (show_nat (n div 10) @ [char_of (48 + n mod 10)]) = hd (show_nat (n div 10))" using 1 [OF False] by simp
    with 1 [OF False] False d [of "n mod 10"] show ?thesis
      by (subst (1 2 3 4) show_nat.simps) (auto simp: digits_val_snoc)
  qed
qed

lemma parse_show_nat: "parse_number (show_nat n) = Some (show_nat n, [])"
proof -
  note d = show_nat_digits [of n]
  then obtain c t where ct: "show_nat n = c # t" "is_digit c" "list_all is_digit t" by (cases "show_nat n") auto
  then have m: "c \<noteq> CHR ''-''" by (auto simp: is_digit_def in_range_def)
  have all: "takeWhile is_digit (c # t) = c # t" "dropWhile is_digit (c # t) = []"
    using ct by (auto simp: takeWhile_eq_all_conv dropWhile_eq_Nil_conv list_all_iff)
  have "parse_int_part (c # t) = Some (c # t, [])"
  proof (cases "c = CHR ''0''")
    case True
    with d ct(1) have "n = 0" by simp
    with ct(1) have "c # t = [char_of (48 :: nat)]" by (simp add: show_nat.simps)
    then have "c # t = ''0''" using True by simp
    then show ?thesis by (simp add: parse_int_part_def)
  next
    case False
    with ct(2) all show ?thesis by (simp add: parse_int_part_def digits1_def)
  qed
  with m ct(1) show ?thesis by (simp add: parse_number_def parse_frac_def parse_exp_def)
qed

end
