(* ===== verification/Wire.thy ===== *)
theory Wire
  imports Room_Types Json_Roundtrip
begin

text \<open>
  The wire protocol of the room socket (\<^verbatim>\<open>internal/protocol\<close>): length-prefixed frames
  (\<^verbatim>\<open>framing.go\<close>), strict JSON (\<^verbatim>\<open>validation.go\<close>: no duplicate keys, no unknown or differently
  cased fields, nothing after the value) and the envelope (\<^verbatim>\<open>envelope.go\<close>). The three scanners of
  \<^verbatim>\<open>validation.go\<close> walk the same token stream and differ in what they admit and in what they do at
  a key; they are one recursion here over the bytes, with a shape. A \<^verbatim>\<open>json.Decoder\<close> decodes a
  number it hands out as a token, so a number beyond the range of \<^verbatim>\<open>float64\<close> is an error.
\<close>

datatype wire_error =
    ErrEmptyFrame
  | ErrFrameTooLarge
  | ErrInvalidUTF8
  | ErrDuplicateKey
  | ErrTrailingJSON
  | ErrUnknownField
  | ErrInvalidEnvelope
  | ErrInvalidVersion
  | ErrInvalidKind
  | ErrInvalidID
  | ErrInvalidHello
  | ErrInvalidWelcome
  | ErrHandshakeRequired
  | ErrHandshakeAlreadyComplete
  | ErrUnsupportedCapability
  | ErrUnsupportedVersion
  | ErrJson
  | ErrEOF
  | ErrUnexpectedEOF
  | ErrShortWrite
  | ErrTransport
  | ErrInput err

subsection \<open>Numbers\<close>

text \<open>Numbers that round to more than the largest \<^verbatim>\<open>float64\<close>.\<close>

definition float_limit :: nat where
  "float_limit = 2 ^ 1024 - 2 ^ 970"

definition number_overflows :: "bytes \<Rightarrow> bool" where
  "number_overflows s =
     (let s0 = (if prefix ''-'' s then tl s else s);
          i = takeWhile is_digit s0; s1 = dropWhile is_digit s0;
          f = (if prefix ''.'' s1 then takeWhile is_digit (tl s1) else []);
          s2 = (if prefix ''.'' s1 then dropWhile is_digit (tl s1) else s1);
          e = (if s2 = [] then 0
               else if prefix ''-'' (tl s2) then - int (digits_val (tl (tl s2)))
               else if prefix ''+'' (tl s2) then int (digits_val (tl (tl s2)))
               else int (digits_val (tl s2))) - int (length f);
          n = digits_val (i @ f)
      in if 0 \<le> e then float_limit \<le> n * 10 ^ nat e else float_limit * 10 ^ nat (- e) \<le> n)"

definition scalar_overflows :: "json \<Rightarrow> bool" where
  "scalar_overflows v = (case v of JNum s \<Rightarrow> number_overflows s | _ \<Rightarrow> False)"

subsection \<open>Scanning\<close>

text \<open>
  \<open>SUnique\<close> is \<^verbatim>\<open>scanJSONValue\<close>, \<open>SAny\<close> is \<^verbatim>\<open>scanUntypedJSONToken\<close> (also for strings, numbers,
  interfaces and raw messages), and the others are \<^verbatim>\<open>scanTypedJSONToken\<close> for the kinds of Go
  types it distinguishes, with the fields of a structure as \<^verbatim>\<open>jsonFields\<close> lists them.
\<close>

datatype shape = SUnique | SAny | SStruct "(string \<times> shape) list" | SList shape | SMap shape

fun admits :: "shape \<Rightarrow> char \<Rightarrow> bool" where
  "admits (SStruct fs) c = (c = CHR ''{'')"
| "admits (SMap s) c = (c = CHR ''{'')"
| "admits (SList s) c = (c = CHR ''['')"
| "admits _ c = True"

fun admits_scalar :: "shape \<Rightarrow> bool" where
  "admits_scalar SUnique = True"
| "admits_scalar SAny = True"
| "admits_scalar _ = False"

fun element_shape :: "shape \<Rightarrow> shape" where
  "element_shape (SList s) = s"
| "element_shape SUnique = SUnique"
| "element_shape _ = SAny"

definition jsonFieldAlias :: "string \<Rightarrow> (string \<times> shape) list \<Rightarrow> (string \<times> shape) option" where
  "jsonFieldAlias key fs = find (\<lambda>(name, _). fold_name key = fold_name name) fs"

text \<open>
  What a scanner does at a key: the shape of the value, the names seen so far, and the error it
  will raise at the end of the object.
\<close>

fun key_step :: "shape \<Rightarrow> string list \<Rightarrow> wire_error option \<Rightarrow> string
    \<Rightarrow> wire_error + shape \<times> string list \<times> wire_error option" where
  "key_step SUnique seen pend key =
     (if key \<in> set seen then Inl ErrDuplicateKey else Inr (SUnique, key # seen, pend))"
| "key_step (SStruct fs) seen pend key =
     (case map_of fs key of
        Some ty \<Rightarrow> if key \<in> set seen then Inl ErrDuplicateKey else Inr (ty, key # seen, pend)
      | None \<Rightarrow>
          (case jsonFieldAlias key fs of
             Some (name, ty) \<Rightarrow>
               if name \<in> set seen then Inl ErrDuplicateKey
               else Inr (ty, name # seen, if pend = None then Some ErrUnknownField else pend)
           | None \<Rightarrow> Inl ErrUnknownField))"
| "key_step (SMap ty) seen pend key = Inr (ty, seen, pend)"
| "key_step _ seen pend key = Inr (SAny, seen, pend)"

text \<open>
  \<^verbatim>\<open>Decoder.More\<close> is false at a closing bracket of either kind, and the token after it must be
  the right one; another token must be preceded by a comma unless it is the first.
\<close>

definition next_item :: "bool \<Rightarrow> char \<Rightarrow> bytes \<Rightarrow> bytes option" where
  "next_item first c t = (if first then Some (c # t) else if c = CHR '','' then Some t else None)"

fun scan_value :: "nat \<Rightarrow> shape \<Rightarrow> bytes \<Rightarrow> wire_error + bytes"
  and scan_elements :: "nat \<Rightarrow> shape \<Rightarrow> bool \<Rightarrow> bytes \<Rightarrow> wire_error + bytes"
  and scan_members :: "nat \<Rightarrow> shape \<Rightarrow> string list \<Rightarrow> wire_error option \<Rightarrow> bool \<Rightarrow> bytes \<Rightarrow> wire_error + bytes"
where
  "scan_value 0 sh s = Inl ErrJson"
| "scan_value (Suc n) sh s =
     (case skip_ws s of
        [] \<Rightarrow> Inl ErrJson
      | c # t \<Rightarrow>
          if c = CHR ''{'' then
            (if admits sh c then scan_members n sh [] None True t else Inl ErrInvalidEnvelope)
          else if c = CHR ''['' then
            (if admits sh c then scan_elements n (element_shape sh) True t else Inl ErrInvalidEnvelope)
          else (case parse_scalar (c # t) of
             None \<Rightarrow> Inl ErrJson
           | Some (v, r) \<Rightarrow>
               if scalar_overflows v then Inl ErrJson
               else if v = JNull \<or> admits_scalar sh then Inr r
               else Inl ErrInvalidEnvelope))"
| "scan_elements 0 sh first s = Inl ErrJson"
| "scan_elements (Suc n) sh first s =
     (case skip_ws s of
        [] \<Rightarrow> Inl ErrJson
      | c # t \<Rightarrow>
          if c = CHR '']'' then Inr t
          else if c = CHR ''}'' then Inl ErrJson
          else (case next_item first c t of
             None \<Rightarrow> Inl ErrJson
           | Some u \<Rightarrow>
               (case scan_value n sh u of
                  Inl e \<Rightarrow> Inl e
                | Inr r \<Rightarrow> scan_elements n sh False r)))"
| "scan_members 0 sh seen pend first s = Inl ErrJson"
| "scan_members (Suc n) sh seen pend first s =
     (case skip_ws s of
        [] \<Rightarrow> Inl ErrJson
      | c # t \<Rightarrow>
          if c = CHR ''}'' then (case pend of None \<Rightarrow> Inr t | Some e \<Rightarrow> Inl e)
          else if c = CHR '']'' then Inl ErrJson
          else (case next_item first c t of
             None \<Rightarrow> Inl ErrJson
           | Some u \<Rightarrow>
               (case skip_ws u of
                  [] \<Rightarrow> Inl ErrJson
                | q # k \<Rightarrow>
                    if q \<noteq> CHR 0x22 then Inl ErrJson
                    else (case parse_string k of
                       None \<Rightarrow> Inl ErrJson
                     | Some (key, r) \<Rightarrow>
                         (case key_step sh seen pend key of
                            Inl e \<Rightarrow> Inl e
                          | Inr (sh', seen', pend') \<Rightarrow>
                              (case skip_ws r of
                                 [] \<Rightarrow> Inl ErrJson
                               | x # w \<Rightarrow>
                                   if x \<noteq> CHR '':'' then Inl ErrJson
                                   else (case scan_value n sh' w of
                                      Inl e \<Rightarrow> Inl e
                                    | Inr y \<Rightarrow> scan_members n sh seen' pend' False y)))))))"

declare scan_value.simps [simp del] scan_elements.simps [simp del] scan_members.simps [simp del]

text \<open>Every step of the recursion uses a byte, or hands over to the next function on the same ones.\<close>

definition scan_fuel :: "bytes \<Rightarrow> nat" where
  "scan_fuel s = 2 * length s + 3"

text \<open>\<^verbatim>\<open>ensureEOF\<close>: nothing but white space is left.\<close>

definition ensureEOF :: "bytes \<Rightarrow> wire_error option" where
  "ensureEOF s =
     (if skip_ws s = [] then None
      else case scan_value (scan_fuel s) SAny s of Inr _ \<Rightarrow> Some ErrTrailingJSON | Inl _ \<Rightarrow> Some ErrJson)"

definition scanJSONValue :: "bytes \<Rightarrow> wire_error + bytes" where
  "scanJSONValue s = scan_value (scan_fuel s) SUnique s"

definition scanTypedJSONValue :: "shape \<Rightarrow> bytes \<Rightarrow> wire_error + bytes" where
  "scanTypedJSONValue sh s = scan_value (scan_fuel s) sh s"

definition validateJSON :: "bytes \<Rightarrow> wire_error option" where
  "validateJSON s =
     (if \<not> utf8_valid s then Some ErrInvalidUTF8
      else case scanJSONValue s of Inl e \<Rightarrow> Some e | Inr r \<Rightarrow> ensureEOF r)"

definition validateExactCase :: "shape \<Rightarrow> bytes \<Rightarrow> wire_error option" where
  "validateExactCase sh s = (case scanTypedJSONValue sh s of Inl e \<Rightarrow> Some e | Inr r \<Rightarrow> ensureEOF r)"

text \<open>Both are a scan of one document by a shape.\<close>

definition scan_document :: "shape \<Rightarrow> bytes \<Rightarrow> wire_error option" where
  "scan_document sh s =
     (case scan_value (scan_fuel s) sh s of Inl e \<Rightarrow> Some e | Inr r \<Rightarrow> ensureEOF r)"

lemma validate_document:
  "validateJSON s = (if \<not> utf8_valid s then Some ErrInvalidUTF8 else scan_document SUnique s)"
  "validateExactCase sh s = scan_document sh s"
  by (simp_all add: validateJSON_def validateExactCase_def scan_document_def scanJSONValue_def scanTypedJSONValue_def)

subsection \<open>Decoding into Go values\<close>

text \<open>
  \<^verbatim>\<open>Decoder.Decode\<close> of one value: \<^verbatim>\<open>null\<close> leaves a variable as it was, a value of the wrong kind or
  out of range is an error.
\<close>

definition decode_string :: "string \<Rightarrow> json \<Rightarrow> wire_error + string" where
  "decode_string old v = (case v of JStr s \<Rightarrow> Inr s | JNull \<Rightarrow> Inr old | _ \<Rightarrow> Inl ErrJson)"

definition decode_bool :: "bool \<Rightarrow> json \<Rightarrow> wire_error + bool" where
  "decode_bool old v = (case v of JBool b \<Rightarrow> Inr b | JNull \<Rightarrow> Inr old | _ \<Rightarrow> Inl ErrJson)"

definition decode_uint :: "nat \<Rightarrow> nat \<Rightarrow> json \<Rightarrow> wire_error + nat" where
  "decode_uint bits old v =
     (case v of
        JNum s \<Rightarrow> if s \<noteq> [] \<and> list_all is_digit s \<and> digits_val s < 2 ^ bits then Inr (digits_val s) else Inl ErrJson
      | JNull \<Rightarrow> Inr old
      | _ \<Rightarrow> Inl ErrJson)"

definition decode_int64 :: "int \<Rightarrow> json \<Rightarrow> wire_error + int" where
  "decode_int64 old v =
     (case v of
        JNum s \<Rightarrow>
          (let d = (if prefix ''-'' s then tl s else s);
               i = (if prefix ''-'' s then - int (digits_val d) else int (digits_val d)) in
           if d \<noteq> [] \<and> list_all is_digit d \<and> - (2 ^ 63) \<le> i \<and> i < 2 ^ 63 then Inr i else Inl ErrJson)
      | JNull \<Rightarrow> Inr old
      | _ \<Rightarrow> Inl ErrJson)"

fun decode_list :: "(json \<Rightarrow> wire_error + 'a) \<Rightarrow> json list \<Rightarrow> wire_error + 'a list" where
  "decode_list f [] = Inr []"
| "decode_list f (v # vs) =
     (case f v of Inl e \<Rightarrow> Inl e
      | Inr x \<Rightarrow> (case decode_list f vs of Inl e \<Rightarrow> Inl e | Inr xs \<Rightarrow> Inr (x # xs)))"

definition decode_slice :: "(json \<Rightarrow> wire_error + 'a) \<Rightarrow> json \<Rightarrow> wire_error + 'a list" where
  "decode_slice f v = (case v of JArr vs \<Rightarrow> decode_list f vs | JNull \<Rightarrow> Inr [] | _ \<Rightarrow> Inl ErrJson)"

text \<open>A field of an object; an absent one keeps the zero value.\<close>

definition rbind :: "'e + 'a \<Rightarrow> ('a \<Rightarrow> 'e + 'b) \<Rightarrow> 'e + 'b" where
  "rbind r f = (case r of Inl e \<Rightarrow> Inl e | Inr x \<Rightarrow> f x)"

definition field :: "(string \<times> json) list \<Rightarrow> string \<Rightarrow> (json \<Rightarrow> wire_error + 'a) \<Rightarrow> wire_error + 'a" where
  "field fs k f = f (case map_of fs k of None \<Rightarrow> JNull | Some v \<Rightarrow> v)"

definition reject :: "wire_error option \<Rightarrow> wire_error + unit" where
  "reject e = (case e of None \<Rightarrow> Inr () | Some x \<Rightarrow> Inl x)"

lemma rbind_simps [simp]:
  "rbind (Inl e) f = Inl e" "rbind (Inr x) f = f x"
  by (simp_all add: rbind_def)

lemma rbind_Inr: "rbind r f = Inr y \<longleftrightarrow> (\<exists>x. r = Inr x \<and> f x = Inr y)"
  by (cases r) auto

lemma reject_Inr [simp]: "reject e = Inr u \<longleftrightarrow> e = None"
  by (cases e) (simp_all add: reject_def)

lemma reject_None [simp]: "reject None = Inr ()"
  by (simp add: reject_def)

definition object_members :: "json \<Rightarrow> (string \<times> json) list" where
  "object_members v = (case v of JObj fs \<Rightarrow> fs | _ \<Rightarrow> [])"

text \<open>
  \<^verbatim>\<open>DecodeBody\<close>, for a type given by its shape, its decoder and its \<^verbatim>\<open>Validate\<close>. Every type it is
  used with is a structure, so its \<^verbatim>\<open>isNilJSONValue\<close> is false and \<^verbatim>\<open>null\<close> is the zero value.
\<close>

definition DecodeBody :: "shape \<Rightarrow> ((string \<times> json) list \<Rightarrow> wire_error + 'a) \<Rightarrow> ('a \<Rightarrow> wire_error option)
    \<Rightarrow> bytes \<Rightarrow> wire_error + 'a" where
  "DecodeBody sh dec val body =
     rbind (reject (validateJSON body)) (\<lambda>_.
     rbind (reject (validateExactCase sh body)) (\<lambda>_.
       case parse_value (parse_fuel body) max_nesting body of
         None \<Rightarrow> Inl ErrJson
       | Some (v, r) \<Rightarrow>
           rbind (dec (object_members v)) (\<lambda>x.
           rbind (reject (ensureEOF r)) (\<lambda>_.
           rbind (reject (val x)) (\<lambda>_. Inr x)))))"

subsection \<open>The envelope\<close>

record envelope =
  en_version :: nat
  en_kind :: string
  en_id :: string
  en_method :: string
  en_requires :: "string list"
  en_seq :: "nat option"
  en_body :: bytes

definition Version :: nat where
  "Version = 1"

definition KindRequest :: string where "KindRequest = ''request''"
definition KindResponse :: string where "KindResponse = ''response''"
definition KindEvent :: string where "KindEvent = ''event''"
definition KindError :: string where "KindError = ''error''"

definition ValidMessageID :: "string \<Rightarrow> bool" where
  "ValidMessageID i \<longleftrightarrow> length i = 32 \<and> list_all lower_hex i"

definition validate_envelope :: "envelope \<Rightarrow> wire_error option" where
  "validate_envelope e =
     (if en_version e \<noteq> Version then Some ErrInvalidVersion
      else if en_kind e \<notin> {KindRequest, KindResponse, KindEvent, KindError} then Some ErrInvalidKind
      else if blank (en_method e) then Some ErrInvalidEnvelope
      else if (en_kind e = KindRequest \<or> en_kind e = KindResponse) \<and> \<not> ValidMessageID (en_id e) then Some ErrInvalidID
      else if en_kind e \<noteq> KindRequest \<and> en_kind e \<noteq> KindResponse \<and> en_id e \<noteq> [] \<and> \<not> ValidMessageID (en_id e)
        then Some ErrInvalidID
      else if en_body e = [] then Some ErrInvalidEnvelope
      else validateJSON (en_body e))"

definition envelope_shape :: shape where
  "envelope_shape =
     SStruct [(''version'', SAny), (''kind'', SAny), (''id'', SAny), (''method'', SAny), (''requires'', SList SAny),
              (''seq'', SAny), (''body'', SAny)]"

text \<open>The members of an object with the text of each value, which a \<^verbatim>\<open>json.RawMessage\<close> keeps.\<close>

fun raw_members :: "nat \<Rightarrow> nat \<Rightarrow> bytes \<Rightarrow> ((string \<times> bytes) list) option" where
  "raw_members 0 d s = None"
| "raw_members (Suc n) d s =
     (case skip_ws s of
        q # t \<Rightarrow>
          if q \<noteq> CHR 0x22 then None
          else (case parse_string t of
             None \<Rightarrow> None
           | Some (k, r) \<Rightarrow>
               (case skip_ws r of
                  x # u \<Rightarrow>
                    if x \<noteq> CHR '':'' then None
                    else (case parse_value n d u of
                       None \<Rightarrow> None
                     | Some (_, w) \<Rightarrow>
                         let raw = take (length (skip_ws u) - length w) (skip_ws u) in
                         (case skip_ws w of
                            c # y \<Rightarrow>
                              if c = CHR ''}'' then Some [(k, raw)]
                              else if c = CHR '','' then map_option (\<lambda>fs. (k, raw) # fs) (raw_members n d y)
                              else None
                          | [] \<Rightarrow> None))
                | [] \<Rightarrow> None))
      | [] \<Rightarrow> None)"

declare raw_members.simps [simp del]

definition raw_body :: "bytes \<Rightarrow> bytes" where
  "raw_body s =
     (case skip_ws s of
        c # t \<Rightarrow>
          if c = CHR ''{'' then
            (case raw_members (parse_fuel s) max_nesting t of
               Some fs \<Rightarrow> (case map_of fs ''body'' of Some b \<Rightarrow> b | None \<Rightarrow> [])
             | None \<Rightarrow> [])
          else []
      | [] \<Rightarrow> [])"

definition decode_envelope_fields :: "bytes \<Rightarrow> (string \<times> json) list \<Rightarrow> wire_error + envelope" where
  "decode_envelope_fields s fs =
     rbind (field fs ''version'' (decode_uint 16 0)) (\<lambda>version.
     rbind (field fs ''kind'' (decode_string [])) (\<lambda>kind.
     rbind (field fs ''id'' (decode_string [])) (\<lambda>i.
     rbind (field fs ''method'' (decode_string [])) (\<lambda>meth.
     rbind (field fs ''requires'' (decode_slice (decode_string []))) (\<lambda>requires.
     rbind (field fs ''seq'' (\<lambda>v. if v = JNull then Inr None else map_sum id Some (decode_uint 64 0 v))) (\<lambda>sq.
       Inr \<lparr>en_version = version, en_kind = kind, en_id = i, en_method = meth, en_requires = requires, en_seq = sq,
            en_body = raw_body s\<rparr>))))))"

definition decodeEnvelope :: "bytes \<Rightarrow> wire_error + envelope" where
  "decodeEnvelope body = DecodeBody envelope_shape (decode_envelope_fields body) validate_envelope body"

text \<open>\<^verbatim>\<open>json.Marshal\<close> of an envelope; empty optional fields are left out.\<close>

definition envelope_json :: "envelope \<Rightarrow> json" where
  "envelope_json e =
     JObj ([(''version'', JNat (en_version e)), (''kind'', JStr (en_kind e))]
       @ (if en_id e = [] then [] else [(''id'', JStr (en_id e))])
       @ [(''method'', JStr (en_method e))]
       @ (if en_requires e = [] then [] else [(''requires'', JArr (map JStr (en_requires e)))])
       @ (case en_seq e of None \<Rightarrow> [] | Some n \<Rightarrow> [(''seq'', JNat n)])
       @ [(''body'', JRaw (en_body e))])"

subsection \<open>Frames\<close>

definition MaxFrameBytes :: nat where
  "MaxFrameBytes = 8 * 2 ^ 20"

text \<open>\<^verbatim>\<open>io.ReadFull\<close> on what is left of the stream.\<close>

definition read_full :: "nat \<Rightarrow> bytes \<Rightarrow> wire_error + bytes \<times> bytes" where
  "read_full n s =
     (if n \<le> length s then Inr (take n s, drop n s)
      else if s = [] then Inl ErrEOF else Inl ErrUnexpectedEOF)"

definition be_value :: "bytes \<Rightarrow> nat" where
  "be_value s = foldl (\<lambda>n c. 256 * n + byte_val c) 0 s"

definition reader_maximum :: "nat \<Rightarrow> nat" where
  "reader_maximum m = (if MaxFrameBytes < m then MaxFrameBytes else m)"

definition Read :: "nat \<Rightarrow> bytes \<Rightarrow> wire_error + envelope \<times> bytes" where
  "Read maximum stream =
     rbind (read_full 4 stream) (\<lambda>(pre, s).
     let n = be_value pre in
       if n = 0 then Inl ErrEmptyFrame
       else if reader_maximum maximum < n then Inl ErrFrameTooLarge
       else
         rbind (read_full n s) (\<lambda>(body, rest).
           if \<not> utf8_valid body then Inl ErrInvalidUTF8
           else rbind (decodeEnvelope body) (\<lambda>e. Inr (e, rest))))"

text \<open>
  The destination is a script: each call of its \<^verbatim>\<open>Write\<close> reports how many bytes it took and
  whether it failed; past the end of the script calls succeed. \<open>writeFull\<close> returns the error
  and the bytes taken.
\<close>

type_synonym destination = "(int \<times> bool) list"

function writeFull :: "destination \<Rightarrow> bytes \<Rightarrow> wire_error option \<times> bytes \<times> destination" where
  "writeFull dst body =
     (if body = [] then (None, [], dst)
      else case dst of
        [] \<Rightarrow> (None, body, [])
      | (n, failed) # rest \<Rightarrow>
          if n < 0 \<or> int (length body) < n then (Some ErrShortWrite, [], rest)
          else if failed then (Some ErrTransport, take (nat n) body, rest)
          else if n = 0 then (Some ErrShortWrite, [], rest)
          else (case writeFull rest (drop (nat n) body) of (e, sent, d) \<Rightarrow> (e, take (nat n) body @ sent, d)))"
  by pat_completeness auto
termination
  by (relation "measure (\<lambda>(dst, body). length body)") auto

declare writeFull.simps [simp del]

text \<open>
  \<open>encode_frame\<close> is what \<^verbatim>\<open>Writer.Write\<close> hands to the destination: validation, marshalling, the
  length prefix.
\<close>

definition encode_frame :: "envelope \<Rightarrow> wire_error + bytes \<times> bytes" where
  "encode_frame e =
     rbind (reject (validate_envelope e)) (\<lambda>_.
     if \<not> json_valid (en_body e) then Inl ErrJson
     else let body = json_marshal (envelope_json e) in
       if body = [] then Inl ErrEmptyFrame
       else if MaxFrameBytes < length body then Inl ErrFrameTooLarge
       else Inr (be_bytes 4 (length body), body))"

definition Write :: "destination \<Rightarrow> envelope \<Rightarrow> wire_error option \<times> bytes \<times> destination" where
  "Write dst e =
     (case encode_frame e of
        Inl x \<Rightarrow> (Some x, [], dst)
      | Inr (pre, body) \<Rightarrow>
          (case writeFull dst pre of
             (Some x, sent, d) \<Rightarrow> (Some x, sent, d)
           | (None, sent, d) \<Rightarrow> (case writeFull d body of (x, sent', d') \<Rightarrow> (x, sent @ sent', d'))))"

end
