(* ===== verification/Wire_Scan.thy ===== *)
theory Wire_Scan
  imports Wire
begin

text \<open>
  The scanners of the wire protocol against trees: a document is accepted exactly when it is
  well-formed JSON whose tree fits the shape. Their fuel is enough, so running out is never the
  reason for an error.
\<close>

subsection \<open>Trees that fit a shape\<close>

definition keys_ok :: "shape \<Rightarrow> string list \<Rightarrow> bool" where
  "keys_ok sh ks =
     (case sh of
        SUnique \<Rightarrow> distinct ks
      | SStruct fs \<Rightarrow> distinct ks \<and> list_all (\<lambda>k. map_of fs k \<noteq> None) ks
      | _ \<Rightarrow> True)"

fun member_shape :: "shape \<Rightarrow> string \<Rightarrow> shape" where
  "member_shape SUnique k = SUnique"
| "member_shape (SStruct fs) k = (case map_of fs k of Some ty \<Rightarrow> ty | None \<Rightarrow> SAny)"
| "member_shape (SMap ty) k = ty"
| "member_shape _ k = SAny"

fun fits :: "shape \<Rightarrow> json \<Rightarrow> bool" where
  "fits sh (JObj ms) =
     (admits sh CHR ''{'' \<and> keys_ok sh (map fst ms) \<and> list_all (\<lambda>(k, v). fits (member_shape sh k) v) ms)"
| "fits sh (JArr vs) = (admits sh CHR ''['' \<and> list_all (fits (element_shape sh)) vs)"
| "fits sh JNull = True"
| "fits sh (JNum s) = (admits_scalar sh \<and> \<not> number_overflows s)"
| "fits sh (JRaw s) = False"
| "fits sh v = admits_scalar sh"

lemma parse_scalar_kinds:
  "parse_scalar s = Some (v, r) \<Longrightarrow> (case v of JObj _ \<Rightarrow> False | JArr _ \<Rightarrow> False | JRaw _ \<Rightarrow> False | _ \<Rightarrow> True)"
  by (auto simp: parse_scalar_def split: if_splits)

lemma fits_scalar:
  "parse_scalar s = Some (v, r) \<Longrightarrow> fits sh v \<longleftrightarrow> \<not> scalar_overflows v \<and> (v = JNull \<or> admits_scalar sh)"
  by (drule parse_scalar_kinds) (auto simp: scalar_overflows_def split: json.splits)

lemma parse_scalar_bracket [simp]: "parse_scalar (CHR ''}'' # s) = None" "parse_scalar (CHR '']'' # s) = None"
    "parse_scalar (CHR '','' # s) = None"
  by (simp_all add: parse_scalar_def parse_number_def parse_int_part_def is_digit_def in_range_def)

lemma parse_value_bracket:
  "skip_ws s = c # t \<Longrightarrow> c \<in> {CHR ''}'', CHR '']'', CHR '',''} \<Longrightarrow> parse_value n d s = None"
  by (cases n) (auto simp: parse_value.simps)

text \<open>Keys seen and kept: what \<open>key_step\<close> does on the way to an accepted object.\<close>

lemma key_step_pending: "key_step sh seen (Some e) k = Inr (sh', seen', pend') \<Longrightarrow> pend' = Some e"
  by (cases "(sh, seen, Some e, k)" rule: key_step.cases) (auto split: if_splits option.splits prod.splits)

lemma key_step_exact:
  "key_step sh seen None k = Inr (sh', seen', None) \<longleftrightarrow>
     sh' = member_shape sh k \<and> seen' = (case sh of SUnique \<Rightarrow> k # seen | SStruct _ \<Rightarrow> k # seen | _ \<Rightarrow> seen)
     \<and> (case sh of SUnique \<Rightarrow> k \<notin> set seen | SStruct fs \<Rightarrow> k \<notin> set seen \<and> map_of fs k \<noteq> None | _ \<Rightarrow> True)"
  by (cases "(sh, seen, None :: wire_error option, k)" rule: key_step.cases) (auto split: if_splits option.splits prod.splits)

lemma scan_members_pending: "scan_members n sh seen (Some e) first s = Inr r \<Longrightarrow> False"
proof (induction n arbitrary: seen first s)
  case 0
  then show ?case by (simp add: scan_members.simps)
next
  case (Suc n)
  then show ?case
    by (auto simp: scan_members.simps split: list.splits if_splits option.splits sum.splits prod.splits dest!: key_step_pending)
qed

text \<open>The keys of the rest of an object, given those seen.\<close>

definition keys_after :: "shape \<Rightarrow> string list \<Rightarrow> string list \<Rightarrow> bool" where
  "keys_after sh seen ks =
     (case sh of
        SUnique \<Rightarrow> distinct ks \<and> set ks \<inter> set seen = {}
      | SStruct fs \<Rightarrow> distinct ks \<and> set ks \<inter> set seen = {} \<and> list_all (\<lambda>k. map_of fs k \<noteq> None) ks
      | _ \<Rightarrow> True)"

lemma keys_after_Nil [simp]: "keys_after sh [] ks = keys_ok sh ks"
  by (cases sh) (simp_all add: keys_after_def keys_ok_def)

lemma keys_ok_Nil [simp]: "keys_ok sh []"
  by (cases sh) (simp_all add: keys_ok_def)

lemma keys_after_empty [simp]: "keys_after sh seen []"
  by (cases sh) (simp_all add: keys_after_def)

lemma keys_after_Cons:
  "keys_after sh seen (k # ks) \<longleftrightarrow>
     (\<exists>sh' seen'. key_step sh seen None k = Inr (sh', seen', None) \<and> keys_after sh seen' ks)"
  unfolding key_step_exact by (cases sh) (auto simp: keys_after_def)

subsection \<open>Accepted documents have fitting trees\<close>

lemma skip_ws_idem [simp]: "skip_ws (skip_ws s) = skip_ws s"
  by (simp add: skip_ws_def)

lemma parse_skip_ws:
  "parse_value n d (skip_ws s) = parse_value n d s" "parse_elements n d (skip_ws s) = parse_elements n d s"
  "parse_members n d (skip_ws s) = parse_members n d s"
proof -
  show v: "parse_value n d (skip_ws s) = parse_value n d s" for n d s
    by (cases n) (simp_all add: parse_value.simps)
  show "parse_elements n d (skip_ws s) = parse_elements n d s" "parse_members n d (skip_ws s) = parse_members n d s"
    by (cases n; simp add: parse_elements.simps parse_members.simps v)+
qed

lemma skip_ws_eqD: "skip_ws s = t \<Longrightarrow> skip_ws t = t"
  by auto

definition reads_value :: "nat \<Rightarrow> bytes \<Rightarrow> json \<Rightarrow> bytes \<Rightarrow> bool" where
  "reads_value n s v r \<longleftrightarrow> (\<forall>d \<ge> n. parse_value n d s = Some (v, r))"

definition reads_elements :: "nat \<Rightarrow> bytes \<Rightarrow> json list \<Rightarrow> bytes \<Rightarrow> bool" where
  "reads_elements n s vs r \<longleftrightarrow> (\<forall>d \<ge> n. parse_elements n d s = Some (vs, r))"

definition reads_members :: "nat \<Rightarrow> bytes \<Rightarrow> (string \<times> json) list \<Rightarrow> bytes \<Rightarrow> bool" where
  "reads_members n s fs r \<longleftrightarrow> (\<forall>d \<ge> n. parse_members n d s = Some (fs, r))"

lemma reads_elements_Suc:
  assumes "reads_value n s v w"
  shows "skip_ws w = CHR '']'' # r \<Longrightarrow> reads_elements (Suc n) s [v] r"
    and "skip_ws w = CHR '','' # t \<Longrightarrow> reads_elements n t vs r \<Longrightarrow> reads_elements (Suc n) s (v # vs) r"
  using assms by (auto simp: reads_value_def reads_elements_def parse_elements.simps)

lemma reads_members_Suc:
  assumes "skip_ws s = CHR 0x22 # k" "parse_string k = Some (key, y)" "skip_ws y = CHR '':'' # w" "reads_value n w v z"
  shows "skip_ws z = CHR ''}'' # r \<Longrightarrow> reads_members (Suc n) s [(key, v)] r"
    and "skip_ws z = CHR '','' # t \<Longrightarrow> reads_members n t fs r \<Longrightarrow> reads_members (Suc n) s ((key, v) # fs) r"
  using assms by (auto simp: reads_value_def reads_members_def parse_members.simps)

lemma reads_value_object:
  assumes "skip_ws s = CHR ''{'' # t"
  shows "skip_ws t = CHR ''}'' # r \<Longrightarrow> reads_value (Suc n) s (JObj []) r"
    and "skip_ws t = c # u \<Longrightarrow> c \<noteq> CHR ''}'' \<Longrightarrow> reads_members n (c # u) fs r \<Longrightarrow> reads_value (Suc n) s (JObj fs) r"
proof -
  show "skip_ws t = CHR ''}'' # r \<Longrightarrow> reads_value (Suc n) s (JObj []) r"
    using assms by (auto simp: reads_value_def parse_value.simps)
  assume t: "skip_ws t = c # u" and c: "c \<noteq> CHR ''}''" and m: "reads_members n (c # u) fs r"
  have "parse_members n d t = Some (fs, r)" if "n \<le> d" for d
    using m that parse_skip_ws(3) [of n d t] by (simp add: t reads_members_def)
  then show "reads_value (Suc n) s (JObj fs) r"
    using assms t c by (auto simp: reads_value_def parse_value.simps Suc_le_eq)
qed

lemma reads_value_array:
  assumes "skip_ws s = CHR ''['' # t"
  shows "skip_ws t = CHR '']'' # r \<Longrightarrow> reads_value (Suc n) s (JArr []) r"
    and "skip_ws t = c # u \<Longrightarrow> c \<noteq> CHR '']'' \<Longrightarrow> reads_elements n (c # u) vs r \<Longrightarrow> reads_value (Suc n) s (JArr vs) r"
proof -
  show "skip_ws t = CHR '']'' # r \<Longrightarrow> reads_value (Suc n) s (JArr []) r"
    using assms by (auto simp: reads_value_def parse_value.simps)
  assume t: "skip_ws t = c # u" and c: "c \<noteq> CHR '']''" and m: "reads_elements n (c # u) vs r"
  have "parse_elements n d t = Some (vs, r)" if "n \<le> d" for d
    using m that parse_skip_ws(2) [of n d t] by (simp add: t reads_elements_def)
  then show "reads_value (Suc n) s (JArr vs) r"
    using assms t c by (auto simp: reads_value_def parse_value.simps Suc_le_eq)
qed

lemma reads_value_scalar:
  "skip_ws s = c # t \<Longrightarrow> c \<noteq> CHR ''{'' \<Longrightarrow> c \<noteq> CHR ''['' \<Longrightarrow> parse_scalar (c # t) = Some (v, r) \<Longrightarrow> reads_value (Suc n) s v r"
  by (auto simp: reads_value_def parse_value.simps)

text \<open>What is left of an array or an object: its end, or further items.\<close>

definition rest_elements :: "nat \<Rightarrow> shape \<Rightarrow> bool \<Rightarrow> bytes \<Rightarrow> bytes \<Rightarrow> bool" where
  "rest_elements n sh first s r \<longleftrightarrow> skip_ws s = CHR '']'' # r
     \<or> (\<exists>c t u vs. skip_ws s = c # t \<and> c \<noteq> CHR '']'' \<and> next_item first c t = Some u \<and> reads_elements n u vs r \<and> list_all (fits sh) vs)"

definition rest_members :: "nat \<Rightarrow> shape \<Rightarrow> string list \<Rightarrow> bool \<Rightarrow> bytes \<Rightarrow> bytes \<Rightarrow> bool" where
  "rest_members n sh seen first s r \<longleftrightarrow> skip_ws s = CHR ''}'' # r
     \<or> (\<exists>c t u fs. skip_ws s = c # t \<and> c \<noteq> CHR ''}'' \<and> next_item first c t = Some u \<and> reads_members n u fs r
          \<and> keys_after sh seen (map fst fs) \<and> list_all (\<lambda>(k, v). fits (member_shape sh k) v) fs)"

lemma scan_parse:
  "(scan_value n sh s = Inr r \<longrightarrow> (\<exists>v. reads_value n s v r \<and> fits sh v)) \<and>
   (scan_elements n sh first s = Inr r \<longrightarrow> rest_elements n sh first s r) \<and>
   (scan_members n sh seen None first s = Inr r \<longrightarrow> rest_members n sh seen first s r)"
proof (induction n arbitrary: sh s r first seen)
  case 0
  then show ?case by (simp add: scan_value.simps scan_elements.simps scan_members.simps)
next
  case (Suc n)
  note IHv = Suc.IH [THEN conjunct1, rule_format]
  note IHe = Suc.IH [THEN conjunct2, THEN conjunct1, rule_format]
  note IHm = Suc.IH [THEN conjunct2, THEN conjunct2, rule_format]
  show ?case
  proof (intro conjI impI)
    assume p: "scan_value (Suc n) sh s = Inr r"
    then obtain c t where ct: "skip_ws s = c # t" by (auto simp: scan_value.simps split: list.splits)
    consider "c = CHR ''{''" | "c = CHR ''[''" | "c \<noteq> CHR ''{''" "c \<noteq> CHR ''[''" by blast
    then show "\<exists>v. reads_value (Suc n) s v r \<and> fits sh v"
    proof cases
      case 1
      with p ct have ad: "admits sh CHR ''{''" "scan_members n sh [] None True t = Inr r"
        by (auto simp: scan_value.simps split: if_splits)
      from ct 1 have ct: "skip_ws s = CHR ''{'' # t" by simp
      from IHm [OF ad(2)] show ?thesis
        unfolding rest_members_def
      proof (elim disjE exE conjE)
        assume "skip_ws t = CHR ''}'' # r"
        from reads_value_object(1) [OF ct this] ad(1) show ?thesis by (intro exI [of _ "JObj []"]) simp
      next
        fix x y u fs
        assume *: "skip_ws t = x # y" "x \<noteq> CHR ''}''" "next_item True x y = Some u" "reads_members n u fs r"
          "keys_after sh [] (map fst fs)" "list_all (\<lambda>(k, v). fits (member_shape sh k) v) fs"
        then have "reads_members n (x # y) fs r" by (simp add: next_item_def)
        from reads_value_object(2) [OF ct *(1,2) this] ad(1) *(5,6) show ?thesis by (intro exI [of _ "JObj fs"]) simp
      qed
    next
      case 2
      with p ct have ad: "admits sh CHR ''[''" "scan_elements n (element_shape sh) True t = Inr r"
        by (auto simp: scan_value.simps split: if_splits)
      from ct 2 have ct: "skip_ws s = CHR ''['' # t" by simp
      from IHe [OF ad(2)] show ?thesis
        unfolding rest_elements_def
      proof (elim disjE exE conjE)
        assume "skip_ws t = CHR '']'' # r"
        from reads_value_array(1) [OF ct this] ad(1) show ?thesis by (intro exI [of _ "JArr []"]) simp
      next
        fix x y u vs
        assume *: "skip_ws t = x # y" "x \<noteq> CHR '']''" "next_item True x y = Some u" "reads_elements n u vs r"
          "list_all (fits (element_shape sh)) vs"
        then have "reads_elements n (x # y) vs r" by (simp add: next_item_def)
        from reads_value_array(2) [OF ct *(1,2) this] ad(1) *(5) show ?thesis by (intro exI [of _ "JArr vs"]) simp
      qed
    next
      case 3
      with p ct obtain v where v: "parse_scalar (c # t) = Some (v, r)" "\<not> scalar_overflows v" "v = JNull \<or> admits_scalar sh"
        by (auto simp: scan_value.simps split: option.splits if_splits)
      with reads_value_scalar [OF ct 3 v(1)] fits_scalar [OF v(1)] show ?thesis by blast
    qed
  next
    assume p: "scan_elements (Suc n) sh first s = Inr r"
    show "rest_elements (Suc n) sh first s r"
    proof (cases "\<exists>t. skip_ws s = CHR '']'' # t")
      case True
      with p show ?thesis by (auto simp: scan_elements.simps rest_elements_def)
    next
      case False
      with p obtain c t u w where ct: "skip_ws s = c # t" "c \<noteq> CHR '']''" "next_item first c t = Some u"
          and v: "scan_value n sh u = Inr w" and e: "scan_elements n sh False w = Inr r"
        by (auto simp: scan_elements.simps split: list.splits if_splits option.splits sum.splits)
      from IHv [OF v] obtain v where v: "reads_value n u v w" "fits sh v" by blast
      from IHe [OF e] have "\<exists>vs. reads_elements (Suc n) u vs r \<and> list_all (fits sh) vs"
        unfolding rest_elements_def
      proof (elim disjE exE conjE)
        assume "skip_ws w = CHR '']'' # r"
        from reads_elements_Suc(1) [OF v(1) this] v(2) show ?thesis by (intro exI [of _ "[v]"]) simp
      next
        fix x y q vs
        assume *: "skip_ws w = x # y" "next_item False x y = Some q" "reads_elements n q vs r" "list_all (fits sh) vs"
        then have "skip_ws w = CHR '','' # q" by (auto simp: next_item_def split: if_splits)
        from reads_elements_Suc(2) [OF v(1) this *(3)] v(2) *(4) show ?thesis by (intro exI [of _ "v # vs"]) simp
      qed
      with ct show ?thesis by (auto simp: rest_elements_def)
    qed
  next
    assume p: "scan_members (Suc n) sh seen None first s = Inr r"
    show "rest_members (Suc n) sh seen first s r"
    proof (cases "\<exists>t. skip_ws s = CHR ''}'' # t")
      case True
      with p show ?thesis by (auto simp: scan_members.simps rest_members_def)
    next
      case False
      with p obtain c t u k key y sh' seen' pend' w z where ct: "skip_ws s = c # t" "c \<noteq> CHR ''}''" "next_item first c t = Some u"
          and k: "skip_ws u = CHR 0x22 # k" "parse_string k = Some (key, y)" and ks: "key_step sh seen None key = Inr (sh', seen', pend')"
          and w: "skip_ws y = CHR '':'' # w" and v: "scan_value n sh' w = Inr z" and m: "scan_members n sh seen' pend' False z = Inr r"
        by (auto simp: scan_members.simps split: list.splits if_splits option.splits sum.splits prod.splits)
      from m scan_members_pending have pend: "pend' = None" by (cases pend') auto
      from IHv [OF v] obtain v where v: "reads_value n w v z" "fits sh' v" by blast
      have sh': "sh' = member_shape sh key" using ks pend key_step_exact by blast
      note step = reads_members_Suc [OF k w v(1)]
      from IHm [OF m [unfolded pend]]
      have "\<exists>fs. reads_members (Suc n) u fs r \<and> keys_after sh seen (map fst fs) \<and> list_all (\<lambda>(k, v). fits (member_shape sh k) v) fs"
        unfolding rest_members_def
      proof (elim disjE exE conjE)
        assume "skip_ws z = CHR ''}'' # r"
        from step(1) [OF this] ks pend v(2) sh' show ?thesis
          by (intro exI [of _ "[(key, v)]"]) (auto simp: keys_after_Cons)
      next
        fix c t u fs
        assume *: "skip_ws z = c # t" "next_item False c t = Some u" "reads_members n u fs r"
          "keys_after sh seen' (map fst fs)" "list_all (\<lambda>(k, v). fits (member_shape sh k) v) fs"
        then have "skip_ws z = CHR '','' # u" by (auto simp: next_item_def split: if_splits)
        from step(2) [OF this *(3)] ks pend v(2) sh' *(4,5) show ?thesis
          by (intro exI [of _ "(key, v) # fs"]) (auto simp: keys_after_Cons)
      qed
      with ct show ?thesis by (auto simp: rest_members_def)
    qed
  qed
qed

subsection \<open>Fitting trees are accepted\<close>

lemma parse_scan:
  "(parse_value n d s = Some (v, r) \<longrightarrow> fits sh v \<longrightarrow> scan_value (Suc n) sh s = Inr r) \<and>
   (parse_elements n d u = Some (vs, r) \<longrightarrow> list_all (fits sh) vs \<longrightarrow> skip_ws s = c # t \<longrightarrow> c \<noteq> CHR '']'' \<longrightarrow> c \<noteq> CHR ''}'' \<longrightarrow>
      next_item first c t = Some u \<longrightarrow> scan_elements (Suc n) sh first s = Inr r) \<and>
   (parse_members n d u = Some (fs, r) \<longrightarrow> keys_after sh seen (map fst fs) \<longrightarrow>
      list_all (\<lambda>(k, v). fits (member_shape sh k) v) fs \<longrightarrow> skip_ws s = c # t \<longrightarrow> c \<noteq> CHR '']'' \<longrightarrow> c \<noteq> CHR ''}'' \<longrightarrow>
      next_item first c t = Some u \<longrightarrow> scan_members (Suc n) sh seen None first s = Inr r)"
proof (induction n arbitrary: d sh s v r u vs fs c t first seen)
  case 0
  then show ?case by (simp add: parse_value.simps parse_elements.simps parse_members.simps)
next
  case (Suc n)
  note IHv = Suc.IH [THEN conjunct1, rule_format]
  note IHe = Suc.IH [THEN conjunct2, THEN conjunct1, rule_format]
  note IHm = Suc.IH [THEN conjunct2, THEN conjunct2, rule_format]
  show ?case
  proof (intro conjI impI)
    assume p: "parse_value (Suc n) d s = Some (v, r)" and f: "fits sh v"
    then obtain c t where ct: "skip_ws s = c # t" by (auto simp: parse_value.simps split: list.splits)
    consider "c = CHR ''{''" | "c = CHR ''[''" | "c \<noteq> CHR ''{''" "c \<noteq> CHR ''[''" by blast
    then show "scan_value (Suc (Suc n)) sh s = Inr r"
    proof cases
      case 1
      with p ct obtain x y where x: "skip_ws t = x # y" by (auto simp: parse_value.simps split: if_splits list.splits)
      show ?thesis
      proof (cases "x = CHR ''}''")
        case True
        with p ct 1 x f show ?thesis by (auto simp: parse_value.simps scan_value.simps scan_members.simps split: if_splits)
      next
        case False
        with p ct 1 x obtain fs where "parse_members n (d - 1) t = Some (fs, r)" and v: "v = JObj fs"
          by (auto simp: parse_value.simps split: if_splits)
        then have m: "parse_members n (d - 1) (x # y) = Some (fs, r)" by (simp add: x [symmetric] parse_skip_ws)
        have "x = CHR 0x22"
          using m skip_ws_eqD [OF x] by (cases n) (auto simp: parse_members.simps split: if_splits)
        then have "scan_members (Suc n) sh [] None True t = Inr r"
          using f v x by (intro IHm [OF m]) (auto simp: next_item_def)
        with ct 1 f v show ?thesis by (simp add: scan_value.simps)
      qed
    next
      case 2
      with p ct obtain x y where x: "skip_ws t = x # y" by (auto simp: parse_value.simps split: if_splits list.splits)
      show ?thesis
      proof (cases "x = CHR '']''")
        case True
        with p ct 2 x f show ?thesis by (auto simp: parse_value.simps scan_value.simps scan_elements.simps split: if_splits)
      next
        case False
        with p ct 2 x obtain vs where "parse_elements n (d - 1) t = Some (vs, r)" and v: "v = JArr vs"
          by (auto simp: parse_value.simps split: if_splits)
        then have m: "parse_elements n (d - 1) (x # y) = Some (vs, r)" by (simp add: x [symmetric] parse_skip_ws)
        have "x \<noteq> CHR ''}''"
          using m parse_value_bracket [OF skip_ws_eqD [OF x]] by (cases n) (auto simp: parse_elements.simps split: option.splits)
        then have "scan_elements (Suc n) (element_shape sh) True t = Inr r"
          using f v x False by (intro IHe [OF m]) (auto simp: next_item_def)
        with ct 2 f v show ?thesis by (simp add: scan_value.simps)
      qed
    next
      case 3
      with p ct have "parse_scalar (c # t) = Some (v, r)" by (simp add: parse_value.simps)
      with fits_scalar [OF this] f ct 3 show ?thesis by (auto simp: scan_value.simps)
    qed
  next
    assume p: "parse_elements (Suc n) d u = Some (vs, r)" and f: "list_all (fits sh) vs" and ct: "skip_ws s = c # t"
      "c \<noteq> CHR '']''" "c \<noteq> CHR ''}''" and u: "next_item first c t = Some u"
    from p obtain v w where v: "parse_value n d u = Some (v, w)" by (auto simp: parse_elements.simps split: option.splits)
    from p v obtain x y where x: "skip_ws w = x # y" by (auto simp: parse_elements.simps split: list.splits)
    have "fits sh v" using p v x f by (auto simp: parse_elements.simps split: if_splits)
    from IHv [OF v this] have sv: "scan_value (Suc n) sh u = Inr w" .
    have "scan_elements (Suc n) sh False w = Inr r"
    proof (cases "x = CHR '']''")
      case True
      with p v x show ?thesis by (simp add: parse_elements.simps scan_elements.simps)
    next
      case False
      with p v x obtain vs' where c: "x = CHR '',''" "parse_elements n d y = Some (vs', r)" "vs = v # vs'"
        by (auto simp: parse_elements.simps split: if_splits)
      show ?thesis using f c x by (intro IHe [OF c(2)]) (auto simp: next_item_def)
    qed
    with ct u sv show "scan_elements (Suc (Suc n)) sh first s = Inr r" by (simp add: scan_elements.simps(2) [of "Suc n"])
  next
    assume p: "parse_members (Suc n) d u = Some (fs, r)" and ka: "keys_after sh seen (map fst fs)"
      and f: "list_all (\<lambda>(k, v). fits (member_shape sh k) v) fs" and ct: "skip_ws s = c # t"
      "c \<noteq> CHR '']''" "c \<noteq> CHR ''}''" and u: "next_item first c t = Some u"
    from p obtain k key y w v z x q where k: "skip_ws u = CHR 0x22 # k" "parse_string k = Some (key, y)" "skip_ws y = CHR '':'' # w"
      "parse_value n d w = Some (v, z)" "skip_ws z = x # q"
      by (auto simp: parse_members.simps split: list.splits if_splits option.splits)
    have fs: "fs = (key, v) # tl fs" using p k by (auto simp: parse_members.simps split: if_splits)
    from ka fs obtain sh' seen' where ks: "key_step sh seen None key = Inr (sh', seen', None)" "keys_after sh seen' (map fst (tl fs))"
      by (metis keys_after_Cons list.simps(9) fst_conv)
    then have sh': "sh' = member_shape sh key" using key_step_exact by blast
    have fv: "fits sh' v" and ft: "list_all (\<lambda>(k, v). fits (member_shape sh k) v) (tl fs)"
      using f sh' by (subst (asm) fs, simp)+
    from IHv [OF k(4) fv] have sv: "scan_value (Suc n) sh' w = Inr z" .
    have "scan_members (Suc n) sh seen' None False z = Inr r"
    proof (cases "x = CHR ''}''")
      case True
      with p k show ?thesis by (simp add: parse_members.simps scan_members.simps)
    next
      case False
      with p k have c: "x = CHR '',''" "parse_members n d q = Some (tl fs, r)"
        by (auto simp: parse_members.simps split: if_splits)
      show ?thesis using ft ks(2) c k(5) by (intro IHm [OF c(2)]) (auto simp: next_item_def)
    qed
    with ct u k ks(1) sv show "scan_members (Suc (Suc n)) sh seen None first s = Inr r"
      by (simp add: scan_members.simps(2) [of "Suc n"])
  qed
qed

lemmas parse_scan_value = parse_scan [THEN conjunct1, rule_format]

subsection \<open>The fuel of the scanners is enough\<close>

lemma scan_value_parse:
  assumes "scan_value n sh s = Inr r"
  obtains v where "parse_value n n s = Some (v, r)" "fits sh v"
  using scan_parse [THEN conjunct1, rule_format, OF assms] by (auto simp: reads_value_def)

lemma scan_value_length: "scan_value n sh s = Inr r \<Longrightarrow> length r < length s"
  by (erule scan_value_parse) (rule parse_value_length)

lemma next_item_length: "skip_ws s = c # t \<Longrightarrow> next_item first c t = Some u \<Longrightarrow> length u \<le> length s"
  using skip_ws_length [of s] by (simp add: next_item_def split: if_splits) (metis length_Cons)

lemma scan_fuel_cong:
  "(2 * length s + 3 \<le> n \<longrightarrow> 2 * length s + 3 \<le> m \<longrightarrow> scan_value n sh s = scan_value m sh s) \<and>
   (2 * length s + 4 \<le> n \<longrightarrow> 2 * length s + 4 \<le> m \<longrightarrow> scan_elements n sh first s = scan_elements m sh first s) \<and>
   (2 * length s + 4 \<le> n \<longrightarrow> 2 * length s + 4 \<le> m \<longrightarrow> scan_members n sh seen pend first s = scan_members m sh seen pend first s)"
proof (induction n arbitrary: m s sh first seen pend)
  case (Suc n)
  note IHv = Suc.IH [THEN conjunct1, rule_format]
  note IHe = Suc.IH [THEN conjunct2, THEN conjunct1, rule_format]
  note IHm = Suc.IH [THEN conjunct2, THEN conjunct2, rule_format]
  show ?case
  proof (intro conjI impI)
    assume n: "2 * length s + 3 \<le> Suc n" and m: "2 * length s + 3 \<le> m"
    then obtain m' where m': "m = Suc m'" by (cases m) auto
    have "scan_members n sh' seen pend first t = scan_members m' sh' seen pend first t"
      "scan_elements n sh' first t = scan_elements m' sh' first t"
      if "skip_ws s = c # t" for c t sh' seen pend first
      using n m m' skip_ws_ConsD [OF that] by (auto intro!: IHm IHe)
    then show "scan_value (Suc n) sh s = scan_value m sh s"
      unfolding m' scan_value.simps by (auto split: list.splits)
  next
    assume n: "2 * length s + 4 \<le> Suc n" and m: "2 * length s + 4 \<le> m"
    then obtain m' where m': "m = Suc m'" by (cases m) auto
    have v: "scan_value n sh u = scan_value m' sh u"
      if "skip_ws s = c # t" "next_item first c t = Some u" for c t u
      using n m m' next_item_length [OF that] by (intro IHv) auto
    have "scan_elements n sh False r = scan_elements m' sh False r"
      if "skip_ws s = c # t" "next_item first c t = Some u" "scan_value m' sh u = Inr r" for c t u r
      using n m m' next_item_length [OF that(1,2)] scan_value_length [OF that(3)] by (intro IHe) auto
    with v show "scan_elements (Suc n) sh first s = scan_elements m sh first s"
      unfolding m' scan_elements.simps by (auto split: option.splits list.splits sum.splits)
  next
    assume n: "2 * length s + 4 \<le> Suc n" and m: "2 * length s + 4 \<le> m"
    then obtain m' where m': "m = Suc m'" by (cases m) auto
    have v: "scan_value n sh' w = scan_value m' sh' w"
      if "skip_ws s = c # t" "next_item first c t = Some u" "skip_ws u = q # k" "parse_string k = Some (key, y)" "skip_ws y = x # w"
      for c t u q k key y x w sh'
      using n m m' next_item_length [OF that(1,2)] skip_ws_ConsD [OF that(3)] parse_string_length [OF that(4)] skip_ws_ConsD [OF that(5)]
      by (intro IHv) auto
    have "scan_members n sh seen' pend' False z = scan_members m' sh seen' pend' False z"
      if "skip_ws s = c # t" "next_item first c t = Some u" "skip_ws u = q # k" "parse_string k = Some (key, y)" "skip_ws y = x # w"
        "scan_value m' sh' w = Inr z"
      for c t u q k key y x w sh' z seen' pend'
      using n m m' next_item_length [OF that(1,2)] skip_ws_ConsD [OF that(3)] parse_string_length [OF that(4)] skip_ws_ConsD [OF that(5)]
        scan_value_length [OF that(6)]
      by (intro IHm) auto
    with v show "scan_members (Suc n) sh seen pend first s = scan_members m sh seen pend first s"
      unfolding m' scan_members.simps by (auto split: option.splits list.splits sum.splits prod.splits)
  qed
qed simp

lemma scan_value_fuel: "scan_fuel s \<le> n \<Longrightarrow> scan_value n sh s = scan_value (scan_fuel s) sh s"
  using scan_fuel_cong [of s n "scan_fuel s" sh] by (simp add: scan_fuel_def)

subsection \<open>Strict documents\<close>

text \<open>The tree of a document, however deeply nested.\<close>

definition json_tree :: "bytes \<Rightarrow> json option" where
  "json_tree s =
     (case parse_value (scan_fuel s) (scan_fuel s) s of
        Some (v, r) \<Rightarrow> if skip_ws r = [] then Some v else None
      | None \<Rightarrow> None)"

lemma ensureEOF_None [simp]: "ensureEOF r = None \<longleftrightarrow> skip_ws r = []"
  by (simp add: ensureEOF_def split: sum.splits)

lemma scan_document_iff:
  "scan_document sh s = None \<longleftrightarrow> (\<exists>v. json_tree s = Some v \<and> fits sh v)"
proof
  assume "scan_document sh s = None"
  then obtain r where r: "scan_value (scan_fuel s) sh s = Inr r" "skip_ws r = []"
    by (auto simp: scan_document_def split: sum.splits)
  from r(1) obtain v where "parse_value (scan_fuel s) (scan_fuel s) s = Some (v, r)" "fits sh v" by (rule scan_value_parse)
  with r(2) show "\<exists>v. json_tree s = Some v \<and> fits sh v" by (simp add: json_tree_def)
next
  assume "\<exists>v. json_tree s = Some v \<and> fits sh v"
  then obtain v r where r: "parse_value (scan_fuel s) (scan_fuel s) s = Some (v, r)" "skip_ws r = []" "fits sh v"
    by (auto simp: json_tree_def split: option.splits if_splits)
  from parse_scan_value [OF r(1,3)] scan_value_fuel [of s "Suc (scan_fuel s)" sh]
  have "scan_value (scan_fuel s) sh s = Inr r" by simp
  with r(2) show "scan_document sh s = None" by (simp add: scan_document_def)
qed

text \<open>
  C19. The strict reader accepts exactly what it should: a message is valid when it is UTF-8 and a
  single JSON document, at any depth, with no object that names a key twice and no number beyond
  \<^verbatim>\<open>float64\<close>; and it has the exact case of a type when its tree fits the shape of the type. The
  two scanners agree with the tree the decoder builds.
\<close>

theorem strict_json_exact:
  "(validateJSON s = None) = (utf8_valid s \<and> (\<exists>v. json_tree s = Some v \<and> fits SUnique v))
   \<and> (validateExactCase sh s = None) = (\<exists>v. json_tree s = Some v \<and> fits sh v)"
  by (simp add: validate_document scan_document_iff)

end
