(* ===== verification/Wire_Roundtrip.thy ===== *)
theory Wire_Roundtrip
  imports Wire_Scan
begin

text \<open>
  Frames written and read back: every envelope the writer accepts, with a body as the program
  makes them, comes out of the reader unchanged, whatever follows it on the stream.
\<close>

subsection \<open>Printed text is UTF-8\<close>

lemma rune_len_append: "rune_len s \<noteq> 0 \<Longrightarrow> rune_len (s @ t) = rune_len s"
proof (cases s)
  case (Cons c u)
  assume n: "rune_len s \<noteq> 0"
  show ?thesis
  proof (cases "byte_val c < 0x80")
    case True
    then have "in_range 0 0x7F c" by (simp add: in_range_def)
    with Cons show ?thesis by (simp add: rune_len_ascii)
  next
    case False
    from n Cons obtain x y where "u = x @ y" "rune_len (c # u) = Suc (length x)" "\<And>z. rune_len (c # x @ z) = Suc (length x)"
      using rune_split [OF _ False] by metis
    with Cons show ?thesis by simp
  qed
qed (simp add: rune_len_def)

lemma rune_len_le: "rune_len s \<le> length s"
proof (cases s)
  case (Cons c u)
  show ?thesis
  proof (cases "byte_val c < 0x80 \<or> rune_len s = 0")
    case True
    with Cons show ?thesis by (auto simp: rune_len_ascii in_range_def)
  next
    case False
    with Cons obtain x y where "u = x @ y" "rune_len (c # u) = Suc (length x)"
      using rune_split [of c u] by metis
    with Cons show ?thesis by simp
  qed
qed (simp add: rune_len_def)

lemma utf8_valid_Nil [simp]: "utf8_valid []"
  by (simp add: utf8_valid.simps)

lemma utf8_valid_append: "utf8_valid s \<Longrightarrow> utf8_valid t \<Longrightarrow> utf8_valid (s @ t)"
proof (induction "length s" arbitrary: s rule: less_induct)
  case less
  show ?case
  proof (cases s)
    case (Cons c u)
    note v = utf8_valid_drop [OF less.prems(1) [unfolded Cons]]
    then have "utf8_valid (drop (rune_len s) s @ t)"
      using less Cons by (intro less.hyps) auto
    moreover have "rune_len s \<le> length s" by (rule rune_len_le)
    moreover have "rune_len (s @ t) = rune_len s" using v Cons by (intro rune_len_append) simp
    ultimately have "utf8_valid (drop (rune_len (s @ t)) (s @ t))" "rune_len (s @ t) \<noteq> 0"
      using v Cons by (simp_all del: append_Cons add: drop_append)
    then show ?thesis by (subst utf8_valid.simps) simp
  qed (use less.prems in simp)
qed

lemma utf8_valid_ascii_byte: "byte_val c < 0x80 \<Longrightarrow> utf8_valid [c]"
  by (rule utf8_valid_ascii) (simp add: in_range_def)

lemma utf8_valid_escape_byte:
  assumes "byte_val c < 0x80"
  shows "utf8_valid (escape_byte c)"
  using assms
proof (cases rule: escape_byte_cases)
  case 1
  with assms show ?thesis by (simp add: utf8_valid_ascii_byte)
next
  case (2 x)
  then show ?thesis using utf8_valid_append [of "[CHR 0x5C]" "[x]"] by (simp add: utf8_valid_ascii_byte)
next
  case (3 j k)
  then show ?thesis by (intro utf8_valid_ascii) (auto simp: in_range_def)
qed

lemma utf8_valid_rune:
  assumes "rune_len (c # s) \<noteq> 0" "\<not> byte_val c < 0x80"
  shows "utf8_valid (take (rune_len (c # s)) (c # s))"
proof -
  obtain t u where *: "s = t @ u" "rune_len (c # s) = Suc (length t)" "rune_len (c # t) = Suc (length t)"
    using rune_split [OF assms] by (metis append_Nil2)
  from *(3) have "utf8_valid (c # t)" by (subst utf8_valid.simps) simp
  with * show ?thesis by simp
qed

lemma utf8_valid_json_escape: "utf8_valid s \<Longrightarrow> utf8_valid (json_escape s)"
proof (induction "length s" arbitrary: s rule: less_induct)
  case less
  show ?case
  proof (cases s)
    case (Cons c t)
    note v = utf8_valid_drop [OF less.prems [unfolded Cons]]
    have IH: "utf8_valid (json_escape (drop (rune_len (c # t)) (c # t)))"
      using v Cons by (intro less.hyps) auto
    show ?thesis
    proof (cases "byte_val c < 0x80")
      case True
      then have "rune_len (c # t) = 1" by (intro rune_len_ascii) (simp add: in_range_def)
      with True Cons IH show ?thesis by (simp add: json_escape.simps(2) utf8_valid_append utf8_valid_escape_byte)
    next
      case False
      show ?thesis
      proof (cases "ls_ps (c # t)")
        case True
        with ls_ps_rune [OF True] IH have "utf8_valid (json_escape (drop 2 t))" by simp
        moreover have "utf8_valid (ls_ps_escape (c # t))"
          by (rule utf8_valid_ascii) (auto simp: ls_ps_escape_def in_range_def)
        ultimately show ?thesis using Cons False True v by (simp add: json_escape.simps(2) utf8_valid_append)
      next
        case no: False
        with Cons False v IH utf8_valid_rune [of c t] show ?thesis by (simp add: json_escape.simps(2) utf8_valid_append)
      qed
    qed
  qed simp
qed

lemma utf8_valid_quote: "utf8_valid s \<Longrightarrow> utf8_valid (json_quote s)"
  unfolding json_quote_def by (intro utf8_valid_append utf8_valid_json_escape) (simp_all add: utf8_valid_ascii_byte)

lemma utf8_valid_join: "list_all utf8_valid xs \<Longrightarrow> utf8_valid (join_with '','' xs)"
proof (induction "'',''" xs rule: join_with.induct)
  case (3 x y zs)
  then have "utf8_valid (x @ '','' @ join_with '','' (y # zs))"
    by (intro utf8_valid_append) (auto simp: utf8_valid_ascii_byte)
  then show ?case by simp
qed auto

lemma utf8_valid_marshal: "printable v \<Longrightarrow> utf8_valid (json_marshal v)"
proof (induction v rule: printable.induct)
  case (1 s)
  then have "list_all number_char s" using parse_number_chars(1) by auto
  then have "\<forall>c \<in> set s. in_range 0 0x7F c" by (auto simp: list_all_iff number_char_def is_digit_def in_range_def)
  then show ?case by (simp add: utf8_valid_ascii)
next
  case (3 vs)
  then have "list_all utf8_valid (map json_marshal vs)" by (auto simp: list_all_iff)
  then have "utf8_valid (''['' @ join_with '','' (map json_marshal vs) @ '']'')"
    by (intro utf8_valid_append utf8_valid_join) (auto simp: utf8_valid_ascii_byte)
  then show ?case by simp
next
  case (4 fs)
  then have "utf8_valid (json_quote k @ '':'' @ json_marshal v)" if "(k, v) \<in> set fs" for k v
    using that by (intro utf8_valid_append) (auto simp: list_all_iff utf8_valid_quote utf8_valid_ascii_byte)
  then have "list_all utf8_valid (map (\<lambda>(k, v). json_quote k @ '':'' @ json_marshal v) fs)" by (auto simp: list_all_iff)
  then have "utf8_valid (''{'' @ join_with '','' (map (\<lambda>(k, v). json_quote k @ '':'' @ json_marshal v) fs) @ ''}'')"
    by (intro utf8_valid_append utf8_valid_join) (auto simp: utf8_valid_ascii_byte)
  then show ?case by simp
qed (simp_all add: utf8_valid_quote utf8_valid_ascii in_range_def)

subsection \<open>The text of a printed tree\<close>

lemma join_with_member: "x \<in> set xs \<Longrightarrow> length x \<le> length (join_with sep xs)"
  by (induction sep xs rule: join_with.induct) auto

lemma nesting_length: "nesting v \<le> length (json_marshal v)"
proof (induction v rule: nesting.induct)
  case (1 vs)
  then have "n \<le> length (join_with '','' (map json_marshal vs))" if "n \<in> set (map nesting vs)" for n
    using that join_with_member [of _ "map json_marshal vs" "'',''"] by fastforce
  then have "fold max (map nesting vs) 0 \<le> length (join_with '','' (map json_marshal vs))" by (simp add: fold_max_le)
  then show ?case by simp
next
  case (2 fs)
  have "n \<le> length (join_with '','' (map (\<lambda>(k, v). json_quote k @ '':'' @ json_marshal v) fs))"
    if n: "n \<in> set (map (\<lambda>(k, v). nesting v) fs)" for n
  proof -
    from n obtain k v where kv: "(k, v) \<in> set fs" "n = nesting v" by auto
    with 2 [of "(k, v)" k v] have "n \<le> length (json_quote k @ '':'' @ json_marshal v)" by simp
    also have "\<dots> \<le> length (join_with '','' (map (\<lambda>(k, v). json_quote k @ '':'' @ json_marshal v) fs))"
      using kv(1) by (intro join_with_member) force
    finally show ?thesis .
  qed
  then have "fold max (map (\<lambda>(k, v). nesting v) fs) 0 \<le> length (join_with '','' (map (\<lambda>(k, v). json_quote k @ '':'' @ json_marshal v) fs))"
    by (simp only: fold_max_le) simp
  then show ?case by simp
qed simp_all

lemma json_tree_marshal: "printable v \<Longrightarrow> json_tree (json_marshal v) = Some v"
  using reads_backD [OF marshal_reads_back, of v "scan_fuel (json_marshal v)" "[]" "scan_fuel (json_marshal v)"] nesting_length [of v]
  by (simp add: json_tree_def scan_fuel_def skip_ws_def)

lemma fits_unique_any: "fits SUnique v \<Longrightarrow> fits SAny v"
  by (induction SUnique v rule: fits.induct) (auto simp: list_all_iff keys_ok_def)

lemma raw_members_marshal:
  assumes "fs \<noteq> []" "\<forall>(k, v) \<in> set fs. utf8_valid k \<and> printable v \<and> nesting v \<le> d"
    and "2 * length (join_with '','' (map (\<lambda>(k, v). json_quote k @ '':'' @ json_marshal v) fs) @ ''}'' @ q) + 3 \<le> n"
  shows "raw_members n d (join_with '','' (map (\<lambda>(k, v). json_quote k @ '':'' @ json_marshal v) fs) @ ''}'' @ q)
    = Some (map (\<lambda>(k, v). (k, json_marshal v)) fs)"
  using assms
proof (induction fs arbitrary: n)
  case (Cons kv fs)
  obtain k v where kv: "kv = (k, v)" by (cases kv)
  obtain m where n: "n = Suc m" using Cons.prems(3) by (cases n) auto
  have v: "utf8_valid k" "printable v" "nesting v \<le> d" using Cons.prems(2) kv by simp_all
  from v(2) obtain c t where c: "json_marshal v = c # t" "\<not> json_ws c" by (rule marshal_head)
  then have ws: "skip_ws (json_marshal v @ r) = json_marshal v @ r" for r by (simp add: skip_ws_head)
  show ?case
  proof (cases fs)
    case Nil
    have "parse_value m d (json_marshal v @ ''}'' @ q) = Some (v, ''}'' @ q)"
      using Cons.prems(3) n Nil kv v by (intro reads_backD marshal_reads_back) auto
    with n Nil kv v(1) ws show ?thesis by (simp add: raw_members.simps json_quote_def parse_json_escape)
  next
    case (Cons w ws')
    let ?rest = "join_with '','' (map (\<lambda>(k, v). json_quote k @ '':'' @ json_marshal v) fs) @ ''}'' @ q"
    have "parse_value m d (json_marshal v @ '','' @ ?rest) = Some (v, '','' @ ?rest)"
      using Cons.prems(3) n Cons kv v by (intro reads_backD marshal_reads_back) (auto simp: case_prod_unfold)
    moreover have "raw_members m d ?rest = Some (map (\<lambda>(k, v). (k, json_marshal v)) fs)"
      using Cons.prems(2,3) n Cons kv by (intro Cons.IH) (auto simp: case_prod_unfold)
    ultimately show ?thesis using n Cons kv v(1) ws by (simp add: raw_members.simps json_quote_def parse_json_escape)
  qed
qed simp


subsection \<open>The text of an envelope\<close>

text \<open>The tree of an envelope whose body is the text of \<open>v\<close>.\<close>

definition envelope_tree :: "envelope \<Rightarrow> json \<Rightarrow> json" where
  "envelope_tree e v =
     JObj ([(''version'', JNat (en_version e)), (''kind'', JStr (en_kind e))]
       @ (if en_id e = [] then [] else [(''id'', JStr (en_id e))])
       @ [(''method'', JStr (en_method e))]
       @ (if en_requires e = [] then [] else [(''requires'', JArr (map JStr (en_requires e)))])
       @ (case en_seq e of None \<Rightarrow> [] | Some n \<Rightarrow> [(''seq'', JNat n)])
       @ [(''body'', v)])"

lemma marshal_object_cong:
  "map (\<lambda>(k, v). json_quote k @ '':'' @ json_marshal v) fs = map (\<lambda>(k, v). json_quote k @ '':'' @ json_marshal v) gs \<Longrightarrow>
     json_marshal (JObj fs) = json_marshal (JObj gs)"
  by simp

lemma marshal_envelope:
  "printable v \<Longrightarrow> en_body e = json_marshal v \<Longrightarrow> json_marshal (envelope_json e) = json_marshal (envelope_tree e v)"
  unfolding envelope_json_def envelope_tree_def
  by (rule marshal_object_cong) (simp add: marshal_raw [simplified] split: option.split)

lemma show_int_nat [simp]: "JInt (int n) = JNum (show_nat n)"
  by (simp add: JInt_def show_int_def)

lemma show_int_one [simp]: "JInt 1 = JNum (show_nat 1)"
  by (simp add: JInt_def show_int_def)

lemma number_overflows_nat: "number_overflows (show_nat n) \<longleftrightarrow> float_limit \<le> n"
proof -
  note d = show_nat_digits [of n]
  then obtain c t where ct: "show_nat n = c # t" "is_digit c" "list_all is_digit t" by (cases "show_nat n") auto
  then have m: "c \<noteq> CHR ''-''" by (auto simp: is_digit_def in_range_def)
  have all: "takeWhile is_digit (show_nat n) = show_nat n" "dropWhile is_digit (show_nat n) = []"
    using d by (auto simp: takeWhile_eq_all_conv dropWhile_eq_Nil_conv list_all_iff)
  have "\<not> prefix ''-'' (show_nat n)" using ct(1) m by simp
  then show ?thesis using d by (simp add: number_overflows_def all)
qed

lemma decode_uint_nat: "n < 2 ^ bits \<Longrightarrow> decode_uint bits old (JNum (show_nat n)) = Inr n"
  using show_nat_digits [of n] by (simp add: decode_uint_def)

lemma decode_strings: "decode_list (decode_string old) (map JStr xs) = Inr xs"
  by (induction xs) (simp_all add: decode_string_def)

lemma utf8_valid_kind: "k \<in> {KindRequest, KindResponse, KindEvent, KindError} \<Longrightarrow> utf8_valid k"
  by (auto simp: KindRequest_def KindResponse_def KindEvent_def KindError_def in_range_def intro!: utf8_valid_ascii)

lemma utf8_valid_id: "ValidMessageID i \<Longrightarrow> utf8_valid i"
proof -
  have "in_range 0 0x7F c" if "lower_hex c" for c using that by (auto simp: lower_hex_def in_range_def)
  then show "ValidMessageID i \<Longrightarrow> utf8_valid i"
    by (intro utf8_valid_ascii) (auto simp: ValidMessageID_def list_all_iff)
qed

text \<open>An envelope the writer accepts and the program makes: its body is the text of a tree.\<close>

definition sendable :: "envelope \<Rightarrow> json \<Rightarrow> bool" where
  "sendable e v \<longleftrightarrow>
     validate_envelope e = None \<and> en_body e = json_marshal v \<and> printable v \<and> nesting v < max_nesting
     \<and> utf8_valid (en_method e) \<and> list_all utf8_valid (en_requires e) \<and> (case en_seq e of None \<Rightarrow> True | Some n \<Rightarrow> n < 2 ^ 64)"

lemma sendable_strings:
  assumes "sendable e v"
  shows "en_version e = 1" "utf8_valid (en_kind e)" "utf8_valid (en_id e)" "fits SUnique v" "fits SAny v"
proof -
  from assms have valid: "validate_envelope e = None" by (simp add: sendable_def)
  then show "en_version e = 1" "utf8_valid (en_kind e)" "utf8_valid (en_id e)"
    using utf8_valid_kind [of "en_kind e"] utf8_valid_id [of "en_id e"]
    by (auto simp: validate_envelope_def Version_def split: if_splits)
  have "validateJSON (json_marshal v) = None" using valid assms by (auto simp: sendable_def validate_envelope_def split: if_splits)
  then show "fits SUnique v"
    using json_tree_marshal [of v] assms by (auto simp: sendable_def validate_document scan_document_iff split: if_splits)
  then show "fits SAny v" by (rule fits_unique_any)
qed

lemma tree_printable: "sendable e v \<Longrightarrow> printable (envelope_tree e v)"
  using sendable_strings [of e v] parse_show_nat
  by (auto simp: sendable_def envelope_tree_def utf8_valid_ascii in_range_def list_all_iff split: option.split)

lemma tree_nesting:
  assumes "sendable e v"
  shows "nesting (envelope_tree e v) \<le> max_nesting"
proof -
  have "fold max (map (nesting \<circ> JStr) xs) 0 \<le> 0" for xs unfolding fold_max_le by simp
  then have "nesting (JArr (map JStr xs)) = 1" for xs by simp
  then show ?thesis
    using assms by (auto simp: sendable_def envelope_tree_def fold_max_le max_nesting_def Suc_le_eq intro!: le_less_trans split: option.split)
qed

lemma tree_fits:
  assumes "sendable e v"
  shows "fits SUnique (envelope_tree e v)" "fits envelope_shape (envelope_tree e v)"
  using sendable_strings [OF assms] assms
  by (auto simp: sendable_def envelope_tree_def envelope_shape_def keys_ok_def list_all_iff number_overflows_nat float_limit_def
      split: option.splits)

lemma scanned:
  assumes "sendable e v" "t = json_marshal (envelope_tree e v)"
  shows "validateJSON t = None" "validateExactCase envelope_shape t = None"
    and "parse_value (parse_fuel t) max_nesting t = Some (envelope_tree e v, [])"
  using json_tree_marshal [OF tree_printable] tree_fits utf8_valid_marshal [OF tree_printable]
    reads_backD [OF marshal_reads_back [OF tree_printable] tree_nesting, of e v "[]" "parse_fuel t"] assms
  by (simp_all add: validate_document scan_document_iff parse_fuel_def)

lemma raw_body_marshal:
  assumes "sendable e v"
  shows "raw_body (json_marshal (envelope_tree e v)) = json_marshal v"
proof -
  obtain fs where fs: "envelope_tree e v = JObj fs" "fs \<noteq> []" "map_of fs ''body'' = Some v"
    by (auto simp: envelope_tree_def split: option.splits)
  have "fold max (map (\<lambda>(k, v). nesting v) fs) 0 \<le> max_nesting" using tree_nesting [OF assms] by (simp add: fs(1))
  then have ok: "\<forall>(k, w) \<in> set fs. utf8_valid k \<and> printable w \<and> nesting w \<le> max_nesting"
    using tree_printable [OF assms] unfolding fs(1) fold_max_le by (auto simp: list_all_iff)
  let ?t = "join_with '','' (map (\<lambda>(k, v). json_quote k @ '':'' @ json_marshal v) fs) @ ''}''"
  have "raw_members (parse_fuel (json_marshal (JObj fs))) max_nesting (?t @ []) = Some (map (\<lambda>(k, v). (k, json_marshal v)) fs)"
    using raw_members_marshal [OF fs(2) ok, of "[]"] by (simp add: parse_fuel_def)
  moreover have "map_of (map (\<lambda>(k, v). (k, json_marshal v)) fs) ''body'' = Some (json_marshal v)"
    using fs(3) by (simp add: map_of_map)
  ultimately show ?thesis by (simp add: raw_body_def fs(1))
qed

lemma ensureEOF_Nil [simp]: "ensureEOF [] = None"
  by (simp add: ensureEOF_def skip_ws_def)

lemma decode_envelope_tree:
  assumes "sendable e v"
  shows "decodeEnvelope (json_marshal (envelope_tree e v)) = Inr e"
proof -
  have "decode_envelope_fields (json_marshal (envelope_tree e v)) (object_members (envelope_tree e v)) = Inr e"
    using sendable_strings(1) [OF assms] raw_body_marshal [OF assms] assms
    by (cases e) (auto simp: decode_uint_nat [of 1] decode_envelope_fields_def field_def envelope_tree_def object_members_def decode_uint_nat decode_string_def
        decode_slice_def decode_strings sendable_def split: option.splits)
  then show ?thesis
    using scanned [OF assms refl] assms by (simp add: decodeEnvelope_def DecodeBody_def sendable_def)
qed

subsection \<open>Frames\<close>

lemma be_value_bytes:
  assumes "n < 2 ^ 32"
  shows "be_value (be_bytes 4 n) = n"
proof -
  have b: "be_bytes 4 n = [char_of (n div 16777216 mod 256), char_of (n div 65536 mod 256), char_of (n div 256 mod 256), char_of (n mod 256)]"
  proof -
    have "rev [0..<4] = [3, 2, 1, 0 :: nat]" by code_simp
    then show ?thesis by (simp add: be_bytes_def)
  qed
  have q: "n div 65536 = n div 256 div 256" "n div 16777216 = n div 256 div 256 div 256"
    by (simp_all add: div_mult2_eq [symmetric])
  have "n div 256 div 256 div 256 < 256" using assms by (simp add: less_mult_imp_div_less)
  moreover have "256 * (m div 256) + m mod 256 = m" for m :: nat by simp
  note this [of n] this [of "n div 256"] this [of "n div 256 div 256"]
  ultimately show ?thesis unfolding b be_value_def q by simp
qed

lemma encode_frame_sendable:
  assumes "encode_frame e = Inr (pre, body)" "en_body e = json_marshal v" "printable v" "nesting v < max_nesting"
    and "utf8_valid (en_method e)" "list_all utf8_valid (en_requires e)" "case en_seq e of None \<Rightarrow> True | Some n \<Rightarrow> n < 2 ^ 64"
  shows "sendable e v" "body = json_marshal (envelope_tree e v)" "pre = be_bytes 4 (length body)" "body \<noteq> []" "length body \<le> MaxFrameBytes"
  using assms marshal_envelope [of v e]
  by (auto simp: encode_frame_def sendable_def rbind_Inr Let_def split: if_splits)


definition demo_envelope :: envelope where
  "demo_envelope =
     \<lparr>en_version = 1, en_kind = KindRequest, en_id = replicate 32 CHR ''a'', en_method = ''note'', en_requires = [''x''],
      en_seq = Some 7, en_body = ''{}''\<rparr>"

lemma json_valid_marshal: "printable v \<Longrightarrow> nesting v \<le> max_nesting \<Longrightarrow> json_valid (json_marshal v)"
  using reads_backD [OF marshal_reads_back, of v max_nesting "[]" "parse_fuel (json_marshal v)"]
  by (simp add: json_valid_def json_parse_def parse_fuel_def skip_ws_def)

lemma demo_envelope_frame:
  "encode_frame demo_envelope =
     Inr (be_bytes 4 (length (json_marshal (envelope_json demo_envelope))), json_marshal (envelope_json demo_envelope))"
  "length (json_marshal (envelope_json demo_envelope)) \<le> 200"
proof -
  have v: "validate_envelope demo_envelope = None" by code_simp
  have b: "json_valid (en_body demo_envelope)"
    using json_valid_marshal [of "JObj []"] by (simp add: demo_envelope_def max_nesting_def)
  show l: "length (json_marshal (envelope_json demo_envelope)) \<le> 200" by code_simp
  have "json_marshal (envelope_json demo_envelope) \<noteq> []" by (simp add: envelope_json_def)
  with v b l show "encode_frame demo_envelope =
     Inr (be_bytes 4 (length (json_marshal (envelope_json demo_envelope))), json_marshal (envelope_json demo_envelope))"
    by (simp add: encode_frame_def Let_def MaxFrameBytes_def)
qed


lemma writeFull_sent: "writeFull dst body = (r, sent, d) \<Longrightarrow> prefix sent body \<and> (r = None \<longrightarrow> sent = body)"
proof (induction dst body arbitrary: r sent d rule: writeFull.induct)
  case (1 dst body)
  show ?case
  proof (cases "body = [] \<or> dst = []")
    case True
    with 1(2) show ?thesis by (subst (asm) writeFull.simps) (auto split: if_splits)
  next
    case False
    then obtain n failed rest where dst: "dst = (n, failed) # rest" by (cases dst) auto
    show ?thesis
    proof (cases "n \<le> 0 \<or> int (length body) < n \<or> failed")
      case True
      with 1(2) False dst show ?thesis by (subst (asm) writeFull.simps) (auto simp: take_is_prefix split: if_splits)
    next
      case ok: False
      obtain e s1 d1 where rec: "writeFull rest (drop (nat n) body) = (e, s1, d1)" by (cases "writeFull rest (drop (nat n) body)")
      with 1(1) [of "(n, failed)" rest n failed] False dst ok
      have "prefix s1 (drop (nat n) body) \<and> (e = None \<longrightarrow> s1 = drop (nat n) body)" by simp
      then have "prefix (take (nat n) body @ s1) (take (nat n) body @ drop (nat n) body)"
        "e = None \<longrightarrow> take (nat n) body @ s1 = take (nat n) body @ drop (nat n) body" by (simp only: same_prefix_prefix, simp)
      moreover have "r = e" "sent = take (nat n) body @ s1"
        using 1(2) False dst ok rec by (subst (asm) writeFull.simps, simp)+
      ultimately show ?thesis unfolding append_take_drop_id by simp
    qed
  qed
qed

text \<open>
  A frame is sent whole or its writer reports an error: whatever short writes, zero writes and
  failures the destination answers with, a \<^verbatim>\<open>Write\<close> that returns no error delivered the length
  and the body exactly once, and one that returns an error delivered at most a beginning of them,
  nothing at all when the envelope itself was refused.
\<close>

theorem write_whole_frame_or_error:
  "case Write dst e of (r, sent, rest) \<Rightarrow>
     (case encode_frame e of
        Inl x \<Rightarrow> r = Some x \<and> sent = [] \<and> rest = dst
      | Inr (pre, body) \<Rightarrow> if r = None then sent = pre @ body else prefix sent (pre @ body))"
proof (cases "encode_frame e")
  case (Inl x)
  then show ?thesis by (simp add: Write_def)
next
  case (Inr f)
  obtain pre body where f: "f = (pre, body)" by (cases f)
  obtain r1 s1 d1 where 1: "writeFull dst pre = (r1, s1, d1)" by (cases "writeFull dst pre")
  obtain r2 s2 d2 where 2: "writeFull d1 body = (r2, s2, d2)" by (cases "writeFull d1 body")
  from writeFull_sent [OF 1] writeFull_sent [OF 2] Inr f 1 2 show ?thesis
    by (cases r1) (auto simp: Write_def)
qed

end
