(* ===== verification/Wire_Messages.thy ===== *)
theory Wire_Messages
  imports Wire_Roundtrip
begin

text \<open>
  The bodies of the room protocol (\<^verbatim>\<open>internal/protocol/messages.go\<close>): one record per Go type with
  its shape, decoder and validation, so that \<open>DecodeBody\<close> at the type is \<open>decode_hello\<close> and so
  on; and the handshake that must come first on a connection.
\<close>

subsection \<open>Handshake bodies\<close>

record hello =
  h_min_version :: nat
  h_max_version :: nat
  h_last_applied :: seqno

definition validate_hello :: "hello \<Rightarrow> wire_error option" where
  "validate_hello h = (if h_min_version h = 0 \<or> h_max_version h < h_min_version h then Some ErrInvalidHello else None)"

definition hello_fields :: "(string \<times> json) list \<Rightarrow> wire_error + hello" where
  "hello_fields fs =
     rbind (field fs ''minVersion'' (decode_uint 16 0)) (\<lambda>lo.
     rbind (field fs ''maxVersion'' (decode_uint 16 0)) (\<lambda>hi.
     rbind (field fs ''lastAppliedSeq'' (decode_uint 64 0)) (\<lambda>sq.
       Inr \<lparr>h_min_version = lo, h_max_version = hi, h_last_applied = sq\<rparr>)))"

definition decode_hello :: "bytes \<Rightarrow> wire_error + hello" where
  "decode_hello = DecodeBody (SStruct [(''minVersion'', SAny), (''maxVersion'', SAny), (''lastAppliedSeq'', SAny)])
     hello_fields validate_hello"

record welcome_body =
  w_room_id :: room_id
  w_room_name :: string
  w_project_root :: string
  w_execution_owner :: string
  w_full_owner_access :: bool
  w_active_turn_id :: turn_id
  w_latest_seq :: seqno

definition validate_welcome :: "welcome_body \<Rightarrow> wire_error option" where
  "validate_welcome w =
     (if blank (w_room_id w) \<or> blank (w_room_name w) \<or> blank (w_project_root w) \<or> blank (w_execution_owner w)
      then Some ErrInvalidWelcome else None)"

definition welcome_json :: "welcome_body \<Rightarrow> json" where
  "welcome_json w =
     JObj ([(''roomId'', JStr (w_room_id w)), (''roomName'', JStr (w_room_name w)), (''projectRoot'', JStr (w_project_root w)),
            (''executionOwner'', JStr (w_execution_owner w)), (''fullOwnerAccess'', JBool (w_full_owner_access w))]
       @ (if w_active_turn_id w = [] then [] else [(''activeTurnId'', JStr (w_active_turn_id w))])
       @ [(''latestSeq'', JNat (w_latest_seq w))])"

definition welcome_fields :: "(string \<times> json) list \<Rightarrow> wire_error + welcome_body" where
  "welcome_fields fs =
     rbind (field fs ''roomId'' (decode_string [])) (\<lambda>rid.
     rbind (field fs ''roomName'' (decode_string [])) (\<lambda>name.
     rbind (field fs ''projectRoot'' (decode_string [])) (\<lambda>root.
     rbind (field fs ''executionOwner'' (decode_string [])) (\<lambda>owner.
     rbind (field fs ''fullOwnerAccess'' (decode_bool False)) (\<lambda>full.
     rbind (field fs ''activeTurnId'' (decode_string [])) (\<lambda>turn.
     rbind (field fs ''latestSeq'' (decode_uint 64 0)) (\<lambda>sq.
       Inr \<lparr>w_room_id = rid, w_room_name = name, w_project_root = root, w_execution_owner = owner,
            w_full_owner_access = full, w_active_turn_id = turn, w_latest_seq = sq\<rparr>)))))))"

definition decode_welcome :: "bytes \<Rightarrow> wire_error + welcome_body" where
  "decode_welcome = DecodeBody
     (SStruct [(''roomId'', SAny), (''roomName'', SAny), (''projectRoot'', SAny), (''executionOwner'', SAny),
               (''fullOwnerAccess'', SAny), (''activeTurnId'', SAny), (''latestSeq'', SAny)])
     welcome_fields validate_welcome"

subsection \<open>Requests\<close>

text \<open>
  A request has the fields of the input of the room it becomes, and \<^verbatim>\<open>Validate\<close> is the validation
  of that input; the record of the input serves for both.
\<close>

definition input_error :: "err option \<Rightarrow> wire_error option" where
  "input_error e = map_option ErrInput e"

definition submit_fields :: "(string \<times> json) list \<Rightarrow> wire_error + submit_input" where
  "submit_fields fs =
     rbind (field fs ''taskId'' (decode_int64 0)) (\<lambda>task.
     rbind (field fs ''clientMessageId'' (decode_string [])) (\<lambda>cid.
     rbind (field fs ''text'' (decode_string [])) (\<lambda>txt.
       Inr \<lparr>si_task_id = task, si_client_message_id = cid, si_text = txt\<rparr>)))"

definition decode_submit :: "bytes \<Rightarrow> wire_error + submit_input" where
  "decode_submit = DecodeBody (SStruct [(''taskId'', SAny), (''clientMessageId'', SAny), (''text'', SAny)])
     submit_fields (\<lambda>i. input_error (validate_submit i))"

definition steer_fields :: "(string \<times> json) list \<Rightarrow> wire_error + steer_input" where
  "steer_fields fs =
     rbind (field fs ''clientMessageId'' (decode_string [])) (\<lambda>cid.
     rbind (field fs ''expectedTurnId'' (decode_string [])) (\<lambda>turn.
     rbind (field fs ''text'' (decode_string [])) (\<lambda>txt.
       Inr \<lparr>st_client_message_id = cid, st_expected_turn_id = turn, st_text = txt\<rparr>)))"

definition decode_steer :: "bytes \<Rightarrow> wire_error + steer_input" where
  "decode_steer = DecodeBody (SStruct [(''clientMessageId'', SAny), (''expectedTurnId'', SAny), (''text'', SAny)])
     steer_fields (\<lambda>i. input_error (validate_steer i))"

definition cancel_fields :: "(string \<times> json) list \<Rightarrow> wire_error + cancel_input" where
  "cancel_fields fs =
     rbind (field fs ''clientMessageId'' (decode_string [])) (\<lambda>cid.
     rbind (field fs ''expectedTurnId'' (decode_string [])) (\<lambda>turn.
       Inr \<lparr>ca_client_message_id = cid, ca_expected_turn_id = turn\<rparr>))"

definition decode_cancel :: "bytes \<Rightarrow> wire_error + cancel_input" where
  "decode_cancel = DecodeBody (SStruct [(''clientMessageId'', SAny), (''expectedTurnId'', SAny)])
     cancel_fields (\<lambda>i. input_error (validate_cancel i))"

definition recovery_action_of :: "string \<Rightarrow> recovery_action" where
  "recovery_action_of s =
     (if s = ''retry'' then RecoveryRetry else if s = ''skip'' then RecoverySkip
      else if s = ''continue'' then RecoveryContinue else RecoveryOther s)"

definition recover_fields :: "(string \<times> json) list \<Rightarrow> wire_error + recover_input" where
  "recover_fields fs =
     rbind (field fs ''clientMessageId'' (decode_string [])) (\<lambda>cid.
     rbind (field fs ''targetMessageId'' (decode_string [])) (\<lambda>target.
     rbind (field fs ''action'' (decode_string [])) (\<lambda>action.
     rbind (field fs ''replacementMessageId'' (decode_string [])) (\<lambda>repl.
     rbind (field fs ''instruction'' (decode_string [])) (\<lambda>ins.
       Inr \<lparr>ri_client_message_id = cid, ri_target_message_id = target, ri_action = recovery_action_of action,
            ri_replacement_message_id = repl, ri_instruction = ins\<rparr>)))))"

definition decode_recover :: "bytes \<Rightarrow> wire_error + recover_input" where
  "decode_recover = DecodeBody
     (SStruct [(''clientMessageId'', SAny), (''targetMessageId'', SAny), (''action'', SAny), (''replacementMessageId'', SAny),
               (''instruction'', SAny)])
     recover_fields (\<lambda>i. input_error (validate_recover i))"

definition decode_ack :: "bytes \<Rightarrow> wire_error + seqno" where
  "decode_ack = DecodeBody (SStruct [(''seq'', SAny)]) (\<lambda>fs. field fs ''seq'' (decode_uint 64 0)) (\<lambda>_. None)"

definition decode_heartbeat :: "bytes \<Rightarrow> wire_error + int" where
  "decode_heartbeat = DecodeBody (SStruct [(''unixMilli'', SAny)]) (\<lambda>fs. field fs ''unixMilli'' (decode_int64 0)) (\<lambda>_. None)"

definition decode_empty :: "bytes \<Rightarrow> wire_error + unit" where
  "decode_empty = DecodeBody (SStruct []) (\<lambda>fs. Inr ()) (\<lambda>_. None)"

subsection \<open>The snapshot sent after a replay\<close>

record wire_item =
  wi_thread_id :: thread_id
  wi_turn_id :: turn_id
  wi_item_id :: item_id
  wi_partial :: string

record runtime_snapshot =
  rs_truncated :: bool
  rs_revision :: nat
  rs_watermark :: seqno
  rs_live_items :: "wire_item list"
  rs_active_turn_id :: turn_id

definition wire_item_json :: "wire_item \<Rightarrow> json" where
  "wire_item_json i =
     JObj [(''threadId'', JStr (wi_thread_id i)), (''turnId'', JStr (wi_turn_id i)), (''itemId'', JStr (wi_item_id i)),
           (''partial'', JStr (wi_partial i))]"

definition runtime_snapshot_json :: "runtime_snapshot \<Rightarrow> json" where
  "runtime_snapshot_json s =
     JObj [(''projectionTruncated'', JBool (rs_truncated s)), (''projectionRevision'', JNat (rs_revision s)),
           (''durableWatermark'', JNat (rs_watermark s)), (''liveItems'', JArr (map wire_item_json (rs_live_items s))),
           (''activeTurnId'', JStr (rs_active_turn_id s))]"

definition wire_item_fields :: "json \<Rightarrow> wire_error + wire_item" where
  "wire_item_fields v =
     (case v of
        JObj fs \<Rightarrow>
          rbind (field fs ''threadId'' (decode_string [])) (\<lambda>thread.
          rbind (field fs ''turnId'' (decode_string [])) (\<lambda>turn.
          rbind (field fs ''itemId'' (decode_string [])) (\<lambda>item.
          rbind (field fs ''partial'' (decode_string [])) (\<lambda>part.
            Inr \<lparr>wi_thread_id = thread, wi_turn_id = turn, wi_item_id = item, wi_partial = part\<rparr>))))
      | JNull \<Rightarrow> Inr \<lparr>wi_thread_id = [], wi_turn_id = [], wi_item_id = [], wi_partial = []\<rparr>
      | _ \<Rightarrow> Inl ErrJson)"

definition wire_item_shape :: shape where
  "wire_item_shape = SStruct [(''threadId'', SAny), (''turnId'', SAny), (''itemId'', SAny), (''partial'', SAny)]"

definition runtime_snapshot_shape :: shape where
  "runtime_snapshot_shape =
     SStruct [(''projectionTruncated'', SAny), (''projectionRevision'', SAny), (''durableWatermark'', SAny),
              (''liveItems'', SList wire_item_shape), (''activeTurnId'', SAny)]"

definition runtime_snapshot_fields :: "(string \<times> json) list \<Rightarrow> wire_error + runtime_snapshot" where
  "runtime_snapshot_fields fs =
     rbind (field fs ''projectionTruncated'' (decode_bool False)) (\<lambda>truncated.
     rbind (field fs ''projectionRevision'' (decode_uint 64 0)) (\<lambda>rev.
     rbind (field fs ''durableWatermark'' (decode_uint 64 0)) (\<lambda>mark.
     rbind (field fs ''liveItems'' (decode_slice wire_item_fields)) (\<lambda>items.
     rbind (field fs ''activeTurnId'' (decode_string [])) (\<lambda>turn.
       Inr \<lparr>rs_truncated = truncated, rs_revision = rev, rs_watermark = mark, rs_live_items = items, rs_active_turn_id = turn\<rparr>)))))"

definition decode_runtime_snapshot :: "bytes \<Rightarrow> wire_error + runtime_snapshot" where
  "decode_runtime_snapshot = DecodeBody runtime_snapshot_shape runtime_snapshot_fields (\<lambda>_. None)"

subsection \<open>Handshake\<close>

record handshake_state =
  hs_capabilities :: "string list"
  hs_complete :: bool

definition NewHandshakeState :: "string list \<Rightarrow> handshake_state" where
  "NewHandshakeState caps = \<lparr>hs_capabilities = caps, hs_complete = False\<rparr>"

definition Accept :: "handshake_state \<Rightarrow> envelope \<Rightarrow> wire_error option \<times> handshake_state" where
  "Accept st e =
     (case validate_envelope e of
        Some x \<Rightarrow> (Some x, st)
      | None \<Rightarrow>
          if \<not> hs_complete st then
            (if en_kind e \<noteq> KindRequest \<or> en_method e \<noteq> ''hello'' then (Some ErrHandshakeRequired, st)
             else if list_ex (\<lambda>c. c \<notin> set (hs_capabilities st)) (en_requires e) then (Some ErrUnsupportedCapability, st)
             else (case decode_hello (en_body e) of
                Inl x \<Rightarrow> (Some x, st)
              | Inr h \<Rightarrow>
                  (case validate_hello h of
                     Some x \<Rightarrow> (Some x, st)
                   | None \<Rightarrow>
                       if Version < h_min_version h \<or> h_max_version h < Version then (Some ErrUnsupportedVersion, st)
                       else (None, st\<lparr>hs_complete := True\<rparr>))))
          else if en_kind e = KindRequest \<and> en_method e = ''hello'' then (Some ErrHandshakeAlreadyComplete, st)
          else (None, st))"

text \<open>The errors of a sequence of envelopes, each accepted in the state the last one left.\<close>

fun accept_all :: "handshake_state \<Rightarrow> envelope list \<Rightarrow> wire_error option list \<times> handshake_state" where
  "accept_all st [] = ([], st)"
| "accept_all st (e # es) =
     (case Accept st e of (r, st') \<Rightarrow> (case accept_all st' es of (rs, st'') \<Rightarrow> (r # rs, st'')))"

definition is_hello :: "envelope \<Rightarrow> bool" where
  "is_hello e \<longleftrightarrow> en_kind e = KindRequest \<and> en_method e = ''hello''"

lemma Accept_cases:
  assumes "Accept st e = (r, st')"
  shows "if r = None
    then (if hs_complete st then st' = st \<and> \<not> is_hello e else is_hello e \<and> st' = st\<lparr>hs_complete := True\<rparr>)
    else st' = st"
  using assms by (auto simp: Accept_def is_hello_def split: option.splits if_splits sum.splits)

lemma accept_all_complete:
  "hs_complete st \<Longrightarrow> accept_all st es = (rs, st') \<Longrightarrow> st' = st \<and> (\<forall>(e, r) \<in> set (zip es rs). r = None \<longrightarrow> \<not> is_hello e)"
proof (induction es arbitrary: st rs)
  case (Cons e es)
  then obtain r s1 rs1 where 1: "Accept st e = (r, s1)" "accept_all s1 es = (rs1, st')" "rs = r # rs1"
    by (auto split: prod.splits)
  with Accept_cases [OF 1(1)] Cons.prems(1) have "s1 = st" "r = None \<longrightarrow> \<not> is_hello e" by (auto split: if_splits)
  with Cons.IH [OF Cons.prems(1)] 1 show ?case by fastforce
qed simp

text \<open>
  On every connection at most one greeting is accepted, it is the first envelope accepted at
  all, and the handshake is complete exactly when there was one: whatever the peer sends, nothing
  is accepted before the greeting and no second one afterwards.
\<close>

theorem handshake_first_and_once:
  "let (rs, st) = accept_all (NewHandshakeState caps) es in
     (case filter (\<lambda>(e, r). r = None) (zip es rs) of
        [] \<Rightarrow> \<not> hs_complete st
      | (e, _) # later \<Rightarrow> hs_complete st \<and> is_hello e \<and> list_all (\<lambda>(e, _). \<not> is_hello e) later)"
proof -
  have "case accept_all st es of (rs, st') \<Rightarrow>
     (case filter (\<lambda>(e, r). r = None) (zip es rs) of
        [] \<Rightarrow> \<not> hs_complete st'
      | (e, _) # later \<Rightarrow> hs_complete st' \<and> is_hello e \<and> list_all (\<lambda>(e, _). \<not> is_hello e) later)"
    if "\<not> hs_complete st" for st
    using that
  proof (induction es arbitrary: st)
    case (Cons e es)
    obtain r s1 where 1: "Accept st e = (r, s1)" by (cases "Accept st e")
    obtain rs st' where 2: "accept_all s1 es = (rs, st')" by (cases "accept_all s1 es")
    show ?case
    proof (cases r)
      case None
      with Accept_cases [OF 1] Cons.prems have "is_hello e" "hs_complete s1" by simp_all
      with accept_all_complete [OF _ 2] 1 2 None show ?thesis by (auto simp: list_all_iff)
    next
      case (Some x)
      with Accept_cases [OF 1] Cons.prems have "s1 = st" by simp
      with Cons.IH [OF Cons.prems] 1 2 Some show ?thesis by simp
    qed
  qed simp
  then show ?thesis by (simp add: NewHandshakeState_def)
qed

end
