(* ===== verification/Hub.thy ===== *)
theory Hub
  imports Coordinator
begin

text \<open>
  The event hub of the daemon (\<^verbatim>\<open>internal/daemon/hub.go\<close>): every subscriber of a room has a
  bounded queue; a subscriber that does not keep up is closed, never skipped. A subscription is a
  record, the channel of its events a list. The size of a broadcast is the length of its JSON,
  which includes the time of a durable event as \<^verbatim>\<open>time.Time\<close> prints it.
\<close>

subsection \<open>Times as text\<close>

text \<open>The civil date of a day, counted from 1 January of year 1 in the Gregorian calendar.\<close>

definition leap_year :: "int \<Rightarrow> bool" where
  "leap_year y \<longleftrightarrow> y mod 4 = 0 \<and> (y mod 100 \<noteq> 0 \<or> y mod 400 = 0)"

definition month_lengths :: "int \<Rightarrow> int list" where
  "month_lengths y = [31, if leap_year y then 29 else 28, 31, 30, 31, 30, 31, 31, 30, 31, 30, 31]"

fun month_and_day :: "int \<Rightarrow> int list \<Rightarrow> int \<Rightarrow> int \<times> int" where
  "month_and_day m [] d = (m, d + 1)"
| "month_and_day m (l # ls) d = (if d < l then (m, d + 1) else month_and_day (m + 1) ls (d - l))"

definition civil_date :: "int \<Rightarrow> int \<times> int \<times> int" where
  "civil_date days =
     (let n400 = days div 146097; r400 = days mod 146097;
          n100 = min 3 (r400 div 36524); r100 = r400 - n100 * 36524;
          n4 = r100 div 1461; r4 = r100 mod 1461;
          n1 = min 3 (r4 div 365); doy = r4 - n1 * 365;
          y = 400 * n400 + 100 * n100 + 4 * n4 + n1 + 1
      in case month_and_day 1 (month_lengths y) doy of (m, d) \<Rightarrow> (y, m, d))"

definition pad :: "nat \<Rightarrow> int \<Rightarrow> string" where
  "pad n i = (let s = show_nat (nat i) in replicate (n - length s) CHR ''0'' @ s)"

definition trim_zeros :: "string \<Rightarrow> string" where
  "trim_zeros s = rev (dropWhile (\<lambda>c. c = CHR ''0'') (rev s))"

definition time_text :: "instant \<Rightarrow> string" where
  "time_text t =
     (let days = t div 86400000000000; ns = t mod 86400000000000; s = ns div 1000000000; f = ns mod 1000000000 in
      case civil_date days of (y, m, d) \<Rightarrow>
        pad 4 y @ ''-'' @ pad 2 m @ ''-'' @ pad 2 d @ ''T'' @ pad 2 (s div 3600) @ '':'' @ pad 2 (s div 60 mod 60) @ '':''
        @ pad 2 (s mod 60) @ (if f = 0 then [] else ''.'' @ trim_zeros (pad 9 f)) @ ''Z'')"

subsection \<open>Broadcasts\<close>

definition durable_event_json :: "durable_event \<Rightarrow> json" where
  "durable_event_json e =
     JObj [(''Seq'', JNat (de_seq e)), (''Kind'', JStr (de_kind e)), (''ActorUID'', JNat (de_actor_uid e)),
           (''Payload'', de_payload e), (''CreatedAt'', JStr (time_text (de_created_at e)))]"

definition transient_event_json :: "transient_event \<Rightarrow> json" where
  "transient_event_json e =
     JObj [(''Revision'', JNat (te_revision e)), (''Kind'', JStr (te_kind e)), (''ThreadID'', JStr (te_thread_id e)),
           (''TurnID'', JStr (te_turn_id e)), (''ItemID'', JStr (te_item_id e)), (''Delta'', JStr (te_delta e))]"

definition broadcast_json :: "published \<Rightarrow> json" where
  "broadcast_json b =
     (case b of
        PubDurable e \<Rightarrow> JObj [(''Durable'', durable_event_json e), (''Transient'', JNull)]
      | PubTransient e \<Rightarrow> JObj [(''Durable'', JNull), (''Transient'', transient_event_json e)])"

definition broadcast_size :: "published \<Rightarrow> nat" where
  "broadcast_size b = length (json_marshal (broadcast_json b))"

subsection \<open>Subscriptions\<close>

record subscription =
  su_actor :: actor
  su_events :: "published list"
  su_closed :: bool
  su_sizes :: "nat list"
  su_bytes :: nat

record hub =
  hu_max_events :: nat
  hu_max_bytes :: nat
  hu_subs :: "(nat \<times> subscription) list"

definition NewHub :: "int \<Rightarrow> int \<Rightarrow> hub" where
  "NewHub max_events max_bytes =
     \<lparr>hu_max_events = (if max_events \<le> 0 \<or> 256 < max_events then 256 else nat max_events),
      hu_max_bytes = (if max_bytes \<le> 0 \<or> 16 * 2 ^ 20 < max_bytes then 16 * 2 ^ 20 else nat max_bytes),
      hu_subs = []\<rparr>"

definition find_sub :: "nat \<Rightarrow> hub \<Rightarrow> subscription option" where
  "find_sub i h = map_of (hu_subs h) i"

definition update_sub :: "nat \<Rightarrow> (subscription \<Rightarrow> subscription) \<Rightarrow> hub \<Rightarrow> hub" where
  "update_sub i f h = h\<lparr>hu_subs := map (\<lambda>(j, s). if j = i then (j, f s) else (j, s)) (hu_subs h)\<rparr>"

text \<open>A subscription is named by its age; the session keeps it after the hub dropped it.\<close>

definition Subscribe :: "actor \<Rightarrow> hub \<Rightarrow> nat \<times> hub" where
  "Subscribe a h =
     (length (hu_subs h),
      h\<lparr>hu_subs := hu_subs h @
        [(length (hu_subs h), \<lparr>su_actor = a, su_events = [], su_closed = False, su_sizes = [], su_bytes = 0\<rparr>)]\<rparr>)"

definition closeLocked :: "subscription \<Rightarrow> subscription" where
  "closeLocked s = (if su_closed s then s else s\<lparr>su_closed := True, su_sizes := [], su_bytes := 0\<rparr>)"

definition Close :: "nat \<Rightarrow> hub \<Rightarrow> hub" where
  "Close i h = update_sub i closeLocked h"

text \<open>
  One subscriber of \<^verbatim>\<open>publish\<close>: what was received since the last time is no longer counted, then
  the broadcast is queued or the subscription closed.
\<close>

definition offer :: "nat \<Rightarrow> nat \<Rightarrow> published \<Rightarrow> subscription \<Rightarrow> subscription" where
  "offer max_events max_bytes b s =
     (if su_closed s then s
      else let consumed = length (su_sizes s) - length (su_events s);
               bytes = su_bytes s - sum_list (take consumed (su_sizes s));
               s1 = s\<lparr>su_bytes := bytes, su_sizes := drop consumed (su_sizes s)\<rparr>
           in if max_events \<le> length (su_events s) \<or> max_bytes < bytes + broadcast_size b then closeLocked s1
              else s1\<lparr>su_events := su_events s1 @ [b], su_sizes := su_sizes s1 @ [broadcast_size b],
                      su_bytes := bytes + broadcast_size b\<rparr>)"

definition hub_publish :: "published \<Rightarrow> hub \<Rightarrow> hub" where
  "hub_publish b h = h\<lparr>hu_subs := map (\<lambda>(i, s). (i, offer (hu_max_events h) (hu_max_bytes h) b s)) (hu_subs h)\<rparr>"

text \<open>The session takes the next event off its channel, which outlives the closing.\<close>

definition receive :: "nat \<Rightarrow> hub \<Rightarrow> published option \<times> hub" where
  "receive i h =
     (case find_sub i h of
        None \<Rightarrow> (None, h)
      | Some s \<Rightarrow>
          (case su_events s of
             [] \<Rightarrow> (None, h)
           | b # rest \<Rightarrow> (Some b, update_sub i (\<lambda>s. s\<lparr>su_events := rest\<rparr>) h)))"

definition hub_Members :: "hub \<Rightarrow> actor list" where
  "hub_Members h =
     (let open_actors = map (\<lambda>(_, s). su_actor s) (filter (\<lambda>(_, s). \<not> su_closed s) (hu_subs h));
          uids = sorted_list_of_set (set (map actor_uid open_actors))
      in map (\<lambda>u. the (find (\<lambda>a. actor_uid a = u) (rev open_actors))) uids)"

subsection \<open>The bound of the queues\<close>

definition wf_sub :: "nat \<Rightarrow> nat \<Rightarrow> subscription \<Rightarrow> bool" where
  "wf_sub max_events max_bytes s \<longleftrightarrow>
     length (su_events s) \<le> max_events \<and> sum_list (map broadcast_size (su_events s)) \<le> max_bytes
     \<and> (\<not> su_closed s \<longrightarrow>
          su_bytes s = sum_list (su_sizes s) \<and> length (su_events s) \<le> length (su_sizes s)
          \<and> drop (length (su_sizes s) - length (su_events s)) (su_sizes s) = map broadcast_size (su_events s))"

definition wf_hub :: "hub \<Rightarrow> bool" where
  "wf_hub h \<longleftrightarrow> map fst (hu_subs h) = [0..<length (hu_subs h)]
     \<and> list_all (\<lambda>(_, s). wf_sub (hu_max_events h) (hu_max_bytes h) s) (hu_subs h)"

lemma offer_wf: "wf_sub me mb s \<Longrightarrow> wf_sub me mb (offer me mb b s)"
proof (cases "su_closed s")
  case False
  let ?c = "length (su_sizes s) - length (su_events s)"
  assume wf: "wf_sub me mb s"
  from wf False have sizes: "drop ?c (su_sizes s) = map broadcast_size (su_events s)" and bytes: "su_bytes s = sum_list (su_sizes s)"
    by (simp_all add: wf_sub_def)
  have "su_bytes s - sum_list (take ?c (su_sizes s)) = sum_list (map broadcast_size (su_events s))"
    unfolding bytes sizes [symmetric] by (metis add_diff_cancel_left' append_take_drop_id sum_list_append)
  with wf False sizes show ?thesis by (simp add: wf_sub_def offer_def Let_def closeLocked_def)
qed (simp add: offer_def)

inductive hub_step :: "hub \<Rightarrow> hub \<Rightarrow> bool" where
  subscribed: "hub_step h (snd (Subscribe a h))"
| closed: "hub_step h (Close i h)"
| published: "hub_step h (hub_publish b h)"
| received: "hub_step h (snd (receive i h))"

lemma wf_hub_update:
  assumes "wf_hub h" "\<And>s. wf_sub (hu_max_events h) (hu_max_bytes h) s \<Longrightarrow> wf_sub (hu_max_events h) (hu_max_bytes h) (f s)"
  shows "wf_hub (update_sub i f h)"
proof -
  have "map fst (map (\<lambda>(j, s). if j = i then (j, f s) else (j, s)) xs) = map fst xs" for xs by (induction xs) auto
  with assms show ?thesis by (auto simp: wf_hub_def update_sub_def list_all_iff simp del: map_map split: if_splits)
qed

lemma hub_step_wf: "hub_step h h' \<Longrightarrow> wf_hub h \<Longrightarrow> wf_hub h'"
proof (induction rule: hub_step.induct)
  case (subscribed h a)
  then show ?case by (simp add: wf_hub_def Subscribe_def wf_sub_def)
next
  case (closed h i)
  then show ?case unfolding Close_def by (rule wf_hub_update) (simp add: closeLocked_def wf_sub_def)
next
  case (published h b)
  have "map fst (map (\<lambda>(i, s). (i, g s)) xs) = map fst xs" for g :: "subscription \<Rightarrow> subscription" and xs :: "(nat \<times> subscription) list"
    by (induction xs) auto
  with published show ?case by (auto simp: wf_hub_def hub_publish_def list_all_iff offer_wf simp del: map_map)
next
  case (received h i)
  show ?case
  proof (cases "find_sub i h")
    case (Some s)
    show ?thesis
    proof (cases "su_events s")
      case (Cons b rest)
      have "wf_hub (update_sub i (\<lambda>t. t\<lparr>su_events := rest\<rparr>) h)"
      proof -
        have mem: "(i, s) \<in> set (hu_subs h)" using Some by (simp add: find_sub_def map_of_SomeD)
        have dist: "distinct (map fst (hu_subs h))" using received by (simp add: wf_hub_def)
        have ws: "wf_sub (hu_max_events h) (hu_max_bytes h) s" using received mem by (auto simp: wf_hub_def list_all_iff)
        have "wf_sub (hu_max_events h) (hu_max_bytes h) (s\<lparr>su_events := rest\<rparr>)"
        proof -
          have "drop (n - m) xs = tl (drop (n - Suc m) xs)" if "Suc m \<le> n" for n m and xs :: "nat list"
            using that by (simp add: Suc_diff_Suc [symmetric] drop_Suc drop_tl del: Suc_diff_Suc) 
          with ws Cons show ?thesis by (auto simp: wf_sub_def)
        qed
        moreover have "t = s" if "(i, t) \<in> set (hu_subs h)" for t
          using that mem dist by (metis eq_key_imp_eq_value)
        moreover have "map fst (map (\<lambda>(j, t). if j = i then (j, t\<lparr>su_events := rest\<rparr>) else (j, t)) xs) = map fst xs"
          for xs :: "(nat \<times> subscription) list" by (induction xs) auto
        ultimately show ?thesis using received by (auto simp: wf_hub_def update_sub_def list_all_iff simp del: map_map split: if_splits)
      qed
      with Some Cons show ?thesis by (simp add: receive_def)
    qed (use received Some in \<open>simp add: receive_def\<close>)
  qed (use received in \<open>simp add: receive_def\<close>)
qed


text \<open>What a subscriber was given and what is waiting for it.\<close>

record delivery =
  dl_hub :: hub
  dl_given :: "published list"
  dl_since :: "published list"

text \<open>
  The life of one subscription: \<open>dl_since\<close> is everything published since it was made,
  \<open>dl_given\<close> what its session took off the channel.
\<close>

inductive delivered :: "nat \<Rightarrow> delivery \<Rightarrow> delivery \<Rightarrow> bool" for i where
  subscribe: "delivered i d (d\<lparr>dl_hub := snd (Subscribe a (dl_hub d))\<rparr>)"
| close: "delivered i d (d\<lparr>dl_hub := Close j (dl_hub d)\<rparr>)"
| publish: "delivered i d (d\<lparr>dl_hub := hub_publish b (dl_hub d), dl_since := dl_since d @ [b]\<rparr>)"
| take_other: "j \<noteq> i \<Longrightarrow> delivered i d (d\<lparr>dl_hub := snd (receive j (dl_hub d))\<rparr>)"
| take_event: "receive i (dl_hub d) = (Some b, h) \<Longrightarrow> delivered i d (d\<lparr>dl_hub := h, dl_given := dl_given d @ [b]\<rparr>)"

lemma map_of_update:
  "map_of (map (\<lambda>(j, s). if j = i then (j, f s) else (j, s)) xs) k
     = (if k = i then map_option f (map_of xs k) else map_of xs k)"
  by (induction xs) auto

lemma find_sub_update: "find_sub k (update_sub i f h) = (if k = i then map_option f (find_sub k h) else find_sub k h)"
  by (simp add: find_sub_def update_sub_def map_of_update)

lemma find_sub_publish: "find_sub k (hub_publish b h) = map_option (offer (hu_max_events h) (hu_max_bytes h) b) (find_sub k h)"
  by (simp add: find_sub_def hub_publish_def map_of_map)

lemma find_sub_Subscribe: "find_sub k h = Some s \<Longrightarrow> find_sub k (snd (Subscribe a h)) = Some s"
  by (simp add: find_sub_def Subscribe_def map_add_def)

lemma hub_limits [simp]:
  "hu_max_events (update_sub i f h) = hu_max_events h" "hu_max_bytes (update_sub i f h) = hu_max_bytes h"
  "hu_max_events (hub_publish b h) = hu_max_events h" "hu_max_bytes (hub_publish b h) = hu_max_bytes h"
  by (simp_all add: update_sub_def hub_publish_def)

lemma hub_limits_step: "hub_step h h' \<Longrightarrow> hu_max_events h' = hu_max_events h \<and> hu_max_bytes h' = hu_max_bytes h"
  by (erule hub_step.cases) (auto simp: Subscribe_def Close_def receive_def split: option.splits list.splits)

lemma delivered_step: "delivered i d d' \<Longrightarrow> hub_step (dl_hub d) (dl_hub d')"
  using hub_step.received [of "dl_hub d" i]
  by (erule_tac delivered.cases) (auto intro: hub_step.intros)

text \<open>The queue holds what was published and not yet given; a closed one may lack the end of it.\<close>

definition in_order :: "nat \<Rightarrow> delivery \<Rightarrow> bool" where
  "in_order i d \<longleftrightarrow>
     (\<exists>s. find_sub i (dl_hub d) = Some s \<and> prefix (dl_given d @ su_events s) (dl_since d)
        \<and> (su_closed s \<or> dl_given d @ su_events s = dl_since d))"

lemma in_order_step:
  assumes "delivered i d d'" "in_order i d"
  shows "in_order i d'"
proof -
  from assms(2) obtain s where s: "find_sub i (dl_hub d) = Some s" "prefix (dl_given d @ su_events s) (dl_since d)"
    "su_closed s \<or> dl_given d @ su_events s = dl_since d"
    unfolding in_order_def by blast
  from assms(1) show ?thesis
  proof cases
    case (subscribe a)
    with s find_sub_Subscribe [OF s(1)] show ?thesis by (auto simp: in_order_def)
  next
    case (close j)
    have "su_events (closeLocked s) = su_events s" "su_closed (closeLocked s)" by (simp_all add: closeLocked_def)
    with close s show ?thesis by (cases "j = i") (auto simp: in_order_def Close_def find_sub_update)
  next
    case (publish b)
    with s show ?thesis
      by (auto simp: in_order_def find_sub_publish offer_def closeLocked_def Let_def prefix_def)
  next
    case (take_other j)
    then have "find_sub i (snd (receive j (dl_hub d))) = find_sub i (dl_hub d)"
      by (auto simp: receive_def find_sub_update split: option.splits list.splits)
    with take_other s show ?thesis by (auto simp: in_order_def)
  next
    case (take_event b h)
    then obtain rest where "su_events s = b # rest" "h = update_sub i (\<lambda>s. s\<lparr>su_events := rest\<rparr>) (dl_hub d)"
      using s(1) by (auto simp: receive_def split: list.splits)
    with take_event s show ?thesis by (auto simp: in_order_def find_sub_update)
  qed
qed

text \<open>
  C21. A subscriber of the room is given the broadcasts in the order they were published, none left
  out and none twice; one that falls behind is closed rather than skipped, and its queue never
  holds more than the configured number of events and bytes.
\<close>

theorem hub_delivers_in_order:
  assumes "Subscribe a h = (i, h0)" "wf_hub h" "(delivered i)\<^sup>*\<^sup>* \<lparr>dl_hub = h0, dl_given = [], dl_since = []\<rparr> d"
  shows "\<exists>s. find_sub i (dl_hub d) = Some s \<and> prefix (dl_given d @ su_events s) (dl_since d)
    \<and> (su_closed s \<or> dl_given d @ su_events s = dl_since d)
    \<and> length (su_events s) \<le> hu_max_events h \<and> sum_list (map broadcast_size (su_events s)) \<le> hu_max_bytes h"
proof -
  have limits: "hu_max_events h0 = hu_max_events h" "hu_max_bytes h0 = hu_max_bytes h" and wf: "wf_hub h0"
    using assms(1) hub_step_wf [OF hub_step.subscribed [of h a] assms(2)] by (auto simp: Subscribe_def)
  have none: "map_of (hu_subs h) (length (hu_subs h)) = None"
  proof -
    have "fst ` set (hu_subs h) = set [0..<length (hu_subs h)]" using assms(2) by (metis wf_hub_def set_map)
    then show ?thesis by (simp add: map_of_eq_None_iff)
  qed
  have init: "in_order i \<lparr>dl_hub = h0, dl_given = [], dl_since = []\<rparr>"
    using assms(1) none by (auto simp: in_order_def Subscribe_def find_sub_def map_add_def)
  have "wf_hub (dl_hub d) \<and> hu_max_events (dl_hub d) = hu_max_events h \<and> hu_max_bytes (dl_hub d) = hu_max_bytes h \<and> in_order i d"
    using assms(3)
  proof (induction rule: rtranclp_induct)
    case base
    with limits wf init show ?case by simp
  next
    case (step d d')
    with hub_step_wf hub_limits_step in_order_step delivered_step show ?case by metis
  qed
  then obtain s where s: "find_sub i (dl_hub d) = Some s" "prefix (dl_given d @ su_events s) (dl_since d)"
      "su_closed s \<or> dl_given d @ su_events s = dl_since d"
    and w: "wf_hub (dl_hub d)" "hu_max_events (dl_hub d) = hu_max_events h" "hu_max_bytes (dl_hub d) = hu_max_bytes h"
    unfolding in_order_def by blast
  from s(1) w(1) have "wf_sub (hu_max_events (dl_hub d)) (hu_max_bytes (dl_hub d)) s"
    unfolding find_sub_def wf_hub_def by (auto simp: list_all_iff dest: map_of_SomeD)
  with s w(2,3) show ?thesis by (auto simp: wf_sub_def)
qed

theorem hub_delivers_in_order_witness:
  "\<exists>s. find_sub 0 (hub_publish (PubTransient (transient 1 ''k'' [] [] [] [])) (snd (Subscribe \<lparr>actor_uid = 1, actor_name = ''a''\<rparr> (NewHub 0 0)))) = Some s
     \<and> (su_closed s \<or> su_events s = [PubTransient (transient 1 ''k'' [] [] [] [])])"
proof -
  let ?a = "\<lparr>actor_uid = 1, actor_name = ''a''\<rparr>" and ?b = "PubTransient (transient 1 ''k'' [] [] [] [])"
  have 1: "Subscribe ?a (NewHub 0 0) = (0, snd (Subscribe ?a (NewHub 0 0)))" "wf_hub (NewHub 0 0)"
    by (simp_all add: Subscribe_def NewHub_def wf_hub_def)
  from hub_delivers_in_order [OF 1 r_into_rtranclp [of "delivered 0", OF delivered.publish [of 0 _ ?b]]]
  show ?thesis by auto
qed

end
