(* ===== verification/Daemon.thy ===== *)
theory Daemon
  imports Hub Wire_Messages Store_Contract Store_Connections Store_Admission
begin

text \<open>
  The daemon behind the socket (\<^verbatim>\<open>internal/daemon/session.go\<close>, \<^verbatim>\<open>replay.go\<close>): what a connection may
  ask, who may ask it, and the replay a client is given before live events. A frame is the
  envelope the session sends with its body still a value; \<open>body_json\<close> is its JSON. The transport
  is reliable until it fails, and a failure ends the session.
\<close>

subsection \<open>Frames\<close>

datatype body =
    BWelcome welcome_body
  | BSnapshot runtime_snapshot
  | BDurable durable_event
  | BTransient transient_event
  | BAcceptance acceptance
  | BRoom room_snapshot
  | BAgents "agent_member list"
  | BActors "actor list"
  | BMembers "member list"
  | BDiff bytes
  | BHeartbeat int
  | BEmpty
  | BError string bool

record frame =
  fr_kind :: string
  fr_id :: string
  fr_method :: string
  fr_body :: body
  fr_seq :: "seqno option"

definition json_slice :: "json list \<Rightarrow> json" where
  "json_slice vs = (if vs = [] then JNull else JArr vs)"

definition actor_json :: "actor \<Rightarrow> json" where
  "actor_json a = JObj [(''UID'', JNat (actor_uid a)), (''Name'', JStr (actor_name a))]"

definition agent_member_json :: "agent_member \<Rightarrow> json" where
  "agent_member_json m =
     JObj ([(''id'', JStr (am_id m)), (''name'', JStr (am_name m)), (''provider'', JStr (am_provider m))]
       @ (if am_description m = [] then [] else [(''description'', JStr (am_description m))])
       @ [(''status'', JStr (am_status m))])"

definition acceptance_json :: "acceptance \<Rightarrow> json" where
  "acceptance_json a =
     JObj [(''MessageID'', JNat (ac_message_id a)), (''ClientMessageID'', JStr (ac_client_message_id a)),
           (''Seq'', JNat (ac_seq a)), (''State'', JStr (request_state_text (ac_state a))),
           (''ErrorCode'', JStr (ac_error_code a)), (''Duplicate'', JBool (ac_duplicate a)),
           (''Event'', durable_event_json (ac_event a))]"

definition binding_json :: "turn_binding \<Rightarrow> json" where
  "binding_json b =
     JObj [(''MessageID'', JStr (tb_message_id b)), (''TurnID'', JStr (tb_turn_id b)), (''State'', JStr (request_state_text (tb_state b)))]"

definition queued_json :: "queued_message \<Rightarrow> json" where
  "queued_json q =
     (let i = qm_input q in
      JObj [(''Input'', JObj ((if si_task_id i = 0 then [] else [(''taskId'', JInt (si_task_id i))])
               @ [(''ClientMessageID'', JStr (si_client_message_id i)), (''Text'', JStr (si_text i))])),
            (''Actor'', actor_json (qm_actor q)), (''AcceptedSeq'', JNat (qm_accepted_seq q))])"

definition room_snapshot_json :: "room_snapshot \<Rightarrow> json" where
  "room_snapshot_json s =
     JObj ((if sn_agents s = [] then [] else [(''agents'', JArr (map agent_member_json (sn_agents s)))])
       @ [(''ProjectionTruncated'', JBool (sn_projection_truncated s)), (''Status'', JStr (room_status_text (sn_status s))),
          (''ThreadID'', JStr (sn_thread_id s)),
          (''Active'', case sn_active s of None \<Rightarrow> JNull | Some b \<Rightarrow> binding_json b),
          (''Queue'', json_slice (map queued_json (sn_queue s))),
          (''ProjectionRevision'', JNat (sn_projection_revision s)),
          (''LiveItems'', JArr (map (\<lambda>l. JObj [(''ThreadID'', JStr (li_thread_id l)), (''TurnID'', JStr (li_turn_id l)),
               (''ItemID'', JStr (li_item_id l)), (''Partial'', JStr (li_partial l))]) (sn_live_items s))),
          (''LatestSeq'', JNat (sn_latest_seq s))])"

fun body_json :: "body \<Rightarrow> json" where
  "body_json (BWelcome w) = welcome_json w"
| "body_json (BSnapshot s) = runtime_snapshot_json s"
| "body_json (BDurable e) = durable_event_json e"
| "body_json (BTransient e) = transient_event_json e"
| "body_json (BAcceptance a) = acceptance_json a"
| "body_json (BRoom s) = room_snapshot_json s"
| "body_json (BAgents as) = json_slice (map agent_member_json as)"
| "body_json (BActors as) = JArr (map actor_json as)"
| "body_json (BMembers ms) = json_slice (map (\<lambda>m. JObj [(''UID'', JNat (mb_uid m)), (''Name'', JStr (mb_name m))]) ms)"
| "body_json (BDiff d) = JObj [(''diff'', JStr d)]"
| "body_json (BHeartbeat n) = JObj [(''unixMilli'', JInt n)]"
| "body_json BEmpty = JObj []"
| "body_json (BError code resumable) =
     JObj ([(''code'', JStr code), (''message'', JStr ''Request could not be completed.'')]
       @ (if resumable then [(''resumable'', JBool True)] else []))"

definition frame_envelope :: "frame \<Rightarrow> envelope" where
  "frame_envelope f =
     \<lparr>en_version = 1, en_kind = fr_kind f, en_id = fr_id f, en_method = fr_method f, en_requires = [], en_seq = fr_seq f,
      en_body = json_marshal (body_json (fr_body f))\<rparr>"

text \<open>\<^verbatim>\<open>send\<close>: \<open>None\<close> is \<^verbatim>\<open>errResponseEncoding\<close>, found before any byte was written.\<close>

definition send_frame :: "frame \<Rightarrow> frame option" where
  "send_frame f = (case encode_frame (frame_envelope f) of Inr _ \<Rightarrow> Some f | Inl _ \<Rightarrow> None)"

definition error_frame :: "string \<Rightarrow> string \<Rightarrow> frame" where
  "error_frame i code =
     \<lparr>fr_kind = KindError, fr_id = i, fr_method = ''error'', fr_body = BError code (code = ''slow-client''), fr_seq = None\<rparr>"

definition fail :: "string \<Rightarrow> string \<Rightarrow> frame option" where
  "fail i code = send_frame (error_frame i code)"

definition response_frame :: "string \<Rightarrow> string \<Rightarrow> body \<Rightarrow> frame" where
  "response_frame i meth b = \<lparr>fr_kind = KindResponse, fr_id = i, fr_method = meth, fr_body = b, fr_seq = None\<rparr>"

definition respond :: "string \<Rightarrow> string \<Rightarrow> body \<Rightarrow> frame option" where
  "respond i meth b =
     (case send_frame (response_frame i meth b) of
        None \<Rightarrow> fail i ''response-too-large''
      | Some f \<Rightarrow> Some f)"

definition sendBroadcast :: "published \<Rightarrow> frame" where
  "sendBroadcast b =
     (case b of
        PubDurable e \<Rightarrow> \<lparr>fr_kind = KindEvent, fr_id = [], fr_method = de_kind e, fr_body = BDurable e, fr_seq = Some (de_seq e)\<rparr>
      | PubTransient e \<Rightarrow> \<lparr>fr_kind = KindEvent, fr_id = [], fr_method = te_kind e, fr_body = BTransient e, fr_seq = None\<rparr>)"

subsection \<open>The daemon\<close>

text \<open>
  \<^verbatim>\<open>Config\<close> and \<^verbatim>\<open>Dependencies\<close>: the ports the session uses besides the coordinator. A port whose
  interface is tested at run time is an option.
\<close>

record config =
  cf_room_id :: room_id
  cf_room_name :: string
  cf_project_root :: string
  cf_execution_owner :: string
  cf_maximum_frame :: nat

record 's deps =
  dp_FindMember :: "room_id \<Rightarrow> uid \<Rightarrow> 's \<Rightarrow> (err + member) \<times> 's"
  dp_MemberRole :: "(room_id \<Rightarrow> uid \<Rightarrow> 's \<Rightarrow> (err + string) \<times> 's) option"
  dp_ListMembers :: "(room_id \<Rightarrow> 's \<Rightarrow> (err + member list) \<times> 's) option"
  dp_LatestSeq :: "room_id \<Rightarrow> 's \<Rightarrow> (err + seqno) \<times> 's"
  dp_Events :: "room_id \<Rightarrow> seqno \<Rightarrow> seqno \<Rightarrow> int \<Rightarrow> 's \<Rightarrow> (err + durable_event list) \<times> 's"
  dp_Connected :: "connection_record \<Rightarrow> 's \<Rightarrow> (err + unit) \<times> 's"
  dp_Ack :: "connection_id \<Rightarrow> seqno \<Rightarrow> 's \<Rightarrow> (err + unit) \<times> 's"
  dp_Disconnected :: "connection_id \<Rightarrow> instant \<Rightarrow> 's \<Rightarrow> (err + unit) \<times> 's"
  dp_Diff :: "(err + bytes) option"

record 's daemon =
  dm_world :: "'s world"
  dm_hub :: hub

text \<open>
  The coordinator publishes into the hub: what a step of it published is offered to the
  subscribers before anything else happens to them.
\<close>

definition with_coordinator :: "('s world \<Rightarrow> 'r \<times> 's world) \<Rightarrow> 's daemon \<Rightarrow> 'r \<times> 's daemon" where
  "with_coordinator f d =
     (case f (dm_world d) of (r, w) \<Rightarrow>
        (r, \<lparr>dm_world = w,
             dm_hub = fold hub_publish (drop (length (w_published (dm_world d))) (w_published w)) (dm_hub d)\<rparr>))"

definition with_store :: "('s \<Rightarrow> 'r \<times> 's) \<Rightarrow> 's daemon \<Rightarrow> 'r \<times> 's daemon" where
  "with_store f d = (case repo f (dm_world d) of (r, w) \<Rightarrow> (r, d\<lparr>dm_world := w\<rparr>))"

text \<open>
  The exported methods of the coordinator: validation, then the command loop. A loop that has
  stopped answers no one, so the caller's context expires.
\<close>

definition command_reply :: "'s repository \<Rightarrow> agent \<Rightarrow> command \<Rightarrow> 's world \<Rightarrow> reply \<times> 's world" where
  "command_reply R A cmd w =
     (case command_error cmd of
        Some e \<Rightarrow> (ReplyError (Some e), w)
      | None \<Rightarrow> if co_fatal (w_co w) \<noteq> None then (ReplyError (Some ErrDeadline), w) else handleCommand R A cmd w)"

definition MaximumMutationBodyBytes :: nat where
  "MaximumMutationBodyBytes = 64 * 2 ^ 10"

text \<open>What a request asks for, once its body is decoded.\<close>

datatype request =
    ReqCommand command
  | ReqAck seqno
  | ReqHeartbeat int
  | ReqAgents
  | ReqSnapshot
  | ReqWho
  | ReqMembers
  | ReqDiff

definition mutation_methods :: "string list" where
  "mutation_methods = [''submit'', ''task_submit'', ''note'', ''steer'', ''cancel'', ''recover'', ''resolve'']"

definition reader_methods :: "string list" where
  "reader_methods = [''ack'', ''heartbeat'', ''who'', ''members'', ''agents'']"

definition decode_request :: "actor \<Rightarrow> envelope \<Rightarrow> request option" where
  "decode_request a e =
     (let m = en_method e; b = en_body e in
      if m \<in> {''submit'', ''task_submit'', ''note''} then
        (case decode_submit b of
           Inl _ \<Rightarrow> None
         | Inr i \<Rightarrow> if (m = ''task_submit'') \<noteq> (0 < si_task_id i) then None
                    else Some (ReqCommand (CmdSubmit a i (m = ''note''))))
      else if m = ''steer'' then
        (case decode_steer b of
           Inl _ \<Rightarrow> None
         | Inr i \<Rightarrow> Some (ReqCommand (CmdControl a \<lparr>ci_client_message_id = st_client_message_id i, ci_kind = ControlSteer,
                                            ci_expected_turn_id = st_expected_turn_id i, ci_text = st_text i\<rparr>)))
      else if m = ''cancel'' then
        (case decode_cancel b of
           Inl _ \<Rightarrow> None
         | Inr i \<Rightarrow> Some (ReqCommand (CmdControl a \<lparr>ci_client_message_id = ca_client_message_id i, ci_kind = ControlCancel,
                                            ci_expected_turn_id = ca_expected_turn_id i, ci_text = []\<rparr>)))
      else if m \<in> {''recover'', ''resolve''} then
        (case decode_recover b of Inl _ \<Rightarrow> None | Inr i \<Rightarrow> Some (ReqCommand (CmdResolve a i)))
      else if m = ''ack'' then (case decode_ack b of Inl _ \<Rightarrow> None | Inr n \<Rightarrow> Some (ReqAck n))
      else if m = ''heartbeat'' then (case decode_heartbeat b of Inl _ \<Rightarrow> None | Inr n \<Rightarrow> Some (ReqHeartbeat n))
      else if m \<in> {''queue'', ''status'', ''who'', ''members'', ''agents'', ''diff''} then
        (case decode_empty b of
           Inl _ \<Rightarrow> None
         | Inr _ \<Rightarrow> Some (if m = ''agents'' then ReqAgents
                          else if m \<in> {''queue'', ''status''} then ReqSnapshot
                          else if m = ''who'' then ReqWho
                          else if m = ''members'' then ReqMembers
                          else ReqDiff))
      else None)"

definition reply_body :: "reply \<Rightarrow> err + body" where
  "reply_body r =
     (case r of
        ReplyError (Some e) \<Rightarrow> Inl e
      | ReplyError None \<Rightarrow> Inr BEmpty
      | ReplyAcceptance _ (Some e) \<Rightarrow> Inl e
      | ReplyAcceptance (Some a) None \<Rightarrow> Inr (BAcceptance a)
      | ReplyAcceptance None None \<Rightarrow> Inr BEmpty
      | ReplySnapshot s \<Rightarrow> Inr (BRoom s)
      | ReplyNone \<Rightarrow> Inr BEmpty)"

text \<open>The work of a request, and the body of its answer.\<close>

fun serve_request :: "'s repository \<Rightarrow> agent \<Rightarrow> 's deps \<Rightarrow> config \<Rightarrow> connection_id \<Rightarrow> request \<Rightarrow> 's daemon
    \<Rightarrow> (err + body) \<times> 's daemon" where
  "serve_request R A P cf i (ReqCommand c) d =
     (case with_coordinator (command_reply R A c) d of (r, d1) \<Rightarrow> (reply_body r, d1))"
| "serve_request R A P cf i (ReqAck n) d =
     (case with_store (dp_Ack P i n) d of (r, d1) \<Rightarrow> (map_sum id (\<lambda>_. BEmpty) r, d1))"
| "serve_request R A P cf i (ReqHeartbeat n) d = (Inr (BHeartbeat n), d)"
| "serve_request R A P cf i ReqAgents d =
     (case with_coordinator (command_reply R A CmdSnapshot) d of (r, d1) \<Rightarrow>
        (case r of ReplySnapshot s \<Rightarrow> Inr (BAgents (sn_agents s)) | _ \<Rightarrow> Inl ErrDeadline, d1))"
| "serve_request R A P cf i ReqSnapshot d =
     (case with_coordinator (command_reply R A CmdSnapshot) d of (r, d1) \<Rightarrow> (reply_body r, d1))"
| "serve_request R A P cf i ReqWho d = (Inr (BActors (hub_Members (dm_hub d))), d)"
| "serve_request R A P cf i ReqMembers d =
     (case dp_ListMembers P of
        None \<Rightarrow> (Inr (BActors (hub_Members (dm_hub d))), d)
      | Some f \<Rightarrow> (case with_store (f (cf_room_id cf)) d of (r, d1) \<Rightarrow> (map_sum id BMembers r, d1)))"
| "serve_request R A P cf i ReqDiff d =
     (case dp_Diff P of
        None \<Rightarrow> (Inl ErrInvalidInput, d)
      | Some r \<Rightarrow> (map_sum id BDiff r, d))"

definition request_error_code :: "err \<Rightarrow> string" where
  "request_error_code e =
     (if e = ErrStaleTurn then ''stale-turn''
      else if e = ErrStaleRecovery then ''stale-recovery''
      else if e = ErrDeadline then ''request-timeout''
      else ''request-failed'')"

text \<open>
  What the role of the member allows: \<open>Some code\<close> is a refusal. Without a directory of roles
  every member is a roommate.
\<close>

definition role_check :: "'s deps \<Rightarrow> config \<Rightarrow> actor \<Rightarrow> string \<Rightarrow> 's daemon \<Rightarrow> string option \<times> 's daemon" where
  "role_check P cf a m d =
     (case dp_MemberRole P of
        None \<Rightarrow> (None, d)
      | Some f \<Rightarrow>
          (case with_store (f (cf_room_id cf) (actor_uid a)) d of
             (Inl e, d1) \<Rightarrow> (Some ''permission-denied'', d1)
           | (Inr role, d1) \<Rightarrow>
               (if role \<noteq> ''roommate'' \<and> m \<notin> set reader_methods then Some ''read-only-role'' else None, d1)))"

text \<open>\<^verbatim>\<open>dispatch\<close>: whether the request was valid, and the frame sent.\<close>

definition dispatch :: "'s repository \<Rightarrow> agent \<Rightarrow> 's deps \<Rightarrow> config \<Rightarrow> actor \<Rightarrow> connection_id \<Rightarrow> envelope \<Rightarrow> 's daemon
    \<Rightarrow> (bool \<times> frame option) \<times> 's daemon" where
  "dispatch R A P cf a i e d =
     (if en_kind e \<noteq> KindRequest \<or> en_requires e \<noteq> [] then ((False, fail (en_id e) ''invalid-request''), d)
      else case role_check P cf a (en_method e) d of
        (Some code, d1) \<Rightarrow> ((False, fail (en_id e) code), d1)
      | (None, d1) \<Rightarrow>
          if en_method e \<in> set mutation_methods \<and> MaximumMutationBodyBytes < length (en_body e)
          then ((False, fail (en_id e) ''message-too-large''), d1)
          else (case decode_request a e of
             None \<Rightarrow> ((False, fail (en_id e) ''invalid-request''), d1)
           | Some q \<Rightarrow>
               (case serve_request R A P cf i q d1 of
                  (Inl x, d2) \<Rightarrow> ((True, fail (en_id e) (request_error_code x)), d2)
                | (Inr b, d2) \<Rightarrow> ((True, respond (en_id e) (en_method e) b), d2))))"

subsection \<open>Replay\<close>

datatype session_error = ESlowSubscriber | EIncompleteReplay | EReplayOrder | EReplayCursor | EStore err | EEncoding

text \<open>The durable events of a page; they must continue the cursor and stay below the target.\<close>

fun send_events :: "seqno \<Rightarrow> seqno \<Rightarrow> durable_event list \<Rightarrow> session_error option \<times> frame list \<times> seqno" where
  "send_events cur high [] = (None, [], cur)"
| "send_events cur high (e # es) =
     (if de_seq e \<le> cur \<or> high < de_seq e then (Some EReplayOrder, [], cur)
      else case send_frame (sendBroadcast (PubDurable e)) of
        None \<Rightarrow> (Some EEncoding, [], cur)
      | Some f \<Rightarrow> (case send_events (de_seq e) high es of (x, fs, l) \<Rightarrow> (x, f # fs, l)))"

definition sub_closed :: "nat \<Rightarrow> hub \<Rightarrow> bool" where
  "sub_closed i h = (case find_sub i h of Some s \<Rightarrow> su_closed s | None \<Rightarrow> True)"

definition replay_page :: "'s deps \<Rightarrow> config \<Rightarrow> nat \<Rightarrow> seqno \<Rightarrow> seqno \<Rightarrow> 's daemon
    \<Rightarrow> (session_error option \<times> frame list \<times> seqno) \<times> 's daemon" where
  "replay_page P cf sub cur high d =
     (if sub_closed sub (dm_hub d) then ((Some ESlowSubscriber, [], cur), d)
      else case with_store (dp_Events P (cf_room_id cf) cur high 128) d of
        (Inl e, d1) \<Rightarrow> ((Some (EStore e), [], cur), d1)
      | (Inr es, d1) \<Rightarrow> if es = [] then ((Some EIncompleteReplay, [], cur), d1) else (send_events cur high es, d1))"

lemma send_events_last: "send_events cur high es = (None, fs, l) \<Longrightarrow> es \<noteq> [] \<Longrightarrow> cur < l \<and> l \<le> high"
proof (induction es arbitrary: cur fs)
  case (Cons e es)
  then show ?case by (cases es) (fastforce split: if_splits option.splits prod.splits)+
qed simp

lemma replay_page_last:
  "replay_page P cf sub cur high d = ((None, fs, l), d') \<Longrightarrow> cur < l \<and> l \<le> high"
  by (auto simp: replay_page_def split: if_splits prod.splits sum.splits dest: send_events_last)

function replay_loop :: "'s deps \<Rightarrow> config \<Rightarrow> nat \<Rightarrow> seqno \<Rightarrow> seqno \<Rightarrow> 's daemon
    \<Rightarrow> (session_error option \<times> frame list) \<times> 's daemon" where
  "replay_loop P cf sub cur high d =
     (if high \<le> cur then ((None, []), d)
      else case replay_page P cf sub cur high d of
        ((Some x, fs, l), d1) \<Rightarrow> ((Some x, fs), d1)
      | ((None, fs, l), d1) \<Rightarrow>
          (case replay_loop P cf sub l high d1 of ((x, gs), d2) \<Rightarrow> ((x, fs @ gs), d2)))"
  by pat_completeness auto
termination
  by (relation "measure (\<lambda>(P, cf, sub, cur, high, d). high - cur)") (auto dest!: replay_page_last [OF sym])

declare replay_loop.simps [simp del]

definition wire_snapshot :: "room_snapshot \<Rightarrow> runtime_snapshot" where
  "wire_snapshot s =
     \<lparr>rs_truncated = sn_projection_truncated s, rs_revision = sn_projection_revision s, rs_watermark = sn_latest_seq s,
      rs_live_items = map (\<lambda>l. \<lparr>wi_thread_id = li_thread_id l, wi_turn_id = li_turn_id l, wi_item_id = li_item_id l,
                               wi_partial = li_partial l\<rparr>) (sn_live_items s),
      rs_active_turn_id = (case sn_active s of None \<Rightarrow> [] | Some b \<Rightarrow> tb_turn_id b)\<rparr>"

definition room_welcome :: "config \<Rightarrow> room_snapshot \<Rightarrow> seqno \<Rightarrow> welcome_body" where
  "room_welcome cf s high =
     \<lparr>w_room_id = cf_room_id cf, w_room_name = cf_room_name cf, w_project_root = cf_project_root cf,
      w_execution_owner = cf_execution_owner cf, w_full_owner_access = True,
      w_active_turn_id = (case sn_active s of None \<Rightarrow> [] | Some b \<Rightarrow> tb_turn_id b), w_latest_seq = high\<rparr>"

definition take_snapshot :: "'s repository \<Rightarrow> agent \<Rightarrow> 's daemon \<Rightarrow> (session_error + room_snapshot) \<times> 's daemon" where
  "take_snapshot R A d =
     (case with_coordinator (command_reply R A CmdSnapshot) d of
        (ReplySnapshot s, d1) \<Rightarrow> (Inr s, d1)
      | (_, d1) \<Rightarrow> (Inl (EStore ErrDeadline), d1))"

text \<open>Up to the welcome: the target of the replay is fixed here.\<close>

definition begin_replay :: "'s repository \<Rightarrow> agent \<Rightarrow> 's deps \<Rightarrow> config \<Rightarrow> string \<Rightarrow> seqno \<Rightarrow> 's daemon
    \<Rightarrow> (session_error + frame \<times> seqno) \<times> 's daemon" where
  "begin_replay R A P cf hid cur d =
     (case with_store (dp_LatestSeq P (cf_room_id cf)) d of
        (Inl e, d1) \<Rightarrow> (Inl (EStore e), d1)
      | (Inr high, d1) \<Rightarrow>
          if high < cur then (Inl EReplayCursor, d1)
          else (case take_snapshot R A d1 of
             (Inl x, d2) \<Rightarrow> (Inl x, d2)
           | (Inr s, d2) \<Rightarrow>
               (case send_frame (response_frame hid ''welcome'' (BWelcome (room_welcome cf s high))) of
                  None \<Rightarrow> (Inl EEncoding, d2)
                | Some f \<Rightarrow> (Inr (f, high), d2))))"

definition snapshot_frame :: "room_snapshot \<Rightarrow> frame" where
  "snapshot_frame s =
     \<lparr>fr_kind = KindEvent, fr_id = [], fr_method = ''runtime-snapshot'', fr_body = BSnapshot (wire_snapshot s), fr_seq = None\<rparr>"

text \<open>After the cur page: the snapshot, and the revision later transient events must exceed.\<close>

definition end_replay :: "'s repository \<Rightarrow> agent \<Rightarrow> 's daemon \<Rightarrow> (session_error + frame \<times> nat) \<times> 's daemon" where
  "end_replay R A d =
     (case take_snapshot R A d of
        (Inl x, d1) \<Rightarrow> (Inl x, d1)
      | (Inr s, d1) \<Rightarrow>
          (case send_frame (snapshot_frame s) of
             None \<Rightarrow> (Inl EEncoding, d1)
           | Some f \<Rightarrow> (Inr (f, sn_projection_revision s), d1)))"

definition replay :: "'s repository \<Rightarrow> agent \<Rightarrow> 's deps \<Rightarrow> config \<Rightarrow> string \<Rightarrow> seqno \<Rightarrow> nat \<Rightarrow> 's daemon
    \<Rightarrow> ((session_error + nat) \<times> frame list) \<times> 's daemon" where
  "replay R A P cf hid cur sub d =
     (case begin_replay R A P cf hid cur d of
        (Inl x, d1) \<Rightarrow> ((Inl x, []), d1)
      | (Inr (f, high), d1) \<Rightarrow>
          (case replay_loop P cf sub cur high d1 of
             ((Some x, fs), d2) \<Rightarrow> ((Inl x, f # fs), d2)
           | ((None, fs), d2) \<Rightarrow>
               (case end_replay R A d2 of
                  (Inl x, d3) \<Rightarrow> ((Inl x, f # fs), d3)
                | (Inr (g, revn), d3) \<Rightarrow> ((Inr revn, f # fs @ [g]), d3))))"

subsection \<open>A session\<close>

record session =
  ss_actor :: actor
  ss_id :: connection_id
  ss_sub :: nat
  ss_revision :: nat

definition optional_frame :: "frame option \<Rightarrow> frame list" where
  "optional_frame f = (case f of None \<Rightarrow> [] | Some x \<Rightarrow> [x])"

text \<open>
  \<^verbatim>\<open>ServeMember\<close> up to its loop: the stored member, the greeting, the connection record, the
  subscription, the replay. The connection identifier and the clock are arguments; what the
  deferred calls undo is in \<open>close_session\<close>.
\<close>

definition close_session :: "'s deps \<Rightarrow> session \<Rightarrow> instant \<Rightarrow> 's daemon \<Rightarrow> 's daemon" where
  "close_session P ss at d =
     (let d1 = d\<lparr>dm_hub := Close (ss_sub ss) (dm_hub d)\<rparr> in snd (with_store (dp_Disconnected P (ss_id ss) at) d1))"

definition serve_hello :: "'s deps \<Rightarrow> config \<Rightarrow> member \<Rightarrow> connection_id \<Rightarrow> instant \<Rightarrow> envelope \<Rightarrow> 's daemon
    \<Rightarrow> (frame list + session) \<times> 's daemon" where
  "serve_hello P cf m cid now e d =
     (case Accept (NewHandshakeState []) e of
        (Some x, _) \<Rightarrow> (Inl (optional_frame (fail (en_id e) ''invalid-request'')), d)
      | (None, _) \<Rightarrow>
          if \<not> ValidConnectionID cid then (Inl (optional_frame (fail (en_id e) ''internal-error'')), d)
          else (case with_store (dp_Connected P \<lparr>cr_id = cid, cr_room_id = cf_room_id cf, cr_uid = mb_uid m, cr_connected_at = now,
                                                 cr_disconnected_at = None, cr_last_ack = 0\<rparr>) d of
             (Inl x, d1) \<Rightarrow> (Inl (optional_frame (fail (en_id e) ''internal-error'')), d1)
           | (Inr _, d1) \<Rightarrow>
               (let a = \<lparr>actor_uid = mb_uid m, actor_name = mb_name m\<rparr> in
                case Subscribe a (dm_hub d1) of (sub, h) \<Rightarrow>
                  (Inr \<lparr>ss_actor = a, ss_id = cid, ss_sub = sub, ss_revision = 0\<rparr>, d1\<lparr>dm_hub := h\<rparr>))))"

definition hello_cursor :: "envelope \<Rightarrow> seqno" where
  "hello_cursor e = (case decode_hello (en_body e) of Inr h \<Rightarrow> h_last_applied h | Inl _ \<Rightarrow> 0)"

definition ServeMember :: "'s repository \<Rightarrow> agent \<Rightarrow> 's deps \<Rightarrow> config \<Rightarrow> member \<Rightarrow> connection_id \<Rightarrow> instant
    \<Rightarrow> wire_error + envelope \<Rightarrow> 's daemon \<Rightarrow> (session option \<times> frame list) \<times> 's daemon" where
  "ServeMember R A P cf m cid now first d =
     (case with_store (dp_FindMember P (cf_room_id cf) (mb_uid m)) d of
        (Inl x, d1) \<Rightarrow> ((None, []), d1)
      | (Inr stored, d1) \<Rightarrow>
          if stored \<noteq> m then ((None, []), d1)
          else (case first of
             Inl x \<Rightarrow> ((None, optional_frame (fail [] ''invalid-request'')), d1)
           | Inr e \<Rightarrow>
               (case serve_hello P cf m cid now e d1 of
                  (Inl fs, d2) \<Rightarrow> ((None, fs), d2)
                | (Inr ss, d2) \<Rightarrow>
                    (case replay R A P cf (en_id e) (hello_cursor e) (ss_sub ss) d2 of
                       ((Inl x, fs), d3) \<Rightarrow>
                         ((None, fs @ optional_frame (fail [] (if sub_closed (ss_sub ss) (dm_hub d3) then ''slow-client'' else ''replay-failed''))),
                          close_session P ss now d3)
                     | ((Inr revn, fs), d3) \<Rightarrow> ((Some (ss\<lparr>ss_revision := revn\<rparr>), fs), d3)))))"

text \<open>One round of the loop of a live session.\<close>

datatype session_event = EvStop | EvSlow | EvBroadcast | EvIncoming "wire_error + envelope"

definition forward :: "session \<Rightarrow> 's daemon \<Rightarrow> (session option \<times> frame list) \<times> 's daemon" where
  "forward ss d =
     (case receive (ss_sub ss) (dm_hub d) of
        (None, h) \<Rightarrow> ((if sub_closed (ss_sub ss) (dm_hub d) then None else Some ss, []), d)
      | (Some b, h) \<Rightarrow>
          (let d1 = d\<lparr>dm_hub := h\<rparr> in
           if (case b of PubTransient t \<Rightarrow> te_revision t \<le> ss_revision ss | _ \<Rightarrow> False) then ((Some ss, []), d1)
           else (case send_frame (sendBroadcast b) of
              None \<Rightarrow> ((None, []), d1)
            | Some f \<Rightarrow> ((Some ss, [f]), d1))))"

definition session_step :: "'s repository \<Rightarrow> agent \<Rightarrow> 's deps \<Rightarrow> config \<Rightarrow> session_event \<Rightarrow> session \<Rightarrow> 's daemon
    \<Rightarrow> (session option \<times> frame list) \<times> 's daemon" where
  "session_step R A P cf ev ss d =
     (case ev of
        EvStop \<Rightarrow> ((None, []), d)
      | EvSlow \<Rightarrow> if sub_closed (ss_sub ss) (dm_hub d) then ((None, optional_frame (fail [] ''slow-client'')), d) else ((Some ss, []), d)
      | EvBroadcast \<Rightarrow> forward ss d
      | EvIncoming (Inl x) \<Rightarrow> ((None, optional_frame (fail [] ''invalid-request'')), d)
      | EvIncoming (Inr e) \<Rightarrow>
          (case dispatch R A P cf (ss_actor ss) (ss_id ss) e d of
             ((valid, None), d1) \<Rightarrow> ((None, []), d1)
           | ((valid, Some f), d1) \<Rightarrow> ((Some ss, [f]), d1)))"

subsection \<open>On the SQLite store\<close>

definition sqlite_deps :: "(err + bytes) option \<Rightarrow> store deps" where
  "sqlite_deps diff =
     \<lparr>dp_FindMember = FindMember, dp_MemberRole = Some MemberRole, dp_ListMembers = Some ListMembers,
      dp_LatestSeq = LatestSeq, dp_Events = Events, dp_Connected = Connected, dp_Ack = Ack,
      dp_Disconnected = Disconnected, dp_Diff = diff\<rparr>"

end
