(* ===== verification/Daemon_Properties.thy ===== *)
theory Daemon_Properties
  imports Daemon Room_Properties
begin

text \<open>
  What the daemon guarantees to the room and to its clients: only roommates act, and what a
  client is replayed is the log of the room without a gap.
\<close>

subsection \<open>Only roommates act\<close>

text \<open>Two databases that differ at most in the acknowledgements of connections.\<close>

definition same_but_connections :: "db \<Rightarrow> db \<Rightarrow> bool" where
  "same_but_connections d d' \<longleftrightarrow> d'\<lparr>client_connections := []\<rparr> = d\<lparr>client_connections := []\<rparr>"

lemma same_but_connections_refl [simp]: "same_but_connections d d"
  by (simp add: same_but_connections_def)

lemma same_but_connections_trans: "same_but_connections a b \<Longrightarrow> same_but_connections b c \<Longrightarrow> same_but_connections a c"
  by (simp add: same_but_connections_def)

definition idle_daemon :: "store daemon \<Rightarrow> store daemon \<Rightarrow> bool" where
  "idle_daemon d d' \<longleftrightarrow>
     w_co (dm_world d') = w_co (dm_world d) \<and> w_calls (dm_world d') = w_calls (dm_world d)
     \<and> w_published (dm_world d') = w_published (dm_world d) \<and> w_answers (dm_world d') = w_answers (dm_world d)
     \<and> dm_hub d' = dm_hub d \<and> same_but_connections (st_db (w_store (dm_world d))) (st_db (w_store (dm_world d')))"

lemma idle_daemon_refl [simp]: "idle_daemon d d"
  by (simp add: idle_daemon_def)

lemma idle_daemon_trans: "idle_daemon a b \<Longrightarrow> idle_daemon b c \<Longrightarrow> idle_daemon a c"
  unfolding idle_daemon_def using same_but_connections_trans by auto

lemma with_store_idle:
  assumes "with_store f d = (r, d')" "\<And>s x s'. f s = (x, s') \<Longrightarrow> same_but_connections (st_db s) (st_db s')"
  shows "idle_daemon d d'"
  using assms(1) assms(2) [of "w_store (dm_world d)"]
  by (auto simp: with_store_def repo_def idle_daemon_def split: prod.splits)

lemma transact_reads:
  assumes "transact body s = (x, s')" "\<And>now d y d'. body now d = Inr (y, d') \<Longrightarrow> same_but_connections d d'"
  shows "same_but_connections (st_db s) (st_db s')"
  using transact_effect [OF assms(1)] assms(2) by auto

lemma MemberRole_reads: "MemberRole rid u s = (x, s') \<Longrightarrow> same_but_connections (st_db s) (st_db s')"
  unfolding MemberRole_def by (erule transact_reads) (auto simp: tx_Inr split: option.splits)

lemma ListMembers_reads: "ListMembers rid s = (x, s') \<Longrightarrow> same_but_connections (st_db s) (st_db s')"
  unfolding ListMembers_def by (erule transact_reads) (auto simp: tx_Inr)

lemma update_connection_same: "update_connection P f d = Inr (u, d') \<Longrightarrow> same_but_connections d d'"
  by (auto simp: update_connection_def tx_Inr same_but_connections_def)

lemma ack_body_same: "ack_body cid n now d = Inr (u, d') \<Longrightarrow> same_but_connections d d'"
  by (auto simp: ack_body_def tx_Inr split: option.splits dest: update_connection_same)

lemma Ack_reads:
  assumes "Ack cid n s = (x, s')"
  shows "same_but_connections (st_db s) (st_db s')"
proof (cases "ValidConnectionID cid")
  case True
  with assms have "transact (ack_body cid n) s = (x, s')" by (simp add: Ack_def validated_def)
  then show ?thesis by (rule transact_reads) (rule ack_body_same)
next
  case False
  with assms show ?thesis by (simp add: Ack_def validated_def)
qed

lemma snapshot_reply: "snd (command_reply R A CmdSnapshot w) = w"
  unfolding command_reply_def by (cases "co_fatal (w_co w)") simp_all

lemma with_coordinator_same:
  assumes "with_coordinator f d = (r, d')" "snd (f (dm_world d)) = dm_world d"
  shows "d' = d"
proof (cases d)
  case (fields w h)
  with assms(2) obtain y where "f w = (y, w)" by (metis daemon.select_convs(1) prod.collapse)
  with assms(1) fields show ?thesis by (simp add: with_coordinator_def)
qed

lemma snapshot_idle: "with_coordinator (command_reply R A CmdSnapshot) d = (r, d') \<Longrightarrow> d' = d"
  by (erule with_coordinator_same) (rule snapshot_reply)

text \<open>What a reader may ask leaves the room alone.\<close>

lemma serve_reader:
  assumes "serve_request R A (sqlite_deps diff) cf i q d = (x, d')" "decode_request a e = Some q" "en_method e \<in> set reader_methods"
  shows "idle_daemon d d'"
proof -
  have "(\<exists>n. q = ReqAck n) \<or> (\<exists>n. q = ReqHeartbeat n) \<or> q = ReqAgents \<or> q = ReqWho \<or> q = ReqMembers"
  proof -
    consider "en_method e = ''ack''" | "en_method e = ''heartbeat''" | "en_method e = ''who''" | "en_method e = ''members''"
      | "en_method e = ''agents''" using assms(3) by (auto simp: reader_methods_def)
    then show ?thesis
      using assms(2) by cases (auto simp: decode_request_def Let_def split: sum.splits)
  qed
  then show ?thesis
    using assms(1)
    by (auto simp: sqlite_deps_def split: prod.splits dest!: snapshot_idle
        intro: with_store_idle [OF _ Ack_reads] with_store_idle [OF _ ListMembers_reads])
qed

lemma MemberRole_answer: "MemberRole rid u s = (Inr role, s') \<Longrightarrow> role_of rid u (st_db s) = Some role"
  unfolding MemberRole_def by (drule transact_Inr) (auto simp: tx_Inr split: option.splits)

text \<open>
  C22. A member who is not a roommate cannot act: whatever envelope such a connection sends, the
  coordinator, the agent, the subscribers and every table but the acknowledgements stay exactly as
  they were, and only acknowledgements, heartbeats and the lists of members and agents are
  answered at all.
\<close>

theorem only_roommates_act:
  assumes "role_of (cf_room_id cf) (actor_uid a) (st_db (w_store (dm_world d))) \<noteq> Some ''roommate''"
    and "dispatch R A (sqlite_deps diff) cf a i e d = ((valid, f), d')"
  shows "idle_daemon d d' \<and> (valid \<longrightarrow> en_method e \<in> {''ack'', ''heartbeat'', ''who'', ''members'', ''agents''})"
proof (cases "en_kind e \<noteq> KindRequest \<or> en_requires e \<noteq> []")
  case True
  with assms(2) show ?thesis by (auto simp: dispatch_def)
next
  case False
  obtain r d1 where r: "role_check (sqlite_deps diff) cf a (en_method e) d = (r, d1)"
    by (cases "role_check (sqlite_deps diff) cf a (en_method e) d")
  have idle1: "idle_daemon d d1"
    using r by (auto simp: role_check_def sqlite_deps_def split: prod.splits sum.splits intro: with_store_idle [OF _ MemberRole_reads])
  have allowed: "en_method e \<in> set reader_methods" if "r = None"
  proof (rule ccontr)
    assume "en_method e \<notin> set reader_methods"
    with r that have "with_store (MemberRole (cf_room_id cf) (actor_uid a)) d = (Inr ''roommate'', d1)"
      by (auto simp: role_check_def sqlite_deps_def split: prod.splits sum.splits if_splits)
    then have "MemberRole (cf_room_id cf) (actor_uid a) (w_store (dm_world d)) = (Inr ''roommate'', w_store (dm_world d1))"
      by (auto simp: with_store_def repo_def split: prod.splits)
    from MemberRole_answer [OF this] assms(1) show False by simp
  qed
  show ?thesis
  proof (cases r)
    case (Some code)
    with assms(2) False r idle1 show ?thesis by (auto simp: dispatch_def)
  next
    case None
    show ?thesis
    proof (cases "en_method e \<in> set mutation_methods \<and> MaximumMutationBodyBytes < length (en_body e)")
      case True
      with assms(2) False r None idle1 show ?thesis by (auto simp: dispatch_def)
    next
      case small: False
      show ?thesis
      proof (cases "decode_request a e")
        case bad: None
        with assms(2) False r None small idle1 show ?thesis by (auto simp: dispatch_def)
      next
        case (Some q)
        obtain x d2 where q: "serve_request R A (sqlite_deps diff) cf i q d1 = (x, d2)"
          by (cases "serve_request R A (sqlite_deps diff) cf i q d1")
        with assms(2) False r None small Some have "d' = d2" by (auto simp: dispatch_def split: sum.splits)
        with serve_reader [OF q Some allowed [OF None]] idle1 allowed [OF None] show ?thesis
          by (auto simp: reader_methods_def intro: idle_daemon_trans)
      qed
    qed
  qed
qed

definition visitor_daemon :: "store daemon" where
  "visitor_daemon =
     \<lparr>dm_world = \<lparr>w_co = the (NewCoordinator ''r'' ''/p''), w_store = connection_demo\<lparr>st_db := (st_db connection_demo)\<lparr>member_roles := [(''r'', 1, ''visitor'')]\<rparr>\<rparr>, w_calls = [], w_published = [], w_answers = []\<rparr>,
      dm_hub = NewHub 0 0\<rparr>"

definition visitor_submits :: envelope where
  "visitor_submits =
     \<lparr>en_version = 1, en_kind = KindRequest, en_id = ''q'', en_method = ''submit'', en_requires = [], en_seq = None, en_body = ''{}''\<rparr>"

theorem only_roommates_act_witness:
  "(let r = dispatch demo_repository demo_agent (sqlite_deps None)
              \<lparr>cf_room_id = ''r'', cf_room_name = [], cf_project_root = ''/p'', cf_execution_owner = [], cf_maximum_frame = 8\<rparr>
              \<lparr>actor_uid = 1, actor_name = ''ann''\<rparr> ''c'' visitor_submits visitor_daemon
    in idle_daemon visitor_daemon (snd r) \<and> \<not> fst (fst r))"
proof -
  let ?cf = "\<lparr>cf_room_id = ''r'', cf_room_name = [], cf_project_root = ''/p'', cf_execution_owner = [], cf_maximum_frame = 8\<rparr>"
  let ?a = "\<lparr>actor_uid = 1, actor_name = ''ann''\<rparr>"
  let ?r = "dispatch demo_repository demo_agent (sqlite_deps None) ?cf ?a ''c'' visitor_submits visitor_daemon"
  have role: "role_of (cf_room_id ?cf) (actor_uid ?a) (st_db (w_store (dm_world visitor_daemon))) \<noteq> Some ''roommate''"
    by (simp add: role_of_def find_member_def member_role_def visitor_daemon_def connection_demo_def empty_db_def)
  obtain valid f d' where r: "?r = ((valid, f), d')" by (cases ?r) auto
  from only_roommates_act [OF role r] have "idle_daemon visitor_daemon d'" "\<not> valid"
    by (auto simp: visitor_submits_def)
  with r show ?thesis by (simp add: Let_def)
qed

end
