(* ===== verification/Client_Text.thy ===== *)
theory Client_Text
  imports Daemon
begin

text \<open>
  What the line client types and shows (\<^verbatim>\<open>internal/client/commands.go\<close>, \<^verbatim>\<open>submission.go\<close>,
  \<^verbatim>\<open>answers.go\<close>, and \<^verbatim>\<open>SafeText\<close> of \<^verbatim>\<open>render.go\<close>): command lines, the requests they become, and the
  text that is safe to print. The source of random bytes is the list of bytes still to come.
\<close>

subsection \<open>Words\<close>

text \<open>\<^verbatim>\<open>strings.Fields\<close>: the encoding of a space starts with a byte that continues no other rune.\<close>

definition starts_space :: "bytes \<Rightarrow> bool" where
  "starts_space s \<longleftrightarrow> list_ex (\<lambda>p. prefix p s) go_spaces"

fun split_word :: "bytes \<Rightarrow> bytes \<times> bytes" where
  "split_word [] = ([], [])"
| "split_word (c # s) =
     (if starts_space (c # s) then ([], c # s) else (case split_word s of (w, r) \<Rightarrow> (c # w, r)))"

lemma split_word_append: "fst (split_word s) @ snd (split_word s) = s"
  by (induction s) (auto split: prod.splits)

lemma trim_with_length: "length (trim_with ps s) \<le> length s"
proof (induction ps s rule: trim_with.induct)
  case (1 ps s)
  show ?case
    using 1 by (subst trim_with.simps) (fastforce split: option.split intro: le_trans)
qed

function Fields :: "bytes \<Rightarrow> string list" where
  "Fields s =
     (case trim_with go_spaces s of
        [] \<Rightarrow> []
      | c # t \<Rightarrow> (c # fst (split_word t)) # Fields (snd (split_word t)))"
  by pat_completeness auto
termination
proof (relation "measure length", goal_cases)
  case (2 s c t)
  have "length (snd (split_word t)) \<le> length t"
    using arg_cong [OF split_word_append [of t], of length] by simp
  with 2 trim_with_length [of go_spaces s] show ?case by simp
qed simp

declare Fields.simps [simp del]

definition TrimPrefix :: "bytes \<Rightarrow> bytes \<Rightarrow> bytes" where
  "TrimPrefix s p = (if prefix p s then drop (length p) s else s)"

subsection \<open>Command lines\<close>

record typed_command =
  cm_kind :: string
  cm_text :: string
  cm_target :: string

datatype client_error =
    ErrInvalidCommand | ErrRandom | ErrNoActiveTurn | ErrMutationTooLong
  | ErrTaskSubmission | ErrBrowserOperation | ErrMessageTooLong | ErrRequest wire_error

definition typed :: "string \<Rightarrow> string \<Rightarrow> string \<Rightarrow> client_error + typed_command" where
  "typed k t target = Inr \<lparr>cm_kind = k, cm_text = t, cm_target = target\<rparr>"

definition parse_recover :: "string list \<Rightarrow> string \<Rightarrow> client_error + typed_command" where
  "parse_recover ws text =
     (if length ws < 3 \<or> \<not> ValidMessageID (ws ! 2) then Inl ErrInvalidCommand
      else let action = ws ! 1; target = ws ! 2 in
        if (action = ''retry'' \<or> action = ''skip'') \<and> length ws = 3 then typed action [] target
        else if action = ''continue'' \<and> 3 < length ws
        then typed action (trim_space (TrimPrefix (trim_space (TrimPrefix text action)) target)) target
        else Inl ErrInvalidCommand)"

definition ParseCommand :: "bytes \<Rightarrow> client_error + typed_command" where
  "ParseCommand input =
     (let line = trim_space input in
      if line = [] then Inl ErrInvalidCommand
      else if \<not> prefix ''/'' line then typed ''submit'' line []
      else
        let ws = Fields line; kind = TrimPrefix (hd ws) ''/'';
            text = trim_space (TrimPrefix line (hd ws))
        in if kind = ''steer'' \<or> kind = ''note''
           then (if text \<noteq> [] then typed kind text [] else Inl ErrInvalidCommand)
           else if kind \<in> {''queue'', ''status'', ''who'', ''cancel'', ''diff'', ''quit''}
           then (if length ws = 1 then typed kind [] [] else Inl ErrInvalidCommand)
           else if kind = ''recover'' then parse_recover ws text
           else Inl ErrInvalidCommand)"

subsection \<open>Requests\<close>

text \<open>\<^verbatim>\<open>NewID\<close>: sixteen random bytes; \<^verbatim>\<open>io.ReadFull\<close> uses up a source that ends early.\<close>

definition NewID :: "bytes \<Rightarrow> (client_error + string) \<times> bytes" where
  "NewID rnd = (if 16 \<le> length rnd then (Inr (hex_encode (take 16 rnd)), drop 16 rnd) else (Inl ErrRandom, []))"

definition request_envelope :: "string \<Rightarrow> string \<Rightarrow> json \<Rightarrow> envelope" where
  "request_envelope i meth b =
     \<lparr>en_version = 1, en_kind = KindRequest, en_id = i, en_method = meth, en_requires = [], en_seq = None,
      en_body = json_marshal b\<rparr>"

definition client_request :: "string \<Rightarrow> json \<Rightarrow> bytes \<Rightarrow> (client_error + envelope) \<times> bytes" where
  "client_request meth b rnd =
     (case NewID rnd of
        (Inl e, r) \<Rightarrow> (Inl e, r)
      | (Inr i, r) \<Rightarrow> (Inr (request_envelope i meth b), r))"

definition omit_empty :: "string \<Rightarrow> string \<Rightarrow> (string \<times> json) list" where
  "omit_empty k s = (if s = [] then [] else [(k, JStr s)])"

definition submit_json :: "submit_input \<Rightarrow> json" where
  "submit_json i =
     JObj ((if si_task_id i = 0 then [] else [(''taskId'', JInt (si_task_id i))])
       @ [(''clientMessageId'', JStr (si_client_message_id i)), (''text'', JStr (si_text i))])"

definition steer_json :: "steer_input \<Rightarrow> json" where
  "steer_json i =
     JObj [(''clientMessageId'', JStr (st_client_message_id i)), (''expectedTurnId'', JStr (st_expected_turn_id i)),
           (''text'', JStr (st_text i))]"

definition cancel_json :: "cancel_input \<Rightarrow> json" where
  "cancel_json i =
     JObj [(''clientMessageId'', JStr (ca_client_message_id i)), (''expectedTurnId'', JStr (ca_expected_turn_id i))]"

definition recover_json :: "string \<Rightarrow> string \<Rightarrow> string \<Rightarrow> string \<Rightarrow> string \<Rightarrow> json" where
  "recover_json cid target action repl ins =
     JObj ([(''clientMessageId'', JStr cid), (''targetMessageId'', JStr target), (''action'', JStr action)]
       @ omit_empty ''replacementMessageId'' repl @ omit_empty ''instruction'' ins)"

definition mutation_kinds :: "string list" where
  "mutation_kinds = [''submit'', ''note'', ''steer'', ''cancel'', ''retry'', ''skip'', ''continue'']"

text \<open>The method and the body of a mutation, and what is left of the random bytes.\<close>

definition mutation_body :: "typed_command \<Rightarrow> string \<Rightarrow> string \<Rightarrow> bytes \<Rightarrow> (client_error + string \<times> json) \<times> bytes" where
  "mutation_body cmd active i rnd =
     (if cm_kind cmd = ''submit'' \<or> cm_kind cmd = ''note'' then
        (Inr (cm_kind cmd, submit_json \<lparr>si_task_id = 0, si_client_message_id = i, si_text = cm_text cmd\<rparr>), rnd)
      else if cm_kind cmd = ''steer'' then
        (Inr (cm_kind cmd, steer_json \<lparr>st_client_message_id = i, st_expected_turn_id = active, st_text = cm_text cmd\<rparr>), rnd)
      else if cm_kind cmd = ''cancel'' then
        (Inr (cm_kind cmd, cancel_json \<lparr>ca_client_message_id = i, ca_expected_turn_id = active\<rparr>), rnd)
      else if cm_kind cmd = ''continue'' then
        (case NewID rnd of
           (Inl e, r) \<Rightarrow> (Inl e, r)
         | (Inr repl, r) \<Rightarrow> (Inr (''recover'', recover_json i (cm_target cmd) (cm_kind cmd) repl (cm_text cmd)), r))
      else (Inr (''recover'', recover_json i (cm_target cmd) (cm_kind cmd) [] (cm_text cmd)), rnd))"

definition command_envelope :: "typed_command \<Rightarrow> string \<Rightarrow> bytes \<Rightarrow> (client_error + envelope \<times> bool) \<times> bytes" where
  "command_envelope cmd active rnd =
     (let mutation = cm_kind cmd \<in> set mutation_kinds in
      if (cm_kind cmd = ''steer'' \<or> cm_kind cmd = ''cancel'') \<and> active = [] then (Inl ErrNoActiveTurn, rnd)
      else
        case (if mutation
              then (case NewID rnd of
                      (Inl e, r) \<Rightarrow> (Inl e, r)
                    | (Inr i, r) \<Rightarrow> mutation_body cmd active i r)
              else (Inr (cm_kind cmd, JObj []), rnd)) of
          (Inl e, r) \<Rightarrow> (Inl e, r)
        | (Inr (meth, b), r) \<Rightarrow>
            (case client_request meth b r of
               (Inl e, r') \<Rightarrow> (Inl e, r')
             | (Inr env, r') \<Rightarrow>
                 if mutation \<and> 64 * 2 ^ 10 < length (en_body env) then (Inl ErrMutationTooLong, r')
                 else (Inr (env, mutation), r')))"

subsection \<open>Submissions of the browser\<close>

text \<open>The context and the result channel of a submission belong to its caller.\<close>

record submission =
  sb_task_id :: int
  sb_method :: string
  sb_expected_turn_id :: string
  sb_id :: string
  sb_text :: string

definition submission_body :: "submission \<Rightarrow> client_error + string \<times> json" where
  "submission_body s =
     (let m = (if sb_method s = [] then ''submit'' else sb_method s) in
      if m = ''submit'' \<or> m = ''task_submit'' then
        (if (m = ''task_submit'') \<noteq> (0 < sb_task_id s) then Inl ErrTaskSubmission
         else let i = \<lparr>si_task_id = sb_task_id s, si_client_message_id = sb_id s, si_text = sb_text s\<rparr> in
           case validate_submit i of Some e \<Rightarrow> Inl (ErrRequest (ErrInput e)) | None \<Rightarrow> Inr (m, submit_json i))
      else if m = ''cancel'' then
        (let i = \<lparr>ca_client_message_id = sb_id s, ca_expected_turn_id = sb_expected_turn_id s\<rparr> in
           case validate_cancel i of Some e \<Rightarrow> Inl (ErrRequest (ErrInput e)) | None \<Rightarrow> Inr (m, cancel_json i))
      else Inl ErrBrowserOperation)"

definition submission_envelope :: "submission \<Rightarrow> client_error + envelope" where
  "submission_envelope s =
     (case submission_body s of
        Inl e \<Rightarrow> Inl e
      | Inr (m, b) \<Rightarrow>
          if 64 * 2 ^ 10 < length (json_marshal b) then Inl ErrMessageTooLong
          else Inr (request_envelope (hex_encode (take 16 (sha256 (''browser-request:'' @ sb_id s)))) m b))"

subsection \<open>Answers\<close>

text \<open>
  \<^verbatim>\<open>json.Unmarshal\<close> of a payload, which a decoded event carries as text or as a tree: no text is no
  document. A field that is a structure collects the members of every object given for it.
\<close>

definition payload_value :: "json \<Rightarrow> json option" where
  "payload_value v = (case v of JRaw s \<Rightarrow> json_parse s | w \<Rightarrow> Some w)"

definition struct_ok :: "string \<Rightarrow> json option \<Rightarrow> bool" where
  "struct_ok k v =
     (case v of
        Some (JObj fs) \<Rightarrow>
          list_all (\<lambda>(k', x). fold_name k' = fold_name k \<longrightarrow> (case x of JObj _ \<Rightarrow> True | JNull \<Rightarrow> True | _ \<Rightarrow> False)) fs
      | Some JNull \<Rightarrow> True
      | _ \<Rightarrow> False)"

definition struct_members :: "string \<Rightarrow> json option \<Rightarrow> (string \<times> json) list" where
  "struct_members k v =
     (case v of
        Some (JObj fs) \<Rightarrow>
          concat (map (\<lambda>(k', x). if fold_name k' = fold_name k then (case x of JObj gs \<Rightarrow> gs | _ \<Rightarrow> []) else []) fs)
      | _ \<Rightarrow> [])"

text \<open>\<^verbatim>\<open>answerText\<close>: the text of a completed message of the agent that is not commentary; \<open>None\<close> is the error.\<close>

definition answerText :: "durable_event \<Rightarrow> string option" where
  "answerText e =
     (if de_kind e \<noteq> ''item/completed'' then Some []
      else
        let v = payload_value (de_payload e); b = Some (JObj (struct_members ''payload'' v)) in
        if \<not> struct_ok ''payload'' v \<or> \<not> unmarshal_ok [''type'', ''phase'', ''text''] b then None
        else if unmarshal_string ''type'' b \<noteq> ''agentMessage''
             \<or> (unmarshal_string ''phase'' b \<noteq> [] \<and> unmarshal_string ''phase'' b \<noteq> ''final_answer'')
        then Some []
        else Some (unmarshal_string ''text'' b))"

subsection \<open>Safe text\<close>

fun show_hex :: "nat \<Rightarrow> string" where
  "show_hex n = (if n < 16 then [hex_digit n] else show_hex (n div 16) @ [hex_digit (n mod 16)])"

declare show_hex.simps [simp del]

text \<open>\<^verbatim>\<open>\\u{%04x}\<close> for what a terminal would act on.\<close>

definition escape_rune :: "nat \<Rightarrow> string" where
  "escape_rune r =
     (let h = show_hex r in [CHR 0x5C, CHR ''u'', CHR ''{''] @ replicate (4 - length h) CHR ''0'' @ h @ ''}'')"

definition unsafe_rune :: "nat \<Rightarrow> bool" where
  "unsafe_rune r \<longleftrightarrow> (is_control_rune r \<or> is_format_rune r) \<and> r \<noteq> 0x0A \<and> r \<noteq> 0x09"

definition SafeText :: "bytes \<Rightarrow> bytes" where
  "SafeText s = concat (map (\<lambda>r. if unsafe_rune r then escape_rune r else utf8_encode r) (runes s))"

end
