(* ===== verification/Client_Safe.thy ===== *)
theory Client_Safe
  imports Client_Text
begin

definition scalar :: "nat \<Rightarrow> bool" where
  "scalar r \<longleftrightarrow> r < 0xD800 \<or> (0xDFFF < r \<and> r \<le> 0x10FFFF)"

lemma low_bits:
  "x < 32 \<Longrightarrow> (192 + x) mod 256 = 192 + x \<and> (192 + x) mod 32 = (x :: nat)"
  "x < 16 \<Longrightarrow> (224 + x) mod 256 = 224 + x \<and> (224 + x) mod 16 = (x :: nat)"
  "x < 8 \<Longrightarrow> (240 + x) mod 256 = 240 + x \<and> (240 + x) mod 8 = (x :: nat)"
  "x < 64 \<Longrightarrow> (128 + x) mod 256 = 128 + x \<and> (128 + x) mod 64 = (x :: nat)"
proof -
  have low: "x < n \<Longrightarrow> (n * k + x) mod n = x" for n k x :: nat by simp
  show "x < 32 \<Longrightarrow> (192 + x) mod 256 = 192 + x \<and> (192 + x) mod 32 = (x :: nat)" using low [of x 32 6] by simp
  show "x < 16 \<Longrightarrow> (224 + x) mod 256 = 224 + x \<and> (224 + x) mod 16 = (x :: nat)" using low [of x 16 14] by simp
  show "x < 8 \<Longrightarrow> (240 + x) mod 256 = 240 + x \<and> (240 + x) mod 8 = (x :: nat)" using low [of x 8 30] by simp
  show "x < 64 \<Longrightarrow> (128 + x) mod 256 = 128 + x \<and> (128 + x) mod 64 = (x :: nat)" using low [of x 64 2] by simp
qed

lemma digits_64:
  obtains b c where "r = 4096 * (r div 4096) + 64 * b + c" "b = r div 64 mod 64" "c = r mod 64" "b < 64" "c < (64 :: nat)"
proof -
  have "r div 64 div 64 = r div 4096" by (simp add: div_mult2_eq [symmetric])
  moreover have "r = 64 * (r div 64) + r mod 64" "r div 64 = 64 * (r div 64 div 64) + r div 64 mod 64" by simp_all
  ultimately have "r = 4096 * (r div 4096) + 64 * (r div 64 mod 64) + r mod 64" by linarith
  then show thesis by (rule that) simp_all
qed

lemma encode_two:
  assumes "0x80 \<le> r" "r < 0x800"
  shows "rune_len (utf8_encode r @ t) = 2 \<and> rune_value (utf8_encode r) = r \<and> length (utf8_encode r) = 2"
proof -
  define a b where d: "a = r div 64" "b = r mod 64"
  have r: "r = 64 * a + b" and b: "b < 64" unfolding d by simp_all
  have a: "a < 32" "2 \<le> a" using assms r b by linarith+
  have enc: "utf8_encode r = [char_of (192 + a), char_of (128 + b)]" using assms by (simp add: utf8_encode_def d)
  show ?thesis
    unfolding enc using low_bits(1) [OF a(1)] low_bits(4) [OF b] a b r by (simp add: rune_len_def rune_value_def in_range_def)
qed

lemma encode_three:
  assumes "0x800 \<le> r" "r < 0x10000" "scalar r"
  shows "rune_len (utf8_encode r @ t) = 3 \<and> rune_value (utf8_encode r) = r \<and> length (utf8_encode r) = 3"
proof -
  define a where d: "a = r div 4096"
  obtain b c where r: "r = 4096 * a + 64 * b + c" and bc: "b = r div 64 mod 64" "c = r mod 64" and bounds: "b < 64" "c < 64"
    unfolding d by (rule digits_64)
  have a: "a < 16" using assms(2) r by linarith
  have special: "a = 0 \<Longrightarrow> 32 \<le> b" "a = 13 \<Longrightarrow> b < 32"
    using assms bounds r unfolding scalar_def by linarith+
  have enc: "utf8_encode r = [char_of (224 + a), char_of (128 + b), char_of (128 + c)]"
    using assms by (auto simp: utf8_encode_def scalar_def d bc)
  show ?thesis
    unfolding enc using low_bits(2) [OF a] low_bits(4) [OF bounds(1)] low_bits(4) [OF bounds(2)] a bounds special r
    by (auto simp: rune_len_def rune_value_def in_range_def)
qed

lemma encode_four:
  assumes "0x10000 \<le> r" "r \<le> 0x10FFFF"
  shows "rune_len (utf8_encode r @ t) = 4 \<and> rune_value (utf8_encode r) = r \<and> length (utf8_encode r) = 4"
proof -
  define q where q: "q = r div 4096"
  obtain c e where r: "r = 4096 * q + 64 * c + e" and ce: "c = r div 64 mod 64" "e = r mod 64" and bounds: "c < 64" "e < 64"
    unfolding q by (rule digits_64)
  define a b where ab: "a = q div 64" "b = q mod 64"
  have q': "q = 64 * a + b" and b: "b < 64" unfolding ab by simp_all
  have a: "a < 5" using assms(2) r q' by linarith
  then have a8: "a < 8" by simp
  have special: "a = 0 \<Longrightarrow> 16 \<le> b" "a = 4 \<Longrightarrow> b < 16"
    using assms bounds r q' by linarith+
  have "a = r div 262144" "b = r div 4096 mod 64" unfolding ab q by (simp_all add: div_mult2_eq [symmetric])
  then have enc: "utf8_encode r = [char_of (240 + a), char_of (128 + b), char_of (128 + c), char_of (128 + e)]"
    using assms by (simp add: utf8_encode_def ce)
  show ?thesis
    unfolding enc using low_bits(3) [OF a8] low_bits(4) [OF b] low_bits(4) [OF bounds(1)] low_bits(4) [OF bounds(2)] a b bounds special r q'
    by (auto simp: rune_len_def rune_value_def in_range_def)
qed

lemma runes_encode:
  assumes "scalar r"
  shows "runes (utf8_encode r @ t) = r # runes t"
proof -
  have "rune_len (utf8_encode r @ t) = length (utf8_encode r) \<and> rune_value (utf8_encode r) = r \<and> utf8_encode r \<noteq> []"
  proof -
    consider "r < 0x80" | "0x80 \<le> r" "r < 0x800" | "0x800 \<le> r" "r < 0x10000" | "0x10000 \<le> r" "r \<le> 0x10FFFF"
      using assms by (fastforce simp: scalar_def)
    then show ?thesis
    proof cases
      case 1
      then show ?thesis by (simp add: utf8_encode_def rune_len_def rune_value_def in_range_def)
    next
      case 2
      from encode_two [OF this, of t] show ?thesis by auto
    next
      case 3
      from encode_three [OF this assms, of t] show ?thesis by auto
    next
      case 4
      from encode_four [OF this, of t] show ?thesis by auto
    qed
  qed
  then show ?thesis by (subst runes.simps) simp
qed

lemma rune_len_cases:
  assumes "rune_len (a # t) \<noteq> 0"
  obtains "rune_len (a # t) = 1" "in_range 0 0x7F a"
    | b u where "rune_len (a # t) = 2" "t = b # u" "cont_byte b"
    | b c u where "rune_len (a # t) = 3" "t = b # c # u" "cont_byte c" "in_range 0xE0 0xEF a"
        "if byte_val a = 0xE0 then in_range 0xA0 0xBF b else if byte_val a = 0xED then in_range 0x80 0x9F b else cont_byte b"
    | b c d u where "rune_len (a # t) = 4" "t = b # c # d # u" "cont_byte c" "cont_byte d" "in_range 0xF0 0xF4 a"
        "if byte_val a = 0xF0 then in_range 0x90 0xBF b else if byte_val a = 0xF4 then in_range 0x80 0x8F b else cont_byte b"
proof -
  consider "in_range 0 0x7F a" | "\<not> in_range 0 0x7F a" "in_range 0xC2 0xDF a"
    | "\<not> in_range 0 0x7F a" "\<not> in_range 0xC2 0xDF a" "in_range 0xE0 0xEF a"
    | "\<not> in_range 0 0x7F a" "\<not> in_range 0xC2 0xDF a" "\<not> in_range 0xE0 0xEF a" "in_range 0xF0 0xF4 a"
    using assms by (simp add: rune_len_def split: if_splits)
  then show thesis
  proof cases
    case 1
    then show thesis by (intro that(1)) (simp_all add: rune_len_def)
  next
    case 2
    then obtain b u where "t = b # u" "cont_byte b"
      using assms by (cases t) (simp_all add: rune_len_def split: if_splits)
    with 2 show thesis by (intro that(2) [of b u]) (simp_all add: rune_len_def)
  next
    case 3
    obtain b t' where t: "t = b # t'" using 3 assms by (cases t) (simp_all add: rune_len_def)
    obtain c u where u: "t' = c # u" using 3 assms t by (cases t') (simp_all add: rune_len_def)
    let ?first = "if byte_val a = 0xE0 then in_range 0xA0 0xBF b else if byte_val a = 0xED then in_range 0x80 0x9F b else cont_byte b"
    have len: "rune_len (a # t) = (if ?first \<and> cont_byte c then 3 else 0)"
      using 3 by (simp only: rune_len_def t u list.case if_False if_True)
    with assms have ok: "?first \<and> cont_byte c" by (metis (no_types))
    with len have "rune_len (a # t) = 3" by presburger
    then show thesis using that(3) t u ok 3(3) by blast
  next
    case 4
    obtain b t' where t: "t = b # t'" using 4 assms by (cases t) (simp_all add: rune_len_def)
    obtain c t2 where t2: "t' = c # t2" using 4 assms t by (cases t') (simp_all add: rune_len_def)
    obtain d u where u: "t2 = d # u" using 4 assms t t2 by (cases t2) (simp_all add: rune_len_def)
    let ?first = "if byte_val a = 0xF0 then in_range 0x90 0xBF b else if byte_val a = 0xF4 then in_range 0x80 0x8F b else cont_byte b"
    have len: "rune_len (a # t) = (if ?first \<and> cont_byte c \<and> cont_byte d then 4 else 0)"
      using 4 by (simp only: rune_len_def t t2 u list.case if_False if_True)
    with assms have ok: "?first \<and> cont_byte c \<and> cont_byte d" by (metis (no_types))
    with len have "rune_len (a # t) = 4" by presburger
    then show thesis using that(4) t t2 u ok 4(4) by blast
  qed
qed

lemma cont_mod: "0x80 \<le> n \<Longrightarrow> n \<le> 0xBF \<Longrightarrow> n mod 64 = n - (128 :: nat)"
  using low_bits(4) [of "n - 128"] by simp

lemma rune_value_scalar:
  assumes "rune_len s \<noteq> 0"
  shows "scalar (rune_value (take (rune_len s) s))"
proof -
  obtain a t where s: "s = a # t" using assms by (cases s) (auto simp: rune_len_def)
  from assms have "rune_len (a # t) \<noteq> 0" by (simp add: s)
  then show ?thesis
  proof (cases rule: rune_len_cases)
    case 1
    then show ?thesis by (simp add: s rune_value_def scalar_def in_range_def)
  next
    case (2 b u)
    have "byte_val a mod 32 < 32" "byte_val b mod 64 < 64" by simp_all
    then have "byte_val a mod 32 * 64 + byte_val b mod 64 < 0xD800" by linarith
    with 2 show ?thesis by (simp add: s rune_value_def scalar_def)
  next
    case (3 b c u)
    define x y z :: nat where d: "x = byte_val a mod 16" "y = byte_val b mod 64" "z = byte_val c mod 64"
    have bounds: "x < 16" "y < 64" "z < 64" unfolding d by simp_all
    have "x = 13 \<Longrightarrow> y < 32"
    proof -
      assume "x = 13"
      with 3(4) have "byte_val a = 0xED" unfolding d in_range_def by presburger
      with 3(5) have "0x80 \<le> byte_val b" "byte_val b \<le> (0x9F :: nat)" by (simp_all add: in_range_def)
      then show "y < 32" using cont_mod [of "byte_val b"] unfolding d by linarith
    qed
    then consider "x < 13" | "x = 13" "y < 32" | "13 < x" by linarith
    then have "x * 4096 + y * 64 + z < 0xD800 \<or> 0xDFFF < x * 4096 + y * 64 + z" using bounds by cases auto
    moreover have "x * 4096 + y * 64 + z < 0x10000" using bounds by simp
    ultimately have "scalar (x * 4096 + y * 64 + z)" by (auto simp: scalar_def)
    with 3 show ?thesis by (simp add: s rune_value_def d)
  next
    case (4 b c e u)
    define x y z w :: nat where d: "x = byte_val a mod 8" "y = byte_val b mod 64" "z = byte_val c mod 64" "w = byte_val e mod 64"
    have bounds: "x < 5" "y < 64" "z < 64" "w < 64" using 4(5) unfolding d in_range_def by (simp_all, presburger)
    have "(x = 0 \<longrightarrow> 16 \<le> y) \<and> (x = 4 \<longrightarrow> y < 16)"
    proof (intro conjI impI)
      assume "x = 0"
      with 4(5) have "byte_val a = 0xF0" unfolding d in_range_def by presburger
      with 4(6) have "0x90 \<le> byte_val b" "byte_val b \<le> (0xBF :: nat)" by (simp_all add: in_range_def)
      then show "16 \<le> y" using cont_mod [of "byte_val b"] unfolding d by linarith
    next
      assume "x = 4"
      with 4(5) have "byte_val a = 0xF4" unfolding d in_range_def by presburger
      with 4(6) have "0x80 \<le> byte_val b" "byte_val b \<le> (0x8F :: nat)" by (simp_all add: in_range_def)
      then show "y < 16" using cont_mod [of "byte_val b"] unfolding d by linarith
    qed
    then have "0xDFFF < x * 262144 + y * 4096 + z * 64 + w" "x * 262144 + y * 4096 + z * 64 + w \<le> 0x10FFFF"
      using bounds by linarith+
    then have "scalar (x * 262144 + y * 4096 + z * 64 + w)" by (auto simp: scalar_def)
    with 4 show ?thesis by (simp add: s rune_value_def d)
  qed
qed

lemma runes_scalar: "r \<in> set (runes s) \<Longrightarrow> scalar r"
proof (induction s rule: runes.induct)
  case (1 s)
  then show ?case
    using rune_value_scalar [of s] by (subst (asm) (3) runes.simps) (auto simp: scalar_def split: if_splits)
qed


lemma runes_ascii: "byte_val c < 0x80 \<Longrightarrow> runes (c # t) = byte_val c # runes t"
  using runes_encode [of "byte_val c" t] by (simp add: utf8_encode_def scalar_def)

lemma runes_ascii_append: "list_all (\<lambda>c. byte_val c < 0x80) s \<Longrightarrow> runes (s @ t) = map of_char s @ runes t"
  by (induction s) (simp_all add: runes_ascii)

lemma lower_hex_ascii: "lower_hex c \<Longrightarrow> byte_val c < (0x80 :: nat) \<and> \<not> unsafe_rune (byte_val c)"
  by (auto simp: lower_hex_def unsafe_rune_def is_control_rune_def is_format_rune_def format_ranges_def)

lemma hex_digit_lower: "n < 16 \<Longrightarrow> lower_hex (hex_digit n)"
  using hex_digit_in by (simp add: lower_hex_def)

lemma show_hex_digits: "list_all lower_hex (show_hex n)"
proof (induction n rule: show_hex.induct)
  case (1 n)
  then show ?case by (subst show_hex.simps) (simp add: hex_digit_lower)
qed

lemma escape_rune_safe: "list_all (\<lambda>c. byte_val c < (0x80 :: nat) \<and> \<not> unsafe_rune (byte_val c)) (escape_rune r)"
proof -
  have "list_all (\<lambda>c. byte_val c < (0x80 :: nat) \<and> \<not> unsafe_rune (byte_val c)) (show_hex r)"
    using show_hex_digits [of r] by (auto simp: list_all_iff dest: lower_hex_ascii)
  moreover have "\<not> unsafe_rune n" if "0x20 \<le> n" "n < 0x7F" for n :: nat
    using that by (auto simp: unsafe_rune_def is_control_rune_def is_format_rune_def format_ranges_def)
  ultimately show ?thesis by (auto simp: escape_rune_def Let_def list_all_iff)
qed

lemma escape_rune_runes: "list_all (\<lambda>r. \<not> unsafe_rune r) (map of_char (escape_rune r) :: nat list)"
  using escape_rune_safe [of r] by (simp add: list_all_iff)

text \<open>
  What a terminal acts on, written out: the C0 controls, DEL and the C1 controls, and the characters
  of the Unicode category Cf (soft hyphen, Arabic and other subtending marks, zero-width and
  bidirectional controls, word joiners, the byte order mark, interlinear annotation, Egyptian,
  shorthand and musical format controls, tags). A line break and a tab are harmless.
\<close>

definition control_character :: "nat \<Rightarrow> bool" where
  "control_character r \<longleftrightarrow> r \<le> 0x1F \<or> r = 0x7F \<or> 0x80 \<le> r \<and> r \<le> 0x9F"

definition format_character :: "nat \<Rightarrow> bool" where
  "format_character r \<longleftrightarrow>
     r = 0xAD \<or> 0x600 \<le> r \<and> r \<le> 0x605 \<or> r = 0x61C \<or> r = 0x6DD \<or> r = 0x70F \<or> 0x890 \<le> r \<and> r \<le> 0x891 \<or> r = 0x8E2
     \<or> r = 0x180E \<or> 0x200B \<le> r \<and> r \<le> 0x200F \<or> 0x202A \<le> r \<and> r \<le> 0x202E
     \<or> 0x2060 \<le> r \<and> r \<le> 0x2064 \<or> 0x2066 \<le> r \<and> r \<le> 0x206F \<or> r = 0xFEFF \<or> 0xFFF9 \<le> r \<and> r \<le> 0xFFFB
     \<or> r = 0x110BD \<or> r = 0x110CD \<or> 0x13430 \<le> r \<and> r \<le> 0x1343F \<or> 0x1BCA0 \<le> r \<and> r \<le> 0x1BCA3
     \<or> 0x1D173 \<le> r \<and> r \<le> 0x1D17A \<or> r = 0xE0001 \<or> 0xE0020 \<le> r \<and> r \<le> 0xE007F"

definition acts_on_terminal :: "nat \<Rightarrow> bool" where
  "acts_on_terminal r \<longleftrightarrow> (control_character r \<or> format_character r) \<and> r \<noteq> 0x0A \<and> r \<noteq> 0x09"

text \<open>An escape spells the number of the character, in at least four hexadecimal digits between braces.\<close>

definition hex_number :: "string \<Rightarrow> nat" where
  "hex_number ds = foldl (\<lambda>n d. 16 * n + (case hex_value d of None \<Rightarrow> 0 | Some k \<Rightarrow> k)) 0 ds"

definition spells :: "nat \<Rightarrow> nat list \<Rightarrow> bool" where
  "spells r shown \<longleftrightarrow>
     (\<exists>ds. list_all lower_hex ds \<and> 4 \<le> length ds \<and> hex_number ds = r
        \<and> shown = map of_char ([CHR 0x5C, CHR ''u'', CHR ''{''] @ ds @ ''}''))"

lemma unsafe_rune_acts: "unsafe_rune r \<longleftrightarrow> acts_on_terminal r"
proof -
  have one: "r = k \<longleftrightarrow> k \<le> r \<and> r \<le> k" for k :: nat by auto
  have "is_format_rune r \<longleftrightarrow> format_character r"
    unfolding is_format_rune_def format_ranges_def format_character_def one by simp
  moreover have "is_control_rune r \<longleftrightarrow> control_character r"
    unfolding is_control_rune_def control_character_def by presburger
  ultimately show ?thesis by (simp add: unsafe_rune_def acts_on_terminal_def)
qed

lemma hex_number_snoc: "hex_number (ds @ [d]) = 16 * hex_number ds + (case hex_value d of None \<Rightarrow> 0 | Some k \<Rightarrow> k)"
  by (simp add: hex_number_def)

lemma hex_number_show: "hex_number (show_hex n) = n"
proof (induction n rule: show_hex.induct)
  case (1 n)
  show ?case
  proof (cases "n < 16")
    case True
    then show ?thesis by (subst show_hex.simps) (simp add: hex_number_def hex_value_digit)
  next
    case False
    with 1 show ?thesis by (subst show_hex.simps) (simp add: hex_number_snoc hex_value_digit)
  qed
qed

lemma hex_number_zeros: "hex_number (replicate k (CHR ''0'') @ ds) = hex_number ds"
  by (induction k) (simp_all add: hex_number_def hex_value_def)

lemma escape_rune_spells: "spells r (map of_char (escape_rune r))"
proof -
  let ?h = "show_hex r"
  have "list_all lower_hex (replicate (4 - length ?h) (CHR ''0'') @ ?h)"
    using show_hex_digits [of r] by (simp add: list_all_length nth_append lower_hex_def)
  moreover have "4 \<le> length (replicate (4 - length ?h) (CHR ''0'') @ ?h)" by simp
  moreover have "hex_number (replicate (4 - length ?h) (CHR ''0'') @ ?h) = r" by (simp only: hex_number_zeros hex_number_show)
  moreover have "escape_rune r = [CHR 0x5C, CHR ''u'', CHR ''{''] @ (replicate (4 - length ?h) (CHR ''0'') @ ?h) @ ''}''"
    by (simp only: escape_rune_def Let_def append_assoc)
  ultimately show ?thesis unfolding spells_def by metis
qed

text \<open>
  C24. Text from other people cannot act on the terminal it is shown on: what \<open>SafeText\<close> prints has
  no control and no format character but line breaks and tabs. Every other character of the text
  is printed as it is and in order, and each dangerous one as an escape that spells its number.
\<close>

theorem safe_text_exact:
  "list_all (\<lambda>r. \<not> acts_on_terminal r) (runes (SafeText s))
   \<and> (\<exists>shown. (\<forall>r. spells r (shown r))
        \<and> runes (SafeText s) = concat (map (\<lambda>r. if acts_on_terminal r then shown r else [r]) (runes s)))"
proof -
  let ?show = "\<lambda>r. if unsafe_rune r then escape_rune r else utf8_encode r"
  have exact: "runes (concat (map ?show rs)) = concat (map (\<lambda>r. if unsafe_rune r then map of_char (escape_rune r) else [r]) rs)"
    if "\<forall>r \<in> set rs. scalar r" for rs
    using that
  proof (induction rs)
    case Nil
    show ?case by (simp add: runes.simps)
  next
    case (Cons r rs)
    have "list_all (\<lambda>c. byte_val c < (0x80 :: nat)) (escape_rune r)"
      using escape_rune_safe [of r] by (simp add: list_all_iff)
    with Cons show ?case by (simp add: runes_ascii_append runes_encode)
  qed
  have 1: "runes (SafeText s) = concat (map (\<lambda>r. if unsafe_rune r then map of_char (escape_rune r) else [r]) (runes s))"
    unfolding SafeText_def using runes_scalar by (intro exact) blast
  moreover have "list_all (\<lambda>r. \<not> unsafe_rune r) (concat (map (\<lambda>r. if unsafe_rune r then map of_char (escape_rune r) else [r]) rs))" for rs
    by (induction rs) (simp_all add: escape_rune_runes)
  ultimately have "list_all (\<lambda>r. \<not> unsafe_rune r) (runes (SafeText s))" by simp
  with 1 show ?thesis
    unfolding unsafe_rune_acts using escape_rune_spells by (intro conjI exI [of _ "\<lambda>r. map of_char (escape_rune r)"]) auto
qed

end
