(* ===== verification/Client_Requests.thy ===== *)
theory Client_Requests
  imports Client_Text
begin

text \<open>
  From the line a member types to the command of the coordinator: the requests of the client are
  the ones the daemon reads back.
\<close>

subsection \<open>Bodies are read back\<close>

lemma DecodeBody_marshal:
  assumes "printable (JObj fs)" "nesting (JObj fs) \<le> max_nesting" "fits SUnique (JObj fs)" "fits sh (JObj fs)"
  shows "DecodeBody sh get validate (json_marshal (JObj fs)) =
    rbind (get fs) (\<lambda>x. case validate x of None \<Rightarrow> Inr x | Some e \<Rightarrow> Inl e)"
proof -
  let ?t = "json_marshal (JObj fs)"
  have "utf8_valid ?t" by (rule utf8_valid_marshal [OF assms(1)])
  then have "validateJSON ?t = None" "validateExactCase sh ?t = None"
    using json_tree_marshal [OF assms(1)] assms(3,4) by (simp_all only: validate_document if_True if_False scan_document_iff simp_thms) auto
  moreover have "parse_value (parse_fuel ?t) max_nesting ?t = Some (JObj fs, [])"
    using reads_backD [OF marshal_reads_back [OF assms(1)] assms(2), of "[]" "parse_fuel ?t"] by (simp add: parse_fuel_def)
  ultimately show ?thesis
    by (simp only: DecodeBody_def) (simp add: object_members_def rbind_def reject_def split: sum.split option.split del: json_marshal.simps)
qed

definition checked :: "('a \<Rightarrow> err option) \<Rightarrow> 'a \<Rightarrow> wire_error + 'a" where
  "checked validate x = (case validate x of None \<Rightarrow> Inr x | Some e \<Rightarrow> Inl (ErrInput e))"

lemma checked_input: "(case input_error (validate x) of None \<Rightarrow> Inr x | Some e \<Rightarrow> Inl e) = checked validate x"
  by (simp add: checked_def input_error_def split: option.split)

lemma decode_int64_nat: "int n < 2 ^ 63 \<Longrightarrow> decode_int64 old (JNum (show_nat n)) = Inr (int n)"
proof -
  note d = show_nat_digits [of n]
  then obtain c t where ct: "show_nat n = c # t" "is_digit c" by (cases "show_nat n") auto
  then have "\<not> prefix ''-'' (show_nat n)" by (auto simp: is_digit_def in_range_def)
  moreover assume "int n < 2 ^ 63"
  ultimately show ?thesis using d by (simp add: decode_int64_def)
qed

lemmas shape_simps = keys_ok_def max_nesting_def fold_max_le float_limit_def number_overflows_nat utf8_valid_ascii in_range_def

lemma decode_submit_json:
  assumes "utf8_valid (si_client_message_id i)" "utf8_valid (si_text i)" "0 \<le> si_task_id i" "si_task_id i < 2 ^ 63"
  shows "decode_submit (json_marshal (submit_json i)) = checked validate_submit i"
proof -
  obtain n where n: "si_task_id i = int n" using assms(3) by (metis zero_le_imp_eq_int)
  have "decode_int64 0 JNull = Inr 0" by (simp add: decode_int64_def)
  then show ?thesis
    using assms n decode_int64_nat [of n 0] parse_show_nat [of n]
    unfolding decode_submit_def submit_json_def
    by (cases i, subst DecodeBody_marshal)
      (auto simp: shape_simps submit_fields_def field_def decode_string_def checked_input)
qed

lemma decode_steer_json:
  assumes "utf8_valid (st_client_message_id i)" "utf8_valid (st_expected_turn_id i)" "utf8_valid (st_text i)"
  shows "decode_steer (json_marshal (steer_json i)) = checked validate_steer i"
  using assms unfolding decode_steer_def steer_json_def
  by (cases i, subst DecodeBody_marshal) (auto simp: shape_simps steer_fields_def field_def decode_string_def checked_input)

lemma decode_cancel_json:
  assumes "utf8_valid (ca_client_message_id i)" "utf8_valid (ca_expected_turn_id i)"
  shows "decode_cancel (json_marshal (cancel_json i)) = checked validate_cancel i"
  using assms unfolding decode_cancel_def cancel_json_def
  by (cases i, subst DecodeBody_marshal) (auto simp: shape_simps cancel_fields_def field_def decode_string_def checked_input)

lemma decode_recover_json:
  assumes "utf8_valid cid" "utf8_valid target" "utf8_valid action" "utf8_valid repl" "utf8_valid ins"
  shows "decode_recover (json_marshal (recover_json cid target action repl ins)) =
    checked validate_recover \<lparr>ri_client_message_id = cid, ri_target_message_id = target, ri_action = recovery_action_of action,
      ri_replacement_message_id = repl, ri_instruction = ins\<rparr>"
  using assms unfolding decode_recover_def recover_json_def omit_empty_def
  by (subst DecodeBody_marshal) (auto simp: shape_simps recover_fields_def field_def decode_string_def checked_input)

lemma decode_empty_json: "decode_empty (json_marshal (JObj [])) = Inr ()"
  unfolding decode_empty_def by (subst DecodeBody_marshal) (auto simp: shape_simps)

subsection \<open>Trimmed text\<close>

lemma trim_with_stuck: "find (\<lambda>p. p \<noteq> [] \<and> prefix p (trim_with ps s)) ps = None"
proof (induction ps s rule: trim_with.induct)
  case (1 ps s)
  show ?case
  proof (cases "find (\<lambda>p. p \<noteq> [] \<and> prefix p s) ps")
    case None
    then show ?thesis by (simp add: trim_with.simps [of ps s])
  next
    case (Some p)
    with 1 show ?thesis by (simp add: trim_with.simps [of ps s])
  qed
qed

lemma trim_with_id: "find (\<lambda>p. p \<noteq> [] \<and> prefix p s) ps = None \<Longrightarrow> trim_with ps s = s"
  by (simp add: trim_with.simps)

lemma trim_with_suffix: "suffix (trim_with ps s) s"
proof (induction ps s rule: trim_with.induct)
  case (1 ps s)
  show ?case
  proof (cases "find (\<lambda>p. p \<noteq> [] \<and> prefix p s) ps")
    case (Some p)
    with 1 have "suffix (trim_with ps (drop (length p) s)) s" using suffix_drop suffix_order.trans by blast
    with Some show ?thesis by (simp add: trim_with.simps [of ps s])
  qed (simp add: trim_with.simps [of ps s])
qed

lemma trim_space_again: "trim_space (trim_space s) = trim_space s"
proof -
  let ?u = "trim_with go_spaces s"
  let ?t = "trim_space s"
  have rev: "rev ?t = trim_with (map rev go_spaces) (rev ?u)" by (simp add: trim_space_def)
  with trim_with_suffix [of "map rev go_spaces" "rev ?u"] have "prefix ?t ?u" by (simp add: suffix_to_prefix trim_space_def)
  with trim_with_stuck [of go_spaces s] have "trim_with go_spaces ?t = ?t"
    by (intro trim_with_id) (auto simp: find_None_iff intro: prefix_order.trans)
  moreover have "trim_with (map rev go_spaces) (rev ?t) = rev ?t"
    unfolding rev by (intro trim_with_id trim_with_stuck)
  ultimately show ?thesis by (simp add: trim_space_def)
qed

lemma trimmed_not_blank: "trim_space s \<noteq> [] \<Longrightarrow> \<not> blank (trim_space s)"
  by (simp add: blank_def trim_space_again)

lemma ParseCommand_kinds:
  assumes "ParseCommand line = Inr cmd"
  obtains "cm_kind cmd = ''submit'' \<or> cm_kind cmd = ''note'' \<or> cm_kind cmd = ''steer''" "\<not> blank (cm_text cmd)"
    | "cm_kind cmd = ''cancel''"
    | "cm_kind cmd = ''retry'' \<or> cm_kind cmd = ''skip''" "cm_text cmd = []" "ValidMessageID (cm_target cmd)"
    | "cm_kind cmd = ''continue''" "ValidMessageID (cm_target cmd)"
    | "cm_kind cmd = ''queue'' \<or> cm_kind cmd = ''status'' \<or> cm_kind cmd = ''who'' \<or> cm_kind cmd = ''diff'' \<or> cm_kind cmd = ''quit''"
  using assms trimmed_not_blank
  by (auto simp: ParseCommand_def parse_recover_def typed_def Let_def split: if_splits)

subsection \<open>What a typed line asks for\<close>

definition typed_request :: "actor \<Rightarrow> string \<Rightarrow> string \<Rightarrow> string \<Rightarrow> typed_command \<Rightarrow> request" where
  "typed_request a active cid repl cmd =
     (let k = cm_kind cmd in
      if k = ''submit'' \<or> k = ''note'' then
        ReqCommand (CmdSubmit a \<lparr>si_task_id = 0, si_client_message_id = cid, si_text = cm_text cmd\<rparr> (k = ''note''))
      else if k = ''steer'' then
        ReqCommand (CmdControl a \<lparr>ci_client_message_id = cid, ci_kind = ControlSteer, ci_expected_turn_id = active, ci_text = cm_text cmd\<rparr>)
      else if k = ''cancel'' then
        ReqCommand (CmdControl a \<lparr>ci_client_message_id = cid, ci_kind = ControlCancel, ci_expected_turn_id = active, ci_text = []\<rparr>)
      else if k = ''retry'' \<or> k = ''skip'' \<or> k = ''continue'' then
        ReqCommand (CmdResolve a \<lparr>ri_client_message_id = cid, ri_target_message_id = cm_target cmd, ri_action = recovery_action_of k,
          ri_replacement_message_id = (if k = ''continue'' then repl else []), ri_instruction = cm_text cmd\<rparr>)
      else if k = ''who'' then ReqWho
      else if k = ''diff'' then ReqDiff
      else ReqSnapshot)"

definition request_valid :: "request \<Rightarrow> bool" where
  "request_valid q = (case q of ReqCommand c \<Rightarrow> command_error c = None | _ \<Rightarrow> True)"

lemma NewID_valid: "NewID rnd = (Inr i, r) \<Longrightarrow> i = hex_encode (take 16 rnd) \<and> r = drop 16 rnd \<and> ValidMessageID i \<and> ValidClientMessageID i"
  by (auto simp: NewID_def ValidMessageID_def ValidClientMessageID_def validHexID_def list_all_iff dest: lower_hex_encode split: if_splits)

lemma hex_id_utf8: "utf8_valid (hex_encode s)"
proof -
  have "in_range 0 0x7F c" if "c \<in> set (hex_encode s)" for c
    using lower_hex_encode [OF that] by (auto simp: lower_hex_def in_range_def)
  then show ?thesis by (intro utf8_valid_ascii) blast
qed

lemma plain_utf8 [simp]:
  "utf8_valid ''retry''" "utf8_valid ''skip''" "utf8_valid ''continue''" "utf8_valid []"
  by (simp_all add: utf8_valid_ascii in_range_def)

text \<open>The body and the method of the envelope, by kind.\<close>

lemma command_envelope_parts:
  assumes "command_envelope cmd active rnd = (Inr (env, mutation), rnd')"
  obtains meth b i where "env = request_envelope i meth b" "ValidMessageID i"
    "mutation \<longleftrightarrow> cm_kind cmd \<in> set mutation_kinds" "mutation \<longrightarrow> length (en_body env) \<le> 64 * 2 ^ 10"
    "if mutation then \<exists>r. mutation_body cmd active (hex_encode (take 16 rnd)) (drop 16 rnd) = (Inr (meth, b), r) \<and> ValidClientMessageID (hex_encode (take 16 rnd))
     else meth = cm_kind cmd \<and> b = JObj []"
  using assms
  by (auto simp: command_envelope_def client_request_def Let_def split: if_splits prod.splits sum.splits dest!: NewID_valid)
    (metis not_less)+

lemma document_valid:
  assumes "printable v" "fits SUnique v"
  shows "validateJSON (json_marshal v) = None" "json_marshal v \<noteq> []"
proof -
  from assms show "validateJSON (json_marshal v) = None"
    using json_tree_marshal [OF assms(1)] utf8_valid_marshal [OF assms(1)] by (simp add: validate_document scan_document_iff)
  from marshal_head [OF assms(1)] show "json_marshal v \<noteq> []" by (metis list.distinct(1))
qed

lemma request_envelope_valid:
  assumes "ValidMessageID i" "\<not> blank meth" "printable v" "fits SUnique v"
  shows "validate_envelope (request_envelope i meth v) = None"
  using assms document_valid [OF assms(3,4)]
  by (simp add: validate_envelope_def request_envelope_def Version_def KindRequest_def blank_def)

lemma methods_not_blank:
  "\<not> blank ''submit''" "\<not> blank ''note''" "\<not> blank ''steer''" "\<not> blank ''cancel''" "\<not> blank ''recover''"
  "\<not> blank ''queue''" "\<not> blank ''status''" "\<not> blank ''who''" "\<not> blank ''diff''"
  by code_simp+

lemma mutation_documents:
  assumes "utf8_valid i" "utf8_valid t" "utf8_valid u" "utf8_valid x" "utf8_valid y"
  shows "printable (submit_json \<lparr>si_task_id = 0, si_client_message_id = i, si_text = t\<rparr>)
      \<and> fits SUnique (submit_json \<lparr>si_task_id = 0, si_client_message_id = i, si_text = t\<rparr>)"
    "printable (steer_json \<lparr>st_client_message_id = i, st_expected_turn_id = u, st_text = t\<rparr>)
      \<and> fits SUnique (steer_json \<lparr>st_client_message_id = i, st_expected_turn_id = u, st_text = t\<rparr>)"
    "printable (cancel_json \<lparr>ca_client_message_id = i, ca_expected_turn_id = u\<rparr>)
      \<and> fits SUnique (cancel_json \<lparr>ca_client_message_id = i, ca_expected_turn_id = u\<rparr>)"
    "printable (recover_json i t u x y) \<and> fits SUnique (recover_json i t u x y)"
  using assms
  by (auto simp: submit_json_def steer_json_def cancel_json_def recover_json_def omit_empty_def shape_simps)

lemma decode_methods:
  "decode_request a (request_envelope j ''submit'' b) =
     (case decode_submit (json_marshal b) of Inl _ \<Rightarrow> None
      | Inr i \<Rightarrow> if 0 < si_task_id i then None else Some (ReqCommand (CmdSubmit a i False)))"
  "decode_request a (request_envelope j ''note'' b) =
     (case decode_submit (json_marshal b) of Inl _ \<Rightarrow> None
      | Inr i \<Rightarrow> if 0 < si_task_id i then None else Some (ReqCommand (CmdSubmit a i True)))"
  "decode_request a (request_envelope j ''task_submit'' b) =
     (case decode_submit (json_marshal b) of Inl _ \<Rightarrow> None
      | Inr i \<Rightarrow> if \<not> 0 < si_task_id i then None else Some (ReqCommand (CmdSubmit a i False)))"
  "decode_request a (request_envelope j ''steer'' b) =
     (case decode_steer (json_marshal b) of Inl _ \<Rightarrow> None
      | Inr i \<Rightarrow> Some (ReqCommand (CmdControl a \<lparr>ci_client_message_id = st_client_message_id i, ci_kind = ControlSteer,
                    ci_expected_turn_id = st_expected_turn_id i, ci_text = st_text i\<rparr>)))"
  "decode_request a (request_envelope j ''cancel'' b) =
     (case decode_cancel (json_marshal b) of Inl _ \<Rightarrow> None
      | Inr i \<Rightarrow> Some (ReqCommand (CmdControl a \<lparr>ci_client_message_id = ca_client_message_id i, ci_kind = ControlCancel,
                    ci_expected_turn_id = ca_expected_turn_id i, ci_text = []\<rparr>)))"
  "decode_request a (request_envelope j ''recover'' b) =
     (case decode_recover (json_marshal b) of Inl _ \<Rightarrow> None | Inr i \<Rightarrow> Some (ReqCommand (CmdResolve a i)))"
  by (simp_all add: decode_request_def request_envelope_def Let_def del: json_marshal.simps split: sum.split)

lemma decode_queries:
  "decode_request a (request_envelope j ''queue'' (JObj [])) = Some ReqSnapshot"
  "decode_request a (request_envelope j ''status'' (JObj [])) = Some ReqSnapshot"
  "decode_request a (request_envelope j ''who'' (JObj [])) = Some ReqWho"
  "decode_request a (request_envelope j ''diff'' (JObj [])) = Some ReqDiff"
  using decode_empty_json by (simp_all add: decode_request_def request_envelope_def Let_def del: json_marshal.simps)

lemma typed_mutation:
  assumes "ParseCommand line = Inr cmd" "mutation_body cmd active i r = (Inr (meth, b), r')"
    and "ValidClientMessageID i" "utf8_valid (cm_text cmd)" "utf8_valid active" "cm_kind cmd \<in> set mutation_kinds"
  shows "printable b \<and> fits SUnique b \<and> \<not> blank meth
    \<and> decode_request a (request_envelope j meth b) =
        (if request_valid (typed_request a active i (hex_encode (take 16 r)) cmd)
         then Some (typed_request a active i (hex_encode (take 16 r)) cmd) else None)
    \<and> (\<exists>c. typed_request a active i (hex_encode (take 16 r)) cmd = ReqCommand c)
    \<and> (cm_kind cmd \<in> {''submit'', ''note'', ''retry'', ''skip''} \<longrightarrow>
         request_valid (typed_request a active i (hex_encode (take 16 r)) cmd))"
proof -
  have i: "utf8_valid i" using assms(3) utf8_valid_id by (simp add: ValidClientMessageID_def validHexID_def ValidMessageID_def)
  have target: "utf8_valid t" if "ValidMessageID t" for t using that by (rule utf8_valid_id)
  have same: "ValidClientMessageID t = ValidMessageID t" for t
    by (simp add: ValidClientMessageID_def validHexID_def ValidMessageID_def)
  note docs = mutation_documents [OF i]
  note decode = decode_methods checked_def request_valid_def typed_request_def
  from assms(1) consider (submit) "cm_kind cmd = ''submit''" "\<not> blank (cm_text cmd)" | (noted) "cm_kind cmd = ''note''" "\<not> blank (cm_text cmd)"
    | (steer) "cm_kind cmd = ''steer''" "\<not> blank (cm_text cmd)"
    | (cancel) "cm_kind cmd = ''cancel''"
    | (retry) "cm_kind cmd = ''retry''" "cm_text cmd = []" "ValidMessageID (cm_target cmd)"
    | (skip) "cm_kind cmd = ''skip''" "cm_text cmd = []" "ValidMessageID (cm_target cmd)"
    | (continue) "cm_kind cmd = ''continue''" "ValidMessageID (cm_target cmd)"
    | (other) "cm_kind cmd \<notin> set mutation_kinds"
    by (rule ParseCommand_kinds) (auto simp: mutation_kinds_def)
  then show ?thesis
  proof cases
    case submit
    with assms(2) have "meth = ''submit''" "b = submit_json \<lparr>si_task_id = 0, si_client_message_id = i, si_text = cm_text cmd\<rparr>"
      by (simp_all add: mutation_body_def)
    with submit assms(3,4) docs(1) [of "cm_text cmd"] i methods_not_blank(1)
        decode_submit_json [of "\<lparr>si_task_id = 0, si_client_message_id = i, si_text = cm_text cmd\<rparr>"]
    show ?thesis by (simp add: decode validate_submit_def del: json_marshal.simps)
  next
    case noted
    with assms(2) have "meth = ''note''" "b = submit_json \<lparr>si_task_id = 0, si_client_message_id = i, si_text = cm_text cmd\<rparr>"
      by (simp_all add: mutation_body_def)
    with noted assms(3,4) docs(1) [of "cm_text cmd"] i methods_not_blank(2)
        decode_submit_json [of "\<lparr>si_task_id = 0, si_client_message_id = i, si_text = cm_text cmd\<rparr>"]
    show ?thesis by (simp add: decode validate_submit_def del: json_marshal.simps)
  next
    case steer
    with assms(2) have "meth = ''steer''" "b = steer_json \<lparr>st_client_message_id = i, st_expected_turn_id = active, st_text = cm_text cmd\<rparr>"
      by (simp_all add: mutation_body_def)
    with steer assms(4,5) docs(2) [of "cm_text cmd" active] i methods_not_blank(3)
        decode_steer_json [of "\<lparr>st_client_message_id = i, st_expected_turn_id = active, st_text = cm_text cmd\<rparr>"]
    show ?thesis by (simp add: decode del: json_marshal.simps split: option.split)
  next
    case cancel
    with assms(2) have "meth = ''cancel''" "b = cancel_json \<lparr>ca_client_message_id = i, ca_expected_turn_id = active\<rparr>"
      by (simp_all add: mutation_body_def)
    with cancel assms(5) docs(3) [of "[]" active] i methods_not_blank(4)
        decode_cancel_json [of "\<lparr>ca_client_message_id = i, ca_expected_turn_id = active\<rparr>"]
    show ?thesis by (simp add: decode del: json_marshal.simps split: option.split)
  next
    case retry
    with assms(2) have "meth = ''recover''" "b = recover_json i (cm_target cmd) ''retry'' [] []"
      by (simp_all add: mutation_body_def)
    with retry assms(3) docs(4) [of "cm_target cmd" "''retry''" "[]" "[]"] i target [of "cm_target cmd"] methods_not_blank(5)
        decode_recover_json [of i "cm_target cmd" "''retry''" "[]" "[]"] same
    show ?thesis by (simp add: decode validate_recover_def recovery_action_of_def del: json_marshal.simps)
  next
    case skip
    with assms(2) have "meth = ''recover''" "b = recover_json i (cm_target cmd) ''skip'' [] []"
      by (simp_all add: mutation_body_def)
    with skip assms(3) docs(4) [of "cm_target cmd" "''skip''" "[]" "[]"] i target [of "cm_target cmd"] methods_not_blank(5)
        decode_recover_json [of i "cm_target cmd" "''skip''" "[]" "[]"] same
    show ?thesis by (simp add: decode validate_recover_def recovery_action_of_def del: json_marshal.simps)
  next
    case continue
    obtain repl r2 where n: "NewID r = (Inr repl, r2)" "b = recover_json i (cm_target cmd) ''continue'' repl (cm_text cmd)" "meth = ''recover''"
      using assms(2) continue by (auto simp: mutation_body_def split: prod.splits sum.splits)
    from NewID_valid [OF n(1)] have repl: "repl = hex_encode (take 16 r)" "utf8_valid repl" by (simp_all add: hex_id_utf8)
    show ?thesis
      using continue assms(4) docs(4) [of "cm_target cmd" "''continue''" repl "cm_text cmd"] i repl target [of "cm_target cmd"] methods_not_blank(5)
        decode_recover_json [of i "cm_target cmd" "''continue''" repl "cm_text cmd"]
      unfolding n(2,3) by (simp add: decode del: json_marshal.simps split: option.split)
  next
    case other
    with assms(6) show ?thesis by simp
  qed
qed


definition demo_typed :: typed_command where
  "demo_typed = \<lparr>cm_kind = ''submit'', cm_text = ''hi'', cm_target = []\<rparr>"


text \<open>
  The same holds of the messages a browser submits, whose identifiers are its own: a retry is the
  same envelope, so the room sees a duplicate and not a second message.
\<close>

lemma submission_reaches_room:
  assumes "submission_envelope s = Inr env" "utf8_valid (sb_text s)" "utf8_valid (sb_expected_turn_id s)" "sb_task_id s < 2 ^ 63"
  shows "decode_request a env = Some (ReqCommand
    (if sb_method s = ''cancel''
     then CmdControl a \<lparr>ci_client_message_id = sb_id s, ci_kind = ControlCancel, ci_expected_turn_id = sb_expected_turn_id s, ci_text = []\<rparr>
     else CmdSubmit a \<lparr>si_task_id = sb_task_id s, si_client_message_id = sb_id s, si_text = sb_text s\<rparr> False))"
proof -
  have utf8: "utf8_valid (sb_id s)" if "ValidClientMessageID (sb_id s)"
    using that utf8_valid_id by (simp add: ValidClientMessageID_def validHexID_def ValidMessageID_def)
  from assms(1) obtain m b where b: "submission_body s = Inr (m, b)" "env = request_envelope (hex_encode (take 16 (sha256 (''browser-request:'' @ sb_id s)))) m b"
    by (auto simp: submission_envelope_def split: sum.splits prod.splits if_splits)
  show ?thesis
  proof (cases "m = ''cancel''")
    case True
    with b(1) have "b = cancel_json \<lparr>ca_client_message_id = sb_id s, ca_expected_turn_id = sb_expected_turn_id s\<rparr>"
      "sb_method s = ''cancel''" "validate_cancel \<lparr>ca_client_message_id = sb_id s, ca_expected_turn_id = sb_expected_turn_id s\<rparr> = None"
      by (auto simp: submission_body_def Let_def split: if_splits option.splits)
    moreover from this(3) have "utf8_valid (sb_id s)" by (intro utf8) (simp add: validate_cancel_def split: if_splits)
    ultimately show ?thesis
      using assms(3) True decode_cancel_json [of "\<lparr>ca_client_message_id = sb_id s, ca_expected_turn_id = sb_expected_turn_id s\<rparr>"]
      by (simp add: b(2) decode_methods checked_def del: json_marshal.simps)
  next
    case False
    with b(1) have m: "m = ''submit'' \<or> m = ''task_submit''" "(m = ''task_submit'') = (0 < sb_task_id s)" "sb_method s \<noteq> ''cancel''"
      "b = submit_json \<lparr>si_task_id = sb_task_id s, si_client_message_id = sb_id s, si_text = sb_text s\<rparr>"
      "validate_submit \<lparr>si_task_id = sb_task_id s, si_client_message_id = sb_id s, si_text = sb_text s\<rparr> = None"
      by (auto simp: submission_body_def Let_def split: if_splits option.splits)
    from m(5) have "utf8_valid (sb_id s)" "0 \<le> sb_task_id s" by (auto intro!: utf8 simp: validate_submit_def split: if_splits)
    with assms(2,4) m decode_submit_json [of "\<lparr>si_task_id = sb_task_id s, si_client_message_id = sb_id s, si_text = sb_text s\<rparr>"]
    show ?thesis by (auto simp: b(2) decode_methods checked_def simp del: json_marshal.simps)
  qed
qed

end
