(* ===== verification/Client_Projection.thy ===== *)
theory Client_Projection
  imports Client_Text
begin

text \<open>
  What the client keeps of the running turn (\<^verbatim>\<open>internal/client/render.go\<close>): its own bounded copy of
  the live projection, rebuilt from a snapshot and followed through transient and durable events.
  A step returns what it prints. The map of partial texts is an association list.
\<close>

record client_projection =
  cp_active :: turn_id
  cp_watermark :: nat
  cp_revision :: nat
  cp_partial :: "(projection_key \<times> string) list"
  cp_used :: int
  cp_truncated :: bool

definition new_client_projection :: client_projection where
  "new_client_projection =
     \<lparr>cp_active = [], cp_watermark = 0, cp_revision = 0, cp_partial = [], cp_used = 0, cp_truncated = False\<rparr>"

text \<open>The loop of \<^verbatim>\<open>snapshot\<close>: items are taken while the budget lasts.\<close>

fun take_items :: "wire_item list \<Rightarrow> client_projection \<Rightarrow> client_projection" where
  "take_items [] p = p"
| "take_items (v # vs) p =
     (let k = ProjectionKey (wi_thread_id v) (wi_turn_id v) (wi_item_id v); cost = key_cost k (wi_partial v) in
      if LiveProjectionBudget - cp_used p < cost then p\<lparr>cp_truncated := True\<rparr>
      else take_items vs (p\<lparr>cp_partial := put k (wi_partial v) (cp_partial p), cp_used := cp_used p + cost\<rparr>))"

definition cp_snapshot :: "runtime_snapshot \<Rightarrow> client_projection" where
  "cp_snapshot s =
     take_items (rs_live_items s)
       \<lparr>cp_active = rs_active_turn_id s, cp_watermark = rs_watermark s, cp_revision = rs_revision s,
        cp_partial = [], cp_used = 0, cp_truncated = rs_truncated s\<rparr>"

definition cp_remove :: "projection_key \<Rightarrow> client_projection \<Rightarrow> client_projection" where
  "cp_remove k p =
     (case map_of (cp_partial p) k of
        Some s \<Rightarrow> p\<lparr>cp_used := cp_used p - key_cost k s, cp_partial := filter (\<lambda>q. fst q \<noteq> k) (cp_partial p)\<rparr>
      | None \<Rightarrow> p)"

definition truncated_line :: bytes where
  "truncated_line = ''[stream truncated; completed output follows]'' @ [CHR 0x0A]"

definition partial_line :: "string \<Rightarrow> string \<Rightarrow> bytes" where
  "partial_line i d = ''[partial '' @ SafeText i @ ''] '' @ SafeText d @ [CHR 0x0A]"

definition cp_delta :: "projection_key \<Rightarrow> string \<Rightarrow> client_projection \<Rightarrow> bytes \<times> client_projection" where
  "cp_delta k d p =
     (let found = map_of (cp_partial p) k;
          cost = 6 * int (length d) + (if found = None then key_cost k [] else 0)
      in if LiveProjectionBudget - cp_used p < cost then (truncated_line, p\<lparr>cp_truncated := True\<rparr>)
         else (partial_line (pk_item k) d,
               p\<lparr>cp_used := cp_used p + cost,
                 cp_partial := put k ((case found of Some s \<Rightarrow> s | None \<Rightarrow> []) @ d) (cp_partial p)\<rparr>))"

definition cp_transient :: "transient_event \<Rightarrow> client_projection \<Rightarrow> bytes \<times> client_projection" where
  "cp_transient e p =
     (if te_revision e \<le> cp_revision p then ([], p)
      else
        let p1 = p\<lparr>cp_revision := te_revision e\<rparr>; k = ProjectionKey (te_thread_id e) (te_turn_id e) (te_item_id e) in
        if te_kind e = ''projection-truncated'' then (truncated_line, p1\<lparr>cp_truncated := True\<rparr>)
        else if te_kind e = ''projection-reset'' then ([], p1\<lparr>cp_truncated := False\<rparr>)
        else if te_kind e \<noteq> ''item-delta'' then ([], cp_remove k p1)
        else if cp_truncated p1 then ([], p1)
        else cp_delta k (te_delta e) p1)"

definition payload_text :: "json \<Rightarrow> bytes" where
  "payload_text v = (case v of JRaw s \<Rightarrow> s | w \<Rightarrow> json_marshal w)"

definition durable_line :: "durable_event \<Rightarrow> bytes" where
  "durable_line e =
     ''['' @ show_nat (de_seq e) @ '' '' @ SafeText (de_kind e) @ '' uid='' @ show_nat (de_actor_uid e) @ ''] ''
     @ SafeText (payload_text (de_payload e)) @ [CHR 0x0A]"

definition ends_turn :: "string \<Rightarrow> bool" where
  "ends_turn k \<longleftrightarrow> k = ''turn/completed'' \<or> k = ''turn/failed'' \<or> k = ''turn/interrupted'' \<or> k = ''turn/needs-review''"

definition cp_end_turn :: "turn_id \<Rightarrow> client_projection \<Rightarrow> client_projection" where
  "cp_end_turn t p =
     (let p1 = fold cp_remove (filter (\<lambda>k. pk_turn k = t) (map fst (cp_partial p))) p; p2 = p1\<lparr>cp_truncated := False\<rparr>
      in if cp_active p2 = t then p2\<lparr>cp_active := []\<rparr> else p2)"

text \<open>\<open>None\<close> is the error of \<^verbatim>\<open>json.Unmarshal\<close>.\<close>

definition cp_durable :: "durable_event \<Rightarrow> client_projection \<Rightarrow> (bytes \<times> client_projection) option" where
  "cp_durable e p =
     (let v = payload_value (de_payload e); turn = unmarshal_string ''turn_id'' v; fresh = cp_watermark p < de_seq e in
      if \<not> unmarshal_ok [''turn_id'', ''thread_id'', ''item_id''] v then None
      else Some (durable_line e,
        if de_kind e = ''turn/running'' then (if fresh then p\<lparr>cp_active := turn\<rparr> else p)
        else if ends_turn (de_kind e) then (if fresh then cp_end_turn turn p else p)
        else if de_kind e = ''item/completed''
        then cp_remove (ProjectionKey (unmarshal_string ''thread_id'' v) turn (unmarshal_string ''item_id'' v)) p
        else p))"

end
