(* ===== verification/Client_Mirror.thy ===== *)
theory Client_Mirror
  imports Client_Projection Room_Properties "HOL-Library.Multiset"
begin

text \<open>
  The copy of the live projection a client keeps agrees with the one of the room: the client as a
  projection (\<open>as_projection\<close>), and the simulation of every step of the room by the events it
  sends.
\<close>

definition as_items :: "(projection_key \<times> string) list \<Rightarrow> (projection_key \<times> projected_item) list" where
  "as_items m = map (\<lambda>(k, s). (k, \<lparr>pi_partial = s, pi_completed = None\<rparr>)) m"

definition as_projection :: "client_projection \<Rightarrow> projection" where
  "as_projection c =
     \<lparr>p_revision = cp_revision c, p_items = as_items (cp_partial c), p_used = cp_used c, p_truncated = cp_truncated c\<rparr>"

lemma as_projection_simps [simp]:
  "p_revision (as_projection c) = cp_revision c" "p_items (as_projection c) = as_items (cp_partial c)"
  "p_used (as_projection c) = cp_used c" "p_truncated (as_projection c) = cp_truncated c"
  by (simp_all add: as_projection_def)

lemma as_items_keys [simp]: "map fst (as_items m) = map fst m"
  by (induction m) (auto simp: as_items_def)

lemma as_items_incomplete: "(k, v) \<in> set (as_items m) \<Longrightarrow> pi_completed v = None"
  by (auto simp: as_items_def)

lemma map_of_as_items: "map_of (as_items m) k = map_option (\<lambda>s. \<lparr>pi_partial = s, pi_completed = None\<rparr>) (map_of m k)"
  by (induction m) (auto simp: as_items_def)

lemma as_items_put: "as_items (put k s m) = put k \<lparr>pi_partial = s, pi_completed = None\<rparr> (as_items m)"
  by (auto simp: as_items_def put_def filter_map comp_def case_prod_unfold)

lemma as_items_filter: "as_items (filter (\<lambda>q. P (fst q)) m) = filter (\<lambda>q. P (fst q)) (as_items m)"
  by (auto simp: as_items_def filter_map comp_def case_prod_unfold)

lemma client_live_view:
  "live_view (as_projection c) k = (case map_of (cp_partial c) k of Some s \<Rightarrow> if s = [] then None else Some s | None \<Rightarrow> None)"
  by (simp add: live_view_def map_of_as_items split: option.split)

subsection \<open>Charges\<close>

lemma charge_sum:
  "distinct (map fst m) \<Longrightarrow> charge m = (\<Sum>k \<in> fst ` set m. key_cost k (pi_partial (the (map_of m k))))"
proof (induction m)
  case (Cons q m)
  obtain k v where q: "q = (k, v)" by (cases q)
  with Cons.prems have new: "k \<notin> fst ` set m" by simp
  have "(\<Sum>j \<in> fst ` set m. key_cost j (pi_partial (the (map_of (q # m) j))))
      = (\<Sum>j \<in> fst ` set m. key_cost j (pi_partial (the (map_of m j))))"
    by (rule sum.cong) (use new q in \<open>auto simp: rev_image_eqI\<close>)
  also have "\<dots> = charge m" using Cons by simp
  finally show ?case using new q by (simp add: charge_def)
qed (simp add: charge_def)

lemma charge_mono:
  assumes "distinct (map fst m)" "distinct (map fst n)"
    and "\<And>k v. map_of m k = Some v \<Longrightarrow> \<exists>w. map_of n k = Some w \<and> pi_partial w = pi_partial v"
  shows "charge m \<le> charge n"
proof -
  let ?c = "\<lambda>m k. key_cost k (pi_partial (the (map_of m k)))"
  have key: "k \<in> fst ` set m \<longleftrightarrow> (\<exists>v. map_of m k = Some v)" for k and m :: "(projection_key \<times> projected_item) list"
    by (metis map_of_eq_None_iff not_None_eq)
  have sub: "fst ` set m \<subseteq> fst ` set n"
  proof
    fix k assume "k \<in> fst ` set m"
    then obtain v where "map_of m k = Some v" unfolding key by blast
    from assms(3) [OF this] show "k \<in> fst ` set n" unfolding key by blast
  qed
  have same: "?c m k = ?c n k" if "k \<in> fst ` set m" for k
  proof -
    from that obtain v where v: "map_of m k = Some v" unfolding key by blast
    from assms(3) [OF v] v show ?thesis by auto
  qed
  have "charge m = (\<Sum>k \<in> fst ` set m. ?c n k)"
    unfolding charge_sum [OF assms(1)] by (rule sum.cong) (simp_all add: same)
  also have "\<dots> \<le> (\<Sum>k \<in> fst ` set n. ?c n k)"
    by (rule sum_mono2) (simp_all add: sub key_cost_nonneg)
  finally show ?thesis unfolding charge_sum [OF assms(2)] .
qed

subsection \<open>One event\<close>

abbreviation client_step :: "client_projection \<Rightarrow> transient_event \<Rightarrow> client_projection" where
  "client_step c e \<equiv> snd (cp_transient e c)"

abbreviation client_view :: "client_projection \<Rightarrow> live_view" where
  "client_view c \<equiv> live_view (as_projection c)"

text \<open>Within the budget, not truncated, and every entry shows something.\<close>

definition following :: "client_projection \<Rightarrow> bool" where
  "following c \<longleftrightarrow> wf_projection (as_projection c) \<and> list_all (\<lambda>(k, s). s \<noteq> []) (cp_partial c) \<and> \<not> cp_truncated c"

lemma following_revision [simp]: "following (c\<lparr>cp_revision := r\<rparr>) = following c"
  by (simp add: following_def wf_projection_def)

lemma client_view_revision [simp]: "client_view (c\<lparr>cp_revision := r\<rparr>) = client_view c"
  by (simp add: fun_eq_iff client_live_view)

lemma cp_remove_following:
  assumes "following c"
  shows "following (cp_remove k c)" "cp_revision (cp_remove k c) = cp_revision c"
    "client_view (cp_remove k c) = (client_view c)(k := None)"
proof -
  have wf: "wf_projection (as_projection c)" using assms by (simp add: following_def)
  have "set (cp_partial (cp_remove k c)) \<subseteq> set (cp_partial c)" "cp_truncated (cp_remove k c) = cp_truncated c"
    by (auto simp: cp_remove_def split: option.splits)
  moreover have "wf_projection (as_projection (cp_remove k c))"
  proof (cases "map_of (cp_partial c) k")
    case (Some s)
    then have "map_of (as_items (cp_partial c)) k = Some \<lparr>pi_partial = s, pi_completed = None\<rparr>" by (simp add: map_of_as_items)
    from wf_projection_without [OF wf, simplified, OF this] Some show ?thesis
      by (simp add: cp_remove_def as_projection_def as_items_filter [of "\<lambda>j. j \<noteq> k"])
  qed (use wf in \<open>simp add: cp_remove_def\<close>)
  ultimately show "following (cp_remove k c)" using assms by (auto simp: following_def list_all_iff)
  show "cp_revision (cp_remove k c) = cp_revision c" by (simp add: cp_remove_def split: option.splits)
  have "map_of (cp_partial (cp_remove k c)) = (map_of (cp_partial c))(k := None)"
    using map_of_filter_keys [of "\<lambda>j. j \<noteq> k" "cp_partial c"] by (auto simp: cp_remove_def fun_eq_iff split: option.splits)
  then show "client_view (cp_remove k c) = (client_view c)(k := None)"
    by (auto simp: fun_eq_iff client_live_view)
qed

definition appended :: "client_projection \<Rightarrow> projection_key \<Rightarrow> string \<Rightarrow> (projection_key \<times> string) list" where
  "appended c k d = put k ((case map_of (cp_partial c) k of Some s \<Rightarrow> s | None \<Rightarrow> []) @ d) (cp_partial c)"

lemma cp_delta_following:
  assumes "following c" "d \<noteq> []" "charge (as_items (appended c k d)) \<le> LiveProjectionBudget"
  shows "following (snd (cp_delta k d c))" "cp_revision (snd (cp_delta k d c)) = cp_revision c"
    "client_view (snd (cp_delta k d c)) = (client_view c)(k \<mapsto> (case client_view c k of Some s \<Rightarrow> s | None \<Rightarrow> []) @ d)"
proof -
  let ?old = "case map_of (cp_partial c) k of Some s \<Rightarrow> s | None \<Rightarrow> []"
  let ?cost = "6 * int (length d) + (if map_of (cp_partial c) k = None then key_cost k [] else 0)"
  have wf: "distinct (map fst (cp_partial c))" "cp_used c = charge (as_items (cp_partial c))"
    using assms(1) by (auto simp: following_def wf_projection_def)
  have "charge (as_items (appended c k d)) = cp_used c + ?cost"
    using charge_put [of "as_items (cp_partial c)" k "\<lparr>pi_partial = ?old @ d, pi_completed = None\<rparr>"] wf
      key_cost_append [of k "[]" d]
    by (cases "map_of (cp_partial c) k") (simp_all add: appended_def as_items_put map_of_as_items key_cost_append)
  moreover from this assms(3) have step: "snd (cp_delta k d c) = c\<lparr>cp_used := cp_used c + ?cost, cp_partial := appended c k d\<rparr>"
    by (simp add: cp_delta_def Let_def appended_def)
  moreover have "distinct (map fst (appended c k d))" using wf(1) by (simp add: appended_def distinct_put)
  moreover have "\<forall>(j, s) \<in> set (appended c k d). s \<noteq> []"
    using assms(1,2) by (auto simp: appended_def put_def following_def list_all_iff)
  ultimately show "following (snd (cp_delta k d c))"
    using assms(1,3) by (auto simp: following_def wf_projection_def list_all_iff dest: as_items_incomplete)
  from step show "cp_revision (snd (cp_delta k d c)) = cp_revision c" by simp
  show "client_view (snd (cp_delta k d c)) = (client_view c)(k \<mapsto> (case client_view c k of Some s \<Rightarrow> s | None \<Rightarrow> []) @ d)"
    unfolding step using assms(2) by (auto simp: fun_eq_iff client_live_view appended_def map_of_put split: option.splits)
qed

definition stream_kinds :: "string list" where
  "stream_kinds = [''item-delta'', ''item-completed'', ''item-removed'']"

lemma client_step_following:
  assumes "following c" "cp_revision c < te_revision e" "te_kind e \<in> set stream_kinds"
    and "te_kind e = ''item-delta'' \<Longrightarrow> te_delta e \<noteq> []
      \<and> charge (as_items (appended c (ProjectionKey (te_thread_id e) (te_turn_id e) (te_item_id e)) (te_delta e))) \<le> LiveProjectionBudget"
  shows "following (client_step c e) \<and> cp_revision (client_step c e) = te_revision e
    \<and> client_view (client_step c e) = subscriber (client_view c) e"
proof -
  let ?k = "ProjectionKey (te_thread_id e) (te_turn_id e) (te_item_id e)"
  let ?c = "c\<lparr>cp_revision := te_revision e\<rparr>"
  have f: "following ?c" using assms(1) by simp
  show ?thesis
  proof (cases "te_kind e = ''item-delta''")
    case True
    with assms(2) f have step: "client_step c e = snd (cp_delta ?k (te_delta e) ?c)"
      by (simp add: cp_transient_def Let_def following_def)
    have app: "appended ?c ?k (te_delta e) = appended c ?k (te_delta e)" by (simp add: appended_def)
    from cp_delta_following [OF f, of "te_delta e" ?k] assms(4) [OF True] True show ?thesis
      unfolding step app by (auto simp: subscriber_def Let_def fun_eq_iff)
  next
    case False
    with assms(2,3) have "client_step c e = cp_remove ?k ?c" "te_kind e = ''item-completed'' \<or> te_kind e = ''item-removed''"
      by (auto simp: cp_transient_def Let_def stream_kinds_def)
    with cp_remove_following [OF f, of ?k] show ?thesis by (auto simp: subscriber_def Let_def)
  qed
qed

subsection \<open>The simulation\<close>

definition mirrors :: "client_projection \<Rightarrow> projection \<Rightarrow> bool" where
  "mirrors c p \<longleftrightarrow> following c \<and> wf_projection p \<and> cp_revision c = p_revision p \<and> client_view c = live_view p"

text \<open>Removals only take entries away.\<close>

lemma client_removals:
  "following c \<Longrightarrow> list_all (\<lambda>e. te_kind e = ''item-removed'') es \<Longrightarrow> map te_revision es = [Suc (cp_revision c)..<Suc (cp_revision c) + length es]
     \<Longrightarrow> following (foldl client_step c es) \<and> cp_revision (foldl client_step c es) = cp_revision c + length es
       \<and> client_view (foldl client_step c es) = foldl subscriber (client_view c) es"
proof (induction es arbitrary: c)
  case (Cons e es)
  from Cons.prems(3) have r: "te_revision e = Suc (cp_revision c)" "map te_revision es = [Suc (Suc (cp_revision c))..<Suc (Suc (cp_revision c)) + length es]"
    by (simp_all add: upt_rec)
  with Cons.prems(1,2) have step: "following (client_step c e) \<and> cp_revision (client_step c e) = Suc (cp_revision c)
      \<and> client_view (client_step c e) = subscriber (client_view c) e"
    using client_step_following [of c e] by (simp add: stream_kinds_def)
  with Cons.IH [of "client_step c e"] Cons.prems(2) r(2) show ?case by simp
qed simp

text \<open>An output of the agent says something, as far as it is a delta.\<close>

definition spoken :: "projection_op \<Rightarrow> bool" where
  "spoken x = (case x of PApply ev \<Rightarrow> ev_kind ev = ''item-delta'' \<longrightarrow> ev_delta ev \<noteq> [] | _ \<Rightarrow> True)"

lemma mirror_delta:
  assumes "mirrors c p" "ev_kind ev = ''item-delta''" "ev_delta ev \<noteq> []" "\<not> p_truncated (snd (apply_delta ev p))"
  shows "following (foldl client_step c (case pu_transient (fst (apply_delta ev p)) of Some t \<Rightarrow> [t] | None \<Rightarrow> []))
    \<and> cp_revision (foldl client_step c (case pu_transient (fst (apply_delta ev p)) of Some t \<Rightarrow> [t] | None \<Rightarrow> [])) = p_revision (snd (apply_delta ev p))
    \<and> client_view (foldl client_step c (case pu_transient (fst (apply_delta ev p)) of Some t \<Rightarrow> [t] | None \<Rightarrow> []))
      = foldl subscriber (client_view c) (case pu_transient (fst (apply_delta ev p)) of Some t \<Rightarrow> [t] | None \<Rightarrow> [])"
proof (cases rule: apply_delta_cases [of ev p])
  case ignored
  with assms(1) show ?thesis by (simp add: no_update_def mirrors_def)
next
  case (truncated t)
  with assms(4) show ?thesis by simp
next
  case (applied v)
  let ?k = "ProjectionKey (ev_thread_id ev) (ev_turn_id ev) (ev_item_id ev)"
  let ?p = "snd (apply_delta ev p)"
  from assms(1) have m: "following c" "wf_projection p" "cp_revision c = p_revision p" "client_view c = live_view p"
    by (simp_all add: mirrors_def)
  have wf: "wf_projection ?p" by (rule apply_delta_wf [OF m(2)])
  have entry: "\<exists>w. map_of (p_items p) k = Some w \<and> pi_partial w = s" if "map_of (cp_partial c) k = Some s" for k s
  proof -
    have "s \<noteq> []" using m(1) that by (auto simp: following_def list_all_iff dest!: map_of_SomeD)
    with that have "client_view c k = Some s" by (simp add: client_live_view)
    with m(4) show ?thesis by (auto simp: live_view_def split: option.splits if_splits)
  qed
  have hidden: "pi_partial w = []" if "map_of (cp_partial c) k = None" "map_of (p_items p) k = Some w" for k w
  proof -
    from that(1) have "client_view c k = None" by (simp add: client_live_view)
    with m(4) that(2) show ?thesis by (auto simp: live_view_def split: if_splits)
  qed
  have appended_entry: "map_of (as_items (appended c ?k (ev_delta ev))) ?k = Some \<lparr>pi_partial = pi_partial v, pi_completed = None\<rparr>"
  proof (cases "map_of (cp_partial c) ?k")
    case None
    with hidden [OF this] applied(5) show ?thesis
      by (cases "map_of (p_items p) ?k") (simp_all add: map_of_as_items appended_def map_of_put)
  next
    case (Some s)
    from entry [OF this] obtain w where "map_of (p_items p) ?k = Some w" "pi_partial w = s" by blast
    with Some applied(5) show ?thesis by (simp add: map_of_as_items appended_def map_of_put)
  qed
  have "charge (as_items (appended c ?k (ev_delta ev))) \<le> charge (p_items ?p)"
  proof (rule charge_mono)
    show "distinct (map fst (as_items (appended c ?k (ev_delta ev))))"
      using m(1) by (simp add: appended_def distinct_put following_def wf_projection_def)
    show "distinct (map fst (p_items ?p))" using wf by (simp add: wf_projection_def)
    fix k x assume x: "map_of (as_items (appended c ?k (ev_delta ev))) k = Some x"
    show "\<exists>w. map_of (p_items ?p) k = Some w \<and> pi_partial w = pi_partial x"
    proof (cases "k = ?k")
      case True
      with x applied(4) appended_entry show ?thesis by auto
    next
      case False
      with x applied(4) entry [of k] show ?thesis by (auto simp: map_of_as_items appended_def map_of_put)
    qed
  qed
  also have "\<dots> \<le> LiveProjectionBudget" using wf by (simp add: wf_projection_def)
  finally have fits: "charge (as_items (appended c ?k (ev_delta ev))) \<le> LiveProjectionBudget" .
  from client_step_following [OF m(1), of "transient (p_revision p + 1) (ev_kind ev) (ev_thread_id ev) (ev_turn_id ev) (ev_item_id ev) (ev_delta ev)"]
  show ?thesis using applied(1,2) assms(2,3) fits m(3) by (simp add: transient_def stream_kinds_def)
qed

lemma mirror_completed:
  assumes "mirrors c p" "\<not> p_truncated (snd (apply_completed i ''item-completed'' p))"
  shows "\<exists>e. pu_transient (fst (apply_completed i ''item-completed'' p)) = Some e
    \<and> following (client_step c e) \<and> cp_revision (client_step c e) = p_revision (snd (apply_completed i ''item-completed'' p))
    \<and> client_view (client_step c e) = subscriber (client_view c) e"
proof (cases rule: apply_completed_cases [of i "''item-completed''" p])
  case (truncated t)
  with assms(2) show ?thesis by simp
next
  case (applied v)
  with client_step_following [of c "transient (p_revision p + 1) ''item-completed'' (it_thread_id i) (it_turn_id i) (it_item_id i) []"] assms(1)
  show ?thesis by (simp add: transient_def stream_kinds_def mirrors_def)
qed

lemma removals_kinds: "list_all (\<lambda>e. te_kind e = ''item-removed'') (removals r items)"
  by (auto simp: removals_def list_all_iff transient_def set_zip)

lemma mirror_removals:
  assumes "mirrors c p" "es = removals (p_revision p) items"
  shows "following (foldl client_step c es) \<and> cp_revision (foldl client_step c es) = p_revision p + length items
    \<and> client_view (foldl client_step c es) = foldl subscriber (client_view c) es"
proof -
  have "length es = length items" by (simp add: assms(2) removals_def del: upt_Suc)
  with client_removals [of c es] assms removals_kinds [of "p_revision p" items] removals_revisions [of "p_revision p" items]
  show ?thesis by (simp add: mirrors_def del: upt_Suc)
qed

lemma mirror_step:
  assumes "mirrors c p" "spoken x" "\<not> p_truncated p" "\<not> p_truncated (snd (run_op x p))"
  shows "mirrors (foldl client_step c (fst (run_op x p))) (snd (run_op x p))"
proof -
  have wf: "wf_projection p" and view: "client_view c = live_view p" using assms(1) by (simp_all add: mirrors_def)
  have "following (foldl client_step c (fst (run_op x p))) \<and> cp_revision (foldl client_step c (fst (run_op x p))) = p_revision (snd (run_op x p))
    \<and> client_view (foldl client_step c (fst (run_op x p))) = foldl subscriber (client_view c) (fst (run_op x p))"
  proof (cases x)
    case (PApply ev)
    consider "ev_kind ev = ''item-delta''" | i where "ev_kind ev = ''item-completed''" "ev_completed ev = Some i"
      | "Apply ev p = (no_update, p)"
      unfolding Apply_def by (cases "ev_completed ev"; cases "ev_kind ev = ''item-completed''"; cases "ev_kind ev = ''item-delta''") simp_all
    then show ?thesis
    proof cases
      case 1
      with mirror_delta [OF assms(1) 1] assms(2,4) PApply show ?thesis by (simp add: Apply_def spoken_def)
    next
      case 2
      with mirror_completed [OF assms(1), of i] assms(4) PApply show ?thesis by (auto simp: Apply_def)
    next
      case 3
      with PApply assms(1) show ?thesis by (simp add: no_update_def mirrors_def)
    qed
  next
    case PReset
    with mirror_removals [OF assms(1) refl, of "snd (Snapshot p)"] assms(3) show ?thesis by (simp add: reset_def Let_def)
  next
    case (PRemoveTurn th tu)
    with mirror_removals [OF assms(1) refl, of "filter (\<lambda>l. li_thread_id l = th \<and> li_turn_id l = tu) (snd (Snapshot p))"] assms(3)
    show ?thesis by (simp add: removeTurn_def Let_def)
  qed
  then show ?thesis
    using run_op_view [OF wf assms(3,4)] view run_op_wf [OF wf, of x] by (simp add: mirrors_def)
qed

lemma mirror_run:
  "mirrors c p \<Longrightarrow> list_all spoken xs \<Longrightarrow> never_truncated xs p \<Longrightarrow>
     mirrors (foldl client_step c (fst (run_ops xs p))) (snd (run_ops xs p))"
proof (induction xs arbitrary: c p)
  case (Cons x xs)
  then have "\<not> p_truncated p" "\<not> p_truncated (snd (run_op x p))" "never_truncated xs (snd (run_op x p))"
    using never_truncated_start by auto
  with Cons mirror_step [of c p x] show ?case by simp
qed simp

subsection \<open>The snapshot\<close>

definition wire_item_of :: "live_item_snapshot \<Rightarrow> wire_item" where
  "wire_item_of l =
     \<lparr>wi_thread_id = li_thread_id l, wi_turn_id = li_turn_id l, wi_item_id = li_item_id l, wi_partial = li_partial l\<rparr>"

definition item_entry :: "projection_key \<times> projected_item \<Rightarrow> projection_key \<times> string" where
  "item_entry q = (fst q, pi_partial (snd q))"

lemma item_entry_pair [simp]: "item_entry (k, v) = (k, pi_partial v)"
  by (simp add: item_entry_def)

text \<open>Items that fit are all taken.\<close>

lemma take_items_all:
  assumes "distinct (map fst (rev (map item_entry qs) @ cp_partial c))" "cp_used c + charge qs \<le> LiveProjectionBudget"
  shows "take_items (map (\<lambda>(k, v). \<lparr>wi_thread_id = pk_thread k, wi_turn_id = pk_turn k, wi_item_id = pk_item k, wi_partial = pi_partial v\<rparr>) qs) c
    = c\<lparr>cp_partial := rev (map item_entry qs) @ cp_partial c, cp_used := cp_used c + charge qs\<rparr>"
  using assms
proof (induction qs arbitrary: c)
  case (Cons q qs)
  obtain k v where q: "q = (k, v)" by (cases q)
  have charge: "charge (q # qs) = key_cost k (pi_partial v) + charge qs" by (simp add: q charge_def)
  with Cons.prems(2) charge_nonneg [of qs] have fits: "\<not> LiveProjectionBudget - cp_used c < key_cost k (pi_partial v)" by simp
  have "k \<notin> fst ` set (cp_partial c)" using Cons.prems(1) by (auto simp: q)
  then have "filter (\<lambda>p. fst p \<noteq> k) (cp_partial c) = cp_partial c" by (intro filter_True) auto
  then have put: "put k (pi_partial v) (cp_partial c) = (k, pi_partial v) # cp_partial c" by (simp add: put_def)
  let ?c = "c\<lparr>cp_partial := (k, pi_partial v) # cp_partial c, cp_used := cp_used c + key_cost k (pi_partial v)\<rparr>"
  have "distinct (map fst (rev (map item_entry qs) @ cp_partial ?c))"
    using Cons.prems(1) by (auto simp: q)
  moreover have "cp_used ?c + charge qs \<le> LiveProjectionBudget" using Cons.prems(2) charge by simp
  ultimately have "take_items (map (\<lambda>(k, v). \<lparr>wi_thread_id = pk_thread k, wi_turn_id = pk_turn k, wi_item_id = pk_item k, wi_partial = pi_partial v\<rparr>) qs) ?c
      = ?c\<lparr>cp_partial := rev (map item_entry qs) @ cp_partial ?c, cp_used := cp_used ?c + charge qs\<rparr>"
    by (rule Cons.IH)
  then show ?case
    unfolding q list.map charge [unfolded q] take_items.simps Let_def prod.case wire_item.select_convs projection_key.collapse if_not_P [OF fits] put
    by (simp add: add.assoc)
next
  case Nil
  show ?case by (simp add: charge_def)
qed

lemma charge_perm: "mset m = mset n \<Longrightarrow> charge m = charge n"
proof -
  have "charge m = sum_mset (image_mset (\<lambda>(k, v). key_cost k (pi_partial v)) (mset m))" for m
    by (simp add: charge_def sum_mset_sum_list [symmetric] del: sum_mset_sum_list)
  then show "mset m = mset n \<Longrightarrow> charge m = charge n" by simp
qed

lemma as_items_rev: "mset (as_items (rev m)) = mset (as_items m)"
  by (simp add: as_items_def)

lemma snapshot_mirrors:
  assumes "wf_projection p" "\<not> p_truncated p" "rs_live_items s = map wire_item_of (snd (Snapshot p))"
    "rs_revision s = p_revision p" "\<not> rs_truncated s"
  shows "mirrors (cp_snapshot s) p"
proof -
  let ?qs = "live_items p"
  let ?c0 = "\<lparr>cp_active = rs_active_turn_id s, cp_watermark = rs_watermark s, cp_revision = rs_revision s,
        cp_partial = [], cp_used = 0, cp_truncated = rs_truncated s\<rparr>"
  have qs: "mset ?qs = mset (filter (\<lambda>q. pi_partial (snd q) \<noteq> []) (p_items p))" by (simp add: live_items_def)
  have items: "rs_live_items s = map (\<lambda>(k, v). \<lparr>wi_thread_id = pk_thread k, wi_turn_id = pk_turn k, wi_item_id = pk_item k,
      wi_partial = pi_partial v\<rparr>) ?qs"
    by (simp add: assms(3) Snapshot_def wire_item_of_def comp_def case_prod_unfold)
  have keys: "distinct (map fst ?qs)"
  proof -
    have "distinct (map fst (filter (\<lambda>q. pi_partial (snd q) \<noteq> []) (p_items p)))"
      using assms(1) by (simp add: wf_projection_def distinct_map_filter)
    moreover have "mset (map fst ?qs) = mset (map fst (filter (\<lambda>q. pi_partial (snd q) \<noteq> []) (p_items p)))" by (simp add: qs)
    ultimately show ?thesis by (metis mset_eq_imp_distinct_iff)
  qed
  have budget: "charge ?qs \<le> LiveProjectionBudget"
    using charge_perm [OF qs] charge_filter [of "\<lambda>q. pi_partial (snd q) \<noteq> []" "p_items p"] assms(1)
      charge_nonneg [of "filter (\<lambda>q. \<not> pi_partial (snd q) \<noteq> []) (p_items p)"]
    by (simp add: wf_projection_def)
  let ?m = "rev (map item_entry ?qs)"
  have fst: "map fst ?m = rev (map fst ?qs)" by (simp add: rev_map item_entry_def comp_def)
  have c: "cp_snapshot s = ?c0\<lparr>cp_partial := ?m, cp_used := charge ?qs\<rparr>"
    unfolding cp_snapshot_def items using take_items_all [of ?qs ?c0] keys fst budget by simp
  have lookup: "map_of ?m k = Some t \<longleftrightarrow> (\<exists>v. map_of (p_items p) k = Some v \<and> pi_partial v = t \<and> t \<noteq> [])" for k t
  proof -
    have "map_of ?m k = Some t \<longleftrightarrow> (k, t) \<in> set ?m" using keys fst by (simp add: map_of_eq_Some_iff)
    also have "\<dots> \<longleftrightarrow> (\<exists>v. (k, v) \<in> set ?qs \<and> pi_partial v = t)" by (force simp: item_entry_def)
    also have "\<dots> \<longleftrightarrow> (\<exists>v. (k, v) \<in> set (p_items p) \<and> pi_partial v = t \<and> t \<noteq> [])" by (auto simp: live_items_def)
    finally show ?thesis using assms(1) by (simp add: wf_projection_def map_of_eq_Some_iff)
  qed
  have "charge (as_items ?m) = charge ?qs"
  proof -
    have "charge (as_items (map item_entry qs)) = charge qs" for qs
      by (induction qs) (auto simp: charge_def as_items_def item_entry_def)
    moreover have "charge (as_items ?m) = charge (as_items (map item_entry ?qs))"
      by (rule charge_perm) (rule as_items_rev)
    ultimately show ?thesis by simp
  qed
  moreover have "\<forall>(k, t) \<in> set ?m. t \<noteq> []" by (auto simp: item_entry_def live_items_def)
  ultimately have "following (cp_snapshot s)"
    unfolding c following_def wf_projection_def using assms(5) budget keys fst
    by (auto simp: list_all_iff dest: as_items_incomplete)
  moreover have "client_view (cp_snapshot s) k = live_view p k" for k
  proof (cases "map_of ?m k")
    case None
    have "client_view (cp_snapshot s) k = None" using None unfolding client_live_view c by simp
    moreover have "live_view p k = None" using None lookup [of k] by (auto simp: live_view_def split: option.split)
    ultimately show ?thesis by simp
  next
    case (Some t)
    with lookup [of k t] have "t \<noteq> []" "live_view p k = Some t" by (auto simp: live_view_def)
    moreover from this Some have "client_view (cp_snapshot s) k = Some t" unfolding client_live_view c by simp
    ultimately show ?thesis by simp
  qed
  moreover have "cp_revision (cp_snapshot s) = p_revision p" by (simp add: c assms(4))
  ultimately show ?thesis using assms(1) by (simp add: mirrors_def fun_eq_iff)
qed


definition demo_live :: "store world" where
  "demo_live =
     \<lparr>w_co = (the (NewCoordinator ''r'' ''p''))\<lparr>co_projection := snd (run_ops [PApply example_delta] NewProjection)\<rparr>,
      w_store = connection_demo, w_calls = [], w_published = [], w_answers = []\<rparr>"


end
