(* ===== verification/Client_Times.thy ===== *)
theory Client_Times
  imports Hub Json_Roundtrip
begin

text \<open>
  Reading back the times the room writes: \<^verbatim>\<open>time.Time\<close> of a JSON text, which is RFC 3339 read
  strictly, and the proof that it undoes \<open>time_text\<close>.
\<close>

subsection \<open>Reading\<close>

definition take_digits :: "nat \<Rightarrow> bytes \<Rightarrow> (int \<times> bytes) option" where
  "take_digits n s =
     (if n \<le> length s \<and> list_all is_digit (take n s) then Some (int (digits_val (take n s)), drop n s) else None)"

definition skip_char :: "char \<Rightarrow> bytes \<Rightarrow> bytes option" where
  "skip_char c s = (case s of [] \<Rightarrow> None | x # t \<Rightarrow> if x = c then Some t else None)"

definition days_before_year :: "int \<Rightarrow> int" where
  "days_before_year y = 365 * (y - 1) + (y - 1) div 4 - (y - 1) div 100 + (y - 1) div 400"

definition days_before_month :: "int \<Rightarrow> int \<Rightarrow> int" where
  "days_before_month y m = sum_list (take (nat (m - 1)) (month_lengths y))"

definition civil_days :: "int \<Rightarrow> int \<Rightarrow> int \<Rightarrow> int" where
  "civil_days y m d = days_before_year y + days_before_month y m + d - 1"

text \<open>A fraction of a second, in nanoseconds: digits after the ninth are dropped.\<close>

definition parse_fraction :: "bytes \<Rightarrow> int \<times> bytes" where
  "parse_fraction s =
     (let ds = takeWhile is_digit (tl s) in
      if prefix ''.'' s \<and> ds \<noteq> [] then (int (digits_val (take 9 (ds @ replicate 9 CHR ''0''))), dropWhile is_digit (tl s))
      else (0, s))"

text \<open>The offset of the zone, in seconds.\<close>

definition parse_zone :: "bytes \<Rightarrow> int option" where
  "parse_zone s =
     (if s = ''Z'' then Some 0
      else case s of
        [] \<Rightarrow> None
      | c # t \<Rightarrow>
          if c \<noteq> CHR ''+'' \<and> c \<noteq> CHR ''-'' then None
          else Option.bind (take_digits 2 t) (\<lambda>(h, t1).
               Option.bind (skip_char CHR '':'' t1) (\<lambda>t2.
               Option.bind (take_digits 2 t2) (\<lambda>(m, t3).
                 if t3 = [] \<and> h \<le> 23 \<and> m \<le> 59
                 then Some ((if c = CHR ''-'' then -1 else 1) * (3600 * h + 60 * m)) else None))))"

definition parse_date :: "bytes \<Rightarrow> (int \<times> bytes) option" where
  "parse_date s =
     Option.bind (take_digits 4 s) (\<lambda>(y, s1).
     Option.bind (skip_char CHR ''-'' s1) (\<lambda>s2.
     Option.bind (take_digits 2 s2) (\<lambda>(m, s3).
     Option.bind (skip_char CHR ''-'' s3) (\<lambda>s4.
     Option.bind (take_digits 2 s4) (\<lambda>(d, s5).
       if 1 \<le> m \<and> m \<le> 12 \<and> 1 \<le> d \<and> d \<le> month_lengths y ! nat (m - 1) then Some (civil_days y m d, s5) else None)))))"

definition parse_clock :: "bytes \<Rightarrow> (int \<times> bytes) option" where
  "parse_clock s =
     Option.bind (take_digits 2 s) (\<lambda>(h, s1).
     Option.bind (skip_char CHR '':'' s1) (\<lambda>s2.
     Option.bind (take_digits 2 s2) (\<lambda>(m, s3).
     Option.bind (skip_char CHR '':'' s3) (\<lambda>s4.
     Option.bind (take_digits 2 s4) (\<lambda>(x, s5).
       if h \<le> 23 \<and> m \<le> 59 \<and> x \<le> 59 then Some (3600 * h + 60 * m + x, s5) else None)))))"

definition parse_time :: "bytes \<Rightarrow> instant option" where
  "parse_time s =
     Option.bind (parse_date s) (\<lambda>(days, s1).
     Option.bind (skip_char CHR ''T'' s1) (\<lambda>s2.
     Option.bind (parse_clock s2) (\<lambda>(secs, s3).
       case parse_fraction s3 of (ns, s4) \<Rightarrow>
         Option.bind (parse_zone s4) (\<lambda>off. Some ((days * 86400 + secs - off) * 1000000000 + ns)))))"

subsection \<open>Digits\<close>

lemma length_show_nat: "n < 10 ^ k \<Longrightarrow> 0 < k \<Longrightarrow> length (show_nat n) \<le> k"
proof (induction k arbitrary: n)
  case (Suc k)
  show ?case
  proof (cases "n < 10")
    case False
    then have "0 < k" using Suc.prems(1) by (cases k) auto
    moreover have "n div 10 < 10 ^ k" using Suc.prems(1) by (simp add: less_mult_imp_div_less mult.commute)
    ultimately show ?thesis using Suc.IH [of "n div 10"] False by (subst show_nat.simps) simp
  qed (simp add: show_nat.simps)
qed simp

lemma digits_val_zeros: "digits_val (replicate k CHR ''0'' @ s) = digits_val s"
  by (induction k) (simp_all add: digits_val_def)

lemma pad_digits:
  assumes "0 \<le> i" "nat i < 10 ^ n" "0 < n"
  shows "length (pad n i) = n" "list_all is_digit (pad n i)" "digits_val (pad n i) = nat i"
proof -
  note d = show_nat_digits [of "nat i"]
  from length_show_nat [OF assms(2,3)] show "length (pad n i) = n" by (simp add: pad_def Let_def)
  show "list_all is_digit (pad n i)" using d by (auto simp: pad_def Let_def list_all_iff is_digit_def in_range_def)
  show "digits_val (pad n i) = nat i" using d by (simp add: pad_def Let_def digits_val_zeros)
qed

lemma take_digits_pad: "0 \<le> i \<Longrightarrow> nat i < 10 ^ n \<Longrightarrow> 0 < n \<Longrightarrow> take_digits n (pad n i @ s) = Some (i, s)"
  using pad_digits [of i n] by (simp add: take_digits_def)

subsection \<open>The calendar\<close>

lemma month_and_day_split:
  assumes "month_and_day m ls d = (m', d')" "0 \<le> d" "d < sum_list ls"
  shows "\<exists>k < length ls. m' = m + int k \<and> d' = d - sum_list (take k ls) + 1 \<and> 1 \<le> d' \<and> d' \<le> ls ! k"
  using assms
proof (induction m ls d arbitrary: m' d' rule: month_and_day.induct)
  case (2 m l ls d)
  show ?case
  proof (cases "d < l")
    case True
    with 2 show ?thesis by (intro exI [of _ 0]) auto
  next
    case False
    with 2 obtain k where "k < length ls" "m' = m + 1 + int k" "d' = d - l - sum_list (take k ls) + 1" "1 \<le> d'" "d' \<le> ls ! k" by auto
    then show ?thesis by (intro exI [of _ "Suc k"]) auto
  qed
qed simp

lemma sum_month_lengths: "sum_list (month_lengths y) = (if leap_year y then 366 else 365)"
  by (simp add: month_lengths_def)

lemma div_split: "0 \<le> r \<Longrightarrow> r < n \<Longrightarrow> (n * q + r) div n = (q :: int)"
  by simp

lemma mod_split: "0 \<le> r \<Longrightarrow> r < n \<Longrightarrow> (n * q + r) mod n = (r :: int)"
  by simp

lemma days_before_cycles:
  assumes "0 \<le> b" "b \<le> 3" "0 \<le> c" "c \<le> 24" "0 \<le> e" "e \<le> (3 :: int)"
  shows "days_before_year (400 * a + 100 * b + 4 * c + e + 1) = 146097 * a + 36524 * b + 1461 * c + 365 * e"
proof -
  have "(400 * a + 100 * b + 4 * c + e) div 4 = 100 * a + 25 * b + c"
    using div_split [of e 4 "100 * a + 25 * b + c"] assms(5,6) by (simp add: algebra_simps)
  moreover have "(400 * a + 100 * b + 4 * c + e) div 100 = 4 * a + b"
    using div_split [of "4 * c + e" 100 "4 * a + b"] assms(3-6) by (simp add: algebra_simps)
  moreover have "(400 * a + 100 * b + 4 * c + e) div 400 = a"
    using div_split [of "100 * b + 4 * c + e" 400 a] assms by (simp add: algebra_simps)
  ultimately show ?thesis by (simp add: days_before_year_def)
qed

lemma leap_cycles:
  assumes "0 \<le> b" "b \<le> 3" "0 \<le> c" "c \<le> 24" "0 \<le> e" "e \<le> (3 :: int)"
  shows "leap_year (400 * a + 100 * b + 4 * c + e + 1) \<longleftrightarrow> e = 3 \<and> (c \<noteq> 24 \<or> b = 3)"
proof -
  have 4: "(400 * a + 100 * b + 4 * c + e + 1) mod 4 = (if e = 3 then 0 else e + 1)"
    using mod_split [of "e + 1" 4 "100 * a + 25 * b + c"] mod_split [of 0 4 "100 * a + 25 * b + c + 1"] assms(5,6)
    by (simp add: algebra_simps)
  have 100: "(400 * a + 100 * b + 4 * c + e + 1) mod 100 = (if c = 24 \<and> e = 3 then 0 else 4 * c + e + 1)"
    using mod_split [of "4 * c + e + 1" 100 "4 * a + b"] mod_split [of 0 100 "4 * a + b + 1"] assms(3-6)
    by (auto simp: algebra_simps)
  have 400: "(400 * a + 100 * b + 4 * c + e + 1) mod 400 = (if b = 3 \<and> c = 24 \<and> e = 3 then 0 else 100 * b + 4 * c + e + 1)"
    using mod_split [of "100 * b + 4 * c + e + 1" 400 a] mod_split [of 0 400 "a + 1"] assms
    by (auto simp: algebra_simps)
  show ?thesis using assms unfolding leap_year_def 4 100 400 by auto
qed

lemma civil_date_inverse:
  assumes "civil_date days = (y, m, d)"
  shows "civil_days y m d = days \<and> 1 \<le> m \<and> m \<le> 12 \<and> 1 \<le> d \<and> d \<le> month_lengths y ! nat (m - 1)"
    and "0 \<le> days \<Longrightarrow> 1 \<le> y" "days < 3652059 \<Longrightarrow> y \<le> 9999"
proof -
  define n400 r400 where a: "n400 = days div 146097" "r400 = days mod 146097"
  define n100 where b: "n100 = min 3 (r400 div 36524)"
  define r100 where rb: "r100 = r400 - n100 * 36524"
  define n4 r4 where c: "n4 = r100 div 1461" "r4 = r100 mod 1461"
  define n1 where e: "n1 = min 3 (r4 div 365)"
  define doy where doy: "doy = r4 - n1 * 365"
  have y: "y = 400 * n400 + 100 * n100 + 4 * n4 + n1 + 1" and md: "month_and_day 1 (month_lengths y) doy = (m, d)"
    using assms unfolding civil_date_def Let_def a b rb c e doy by (auto split: prod.splits)
  have r400: "0 \<le> r400" "r400 < 146097" "days = 146097 * n400 + r400" unfolding a by simp_all
  have "0 \<le> r400 div 36524" "r400 div 36524 \<le> 4" "36524 * (r400 div 36524) \<le> r400" "r400 < 36524 * (r400 div 36524) + 36524"
    using r400 by linarith+
  then have n100: "0 \<le> n100" "n100 \<le> 3" "0 \<le> r100" "r100 \<le> 36524" "n100 < 3 \<Longrightarrow> r100 < 36524"
    using r400 unfolding b rb min_def by (auto split: if_splits)
  have n4: "0 \<le> n4" "n4 \<le> 24" "0 \<le> r4" "r4 < 1461" using n100 unfolding c by linarith+
  have r100: "r100 = 1461 * n4 + r4" unfolding c by simp
  have "0 \<le> r4 div 365" "r4 div 365 \<le> 4" "365 * (r4 div 365) \<le> r4" "r4 < 365 * (r4 div 365) + 365"
    using n4 by linarith+
  then have n1: "0 \<le> n1" "n1 \<le> 3" "0 \<le> doy" "doy \<le> 365" "doy = 365 \<Longrightarrow> n1 = 3 \<and> r4 = 1460"
    using n4 unfolding e doy min_def by (auto split: if_splits)
  have leap: "leap_year y \<longleftrightarrow> n1 = 3 \<and> (n4 \<noteq> 24 \<or> n100 = 3)"
    unfolding y by (rule leap_cycles) (use n100 n4 n1 in auto)
  have before: "days_before_year y = 146097 * n400 + 36524 * n100 + 1461 * n4 + 365 * n1"
    unfolding y by (rule days_before_cycles) (use n100 n4 n1 in auto)
  have "doy < sum_list (month_lengths y)"
  proof (cases "doy = 365")
    case True
    with n1(5) have "n1 = 3" "r4 = 1460" by simp_all
    moreover from this have "n4 \<noteq> 24 \<or> n100 = 3" using n100(2,5) r100 by fastforce
    ultimately show ?thesis using leap True by (simp add: sum_month_lengths)
  next
    case False
    with n1(4) show ?thesis by (simp add: sum_month_lengths)
  qed
  from month_and_day_split [OF md n1(3) this] obtain k where k: "k < length (month_lengths y)" "m = 1 + int k"
    "d = doy - sum_list (take k (month_lengths y)) + 1" "1 \<le> d" "d \<le> month_lengths y ! k" by blast
  have "length (month_lengths y) = 12" by (simp add: month_lengths_def)
  with k(1,2) have m: "1 \<le> m" "m \<le> 12" "nat (m - 1) = k" by auto
  have "days = 146097 * n400 + 36524 * n100 + 1461 * n4 + 365 * n1 + doy"
    using r400(3) r100 rb doy by linarith
  then show "civil_days y m d = days \<and> 1 \<le> m \<and> m \<le> 12 \<and> 1 \<le> d \<and> d \<le> month_lengths y ! nat (m - 1)"
    using k m before by (simp add: civil_days_def days_before_month_def)
  show "0 \<le> days \<Longrightarrow> 1 \<le> y" using y n100 n4 n1 unfolding a by simp
  assume "days < 3652059"
  have "y \<le> 9999"
  proof (rule ccontr)
    assume "\<not> y \<le> 9999"
    then have "9999 \<le> 400 * n400 + 100 * n100 + 4 * n4 + n1" using y by simp
    then have "n400 \<ge> 25 \<or> (n400 = 24 \<and> n100 = 3 \<and> n4 = 24 \<and> n1 = 3)" using n100 n4 n1 by auto
    then show False using \<open>days < 3652059\<close> \<open>days = 146097 * n400 + 36524 * n100 + 1461 * n4 + 365 * n1 + doy\<close> n100 n4 n1 by auto
  qed
  then show "y \<le> 9999" .
qed

subsection \<open>Times are read back\<close>

definition printable_time :: "instant \<Rightarrow> bool" where
  "printable_time t \<longleftrightarrow> 0 \<le> t \<and> t < 3652059 * 86400 * 1000000000"

lemma parse_date_pad:
  assumes "civil_date days = (y, m, d)" "0 \<le> days" "days < 3652059"
  shows "parse_date (pad 4 y @ ''-'' @ pad 2 m @ ''-'' @ pad 2 d @ s) = Some (days, s)"
proof -
  note c = civil_date_inverse [OF assms(1)]
  have "d \<le> 31" "1 \<le> m" "m \<le> 12" "1 \<le> d"
  proof -
    have k: "nat (m - 1) < 12" using c(1) by auto
    then have "month_lengths y ! nat (m - 1) \<le> 31"
      unfolding month_lengths_def by (auto simp: less_Suc_eq numeral_eq_Suc nth_Cons')
    with c(1) show "d \<le> 31" "1 \<le> m" "m \<le> 12" "1 \<le> d" by auto
  qed
  with c(1) c(2) [OF assms(2)] c(3) [OF assms(3)] show ?thesis
    using take_digits_pad [of y 4] take_digits_pad [of m 2] take_digits_pad [of d 2]
    by (simp add: parse_date_def skip_char_def)
qed

lemma parse_clock_pad:
  assumes "0 \<le> h" "h \<le> 23" "0 \<le> m" "m \<le> 59" "0 \<le> x" "x \<le> 59"
  shows "parse_clock (pad 2 h @ '':'' @ pad 2 m @ '':'' @ pad 2 x @ s) = Some (3600 * h + 60 * m + x, s)"
  using assms take_digits_pad [of h 2] take_digits_pad [of m 2] take_digits_pad [of x 2]
  by (simp add: parse_clock_def skip_char_def)

lemma clock_parts:
  assumes "0 \<le> n" "n < (86400 :: int)"
  shows "0 \<le> n div 3600" "n div 3600 \<le> 23" "0 \<le> n div 60 mod 60" "n div 60 mod 60 \<le> 59" "0 \<le> n mod 60" "n mod 60 \<le> 59"
    "3600 * (n div 3600) + 60 * (n div 60 mod 60) + n mod 60 = n"
proof -
  show "0 \<le> n div 3600" "n div 3600 \<le> 23" using assms by linarith+
  show "0 \<le> n div 60 mod 60" "n div 60 mod 60 \<le> 59" "0 \<le> n mod 60" "n mod 60 \<le> 59"
    using pos_mod_bound [of 60 "n div 60"] pos_mod_bound [of 60 n] by auto
  have "n div 60 div 60 = n div 3600" by (simp add: zdiv_zmult2_eq [symmetric])
  moreover have "n = 60 * (n div 60) + n mod 60" "n div 60 = 60 * (n div 60 div 60) + n div 60 mod 60" by simp_all
  ultimately show "3600 * (n div 3600) + 60 * (n div 60 mod 60) + n mod 60 = n" by linarith
qed

lemma trim_zeros_split: "\<exists>k. s = trim_zeros s @ replicate k CHR ''0''"
proof -
  have "rev s = takeWhile (\<lambda>c. c = CHR ''0'') (rev s) @ dropWhile (\<lambda>c. c = CHR ''0'') (rev s)" by simp
  moreover have "takeWhile (\<lambda>c. c = CHR ''0'') (rev s) = replicate (length (takeWhile (\<lambda>c. c = CHR ''0'') (rev s))) CHR ''0''"
    by (rule replicate_length_same [symmetric]) (auto dest: set_takeWhileD)
  ultimately have "s = trim_zeros s @ rev (replicate (length (takeWhile (\<lambda>c. c = CHR ''0'') (rev s))) CHR ''0'')"
    unfolding trim_zeros_def by (metis rev_append rev_rev_ident)
  then show ?thesis by (metis rev_replicate)
qed

lemma parse_fraction_time:
  assumes "0 \<le> f" "f < 1000000000"
  shows "parse_fraction ((if f = 0 then [] else ''.'' @ trim_zeros (pad 9 f)) @ ''Z'') = (f, ''Z'')"
proof (cases "f = 0")
  case True
  then show ?thesis by (simp add: parse_fraction_def)
next
  case False
  have "nat f < 10 ^ 9" using assms by simp
  note p = pad_digits [OF assms(1) this, simplified]
  obtain k where k: "pad 9 f = trim_zeros (pad 9 f) @ replicate k CHR ''0''" using trim_zeros_split by blast
  have digits: "list_all is_digit (trim_zeros (pad 9 f))" using p(2) by (subst (asm) k) simp
  have "trim_zeros (pad 9 f) \<noteq> []"
  proof
    assume "trim_zeros (pad 9 f) = []"
    with k have "digits_val (pad 9 f) = 0" using digits_val_zeros [of k "[]"] by (simp add: digits_val_def)
    with p(3) False assms(1) show False by simp
  qed
  moreover have "takeWhile is_digit (trim_zeros (pad 9 f) @ ''Z'') = trim_zeros (pad 9 f)"
    "dropWhile is_digit (trim_zeros (pad 9 f) @ ''Z'') = ''Z''"
    using digits by (simp_all add: takeWhile_append list_all_iff is_digit_def in_range_def)
  moreover have "take 9 (trim_zeros (pad 9 f) @ replicate 9 CHR ''0'') = pad 9 f"
  proof -
    have "length (trim_zeros (pad 9 f)) + k = 9" using p(1) by (subst (asm) k) simp
    then have "take 9 (trim_zeros (pad 9 f) @ replicate 9 CHR ''0'') = trim_zeros (pad 9 f) @ replicate k CHR ''0''"
      by (simp add: min_def)
    with k show ?thesis by simp
  qed
  ultimately show ?thesis using False p(3) assms(1) by (simp add: parse_fraction_def Let_def)
qed

lemma parse_time_text:
  assumes "printable_time t"
  shows "parse_time (time_text t) = Some t"
proof -
  define days ns where d: "days = t div 86400000000000" "ns = t mod 86400000000000"
  obtain y m a where c: "civil_date days = (y, m, a)" by (cases "civil_date days") auto
  have "t = 86400000000000 * days + ns" "0 \<le> ns" "ns < 86400000000000" unfolding d by simp_all
  moreover from this have "0 \<le> days" "days < 3652059" using assms by (simp_all add: printable_time_def)
  ultimately have days: "0 \<le> days" "days < 3652059" "t = 86400000000000 * days + ns" "0 \<le> ns" "ns < 86400000000000" by simp_all
  define x f where s: "x = ns div 1000000000" "f = ns mod 1000000000"
  have xf: "0 \<le> x" "x < 86400" "0 \<le> f" "f < 1000000000" "ns = 1000000000 * x + f"
  proof -
    show *: "ns = 1000000000 * x + f" "0 \<le> f" "f < 1000000000" unfolding s by simp_all
    show "0 \<le> x" "x < 86400" using * days(4,5) by simp_all
  qed
  have "time_text t = pad 4 y @ ''-'' @ pad 2 m @ ''-'' @ pad 2 a @ CHR ''T'' # (pad 2 (x div 3600) @ '':'' @ pad 2 (x div 60 mod 60) @ '':''
      @ pad 2 (x mod 60) @ (if f = 0 then [] else ''.'' @ trim_zeros (pad 9 f)) @ ''Z'')"
    unfolding time_text_def Let_def d [symmetric] s [symmetric] c by simp
  then show ?thesis
    using parse_date_pad [OF c days(1,2)] parse_clock_pad [OF clock_parts(1-6) [OF xf(1,2)]] clock_parts(7) [OF xf(1,2)] parse_fraction_time [OF xf(3,4)] days(3) xf(5)
    by (simp add: parse_time_def skip_char_def parse_zone_def)
qed

end
