(* ===== verification/Client_Events.thy ===== *)
theory Client_Events
  imports Client_Projection Client_Times Client_Requests
begin

text \<open>
  What the client reads out of the bodies of the daemon: \<^verbatim>\<open>json.Unmarshal\<close> into the types it uses,
  which matches names up to case, ignores unknown ones and fails on a value of another kind, and
  the strict decoder for transient events. The daemon's events are read back as they were.
\<close>

subsection \<open>Lenient decoding\<close>

datatype go_type = GString | GBool | GUint nat | GInt64 | GTime | GRaw | GStruct "(string \<times> go_type) list" | GSlice go_type

definition field_type :: "string \<Rightarrow> (string \<times> go_type) list \<Rightarrow> go_type option" where
  "field_type k fs =
     (case map_of fs k of
        Some t \<Rightarrow> Some t
      | None \<Rightarrow> map_option snd (find (\<lambda>(n, t). fold_name n = fold_name k) fs))"

text \<open>Whether a document fits a type. A pointer decodes as what it points to.\<close>

fun unmarshals :: "go_type \<Rightarrow> json \<Rightarrow> bool" where
  "unmarshals GRaw v = True"
| "unmarshals (GStruct fs) (JObj ms) =
     list_all (\<lambda>(k, v). case field_type k fs of None \<Rightarrow> True | Some t \<Rightarrow> unmarshals t v) ms"
| "unmarshals (GSlice t) (JArr vs) = list_all (unmarshals t) vs"
| "unmarshals t v =
     (case v of
        JNull \<Rightarrow> True
      | JStr s \<Rightarrow> t = GString \<or> t = GTime \<and> parse_time s \<noteq> None
      | JBool b \<Rightarrow> t = GBool
      | JNum s \<Rightarrow> (case t of GUint bits \<Rightarrow> \<not> isl (decode_uint bits 0 v) | GInt64 \<Rightarrow> \<not> isl (decode_int64 0 v) | _ \<Rightarrow> False)
      | _ \<Rightarrow> False)"

text \<open>The value a field ends up with: the last one given that is not \<^verbatim>\<open>null\<close>.\<close>

definition given :: "string \<Rightarrow> (string \<times> json) list \<Rightarrow> json list" where
  "given k ms = map snd (filter (\<lambda>(n, v). fold_name n = fold_name k) ms)"

definition last_given :: "string \<Rightarrow> (string \<times> json) list \<Rightarrow> json" where
  "last_given k ms = (case rev (filter (\<lambda>v. v \<noteq> JNull) (given k ms)) of [] \<Rightarrow> JNull | v # _ \<Rightarrow> v)"

definition text_of :: "json \<Rightarrow> string" where
  "text_of v = (case v of JStr s \<Rightarrow> s | _ \<Rightarrow> [])"

definition nat_of :: "json \<Rightarrow> nat" where
  "nat_of v = (case v of JNum s \<Rightarrow> digits_val s | _ \<Rightarrow> 0)"

definition time_of :: "json \<Rightarrow> instant" where
  "time_of v = (case v of JStr s \<Rightarrow> (case parse_time s of Some t \<Rightarrow> t | None \<Rightarrow> 0) | _ \<Rightarrow> 0)"

text \<open>
  A \<^verbatim>\<open>json.RawMessage\<close> keeps the text of the last value given, \<^verbatim>\<open>null\<close> too; without the field it is
  empty.
\<close>

definition raw_object :: "bytes \<Rightarrow> (string \<times> bytes) list" where
  "raw_object s =
     (case skip_ws s of
        c # t \<Rightarrow>
          if c = CHR ''{'' then (case raw_members (parse_fuel s) max_nesting t of Some fs \<Rightarrow> fs | None \<Rightarrow> []) else []
      | [] \<Rightarrow> [])"

definition raw_field :: "string \<Rightarrow> bytes \<Rightarrow> bytes" where
  "raw_field k s =
     (case rev (filter (\<lambda>(n, b). fold_name n = fold_name k) (raw_object s)) of [] \<Rightarrow> [] | (_, b) # _ \<Rightarrow> b)"

definition durable_type :: go_type where
  "durable_type =
     GStruct [(''Seq'', GUint 64), (''Kind'', GString), (''ActorUID'', GUint 32), (''Payload'', GRaw), (''CreatedAt'', GTime)]"

definition agents_type :: go_type where
  "agents_type =
     GSlice (GStruct [(''id'', GString), (''name'', GString), (''provider'', GString), (''description'', GString), (''status'', GString)])"

definition members_type :: go_type where
  "members_type = GSlice (GStruct [(''UID'', GUint 32), (''Name'', GString)])"

definition snapshot_type :: go_type where
  "snapshot_type =
     GStruct
       [(''agents'', agents_type), (''ProjectionTruncated'', GBool), (''Status'', GString), (''ThreadID'', GString),
        (''Active'', GStruct [(''MessageID'', GString), (''TurnID'', GString), (''State'', GString)]),
        (''Queue'', GSlice (GStruct
           [(''Input'', GStruct [(''taskId'', GInt64), (''ClientMessageID'', GString), (''Text'', GString)]),
            (''Actor'', GStruct [(''UID'', GUint 32), (''Name'', GString)]), (''AcceptedSeq'', GUint 64)])),
        (''ProjectionRevision'', GUint 64),
        (''LiveItems'', GSlice (GStruct [(''ThreadID'', GString), (''TurnID'', GString), (''ItemID'', GString), (''Partial'', GString)])),
        (''LatestSeq'', GUint 64)]"

text \<open>\<^verbatim>\<open>json.Unmarshal\<close> into a durable event; \<^verbatim>\<open>null\<close> is the zero event.\<close>

definition unmarshal_durable :: "bytes \<Rightarrow> durable_event option" where
  "unmarshal_durable b =
     (case json_parse b of
        None \<Rightarrow> None
      | Some v \<Rightarrow>
          if \<not> unmarshals durable_type v then None
          else let ms = object_members v in
            Some \<lparr>de_seq = nat_of (last_given ''Seq'' ms), de_kind = text_of (last_given ''Kind'' ms),
                  de_actor_uid = nat_of (last_given ''ActorUID'' ms), de_payload = JRaw (raw_field ''Payload'' b),
                  de_created_at = time_of (last_given ''CreatedAt'' ms)\<rparr>)"

subsection \<open>Strict decoding of transient events\<close>

definition transient_fields :: "(string \<times> json) list \<Rightarrow> wire_error + transient_event" where
  "transient_fields fs =
     rbind (field fs ''Revision'' (decode_uint 64 0)) (\<lambda>r.
     rbind (field fs ''Kind'' (decode_string [])) (\<lambda>k.
     rbind (field fs ''ThreadID'' (decode_string [])) (\<lambda>th.
     rbind (field fs ''TurnID'' (decode_string [])) (\<lambda>tu.
     rbind (field fs ''ItemID'' (decode_string [])) (\<lambda>it.
     rbind (field fs ''Delta'' (decode_string [])) (\<lambda>d.
       Inr (transient r k th tu it d)))))))"

definition decode_transient :: "bytes \<Rightarrow> wire_error + transient_event" where
  "decode_transient = DecodeBody
     (SStruct [(''Revision'', SAny), (''Kind'', SAny), (''ThreadID'', SAny), (''TurnID'', SAny), (''ItemID'', SAny), (''Delta'', SAny)])
     transient_fields (\<lambda>_. None)"

subsection \<open>The daemon's events are read back\<close>

definition sendable_event :: "durable_event \<Rightarrow> bool" where
  "sendable_event e \<longleftrightarrow>
     de_seq e < 2 ^ 64 \<and> de_actor_uid e < 2 ^ 32 \<and> utf8_valid (de_kind e) \<and> printable (de_payload e)
     \<and> nesting (de_payload e) < max_nesting \<and> printable_time (de_created_at e)"

lemma json_parse_marshal:
  assumes "printable v" "nesting v \<le> max_nesting"
  shows "json_parse (json_marshal v) = Some v"
  using reads_backD [OF marshal_reads_back [OF assms(1)] assms(2), of "[]" "parse_fuel (json_marshal v)"]
  by (simp add: json_parse_def parse_fuel_def skip_ws_def)

lemma pad_ascii: "c \<in> set (pad n i) \<Longrightarrow> byte_val c < 128"
  using show_nat_digits [of "nat i"] by (auto simp: pad_def Let_def list_all_iff is_digit_def in_range_def)

lemma set_trim_zeros: "set (trim_zeros s) \<subseteq> set s"
  by (auto simp: trim_zeros_def dest: set_dropWhileD)

lemma time_text_ascii: "utf8_valid (time_text t)"
proof (rule utf8_valid_ascii, intro ballI)
  fix c assume "c \<in> set (time_text t)"
  then have "byte_val c < 128"
    unfolding time_text_def Let_def
    by (auto split: prod.splits if_splits dest!: subsetD [OF set_trim_zeros] dest: pad_ascii)
  then show "in_range 0 0x7F c" by (simp add: in_range_def)
qed

lemma raw_object_marshal:
  assumes "printable (JObj fs)" "fs \<noteq> []" "nesting (JObj fs) \<le> Suc max_nesting"
  shows "raw_object (json_marshal (JObj fs)) = map (\<lambda>(k, v). (k, json_marshal v)) fs"
proof -
  have ok: "\<forall>(k, w) \<in> set fs. utf8_valid k \<and> printable w \<and> nesting w \<le> max_nesting"
    using assms(1,3) by (auto simp: list_all_iff fold_max_le)
  let ?t = "join_with '','' (map (\<lambda>(k, v). json_quote k @ '':'' @ json_marshal v) fs) @ ''}''"
  have "raw_members (parse_fuel (json_marshal (JObj fs))) max_nesting (?t @ []) = Some (map (\<lambda>(k, v). (k, json_marshal v)) fs)"
    using raw_members_marshal [OF assms(2) ok, of "[]"] by (simp add: parse_fuel_def)
  then show ?thesis by (simp add: raw_object_def)
qed

definition raw_payload :: "durable_event \<Rightarrow> durable_event" where
  "raw_payload e = e\<lparr>de_payload := JRaw (json_marshal (de_payload e))\<rparr>"

lemma durable_event_names:
  "fold_name ''Seq'' = ''seq''" "fold_name ''Kind'' = ''kind''" "fold_name ''ActorUID'' = ''actoruid''"
  "fold_name ''Payload'' = ''payload''" "fold_name ''CreatedAt'' = ''createdat''"
  by code_simp+

lemma unmarshal_durable_marshal:
  assumes "sendable_event e"
  shows "unmarshal_durable (json_marshal (durable_event_json e)) = Some (raw_payload e)"
proof -
  define fs where fs: "fs = [(''Seq'', JNat (de_seq e)), (''Kind'', JStr (de_kind e)), (''ActorUID'', JNat (de_actor_uid e)),
    (''Payload'', de_payload e), (''CreatedAt'', JStr (time_text (de_created_at e)))]"
  have e: "durable_event_json e = JObj fs" by (simp add: durable_event_json_def fs)
  have p: "printable (JObj fs)" "nesting (JObj fs) \<le> max_nesting"
    using assms parse_show_nat by (simp_all add: sendable_event_def fs time_text_ascii utf8_valid_ascii in_range_def fold_max_le max_nesting_def)
  then have raw: "raw_object (json_marshal (JObj fs)) = map (\<lambda>(k, v). (k, json_marshal v)) fs"
    by (intro raw_object_marshal) (auto simp: fs)
  have payload: "raw_field ''Payload'' (json_marshal (JObj fs)) = json_marshal (de_payload e)"
    unfolding raw_field_def raw by (simp add: fs durable_event_names del: json_marshal.simps fold_name.simps)
  have "unmarshals durable_type (JObj fs)"
    using assms decode_uint_nat parse_time_text
    by (simp add: fs durable_type_def field_type_def sendable_event_def del: fold_name.simps)
  moreover have "last_given ''Seq'' fs = JNat (de_seq e)" "last_given ''Kind'' fs = JStr (de_kind e)"
    "last_given ''ActorUID'' fs = JNat (de_actor_uid e)" "last_given ''CreatedAt'' fs = JStr (time_text (de_created_at e))"
    by (simp_all add: fs last_given_def given_def durable_event_names del: fold_name.simps)
  ultimately show ?thesis
    using assms show_nat_digits parse_time_text [of "de_created_at e"]
    by (simp add: unmarshal_durable_def e json_parse_marshal [OF p] payload object_members_def nat_of_def text_of_def time_of_def
        sendable_event_def raw_payload_def del: json_marshal.simps)
qed

end
