(* ===== verification/Client.thy ===== *)
theory Client
  imports Client_Events
begin

text \<open>
  The session loop of the line client (\<^verbatim>\<open>internal/client/client.go\<close>). One round of its \<^verbatim>\<open>select\<close> is a
  step on the state of the client; the event that was ready, and the time at it, are arguments.
  A step either goes on or ends the session. Writing to the terminal does not fail here.
\<close>

subsection \<open>State\<close>

record cursor =
  cu_target :: string
  cu_room :: room_id
  cu_seq :: seqno

text \<open>Calls of the observers in \<^verbatim>\<open>Deps\<close>. Lists are recorded as the document they were decoded from.\<close>

datatype client_note =
    NoteConnection bool | NoteRoom room_id | NoteProject string | NoteActiveTurn turn_id
  | NoteAgents json | NoteQueue json | NoteMembers json
  | NoteEvent durable_event | NoteAnswer durable_event string

text \<open>
  \<^verbatim>\<open>Deps\<close>: which observers there are; those that can fail answer whether they did, from all calls
  made so far.
\<close>

record observers =
  ob_read_only :: bool
  ob_connection :: bool
  ob_room :: bool
  ob_project :: bool
  ob_active_turn :: bool
  ob_agents :: bool
  ob_queue :: bool
  ob_members :: bool
  ob_event :: "(client_note list \<Rightarrow> bool) option"
  ob_answer :: "(client_note list \<Rightarrow> bool) option"

datatype client_cause =
    CauseRandom | CauseQueueFull | CauseFrame wire_error | CauseLiveness | CauseWrite | CauseLaunch
  | CauseExpectedWelcome | CauseDecode | CauseOwnerAccess | CauseRoomChanged | CauseSave
  | CauseFrameKind | CauseSequence | CausePayload | CauseObserver | CauseEarlyTransient

text \<open>How a session ends: \<open>EndLost\<close> is retried, \<open>EndFatal\<close> is not.\<close>

datatype session_end = EndLost client_cause | EndFatal client_cause | EndProbe | EndInputEOF | EndCanceled

text \<open>What is offered to the result channel of a submission.\<close>

datatype submit_result =
    SubmitAccepted | SubmitCanceled | SubmitInvalid client_error | SubmitConflict | SubmitTooManyPending
  | SubmitTooManyRetries | SubmitRejected

datatype diagnostic = DiagOverflow nat | DiagReadOnly | DiagCommand client_error | DiagLost client_cause

text \<open>An outcome of \<^verbatim>\<open>CursorStore.Save\<close>; a failure may come after the cursor is already stored.\<close>

datatype save_outcome = SaveOk | SaveFails | SaveStoredFails

record client_session =
  cs_hello :: string
  cs_welcomed :: bool
  cs_ready :: bool
  cs_agents_supported :: bool
  cs_lookups :: "(string \<times> string) list"
  cs_writes :: "envelope list"
  cs_sent :: "envelope list"
  cs_last_frame :: instant
  cs_last_send :: instant

record client =
  cl_target :: string
  cl_cursor :: cursor
  cl_probe :: bool
  cl_projection :: client_projection
  cl_pending :: "(string \<times> envelope) list"
  cl_order :: "string list"
  cl_replies :: "(string \<times> nat list) list"
  cl_results :: "(nat \<times> submit_result) list"
  cl_lines :: "bytes list"
  cl_rejected :: nat
  cl_random :: bytes
  cl_saves :: "save_outcome list"
  cl_stored :: "cursor option"
  cl_backoff :: int
  cl_output :: bytes
  cl_diagnostics :: "diagnostic list"
  cl_notes :: "client_note list"
  cl_session :: client_session

subsection \<open>Steps that may end the session\<close>

type_synonym 'a cm = "client \<Rightarrow> (session_end + 'a) \<times> client"

definition cm_return :: "'a \<Rightarrow> 'a cm" where
  "cm_return x c = (Inr x, c)"

definition cm_end :: "session_end \<Rightarrow> 'a cm" where
  "cm_end e c = (Inl e, c)"

definition cm_bind :: "'a cm \<Rightarrow> ('a \<Rightarrow> 'b cm) \<Rightarrow> 'b cm" where
  "cm_bind m f c = (case m c of (Inl e, c1) \<Rightarrow> (Inl e, c1) | (Inr x, c1) \<Rightarrow> f x c1)"

definition cm_then :: "unit cm \<Rightarrow> 'b cm \<Rightarrow> 'b cm" where
  "cm_then m f = cm_bind m (\<lambda>_. f)"

definition cm_get :: "(client \<Rightarrow> 'a) \<Rightarrow> 'a cm" where
  "cm_get f c = (Inr (f c), c)"

definition cm_update :: "(client \<Rightarrow> client) \<Rightarrow> unit cm" where
  "cm_update f c = (Inr (), f c)"

definition cm_when :: "bool \<Rightarrow> unit cm \<Rightarrow> unit cm" where
  "cm_when b m = (if b then m else cm_return ())"

fun cm_each :: "('a \<Rightarrow> unit cm) \<Rightarrow> 'a list \<Rightarrow> unit cm" where
  "cm_each f [] = cm_return ()"
| "cm_each f (x # xs) = cm_then (f x) (cm_each f xs)"

text \<open>Fields of the session, output, notes.\<close>

definition on_session :: "(client_session \<Rightarrow> client_session) \<Rightarrow> unit cm" where
  "on_session f = cm_update (\<lambda>c. c\<lparr>cl_session := f (cl_session c)\<rparr>)"

definition print_text :: "bytes \<Rightarrow> unit cm" where
  "print_text s = cm_update (\<lambda>c. c\<lparr>cl_output := cl_output c @ s\<rparr>)"

definition diagnose :: "diagnostic \<Rightarrow> unit cm" where
  "diagnose d = cm_update (\<lambda>c. c\<lparr>cl_diagnostics := cl_diagnostics c @ [d]\<rparr>)"

definition notify :: "bool \<Rightarrow> client_note \<Rightarrow> unit cm" where
  "notify present n = cm_when present (cm_update (\<lambda>c. c\<lparr>cl_notes := cl_notes c @ [n]\<rparr>))"

definition set_projection :: "client_projection \<Rightarrow> unit cm" where
  "set_projection p = cm_update (\<lambda>c. c\<lparr>cl_projection := p\<rparr>)"

text \<open>\<^verbatim>\<open>OnEvent\<close> and \<^verbatim>\<open>OnAnswer\<close> may fail, which is fatal.\<close>

definition consult :: "(client_note list \<Rightarrow> bool) option \<Rightarrow> client_note \<Rightarrow> unit cm" where
  "consult f n =
     (case f of
        None \<Rightarrow> cm_return ()
      | Some ok \<Rightarrow>
          cm_then (notify True n)
            (cm_bind (cm_get cl_notes) (\<lambda>ns. if ok ns then cm_return () else cm_end (EndFatal CauseObserver))))"

definition save_cursor :: "unit cm" where
  "save_cursor c =
     (let o1 = (case cl_saves c of [] \<Rightarrow> SaveOk | x # _ \<Rightarrow> x);
          c1 = c\<lparr>cl_saves := tl (cl_saves c),
                 cl_stored := (if o1 = SaveFails then cl_stored c else Some (cl_cursor c))\<rparr>
      in (if o1 = SaveOk then Inr () else Inl (EndFatal CauseSave), c1))"

text \<open>\<^verbatim>\<open>send\<close>: the queue of the writer has 128 places.\<close>

definition send_envelope :: "envelope \<Rightarrow> unit cm" where
  "send_envelope e c =
     (if length (cs_writes (cl_session c)) < 128
      then on_session (\<lambda>s. s\<lparr>cs_writes := cs_writes s @ [e]\<rparr>) c
      else (Inl (EndLost CauseQueueFull), c))"

text \<open>\<^verbatim>\<open>request\<close>, where a failing source of random bytes ends the session as \<open>x\<close>.\<close>

definition new_request :: "session_end \<Rightarrow> string \<Rightarrow> json \<Rightarrow> envelope cm" where
  "new_request x meth b c =
     (case client_request meth b (cl_random c) of
        (Inl e, r) \<Rightarrow> (Inl x, c\<lparr>cl_random := r\<rparr>)
      | (Inr env, r) \<Rightarrow> (Inr env, c\<lparr>cl_random := r\<rparr>))"

definition set_lookup :: "string \<Rightarrow> string \<Rightarrow> unit cm" where
  "set_lookup i kind = on_session (\<lambda>s. s\<lparr>cs_lookups := put i kind (cs_lookups s)\<rparr>)"

text \<open>A request the client makes for its observers.\<close>

definition ask :: "session_end \<Rightarrow> string \<Rightarrow> unit cm" where
  "ask x meth =
     cm_bind (new_request x meth (JObj [])) (\<lambda>env. cm_then (set_lookup (en_id env) meth) (send_envelope env))"

subsection \<open>Opening a session\<close>

text \<open>Up to the loop, on a connection that has been launched.\<close>

definition open_session :: "instant \<Rightarrow> unit cm" where
  "open_session now =
     cm_bind (cm_get (\<lambda>c. if cl_probe c then 0 else cu_seq (cl_cursor c))) (\<lambda>sq.
     cm_bind (new_request (EndFatal CauseRandom) ''hello''
         (JObj [(''minVersion'', JNat 1), (''maxVersion'', JNat 1), (''lastAppliedSeq'', JNat sq)])) (\<lambda>env.
       on_session (\<lambda>_. \<lparr>cs_hello = en_id env, cs_welcomed = False, cs_ready = False, cs_agents_supported = True,
                        cs_lookups = [], cs_writes = [env], cs_sent = [], cs_last_frame = now, cs_last_send = now\<rparr>)))"

subsection \<open>Frames\<close>

definition owner_warning :: "string \<Rightarrow> bytes" where
  "owner_warning owner =
     SafeText (''ALL AGENT ACTIONS RUN WITH '' @ owner
       @ [CHR 0x27] @ ''S FULL RUNTIME AUTHORITY; TRANSCRIPT ATTRIBUTION IS NOT TAMPER-PROOF.'')"

definition welcome_text :: "welcome_body \<Rightarrow> bytes" where
  "welcome_text w =
     ''Room: '' @ SafeText (w_room_name w) @ '' ('' @ SafeText (w_room_id w) @ '')'' @ [CHR 0x0A]
     @ ''Project: '' @ SafeText (w_project_root w) @ [CHR 0x0A]
     @ ''Execution owner: '' @ SafeText (w_execution_owner w) @ [CHR 0x0A]
     @ ''Active turn: '' @ SafeText (w_active_turn_id w) @ [CHR 0x0A]
     @ owner_warning (w_execution_owner w) @ [CHR 0x0A]"

definition empty_snapshot :: runtime_snapshot where
  "empty_snapshot = \<lparr>rs_truncated = False, rs_revision = 0, rs_watermark = 0, rs_live_items = [], rs_active_turn_id = []\<rparr>"

text \<open>The room behind the target is another one: start again from nothing, with a new session.\<close>

definition change_room :: "welcome_body \<Rightarrow> unit cm" where
  "change_room w =
     cm_bind (cm_get (\<lambda>c. cl_pending c \<noteq> [])) (\<lambda>waiting.
       if waiting then cm_end (EndFatal CauseRoomChanged)
       else
         cm_then (cm_update (\<lambda>c. c\<lparr>cl_cursor := \<lparr>cu_target = cl_target c, cu_room = w_room_id w, cu_seq = 0\<rparr>,
                                   cl_probe := False, cl_projection := cp_snapshot empty_snapshot\<rparr>))
        (cm_then save_cursor (cm_end EndProbe)))"

definition enter_room :: "observers \<Rightarrow> welcome_body \<Rightarrow> unit cm" where
  "enter_room ob w =
     cm_then (cm_update (\<lambda>c. c\<lparr>cl_cursor := \<lparr>cu_target = cl_target c, cu_room = w_room_id w,
                                             cu_seq = (if w_latest_seq w < cu_seq (cl_cursor c) then 0 else cu_seq (cl_cursor c))\<rparr>,
                               cl_projection := (cl_projection c)\<lparr>cp_active := w_active_turn_id w\<rparr>\<rparr>))
    (cm_bind (cm_get cl_probe) (\<lambda>probe.
       if probe then cm_then (cm_update (\<lambda>c. c\<lparr>cl_probe := False\<rparr>)) (cm_end EndProbe)
       else
         cm_then save_cursor
        (cm_then (print_text (welcome_text w))
        (cm_then (notify (ob_project ob) (NoteProject (w_project_root w)))
        (cm_then (on_session (\<lambda>s. s\<lparr>cs_welcomed := True\<rparr>))
                 (notify (ob_room ob) (NoteRoom (w_room_id w))))))))"

definition handle_welcome :: "observers \<Rightarrow> envelope \<Rightarrow> unit cm" where
  "handle_welcome ob e =
     cm_bind (cm_get (\<lambda>c. (cs_hello (cl_session c), cu_room (cl_cursor c)))) (\<lambda>(hello, room).
       if en_kind e \<noteq> KindResponse \<or> en_method e \<noteq> ''welcome'' \<or> en_id e \<noteq> hello
       then cm_then (cm_when (room \<noteq> []) (cm_update (\<lambda>c. c\<lparr>cl_probe := True\<rparr>))) (cm_end (EndLost CauseExpectedWelcome))
       else (case decode_welcome (en_body e) of
          Inl x \<Rightarrow> cm_end (EndFatal CauseDecode)
        | Inr w \<Rightarrow>
            if \<not> w_full_owner_access w then cm_end (EndFatal CauseOwnerAccess)
            else if room \<noteq> [] \<and> room \<noteq> w_room_id w then change_room w
            else enter_room ob w))"

text \<open>A list or snapshot for an observer.\<close>

definition observe_body :: "bool \<Rightarrow> go_type \<Rightarrow> (json \<Rightarrow> client_note) \<Rightarrow> envelope \<Rightarrow> unit cm" where
  "observe_body wanted t n e =
     cm_when wanted
       (case json_parse (en_body e) of
          Some v \<Rightarrow> if unmarshals t v then notify True (n v) else cm_end (EndLost CauseDecode)
        | None \<Rightarrow> cm_end (EndLost CauseDecode))"

definition lookup_kind :: "string \<Rightarrow> client_session \<Rightarrow> string" where
  "lookup_kind i s = (case map_of (cs_lookups s) i of Some k \<Rightarrow> k | None \<Rightarrow> [])"

definition drop_key :: "string \<Rightarrow> (string \<times> 'a) list \<Rightarrow> (string \<times> 'a) list" where
  "drop_key i = filter (\<lambda>p. fst p \<noteq> i)"

definition resolve_replies :: "envelope \<Rightarrow> unit cm" where
  "resolve_replies e =
     cm_update (\<lambda>c. case map_of (cl_replies c) (en_id e) of
         None \<Rightarrow> c
       | Some ws \<Rightarrow>
           c\<lparr>cl_results := cl_results c @ map (\<lambda>w. (w, if en_kind e = KindError then SubmitRejected else SubmitAccepted)) ws,
             cl_replies := drop_key (en_id e) (cl_replies c)\<rparr>)"

definition reply_line :: "envelope \<Rightarrow> bytes" where
  "reply_line e = ''['' @ SafeText (en_method e) @ ''] '' @ SafeText (en_body e) @ [CHR 0x0A]"

definition handle_reply :: "observers \<Rightarrow> envelope \<Rightarrow> unit cm" where
  "handle_reply ob e =
     (let good = (en_kind e = KindResponse) in
      cm_then (cm_update (\<lambda>c. c\<lparr>cl_pending := drop_key (en_id e) (cl_pending c), cl_order := remove1 (en_id e) (cl_order c)\<rparr>))
     (cm_then (observe_body (en_method e = ''agents'' \<and> good \<and> ob_agents ob) agents_type NoteAgents e)
     (cm_then (observe_body (en_method e = ''queue'' \<and> good \<and> ob_queue ob) snapshot_type NoteQueue e)
     (cm_bind (cm_get (\<lambda>c. lookup_kind (en_id e) (cl_session c))) (\<lambda>lookup.
      cm_then (on_session (\<lambda>s. s\<lparr>cs_agents_supported := (cs_agents_supported s \<and> \<not> (lookup = ''agents'' \<and> en_kind e = KindError)),
                                 cs_lookups := drop_key (en_id e) (cs_lookups s)\<rparr>))
     (cm_then (resolve_replies e)
     (cm_then (observe_body ((en_method e = ''who'' \<or> en_method e = ''members'') \<and> good \<and> ob_members ob) members_type NoteMembers e)
     (cm_then (cm_when (lookup = ''members'' \<and> en_kind e = KindError) (ask (EndFatal CauseRandom) ''who''))
              (cm_when (lookup = [] \<and> en_method e \<noteq> ''heartbeat'' \<and> en_method e \<noteq> ''ack'') (print_text (reply_line e)))))))))))"

text \<open>
  Once the snapshot is here everything unanswered is sent again, in order. The slice of the ones
  kept shares its array with the order it is filtered from, so that a failure in the middle leaves
  the kept ones over the front of the old order.
\<close>

fun resend :: "string list \<Rightarrow> string list \<Rightarrow> unit cm" where
  "resend kept [] = cm_update (\<lambda>c. c\<lparr>cl_order := kept\<rparr>)"
| "resend kept (i # is) =
     cm_bind (cm_get (\<lambda>c. map_of (cl_pending c) i)) (\<lambda>found.
       case found of
         None \<Rightarrow> resend kept is
       | Some env \<Rightarrow>
           cm_then (cm_update (\<lambda>c. c\<lparr>cl_order := (kept @ [i]) @ drop (length kept + 1) (cl_order c)\<rparr>))
          (cm_then (cm_when (en_method env = ''members'') (set_lookup (en_id env) ''members''))
          (cm_then (send_envelope env) (resend (kept @ [i]) is))))"

definition become_ready :: "observers \<Rightarrow> unit cm" where
  "become_ready ob =
     cm_then (on_session (\<lambda>s. s\<lparr>cs_ready := True\<rparr>))
    (cm_then (cm_when (ob_agents ob) (ask (EndLost CauseRandom) ''agents''))
    (cm_then (cm_when (ob_queue ob) (ask (EndLost CauseRandom) ''queue''))
    (cm_then (notify (ob_connection ob) (NoteConnection True))
    (cm_then (cm_when (ob_members ob) (ask (EndFatal CauseRandom) ''members''))
             (cm_bind (cm_get cl_order) (\<lambda>order. resend [] order))))))"

definition handle_snapshot :: "observers \<Rightarrow> envelope \<Rightarrow> unit cm" where
  "handle_snapshot ob e =
     (case decode_runtime_snapshot (en_body e) of
        Inl x \<Rightarrow> cm_end (EndLost CauseDecode)
      | Inr s \<Rightarrow>
          (let p = cp_snapshot s in
           cm_then (set_projection p)
          (cm_then (notify (ob_active_turn ob) (NoteActiveTurn (cp_active p)))
          (cm_then (cm_when (cp_truncated p) (print_text truncated_line))
          (cm_then (print_text (concat (map (\<lambda>v. partial_line (wi_item_id v) (wi_partial v)) (rs_live_items s))))
          (cm_bind (cm_get (\<lambda>c. cs_ready (cl_session c))) (\<lambda>ready. cm_when (\<not> ready) (become_ready ob))))))))"

text \<open>Whether an event may have changed what the agents do, or the queue.\<close>

definition mentions_agent :: "durable_event \<Rightarrow> bool" where
  "mentions_agent d \<longleftrightarrow> list_ex (prefix ([CHR 0x22] @ ''agentId'' @ [CHR 0x22])) (suffixes (payload_text (de_payload d)))"

definition agents_event :: "durable_event \<Rightarrow> bool" where
  "agents_event d \<longleftrightarrow> prefix ''turn/'' (de_kind d) \<or> (de_kind d = ''item/completed'' \<and> mentions_agent d)"

definition queue_event :: "durable_event \<Rightarrow> bool" where
  "queue_event d \<longleftrightarrow> de_kind d = ''message/accepted'' \<or> agents_event d"

definition observe_event :: "observers \<Rightarrow> durable_event \<Rightarrow> unit cm" where
  "observe_event ob d =
     cm_then (cm_bind (cm_get (\<lambda>c. cp_active (cl_projection c))) (\<lambda>a. notify (ob_active_turn ob) (NoteActiveTurn a)))
    (cm_then (consult (ob_event ob) (NoteEvent d))
             (cm_when (ob_answer ob \<noteq> None)
                (case answerText d of
                   None \<Rightarrow> cm_end (EndFatal CausePayload)
                 | Some t \<Rightarrow> cm_when (t \<noteq> []) (consult (ob_answer ob) (NoteAnswer d t)))))"

definition refresh_lists :: "observers \<Rightarrow> durable_event \<Rightarrow> unit cm" where
  "refresh_lists ob d =
     cm_bind (cm_get cl_session) (\<lambda>s.
       cm_then (cm_when (cs_ready s \<and> cs_agents_supported s \<and> ob_agents ob \<and> agents_event d) (ask (EndLost CauseRandom) ''agents''))
               (cm_when (cs_ready s \<and> ob_queue ob \<and> queue_event d) (ask (EndLost CauseRandom) ''queue'')))"

text \<open>Events already applied are skipped; the cursor moves, and is saved, after the observers.\<close>

definition apply_durable :: "observers \<Rightarrow> seqno \<Rightarrow> durable_event \<Rightarrow> unit cm" where
  "apply_durable ob sq d =
     cm_bind (cm_get cl_projection) (\<lambda>p.
       case cp_durable d p of
         None \<Rightarrow> cm_end (EndFatal CausePayload)
       | Some (text, p') \<Rightarrow>
           cm_then (set_projection p')
          (cm_then (print_text text)
          (cm_then (observe_event ob d)
          (cm_then (refresh_lists ob d)
          (cm_then (cm_update (\<lambda>c. c\<lparr>cl_cursor := (cl_cursor c)\<lparr>cu_seq := sq\<rparr>\<rparr>))
          (cm_then save_cursor
          (cm_bind (new_request (EndFatal CauseRandom) ''ack'' (JObj [(''seq'', JNat sq)])) (\<lambda>ack.
             cm_bind (cm_get (\<lambda>c. cs_ready (cl_session c))) (\<lambda>ready. cm_when ready (send_envelope ack))))))))))"

definition handle_durable :: "observers \<Rightarrow> seqno \<Rightarrow> envelope \<Rightarrow> unit cm" where
  "handle_durable ob sq e =
     cm_bind (cm_get (\<lambda>c. cu_seq (cl_cursor c))) (\<lambda>applied.
       if sq \<le> applied then cm_return ()
       else (case unmarshal_durable (en_body e) of
          None \<Rightarrow> cm_end (EndLost CauseDecode)
        | Some d \<Rightarrow> if de_seq d \<noteq> sq then cm_end (EndLost CauseSequence) else apply_durable ob sq d))"

definition handle_transient :: "envelope \<Rightarrow> unit cm" where
  "handle_transient e =
     cm_bind (cm_get cl_session) (\<lambda>s.
       if \<not> cs_ready s then cm_end (EndLost CauseEarlyTransient)
       else (case decode_transient (en_body e) of
          Inl x \<Rightarrow> cm_end (EndLost CauseDecode)
        | Inr t \<Rightarrow>
            cm_bind (cm_get cl_projection) (\<lambda>p.
              case cp_transient t p of (text, p') \<Rightarrow> cm_then (set_projection p') (print_text text))))"

definition handle_frame :: "observers \<Rightarrow> instant \<Rightarrow> wire_error + envelope \<Rightarrow> unit cm" where
  "handle_frame ob now r =
     (case r of
        Inl x \<Rightarrow> cm_end (EndLost (CauseFrame x))
      | Inr e \<Rightarrow>
          cm_then (on_session (\<lambda>s. s\<lparr>cs_last_frame := now\<rparr>))
         (cm_bind (cm_get (\<lambda>c. cs_welcomed (cl_session c))) (\<lambda>welcomed.
            if \<not> welcomed then handle_welcome ob e
            else if en_kind e = KindResponse \<or> en_kind e = KindError then handle_reply ob e
            else if en_kind e \<noteq> KindEvent then cm_end (EndLost CauseFrameKind)
            else if en_method e = ''runtime-snapshot'' then handle_snapshot ob e
            else (case en_seq e of Some sq \<Rightarrow> handle_durable ob sq e | None \<Rightarrow> handle_transient e))))"

subsection \<open>Input, timers and the writer\<close>

text \<open>
  The scanner reads lines ahead: \<^verbatim>\<open>/quit\<close> cancels the client at once (\<open>None\<close>), and a full queue rejects
  a line and counts it.
\<close>

definition scan_line :: "bytes \<Rightarrow> client \<Rightarrow> client option" where
  "scan_line line c =
     (if (case ParseCommand line of Inr cmd \<Rightarrow> cm_kind cmd = ''quit'' | Inl _ \<Rightarrow> False) then None
      else if length (cl_lines c) < 64 then Some (c\<lparr>cl_lines := cl_lines c @ [line]\<rparr>)
      else Some (c\<lparr>cl_rejected := cl_rejected c + 1\<rparr>))"

definition report_overflow :: "client \<Rightarrow> client" where
  "report_overflow c =
     (if 0 < cl_rejected c
      then c\<lparr>cl_diagnostics := cl_diagnostics c @ [DiagOverflow (cl_rejected c)], cl_rejected := 0\<rparr>
      else c)"

text \<open>The writer takes an envelope from the queue; whether its connection took the frame is given.\<close>

definition writer_step :: "bool \<Rightarrow> client_session \<Rightarrow> session_end option \<times> client_session" where
  "writer_step ok s =
     (case cs_writes s of
        [] \<Rightarrow> (None, s)
      | e # es \<Rightarrow>
          let s1 = s\<lparr>cs_writes := es\<rparr> in
          if ok \<and> \<not> isl (encode_frame e) then (None, s1\<lparr>cs_sent := cs_sent s @ [e]\<rparr>) else (Some (EndLost CauseWrite), s1))"

definition handle_line :: "observers \<Rightarrow> instant \<Rightarrow> bytes \<Rightarrow> unit cm" where
  "handle_line ob now line =
     (if ob_read_only ob then diagnose DiagReadOnly
      else case ParseCommand line of
        Inl x \<Rightarrow> diagnose (DiagCommand x)
      | Inr cmd \<Rightarrow>
          cm_bind (cm_get (\<lambda>c. command_envelope cmd (cp_active (cl_projection c)) (cl_random c))) (\<lambda>(r, rnd).
          cm_then (cm_update (\<lambda>c. c\<lparr>cl_random := rnd\<rparr>))
            (case r of
               Inl x \<Rightarrow> diagnose (DiagCommand x)
             | Inr (env, mutation) \<Rightarrow>
                 cm_then (cm_when mutation
                   (cm_update (\<lambda>c. c\<lparr>cl_pending := put (en_id env) env (cl_pending c), cl_order := cl_order c @ [en_id env]\<rparr>)))
                (cm_then (cm_when (en_method env = ''members'') (set_lookup (en_id env) ''members''))
                (cm_then (send_envelope env) (on_session (\<lambda>s. s\<lparr>cs_last_send := now\<rparr>)))))))"

definition resolve_submission :: "nat \<Rightarrow> submit_result \<Rightarrow> unit cm" where
  "resolve_submission w r = cm_update (\<lambda>c. c\<lparr>cl_results := cl_results c @ [(w, r)]\<rparr>)"

definition waiters :: "string \<Rightarrow> client \<Rightarrow> nat list" where
  "waiters i c = (case map_of (cl_replies c) i of Some ws \<Rightarrow> ws | None \<Rightarrow> [])"

text \<open>A submission that is new, or a retry of a pending one with the same body.\<close>

definition submit_envelope :: "instant \<Rightarrow> nat \<Rightarrow> envelope \<Rightarrow> unit cm" where
  "submit_envelope now w env =
     cm_then (cm_update (\<lambda>c. c\<lparr>cl_order := (if map_of (cl_pending c) (en_id env) = None then cl_order c @ [en_id env] else cl_order c),
                               cl_pending := put (en_id env) env (cl_pending c)\<rparr>))
    (cm_bind (cm_get (waiters (en_id env))) (\<lambda>ws.
       if 32 \<le> length ws then resolve_submission w SubmitTooManyRetries
       else
         cm_then (cm_update (\<lambda>c. c\<lparr>cl_replies := put (en_id env) (ws @ [w]) (cl_replies c)\<rparr>))
        (cm_then (send_envelope env) (on_session (\<lambda>s. s\<lparr>cs_last_send := now\<rparr>)))))"

definition handle_submission :: "instant \<Rightarrow> bool \<Rightarrow> nat \<Rightarrow> submission \<Rightarrow> unit cm" where
  "handle_submission now canceled w sub =
     (if canceled then resolve_submission w SubmitCanceled
      else case submission_envelope sub of
        Inl x \<Rightarrow> resolve_submission w (SubmitInvalid x)
      | Inr env \<Rightarrow>
          cm_bind (cm_get cl_pending) (\<lambda>pending.
            case map_of pending (en_id env) of
              Some old \<Rightarrow>
                if en_body old \<noteq> en_body env then resolve_submission w SubmitConflict else submit_envelope now w env
            | None \<Rightarrow>
                if 128 \<le> length pending then resolve_submission w SubmitTooManyPending else submit_envelope now w env))"

definition second :: int where
  "second = 1000000000"

definition handle_timer :: "observers \<Rightarrow> instant \<Rightarrow> unit cm" where
  "handle_timer ob now =
     cm_bind (cm_get cl_session) (\<lambda>s.
       if 60 * second \<le> now - cs_last_frame s then cm_end (EndLost CauseLiveness)
       else
         cm_when (cs_ready s \<and> 20 * second \<le> now - cs_last_send s)
           (cm_bind (new_request (EndFatal CauseRandom) ''heartbeat'' (JObj [(''unixMilli'', JInt (now div 1000000))])) (\<lambda>env.
            cm_then (send_envelope env)
           (cm_then (on_session (\<lambda>s. s\<lparr>cs_last_send := now\<rparr>))
                    (cm_when (ob_members ob) (ask (EndFatal CauseRandom) ''members''))))))"

definition handle_roster :: "observers \<Rightarrow> unit cm" where
  "handle_roster ob =
     cm_bind (cm_get cl_session) (\<lambda>s.
       cm_when (cs_ready s \<and> cs_agents_supported s \<and> ob_agents ob \<and> ''agents'' \<notin> set (map snd (cs_lookups s)))
         (ask (EndLost CauseRandom) ''agents''))"

subsection \<open>The loop\<close>

text \<open>
  What a round of the \<^verbatim>\<open>select\<close> found ready. Lines are read, and submissions taken, only once the
  session is ready; a round that finds neither goes on waiting.
\<close>

datatype client_event =
    ClRoster | ClOverflow | ClCanceled | ClWriteFailed | ClTimer instant
  | ClSubmission instant bool nat submission
  | ClLine instant | ClInputClosed
  | ClFrame instant "wire_error + envelope"

definition client_step :: "observers \<Rightarrow> client_event \<Rightarrow> unit cm" where
  "client_step ob ev c =
     (case ev of
        ClRoster \<Rightarrow> handle_roster ob c
      | ClOverflow \<Rightarrow> (Inr (), report_overflow c)
      | ClCanceled \<Rightarrow> (Inl EndCanceled, c)
      | ClWriteFailed \<Rightarrow> (Inl (EndLost CauseWrite), c)
      | ClTimer now \<Rightarrow> handle_timer ob now c
      | ClSubmission now canceled w sub \<Rightarrow>
          if cs_ready (cl_session c) \<and> \<not> ob_read_only ob then handle_submission now canceled w sub c else (Inr (), c)
      | ClLine now \<Rightarrow>
          (case cl_lines c of
             line # ls \<Rightarrow> if cs_ready (cl_session c) then handle_line ob now line (c\<lparr>cl_lines := ls\<rparr>) else (Inr (), c)
           | [] \<Rightarrow> (Inr (), c))
      | ClInputClosed \<Rightarrow> if cs_ready (cl_session c) \<and> cl_lines c = [] then (Inl EndInputEOF, c) else (Inr (), c)
      | ClFrame now r \<Rightarrow> handle_frame ob now r c)"

definition client_run :: "observers \<Rightarrow> client_event list \<Rightarrow> unit cm" where
  "client_run ob evs = cm_each (client_step ob) evs"

text \<open>\<^verbatim>\<open>Run\<close> after a session: stop, or another session after a delay.\<close>

datatype run_result = RunDone | RunInputError | RunFatal client_cause | RunNoRandom

definition be_nat :: "bytes \<Rightarrow> nat" where
  "be_nat b = foldl (\<lambda>n x. 256 * n + byte_val x) 0 b"

definition jitter :: "int \<Rightarrow> bytes \<Rightarrow> int option \<times> bytes" where
  "jitter base rnd =
     (if 8 \<le> length rnd
      then (Some (base div 2 + int (be_nat (take 8 rnd)) mod (base div 2 + 1)), drop 8 rnd)
      else (None, []))"

definition next_backoff :: "int \<Rightarrow> int" where
  "next_backoff b = (if b < 10 * second then min (10 * second) (b * 2) else b)"

definition after_session :: "observers \<Rightarrow> bool \<Rightarrow> bool \<Rightarrow> session_end \<Rightarrow> client \<Rightarrow> (run_result + int) \<times> client" where
  "after_session ob canceled scan_failed e c =
     (let c1 = (if ob_connection ob then c\<lparr>cl_notes := cl_notes c @ [NoteConnection False]\<rparr> else c) in
      if canceled \<or> e = EndCanceled then (Inl RunDone, c1)
      else case e of
        EndProbe \<Rightarrow> (Inr 0, c1)
      | EndInputEOF \<Rightarrow> (Inl (if scan_failed then RunInputError else RunDone), c1)
      | EndFatal x \<Rightarrow> (Inl (RunFatal x), c1)
      | EndCanceled \<Rightarrow> (Inl RunDone, c1)
      | EndLost x \<Rightarrow>
          let c2 = c1\<lparr>cl_diagnostics := cl_diagnostics c1 @ [DiagLost x]\<rparr> in
          (case jitter (cl_backoff c2) (cl_random c2) of
             (None, r) \<Rightarrow> (Inl RunNoRandom, c2\<lparr>cl_random := r\<rparr>)
           | (Some delay, r) \<Rightarrow> (Inr delay, c2\<lparr>cl_random := r, cl_backoff := next_backoff (cl_backoff c2)\<rparr>)))"

text \<open>The client at the start of \<^verbatim>\<open>Run\<close>, with the cursor that was loaded.\<close>

definition idle_session :: client_session where
  "idle_session = \<lparr>cs_hello = [], cs_welcomed = False, cs_ready = False, cs_agents_supported = True, cs_lookups = [],
     cs_writes = [], cs_sent = [], cs_last_frame = 0, cs_last_send = 0\<rparr>"

definition start_client :: "string \<Rightarrow> cursor \<Rightarrow> bytes \<Rightarrow> save_outcome list \<Rightarrow> client" where
  "start_client target cur rnd saves =
     \<lparr>cl_target = target, cl_cursor = cur, cl_probe = (cu_room cur \<noteq> []), cl_projection = new_client_projection,
      cl_pending = [], cl_order = [], cl_replies = [], cl_results = [], cl_lines = [], cl_rejected = 0, cl_random = rnd,
      cl_saves = saves, cl_stored = None, cl_backoff = second div 4, cl_output = [], cl_diagnostics = [], cl_notes = [],
      cl_session = idle_session\<rparr>"

end
