(* ===== verification/Daemon_Replay.thy ===== *)
theory Daemon_Replay
  imports Daemon_Properties Store_Properties
begin

text \<open>
  What a client that reconnects is sent (\<^verbatim>\<open>internal/daemon/replay.go\<close> on the SQLite store): the
  welcome, every event of the log after its cursor, and the snapshot.
\<close>

subsection \<open>Pages of a sorted log\<close>

definition between :: "nat \<Rightarrow> nat \<Rightarrow> durable_event list \<Rightarrow> durable_event list" where
  "between lo hi es = filter (\<lambda>e. lo < de_seq e \<and> de_seq e \<le> hi) es"

lemma between_page:
  assumes "sorted_wrt (<) (map de_seq es)" "take n (between lo hi es) \<noteq> []"
  shows "between lo hi es = take n (between lo hi es) @ between (de_seq (last (take n (between lo hi es)))) hi es"
proof -
  define b where b: "b = between lo hi es"
  have sorted: "sorted_wrt (<) (map de_seq b)"
    using assms(1) unfolding b between_def by (simp add: sorted_wrt_map sorted_wrt_filter)
  obtain xs x where x: "take n b = xs @ [x]" using assms(2) unfolding b by (metis append_butlast_last_id)
  have bs: "b = xs @ x # drop n b" using append_take_drop_id [of n b] x by simp
  from sorted have "sorted_wrt (<) (map de_seq (xs @ x # drop n b))" by (subst (asm) bs)
  then have s: "\<forall>y \<in> set xs. de_seq y < de_seq x" "\<forall>y \<in> set (drop n b). de_seq x < de_seq y"
    by (simp_all add: sorted_wrt_append)
  have "x \<in> set (take n b)" by (simp add: x)
  then have "x \<in> set b" by (rule in_set_takeD)
  then have lo: "lo < de_seq x" by (simp add: b between_def)
  have "between (de_seq x) hi es = filter (\<lambda>e. de_seq x < de_seq e) b"
    unfolding b between_def filter_filter by (rule filter_cong) (use lo in auto)
  also have "\<dots> = drop n b"
  proof -
    have "filter (\<lambda>e. de_seq x < de_seq e) xs = []" using s(1) by (auto simp: filter_empty_conv)
    moreover have "filter (\<lambda>e. de_seq x < de_seq e) (drop n b) = drop n b" using s(2) by (simp add: filter_id_conv)
    moreover have "filter (\<lambda>e. de_seq x < de_seq e) b = filter (\<lambda>e. de_seq x < de_seq e) (xs @ x # drop n b)" using bs by (rule arg_cong)
    ultimately show ?thesis by simp
  qed
  finally have "between (de_seq (last (take n b))) hi es = drop n b" by (simp add: x)
  then show ?thesis by (simp flip: b)
qed

subsection \<open>The log, as it is sent\<close>

definition replayed :: "durable_event list \<Rightarrow> frame list" where
  "replayed es = map (\<lambda>e. sendBroadcast (PubDurable e)) es"

lemma send_frame_same: "send_frame f = Some g \<Longrightarrow> g = f"
  by (simp add: send_frame_def split: sum.splits)

lemma send_events_frames: "send_events cur high es = (None, fs, l) \<Longrightarrow> fs = replayed es \<and> (es \<noteq> [] \<longrightarrow> l = de_seq (last es))"
proof (induction es arbitrary: cur fs)
  case (Cons e es)
  then obtain gs where g: "send_events (de_seq e) high es = (None, gs, l)" "fs = sendBroadcast (PubDurable e) # gs"
    by (auto split: if_splits option.splits prod.splits dest!: send_frame_same)
  from Cons.IH [OF g(1)] g Cons.prems show ?case by (cases "es = []") (auto simp: replayed_def)
qed (simp add: replayed_def)

definition room_log :: "config \<Rightarrow> store daemon \<Rightarrow> durable_event list" where
  "room_log cf d = events_of (cf_room_id cf) (st_db (w_store (dm_world d)))"

definition sound_daemon :: "store daemon \<Rightarrow> bool" where
  "sound_daemon d \<longleftrightarrow> wf_db (st_db (w_store (dm_world d)))"

lemma Events_Inr:
  assumes "Events rid after through limit s = (Inr es, s')"
  shows "st_db s' = st_db s \<and> es = select_events rid after through (nat limit) (st_db s) \<and> (\<exists>r. find_room rid (st_db s) = Some r)"
  using assms by (auto simp: Events_def validated_def requireRoom_def tx_Inr split: option.splits if_splits dest!: transact_Inr)

lemma sorted_log:
  assumes "wf_db d" "find_room rid d = Some r"
  shows "map de_seq (events_of rid d) = [1..<r_next_seq r]" "sorted_wrt (<) (map de_seq (events_of rid d))"
  using assms find_room_SomeD [OF assms(2)] by (auto simp: wf_db_def wf_log_def)

lemma select_events_between:
  assumes "wf_db d" "find_room rid d = Some r" "0 < high"
  shows "select_events rid cur high n d = take n (between cur high (events_of rid d))"
proof -
  have "sorted (map de_seq (between cur high (events_of rid d)))"
    using sorted_log [OF assms(1,2)] sorted_filter [of de_seq "events_of rid d"] by (simp add: between_def)
  then have "sort_key de_seq (between cur high (events_of rid d)) = between cur high (events_of rid d)"
    by (rule sort_key_id_if_sorted)
  with assms(3) show ?thesis by (simp add: select_events_def between_def)
qed

lemma replay_page_log:
  assumes "replay_page (sqlite_deps diff) cf sub cur high d = ((None, fs, l), d1)" "sound_daemon d" "cur < high"
  shows "room_log cf d1 = room_log cf d \<and> sound_daemon d1 \<and> dm_hub d1 = dm_hub d
    \<and> w_co (dm_world d1) = w_co (dm_world d) \<and> w_calls (dm_world d1) = w_calls (dm_world d)
    \<and> replayed (between cur high (room_log cf d)) = fs @ replayed (between l high (room_log cf d))"
proof -
  let ?s = "w_store (dm_world d)" and ?db = "st_db (w_store (dm_world d))"
  obtain es s' where e: "Events (cf_room_id cf) cur high 128 ?s = (Inr es, s')" "es \<noteq> []" "send_events cur high es = (None, fs, l)"
      "d1 = d\<lparr>dm_world := (dm_world d)\<lparr>w_store := s'\<rparr>\<rparr>"
    using assms(1)
    by (auto simp: replay_page_def sqlite_deps_def with_store_def repo_def split: if_splits prod.splits sum.splits)
  from Events_Inr [OF e(1)] obtain r where s: "st_db s' = ?db" "es = select_events (cf_room_id cf) cur high 128 ?db"
      "find_room (cf_room_id cf) ?db = Some r" by auto
  have wf: "wf_db ?db" using assms(2) by (simp add: sound_daemon_def)
  have es: "es = take 128 (between cur high (room_log cf d))"
    using select_events_between [OF wf s(3)] s(2) assms(3) by (simp add: room_log_def)
  with e(2) sorted_log [OF wf s(3)] between_page [of "room_log cf d" 128 cur high]
  have "between cur high (room_log cf d) = es @ between (de_seq (last es)) high (room_log cf d)" by (simp add: room_log_def)
  with send_events_frames [OF e(3)] e(2) show ?thesis
    using e(4) s(1) assms(2) by (simp add: room_log_def sound_daemon_def replayed_def flip: map_append)
qed

lemma replay_loop_log:
  assumes "replay_loop (sqlite_deps diff) cf sub cur high d = ((None, fs), d')" "sound_daemon d"
  shows "room_log cf d' = room_log cf d \<and> sound_daemon d' \<and> dm_hub d' = dm_hub d
    \<and> w_co (dm_world d') = w_co (dm_world d) \<and> w_calls (dm_world d') = w_calls (dm_world d)
    \<and> fs = replayed (between cur high (room_log cf d))"
  using assms
proof (induction "sqlite_deps diff" cf sub cur high d arbitrary: fs rule: replay_loop.induct)
  case (1 cf sub cur high d)
  show ?case
  proof (cases "high \<le> cur")
    case True
    then have "between cur high (room_log cf d) = []" by (auto simp: between_def filter_empty_conv)
    with 1(2,3) True show ?thesis by (simp add: replay_loop.simps replayed_def)
  next
    case False
    with 1(2) obtain f1 l d1 gs where p: "replay_page (sqlite_deps diff) cf sub cur high d = ((None, f1, l), d1)"
        "replay_loop (sqlite_deps diff) cf sub l high d1 = ((None, gs), d')" "fs = f1 @ gs"
      by (subst (asm) replay_loop.simps) (auto split: prod.splits option.splits)
    from replay_page_log [OF p(1) 1(3)] False have page: "room_log cf d1 = room_log cf d" "sound_daemon d1" "dm_hub d1 = dm_hub d"
      "w_co (dm_world d1) = w_co (dm_world d)" "w_calls (dm_world d1) = w_calls (dm_world d)"
      "replayed (between cur high (room_log cf d)) = f1 @ replayed (between l high (room_log cf d))" by auto
    from 1(1) [OF False p(1) [symmetric] refl refl refl p(2) page(2)] page p(3) show ?thesis by simp
  qed
qed

subsection \<open>A whole replay\<close>

lemma between_all:
  assumes "map de_seq es = [1..<n]"
  shows "between cur (length es) es = drop cur es"
proof -
  have len: "length es = n - 1" by (metis assms length_map length_upt)
  have seq: "de_seq (es ! i) = Suc i" if "i < length es" for i
  proof -
    have "de_seq (es ! i) = map de_seq es ! i" using that by simp
    also have "\<dots> = Suc i" unfolding assms using that len by simp
    finally show ?thesis .
  qed
  have "filter (\<lambda>e. cur < de_seq e \<and> de_seq e \<le> length es) (take cur es) = []"
  proof -
    have "de_seq e \<le> cur" if e: "e \<in> set (take cur es)" for e
    proof -
      obtain i where "i < length (take cur es)" "e = take cur es ! i" using e by (auto simp: in_set_conv_nth)
      then show ?thesis using seq [of i] by simp
    qed
    then show ?thesis by (force simp: filter_empty_conv)
  qed
  moreover have "filter (\<lambda>e. cur < de_seq e \<and> de_seq e \<le> length es) (drop cur es) = drop cur es"
    unfolding filter_id_conv by (auto simp: in_set_conv_nth seq)
  moreover have "filter Q es = filter Q (take cur es) @ filter Q (drop cur es)" for Q
    by (metis append_take_drop_id filter_append)
  ultimately show ?thesis unfolding between_def by (metis append_Nil)
qed

lemma LatestSeq_Inr:
  assumes "LatestSeq rid s = (Inr n, s')"
  shows "st_db s' = st_db s \<and> (\<exists>r. find_room rid (st_db s) = Some r \<and> n = r_next_seq r - 1)"
  using assms by (auto simp: LatestSeq_def validated_def tx_Inr split: option.splits dest!: transact_Inr)

lemma take_snapshot_Inr: "take_snapshot R A d = (Inr s, d') \<Longrightarrow> d' = d \<and> s = snapshot A (dm_world d)"
  by (cases "co_fatal (w_co (dm_world d))")
    (auto simp: take_snapshot_def with_coordinator_def command_reply_def split: prod.splits reply.splits)

lemma snapshot_same: "w_co v = w_co w \<Longrightarrow> w_calls v = w_calls w \<Longrightarrow> snapshot A v = snapshot A w"
  by (simp add: snapshot_def)

text \<open>
  C25. A client that reconnects is sent exactly what it missed: a replay that succeeds is the
  welcome, which names the end of the log, then every event of the log after the cursor of the
  client, each once and in the order of the log, however many pages that takes, and at last the
  snapshot of the running turn. The cursor was not beyond the log, and the replay changes neither
  the log nor what waits in the queue of the subscriber.
\<close>

theorem replay_exact:
  assumes "sound_daemon d" "replay R A (sqlite_deps diff) cf hid cur sub d = ((Inr revn, fs), d')"
  shows "cur \<le> length (room_log cf d) \<and> room_log cf d' = room_log cf d \<and> dm_hub d' = dm_hub d
    \<and> revn = sn_projection_revision (snapshot A (dm_world d))
    \<and> fs = response_frame hid ''welcome'' (BWelcome (room_welcome cf (snapshot A (dm_world d)) (length (room_log cf d))))
        # replayed (drop cur (room_log cf d)) @ [snapshot_frame (snapshot A (dm_world d))]"
proof -
  let ?s = "w_store (dm_world d)" and ?log = "room_log cf d"
  obtain f high d1 gs d2 g where r: "begin_replay R A (sqlite_deps diff) cf hid cur d = (Inr (f, high), d1)"
      "replay_loop (sqlite_deps diff) cf sub cur high d1 = ((None, gs), d2)" "end_replay R A d2 = (Inr (g, revn), d')"
      "fs = f # gs @ [g]"
    using assms(2) by (auto simp: replay_def split: prod.splits sum.splits option.splits)
  from r(1) obtain s' s where b: "LatestSeq (cf_room_id cf) ?s = (Inr high, s')" "d1 = d\<lparr>dm_world := (dm_world d)\<lparr>w_store := s'\<rparr>\<rparr>"
      "\<not> high < cur" "s = snapshot A (dm_world d1)" "f = response_frame hid ''welcome'' (BWelcome (room_welcome cf s high))"
    by (auto simp: begin_replay_def sqlite_deps_def with_store_def repo_def split: prod.splits sum.splits if_splits option.splits
        dest!: take_snapshot_Inr send_frame_same)
  from LatestSeq_Inr [OF b(1)] obtain row where row: "st_db s' = st_db ?s" "find_room (cf_room_id cf) (st_db ?s) = Some row"
      "high = r_next_seq row - 1" by auto
  have seqs: "map de_seq ?log = [1..<r_next_seq row]"
    using assms(1) row(2) unfolding room_log_def sound_daemon_def by (rule sorted_log)
  then have high: "high = length ?log" using row(3) by (metis length_map length_upt)
  have d1: "room_log cf d1 = ?log" "sound_daemon d1" "dm_hub d1 = dm_hub d" "s = snapshot A (dm_world d)"
    using assms(1) b(2,4) row(1) by (auto simp: room_log_def sound_daemon_def intro: snapshot_same)
  from replay_loop_log [OF r(2) d1(2)] d1 high between_all [OF seqs, of cur]
  have d2: "room_log cf d2 = ?log" "dm_hub d2 = dm_hub d" "gs = replayed (drop cur ?log)" "snapshot A (dm_world d2) = snapshot A (dm_world d)"
    using b(2) by (auto intro: snapshot_same)
  have "d' = d2" "g = snapshot_frame (snapshot A (dm_world d))" "revn = sn_projection_revision (snapshot A (dm_world d))"
    using r(3) d2(4) by (auto simp: end_replay_def split: prod.splits sum.splits option.splits dest!: take_snapshot_Inr send_frame_same)
  with b(3,5) d1(4) d2 high r(4) show ?thesis by simp
qed

subsection \<open>A concrete replay\<close>

lemma validateJSON_marshal:
  "printable v \<Longrightarrow> nesting v \<le> max_nesting \<Longrightarrow> fits SUnique v \<Longrightarrow> validateJSON (json_marshal v) = None"
  using json_tree_marshal [of v] utf8_valid_marshal [of v] by (simp add: validate_document scan_document_iff)

lemma send_frame_body:
  assumes "printable (body_json (fr_body f))" "nesting (body_json (fr_body f)) \<le> 9" "fits SUnique (body_json (fr_body f))"
    and "fr_kind f \<in> {KindRequest, KindResponse, KindEvent, KindError}" "\<not> blank (fr_method f)"
    and "fr_kind f \<in> {KindRequest, KindResponse} \<or> fr_id f \<noteq> [] \<longrightarrow> ValidMessageID (fr_id f)"
    and "length (json_marshal (envelope_json (frame_envelope f))) \<le> 600"
  shows "send_frame f = Some f"
proof -
  have n: "nesting (body_json (fr_body f)) \<le> max_nesting" using assms(2) by (simp add: max_nesting_def)
  have b: "json_marshal (body_json (fr_body f)) \<noteq> []" by (metis assms(1) list.discI marshal_head)
  have "validate_envelope (frame_envelope f) = None"
    using assms(4-6) b validateJSON_marshal [OF assms(1) n assms(3)] by (auto simp: validate_envelope_def frame_envelope_def Version_def)
  moreover have "json_valid (en_body (frame_envelope f))" using json_valid_marshal [OF assms(1) n] by (simp add: frame_envelope_def)
  moreover have "json_marshal (envelope_json (frame_envelope f)) \<noteq> []" by (simp add: envelope_json_def)
  ultimately show ?thesis using assms(7) by (simp add: send_frame_def encode_frame_def Let_def MaxFrameBytes_def)
qed

definition demo_config :: config where
  "demo_config = \<lparr>cf_room_id = ''r'', cf_room_name = ''n'', cf_project_root = ''p'', cf_execution_owner = ''o'', cf_maximum_frame = 4096\<rparr>"

lemma demo_snapshot: "wire_snapshot (snapshot demo_agent demo_booted) =
    \<lparr>rs_truncated = False, rs_revision = 0, rs_watermark = 0, rs_live_items = [], rs_active_turn_id = []\<rparr>"
  "room_welcome demo_config (snapshot demo_agent demo_booted) n =
     \<lparr>w_room_id = ''r'', w_room_name = ''n'', w_project_root = ''p'', w_execution_owner = ''o'', w_full_owner_access = True,
      w_active_turn_id = [], w_latest_seq = n\<rparr>"
  "sn_projection_revision (snapshot demo_agent demo_booted) = 0"
  by (simp_all add: snapshot_def demo_booted_def NewCoordinator_def demo_room demo_path wire_snapshot_def room_welcome_def demo_config_def
     NewProjection_def Snapshot_def live_items_def Let_def)


definition demo_joined :: "store daemon" where
  "demo_joined = \<lparr>dm_world = demo_booted, dm_hub = snd (Subscribe \<lparr>actor_uid = 1, actor_name = ''ann''\<rparr> (NewHub 8 64))\<rparr>"



definition demo_welcome_frame :: frame where
  "demo_welcome_frame = response_frame (demo_id CHR ''b'') ''welcome'' (BWelcome \<lparr>w_room_id = ''r'', w_room_name = ''n'', w_project_root = ''p'', w_execution_owner = ''o'', w_full_owner_access = True,
      w_active_turn_id = [], w_latest_seq = 2\<rparr>)"
definition demo_closing_frame :: frame where
  "demo_closing_frame = \<lparr>fr_kind = KindEvent, fr_id = [], fr_method = ''runtime-snapshot'',
    fr_body = BSnapshot \<lparr>rs_truncated = False, rs_revision = 0, rs_watermark = 0, rs_live_items = [], rs_active_turn_id = []\<rparr>, fr_seq = None\<rparr>"

lemma demo_frames_sent:
  "send_frame (sendBroadcast (PubDurable (demo_event 2))) = Some (sendBroadcast (PubDurable (demo_event 2)))"
  "send_frame demo_closing_frame = Some demo_closing_frame"
  "send_frame demo_welcome_frame = Some demo_welcome_frame"
proof -
  have n: "fits SUnique (JInt (int n))" if "n < 100" for n
    using that by (simp add: number_overflows_nat float_limit_def)
  note fits = keys_ok_def n [of 0, simplified] n [of 1, simplified] n [of 2, simplified]
  have fits1: "fits SUnique (body_json (fr_body (sendBroadcast (PubDurable (demo_event 2)))))"
    by (simp add: sendBroadcast_def demo_event_def durable_event_json_def fits)
  show "send_frame (sendBroadcast (PubDurable (demo_event 2))) = Some (sendBroadcast (PubDurable (demo_event 2)))"
    by (rule send_frame_body [OF _ _ fits1]; code_simp)
  have fits2: "fits SUnique (body_json (fr_body demo_closing_frame))"
    by (simp add: demo_closing_frame_def runtime_snapshot_json_def fits)
  show "send_frame demo_closing_frame = Some demo_closing_frame"
    by (rule send_frame_body [OF _ _ fits2]; code_simp)
  have fits3: "fits SUnique (body_json (fr_body demo_welcome_frame))"
    by (simp add: demo_welcome_frame_def response_frame_def welcome_json_def fits)
  show "send_frame demo_welcome_frame = Some demo_welcome_frame"
    by (rule send_frame_body [OF _ _ fits3]; code_simp)
qed

lemma demo_room_log:
  "cf_room_id demo_config = ''r''" "room_log demo_config demo_joined = [demo_event 1, demo_event 2]"
  "sound_daemon demo_joined" "dm_world demo_joined = demo_booted"
proof -
  have w: "dm_world demo_joined = demo_booted" "st_db (w_store demo_booted) = demo_db"
    by (simp_all add: demo_joined_def demo_booted_def demo_store_def)
  then show "sound_daemon demo_joined" "dm_world demo_joined = demo_booted" by (simp_all add: sound_daemon_def demo_wf)
  show r: "cf_room_id demo_config = ''r''" by (simp add: demo_config_def)
  show "room_log demo_config demo_joined = [demo_event 1, demo_event 2]"
    unfolding room_log_def w r by (simp add: events_of_def demo_db_def)
qed

lemma demo_replay:
  "replay demo_repository demo_agent (sqlite_deps None) demo_config (demo_id CHR ''b'') 1 0 demo_joined
     = ((Inr 0, [demo_welcome_frame, sendBroadcast (PubDurable (demo_event 2)), demo_closing_frame]), demo_joined)"
proof -
  let ?s = "snapshot demo_agent demo_booted"
  note room = demo_room_log(1)
  have frames: "response_frame (demo_id CHR ''b'') ''welcome'' (BWelcome (room_welcome demo_config ?s 2)) = demo_welcome_frame"
    "snapshot_frame ?s = demo_closing_frame"
    by (simp_all add: demo_snapshot demo_welcome_frame_def demo_closing_frame_def snapshot_frame_def)
  have snap: "take_snapshot demo_repository demo_agent demo_joined = (Inr ?s, demo_joined)"
    by (simp add: take_snapshot_def with_coordinator_def command_reply_def demo_joined_def) (simp add: demo_booted_def NewCoordinator_def demo_room demo_path)
  have latest: "with_store (LatestSeq ''r'') demo_joined = (Inr 2, demo_joined)"
    by (simp add: with_store_def repo_def LatestSeq_def validated_def validateRoomID_def demo_room demo_joined_def demo_booted_def transact_def tx_eval demo_defs find_room_def Let_def)
  have start: "begin_replay demo_repository demo_agent (sqlite_deps None) demo_config (demo_id CHR ''b'') 1 demo_joined = (Inr (demo_welcome_frame, 2), demo_joined)"
    by (simp add: begin_replay_def sqlite_deps_def room latest snap frames demo_frames_sent)
  have page: "with_store (Events ''r'' 1 2 128) demo_joined = (Inr [demo_event 2], demo_joined)"
  proof -
    have "select_events ''r'' 1 2 128 demo_db = [demo_event 2]"
      by (simp add: select_events_def events_of_def demo_db_def demo_event_def)
    moreover have "\<exists>r. find_room ''r'' demo_db = Some r" by (simp add: find_room_def demo_db_def)
    ultimately have "Events ''r'' 1 2 128 demo_store = (Inr [demo_event 2], demo_store)"
      by (auto simp: Events_def validated_def validateRoomID_def demo_room demo_store_def transact_def requireRoom_def tx_eval Let_def)
    then show ?thesis by (simp add: with_store_def repo_def demo_joined_def demo_booted_def)
  qed
  have seq: "de_seq (demo_event 2) = 2" by (simp add: demo_event_def)
  have "\<not> sub_closed 0 (dm_hub demo_joined)" by code_simp
  with page have "replay_page (sqlite_deps None) demo_config 0 1 2 demo_joined = (send_events 1 2 [demo_event 2], demo_joined)"
    unfolding replay_page_def by (simp only: if_False sqlite_deps_def deps.simps room) simp
  moreover have "send_events 1 2 [demo_event 2] = (None, [sendBroadcast (PubDurable (demo_event 2))], 2)"
    by (simp add: seq demo_frames_sent)
  moreover have "replay_loop (sqlite_deps None) demo_config 0 2 2 demo_joined = ((None, []), demo_joined)"
    by (subst replay_loop.simps) simp
  ultimately have pages: "replay_loop (sqlite_deps None) demo_config 0 1 2 demo_joined = ((None, [sendBroadcast (PubDurable (demo_event 2))]), demo_joined)"
    by (subst replay_loop.simps) simp
  have closing: "end_replay demo_repository demo_agent demo_joined = (Inr (demo_closing_frame, 0), demo_joined)"
    by (simp add: end_replay_def snap frames demo_frames_sent demo_snapshot)
  show ?thesis by (simp add: replay_def start pages closing del: One_nat_def)
qed

theorem replay_exact_witness:
  "replayed (drop 1 (room_log demo_config demo_joined)) = [sendBroadcast (PubDurable (demo_event 2))]
   \<and> demo_closing_frame = snapshot_frame (snapshot demo_agent (dm_world demo_joined))"
  using replay_exact [OF demo_room_log(3) demo_replay] by simp

end
