(* ===== verification/Client_Delivery.thy ===== *)
theory Client_Delivery
  imports Client Daemon_Replay
begin

text \<open>
  The daemon and the client together: the frames of a replay, given to a client that has just
  connected, make it ready with every event of the log observed once, in order.
\<close>

subsection \<open>The bodies of the daemon are read back\<close>

definition clean_welcome :: "welcome_body \<Rightarrow> bool" where
  "clean_welcome w \<longleftrightarrow>
     validate_welcome w = None \<and> w_latest_seq w < 2 ^ 64
     \<and> list_all utf8_valid [w_room_id w, w_room_name w, w_project_root w, w_execution_owner w, w_active_turn_id w]"

lemma decode_welcome_json:
  assumes "clean_welcome w"
  shows "decode_welcome (json_marshal (welcome_json w)) = Inr w"
  using assms unfolding decode_welcome_def welcome_json_def clean_welcome_def
  by (cases w, subst DecodeBody_marshal)
    (auto simp: shape_simps parse_show_nat welcome_fields_def field_def decode_string_def decode_bool_def decode_uint_nat)

definition clean_item :: "wire_item \<Rightarrow> bool" where
  "clean_item i \<longleftrightarrow> list_all utf8_valid [wi_thread_id i, wi_turn_id i, wi_item_id i, wi_partial i]"

definition clean_snapshot :: "runtime_snapshot \<Rightarrow> bool" where
  "clean_snapshot s \<longleftrightarrow>
     rs_revision s < 2 ^ 64 \<and> rs_watermark s < 2 ^ 64 \<and> utf8_valid (rs_active_turn_id s) \<and> list_all clean_item (rs_live_items s)"

lemma clean_item_tree:
  assumes "clean_item i"
  shows "printable (wire_item_json i)" "nesting (wire_item_json i) = 1" "fits SUnique (wire_item_json i)"
    "fits wire_item_shape (wire_item_json i)" "wire_item_fields (wire_item_json i) = Inr i"
  using assms
  by (auto simp: clean_item_def wire_item_json_def wire_item_shape_def shape_simps wire_item_fields_def field_def decode_string_def)

lemma decode_items: "list_all clean_item is \<Longrightarrow> decode_list wire_item_fields (map wire_item_json is) = Inr is"
  by (induction "is") (simp_all add: clean_item_tree)

lemma decode_runtime_snapshot_json:
  assumes "clean_snapshot s"
  shows "decode_runtime_snapshot (json_marshal (runtime_snapshot_json s)) = Inr s"
proof -
  have "list_all clean_item (rs_live_items s)" using assms by (simp add: clean_snapshot_def)
  then have i: "list_all printable (map wire_item_json (rs_live_items s))" "\<forall>v \<in> set (map wire_item_json (rs_live_items s)). nesting v = 1"
    "list_all (fits SUnique) (map wire_item_json (rs_live_items s))" "list_all (fits wire_item_shape) (map wire_item_json (rs_live_items s))"
    "decode_list wire_item_fields (map wire_item_json (rs_live_items s)) = Inr (rs_live_items s)"
    by (auto simp: list_all_iff clean_item_tree decode_items)
  show ?thesis
    unfolding decode_runtime_snapshot_def runtime_snapshot_json_def
  proof (subst DecodeBody_marshal)
    show "rbind (runtime_snapshot_fields [(''projectionTruncated'', JBool (rs_truncated s)), (''projectionRevision'', JNat (rs_revision s)),
           (''durableWatermark'', JNat (rs_watermark s)), (''liveItems'', JArr (map wire_item_json (rs_live_items s))),
           (''activeTurnId'', JStr (rs_active_turn_id s))]) (\<lambda>x. case None of None \<Rightarrow> Inr x | Some e \<Rightarrow> Inl e) = Inr s"
      using assms i(5)
      by (simp add: runtime_snapshot_fields_def field_def decode_string_def decode_bool_def decode_uint_nat decode_slice_def clean_snapshot_def)
  qed (use assms i(1-4) in \<open>auto simp: clean_snapshot_def shape_simps parse_show_nat runtime_snapshot_shape_def list_all_iff\<close>)
qed

subsection \<open>Steps that go on\<close>

lemmas cm_simps = cm_bind_def cm_then_def cm_return_def cm_end_def cm_get_def cm_update_def cm_when_def on_session_def
  print_text_def set_projection_def

definition seen :: "client_note list \<Rightarrow> durable_event list" where
  "seen ns = concat (map (\<lambda>n. case n of NoteEvent d \<Rightarrow> [d] | _ \<Rightarrow> []) ns)"

lemma seen_simps [simp]:
  "seen [] = []" "seen (NoteEvent d # ns) = d # seen ns" "seen (NoteConnection b # ns) = seen ns" "seen (NoteRoom r # ns) = seen ns"
  "seen (NoteProject s # ns) = seen ns" "seen (NoteActiveTurn t # ns) = seen ns" "seen (NoteAgents v # ns) = seen ns"
  "seen (NoteQueue v # ns) = seen ns" "seen (NoteMembers v # ns) = seen ns" "seen (NoteAnswer d t # ns) = seen ns"
  "seen (ns @ ms) = seen ns @ seen ms"
  by (simp_all add: seen_def)

lemma event_kind [simp]: "KindEvent \<noteq> KindResponse" "KindEvent \<noteq> KindError" "KindResponse \<noteq> KindEvent" "KindResponse \<noteq> KindError"
  by (simp_all add: KindEvent_def KindResponse_def KindError_def)

text \<open>Observers that do not fail, one of them for events.\<close>

definition good_observers :: "observers \<Rightarrow> bool" where
  "good_observers ob \<longleftrightarrow>
     (case ob_event ob of Some f \<Rightarrow> f = (\<lambda>_. True) | None \<Rightarrow> False) \<and> (case ob_answer ob of Some f \<Rightarrow> f = (\<lambda>_. True) | None \<Rightarrow> True)"

lemma notify_same: "notify b n c = (Inr (), c\<lparr>cl_notes := cl_notes c @ (if b then [n] else [])\<rparr>)"
  by (simp add: notify_def cm_simps)

lemma consult_ok: "consult (Some (\<lambda>_. True)) n c = (Inr (), c\<lparr>cl_notes := cl_notes c @ [n]\<rparr>)"
  by (simp add: consult_def notify_def cm_simps)

lemma observe_event_ok:
  assumes "good_observers ob" "ob_answer ob \<noteq> None \<longrightarrow> answerText d \<noteq> None"
  shows "\<exists>ns. observe_event ob d c = (Inr (), c\<lparr>cl_notes := cl_notes c @ ns\<rparr>) \<and> seen ns = [d]"
proof -
  have e: "ob_event ob = Some (\<lambda>_. True)" using assms(1) by (auto simp: good_observers_def split: option.splits)
  define ns where "ns = (if ob_active_turn ob then [NoteActiveTurn (cp_active (cl_projection c))] else []) @ [NoteEvent d]
    @ (case ob_answer ob of None \<Rightarrow> [] | Some f \<Rightarrow> (case answerText d of Some t \<Rightarrow> if t = [] then [] else [NoteAnswer d t] | None \<Rightarrow> []))"
  have "observe_event ob d c = (Inr (), c\<lparr>cl_notes := cl_notes c @ ns\<rparr>)"
    using assms e
    by (cases "ob_answer ob"; cases "answerText d") (auto simp: observe_event_def cm_simps notify_same consult_ok good_observers_def ns_def)
  moreover have "seen ns = [d]" by (simp add: ns_def split: option.split)
  ultimately show ?thesis by blast
qed

lemma save_cursor_ok: "cl_saves c = [] \<Longrightarrow> save_cursor c = (Inr (), c\<lparr>cl_stored := Some (cl_cursor c)\<rparr>)"
  by (cases c) (simp add: save_cursor_def Let_def)

lemma new_request_ok:
  "16 \<le> length (cl_random c) \<Longrightarrow>
     new_request x m b c = (Inr (request_envelope (hex_encode (take 16 (cl_random c))) m b), c\<lparr>cl_random := drop 16 (cl_random c)\<rparr>)"
  by (simp add: new_request_def client_request_def NewID_def)

lemma send_envelope_ok:
  "length (cs_writes (cl_session c)) < 128 \<Longrightarrow>
     send_envelope e c = (Inr (), c\<lparr>cl_session := (cl_session c)\<lparr>cs_writes := cs_writes (cl_session c) @ [e]\<rparr>\<rparr>)"
  by (simp add: send_envelope_def cm_simps)

text \<open>What the client reads of an event, and whether it can show it.\<close>

definition as_read :: "durable_event \<Rightarrow> durable_event" where
  "as_read e = (case unmarshal_durable (json_marshal (durable_event_json e)) of Some d \<Rightarrow> d | None \<Rightarrow> e)"

definition readable_event :: "observers \<Rightarrow> durable_event \<Rightarrow> bool" where
  "readable_event ob e \<longleftrightarrow>
     (case unmarshal_durable (json_marshal (durable_event_json e)) of
        None \<Rightarrow> False
      | Some d \<Rightarrow>
          de_seq d = de_seq e \<and> de_kind e \<noteq> ''runtime-snapshot''
          \<and> unmarshal_ok [''turn_id'', ''thread_id'', ''item_id''] (payload_value (de_payload d))
          \<and> (ob_answer ob \<noteq> None \<longrightarrow> answerText d \<noteq> None))"

definition event_frame :: "instant \<Rightarrow> frame \<Rightarrow> client_event" where
  "event_frame now f = ClFrame now (Inr (frame_envelope f))"

text \<open>The parts of a client that replayed events leave alone.\<close>

definition same_client :: "client \<Rightarrow> client \<Rightarrow> bool" where
  "same_client c c' \<longleftrightarrow>
     cl_target c' = cl_target c \<and> cl_probe c' = cl_probe c \<and> cl_pending c' = cl_pending c \<and> cl_order c' = cl_order c
     \<and> cl_replies c' = cl_replies c \<and> cl_results c' = cl_results c \<and> cl_lines c' = cl_lines c \<and> cl_saves c' = cl_saves c
     \<and> (cl_session c')\<lparr>cs_last_frame := 0\<rparr> = (cl_session c)\<lparr>cs_last_frame := 0\<rparr>"

lemma same_client_refl [simp]: "same_client c c"
  by (simp add: same_client_def)

lemma same_client_trans: "same_client a b \<Longrightarrow> same_client b c \<Longrightarrow> same_client a c"
  by (simp add: same_client_def)

lemma durable_before_ready:
  assumes "good_observers ob" "readable_event ob e" "cs_welcomed (cl_session c)" "\<not> cs_ready (cl_session c)" "cl_saves c = []"
    and "16 \<le> length (cl_random c)" "cu_seq (cl_cursor c) < de_seq e"
  shows "\<exists>c'. client_step ob (event_frame now (sendBroadcast (PubDurable e))) c = (Inr (), c') \<and> same_client c c'
    \<and> cl_random c' = drop 16 (cl_random c) \<and> cl_cursor c' = (cl_cursor c)\<lparr>cu_seq := de_seq e\<rparr> \<and> cl_stored c' = Some (cl_cursor c')
    \<and> seen (cl_notes c') = seen (cl_notes c) @ [as_read e]"
proof -
  from assms(2) obtain d where d: "unmarshal_durable (json_marshal (durable_event_json e)) = Some d" "de_seq d = de_seq e"
      "de_kind e \<noteq> ''runtime-snapshot''" "unmarshal_ok [''turn_id'', ''thread_id'', ''item_id''] (payload_value (de_payload d))"
      "ob_answer ob \<noteq> None \<longrightarrow> answerText d \<noteq> None" "as_read e = d"
    by (auto simp: readable_event_def as_read_def split: option.splits)
  define c0 where "c0 = c\<lparr>cl_session := (cl_session c)\<lparr>cs_last_frame := now\<rparr>\<rparr>"
  have step: "client_step ob (event_frame now (sendBroadcast (PubDurable e))) c = apply_durable ob (de_seq e) d c0"
    using assms(3,7) d(1-3)
    by (simp add: client_step_def event_frame_def handle_frame_def cm_simps frame_envelope_def sendBroadcast_def handle_durable_def c0_def
        del: json_marshal.simps)
  from d(4) obtain line p where p: "cp_durable d (cl_projection c) = Some (line, p)"
    by (auto simp: cp_durable_def Let_def)
  define c1 where "c1 = c0\<lparr>cl_projection := p, cl_output := cl_output c0 @ line\<rparr>"
  from observe_event_ok [OF assms(1) d(5), of c1] obtain ns where
    ns: "observe_event ob d c1 = (Inr (), c1\<lparr>cl_notes := cl_notes c1 @ ns\<rparr>)" "seen ns = [d]" by blast
  define c2 where "c2 = c1\<lparr>cl_notes := cl_notes c1 @ ns, cl_cursor := (cl_cursor c1)\<lparr>cu_seq := de_seq e\<rparr>\<rparr>"
  have "apply_durable ob (de_seq e) d c0 = (Inr (), c2\<lparr>cl_stored := Some (cl_cursor c2), cl_random := drop 16 (cl_random c2)\<rparr>)"
    using assms(4-6) ns(1)
    by (simp add: apply_durable_def p cm_simps refresh_lists_def save_cursor_ok new_request_ok c0_def c1_def c2_def)
  then show ?thesis using step ns(2) d(6) by (simp add: same_client_def c0_def c1_def c2_def)
qed

lemma client_run_simps [simp]:
  "client_run ob [] c = (Inr (), c)"
  "client_step ob ev c = (Inr (), c1) \<Longrightarrow> client_run ob (ev # evs) c = client_run ob evs c1"
  "client_step ob ev c = (Inl x, c1) \<Longrightarrow> client_run ob (ev # evs) c = (Inl x, c1)"
  by (simp_all add: client_run_def cm_simps)

lemma client_run_append:
  "client_run ob evs c = (Inr (), c1) \<Longrightarrow> client_run ob (evs @ evs') c = client_run ob evs' c1"
proof (induction evs arbitrary: c)
  case (Cons ev evs)
  obtain r c2 where s: "client_step ob ev c = (r, c2)" by (cases "client_step ob ev c")
  with Cons show ?case by (cases r) simp_all
qed simp

lemma events_before_ready:
  assumes "good_observers ob" "list_all (readable_event ob) es" "cs_welcomed (cl_session c)" "\<not> cs_ready (cl_session c)" "cl_saves c = []"
    and "16 * length es \<le> length (cl_random c)" "sorted_wrt (<) (cu_seq (cl_cursor c) # map de_seq es)"
  shows "\<exists>c'. client_run ob (map (event_frame now) (replayed es)) c = (Inr (), c') \<and> same_client c c'
    \<and> cl_random c' = drop (16 * length es) (cl_random c)
    \<and> cl_cursor c' = (cl_cursor c)\<lparr>cu_seq := last (cu_seq (cl_cursor c) # map de_seq es)\<rparr>
    \<and> (cl_stored c = Some (cl_cursor c) \<longrightarrow> cl_stored c' = Some (cl_cursor c'))
    \<and> seen (cl_notes c') = seen (cl_notes c) @ map as_read es"
  using assms(2-)
proof (induction es arbitrary: c)
  case Nil
  then show ?case by (simp add: replayed_def)
next
  case (Cons e es)
  from durable_before_ready [OF assms(1), of e c now] Cons.prems obtain c1 where
    1: "client_step ob (event_frame now (sendBroadcast (PubDurable e))) c = (Inr (), c1)" "same_client c c1"
      "cl_random c1 = drop 16 (cl_random c)" "cl_cursor c1 = (cl_cursor c)\<lparr>cu_seq := de_seq e\<rparr>" "cl_stored c1 = Some (cl_cursor c1)"
      "seen (cl_notes c1) = seen (cl_notes c) @ [as_read e]" by auto
  have w: "cs_welcomed (cl_session c1)" "\<not> cs_ready (cl_session c1)"
    using 1(2) Cons.prems(2,3) unfolding same_client_def by (cases "cl_session c"; cases "cl_session c1"; simp)+
  have "list_all (readable_event ob) es" "cl_saves c1 = []" "16 * length es \<le> length (cl_random c1)"
      "sorted_wrt (<) (cu_seq (cl_cursor c1) # map de_seq es)"
    using 1(2-4) Cons.prems(1,4-6) by (simp_all add: same_client_def)
  from Cons.IH [OF this(1) w this(2-4)] 1(5) obtain c' where
    2: "client_run ob (map (event_frame now) (replayed es)) c1 = (Inr (), c')" "same_client c1 c'"
      "cl_random c' = drop (16 * length es) (cl_random c1)"
      "cl_cursor c' = (cl_cursor c1)\<lparr>cu_seq := last (cu_seq (cl_cursor c1) # map de_seq es)\<rparr>"
      "cl_stored c' = Some (cl_cursor c')" "seen (cl_notes c') = seen (cl_notes c1) @ map as_read es"
    by blast
  have "client_run ob (map (event_frame now) (replayed (e # es))) c = (Inr (), c')"
    using 1(1) 2(1) by (simp add: replayed_def)
  then show ?case using 1 2 same_client_trans [OF 1(2) 2(2)] by (auto simp: add.commute)
qed

subsection \<open>Welcome and snapshot\<close>

lemma welcome_step:
  assumes "clean_welcome w" "w_full_owner_access w" "cs_hello (cl_session c) = hid" "\<not> cs_welcomed (cl_session c)" "\<not> cl_probe c"
    and "cl_saves c = []" "cu_room (cl_cursor c) = [] \<or> cu_room (cl_cursor c) = w_room_id w" "cu_seq (cl_cursor c) \<le> w_latest_seq w"
  shows "\<exists>c'. client_step ob (event_frame now (response_frame hid ''welcome'' (BWelcome w))) c = (Inr (), c')
    \<and> cl_session c' = (cl_session c)\<lparr>cs_last_frame := now, cs_welcomed := True\<rparr>
    \<and> cl_cursor c' = \<lparr>cu_target = cl_target c, cu_room = w_room_id w, cu_seq = cu_seq (cl_cursor c)\<rparr>
    \<and> cl_stored c' = Some (cl_cursor c') \<and> cl_saves c' = [] \<and> cl_random c' = cl_random c \<and> cl_order c' = cl_order c
    \<and> cl_pending c' = cl_pending c \<and> seen (cl_notes c') = seen (cl_notes c)"
proof -
  have latest: "\<not> w_latest_seq w < cu_seq (cl_cursor c)" using assms(8) by simp
  from assms(7) show ?thesis
    by (rule disjE; use assms(2-6) latest decode_welcome_json [OF assms(1)] in \<open>simp add: client_step_def event_frame_def handle_frame_def cm_simps frame_envelope_def response_frame_def handle_welcome_def
        enter_room_def save_cursor_ok notify_same del: json_marshal.simps\<close>)
qed

text \<open>Requests and repetitions only use random bytes and the queue of the writer.\<close>

definition only_writes :: "client \<Rightarrow> client \<Rightarrow> bool" where
  "only_writes c c' \<longleftrightarrow>
     cl_cursor c' = cl_cursor c \<and> cl_projection c' = cl_projection c \<and> cl_pending c' = cl_pending c \<and> cl_notes c' = cl_notes c
     \<and> cl_stored c' = cl_stored c \<and> cl_saves c' = cl_saves c \<and> cl_probe c' = cl_probe c \<and> cl_replies c' = cl_replies c
     \<and> cs_ready (cl_session c') = cs_ready (cl_session c) \<and> cs_welcomed (cl_session c') = cs_welcomed (cl_session c)"

lemma only_writes_refl [simp]: "only_writes c c"
  by (simp add: only_writes_def)

lemma only_writes_trans: "only_writes a b \<Longrightarrow> only_writes b c \<Longrightarrow> only_writes a c"
  by (simp add: only_writes_def)

definition queued :: "client \<Rightarrow> envelope list" where
  "queued c = cs_writes (cl_session c)"

lemma ask_ok:
  assumes "16 \<le> length (cl_random c)" "length (queued c) < 128"
  shows "\<exists>c' env. ask x m c = (Inr (), c') \<and> only_writes c c' \<and> cl_random c' = drop 16 (cl_random c) \<and> cl_order c' = cl_order c
    \<and> queued c' = queued c @ [env]"
  using assms by (simp add: ask_def cm_simps new_request_ok set_lookup_def send_envelope_ok only_writes_def queued_def)

text \<open>The repetition of what is unanswered, in the order it was first sent.\<close>

definition unanswered :: "client \<Rightarrow> string list \<Rightarrow> envelope list" where
  "unanswered c is = concat (map (\<lambda>i. case map_of (cl_pending c) i of Some e \<Rightarrow> [e] | None \<Rightarrow> []) is)"

lemma resend_ok:
  assumes "length (queued c) + length is \<le> 128"
  shows "\<exists>c'. resend kept is c = (Inr (), c') \<and> only_writes c c' \<and> cl_random c' = cl_random c
    \<and> queued c' = queued c @ unanswered c is"
  using assms
proof (induction "is" arbitrary: c kept)
  case Nil
  then show ?case by (simp add: cm_simps only_writes_def queued_def unanswered_def)
next
  case (Cons i js)
  show ?case
  proof (cases "map_of (cl_pending c) i")
    case None
    with Cons.IH [of c kept] Cons.prems show ?thesis by (simp add: cm_simps unanswered_def)
  next
    case (Some env)
    define c1 where "c1 = c\<lparr>cl_order := (kept @ [i]) @ drop (length kept + 1) (cl_order c)\<rparr>"
    define c2 where "c2 = (if en_method env = ''members'' then snd (set_lookup (en_id env) ''members'' c1) else c1)"
    define c3 where "c3 = c2\<lparr>cl_session := (cl_session c2)\<lparr>cs_writes := cs_writes (cl_session c2) @ [env]\<rparr>\<rparr>"
    have c2: "cm_when (en_method env = ''members'') (set_lookup (en_id env) ''members'') c1 = (Inr (), c2)" "queued c2 = queued c"
        "only_writes c c2" "cl_random c2 = cl_random c"
      by (simp_all add: cm_simps c2_def c1_def set_lookup_def queued_def only_writes_def)
    have "length (cs_writes (cl_session c2)) < 128" using c2(2) Cons.prems by (simp add: queued_def)
    then have c3: "send_envelope env c2 = (Inr (), c3)" by (simp add: send_envelope_ok c3_def)
    have w3: "queued c3 = queued c @ [env]" "only_writes c c3" "cl_random c3 = cl_random c"
      using c2(2-4) by (simp_all add: c3_def queued_def only_writes_def)
    obtain c' where c': "resend (kept @ [i]) js c3 = (Inr (), c')" "only_writes c3 c'" "cl_random c' = cl_random c3"
        "queued c' = queued c3 @ unanswered c3 js"
      using Cons.IH [of c3 "kept @ [i]"] Cons.prems w3(1) by auto
    have "resend kept (i # js) c = (Inr (), c')"
      using Some c2(1) c3 c'(1) by (simp add: cm_bind_def cm_then_def cm_get_def cm_update_def c1_def)
    moreover have "unanswered c3 js = unanswered c js" using w3(2) by (simp add: unanswered_def only_writes_def)
    ultimately show ?thesis
      using Some c' w3 only_writes_trans [OF w3(2) c'(2)] by (simp add: unanswered_def)
  qed
qed

lemma when_ask_ok:
  assumes "16 \<le> length (cl_random c)" "length (queued c) < 128"
  shows "\<exists>c' ws. cm_when b (ask x m) c = (Inr (), c') \<and> only_writes c c' \<and> length (cl_random c) \<le> length (cl_random c') + 16
    \<and> cl_order c' = cl_order c \<and> queued c' = queued c @ ws \<and> length ws \<le> 1"
proof (cases b)
  case True
  from ask_ok [OF assms, of x m] obtain c' env where "ask x m c = (Inr (), c')" "only_writes c c'" "cl_random c' = drop 16 (cl_random c)"
    "cl_order c' = cl_order c" "queued c' = queued c @ [env]" by blast
  with True assms show ?thesis by (intro exI [of _ c'] exI [of _ "[env]"]) (simp add: cm_when_def)
next
  case False
  then show ?thesis by (auto simp: cm_when_def cm_return_def intro!: exI [of _ "[]"])
qed

lemma become_ready_ok:
  assumes "48 \<le> length (cl_random c)" "length (queued c) + length (cl_order c) \<le> 125"
  shows "\<exists>c'. become_ready ob c = (Inr (), c') \<and> cs_ready (cl_session c') \<and> cl_cursor c' = cl_cursor c \<and> cl_projection c' = cl_projection c
    \<and> cl_pending c' = cl_pending c \<and> cl_stored c' = cl_stored c \<and> seen (cl_notes c') = seen (cl_notes c)
    \<and> (\<exists>ws. queued c' = queued c @ ws @ unanswered c (cl_order c))"
proof -
  define c0 where "c0 = c\<lparr>cl_session := (cl_session c)\<lparr>cs_ready := True\<rparr>\<rparr>"
  have q0: "queued c0 = queued c" "cl_random c0 = cl_random c" "cl_order c0 = cl_order c" by (simp_all add: c0_def queued_def)
  obtain c1 w1 where 1: "cm_when (ob_agents ob) (ask (EndLost CauseRandom) ''agents'') c0 = (Inr (), c1)" "only_writes c0 c1"
      "length (cl_random c0) \<le> length (cl_random c1) + 16" "cl_order c1 = cl_order c0" "queued c1 = queued c0 @ w1" "length w1 \<le> 1"
    using when_ask_ok [of c0 "ob_agents ob" "EndLost CauseRandom" "''agents''"] q0 assms by auto
  obtain c2 w2 where 2: "cm_when (ob_queue ob) (ask (EndLost CauseRandom) ''queue'') c1 = (Inr (), c2)" "only_writes c1 c2"
      "length (cl_random c1) \<le> length (cl_random c2) + 16" "cl_order c2 = cl_order c1" "queued c2 = queued c1 @ w2" "length w2 \<le> 1"
    using when_ask_ok [of c1 "ob_queue ob" "EndLost CauseRandom" "''queue''"] q0 1(3-6) assms by auto
  define c3 where "c3 = c2\<lparr>cl_notes := cl_notes c2 @ (if ob_connection ob then [NoteConnection True] else [])\<rparr>"
  have q3: "queued c3 = queued c2" "cl_random c3 = cl_random c2" "cl_order c3 = cl_order c2" by (simp_all add: c3_def queued_def)
  obtain c4 w4 where 4: "cm_when (ob_members ob) (ask (EndFatal CauseRandom) ''members'') c3 = (Inr (), c4)" "only_writes c3 c4"
      "cl_order c4 = cl_order c3" "queued c4 = queued c3 @ w4" "length w4 \<le> 1"
    using when_ask_ok [of c3 "ob_members ob" "EndFatal CauseRandom" "''members''"] q0 q3 1(3-6) 2(3-6) assms by auto
  have order: "cl_order c4 = cl_order c" using q0 q3 1(4) 2(4) 4(3) by simp
  have "length (queued c4) + length (cl_order c) \<le> 128" using q0 q3 1(5,6) 2(5,6) 4(4,5) assms(2) by simp
  from resend_ok [OF this, of "[]"] obtain c5 where 5: "resend [] (cl_order c) c4 = (Inr (), c5)" "only_writes c4 c5"
      "queued c5 = queued c4 @ unanswered c4 (cl_order c)" by auto
  have "become_ready ob c = (Inr (), c5)"
    using 1(1) 2(1) 4(1) 5(1) order
    by (simp add: become_ready_def cm_then_def cm_bind_def on_session_def cm_update_def c0_def [symmetric] notify_same c3_def [symmetric] cm_get_def)
  moreover have same: "cl_cursor c5 = cl_cursor c0" "cl_projection c5 = cl_projection c0" "cl_pending c5 = cl_pending c0" "cl_stored c5 = cl_stored c0"
      "cs_ready (cl_session c5) = cs_ready (cl_session c0)" "seen (cl_notes c5) = seen (cl_notes c0)" "cl_pending c4 = cl_pending c0"
    using 1(2) 2(2) 4(2) 5(2) by (auto simp: only_writes_def c3_def)
  moreover have "unanswered c4 (cl_order c) = unanswered c (cl_order c)" using same(7) by (simp add: unanswered_def c0_def)
  moreover have "queued c5 = queued c @ (w1 @ w2 @ w4) @ unanswered c4 (cl_order c)"
    using q0 q3 1(5) 2(5) 4(4) 5(3) by simp
  ultimately show ?thesis by (auto simp: c0_def)
qed

lemma snapshot_step:
  assumes "clean_snapshot s" "cs_welcomed (cl_session c)" "\<not> cs_ready (cl_session c)"
    and "48 \<le> length (cl_random c)" "length (queued c) + length (cl_order c) \<le> 125"
    and "f = \<lparr>fr_kind = KindEvent, fr_id = [], fr_method = ''runtime-snapshot'', fr_body = BSnapshot s, fr_seq = None\<rparr>"
  shows "\<exists>c'. client_step ob (event_frame now f) c = (Inr (), c') \<and> cs_ready (cl_session c') \<and> cl_cursor c' = cl_cursor c
    \<and> cl_projection c' = cp_snapshot s \<and> cl_pending c' = cl_pending c \<and> cl_stored c' = cl_stored c
    \<and> seen (cl_notes c') = seen (cl_notes c) \<and> (\<exists>ws. queued c' = queued c @ ws @ unanswered c (cl_order c))"
proof -
  define shown where "shown = (if cp_truncated (cp_snapshot s) then truncated_line else [])
    @ concat (map (\<lambda>v. partial_line (wi_item_id v) (wi_partial v)) (rs_live_items s))"
  define c0 where "c0 = c\<lparr>cl_session := (cl_session c)\<lparr>cs_last_frame := now\<rparr>, cl_projection := cp_snapshot s,
    cl_notes := cl_notes c @ (if ob_active_turn ob then [NoteActiveTurn (cp_active (cp_snapshot s))] else []), cl_output := cl_output c @ shown\<rparr>"
  have "client_step ob (event_frame now f) c = become_ready ob c0"
    using assms(2,3) decode_runtime_snapshot_json [OF assms(1)]
    by (cases "cp_truncated (cp_snapshot s)")
      (simp_all add: client_step_def event_frame_def handle_frame_def cm_simps frame_envelope_def assms(6) handle_snapshot_def Let_def notify_same
        c0_def shown_def del: json_marshal.simps)
  moreover have q0: "queued c0 = queued c" "cl_random c0 = cl_random c" "cl_order c0 = cl_order c" "unanswered c0 js = unanswered c js" for js
    by (simp_all add: c0_def queued_def unanswered_def)
  obtain c' where "become_ready ob c0 = (Inr (), c')" "cs_ready (cl_session c')" "cl_cursor c' = cl_cursor c0"
      "cl_projection c' = cl_projection c0" "cl_pending c' = cl_pending c0" "cl_stored c' = cl_stored c0"
      "seen (cl_notes c') = seen (cl_notes c0)" "\<exists>ws. queued c' = queued c0 @ ws @ unanswered c0 (cl_order c0)"
    using become_ready_ok [of c0 ob] assms(4,5) q0 by auto
  ultimately show ?thesis by (simp add: q0) (simp add: c0_def)
qed

subsection \<open>A reconnect\<close>

lemma replay_room:
  assumes "sound_daemon d" "replay R A (sqlite_deps diff) cf hid cur sub d = ((Inr revn, fs), d')"
  shows "map de_seq (room_log cf d) = [1..<Suc (length (room_log cf d))]"
proof -
  obtain n s' where "LatestSeq (cf_room_id cf) (w_store (dm_world d)) = (Inr n, s')"
    using assms(2) by (auto simp: replay_def begin_replay_def sqlite_deps_def with_store_def repo_def split: prod.splits sum.splits)
  from LatestSeq_Inr [OF this] obtain r where "find_room (cf_room_id cf) (st_db (w_store (dm_world d))) = Some r" by auto
  from sorted_log(1) [OF _ this] assms(1) have m: "map de_seq (room_log cf d) = [1..<r_next_seq r]"
    by (simp add: room_log_def sound_daemon_def)
  then have "length (room_log cf d) = r_next_seq r - 1" by (metis length_map length_upt)
  with m show ?thesis by (cases "r_next_seq r") auto
qed

definition clean_room :: "agent \<Rightarrow> config \<Rightarrow> store daemon \<Rightarrow> bool" where
  "clean_room A cf d \<longleftrightarrow>
     clean_welcome (room_welcome cf (snapshot A (dm_world d)) (length (room_log cf d)))
     \<and> clean_snapshot (wire_snapshot (snapshot A (dm_world d)))"

definition fresh_session :: "string \<Rightarrow> config \<Rightarrow> client \<Rightarrow> bool" where
  "fresh_session hid cf c \<longleftrightarrow>
     cs_hello (cl_session c) = hid \<and> \<not> cs_welcomed (cl_session c) \<and> \<not> cs_ready (cl_session c) \<and> \<not> cl_probe c \<and> cl_saves c = []
     \<and> cu_room (cl_cursor c) \<in> {[], cf_room_id cf} \<and> length (queued c) + length (cl_order c) \<le> 125"


text \<open>Events whose payload is a plain document are readable, and are read as they are.\<close>

lemma readable_sendable:
  assumes "sendable_event e" "de_kind e \<noteq> ''runtime-snapshot''"
    and "unmarshal_ok [''turn_id'', ''thread_id'', ''item_id''] (Some (de_payload e))"
    and "ob_answer ob \<noteq> None \<longrightarrow> answerText (raw_payload e) \<noteq> None"
  shows "readable_event ob e" "as_read e = raw_payload e"
proof -
  have "payload_value (de_payload (raw_payload e)) = Some (de_payload e)"
    using assms(1) json_parse_marshal [of "de_payload e"] by (simp add: raw_payload_def payload_value_def sendable_event_def)
  then show "readable_event ob e" "as_read e = raw_payload e"
    using assms(2-4) unmarshal_durable_marshal [OF assms(1)] by (simp_all add: readable_event_def as_read_def raw_payload_def)
qed

definition demo_observers :: observers where
  "demo_observers =
     \<lparr>ob_read_only = False, ob_connection = False, ob_room = False, ob_project = False, ob_active_turn = False, ob_agents = True,
      ob_queue = False, ob_members = False, ob_event = Some (\<lambda>_. True), ob_answer = None\<rparr>"

definition demo_client :: client where
  "demo_client =
     (start_client ''t'' \<lparr>cu_target = ''t'', cu_room = ''r'', cu_seq = 1\<rparr> (replicate 100 CHR ''x'') [])
       \<lparr>cl_probe := False, cl_session := idle_session\<lparr>cs_hello := demo_id CHR ''b''\<rparr>\<rparr>"


end
