(* ===== verification/Client_Life.thy ===== *)
theory Client_Life
  imports Client_Delivery
begin

text \<open>
  What every run of the client keeps (\<^verbatim>\<open>internal/client/client.go\<close>), whatever the daemon, the network
  and the terminal do: no event is shown twice in a session, and nothing that was sent is forgotten
  before it is answered.
\<close>

subsection \<open>Steps that keep a relation\<close>

text \<open>A step keeps a relation if it does so however it ends.\<close>

definition keeps :: "(client \<Rightarrow> client \<Rightarrow> bool) \<Rightarrow> 'a cm \<Rightarrow> bool" where
  "keeps P m \<longleftrightarrow> (\<forall>c r c'. m c = (r, c') \<longrightarrow> P c c')"

lemma keepsD: "keeps P m \<Longrightarrow> m c = (r, c') \<Longrightarrow> P c c'"
  by (auto simp: keeps_def)

lemma NewID_suffix: "suffix (snd (NewID rnd)) rnd"
  by (auto simp: NewID_def suffix_drop)

lemma NewID_drawn: "NewID rnd = (Inr i, r) \<Longrightarrow> i = hex_encode (take 16 rnd) \<and> suffix r rnd"
  by (auto simp: NewID_def suffix_drop split: if_splits)

lemma client_request_random:
  assumes "client_request m b rnd = (r, rnd')"
  shows "suffix rnd' rnd" and "r = Inr env \<Longrightarrow> en_id env = hex_encode (take 16 rnd)"
  using assms NewID_suffix [of rnd] NewID_drawn [of rnd]
  by (auto simp: client_request_def request_envelope_def split: prod.splits sum.splits)

lemma mutation_body_random: "mutation_body cmd a i rnd = (r, rnd') \<Longrightarrow> suffix rnd' rnd"
  using NewID_suffix [of rnd] by (auto simp: mutation_body_def split: if_splits prod.splits sum.splits)

lemma command_envelope_random:
  assumes "command_envelope cmd a rnd = (r, rnd')"
  shows "suffix rnd' rnd" and "r = Inr (env, mutation) \<Longrightarrow> \<exists>s. suffix s rnd \<and> en_id env = hex_encode (take 16 s)"
proof -
  let ?first = "if cm_kind cmd \<in> set mutation_kinds
      then (case NewID rnd of (Inl e, r) \<Rightarrow> (Inl e, r) | (Inr i, r) \<Rightarrow> mutation_body cmd a i r)
      else (Inr (cm_kind cmd, JObj []), rnd)"
  obtain x r1 where x: "?first = (x, r1)" by (cases ?first)
  have r1: "suffix r1 rnd"
    using x NewID_suffix [of rnd] mutation_body_random suffix_order.trans
    by (fastforce split: if_splits prod.splits sum.splits)
  show "suffix rnd' rnd" "r = Inr (env, mutation) \<Longrightarrow> \<exists>s. suffix s rnd \<and> en_id env = hex_encode (take 16 s)"
  proof -
    consider "rnd' = rnd" "isl r" | "rnd' = r1" "isl r"
      | m b y where "x = Inr (m, b)" "client_request m b r1 = (y, rnd')" "\<And>env mu. r = Inr (env, mu) \<Longrightarrow> y = Inr env"
      using assms x unfolding command_envelope_def Let_def
      by (auto split: if_splits sum.splits prod.splits)
    then have "suffix rnd' rnd \<and> (r = Inr (env, mutation) \<longrightarrow> (\<exists>s. suffix s rnd \<and> en_id env = hex_encode (take 16 s)))"
    proof cases
      case 3
      from client_request_random [OF 3(2)] 3(3) r1 show ?thesis by (blast intro: suffix_order.trans)
    qed (use r1 in auto)
    then show "suffix rnd' rnd" "r = Inr (env, mutation) \<Longrightarrow> \<exists>s. suffix s rnd \<and> en_id env = hex_encode (take 16 s)" by auto
  qed
qed

text \<open>
  The interface of such a relation: it is a preorder, and output, diagnostics, notes about anything
  but an event, random bytes used up, and lookups and writes of the session do not matter to it.
\<close>

definition minor_note :: "client_note \<Rightarrow> bool" where
  "minor_note n \<longleftrightarrow> (case n of NoteEvent d \<Rightarrow> False | _ \<Rightarrow> True)"

locale kept =
  fixes P :: "client \<Rightarrow> client \<Rightarrow> bool"
  assumes same: "P c c"
    and both: "P a b \<Longrightarrow> P b c \<Longrightarrow> P a c"
    and printed: "P c (c\<lparr>cl_output := s\<rparr>)"
    and diagnostics: "P c (c\<lparr>cl_diagnostics := ds\<rparr>)"
    and results: "P c (c\<lparr>cl_results := rs\<rparr>)"
    and replies: "P c (c\<lparr>cl_replies := ws\<rparr>)"
    and projection: "P c (c\<lparr>cl_projection := p\<rparr>)"
    and lines: "P c (c\<lparr>cl_lines := ls\<rparr>)"
    and rejected: "P c (c\<lparr>cl_rejected := k\<rparr>)"
    and random: "suffix rnd (cl_random c) \<Longrightarrow> P c (c\<lparr>cl_random := rnd\<rparr>)"
    and noted: "minor_note n \<Longrightarrow> P c (c\<lparr>cl_notes := cl_notes c @ [n]\<rparr>)"
    and session: "cs_welcomed se = cs_welcomed (cl_session c) \<Longrightarrow> P c (c\<lparr>cl_session := se\<rparr>)"
begin

lemma keeps_return [intro]: "keeps P (cm_return x)"
  by (simp add: keeps_def cm_return_def same)

lemma keeps_end [intro]: "keeps P (cm_end e)"
  by (simp add: keeps_def cm_end_def same)

lemma keeps_get [intro]: "keeps P (cm_get f)"
  by (simp add: keeps_def cm_get_def same)

lemma keeps_update: "(\<And>c. P c (f c)) \<Longrightarrow> keeps P (cm_update f)"
  by (simp add: keeps_def cm_update_def)

lemma keeps_bind: "keeps P m \<Longrightarrow> (\<And>x. keeps P (f x)) \<Longrightarrow> keeps P (cm_bind m f)"
  by (fastforce simp: keeps_def cm_bind_def split: prod.splits sum.splits intro: both)

lemma keeps_then: "keeps P m \<Longrightarrow> keeps P f \<Longrightarrow> keeps P (cm_then m f)"
  unfolding cm_then_def by (rule keeps_bind)

lemma keeps_when: "(b \<Longrightarrow> keeps P m) \<Longrightarrow> keeps P (cm_when b m)"
  by (simp add: cm_when_def keeps_return)

lemma keeps_if: "(b \<Longrightarrow> keeps P m) \<Longrightarrow> (\<not> b \<Longrightarrow> keeps P f) \<Longrightarrow> keeps P (if b then m else f)"
  by simp

lemma keeps_session: "(\<And>s. cs_welcomed (f s) = cs_welcomed s) \<Longrightarrow> keeps P (on_session f)"
  unfolding on_session_def by (rule keeps_update) (rule session, simp)

lemma keeps_print [intro]: "keeps P (print_text s)"
  unfolding print_text_def by (rule keeps_update) (rule printed)

lemma keeps_diagnose [intro]: "keeps P (diagnose d)"
  unfolding diagnose_def by (rule keeps_update) (rule diagnostics)

lemma keeps_resolve [intro]: "keeps P (resolve_submission w r)"
  unfolding resolve_submission_def by (rule keeps_update) (rule results)

lemma keeps_projection [intro]: "keeps P (set_projection p)"
  unfolding set_projection_def by (rule keeps_update) (rule projection)

lemma keeps_notify: "minor_note n \<Longrightarrow> keeps P (notify b n)"
  unfolding notify_def by (intro keeps_when keeps_update noted)

lemma keeps_consult: "minor_note n \<Longrightarrow> keeps P (consult f n)"
  unfolding consult_def
  by (cases f) (auto intro!: keeps_then keeps_bind keeps_notify keeps_if)

lemma keeps_lookup [intro]: "keeps P (set_lookup i k)"
  unfolding set_lookup_def by (rule keeps_session) simp

lemma keeps_send [intro]: "keeps P (send_envelope e)"
proof -
  have "keeps P (on_session (\<lambda>s. s\<lparr>cs_writes := cs_writes s @ [e]\<rparr>))" by (rule keeps_session) simp
  then show ?thesis by (auto simp: keeps_def send_envelope_def same)
qed

lemma keeps_request [intro]: "keeps P (new_request x m b)"
  using random [OF NewID_suffix]
  by (fastforce simp: keeps_def new_request_def client_request_def split: prod.splits sum.splits dest: arg_cong [of _ _ snd])

lemma keeps_ask [intro]: "keeps P (ask x m)"
  unfolding ask_def by (intro keeps_bind keeps_then keeps_request keeps_lookup keeps_send)

lemma keeps_each: "(\<And>x. x \<in> set xs \<Longrightarrow> keeps P (f x)) \<Longrightarrow> keeps P (cm_each f xs)"
  by (induction xs) (auto intro: keeps_then)

lemma keeps_observe_body: "(\<And>v. minor_note (n v)) \<Longrightarrow> keeps P (observe_body b t n e)"
  unfolding observe_body_def
  by (auto intro!: keeps_when keeps_if keeps_notify split: option.split)

lemma keeps_replies: "keeps P (resolve_replies e)"
  unfolding resolve_replies_def
  by (rule keeps_update) (auto split: option.split intro: same both [OF results replies])

lemma keeps_transient: "keeps P (handle_transient e)"
  unfolding handle_transient_def
  by (auto intro!: keeps_then keeps_bind keeps_if split: sum.split prod.split)

lemma keeps_timer: "keeps P (handle_timer ob now)"
  unfolding handle_timer_def
  by (intro keeps_bind keeps_if keeps_when keeps_then keeps_session) auto

lemma keeps_roster: "keeps P (handle_roster ob)"
  unfolding handle_roster_def by (intro keeps_bind keeps_when) auto

lemma keeps_refresh: "keeps P (refresh_lists ob d)"
  unfolding refresh_lists_def by (intro keeps_bind keeps_then keeps_when) auto

lemma keeps_overflow: "P c (report_overflow c)"
  unfolding report_overflow_def by (auto intro: same both [OF diagnostics rejected])

end

text \<open>Relations that the repetition of what is unanswered keeps.\<close>

locale kept_resending = kept +
  assumes resending: "keeps P (cm_bind (cm_get cl_order) (\<lambda>order. resend [] order))"
begin

lemma keeps_ready: "keeps P (become_ready ob)"
  unfolding become_ready_def
  by (intro keeps_then keeps_bind keeps_when keeps_session keeps_ask keeps_notify resending) (simp_all add: minor_note_def)

lemma keeps_snapshot: "keeps P (handle_snapshot ob e)"
  unfolding handle_snapshot_def Let_def
  by (cases "decode_runtime_snapshot (en_body e)")
    (auto intro!: keeps_then keeps_bind keeps_when keeps_notify keeps_ready simp: minor_note_def)

end

text \<open>Relations to which what is pending does not matter.\<close>

locale kept_pending = kept +
  assumes pending: "P c (c\<lparr>cl_pending := ps\<rparr>)"
    and order: "P c (c\<lparr>cl_order := is\<rparr>)"
begin

lemma keeps_resend: "keeps P (resend ks is)"
proof (induction "is" arbitrary: ks)
  case Nil
  then show ?case by (auto intro: keeps_update order)
next
  case (Cons i js)
  then show ?case
    by (auto intro!: keeps_bind keeps_then keeps_when keeps_update order split: option.split)
qed

lemma keeps_reply: "keeps P (handle_reply ob e)"
proof -
  have "P c (c\<lparr>cl_pending := ps, cl_order := js\<rparr>)" for c ps js by (rule both [OF pending order])
  then show ?thesis
    unfolding handle_reply_def Let_def
    by (intro keeps_then keeps_bind keeps_when keeps_update keeps_session keeps_replies keeps_observe_body)
      (auto simp: minor_note_def)
qed

lemma keeps_line: "keeps P (handle_line ob now line)"
proof -
  have p: "P c (c\<lparr>cl_pending := ps, cl_order := js\<rparr>)" for c ps js by (rule both [OF pending order])
  have "keeps P (\<lambda>c. handle_line ob now line c)"
    unfolding keeps_def
  proof (intro allI impI)
    fix c r c'
    assume run: "handle_line ob now line c = (r, c')"
    have diag: "P c c'" if "diagnose d c = (r, c')" for d using keeps_diagnose that by (rule keepsD)
    show "P c c'"
    proof (cases "ob_read_only ob \<or> isl (ParseCommand line)")
      case True
      with run diag show ?thesis by (auto simp: handle_line_def split: sum.splits if_splits)
    next
      case False
      then obtain cmd where cmd: "ParseCommand line = Inr cmd" by (cases "ParseCommand line") auto
      obtain x rnd where x: "command_envelope cmd (cp_active (cl_projection c)) (cl_random c) = (x, rnd)"
        by (cases "command_envelope cmd (cp_active (cl_projection c)) (cl_random c)")
      let ?c = "c\<lparr>cl_random := rnd\<rparr>"
      have c: "P c ?c" by (rule random) (rule command_envelope_random(1) [OF x])
      have "P ?c c'"
      proof (cases x)
        case (Inl e)
        with run cmd False x have "diagnose (DiagCommand e) ?c = (r, c')" by (simp add: handle_line_def cm_bind_def cm_then_def cm_get_def cm_update_def)
        with keeps_diagnose show ?thesis by (rule keepsD)
      next
        case (Inr y)
        obtain env mutation where y: "y = (env, mutation)" by (cases y)
        let ?rest = "cm_then (cm_when mutation
                   (cm_update (\<lambda>c. c\<lparr>cl_pending := put (en_id env) env (cl_pending c), cl_order := cl_order c @ [en_id env]\<rparr>)))
                (cm_then (cm_when (en_method env = ''members'') (set_lookup (en_id env) ''members''))
                (cm_then (send_envelope env) (on_session (\<lambda>s. s\<lparr>cs_last_send := now\<rparr>))))"
        have rest: "?rest ?c = (r, c')"
          using run cmd False x Inr y by (simp add: handle_line_def cm_bind_def cm_then_def cm_get_def cm_update_def)
        have "keeps P ?rest"
          by (intro keeps_then keeps_when keeps_update p keeps_session) auto
        from keepsD [OF this rest] show ?thesis .
      qed
      with c show ?thesis by (rule both)
    qed
  qed
  then show ?thesis by simp
qed

lemma keeps_submission: "keeps P (handle_submission now canceled w sub)"
proof -
  have p: "P c (c\<lparr>cl_order := js, cl_pending := ps\<rparr>)" for c ps js by (rule both [OF order pending])
  have "keeps P (submit_envelope now w env)" for env
    unfolding submit_envelope_def
    by (intro keeps_then keeps_bind keeps_if keeps_update p replies keeps_session) auto
  then show ?thesis
    unfolding handle_submission_def
    by (cases "submission_envelope sub") (auto intro!: keeps_if keeps_bind split: option.split)
qed

end

sublocale kept_pending \<subseteq> kept_resending
  by unfold_locales (intro keeps_bind keeps_get keeps_resend)

subsection \<open>No event twice\<close>

text \<open>What the observers have seen, the cursor, and the welcome stay as they are.\<close>

definition nothing_new :: "client \<Rightarrow> client \<Rightarrow> bool" where
  "nothing_new c c' \<longleftrightarrow>
     cl_cursor c' = cl_cursor c \<and> seen (cl_notes c') = seen (cl_notes c) \<and> cs_welcomed (cl_session c') = cs_welcomed (cl_session c)"

interpretation nothing_new: kept_pending nothing_new
  by unfold_locales (auto simp: nothing_new_def minor_note_def split: client_note.splits)

text \<open>
  What a part of a session adds: events beyond the cursor, in order, after which the cursor is at
  the last of them, unless the session ended right after showing it.
\<close>

definition displays :: "session_end + unit \<Rightarrow> client \<Rightarrow> client \<Rightarrow> durable_event list \<Rightarrow> bool" where
  "displays r c c' ds \<longleftrightarrow>
     seen (cl_notes c') = seen (cl_notes c) @ ds \<and> sorted_wrt (<) (cu_seq (cl_cursor c) # map de_seq ds)
     \<and> cu_room (cl_cursor c') = cu_room (cl_cursor c) \<and> cs_welcomed (cl_session c') = cs_welcomed (cl_session c)
     \<and> (cu_seq (cl_cursor c') = last (cu_seq (cl_cursor c) # map de_seq ds)
        \<or> isl r \<and> ds \<noteq> [] \<and> cu_seq (cl_cursor c') = last (cu_seq (cl_cursor c) # map de_seq (butlast ds)))"

lemma displays_nothing: "nothing_new c c' \<Longrightarrow> displays r c c' []"
  by (simp add: nothing_new_def displays_def)

lemma le_last: "sorted_wrt (<) ns \<Longrightarrow> n \<in> set ns \<Longrightarrow> n \<le> last (ns :: nat list)"
  by (induction ns) (auto simp: less_imp_le)

lemma displays_append:
  assumes "displays (Inr ()) a b ds" "displays r b c es"
  shows "displays r a c (ds @ es)"
proof -
  let ?a = "cu_seq (cl_cursor a)" and ?b = "cu_seq (cl_cursor b)"
  have cur: "?b = last (?a # map de_seq ds)" and sorted: "sorted_wrt (<) (?a # map de_seq ds)" "sorted_wrt (<) (?b # map de_seq es)"
    using assms by (simp_all add: displays_def)
  have "sorted_wrt (<) ((?a # map de_seq ds) @ map de_seq es)"
    unfolding sorted_wrt_append using sorted le_last [OF sorted(1)] cur by (auto intro: le_less_trans)
  then have "sorted_wrt (<) (?a # map de_seq (ds @ es))" by simp
  moreover have "last (?a # map de_seq (ds @ es)) = last (?b # map de_seq es)" unfolding cur by (cases es) auto
  moreover have "last (?a # map de_seq (butlast (ds @ es))) = last (?b # map de_seq (butlast es))" if "es \<noteq> []"
    unfolding cur using that by (cases "butlast es") (auto simp: butlast_append)
  ultimately show ?thesis
    using assms cur unfolding displays_def by (cases es) (simp_all add: cur)
qed

text \<open>The welcome is over, so only durable events matter.\<close>

lemma save_cursor_keeps: "save_cursor c = (r, c') \<Longrightarrow> nothing_new c c'"
  by (auto simp: save_cursor_def Let_def nothing_new_def)

lemma consult_notes:
  assumes "consult (Some f) n c = (r, c')"
  shows "cl_cursor c' = cl_cursor c \<and> cs_welcomed (cl_session c') = cs_welcomed (cl_session c) \<and> cl_notes c' = cl_notes c @ [n]"
  using assms by (auto simp: consult_def notify_def cm_simps split: if_splits)

lemma observe_event_displays:
  assumes "observe_event ob d c = (r, c')" "ob_event ob = Some f"
  shows "cl_cursor c' = cl_cursor c \<and> cs_welcomed (cl_session c') = cs_welcomed (cl_session c) \<and> seen (cl_notes c') = seen (cl_notes c) @ [d]"
proof -
  let ?answer = "cm_when (ob_answer ob \<noteq> None) (case answerText d of None \<Rightarrow> cm_end (EndFatal CausePayload)
      | Some t \<Rightarrow> cm_when (t \<noteq> []) (consult (ob_answer ob) (NoteAnswer d t)))"
  define c1 where "c1 = c\<lparr>cl_notes := cl_notes c @ (if ob_active_turn ob then [NoteActiveTurn (cp_active (cl_projection c))] else [])\<rparr>"
  obtain r2 c2 where 2: "consult (Some f) (NoteEvent d) c1 = (r2, c2)" by (cases "consult (Some f) (NoteEvent d) c1")
  from consult_notes [OF 2] have e: "cl_cursor c2 = cl_cursor c" "cs_welcomed (cl_session c2) = cs_welcomed (cl_session c)"
    "seen (cl_notes c2) = seen (cl_notes c) @ [d]" by (simp_all add: c1_def)
  have "keeps nothing_new ?answer"
    by (auto intro!: nothing_new.keeps_when nothing_new.keeps_end nothing_new.keeps_consult split: option.split simp: minor_note_def)
  moreover have "(r, c') = (case r2 of Inl x \<Rightarrow> (Inl x, c2) | Inr u \<Rightarrow> ?answer c2)"
    using assms 2 by (auto simp: observe_event_def cm_then_def cm_bind_def cm_get_def notify_same c1_def split: sum.split)
  ultimately have "nothing_new c2 c' \<or> c' = c2" by (cases r2) (auto dest: keepsD [OF _ sym])
  with e show ?thesis by (auto simp: nothing_new_def)
qed

lemma apply_durable_displays:
  assumes "apply_durable ob (de_seq d) d c = (r, c')" "ob_event ob = Some f" "cu_seq (cl_cursor c) < de_seq d"
  shows "\<exists>ds. displays r c c' ds"
proof (cases "cp_durable d (cl_projection c)")
  case None
  with assms(1) have "c' = c" by (simp add: apply_durable_def cm_simps)
  then show ?thesis using displays_nothing nothing_new.same by blast
next
  case (Some tp)
  obtain shown p where tp: "tp = (shown, p)" by (cases tp)
  define c1 where "c1 = c\<lparr>cl_projection := p, cl_output := cl_output c @ shown\<rparr>"
  let ?ack = "cm_bind (new_request (EndFatal CauseRandom) ''ack'' (JObj [(''seq'', JNat (de_seq d))])) (\<lambda>ack.
             cm_bind (cm_get (\<lambda>c. cs_ready (cl_session c))) (\<lambda>ready. cm_when ready (send_envelope ack)))"
  let ?move = "cm_update (\<lambda>c. c\<lparr>cl_cursor := (cl_cursor c)\<lparr>cu_seq := de_seq d\<rparr>\<rparr>)"
  obtain r2 c2 where 2: "observe_event ob d c1 = (r2, c2)" by (cases "observe_event ob d c1")
  obtain r3 c3 where 3: "refresh_lists ob d c2 = (r3, c3)" by (cases "refresh_lists ob d c2")
  have e2: "cl_cursor c2 = cl_cursor c" "cs_welcomed (cl_session c2) = cs_welcomed (cl_session c)" "seen (cl_notes c2) = seen (cl_notes c) @ [d]"
    using observe_event_displays [OF 2 assms(2)] by (simp_all add: c1_def)
  have e3: "nothing_new c2 c3" using nothing_new.keeps_refresh 3 by (rule keepsD)
  have "keeps nothing_new (cm_then save_cursor ?ack)"
  proof -
    have "keeps nothing_new save_cursor" using save_cursor_keeps by (auto simp: keeps_def)
    moreover have "keeps nothing_new ?ack"
      by (intro nothing_new.keeps_bind nothing_new.keeps_when) auto
    ultimately show ?thesis by (rule nothing_new.keeps_then)
  qed
  note tail = keepsD [OF this]
  have run: "(r, c') = (case r2 of Inl x \<Rightarrow> (Inl x, c2) | Inr _ \<Rightarrow>
      (case r3 of Inl x \<Rightarrow> (Inl x, c3) | Inr _ \<Rightarrow> cm_then ?move (cm_then save_cursor ?ack) c3))"
    using assms(1) Some tp 2 3
    by (simp add: apply_durable_def cm_bind_def [of "cm_get _"] cm_get_def cm_then_def set_projection_def print_text_def cm_update_def c1_def split: sum.splits)
      (auto simp: cm_bind_def cm_update_def split: sum.splits prod.splits)
  consider "isl r" "cl_cursor c' = cl_cursor c" "nothing_new c2 c'" | "nothing_new (c3\<lparr>cl_cursor := (cl_cursor c3)\<lparr>cu_seq := de_seq d\<rparr>\<rparr>) c'"
  proof (cases r2)
    case (Inl x)
    with run e2(1) nothing_new.same that(1) show ?thesis by simp
  next
    case ok: (Inr u)
    show ?thesis
    proof (cases r3)
      case (Inl x)
      with run ok e2(1) e3 that(1) show ?thesis by (simp add: nothing_new_def)
    next
      case (Inr v)
      with run ok have "cm_then save_cursor ?ack (c3\<lparr>cl_cursor := (cl_cursor c3)\<lparr>cu_seq := de_seq d\<rparr>\<rparr>) = (r, c')"
        by (simp add: cm_then_def cm_bind_def cm_update_def)
      then show ?thesis by (rule that(2) [OF tail])
    qed
  qed
  then have "displays r c c' [d]"
    using e2 e3 assms(3) by cases (auto simp: displays_def nothing_new_def)
  then show ?thesis by blast
qed

lemma handle_durable_displays:
  assumes "handle_durable ob sq e c = (r, c')" "ob_event ob = Some f"
  shows "\<exists>ds. displays r c c' ds"
proof (cases "sq \<le> cu_seq (cl_cursor c) \<or> (case unmarshal_durable (en_body e) of None \<Rightarrow> True | Some d \<Rightarrow> de_seq d \<noteq> sq)")
  case True
  with assms(1) have "c' = c" by (auto simp: handle_durable_def cm_simps split: option.splits if_splits)
  then show ?thesis using displays_nothing nothing_new.same by blast
next
  case False
  then obtain d where d: "unmarshal_durable (en_body e) = Some d" "de_seq d = sq" "cu_seq (cl_cursor c) < de_seq d" by (auto split: option.splits)
  with assms(1) have "apply_durable ob (de_seq d) d c = (r, c')" by (simp add: handle_durable_def cm_simps)
  then show ?thesis using assms(2) d(3) by (rule apply_durable_displays)
qed

lemma handle_frame_displays:
  assumes "handle_frame ob now fr c = (r, c')" "ob_event ob = Some f" "cs_welcomed (cl_session c)"
  shows "\<exists>ds. displays r c c' ds"
proof (cases fr)
  case (Inl x)
  with assms(1) have "c' = c" by (simp add: handle_frame_def cm_simps)
  then show ?thesis using displays_nothing nothing_new.same by blast
next
  case (Inr e)
  define c0 where "c0 = c\<lparr>cl_session := (cl_session c)\<lparr>cs_last_frame := now\<rparr>\<rparr>"
  have c0: "nothing_new c c0" by (simp add: nothing_new_def c0_def)
  then have lift: "displays r c c' ds" if "displays r c0 c' ds" for ds
    using that by (simp add: displays_def nothing_new_def)
  let ?reply = "en_kind e = KindResponse \<or> en_kind e = KindError"
  have run: "(if ?reply then handle_reply ob e
      else if en_kind e \<noteq> KindEvent then cm_end (EndLost CauseFrameKind)
      else if en_method e = ''runtime-snapshot'' then handle_snapshot ob e
      else (case en_seq e of Some sq \<Rightarrow> handle_durable ob sq e | None \<Rightarrow> handle_transient e)) c0 = (r, c')"
    using assms(1,3) Inr by (simp add: handle_frame_def cm_simps c0_def)
  have "\<exists>ds. displays r c0 c' ds"
  proof (cases "\<not> ?reply \<and> en_kind e = KindEvent \<and> en_method e \<noteq> ''runtime-snapshot'' \<and> en_seq e \<noteq> None")
    case True
    then obtain sq where "handle_durable ob sq e c0 = (r, c')" using run by auto
    then show ?thesis using assms(2) by (rule handle_durable_displays)
  next
    case False
    with run have "nothing_new c0 c'"
      by (auto split: if_splits dest: keepsD [OF nothing_new.keeps_reply] keepsD [OF nothing_new.keeps_snapshot]
          keepsD [OF nothing_new.keeps_transient] keepsD [OF nothing_new.keeps_end])
    then show ?thesis using displays_nothing by blast
  qed
  with lift show ?thesis by blast
qed

lemma client_step_displays:
  assumes "client_step ob ev c = (r, c')" "ob_event ob = Some f" "cs_welcomed (cl_session c)"
  shows "\<exists>ds. displays r c c' ds"
proof (cases "\<exists>now fr. ev = ClFrame now fr")
  case True
  with assms handle_frame_displays show ?thesis by (auto simp: client_step_def)
next
  case False
  have lines: "nothing_new c (c\<lparr>cl_lines := ls\<rparr>)" for ls by (rule nothing_new.lines)
  have "nothing_new c c'"
    using False assms(1) nothing_new.same nothing_new.keeps_overflow nothing_new.both [OF lines]
    by (cases ev) (auto simp: client_step_def split: if_splits list.splits
        dest: keepsD [OF nothing_new.keeps_roster] keepsD [OF nothing_new.keeps_timer] keepsD [OF nothing_new.keeps_submission]
          keepsD [OF nothing_new.keeps_line])
  then show ?thesis using displays_nothing by blast
qed

text \<open>
  C28. Within a session no event is shown twice and none out of order, whatever the daemon sends:
  after the welcome, the events the observers are given have strictly increasing numbers beyond
  the cursor, and the cursor is always at the last of them. The one exception is a session that
  ends while the event is being processed: that last event may still be before the cursor, and is
  then shown again by the next session.
\<close>

theorem events_shown_once:
  assumes "client_run ob evs c = (r, c')" "cs_welcomed (cl_session c)" "ob_event ob = Some f"
  shows "\<exists>ds. seen (cl_notes c') = seen (cl_notes c) @ ds \<and> sorted_wrt (<) (cu_seq (cl_cursor c) # map de_seq ds)
    \<and> cu_room (cl_cursor c') = cu_room (cl_cursor c)
    \<and> (cu_seq (cl_cursor c') = last (cu_seq (cl_cursor c) # map de_seq ds)
       \<or> isl r \<and> ds \<noteq> [] \<and> cu_seq (cl_cursor c') = last (cu_seq (cl_cursor c) # map de_seq (butlast ds)))"
proof -
  have "\<exists>ds. displays r c c' ds"
    using assms(1,2)
  proof (induction evs arbitrary: c)
    case Nil
    then have "c' = c" by simp
    with displays_nothing [OF nothing_new.same] show ?case by metis
  next
    case (Cons ev evs)
    obtain r1 c1 where s: "client_step ob ev c = (r1, c1)" by (cases "client_step ob ev c")
    from client_step_displays [OF s assms(3) Cons.prems(2)] obtain ds where ds: "displays r1 c c1 ds" by blast
    show ?case
    proof (cases r1)
      case (Inl x)
      with Cons.prems(1) s ds show ?thesis by auto
    next
      case (Inr u)
      with Cons.prems(1) s have "client_run ob evs c1 = (r, c')" by simp
      moreover have "cs_welcomed (cl_session c1)" using ds Cons.prems(2) by (simp add: displays_def)
      ultimately have "\<exists>es. displays r c1 c' es" by (rule Cons.IH)
      then obtain es where es: "displays r c1 c' es" by (rule exE)
      have "displays (Inr ()) c c1 ds" using ds Inr by simp
      from displays_append [OF this es] show ?thesis by (rule exI)
    qed
  qed
  then obtain ds where "displays r c c' ds" ..
  then show ?thesis unfolding displays_def by blast
qed

definition demo_live_client :: client where
  "demo_live_client = demo_client\<lparr>cl_session := idle_session\<lparr>cs_welcomed := True\<rparr>\<rparr>"

theorem events_shown_once_witness:
  "\<exists>ds. seen (cl_notes (snd (client_run demo_observers [event_frame 0 (sendBroadcast (PubDurable (demo_event 2))), ClCanceled] demo_live_client))) = ds
     \<and> sorted_wrt (<) (1 # map de_seq ds)"
proof -
  let ?run = "client_run demo_observers [event_frame 0 (sendBroadcast (PubDurable (demo_event 2))), ClCanceled] demo_live_client"
  obtain r c' where run: "?run = (r, c')" by (cases ?run)
  have "cs_welcomed (cl_session demo_live_client)" "ob_event demo_observers = Some (\<lambda>_. True)" "cl_notes demo_live_client = []"
      "cu_seq (cl_cursor demo_live_client) = 1"
    by (simp_all add: demo_live_client_def demo_client_def start_client_def demo_observers_def)
  with events_shown_once [OF run this(1,2)] show ?thesis using run by auto
qed

end
