(* ===== verification/Client_Pending.thy ===== *)
theory Client_Pending
  imports Client_Life
begin

text \<open>
  What the client owes (\<^verbatim>\<open>internal/client/client.go\<close>): a request that changes the room is kept until it
  is answered, over every error, every lost connection and every new session, and is among what
  the next session sends again.
\<close>

subsection \<open>Sessions one after the other\<close>

text \<open>
  The life of a client in \<^verbatim>\<open>Run\<close>: between sessions, in one, or after one that ended. The scanner
  and the writer act at any time.
\<close>

datatype phase = Between | Live | Over session_end

datatype life_event =
    LifeOpen instant | LifeNoLaunch | LifeEvent client_event | LifeWriter bool | LifeLine bytes | LifeAfter bool bool

definition phase_of :: "session_end + unit \<Rightarrow> phase" where
  "phase_of r = (case r of Inl e \<Rightarrow> Over e | Inr _ \<Rightarrow> Live)"

inductive life_step :: "observers \<Rightarrow> phase \<times> client \<Rightarrow> life_event \<Rightarrow> phase \<times> client \<Rightarrow> bool" for ob where
  open_ok: "open_session now c = (r, c') \<Longrightarrow> life_step ob (Between, c) (LifeOpen now) (phase_of r, c')"
| no_launch: "life_step ob (Between, c) LifeNoLaunch (Over (EndLost CauseLaunch), c)"
| event: "client_step ob ev c = (r, c') \<Longrightarrow> life_step ob (Live, c) (LifeEvent ev) (phase_of r, c')"
| writer: "writer_step ok (cl_session c) = (x, s) \<Longrightarrow> life_step ob (Live, c) (LifeWriter ok) (Live, c\<lparr>cl_session := s\<rparr>)"
| line: "scan_line l c = Some c' \<Longrightarrow> life_step ob (ph, c) (LifeLine l) (ph, c')"
| after: "after_session ob canceled failed e c = (Inr delay, c') \<Longrightarrow> life_step ob (Over e, c) (LifeAfter canceled failed) (Between, c')"

inductive life :: "observers \<Rightarrow> phase \<times> client \<Rightarrow> life_event list \<Rightarrow> phase \<times> client \<Rightarrow> bool" for ob where
  start: "life ob s [] s"
| more: "life ob s evs s1 \<Longrightarrow> life_step ob s1 ev s2 \<Longrightarrow> life ob s (evs @ [ev]) s2"

subsection \<open>Held requests\<close>

text \<open>The identifier \<open>i\<close> is none that the remaining random bytes can become.\<close>

definition never_drawn :: "string \<Rightarrow> bytes \<Rightarrow> bool" where
  "never_drawn i rnd \<longleftrightarrow> list_all (\<lambda>s. i \<noteq> hex_encode (take 16 s)) (suffixes rnd)"

lemma never_drawn_iff: "never_drawn i rnd \<longleftrightarrow> (\<forall>s. suffix s rnd \<longrightarrow> i \<noteq> hex_encode (take 16 s))"
  by (auto simp: never_drawn_def list_all_iff)

lemma never_drawn_suffix: "suffix s rnd \<Longrightarrow> never_drawn i rnd \<Longrightarrow> never_drawn i s"
  using suffix_order.trans unfolding never_drawn_iff by blast

definition held :: "string \<Rightarrow> bytes \<Rightarrow> client \<Rightarrow> bool" where
  "held i b c \<longleftrightarrow>
     never_drawn i (cl_random c) \<and> i \<in> set (cl_order c)
     \<and> (case map_of (cl_pending c) i of Some env \<Rightarrow> en_body env = b | None \<Rightarrow> False)"

definition keeps_held :: "string \<Rightarrow> bytes \<Rightarrow> client \<Rightarrow> client \<Rightarrow> bool" where
  "keeps_held i b c c' \<longleftrightarrow> (held i b c \<longrightarrow> held i b c')"

lemma keeps_held_same:
  "cl_pending c' = cl_pending c \<Longrightarrow> cl_order c' = cl_order c \<Longrightarrow> cl_random c' = cl_random c \<Longrightarrow> keeps_held i b c c'"
  by (simp add: keeps_held_def held_def)

interpretation held: kept "keeps_held i b"
  by unfold_locales (auto simp: keeps_held_def held_def intro: never_drawn_suffix)

text \<open>
  The repetition writes over the front of the old order, which it filters: what is still ahead,
  and what was kept, stays in it.
\<close>

lemma resend_held:
  assumes "resend ks is c = (r, c')" "held i b c" "i \<in> set ks \<or> i \<in> set is" "prefix ks (cl_order c)" "suffix is (cl_order c)"
    and "length ks + length is \<le> length (cl_order c)"
  shows "held i b c'"
  using assms
proof (induction "is" arbitrary: ks c)
  case Nil
  then show ?case by (auto simp: cm_simps held_def)
next
  case (Cons j js)
  show ?case
  proof (cases "map_of (cl_pending c) j")
    case None
    then have "j \<noteq> i" using Cons.prems(2) by (auto simp: held_def)
    with None Cons.prems Cons.IH [of ks c] show ?thesis by (auto simp: cm_simps dest: suffix_ConsD)
  next
    case (Some env)
    let ?order = "(ks @ [j]) @ drop (length ks + 1) (cl_order c)"
    define c1 where "c1 = c\<lparr>cl_order := ?order\<rparr>"
    define c2 where "c2 = (if en_method env = ''members'' then snd (set_lookup (en_id env) ''members'' c1) else c1)"
    obtain r3 c3 where s: "send_envelope env c2 = (r3, c3)" by (cases "send_envelope env c2")
    have "suffix js (drop (length ks + 1) (cl_order c))"
    proof -
      obtain zs where zs: "cl_order c = zs @ j # js" using Cons.prems(5) by (auto simp: suffix_def)
      with Cons.prems(6) have "length ks \<le> length zs" by simp
      then consider "length ks = length zs" | "Suc (length ks) \<le> length zs" by linarith
      then show ?thesis
      proof cases
        case 1
        with zs show ?thesis by simp
      next
        case 2
        with zs have "drop (length ks + 1) (cl_order c) = (drop (Suc (length ks)) zs @ [j]) @ js" by simp
        then show ?thesis unfolding suffix_def by blast
      qed
    qed
    then have js: "suffix js ?order" by (metis suffix_appendI)
    have i: "i \<in> set (ks @ [j]) \<or> i \<in> set js" using Cons.prems(3) by auto
    moreover have "set js \<subseteq> set ?order" using js by (rule set_mono_suffix)
    ultimately have "i \<in> set ?order" by auto
    with Cons.prems(2) have "held i b c1" by (simp add: held_def c1_def)
    then have h2: "held i b c2" by (simp add: c2_def held_def set_lookup_def cm_simps)
    then have h3: "held i b c3" using keepsD [OF held.keeps_send s] by (simp add: keeps_held_def)
    have o3: "cl_order c3 = ?order"
      using s by (auto simp: send_envelope_def cm_simps c2_def c1_def set_lookup_def split: if_splits)
    have "length ?order = length (cl_order c)" using Cons.prems(6) by simp
    then have len: "length (ks @ [j]) + length js \<le> length (cl_order c3)" using Cons.prems(6) o3 by simp
    have run: "(r, c') = (case r3 of Inl x \<Rightarrow> (Inl x, c3) | Inr _ \<Rightarrow> resend (ks @ [j]) js c3)"
      using Cons.prems(1) Some s
      by (auto simp: cm_bind_def cm_then_def cm_get_def cm_update_def cm_when_def cm_return_def c1_def c2_def set_lookup_def on_session_def
          split: sum.splits if_splits)
    show ?thesis
    proof (cases r3)
      case (Inl x)
      with run h3 show ?thesis by simp
    next
      case (Inr u)
      with run have "resend (ks @ [j]) js c3 = (r, c')" by simp
      from Cons.IH [OF this h3 i _ _ len] js o3 show ?thesis by simp
    qed
  qed
qed

interpretation held: kept_resending "keeps_held i b"
proof unfold_locales
  show "keeps (keeps_held i b) (cm_bind (cm_get cl_order) (\<lambda>order. resend [] order))"
  proof -
    have "held i b c'" if "resend [] (cl_order c) c = (r, c')" "held i b c" for c r c'
      using that by (rule resend_held) (use that(2) in \<open>auto simp: held_def\<close>)
    then show ?thesis by (auto simp: keeps_def keeps_held_def cm_bind_def cm_get_def)
  qed
qed

subsection \<open>What a session does to them\<close>

lemma held_update: "(\<And>c. cl_pending (f c) = cl_pending c \<and> cl_order (f c) = cl_order c \<and> cl_random (f c) = cl_random c) \<Longrightarrow> keeps (keeps_held i b) (cm_update f)"
  by (rule held.keeps_update) (rule keeps_held_same, auto)

lemma held_session: "keeps (keeps_held i b) (on_session f)"
  unfolding on_session_def by (rule held_update) simp

lemma held_save: "keeps (keeps_held i b) save_cursor"
  by (auto simp: keeps_def save_cursor_def Let_def intro: keeps_held_same)

lemma held_notify: "keeps (keeps_held i b) (notify present n)"
  unfolding notify_def by (intro held.keeps_when held_update) simp

lemma held_consult: "keeps (keeps_held i b) (consult f n)"
  unfolding consult_def
  by (cases f) (auto intro!: held.keeps_then held.keeps_bind held_notify held.keeps_if)

lemmas held_rules = held.keeps_then held.keeps_bind held.keeps_when held.keeps_if held.keeps_return held.keeps_end held.keeps_get
  held_session held.keeps_print held.keeps_send held.keeps_request held.keeps_projection
  held_update held_save held_notify held_consult

lemma held_welcome: "keeps (keeps_held i b) (handle_welcome ob e)"
proof -
  have "keeps (keeps_held i b) (change_room w)" "keeps (keeps_held i b) (enter_room ob w)" for w
    unfolding change_room_def enter_room_def by (intro held_rules; simp)+
  then show ?thesis
    unfolding handle_welcome_def by (cases "decode_welcome (en_body e)") (auto intro!: held_rules split: prod.split)
qed

lemma held_durable: "keeps (keeps_held i b) (handle_durable ob sq e)"
proof -
  have o1: "keeps (keeps_held i b) (observe_event ob d)" for d
    unfolding observe_event_def by (auto intro!: held_rules split: option.split)
  have "keeps (keeps_held i b) (apply_durable ob sq d)" for d
    unfolding apply_durable_def
    by (auto intro!: held_rules o1 held.keeps_refresh split: option.split)
  then show ?thesis
    unfolding handle_durable_def by (auto intro!: held_rules split: option.split)
qed

lemma held_reply:
  assumes "en_id e \<noteq> i"
  shows "keeps (keeps_held i b) (handle_reply ob e)"
proof -
  have u: "keeps (keeps_held i b) (cm_update (\<lambda>c. c\<lparr>cl_pending := drop_key (en_id e) (cl_pending c), cl_order := remove1 (en_id e) (cl_order c)\<rparr>))"
  proof (rule held.keeps_update)
    fix c :: client
    have "map_of (drop_key (en_id e) (cl_pending c)) i = map_of (cl_pending c) i" using assms by (simp add: drop_key_def map_of_filter_keys [of "\<lambda>k. k \<noteq> en_id e"])
    with assms show "keeps_held i b c (c\<lparr>cl_pending := drop_key (en_id e) (cl_pending c), cl_order := remove1 (en_id e) (cl_order c)\<rparr>)"
      by (auto simp: keeps_held_def held_def)
  qed
  show ?thesis
    unfolding handle_reply_def Let_def
    by (intro held_rules u held.keeps_replies held.keeps_observe_body held.keeps_ask) (auto simp: minor_note_def)
qed

lemma held_put:
  assumes "never_drawn i (cl_random c) \<Longrightarrow> en_id env \<noteq> i" "suffix (cl_random c') (cl_random c)"
    and "cl_pending c' = put (en_id env) env (cl_pending c)" "set (cl_order c) \<subseteq> set (cl_order c')"
  shows "keeps_held i b c c'"
  using assms never_drawn_suffix [OF assms(2)] by (auto simp: keeps_held_def held_def map_of_put)

lemma held_line: "keeps (keeps_held i b) (handle_line ob now line)"
  unfolding keeps_def
proof (intro allI impI)
  fix c r c'
  assume run: "handle_line ob now line c = (r, c')"
  have diag: "keeps_held i b c c'" if "diagnose d c = (r, c')" for d using held.keeps_diagnose that by (rule keepsD)
  show "keeps_held i b c c'"
  proof (cases "ob_read_only ob \<or> isl (ParseCommand line)")
    case True
    with run diag show ?thesis by (auto simp: handle_line_def split: sum.splits if_splits)
  next
    case False
    then obtain cmd where cmd: "ParseCommand line = Inr cmd" by (cases "ParseCommand line") auto
    obtain x rnd where x: "command_envelope cmd (cp_active (cl_projection c)) (cl_random c) = (x, rnd)"
      by (cases "command_envelope cmd (cp_active (cl_projection c)) (cl_random c)")
    let ?c = "c\<lparr>cl_random := rnd\<rparr>"
    note rnd = command_envelope_random [OF x]
    show ?thesis
    proof (cases x)
      case (Inl e)
      with run cmd False x have "diagnose (DiagCommand e) ?c = (r, c')" by (simp add: handle_line_def cm_bind_def cm_then_def cm_get_def cm_update_def)
      with held.keeps_diagnose have "keeps_held i b ?c c'" by (rule keepsD)
      with held.random [OF rnd(1)] show ?thesis by (rule held.both)
    next
      case (Inr y)
      obtain env mutation where y: "y = (env, mutation)" by (cases y)
      let ?rest = "cm_then (cm_when (en_method env = ''members'') (set_lookup (en_id env) ''members''))
                (cm_then (send_envelope env) (on_session (\<lambda>s. s\<lparr>cs_last_send := now\<rparr>)))"
      define c1 where "c1 = (if mutation then ?c\<lparr>cl_pending := put (en_id env) env (cl_pending c), cl_order := cl_order c @ [en_id env]\<rparr> else ?c)"
      have "?rest c1 = (r, c')"
        using run cmd False x Inr y
        by (simp add: handle_line_def cm_bind_def cm_then_def cm_get_def cm_update_def cm_when_def cm_return_def c1_def split: if_splits)
      moreover have "keeps (keeps_held i b) ?rest" by (intro held_rules held.keeps_lookup)
      ultimately have "keeps_held i b c1 c'" by (rule keepsD [rotated])
      moreover have "keeps_held i b c c1"
      proof (cases mutation)
        case True
        have "en_id env \<noteq> i" if "never_drawn i (cl_random c)"
          using rnd(2) [of env mutation] Inr y that by (auto simp: never_drawn_iff)
        with True rnd(1) show ?thesis by (intro held_put [of i c env]) (auto simp: c1_def)
      next
        case False
        with held.random [OF rnd(1)] show ?thesis by (simp add: c1_def)
      qed
      ultimately show ?thesis using held.both by blast
    qed
  qed
qed

lemma held_submission: "keeps (keeps_held i b) (handle_submission now canceled w sub)"
proof (cases "canceled \<or> isl (submission_envelope sub)")
  case True
  then show ?thesis unfolding handle_submission_def by (auto intro: held.keeps_resolve split: sum.split)
next
  case False
  then obtain env where env: "\<not> canceled" "submission_envelope sub = Inr env" by (cases "submission_envelope sub") auto
  let ?rest = "cm_bind (cm_get (waiters (en_id env))) (\<lambda>ws.
       if 32 \<le> length ws then resolve_submission w SubmitTooManyRetries
       else
         cm_then (cm_update (\<lambda>c. c\<lparr>cl_replies := put (en_id env) (ws @ [w]) (cl_replies c)\<rparr>))
        (cm_then (send_envelope env) (on_session (\<lambda>s. s\<lparr>cs_last_send := now\<rparr>))))"
  have rest: "keeps (keeps_held i b) ?rest" by (intro held_rules held.keeps_resolve) simp
  have submit: "keeps_held i b c c'"
    if run: "submit_envelope now w env c = (r, c')" and "en_id env = i \<Longrightarrow> \<exists>old. map_of (cl_pending c) i = Some old \<and> en_body old = en_body env" for c r c'
  proof -
    define c1 where "c1 = c\<lparr>cl_order := (if map_of (cl_pending c) (en_id env) = None then cl_order c @ [en_id env] else cl_order c),
                               cl_pending := put (en_id env) env (cl_pending c)\<rparr>"
    have "?rest c1 = (r, c')" using run by (simp add: submit_envelope_def cm_then_def cm_bind_def cm_update_def c1_def)
    with rest have "keeps_held i b c1 c'" by (rule keepsD)
    moreover have "keeps_held i b c c1" using that(2) by (auto simp: keeps_held_def held_def c1_def map_of_put)
    ultimately show ?thesis using held.both by blast
  qed
  show ?thesis
    unfolding keeps_def
  proof (intro allI impI)
    fix c r c'
    assume run: "handle_submission now canceled w sub c = (r, c')"
    have resolved: "keeps_held i b c c'" if "resolve_submission w x c = (r, c')" for x using held.keeps_resolve that by (rule keepsD)
    show "keeps_held i b c c'"
    proof (cases "map_of (cl_pending c) (en_id env)")
      case None
      show ?thesis
      proof (cases "en_id env = i")
        case True
        with None show ?thesis by (simp add: keeps_held_def held_def)
      next
        case False
        with None run env submit resolved show ?thesis by (auto simp: handle_submission_def cm_bind_def cm_get_def split: if_splits)
      qed
    next
      case (Some old)
      with run env resolved submit [of c r c'] show ?thesis
        by (auto simp: handle_submission_def cm_bind_def cm_get_def split: if_splits)
    qed
  qed
qed

subsection \<open>What a whole life does to them\<close>

text \<open>An answer: the frame of a response or an error with the identifier of the request.\<close>

definition answers :: "string \<Rightarrow> life_event \<Rightarrow> bool" where
  "answers i ev =
     (case ev of
        LifeEvent (ClFrame now (Inr e)) \<Rightarrow> (en_kind e = KindResponse \<or> en_kind e = KindError) \<and> en_id e = i
      | _ \<Rightarrow> False)"

lemma held_frame:
  assumes "handle_frame ob now fr c = (r, c')" "\<not> answers i (LifeEvent (ClFrame now fr))"
  shows "keeps_held i b c c'"
proof (cases fr)
  case (Inl x)
  with assms(1) show ?thesis by (simp add: handle_frame_def cm_simps held.same)
next
  case (Inr e)
  have reply: "keeps (keeps_held i b) (handle_reply ob e)" if "en_kind e = KindResponse \<or> en_kind e = KindError"
    using that assms(2) Inr by (intro held_reply) (simp add: answers_def)
  have "keeps (keeps_held i b) (handle_frame ob now (Inr e))"
    unfolding handle_frame_def
    by (cases "en_seq e") (auto intro!: held_rules held_welcome held_durable held.keeps_snapshot held.keeps_transient reply)
  then show ?thesis using assms(1) Inr by (auto dest: keepsD)
qed

lemma held_step:
  assumes "client_step ob ev c = (r, c')" "\<not> answers i (LifeEvent ev)"
  shows "keeps_held i b c c'"
proof (cases "\<exists>now fr. ev = ClFrame now fr")
  case True
  with assms held_frame show ?thesis by (auto simp: client_step_def)
next
  case False
  have lines: "keeps_held i b c (c\<lparr>cl_lines := ls\<rparr>)" for ls by (rule held.lines)
  have "keeps_held i b c c'" if "handle_line ob now l (c\<lparr>cl_lines := ls\<rparr>) = (r, c')" for now l ls
    using keepsD [OF held_line that] by (rule held.both [OF lines])
  then show ?thesis
    using False assms(1) held.same held.keeps_overflow
    by (cases ev) (auto simp: client_step_def split: if_splits list.splits
        dest: keepsD [OF held.keeps_roster] keepsD [OF held.keeps_timer] keepsD [OF held_submission])
qed

lemma held_open: "keeps (keeps_held i b) (open_session now)"
  unfolding open_session_def by (intro held_rules)

lemma held_after:
  assumes "after_session ob canceled failed e c = (x, c')"
  shows "keeps_held i b c c'"
proof -
  have "suffix (cl_random c') (cl_random c) \<and> cl_pending c' = cl_pending c \<and> cl_order c' = cl_order c"
    using assms
    by (auto simp: after_session_def jitter_def suffix_drop Let_def split: if_splits session_end.splits prod.splits option.splits)
  then show ?thesis using never_drawn_suffix by (auto simp: keeps_held_def held_def)
qed

lemma held_life_step:
  assumes "life_step ob (ph, c) ev (ph', c')" "\<not> answers i ev"
  shows "keeps_held i b c c'"
  using assms(1)
proof (cases rule: life_step.cases)
  case (open_ok now r)
  then show ?thesis using keepsD [OF held_open] by auto
next
  case no_launch
  then show ?thesis by (simp add: held.same)
next
  case (event e r)
  then show ?thesis using held_step assms(2) by auto
next
  case (writer ok x s)
  then show ?thesis by (simp add: keeps_held_same)
next
  case (line l)
  then show ?thesis by (auto simp: scan_line_def intro: keeps_held_same split: if_splits)
next
  case (after canceled failed e delay)
  then show ?thesis using held_after by auto
qed

text \<open>
  C27. Nothing a member sent is forgotten: a request that waits for its answer, and whose identifier
  is not drawn again, is kept with the same body until that answer comes, over any number of lost
  connections, sessions and failures, and it stays among the requests that a session sends again,
  under the same identifier, as soon as it is ready. Together with the store, which takes an
  identifier once, it is executed once.
\<close>

theorem unanswered_survives:
  assumes "life ob (ph, c) evs (ph', c')" "held i b c" "list_all (\<lambda>ev. \<not> answers i ev) evs"
  shows "\<exists>env. map_of (cl_pending c') i = Some env \<and> en_body env = b \<and> env \<in> set (unanswered c' (cl_order c'))"
proof -
  have "held i b c'"
    using assms
  proof (induction "(ph, c)" evs "(ph', c')" arbitrary: ph' c' rule: life.induct)
    case (more evs s1 ev)
    obtain ph1 c1 where "s1 = (ph1, c1)" by (cases s1)
    with more held_life_step [of ob ph1 c1 ev ph' c' i b] show ?case by (auto simp: keeps_held_def)
  qed simp
  then obtain env where "map_of (cl_pending c') i = Some env" "en_body env = b" "i \<in> set (cl_order c')"
    by (auto simp: held_def split: option.splits)
  then show ?thesis by (intro exI [of _ env]) (auto simp: unanswered_def intro!: bexI [of _ i])
qed

definition demo_request :: envelope where
  "demo_request = request_envelope (demo_id CHR ''q'') ''submit'' (JObj [])"

definition demo_owing :: client where
  "demo_owing = demo_client\<lparr>cl_random := [], cl_pending := [(demo_id CHR ''q'', demo_request)], cl_order := [demo_id CHR ''q'']\<rparr>"

theorem unanswered_survives_witness:
  "life demo_observers (Over (EndLost CauseLiveness), demo_owing\<lparr>cl_random := replicate 8 CHR ''x''\<rparr>) [LifeAfter False False, LifeNoLaunch]
     (Over (EndLost CauseLaunch), snd (after_session demo_observers False False (EndLost CauseLiveness) (demo_owing\<lparr>cl_random := replicate 8 CHR ''x''\<rparr>)))
   \<and> (\<exists>env. map_of (cl_pending (snd (after_session demo_observers False False (EndLost CauseLiveness) (demo_owing\<lparr>cl_random := replicate 8 CHR ''x''\<rparr>))))
         (demo_id CHR ''q'') = Some env \<and> en_body env = en_body demo_request)"
proof -
  let ?c = "demo_owing\<lparr>cl_random := replicate 8 CHR ''x''\<rparr>"
  obtain delay c' where after: "after_session demo_observers False False (EndLost CauseLiveness) ?c = (Inr delay, c')"
    by (simp add: after_session_def jitter_def demo_observers_def)
  have "life_step demo_observers (Over (EndLost CauseLiveness), ?c) (LifeAfter False False) (Between, c')"
    using after by (rule life_step.after)
  then have l1: "life demo_observers (Over (EndLost CauseLiveness), ?c) ([] @ [LifeAfter False False]) (Between, c')"
    by (rule life.more [OF life.start])
  have l2: "life demo_observers (Over (EndLost CauseLiveness), ?c) (([] @ [LifeAfter False False]) @ [LifeNoLaunch]) (Over (EndLost CauseLaunch), c')"
    by (rule life.more [OF l1 life_step.no_launch])
  have "never_drawn (demo_id CHR ''q'') (replicate 8 CHR ''x'')" by code_simp
  then have "held (demo_id CHR ''q'') (en_body demo_request) ?c" by (simp add: held_def demo_owing_def)
  from unanswered_survives [OF l2 this] l2 after show ?thesis by (auto simp: answers_def)
qed

end
