(* ===== verification/Json_Structs.thy ===== *)
theory Json_Structs
  imports Client_Text
begin

text \<open>
  \<^verbatim>\<open>json.Decoder.Decode\<close> into a structure that already has values, with
  \<^verbatim>\<open>DisallowUnknownFields\<close>: what the parts that read files, plans and model output rely on.
  A slice is the elements it shows and the elements its array still holds behind them, because
  the decoder writes a new array over the old elements without clearing them. A setter takes
  the value read and the current one; \<open>None\<close> is any error of the decoder.
\<close>

type_synonym 'a setter = "json \<Rightarrow> 'a \<Rightarrow> 'a option"
type_synonym 'a slice = "'a list \<times> 'a list"

fun decode_over :: "'a setter \<Rightarrow> 'a \<Rightarrow> 'a list \<Rightarrow> json list \<Rightarrow> 'a list option" where
  "decode_over f z old [] = Some []"
| "decode_over f z old (v # vs) =
     (case f v (case old of [] \<Rightarrow> z | x # _ \<Rightarrow> x) of
        None \<Rightarrow> None
      | Some x \<Rightarrow> map_option (\<lambda>xs. x # xs) (decode_over f z (tl old) vs))"

definition into_slice :: "'a setter \<Rightarrow> 'a \<Rightarrow> 'a slice setter" where
  "into_slice f z v sl =
     (case v of
        JNull \<Rightarrow> Some ([], [])
      | JArr vs \<Rightarrow>
          if vs = [] then Some ([], [])
          else map_option (\<lambda>xs. (xs, drop (length xs) (fst sl @ snd sl)))
                 (decode_over f z (fst sl @ snd sl) vs)
      | _ \<Rightarrow> None)"

definition into_string :: "string setter" where
  "into_string v old = (case v of JStr s \<Rightarrow> Some s | JNull \<Rightarrow> Some old | _ \<Rightarrow> None)"

definition into_int :: "int setter" where
  "into_int v old = (case decode_int64 old v of Inl _ \<Rightarrow> None | Inr i \<Rightarrow> Some i)"

text \<open>
  One field of a structure. Names match exactly or up to case folding, and no two known of a
  structure here fold to the same name; an unknown name is an error.
\<close>

definition in_field :: "('a \<Rightarrow> 'b) \<Rightarrow> ('b \<Rightarrow> 'a \<Rightarrow> 'a) \<Rightarrow> 'b setter \<Rightarrow> 'a setter" where
  "in_field rd wr f v x = map_option (\<lambda>y. wr y x) (f v (rd x))"

fun set_members :: "(string \<times> 'a setter) list \<Rightarrow> (string \<times> json) list \<Rightarrow> 'a \<Rightarrow> 'a option" where
  "set_members known [] x = Some x"
| "set_members known ((k, v) # fs) x =
     (case find (\<lambda>(n, _). fold_name n = fold_name k) known of
        None \<Rightarrow> None
      | Some (_, f) \<Rightarrow> (case f v x of None \<Rightarrow> None | Some y \<Rightarrow> set_members known fs y))"

definition into_struct :: "(string \<times> 'a setter) list \<Rightarrow> 'a setter" where
  "into_struct known v x =
     (case v of JNull \<Rightarrow> Some x | JObj fs \<Rightarrow> set_members known fs x | _ \<Rightarrow> None)"

text \<open>The first value of a text, and whether only white space follows (the next \<^verbatim>\<open>Decode\<close> is \<^verbatim>\<open>io.EOF\<close>).\<close>

definition decode_first :: "'a setter \<Rightarrow> 'a \<Rightarrow> bytes \<Rightarrow> ('a \<times> bytes) option" where
  "decode_first f x text =
     (case parse_value (parse_fuel text) max_nesting text of
        None \<Rightarrow> None
      | Some (v, r) \<Rightarrow> map_option (\<lambda>y. (y, r)) (f v x))"

definition only_space :: "bytes \<Rightarrow> bool" where
  "only_space r \<longleftrightarrow> skip_ws r = []"

end
