(* ===== verification/Workgroup_Config.thy ===== *)
theory Workgroup_Config
  imports Json_Structs
begin

text \<open>
  The directory of worker agents (\<^verbatim>\<open>internal/workgroup/config.go\<close>): the members, what \<^verbatim>\<open>Load\<close> reads
  from \<^verbatim>\<open>agents.json\<close> over the built-in default, \<^verbatim>\<open>Validate\<close>, and \<^verbatim>\<open>Route\<close>, which reads the
  leading \<^verbatim>\<open>@agent:\<close> tokens of a human message. Error texts are the values of \<open>config_error\<close>.
\<close>

record work_member =
  wm_mode :: string
  wm_id :: string
  wm_name :: string
  wm_provider :: string
  wm_description :: string
  wm_instructions :: string
  wm_command :: "string list"
  wm_timeout :: int

record agent_config =
  ac_version :: int
  ac_members :: "work_member list"

datatype config_error =
    ErrConfigFile | ErrConfigPrivate | ErrConfigJson | ErrConfigTrailing
  | ErrConfigCount | ErrConfigMember string | ErrCodexCommand | ErrNativeMode | ErrNativeCommand
  | ErrExecCommand | ErrProvider string | ErrNoCodex
  | ErrUnknownAgent string | ErrDuplicateAgent string | ErrNoWork | ErrTooManyAgents

definition no_member :: work_member where
  "no_member = \<lparr>wm_mode = [], wm_id = [], wm_name = [], wm_provider = [], wm_description = [],
     wm_instructions = [], wm_command = [], wm_timeout = 0\<rparr>"

definition Default_config :: agent_config where
  "Default_config = \<lparr>ac_version = 1,
     ac_members = [no_member\<lparr>wm_id := ''codex'', wm_name := ''Codex Agent'', wm_provider := ''codex'',
       wm_timeout := 1800\<rparr>]\<rparr>"

text \<open>The regular expression \<^verbatim>\<open>^[a-z][a-z0-9_.-]{0,31}$\<close>.\<close>

definition id_char :: "char \<Rightarrow> bool" where
  "id_char c \<longleftrightarrow> in_range 97 122 c \<or> in_range 48 57 c \<or> c \<in> {CHR ''_'', CHR ''.'', CHR ''-''}"

definition validID :: "string \<Rightarrow> bool" where
  "validID s \<longleftrightarrow> s \<noteq> [] \<and> in_range 97 122 (hd s) \<and> list_all id_char (tl s) \<and> length s \<le> 32"

subsection \<open>Validation\<close>

definition check_provider :: "work_member \<Rightarrow> config_error option" where
  "check_provider m =
     (if wm_provider m = ''codex'' then
        (if length (wm_command m) \<noteq> 0 then Some ErrCodexCommand else None)
      else if wm_provider m \<in> {''cursor'', ''claude-code''} then
        (if wm_mode m \<noteq> [] \<and> wm_mode m \<noteq> ''review'' \<and> wm_mode m \<noteq> ''work'' then Some ErrNativeMode
         else if length (wm_command m) > 1 \<or> (length (wm_command m) = 1 \<and> \<not> prefix ''/'' (wm_command m ! 0))
           then Some ErrNativeCommand
         else None)
      else if wm_provider m = ''exec'' then
        (if length (wm_command m) = 0 \<or> length (wm_command m) > 32 \<or> \<not> prefix ''/'' (wm_command m ! 0)
         then Some ErrExecCommand else None)
      else if \<not> validID (wm_provider m) then Some (ErrProvider (wm_provider m))
      else None)"

definition member_fields_ok :: "work_member \<Rightarrow> bool" where
  "member_fields_ok m \<longleftrightarrow>
     validID (wm_id m) \<and> trim_space (wm_name m) \<noteq> [] \<and> length (wm_name m) \<le> 120 \<and>
     length (wm_description m) \<le> 500 \<and> length (wm_instructions m) \<le> 8000 \<and>
     0 \<le> wm_timeout m \<and> wm_timeout m \<le> 7200"

fun check_members :: "work_member list \<Rightarrow> string list \<Rightarrow> bool \<Rightarrow> config_error + bool" where
  "check_members [] seen builtin = Inr builtin"
| "check_members (m # ms) seen builtin =
     (if \<not> member_fields_ok m \<or> wm_id m \<in> set seen then Inl (ErrConfigMember (wm_id m))
      else (case check_provider m of
         Some e \<Rightarrow> Inl e
       | None \<Rightarrow> check_members ms (wm_id m # seen)
                   (if wm_id m = ''codex'' then wm_provider m = ''codex'' else builtin)))"

definition Validate_config :: "agent_config \<Rightarrow> config_error option" where
  "Validate_config c =
     (if ac_version c \<noteq> 1 \<or> length (ac_members c) < 1 \<or> length (ac_members c) > 16 then Some ErrConfigCount
      else (case check_members (ac_members c) [] False of
         Inl e \<Rightarrow> Some e
       | Inr builtin \<Rightarrow> if \<not> builtin then Some ErrNoCodex else None))"

subsection \<open>Loading\<close>

text \<open>A member being decoded carries what the array of its command still holds.\<close>

type_synonym member_cell = "work_member \<times> string list"

definition member_fields :: "(string \<times> member_cell setter) list" where
  "member_fields =
     [(''mode'', in_field (wm_mode \<circ> fst) (\<lambda>x. apfst (wm_mode_update (\<lambda>_. x))) into_string),
      (''id'', in_field (wm_id \<circ> fst) (\<lambda>x. apfst (wm_id_update (\<lambda>_. x))) into_string),
      (''name'', in_field (wm_name \<circ> fst) (\<lambda>x. apfst (wm_name_update (\<lambda>_. x))) into_string),
      (''provider'', in_field (wm_provider \<circ> fst) (\<lambda>x. apfst (wm_provider_update (\<lambda>_. x))) into_string),
      (''description'', in_field (wm_description \<circ> fst) (\<lambda>x. apfst (wm_description_update (\<lambda>_. x))) into_string),
      (''instructions'', in_field (wm_instructions \<circ> fst) (\<lambda>x. apfst (wm_instructions_update (\<lambda>_. x))) into_string),
      (''command'', in_field (\<lambda>(m, h). (wm_command m, h)) (\<lambda>(xs, h) (m, _). (m\<lparr>wm_command := xs\<rparr>, h))
         (into_slice into_string [])),
      (''timeoutSeconds'', in_field (wm_timeout \<circ> fst) (\<lambda>x. apfst (wm_timeout_update (\<lambda>_. x))) into_int)]"

type_synonym config_cell = "int \<times> member_cell slice"

definition config_fields :: "(string \<times> config_cell setter) list" where
  "config_fields =
     [(''version'', in_field fst (\<lambda>x. apfst (\<lambda>_. x)) into_int),
      (''members'', in_field snd (\<lambda>x. apsnd (\<lambda>_. x)) (into_slice (into_struct member_fields) (no_member, [])))]"

definition config_cell :: "agent_config \<Rightarrow> config_cell" where
  "config_cell c = (ac_version c, (map (\<lambda>m. (m, [])) (ac_members c), []))"

definition cell_config :: "config_cell \<Rightarrow> agent_config" where
  "cell_config c = \<lparr>ac_version = fst c, ac_members = map fst (fst (snd c))\<rparr>"

text \<open>What \<^verbatim>\<open>os.Open\<close> and \<^verbatim>\<open>Stat\<close> find at the path, with whether it is a private regular file.\<close>

datatype config_file = Missing_file | Unreadable_file | Found_file bool bytes

definition Load_config :: "config_file \<Rightarrow> config_error + agent_config" where
  "Load_config file =
     (case file of
        Missing_file \<Rightarrow> Inr Default_config
      | Unreadable_file \<Rightarrow> Inl ErrConfigFile
      | Found_file private text \<Rightarrow>
          if \<not> private \<or> length text > 65536 then Inl ErrConfigPrivate
          else (case decode_first (into_struct config_fields) (config_cell Default_config) text of
             None \<Rightarrow> Inl ErrConfigJson
           | Some (c, r) \<Rightarrow>
               if \<not> only_space r then Inl ErrConfigTrailing
               else (case Validate_config (cell_config c) of
                  Some e \<Rightarrow> Inl e
                | None \<Rightarrow> Inr (cell_config c))))"

subsection \<open>Routing\<close>

definition agent_token :: string where
  "agent_token = ''@agent:''"

definition token_char :: "char \<Rightarrow> bool" where
  "token_char c \<longleftrightarrow> c \<notin> {CHR 0x20, CHR 0x09, CHR 0x0D, CHR 0x0A}"

lemma trim_space_length: "length (trim_space s) \<le> length s"
  using trim_with_length [of "map rev go_spaces" "rev (trim_with go_spaces s)"]
    trim_with_length [of go_spaces s]
  by (simp add: trim_space_def)

function route_tokens :: "work_member list \<Rightarrow> bytes \<Rightarrow> string list \<Rightarrow> work_member list
    \<Rightarrow> config_error + bytes \<times> work_member list" where
  "route_tokens ms s seen out =
     (if prefix agent_token s then
        (let agent = TrimPrefix (takeWhile token_char s) agent_token in
         case find (\<lambda>m. wm_id m = agent) ms of
           None \<Rightarrow> Inl (ErrUnknownAgent agent)
         | Some found \<Rightarrow>
             if agent \<in> set seen then Inl (ErrDuplicateAgent agent)
             else route_tokens ms (trim_space (dropWhile token_char s)) (agent # seen) (out @ [found]))
      else Inr (s, out))"
  by pat_completeness auto
termination
proof (relation "measure (\<lambda>(ms, s, seen, out). length s)", goal_cases)
  case (2 ms s seen out agent found)
  then obtain t where "s = CHR ''@'' # t"
    by (auto simp: agent_token_def prefix_def)
  then show ?case
    using trim_space_length [of "dropWhile token_char s"] length_dropWhile_le [of token_char t]
    by (simp add: token_char_def)
qed simp

declare route_tokens.simps [simp del]

definition Route :: "agent_config \<Rightarrow> bytes \<Rightarrow> config_error + work_member list" where
  "Route c text =
     rbind (route_tokens (ac_members c) (trim_space text) [] []) (\<lambda>(s, out).
       if length out > 0 \<and> s = [] then Inl ErrNoWork
       else if length out > 8 then Inl ErrTooManyAgents
       else Inr out)"

end
