(* ===== verification/Workgroup_Plan.thy ===== *)
theory Workgroup_Plan
  imports Workgroup_Config
begin

text \<open>
  How a human message becomes work for the agents (\<^verbatim>\<open>internal/workgroup/plan.go\<close> and the checks of
  \<^verbatim>\<open>planner.go\<close>): direct dispatch, the request for automatic planning, and explicit plans with
  their validation and their stable topological order. A Go map from step or member ids is a
  partial function; a missing entry reads as the zero value.
\<close>

record step =
  st_id :: string
  st_agent :: string
  st_prompt :: string
  st_depends :: "string list"

record planned_step =
  ps_step :: step
  ps_member :: work_member

record execution_plan =
  xp_automatic :: bool
  xp_explicit :: bool
  xp_steps :: "planned_step list"

datatype plan_error =
    ErrRoute config_error | ErrNoGoal | ErrPlanLong | ErrPlanJson | ErrPlanTrailing | ErrStepCount
  | ErrStepID string | ErrStepAgent string | ErrStepPrompt string | ErrStepDependency string string
  | ErrStepCycle
  | ErrReplyLong | ErrReplyJson | ErrReplyTrailing | ErrClarificationLong | ErrClarification string
  | ErrInferred plan_error

definition no_step :: step where
  "no_step = \<lparr>st_id = [], st_agent = [], st_prompt = [], st_depends = []\<rparr>"

definition no_plan :: execution_plan where
  "no_plan = \<lparr>xp_automatic = False, xp_explicit = False, xp_steps = []\<rparr>"

subsection \<open>Reading a plan\<close>

type_synonym step_cell = "step \<times> string list"

definition step_fields :: "(string \<times> step_cell setter) list" where
  "step_fields =
     [(''id'', in_field (st_id \<circ> fst) (\<lambda>x. apfst (st_id_update (\<lambda>_. x))) into_string),
      (''agent'', in_field (st_agent \<circ> fst) (\<lambda>x. apfst (st_agent_update (\<lambda>_. x))) into_string),
      (''prompt'', in_field (st_prompt \<circ> fst) (\<lambda>x. apfst (st_prompt_update (\<lambda>_. x))) into_string),
      (''dependsOn'', in_field (\<lambda>(s, h). (st_depends s, h)) (\<lambda>(xs, h) (s, _). (s\<lparr>st_depends := xs\<rparr>, h))
         (into_slice into_string []))]"

definition into_steps :: "step_cell slice setter" where
  "into_steps = into_slice (into_struct step_fields) (no_step, [])"

definition plan_fields :: "(string \<times> step_cell slice setter) list" where
  "plan_fields = [(''steps'', into_steps)]"

definition decode_plan :: "bytes \<Rightarrow> (step list \<times> bytes) option" where
  "decode_plan text =
     map_option (apfst (map fst \<circ> fst)) (decode_first (into_struct plan_fields) ([], []) text)"

subsection \<open>Checking and ordering the steps\<close>

definition member_map :: "agent_config \<Rightarrow> string \<Rightarrow> work_member option" where
  "member_map c = foldl (\<lambda>M m. M(wm_id m \<mapsto> m)) Map.empty (ac_members c)"

definition step_at :: "(string \<Rightarrow> step option) \<Rightarrow> string \<Rightarrow> step" where
  "step_at M k = (case M k of None \<Rightarrow> no_step | Some s \<Rightarrow> s)"

fun check_steps :: "(string \<Rightarrow> work_member option) \<Rightarrow> step list \<Rightarrow> (string \<Rightarrow> step option)
    \<Rightarrow> plan_error + (string \<Rightarrow> step option)" where
  "check_steps M [] S = Inr S"
| "check_steps M (s # ss) S =
     (if \<not> validID (st_id s) \<or> st_id (step_at S (st_id s)) \<noteq> [] then Inl (ErrStepID (st_id s))
      else if M (st_agent s) = None then Inl (ErrStepAgent (st_agent s))
      else if trim_space (st_prompt s) = [] \<or> length (st_prompt s) > 8000 then Inl (ErrStepPrompt (st_id s))
      else check_steps M ss (S(st_id s \<mapsto> s)))"

fun check_depends :: "(string \<Rightarrow> step option) \<Rightarrow> string \<Rightarrow> string list \<Rightarrow> string list \<Rightarrow> plan_error option" where
  "check_depends S i [] seen = None"
| "check_depends S i (d # ds) seen =
     (if d = i \<or> st_id (step_at S d) = [] \<or> d \<in> set seen then Some (ErrStepDependency i d)
      else check_depends S i ds (d # seen))"

fun check_all_depends :: "(string \<Rightarrow> step option) \<Rightarrow> step list \<Rightarrow> plan_error option" where
  "check_all_depends S [] = None"
| "check_all_depends S (s # ss) =
     (case check_depends S (st_id s) (st_depends s) [] of
        Some e \<Rightarrow> Some e
      | None \<Rightarrow> check_all_depends S ss)"

definition member_at :: "(string \<Rightarrow> work_member option) \<Rightarrow> string \<Rightarrow> work_member" where
  "member_at M k = (case M k of None \<Rightarrow> no_member | Some m \<Rightarrow> m)"

text \<open>A step is placed when it is not done and everything it depends on is.\<close>

definition ready :: "(string \<Rightarrow> bool) \<Rightarrow> step \<Rightarrow> bool" where
  "ready finished s \<longleftrightarrow> \<not> finished (st_id s) \<and> list_all finished (st_depends s)"

function order_steps :: "(string \<Rightarrow> work_member option) \<Rightarrow> step list \<Rightarrow> (string \<Rightarrow> bool) \<Rightarrow> planned_step list
    \<Rightarrow> plan_error + planned_step list" where
  "order_steps M raw finished placed =
     (if length placed < length raw then
        (case find (ready finished) raw of
           None \<Rightarrow> Inl ErrStepCycle
         | Some s \<Rightarrow> order_steps M raw (finished(st_id s := True))
                       (placed @ [\<lparr>ps_step = s, ps_member = member_at M (st_agent s)\<rparr>]))
      else Inr placed)"
  by pat_completeness auto
termination
  by (relation "measure (\<lambda>(M, raw, f, placed). length raw - length placed)") auto

declare order_steps.simps [simp del]

definition schedule :: "agent_config \<Rightarrow> step list \<Rightarrow> plan_error + planned_step list" where
  "schedule c raw =
     (if length raw < 1 \<or> length raw > 16 then Inl ErrStepCount
      else rbind (check_steps (member_map c) raw Map.empty) (\<lambda>S.
        case check_all_depends S raw of
          Some e \<Rightarrow> Inl e
        | None \<Rightarrow> order_steps (member_map c) raw (\<lambda>_. False) []))"

subsection \<open>Messages\<close>

fun has_text :: "bytes \<Rightarrow> bytes \<Rightarrow> bool" where
  "has_text [] p \<longleftrightarrow> p = []"
| "has_text (c # s) p \<longleftrightarrow> prefix p (c # s) \<or> has_text s p"

definition word_byte :: "char \<Rightarrow> bool" where
  "word_byte c \<longleftrightarrow> in_range 97 122 c \<or> in_range 65 90 c \<or> in_range 48 57 c \<or> c \<in> {CHR ''_'', CHR ''.'', CHR ''-''}"

text \<open>
  The regular expression that finds a member's id between characters that are no part of an
  id. Ids are ASCII and not empty (\<open>validID\<close>), so classes of runes and of bytes agree here:
  every byte of a rune beyond ASCII is outside the class.
\<close>

definition ends_word :: "bytes \<Rightarrow> bool" where
  "ends_word s \<longleftrightarrow> (case s of [] \<Rightarrow> True | c # _ \<Rightarrow> \<not> word_byte c)"

fun id_follows :: "bool \<Rightarrow> bytes \<Rightarrow> string \<Rightarrow> bool" where
  "id_follows boundary s i \<longleftrightarrow>
     boundary \<and> prefix i s \<and> ends_word (drop (length i) s) \<or>
     (case s of [] \<Rightarrow> False | c # t \<Rightarrow> id_follows (\<not> word_byte c) t i)"

declare id_follows.simps [simp del]

definition mentions_id :: "bytes \<Rightarrow> string \<Rightarrow> bool" where
  "mentions_id s i \<longleftrightarrow> id_follows True s i"

definition many :: bytes where
  "many = [CHR 0xE5, CHR 0xA4, CHR 0x9A]"

definition many_of :: bytes where
  "many_of = [CHR 0xE5, CHR 0xA4, CHR 0x9A, CHR 0xE4, CHR 0xB8, CHR 0xAA]"

definition collaborate :: bytes where
  "collaborate = [CHR 0xE5, CHR 0x8D, CHR 0x8F, CHR 0xE4, CHR 0xBD, CHR 0x9C]"

definition cooperate :: bytes where
  "cooperate = [CHR 0xE9, CHR 0x85, CHR 0x8D, CHR 0xE5, CHR 0x90, CHR 0x88]"

definition many_minds :: bytes where
  "many_minds = [CHR 0xE5, CHR 0xA4, CHR 0x9A, CHR 0xE6, CHR 0x99, CHR 0xBA, CHR 0xE8, CHR 0x83, CHR 0xBD,
     CHR 0xE4, CHR 0xBD, CHR 0x93]"

definition cooperationRequested :: "agent_config \<Rightarrow> bytes \<Rightarrow> bool" where
  "cooperationRequested c text \<longleftrightarrow>
     has_text text agent_token \<or>
     (let count = length (filter (\<lambda>m. mentions_id text (wm_id m) \<or> (wm_name m \<noteq> wm_id m \<and> has_text text (wm_name m)))
                    (ac_members c)) in
      (length (ac_members c) > 1 \<and> (has_text text collaborate \<or> has_text text cooperate)) \<or> count \<ge> 2 \<or>
      has_text text (many_of @ ''agent'') \<or> has_text text (many_of @ '' Agent'') \<or>
      has_text text (many @ '' Agent'') \<or> has_text text (many @ ''agent'') \<or> has_text text many_minds)"

definition team_word :: string where
  "team_word = ''/team''"

definition team_command :: "bytes \<Rightarrow> bool" where
  "team_command s \<longleftrightarrow> s = team_word \<or> prefix (team_word @ '' '') s \<or> prefix (team_word @ [CHR 0x0A]) s \<or>
     prefix (team_word @ [CHR 0x09]) s \<or> prefix (team_word @ [CHR 0x0D]) s"

definition direct_plan :: "work_member \<Rightarrow> execution_plan" where
  "direct_plan m = no_plan\<lparr>xp_steps :=
     [\<lparr>ps_step = no_step\<lparr>st_id := ''direct'', st_agent := wm_id m\<rparr>, ps_member = m\<rparr>]\<rparr>"

definition Plan :: "agent_config \<Rightarrow> bytes \<Rightarrow> plan_error + execution_plan" where
  "Plan c text =
     (let s = trim_space text in
      if \<not> team_command s then
        (case Route c text of
           Inl e \<Rightarrow> Inl (ErrRoute e)
         | Inr ms \<Rightarrow>
             if length ms = 1 then Inr (direct_plan (hd ms))
             else Inr (no_plan\<lparr>xp_automatic := length ms > 1 \<or> cooperationRequested c s\<rparr>))
      else
        (let goal = trim_space (TrimPrefix s team_word) in
         if \<not> prefix ''{'' goal then
           (if goal = [] then Inl ErrNoGoal else Inr (no_plan\<lparr>xp_automatic := True\<rparr>))
         else if length s > 65536 then Inl ErrPlanLong
         else (case decode_plan goal of
            None \<Rightarrow> Inl ErrPlanJson
          | Some (raw, r) \<Rightarrow>
              if \<not> only_space r then Inl ErrPlanTrailing
              else rbind (schedule c raw) (\<lambda>ps. Inr (no_plan\<lparr>xp_explicit := True, xp_steps := ps\<rparr>)))))"

subsection \<open>Plans written by the model\<close>

type_synonym reply_cell = "step_cell slice \<times> string"

definition reply_fields :: "(string \<times> reply_cell setter) list" where
  "reply_fields =
     [(''steps'', in_field fst (\<lambda>x. apfst (\<lambda>_. x)) into_steps),
      (''clarification'', in_field snd (\<lambda>x. apsnd (\<lambda>_. x)) into_string)]"

definition decode_reply :: "bytes \<Rightarrow> ((step list \<times> string) \<times> bytes) option" where
  "decode_reply text =
     map_option (apfst (apfst (map fst \<circ> fst))) (decode_first (into_struct reply_fields) (([], []), []) text)"

definition step_json :: "step \<Rightarrow> json" where
  "step_json s = JObj ([(''id'', JStr (st_id s)), (''agent'', JStr (st_agent s)), (''prompt'', JStr (st_prompt s))] @
     (if st_depends s = [] then [] else [(''dependsOn'', JArr (map JStr (st_depends s)))]))"

text \<open>\<^verbatim>\<open>json.Marshal\<close> of a plan without a list of steps writes \<^verbatim>\<open>null\<close>; an empty list decodes to the same.\<close>

definition plan_json :: "step list \<Rightarrow> json" where
  "plan_json ss = JObj [(''steps'', if ss = [] then JNull else JArr (map step_json ss))]"

definition validateInferredPlan :: "agent_config \<Rightarrow> bytes \<Rightarrow> plan_error + execution_plan" where
  "validateInferredPlan c text =
     (if length text > 65536 then Inl ErrReplyLong
      else (case decode_reply text of
         None \<Rightarrow> Inl ErrReplyJson
       | Some ((raw, clarification), r) \<Rightarrow>
           if \<not> only_space r then Inl ErrReplyTrailing
           else if clarification \<noteq> [] then
             (if length clarification > 2000 then Inl ErrClarificationLong
              else Inl (ErrClarification clarification))
           else (case Plan c (team_word @ '' '' @ json_marshal (plan_json raw)) of
              Inl e \<Rightarrow> Inl (ErrInferred e)
            | Inr p \<Rightarrow> Inr p)))"

end
