(* ===== verification/Workgroup_Order.thy ===== *)
theory Workgroup_Order
  imports Workgroup_Plan "HOL-Library.Multiset"
begin

text \<open>
  What the checks of a plan accept and what the ordering loop makes of an accepted plan: every
  step exactly once, each after everything it depends on, the first ready step of the authored
  plan first; and the loop places every step exactly when the dependencies have no cycle.
\<close>

subsection \<open>What the checks accept\<close>

definition step_ok :: "agent_config \<Rightarrow> step \<Rightarrow> bool" where
  "step_ok c s \<longleftrightarrow> validID (st_id s) \<and> st_agent s \<in> wm_id ` set (ac_members c) \<and>
     trim_space (st_prompt s) \<noteq> [] \<and> length (st_prompt s) \<le> 8000"

definition depends_ok :: "string set \<Rightarrow> step \<Rightarrow> bool" where
  "depends_ok ids s \<longleftrightarrow> distinct (st_depends s) \<and> st_id s \<notin> set (st_depends s) \<and> set (st_depends s) \<subseteq> ids"

definition plan_ok :: "agent_config \<Rightarrow> step list \<Rightarrow> bool" where
  "plan_ok c raw \<longleftrightarrow> 1 \<le> length raw \<and> length raw \<le> 16 \<and> distinct (map st_id raw) \<and>
     (\<forall>s \<in> set raw. step_ok c s \<and> depends_ok (st_id ` set raw) s)"

text \<open>Which step waits for which.\<close>

definition waits_for :: "step list \<Rightarrow> (string \<times> string) set" where
  "waits_for raw = {(d, st_id s) |d s. s \<in> set raw \<and> d \<in> set (st_depends s)}"

definition keyed_steps :: "(string \<Rightarrow> step option) \<Rightarrow> bool" where
  "keyed_steps S \<longleftrightarrow> (\<forall>k s. S k = Some s \<longrightarrow> st_id s = k \<and> k \<noteq> [])"

lemma member_map_fold:
  "foldl (\<lambda>M m. M(wm_id m \<mapsto> m)) N ms k =
     (case find (\<lambda>m. wm_id m = k) (rev ms) of None \<Rightarrow> N k | Some m \<Rightarrow> Some m)"
  by (induction ms arbitrary: N rule: rev_induct) auto

lemma member_map_Some: "member_map c k = Some m \<Longrightarrow> m \<in> set (ac_members c) \<and> wm_id m = k"
  by (auto simp: member_map_def member_map_fold split: option.splits dest: find_SomeD)

lemma member_map_None: "member_map c k = None \<longleftrightarrow> k \<notin> wm_id ` set (ac_members c)"
proof (cases "find (\<lambda>m. wm_id m = k) (rev (ac_members c))")
  case None
  then have "k \<notin> wm_id ` set (ac_members c)" by (auto simp: find_None_iff)
  with None show ?thesis by (simp add: member_map_def member_map_fold)
next
  case (Some m)
  then show ?thesis using find_SomeD [OF Some] by (auto simp: member_map_def member_map_fold)
qed

lemma step_at_id: "keyed_steps S \<Longrightarrow> st_id (step_at S k) = [] \<longleftrightarrow> k \<notin> dom S"
  by (auto simp: step_at_def keyed_steps_def no_step_def split: option.splits)

lemma validID_Nil [simp]: "\<not> validID []"
  by (simp add: validID_def)

lemma keyed_steps_upd: "keyed_steps S \<Longrightarrow> st_id s \<noteq> [] \<Longrightarrow> keyed_steps (S(st_id s \<mapsto> s))"
  by (simp add: keyed_steps_def)

lemma check_steps_Inr:
  assumes "keyed_steps S"
  shows "check_steps (member_map c) ss S = Inr S' \<longleftrightarrow>
     (\<forall>s \<in> set ss. step_ok c s \<and> st_id s \<notin> dom S) \<and> distinct (map st_id ss) \<and>
     S' = foldl (\<lambda>T s. T(st_id s \<mapsto> s)) S ss"
  using assms
proof (induction ss arbitrary: S)
  case (Cons s ss)
  show ?case
  proof (cases "step_ok c s \<and> st_id s \<notin> dom S")
    case True
    then have "st_id s \<noteq> []" by (auto simp: step_ok_def)
    note IH = Cons.IH [OF keyed_steps_upd [OF Cons.prems this]]
    from True have "check_steps (member_map c) (s # ss) S = check_steps (member_map c) ss (S(st_id s \<mapsto> s))"
      by (simp add: step_ok_def step_at_id [OF Cons.prems] member_map_None)
    moreover have "st_id t \<notin> dom (S(st_id s \<mapsto> s)) \<longleftrightarrow> st_id t \<noteq> st_id s \<and> st_id t \<notin> dom S" for t
      by auto
    ultimately show ?thesis
      using True by (auto simp: IH image_iff simp del: domIff fun_upd_apply)
  next
    case False
    then show ?thesis
      by (auto simp: step_ok_def step_at_id [OF Cons.prems] member_map_None)
  qed
qed auto

lemma foldl_steps:
  "\<forall>s \<in> set ss. st_id s \<noteq> [] \<Longrightarrow> keyed_steps S \<Longrightarrow>
     keyed_steps (foldl (\<lambda>T s. T(st_id s \<mapsto> s)) S ss) \<and>
     dom (foldl (\<lambda>T s. T(st_id s \<mapsto> s)) S ss) = dom S \<union> st_id ` set ss"
proof (induction ss arbitrary: S)
  case (Cons s ss)
  then have "keyed_steps (S(st_id s \<mapsto> s))" by (simp add: keyed_steps_upd)
  moreover have "dom (S(st_id s \<mapsto> s)) = insert (st_id s) (dom S)" by simp
  ultimately show ?case
    using Cons.IH [of "S(st_id s \<mapsto> s)"] Cons.prems(1) by (simp del: dom_fun_upd fun_upd_apply)
qed simp

lemma check_depends_None:
  assumes "keyed_steps S"
  shows "check_depends S i ds seen = None \<longleftrightarrow>
     distinct ds \<and> i \<notin> set ds \<and> set ds \<subseteq> dom S \<and> set ds \<inter> set seen = {}"
  by (induction ds arbitrary: seen) (auto simp: step_at_id [OF assms])

lemma check_all_depends_None:
  assumes "keyed_steps S"
  shows "check_all_depends S ss = None \<longleftrightarrow> (\<forall>s \<in> set ss. depends_ok (dom S) s)"
proof (induction ss)
  case (Cons s ss)
  have "check_depends S (st_id s) (st_depends s) [] = None \<longleftrightarrow> depends_ok (dom S) s"
    by (simp add: depends_ok_def check_depends_None [OF assms])
  with Cons show ?case by (auto split: option.split)
qed simp

lemma check_steps_Inl: "check_steps M ss S = Inl e \<Longrightarrow> e \<noteq> ErrStepCycle"
  by (induction M ss S rule: check_steps.induct) (auto split: if_splits)

lemma check_depends_Some: "check_depends S i ds seen = Some e \<Longrightarrow> e \<noteq> ErrStepCycle"
  by (induction S i ds seen rule: check_depends.induct) (auto split: if_splits)

lemma check_all_depends_Some: "check_all_depends S ss = Some e \<Longrightarrow> e \<noteq> ErrStepCycle"
  by (induction S ss rule: check_all_depends.induct) (auto split: option.splits dest: check_depends_Some)

lemma schedule_checked:
  "if plan_ok c raw then schedule c raw = order_steps (member_map c) raw (\<lambda>_. False) []
   else \<exists>e. schedule c raw = Inl e \<and> e \<noteq> ErrStepCycle"
proof -
  define S where "S = foldl (\<lambda>T s. T(st_id s \<mapsto> s)) Map.empty raw"
  have empty: "keyed_steps Map.empty" by (simp add: keyed_steps_def)
  have steps: "check_steps (member_map c) raw Map.empty = Inr T \<longleftrightarrow>
      (\<forall>s \<in> set raw. step_ok c s) \<and> distinct (map st_id raw) \<and> T = S" for T
    by (simp add: check_steps_Inr [OF empty] S_def)
  show ?thesis
  proof (cases "(\<forall>s \<in> set raw. step_ok c s) \<and> distinct (map st_id raw)")
    case True
    then have "\<forall>s \<in> set raw. st_id s \<noteq> []" by (auto simp: step_ok_def)
    then have S: "keyed_steps S" "dom S = st_id ` set raw"
      using foldl_steps [OF _ empty, of raw] by (simp_all add: S_def)
    from True steps have checked: "check_steps (member_map c) raw Map.empty = Inr S" by simp
    show ?thesis
    proof (cases "check_all_depends S raw")
      case None
      with True check_all_depends_None [OF S(1), of raw] checked show ?thesis
        by (auto simp: schedule_def plan_ok_def S(2) Suc_le_eq)
    next
      case (Some e)
      with check_all_depends_None [OF S(1), of raw] have "\<not> plan_ok c raw" by (auto simp: plan_ok_def S(2))
      with Some checked check_all_depends_Some [OF Some] show ?thesis by (auto simp: schedule_def)
    qed
  next
    case False
    with steps obtain e where "check_steps (member_map c) raw Map.empty = Inl e"
      by (cases "check_steps (member_map c) raw Map.empty") auto
    with False check_steps_Inl [OF this] show ?thesis by (auto simp: schedule_def plan_ok_def)
  qed
qed

lemma schedule_Inr:
  "schedule c raw = Inr ps \<longleftrightarrow> plan_ok c raw \<and> order_steps (member_map c) raw (\<lambda>_. False) [] = Inr ps"
  using schedule_checked [of c raw] by (auto split: if_splits)

lemma schedule_cycle:
  "schedule c raw = Inl ErrStepCycle \<longleftrightarrow>
     plan_ok c raw \<and> order_steps (member_map c) raw (\<lambda>_. False) [] = Inl ErrStepCycle"
  using schedule_checked [of c raw] by (auto split: if_splits)

subsection \<open>The ordering loop\<close>

definition placed_ids :: "planned_step list \<Rightarrow> string list" where
  "placed_ids ps = map (st_id \<circ> ps_step) ps"

text \<open>The state of the loop: the steps placed so far are steps of the plan and are marked as done.\<close>

definition placing :: "step list \<Rightarrow> (string \<Rightarrow> bool) \<Rightarrow> planned_step list \<Rightarrow> bool" where
  "placing raw finished ps \<longleftrightarrow> ps_step ` set ps \<subseteq> set raw \<and> distinct (placed_ids ps) \<and>
     (\<forall>k. finished k \<longleftrightarrow> k \<in> set (placed_ids ps))"

text \<open>What the loop promises of the steps it placed: each was the first ready one.\<close>

definition first_ready :: "(string \<Rightarrow> work_member option) \<Rightarrow> step list \<Rightarrow> planned_step list \<Rightarrow> bool" where
  "first_ready M raw ps \<longleftrightarrow>
     (\<forall>i < length ps.
        find (ready (\<lambda>k. k \<in> set (placed_ids (take i ps)))) raw = Some (ps_step (ps ! i)) \<and>
        ps_member (ps ! i) = member_at M (st_agent (ps_step (ps ! i))))"

lemma placing_ready:
  assumes "placing raw finished ps" "find (ready finished) raw = Some s"
  shows "placing raw (finished(st_id s := True)) (ps @ [\<lparr>ps_step = s, ps_member = m\<rparr>])"
  using assms find_SomeD [OF assms(2)] by (auto simp: placing_def placed_ids_def ready_def)

lemma first_ready_snoc:
  "first_ready M raw (ps @ [p]) \<longleftrightarrow> first_ready M raw ps \<and>
     find (ready (\<lambda>k. k \<in> set (placed_ids ps))) raw = Some (ps_step p) \<and>
     ps_member p = member_at M (st_agent (ps_step p))"
  by (auto simp: first_ready_def nth_append less_Suc_eq)

lemma order_steps_Inr:
  assumes "order_steps M raw finished placed = Inr ps" "placing raw finished placed"
    "first_ready M raw placed" "length placed \<le> length raw"
  shows "first_ready M raw ps \<and> placing raw (\<lambda>k. k \<in> set (placed_ids ps)) ps \<and> length ps = length raw"
  using assms
proof (induction M raw finished placed rule: order_steps.induct)
  case (1 M raw finished placed)
  have marks: "finished = (\<lambda>k. k \<in> set (placed_ids placed))"
    using 1(3) by (auto simp: placing_def)
  show ?case
  proof (cases "length placed < length raw")
    case True
    with 1(2) obtain s where s: "find (ready finished) raw = Some s"
      by (auto simp: order_steps.simps split: option.splits)
    let ?p = "\<lparr>ps_step = s, ps_member = member_at M (st_agent s)\<rparr>"
    have "first_ready M raw (placed @ [?p])"
      using 1(4) s by (simp add: first_ready_snoc marks)
    moreover have "order_steps M raw (finished(st_id s := True)) (placed @ [?p]) = Inr ps"
      using 1(2) True s by (simp add: order_steps.simps [of M raw finished placed])
    ultimately show ?thesis
      using True by (intro 1(1) [OF True s _ placing_ready [OF 1(3) s]]) (assumption+, simp)
  next
    case False
    with 1(2) have "ps = placed" by (simp add: order_steps.simps)
    with 1(3-5) False marks show ?thesis by simp
  qed
qed

text \<open>A loop that never finds a ready step before every step is placed met a cycle.\<close>

lemma stuck_cycle:
  assumes "placing raw finished placed" "length placed < length raw" "distinct (map st_id raw)"
    and ok: "\<forall>s \<in> set raw. depends_ok (st_id ` set raw) s"
    and none: "find (ready finished) raw = None"
  shows "\<not> acyclic (waits_for raw)"
proof
  assume acyclic: "acyclic (waits_for raw)"
  have "waits_for raw \<subseteq> (\<Union>s \<in> set raw. (\<lambda>d. (d, st_id s)) ` set (st_depends s))"
    by (auto simp: waits_for_def)
  then have "finite (waits_for raw)" by (rule finite_subset) simp
  then have wf: "wf (waits_for raw)" using acyclic by (rule finite_acyclic_wf)
  let ?left = "{k \<in> st_id ` set raw. \<not> finished k}"
  have "?left \<noteq> {}"
  proof
    assume "?left = {}"
    then have "st_id ` set raw \<subseteq> set (placed_ids placed)"
      using assms(1) by (auto simp: placing_def)
    then have "card (st_id ` set raw) \<le> length placed"
      by (metis List.finite_set card_length card_mono le_trans length_map placed_ids_def)
    moreover have "card (st_id ` set raw) = length raw"
      using distinct_card [OF assms(3)] by simp
    ultimately show False using assms(2) by simp
  qed
  then obtain k where k: "k \<in> ?left" and min: "\<And>d. (d, k) \<in> waits_for raw \<Longrightarrow> d \<notin> ?left"
    using wfE_min [OF wf] by (metis (lifting) ex_in_conv)
  then obtain s where s: "s \<in> set raw" "k = st_id s" "\<not> finished (st_id s)" by auto
  then have "finished d" if "d \<in> set (st_depends s)" for d
    using that min [of d] ok by (auto simp: waits_for_def depends_ok_def)
  with s have "ready finished s" by (simp add: ready_def list_all_iff)
  with none s(1) show False by (simp add: find_None_iff)
qed

lemma order_steps_Inl:
  assumes "order_steps M raw finished placed = Inl e" "placing raw finished placed"
    "distinct (map st_id raw)" "\<forall>s \<in> set raw. depends_ok (st_id ` set raw) s"
  shows "e = ErrStepCycle \<and> \<not> acyclic (waits_for raw)"
  using assms
proof (induction M raw finished placed rule: order_steps.induct)
  case (1 M raw finished placed)
  then have less: "length placed < length raw"
    by (auto simp: order_steps.simps [of M raw finished placed] split: if_splits)
  show ?case
  proof (cases "find (ready finished) raw")
    case None
    with 1(2) less stuck_cycle [OF 1(3) less 1(4,5)] show ?thesis
      by (simp add: order_steps.simps [of M raw finished placed])
  next
    case (Some s)
    from 1(2) less Some show ?thesis
      unfolding order_steps.simps [of M raw finished placed]
      by (intro 1(1) [OF less Some _ placing_ready [OF 1(3) Some] 1(4,5)]) (simp only: if_True option.case)
  qed
qed

text \<open>A complete order is a linear extension of the dependencies, so they have no cycle.\<close>

lemma placed_before:
  assumes "first_ready M raw ps" "i < length ps" "d \<in> set (st_depends (ps_step (ps ! i)))"
  obtains j where "j < i" "st_id (ps_step (ps ! j)) = d"
proof -
  from assms have "d \<in> set (placed_ids (take i ps))"
    by (auto simp: first_ready_def ready_def list_all_iff dest!: find_SomeD)
  then have "d \<in> (\<lambda>j. st_id (ps_step (ps ! j))) ` {..<i}"
    using assms(2) by (auto simp: placed_ids_def in_set_conv_nth)
  with that show thesis by auto
qed

lemma placed_all:
  assumes "placing raw f ps" "length ps = length raw" "distinct (map st_id raw)"
  shows "mset (map ps_step ps) = mset raw"
proof -
  have d: "distinct (map ps_step ps)"
    using assms(1) unfolding placing_def placed_ids_def by (metis distinct_map map_map)
  have "card (set (map ps_step ps)) = card (set raw)"
    using distinct_card [OF d] distinct_card [of raw] assms(2,3) by (simp add: distinct_map)
  then have "set (map ps_step ps) = set raw"
    using assms(1) by (intro card_subset_eq) (auto simp: placing_def)
  with d assms(3) show ?thesis
    by (metis distinct_map set_eq_iff_mset_eq_distinct)
qed

lemma ordered_acyclic:
  assumes ready: "first_ready M raw ps" and placing: "placing raw f ps"
    and len: "length ps = length raw" and raw: "distinct (map st_id raw)"
  shows "acyclic (waits_for raw)"
proof -
  have all: "set (map ps_step ps) = set raw"
    using placed_all [OF placing len raw] by (metis set_mset_mset)
  define pos where "pos k = (LEAST i. i < length ps \<and> st_id (ps_step (ps ! i)) = k)" for k
  have pos: "pos (st_id (ps_step (ps ! i))) = i" if "i < length ps" for i
    unfolding pos_def
  proof (rule Least_equality)
    fix j
    assume "j < length ps \<and> st_id (ps_step (ps ! j)) = st_id (ps_step (ps ! i))"
    then have "j = i"
      using placing that nth_eq_iff_index_eq [of "placed_ids ps" j i]
      by (simp add: placing_def placed_ids_def)
    then show "i \<le> j" by simp
  qed (simp add: that)
  have "waits_for raw \<subseteq> measure pos"
  proof
    fix e
    assume "e \<in> waits_for raw"
    then obtain d s where e: "e = (d, st_id s)" "s \<in> set raw" "d \<in> set (st_depends s)"
      by (auto simp: waits_for_def)
    then obtain i where i: "i < length ps" "s = ps_step (ps ! i)"
      using all by (metis in_set_conv_nth length_map nth_map)
    with placed_before [OF ready i(1)] e(3) obtain j where "j < i" "st_id (ps_step (ps ! j)) = d"
      by auto
    with i pos show "e \<in> measure pos" by (auto simp: e(1))
  qed
  then show ?thesis
    using wf_acyclic [OF wf_measure] acyclic_subset by blast
qed

end
