(* ===== verification/Workgroup_Inferred.thy ===== *)
theory Workgroup_Inferred
  imports Workgroup_Order Client_Requests Client_Safe
begin

text \<open>
  What the decoder of plans produces: every string it writes is valid UTF-8, and a plan printed
  by \<^verbatim>\<open>json.Marshal\<close> decodes to the same steps. So the check of a plan the model wrote, which
  prints the decoded steps and reads them again as an explicit plan, decides on exactly those
  steps.
\<close>

subsection \<open>Decoded strings\<close>

lemma one_rune_valid: "s \<noteq> [] \<Longrightarrow> rune_len s = length s \<Longrightarrow> utf8_valid s"
  by (simp add: utf8_valid.simps [of s])

lemma utf8_valid_encode: "utf8_valid (utf8_encode r)"
proof -
  consider "r < 0x80" | "0x80 \<le> r" "r < 0x800" | "0x800 \<le> r" "r < 0x10000" "scalar r"
    | "0x10000 \<le> r" "r \<le> 0x10FFFF" | "0xD800 \<le> r \<and> r \<le> 0xDFFF \<or> 0x10FFFF < r"
    by (fastforce simp: scalar_def)
  then show ?thesis
  proof cases
    case 1
    then show ?thesis by (simp add: utf8_encode_def utf8_valid_ascii_byte)
  next
    case 2
    with encode_two [of r "[]"] show ?thesis by (intro one_rune_valid) auto
  next
    case 3
    with encode_three [of r "[]"] show ?thesis by (intro one_rune_valid) auto
  next
    case 4
    with encode_four [of r "[]"] show ?thesis by (intro one_rune_valid) auto
  next
    case 5
    then have "utf8_encode r = replacement" by (auto simp: utf8_encode_def)
    then show ?thesis by (simp add: replacement_def one_rune_valid rune_len_def in_range_def)
  qed
qed

lemma replacement_valid [simp]: "utf8_valid replacement"
  by (simp add: replacement_def one_rune_valid rune_len_def in_range_def)

lemma unicode_escape_valid: "unicode_escape s = Some (u, n) \<Longrightarrow> utf8_valid u"
  by (auto simp: unicode_escape_def utf8_valid_encode split: option.splits if_splits)

lemma simple_escape_valid: "simple_escape c = Some x \<Longrightarrow> utf8_valid [x]"
  by (rule utf8_valid_ascii) (auto simp: simple_escape_def in_range_def split: if_splits)

lemma utf8_valid_Cons: "utf8_valid [x] \<Longrightarrow> utf8_valid r \<Longrightarrow> utf8_valid (x # r)"
  using utf8_valid_append [of "[x]" r] by simp

lemma parse_string_valid: "parse_string s = Some (x, r) \<Longrightarrow> utf8_valid x"
proof (induction s arbitrary: x r rule: parse_string.induct)
  case (2 c s)
  have rune: "utf8_valid (take (rune_len (c # s)) (c # s))" if "rune_len (c # s) \<noteq> 0"
  proof (cases "byte_val c < 0x80")
    case True
    then have "in_range 0 0x7F c" by (simp add: in_range_def)
    with True show ?thesis by (simp add: rune_len_ascii utf8_valid_ascii_byte)
  qed (use that utf8_valid_rune in blast)
  show ?case
  proof (cases "c = CHR 0x22 \<or> byte_val c < 0x20")
    case True
    with 2 show ?thesis by (auto simp: parse_string.simps split: if_splits)
  next
    case False
    then have q: "c \<noteq> CHR 0x22" "\<not> byte_val c < 0x20" by auto
    show ?thesis
    proof (cases "c = CHR 0x5C")
      case slash: True
      with "2.prems" obtain e t where s: "s = e # t"
        by (auto simp: parse_string.simps split: list.splits)
      show ?thesis
      proof (cases "e = CHR ''u''")
        case True
        with "2.prems" slash s obtain u n y where u: "unicode_escape t = Some (u, n)"
            and y: "parse_string (drop n t) = Some (y, r)" and x: "x = u @ y"
          by (auto simp: parse_string.simps split: option.splits)
        with "2.IH"(1) [OF q slash s True u] unicode_escape_valid [OF u] show ?thesis
          by (simp add: utf8_valid_append)
      next
        case no: False
        with "2.prems" slash s obtain z y where z: "simple_escape e = Some z"
            and y: "parse_string t = Some (y, r)" and x: "x = z # y"
          by (auto simp: parse_string.simps split: option.splits)
        with "2.IH"(2) [OF q slash s no z] simple_escape_valid [OF z] show ?thesis
          by (simp add: utf8_valid_Cons)
      qed
    next
      case plain: False
      show ?thesis
      proof (cases "rune_len (c # s) = 0")
        case True
        with "2.prems" q plain "2.IH"(3) [OF q plain True] show ?thesis
          by (auto simp: parse_string.simps(2) intro: utf8_valid_append)
      next
        case some: False
        with "2.prems" q plain "2.IH"(4) [OF q plain some] rune show ?thesis
          by (auto simp: parse_string.simps(2) intro: utf8_valid_append)
      qed
    qed
  qed
qed (simp add: parse_string.simps)

fun texts_valid :: "json \<Rightarrow> bool" where
  "texts_valid (JStr s) = utf8_valid s"
| "texts_valid (JArr vs) = list_all texts_valid vs"
| "texts_valid (JObj fs) = list_all (\<lambda>(k, v). texts_valid v) fs"
| "texts_valid _ = True"

lemma parse_texts_valid:
  "(parse_value n d s = Some (v, r) \<longrightarrow> texts_valid v) \<and>
   (parse_elements n d s = Some (vs, r) \<longrightarrow> list_all texts_valid vs) \<and>
   (parse_members n d s = Some (fs, r) \<longrightarrow> list_all (\<lambda>(k, v). texts_valid v) fs)"
proof (induction n arbitrary: d s v vs fs r)
  case (Suc n)
  note IHv = Suc.IH [THEN conjunct1, rule_format]
  note IHe = Suc.IH [THEN conjunct2, THEN conjunct1, rule_format]
  note IHm = Suc.IH [THEN conjunct2, THEN conjunct2, rule_format]
  have scalar: "texts_valid v" if "parse_scalar t = Some (v, r)" for t
    using that by (auto simp: parse_scalar_def split: if_splits dest: parse_string_valid)
  have "texts_valid v" if "parse_value (Suc n) d s = Some (v, r)"
    using that by (auto simp: parse_value.simps split: list.splits if_splits dest!: IHe IHm scalar)
  moreover have "list_all texts_valid vs" if "parse_elements (Suc n) d s = Some (vs, r)"
    using that by (auto simp: parse_elements.simps split: option.splits list.splits if_splits dest!: IHv IHe)
  moreover have "list_all (\<lambda>(k, v). texts_valid v) fs" if "parse_members (Suc n) d s = Some (fs, r)"
    using that by (auto simp: parse_members.simps split: option.splits list.splits if_splits dest!: IHv IHm)
  ultimately show ?case by blast
qed (simp add: parse_value.simps parse_elements.simps parse_members.simps)

text \<open>A setter keeps what it is given valid.\<close>

definition keeps_valid :: "('a \<Rightarrow> bool) \<Rightarrow> 'a setter \<Rightarrow> bool" where
  "keeps_valid P f \<longleftrightarrow> (\<forall>v x y. texts_valid v \<longrightarrow> P x \<longrightarrow> f v x = Some y \<longrightarrow> P y)"

lemma keeps_validD: "keeps_valid P f \<Longrightarrow> texts_valid v \<Longrightarrow> P x \<Longrightarrow> f v x = Some y \<Longrightarrow> P y"
  by (auto simp: keeps_valid_def)

lemma into_string_valid: "keeps_valid utf8_valid into_string"
  by (auto simp: keeps_valid_def into_string_def split: json.splits)

lemma in_field_valid:
  "keeps_valid Q f \<Longrightarrow> (\<And>x. P x \<Longrightarrow> Q (rd x)) \<Longrightarrow> (\<And>x y. P x \<Longrightarrow> Q y \<Longrightarrow> P (wr y x)) \<Longrightarrow>
     keeps_valid P (in_field rd wr f)"
  unfolding keeps_valid_def in_field_def map_option_eq_Some by blast

lemma decode_over_valid:
  assumes "keeps_valid P f" "P z"
  shows "decode_over f z old vs = Some xs \<Longrightarrow> list_all texts_valid vs \<Longrightarrow> list_all P old \<Longrightarrow> list_all P xs"
proof (induction vs arbitrary: old xs)
  case (Cons v vs)
  have "P (case old of [] \<Rightarrow> z | x # _ \<Rightarrow> x)" using Cons.prems(3) assms(2) by (auto split: list.split)
  moreover have "list_all P (tl old)" using Cons.prems(3) by (cases old) auto
  ultimately show ?case
    using Cons.prems Cons.IH assms(1) by (fastforce split: option.splits dest: keeps_validD)
qed simp

lemma into_slice_valid:
  assumes "keeps_valid P f" "P z"
  shows "keeps_valid (\<lambda>(xs, h). list_all P xs \<and> list_all P h) (into_slice f z)"
proof -
  have "list_all P xs" if "decode_over f z (a @ b) vs = Some xs" "list_all texts_valid vs" "list_all P a" "list_all P b"
    for a b vs xs
    using decode_over_valid [OF assms that(1,2)] that(3,4) by simp
  moreover have "list_all P (drop n xs)" if "list_all P xs" for n xs
    using that by (auto simp: list_all_iff dest: in_set_dropD)
  moreover have "list_all P (drop n (a @ b))" if "list_all P a" "list_all P b" for n a b
    using that by (auto simp: list_all_iff dest: in_set_dropD)
  ultimately show ?thesis
    unfolding keeps_valid_def into_slice_def by (fastforce split: json.splits if_splits)
qed

lemma set_members_valid:
  assumes "\<forall>(n, f) \<in> set known. keeps_valid P f"
  shows "set_members known fs x = Some y \<Longrightarrow> list_all (\<lambda>(k, v). texts_valid v) fs \<Longrightarrow> P x \<Longrightarrow> P y"
proof (induction fs arbitrary: x)
  case (Cons m fs)
  obtain k v where m: "m = (k, v)" by fastforce
  with Cons.prems(1) obtain n f z where f: "find (\<lambda>(n, _). fold_name n = fold_name k) known = Some (n, f)"
      and z: "f v x = Some z" "set_members known fs z = Some y"
    by (auto split: option.splits)
  from assms find_SomeD [OF f] have "keeps_valid P f" by auto
  then have "P z" using Cons.prems m z(1) by (auto dest: keeps_validD)
  with Cons m z(2) show ?case by simp
qed simp

lemma into_struct_valid:
  "\<forall>(n, f) \<in> set known. keeps_valid P f \<Longrightarrow> keeps_valid P (into_struct known)"
  unfolding keeps_valid_def [of P "into_struct known"] into_struct_def
  by (auto split: json.splits dest: set_members_valid)

subsection \<open>Steps read from a text are printable\<close>

definition step_texts :: "step \<Rightarrow> bool" where
  "step_texts s \<longleftrightarrow> utf8_valid (st_id s) \<and> utf8_valid (st_agent s) \<and> utf8_valid (st_prompt s) \<and>
     list_all utf8_valid (st_depends s)"

definition cell_texts :: "step_cell \<Rightarrow> bool" where
  "cell_texts c \<longleftrightarrow> step_texts (fst c) \<and> list_all utf8_valid (snd c)"

definition slice_texts :: "step_cell slice \<Rightarrow> bool" where
  "slice_texts sl \<longleftrightarrow> (case sl of (xs, h) \<Rightarrow> list_all cell_texts xs \<and> list_all cell_texts h)"

lemma step_fields_valid: "\<forall>(n, f) \<in> set step_fields. keeps_valid cell_texts f"
proof -
  note strings = into_slice_valid [OF into_string_valid utf8_valid_Nil]
  have "keeps_valid cell_texts (in_field (\<lambda>(s, h). (st_depends s, h))
      (\<lambda>(xs, h) (s, _). (s\<lparr>st_depends := xs\<rparr>, h)) (into_slice into_string []))"
    by (rule in_field_valid [OF strings]) (auto simp: cell_texts_def step_texts_def)
  moreover have "keeps_valid cell_texts (in_field rd wr into_string)"
    if "\<And>x. cell_texts x \<Longrightarrow> utf8_valid (rd x)" "\<And>x y. cell_texts x \<Longrightarrow> utf8_valid y \<Longrightarrow> cell_texts (wr y x)" for rd wr
    using that by (rule in_field_valid [OF into_string_valid])
  ultimately show ?thesis
    by (auto simp: step_fields_def cell_texts_def step_texts_def)
qed

lemma no_step_texts: "cell_texts (no_step, [])"
  by (simp add: cell_texts_def step_texts_def no_step_def)

lemma into_steps_valid: "keeps_valid slice_texts into_steps"
  unfolding into_steps_def slice_texts_def
  by (rule into_slice_valid [OF into_struct_valid [OF step_fields_valid] no_step_texts])

lemma reply_fields_valid: "\<forall>(n, f) \<in> set reply_fields. keeps_valid (slice_texts \<circ> fst) f"
proof -
  have "keeps_valid (slice_texts \<circ> fst) (in_field fst (\<lambda>x. apfst (\<lambda>_. x)) into_steps :: reply_cell setter)"
    by (rule in_field_valid [OF into_steps_valid]) auto
  moreover have "keeps_valid (slice_texts \<circ> fst) (in_field snd (\<lambda>x. apsnd (\<lambda>_. x)) into_string :: reply_cell setter)"
    by (auto simp: keeps_valid_def in_field_def)
  ultimately show ?thesis by (simp add: reply_fields_def)
qed

lemma decode_reply_valid:
  assumes "decode_reply text = Some ((raw, q), r)"
  shows "list_all step_texts raw"
proof -
  obtain v cell where v: "parse_value (parse_fuel text) max_nesting text = Some (v, r)"
      and cell: "into_struct reply_fields v (([], []), []) = Some cell" and raw: "raw = map fst (fst (fst cell))"
    using assms by (auto simp: decode_reply_def decode_first_def split: option.splits)
  have "texts_valid v" using parse_texts_valid v by blast
  from keeps_validD [OF into_struct_valid [OF reply_fields_valid] this _ cell]
  have "slice_texts (fst cell)" by (simp add: slice_texts_def)
  then show ?thesis by (auto simp: raw slice_texts_def cell_texts_def list_all_iff split: prod.splits)
qed

subsection \<open>A printed plan decodes to its steps\<close>

lemma decode_strings_over: "decode_over into_string z [] (map JStr xs) = Some xs"
  by (induction xs) (simp_all add: into_string_def)

lemma into_step_json: "into_struct step_fields (step_json s) (no_step, []) = Some (s, [])"
  by (cases s)
    (simp add: step_json_def into_struct_def step_fields_def in_field_def into_string_def into_slice_def
      decode_strings_over no_step_def in_range_def)

lemma decode_steps_over:
  "decode_over (into_struct step_fields) (no_step, []) [] (map step_json ss) = Some (map (\<lambda>s. (s, [])) ss)"
  by (induction ss) (simp_all add: into_step_json)

lemma into_plan_json: "into_struct plan_fields (plan_json ss) ([], []) = Some (map (\<lambda>s. (s, [])) ss, [])"
  by (simp add: plan_json_def into_struct_def plan_fields_def into_steps_def into_slice_def
      decode_steps_over in_range_def)

lemma plan_json_printable: "list_all step_texts ss \<Longrightarrow> printable (plan_json ss)"
  by (auto simp: plan_json_def step_json_def step_texts_def list_all_iff utf8_valid_ascii in_range_def)

lemma plan_json_nesting: "nesting (plan_json ss) \<le> 4"
proof -
  have deps: "fold max (map nesting (map JStr xs)) 0 = 0" for xs
    using fold_max_le [of "map nesting (map JStr xs)" 0 0] by simp
  have "nesting (step_json s) \<le> 2" for s
    by (simp add: step_json_def deps del: map_map)
  then have "fold max (map nesting (map step_json ss)) 0 \<le> 2"
    by (auto simp: fold_max_le)
  then show ?thesis by (simp add: plan_json_def del: map_map)
qed

lemma parse_printed_plan:
  assumes "list_all step_texts ss"
  shows "parse_value (parse_fuel (json_marshal (plan_json ss))) max_nesting (json_marshal (plan_json ss)) =
     Some (plan_json ss, [])"
proof -
  let ?t = "json_marshal (plan_json ss)"
  have "nesting (plan_json ss) \<le> max_nesting"
    using plan_json_nesting [of ss] by (simp add: max_nesting_def)
  with reads_backD [OF marshal_reads_back [OF plan_json_printable [OF assms]], of max_nesting "[]" "parse_fuel ?t"]
  show ?thesis by (simp add: parse_fuel_def)
qed

lemma decode_printed_plan:
  assumes "list_all step_texts ss"
  shows "decode_plan (json_marshal (plan_json ss)) = Some (ss, [])"
  by (simp add: decode_plan_def decode_first_def into_plan_json comp_def parse_printed_plan [OF assms])

lemma decode_printed_reply:
  assumes "list_all step_texts ss"
  shows "decode_reply (json_marshal (plan_json ss)) = Some ((ss, []), [])"
proof -
  have "into_struct reply_fields (plan_json ss) (([], []), []) = Some ((map (\<lambda>s. (s, [])) ss, []), [])"
    by (simp add: plan_json_def into_struct_def reply_fields_def in_field_def into_steps_def into_slice_def
        decode_steps_over in_range_def)
  then show ?thesis
    by (simp add: decode_reply_def decode_first_def parse_printed_plan [OF assms] comp_def)
qed

text \<open>A text from a byte that starts no space to one that ends none is trimmed already.\<close>

lemma trimmed:
  assumes "c \<in> {CHR ''{'', CHR ''/''}"
  shows "trim_space (c # s @ ''}'') = c # s @ ''}''"
proof -
  have "trim_with go_spaces (c # s @ ''}'') = c # s @ ''}''"
  proof (rule trim_with_id)
    from assms have "c = CHR ''{'' \<or> c = CHR ''/''" by simp
    then show "find (\<lambda>p. p \<noteq> [] \<and> prefix p (c # s @ ''}'')) go_spaces = None"
      by (elim disjE) (simp_all add: go_spaces_def)
  qed
  moreover have "trim_with (map rev go_spaces) (CHR ''}'' # t) = CHR ''}'' # t" for t
    by (rule trim_with_id) (simp add: go_spaces_def)
  ultimately show ?thesis by (simp add: trim_space_def)
qed

lemma Plan_printed:
  assumes "list_all step_texts ss"
  shows "Plan c (team_word @ '' '' @ json_marshal (plan_json ss)) =
     (if length (json_marshal (plan_json ss)) > 65530 then Inl ErrPlanLong
      else rbind (schedule c ss) (\<lambda>ps. Inr (no_plan\<lparr>xp_explicit := True, xp_steps := ps\<rparr>)))"
proof -
  let ?j = "json_marshal (plan_json ss)"
  obtain m where j: "?j = CHR ''{'' # m @ ''}''" by (simp add: plan_json_def)
  have s: "trim_space (team_word @ '' '' @ ?j) = team_word @ '' '' @ ?j"
    using trimmed [of "CHR ''/''" "''team '' @ ''{'' @ m"] by (simp add: j team_word_def)
  have goal: "trim_space (TrimPrefix (team_word @ '' '' @ ?j) team_word) = ?j"
  proof -
    have "TrimPrefix (team_word @ '' '' @ ?j) team_word = CHR '' '' # ?j"
      by (simp add: TrimPrefix_def team_word_def)
    moreover have "trim_with go_spaces (CHR '' '' # ?j) = trim_with go_spaces ?j"
      by (subst trim_with.simps) (simp add: go_spaces_def)
    ultimately have "trim_space (TrimPrefix (team_word @ '' '' @ ?j) team_word) = trim_space ?j"
      by (simp add: trim_space_def)
    with trimmed [of "CHR ''{''" m] show ?thesis by (simp add: j)
  qed
  have "team_command (team_word @ '' '' @ ?j)" by (simp add: team_command_def team_word_def)
  moreover have "prefix ''{'' ?j" by (simp add: j)
  ultimately show ?thesis
    unfolding Plan_def s Let_def goal decode_printed_plan [OF assms]
    by (simp add: only_space_def skip_ws_def team_word_def)
qed

subsection \<open>Examples\<close>

definition demo_team :: agent_config where
  "demo_team = Default_config\<lparr>ac_members := ac_members Default_config @
     [no_member\<lparr>wm_id := ''reviewer'', wm_name := ''R'', wm_provider := ''cursor''\<rparr>]\<rparr>"

definition demo_steps :: "step list" where
  "demo_steps =
     [\<lparr>st_id = ''review'', st_agent = ''reviewer'', st_prompt = ''check it'', st_depends = [''build'']\<rparr>,
      \<lparr>st_id = ''build'', st_agent = ''codex'', st_prompt = ''do it'', st_depends = []\<rparr>]"

definition demo_planned :: "planned_step list" where
  "demo_planned = map (\<lambda>s. \<lparr>ps_step = s, ps_member = member_at (member_map demo_team) (st_agent s)\<rparr>) (rev demo_steps)"

lemma demo_step_texts: "list_all step_texts demo_steps"
  by (simp add: demo_steps_def step_texts_def utf8_valid_ascii in_range_def)

lemma demo_length: "length (json_marshal (plan_json demo_steps)) \<le> 65530"
  by (simp add: demo_steps_def plan_json_def step_json_def json_quote_def json_escape.simps escape_byte_def in_range_def)

lemma demo_trim: "trim_space ''check it'' \<noteq> [] \<and> trim_space ''do it'' \<noteq> []"
  by code_simp

lemma demo_schedule: "schedule demo_team demo_steps = Inr demo_planned"
  using demo_trim
  by (simp add: schedule_def demo_steps_def demo_team_def demo_planned_def Default_config_def no_member_def member_map_def
      validID_def id_char_def in_range_def step_at_def no_step_def order_steps.simps ready_def member_at_def)

subsection \<open>Properties\<close>

text \<open>
  C29. An accepted explicit plan runs every step the message authored exactly once. Each step is
  given to the member it names, comes after every step it depends on, and is the first step of
  the authored list that was ready when it was placed.
\<close>

theorem planned_order:
  assumes "Plan c text = Inr p" "xp_explicit p"
  shows "\<exists>raw r. decode_plan (trim_space (TrimPrefix (trim_space text) team_word)) = Some (raw, r) \<and>
     mset (map ps_step (xp_steps p)) = mset raw \<and> first_ready (member_map c) raw (xp_steps p) \<and>
     (\<forall>i < length (xp_steps p).
        ps_member (xp_steps p ! i) \<in> set (ac_members c) \<and>
        wm_id (ps_member (xp_steps p ! i)) = st_agent (ps_step (xp_steps p ! i)) \<and>
        (\<forall>d \<in> set (st_depends (ps_step (xp_steps p ! i))). \<exists>j < i. st_id (ps_step (xp_steps p ! j)) = d))"
proof -
  obtain raw r where raw: "decode_plan (trim_space (TrimPrefix (trim_space text) team_word)) = Some (raw, r)"
      and sched: "schedule c raw = Inr (xp_steps p)"
    using assms
    by (auto simp: Plan_def Let_def rbind_Inr no_plan_def direct_plan_def split: if_splits option.splits sum.splits)
  from sched have ok: "plan_ok c raw" and order: "order_steps (member_map c) raw (\<lambda>_. False) [] = Inr (xp_steps p)"
    by (simp_all add: schedule_Inr)
  have "first_ready (member_map c) raw (xp_steps p) \<and>
      placing raw (\<lambda>k. k \<in> set (placed_ids (xp_steps p))) (xp_steps p) \<and> length (xp_steps p) = length raw"
    using order by (rule order_steps_Inr) (simp_all add: placing_def placed_ids_def first_ready_def)
  then have ready: "first_ready (member_map c) raw (xp_steps p)" and all: "mset (map ps_step (xp_steps p)) = mset raw"
    using placed_all ok by (auto simp: plan_ok_def)
  have "ps_member (xp_steps p ! i) \<in> set (ac_members c) \<and>
      wm_id (ps_member (xp_steps p ! i)) = st_agent (ps_step (xp_steps p ! i))" if i: "i < length (xp_steps p)" for i
  proof -
    have "ps_step (xp_steps p ! i) \<in> set raw"
      using i mset_eq_setD [OF all] by force
    with ok have "st_agent (ps_step (xp_steps p ! i)) \<in> wm_id ` set (ac_members c)"
      by (auto simp: plan_ok_def step_ok_def)
    then obtain m where m: "member_map c (st_agent (ps_step (xp_steps p ! i))) = Some m"
      using member_map_None by fastforce
    with ready i have "ps_member (xp_steps p ! i) = m" by (simp add: first_ready_def member_at_def)
    with member_map_Some [OF m] show ?thesis by simp
  qed
  moreover have "\<exists>j < i. st_id (ps_step (xp_steps p ! j)) = d"
    if "i < length (xp_steps p)" "d \<in> set (st_depends (ps_step (xp_steps p ! i)))" for i d
    using placed_before [OF ready that] by blast
  ultimately show ?thesis using raw ready all by blast
qed

text \<open>
  C30. The ordering loop ends, and it ends with every step placed exactly when the plan passes the
  checks and its dependencies have no cycle; a plan that passes the checks is otherwise refused
  as cyclic.
\<close>

theorem plan_accepted_iff:
  "((\<exists>ps. schedule c raw = Inr ps) \<longleftrightarrow> plan_ok c raw \<and> acyclic (waits_for raw)) \<and>
   (schedule c raw = Inl ErrStepCycle \<longleftrightarrow> plan_ok c raw \<and> \<not> acyclic (waits_for raw))"
proof -
  let ?order = "order_steps (member_map c) raw (\<lambda>_. False) []"
  have start: "placing raw (\<lambda>_. False) []" "first_ready (member_map c) raw []"
    by (simp_all add: placing_def placed_ids_def first_ready_def)
  have ordered: "acyclic (waits_for raw)" if "?order = Inr ps" "plan_ok c raw" for ps
    using order_steps_Inr [OF that(1) start] ordered_acyclic [of "member_map c" raw ps] that(2)
    by (auto simp: plan_ok_def)
  have cyclic: "e = ErrStepCycle \<and> \<not> acyclic (waits_for raw)" if "?order = Inl e" "plan_ok c raw" for e
    using that by (intro order_steps_Inl [OF that(1) start(1)]) (auto simp: plan_ok_def)
  show ?thesis
    using ordered cyclic schedule_Inr [of c raw] schedule_cycle [of c raw] by (cases ?order) auto
qed

text \<open>
  C31. The check of a plan the model wrote prints the decoded steps and reads them again as an
  explicit plan; for a reply that asks for no clarification and whose steps print to at most
  65,530 bytes, that is the validation and ordering of exactly the decoded steps.
\<close>

theorem inferred_plan_exact:
  assumes "decode_reply text = Some ((raw, []), r)" "only_space r" "length text \<le> 65536"
    "length (json_marshal (plan_json raw)) \<le> 65530"
  shows "validateInferredPlan c text =
     (case schedule c raw of
        Inl e \<Rightarrow> Inl (ErrInferred e)
      | Inr ps \<Rightarrow> Inr (no_plan\<lparr>xp_explicit := True, xp_steps := ps\<rparr>))"
  using assms Plan_printed [OF decode_reply_valid [OF assms(1)], of c]
  by (cases "schedule c raw") (simp_all add: validateInferredPlan_def)

lemma planned_order_witness:
  "\<exists>raw r. decode_plan (trim_space (TrimPrefix (trim_space (team_word @ '' '' @ json_marshal (plan_json demo_steps))) team_word))
       = Some (raw, r) \<and> mset (map ps_step demo_planned) = mset raw"
  using planned_order [of demo_team "team_word @ '' '' @ json_marshal (plan_json demo_steps)"
      "no_plan\<lparr>xp_explicit := True, xp_steps := demo_planned\<rparr>"]
    Plan_printed [OF demo_step_texts, of demo_team] demo_length
  by (auto simp: demo_schedule)

lemma inferred_plan_exact_witness:
  "validateInferredPlan demo_team (json_marshal (plan_json demo_steps)) =
     Inr (no_plan\<lparr>xp_explicit := True, xp_steps := demo_planned\<rparr>)"
  using inferred_plan_exact [of "json_marshal (plan_json demo_steps)" demo_steps "[]" demo_team]
    demo_length decode_printed_reply [OF demo_step_texts]
  by (simp add: demo_schedule only_space_def skip_ws_def)

end
