(* ===== verification/Workgroup_Roster.thy ===== *)
theory Workgroup_Roster
  imports Workgroup_Config Client_Requests
begin

text \<open>
  What a validated directory of agents satisfies, which members the tokens of a message select,
  and what the built-in default leaves in a directory read from a file.
\<close>

subsection \<open>Validated directories\<close>

text \<open>A stable id: a lower case letter, then up to 31 letters, digits, underscores, dots and hyphens.\<close>

definition stable_id :: "string \<Rightarrow> bool" where
  "stable_id s \<longleftrightarrow>
     (\<exists>c t. s = c # t \<and> length t \<le> 31 \<and> c \<in> set ''abcdefghijklmnopqrstuvwxyz'' \<and>
        set t \<subseteq> set ''abcdefghijklmnopqrstuvwxyz0123456789_.-'')"

text \<open>A member: its identity, its texts and time limit (two hours at most), and the command of its provider.\<close>

definition member_ok :: "work_member \<Rightarrow> bool" where
  "member_ok m \<longleftrightarrow> stable_id (wm_id m) \<and> trim_space (wm_name m) \<noteq> [] \<and> length (wm_name m) \<le> 120 \<and>
     length (wm_description m) \<le> 500 \<and> length (wm_instructions m) \<le> 8000 \<and> wm_timeout m \<in> {0..7200} \<and>
     (if wm_provider m = ''codex'' then wm_command m = []
      else if wm_provider m \<in> {''cursor'', ''claude-code''} then
        wm_mode m \<in> {[], ''review'', ''work''} \<and>
        (wm_command m = [] \<or> (\<exists>p. wm_command m = [p] \<and> prefix ''/'' p))
      else if wm_provider m = ''exec'' then
        (\<exists>p args. wm_command m = p # args \<and> prefix ''/'' p \<and> length args \<le> 31)
      else stable_id (wm_provider m))"

definition config_ok :: "agent_config \<Rightarrow> bool" where
  "config_ok c \<longleftrightarrow> ac_version c = 1 \<and> length (ac_members c) \<in> {1..16} \<and>
     distinct (map wm_id (ac_members c)) \<and> list_all member_ok (ac_members c) \<and>
     (\<exists>m \<in> set (ac_members c). wm_id m = ''codex'' \<and> wm_provider m = ''codex'')"

lemma in_range_chars: "hi < 256 \<Longrightarrow> in_range lo hi c \<longleftrightarrow> c \<in> set (map char_of [lo..<Suc hi])"
proof -
  assume hi: "hi < 256"
  show ?thesis
  proof
    assume "in_range lo hi c"
    then have "byte_val c \<in> set [lo..<Suc hi]" by (simp add: in_range_def less_Suc_eq_le del: upt_Suc)
    then have "char_of (byte_val c) \<in> char_of ` set [lo..<Suc hi]" by (rule imageI)
    then show "c \<in> set (map char_of [lo..<Suc hi])" by (simp only: char_of_char set_map)
  next
    assume "c \<in> set (map char_of [lo..<Suc hi])"
    then obtain n :: nat where n: "n \<in> set [lo..<Suc hi]" "c = char_of n" by (auto simp del: upt_Suc)
    then have "byte_val c = n mod 256" by simp
    with n(1) hi show "in_range lo hi c" by (simp add: in_range_def less_Suc_eq_le del: upt_Suc)
  qed
qed

lemma id_letters:
  "map char_of [97..<Suc 122] = ''abcdefghijklmnopqrstuvwxyz''" "map char_of [48..<Suc 57] = ''0123456789''"
  by code_simp+

lemma id_sets:
  "in_range 97 122 c \<longleftrightarrow> c \<in> set ''abcdefghijklmnopqrstuvwxyz''"
  "id_char c \<longleftrightarrow> c \<in> set ''abcdefghijklmnopqrstuvwxyz0123456789_.-''"
proof -
  show letters: "in_range 97 122 c \<longleftrightarrow> c \<in> set ''abcdefghijklmnopqrstuvwxyz''"
    using in_range_chars [of 122 97 c] unfolding id_letters by simp
  have "in_range 48 57 c \<longleftrightarrow> c \<in> set ''0123456789''"
    using in_range_chars [of 57 48 c] unfolding id_letters by simp
  with letters show "id_char c \<longleftrightarrow> c \<in> set ''abcdefghijklmnopqrstuvwxyz0123456789_.-''"
    unfolding id_char_def by (simp add: disj_assoc)
qed

lemma validID_stable: "validID s \<longleftrightarrow> stable_id s"
proof (cases s)
  case (Cons c t)
  then show ?thesis
    unfolding validID_def stable_id_def id_sets list_all_iff subset_iff by (simp del: list.set insert_iff) blast
qed (simp add: validID_def stable_id_def)

lemma check_provider_None: "member_fields_ok m \<and> check_provider m = None \<longleftrightarrow> member_ok m"
  by (cases "wm_command m"; cases "tl (wm_command m)")
    (auto simp: check_provider_def member_ok_def member_fields_ok_def validID_stable)

lemma check_members_Inr:
  "check_members ms seen b = Inr b' \<longleftrightarrow>
     list_all member_ok ms \<and> distinct (map wm_id ms) \<and> set (map wm_id ms) \<inter> set seen = {} \<and>
     b' = (case find (\<lambda>m. wm_id m = ''codex'') ms of None \<Rightarrow> b | Some m \<Rightarrow> wm_provider m = ''codex'')"
proof (induction ms seen b rule: check_members.induct)
  case (2 m ms seen b)
  have later: "find (\<lambda>m. wm_id m = ''codex'') ms = None" if "wm_id m \<notin> wm_id ` set ms" "wm_id m = ''codex''"
    using that by (auto simp: find_None_iff image_iff)
  show ?case
  proof (cases "member_ok m \<and> wm_id m \<notin> set seen")
    case True
    with check_provider_None [of m] 2 later show ?thesis by auto
  next
    case False
    with check_provider_None [of m] show ?thesis by (auto split: option.splits)
  qed
qed auto

lemma builtin_member:
  "distinct (map wm_id ms) \<Longrightarrow>
     (case find (\<lambda>m. wm_id m = ''codex'') ms of None \<Rightarrow> False | Some m \<Rightarrow> wm_provider m = ''codex'') \<longleftrightarrow>
     (\<exists>m \<in> set ms. wm_id m = ''codex'' \<and> wm_provider m = ''codex'')"
proof (induction ms)
  case (Cons m ms)
  show ?case
  proof (cases "wm_id m = ''codex''")
    case True
    with Cons.prems have "''codex'' \<notin> wm_id ` set ms" by simp
    then have "wm_id m' \<noteq> ''codex''" if "m' \<in> set ms" for m'
      using that by force
    with True show ?thesis by auto
  qed (use Cons in simp)
qed simp

text \<open>
  C32. A directory of agents passes validation exactly when it has version 1 and one to sixteen
  members with distinct valid ids, names, texts and time limits within bounds and commands that
  fit their provider, and one of them is the built-in codex member.
\<close>

theorem validated_config: "Validate_config c = None \<longleftrightarrow> config_ok c"
proof -
  let ?ms = "ac_members c"
  have size: "Validate_config c = None \<longleftrightarrow>
      ac_version c = 1 \<and> length ?ms \<in> {1..16} \<and> check_members ?ms [] False = Inr True"
    by (cases "check_members ?ms [] False") (auto simp: Validate_config_def not_less Suc_le_eq)
  have "check_members ?ms [] False = Inr True \<longleftrightarrow> list_all member_ok ?ms \<and> distinct (map wm_id ?ms) \<and>
      (case find (\<lambda>m. wm_id m = ''codex'') ?ms of None \<Rightarrow> False | Some m \<Rightarrow> wm_provider m = ''codex'')"
    by (simp add: check_members_Inr)
  then show ?thesis
    unfolding size config_ok_def using builtin_member [of ?ms] by blast
qed

subsection \<open>What the default leaves in a file\<close>

text \<open>
  The file is decoded over the built-in default, and the decoder does not clear the element it
  writes over: the first member of the file keeps the default's name, provider and time limit
  where it does not give its own.
\<close>

definition sparse_file :: json where
  "sparse_file = JObj [(''members'', JArr [JObj [(''id'', JStr ''helper'')], JObj [(''id'', JStr ''codex''),
     (''name'', JStr ''C''), (''provider'', JStr ''codex'')]])]"

lemma first_member_inherits:
  "Load_config (Found_file True (json_marshal sparse_file)) =
     Inr \<lparr>ac_version = 1, ac_members =
       [no_member\<lparr>wm_id := ''helper'', wm_name := ''Codex Agent'', wm_provider := ''codex'', wm_timeout := 1800\<rparr>,
        no_member\<lparr>wm_id := ''codex'', wm_name := ''C'', wm_provider := ''codex''\<rparr>]\<rparr>"
proof -
  let ?t = "json_marshal sparse_file"
  have "printable sparse_file" by (simp add: sparse_file_def utf8_valid_ascii in_range_def)
  moreover have "nesting sparse_file \<le> max_nesting" by (simp add: sparse_file_def max_nesting_def)
  ultimately have parse: "parse_value (parse_fuel ?t) max_nesting ?t = Some (sparse_file, [])"
    using reads_backD [OF marshal_reads_back, of sparse_file max_nesting "[]" "parse_fuel ?t"]
    by (simp add: parse_fuel_def)
  have len: "length ?t \<le> 65536"
    by (simp add: sparse_file_def json_quote_def json_escape.simps escape_byte_def in_range_def)
  have names: "trim_space ''Codex Agent'' \<noteq> []" "trim_space ''C'' \<noteq> []" by code_simp+
  have cell: "into_struct config_fields sparse_file (config_cell Default_config) =
      Some (1, [(no_member\<lparr>wm_id := ''helper'', wm_name := ''Codex Agent'', wm_provider := ''codex'', wm_timeout := 1800\<rparr>, []),
        (no_member\<lparr>wm_id := ''codex'', wm_name := ''C'', wm_provider := ''codex''\<rparr>, [])], [])"
    by (simp add: sparse_file_def into_struct_def config_fields_def in_field_def into_slice_def member_fields_def
        config_cell_def Default_config_def into_string_def no_member_def in_range_def)
  show ?thesis
    using len names
    by (simp add: Load_config_def decode_first_def parse cell only_space_def skip_ws_def cell_config_def
        Validate_config_def member_fields_ok_def check_provider_def validID_def id_char_def in_range_def no_member_def)
qed

end
