(* ===== verification/Workspace.thy ===== *)
theory Workspace
  imports Client_Text "HOL-Library.AList" "HOL-Library.List_Lexorder" "HOL-Library.Char_ord"
begin

text \<open>
  Copies of the project that travel to remote workers (\<^verbatim>\<open>internal/workgroup/workspace.go\<close>): which
  paths may travel, snapshots and their validation, the difference of two snapshots and its
  application to a base. A Go map is an association list; strings are compared byte by byte,
  which is the lexicographic order of lists of characters. Reading and writing the disk is not
  modelled.
\<close>

definition WorkspaceLimit :: nat where
  "WorkspaceLimit = 33554432"

definition WorkspaceFileLimit :: nat where
  "WorkspaceFileLimit = 10000"

record workspace_file =
  wf_path :: string
  wf_data :: bytes
  wf_executable :: bool

type_synonym snapshot_files = "workspace_file list"

record workspace_change =
  wc_file :: workspace_file
  wc_before :: string
  wc_delete :: bool

datatype workspace_error =
    ErrTooManyFiles | ErrInvalidFile string | ErrPathConflict
  | ErrTooManyChanges | ErrInvalidChange string | ErrStaleBase string | ErrInvalidDelete string

subsection \<open>Paths\<close>

text \<open>\<^verbatim>\<open>strings.Split(p, "/")\<close>.\<close>

fun split_slash :: "string \<Rightarrow> string list" where
  "split_slash [] = [[]]"
| "split_slash (c # s) =
     (if c = CHR ''/'' then [] # split_slash s
      else (case split_slash s of [] \<Rightarrow> [[c]] | p # ps \<Rightarrow> (c # p) # ps))"

text \<open>\<^verbatim>\<open>fs.ValidPath\<close>.\<close>

definition fs_valid_path :: "string \<Rightarrow> bool" where
  "fs_valid_path p \<longleftrightarrow> utf8_valid p \<and>
     (p = ''.'' \<or> list_all (\<lambda>e. e \<notin> {[], ''.'', ''..''}) (split_slash p))"

definition private_parts :: "string list" where
  "private_parts = [''.git'', ''.agent_room'', ''node_modules'', ''.ssh'', ''.aws'', ''.npmrc'', ''.env'', ''__pycache__'']"

definition workspacePath :: "string \<Rightarrow> bool" where
  "workspacePath p \<longleftrightarrow>
     \<not> (p = [] \<or> \<not> fs_valid_path p \<or> CHR 0x5C \<in> set p \<or> list_ex (\<lambda>c. c \<in> {CHR 0x00, CHR 0x0D, CHR 0x0A}) p) \<and>
     list_all (\<lambda>part. part \<notin> set private_parts \<and> \<not> prefix ''.env.'' part) (split_slash p)"

definition fileHash :: "workspace_file \<Rightarrow> string" where
  "fileHash f = hex_encode (sha256 (wf_data f @ (if wf_executable f then [CHR 0x01] else [CHR 0x00])))"

subsection \<open>Snapshots\<close>

fun check_files :: "workspace_file list \<Rightarrow> nat \<Rightarrow> string list \<Rightarrow> workspace_error option" where
  "check_files [] amount seen = None"
| "check_files (f # fs) amount seen =
     (if \<not> workspacePath (wf_path f) \<or> wf_path f \<in> set seen \<or> amount + length (wf_data f) > WorkspaceLimit
      then Some (ErrInvalidFile (wf_path f))
      else check_files fs (amount + length (wf_data f)) (wf_path f # seen))"

text \<open>
  The loop over \<^verbatim>\<open>filepath.Dir\<close> of a valid path, which ends at the root: the parts before the
  last, innermost first, give each parent in turn.
\<close>

fun parent_taken :: "string list \<Rightarrow> string list \<Rightarrow> bool" where
  "parent_taken seen [] \<longleftrightarrow> False"
| "parent_taken seen (part # parts) \<longleftrightarrow>
     join_with ''/'' (rev (part # parts)) \<in> set seen \<or> parent_taken seen parts"

definition ValidateSnapshot :: "snapshot_files \<Rightarrow> workspace_error option" where
  "ValidateSnapshot fs =
     (if length fs > WorkspaceFileLimit then Some ErrTooManyFiles
      else (case check_files fs 0 [] of
         Some e \<Rightarrow> Some e
       | None \<Rightarrow>
           if list_ex (\<lambda>f. parent_taken (map wf_path fs) (rev (butlast (split_slash (wf_path f))))) fs
           then Some ErrPathConflict else None))"

subsection \<open>Differences\<close>

definition files_by_path :: "snapshot_files \<Rightarrow> (string \<times> workspace_file) list" where
  "files_by_path fs = foldl (\<lambda>M f. AList.update (wf_path f) f M) [] fs"

fun diff_files :: "(string \<times> workspace_file) list \<Rightarrow> snapshot_files
    \<Rightarrow> workspace_change list \<times> (string \<times> workspace_file) list" where
  "diff_files before [] = ([], before)"
| "diff_files before (f # fs) =
     (let change = (case map_of before (wf_path f) of
            None \<Rightarrow> [\<lparr>wc_file = f, wc_before = [], wc_delete = False\<rparr>]
          | Some old \<Rightarrow>
              if fileHash old \<noteq> fileHash f then [\<lparr>wc_file = f, wc_before = fileHash old, wc_delete = False\<rparr>] else []);
          rest = diff_files (AList.delete (wf_path f) before) fs in
      (change @ fst rest, snd rest))"

definition deletion :: "workspace_file \<Rightarrow> workspace_change" where
  "deletion f = \<lparr>wc_file = \<lparr>wf_path = wf_path f, wf_data = [], wf_executable = False\<rparr>,
     wc_before = fileHash f, wc_delete = True\<rparr>"

definition WorkspaceDiff :: "snapshot_files \<Rightarrow> snapshot_files \<Rightarrow> workspace_change list" where
  "WorkspaceDiff base after =
     (let d = diff_files (files_by_path base) after in
      sort_key (\<lambda>c. wf_path (wc_file c)) (fst d @ map (deletion \<circ> snd) (snd d)))"

fun apply_changes :: "workspace_change list \<Rightarrow> string list \<Rightarrow> (string \<times> workspace_file) list
    \<Rightarrow> workspace_error + (string \<times> workspace_file) list" where
  "apply_changes [] seen files = Inr files"
| "apply_changes (c # cs) seen files =
     (let p = wf_path (wc_file c); old = map_of files p;
          hash = (case old of None \<Rightarrow> [] | Some f \<Rightarrow> fileHash f) in
      if \<not> workspacePath p \<or> p \<in> set seen then Inl (ErrInvalidChange p)
      else if hash \<noteq> wc_before c then Inl (ErrStaleBase p)
      else if wc_delete c then
        (if old = None \<or> length (wf_data (wc_file c)) > 0 then Inl (ErrInvalidDelete p)
         else apply_changes cs (p # seen) (AList.delete p files))
      else apply_changes cs (p # seen) (AList.update p (wc_file c) files))"

definition ApplyWorkspaceChanges :: "snapshot_files \<Rightarrow> workspace_change list \<Rightarrow> workspace_error + snapshot_files" where
  "ApplyWorkspaceChanges base changes =
     (if length changes > WorkspaceFileLimit then Inl ErrTooManyChanges
      else rbind (apply_changes changes [] (files_by_path base)) (\<lambda>files.
        let out = sort_key wf_path (map snd files) in
        case ValidateSnapshot out of Some e \<Rightarrow> Inl e | None \<Rightarrow> Inr out))"

end
