(* ===== verification/Remote_Worker.thy ===== *)
theory Remote_Worker
  imports Workgroup_Config Workspace
begin

text \<open>
  Workers that run on a member's own machine (\<^verbatim>\<open>internal/workgroup/remote.go\<close>): invitations with a
  lease, polling, health and results in \<^verbatim>\<open>HandleMember\<close>, and the part \<^verbatim>\<open>Run\<close> plays for the Host, one
  operation per critical section. The clock is an argument; a worker's address stands for the
  pointer the code compares; the one-place channel of a job is an optional result. Steps written
  in the order the code has them; the Chinese texts are their UTF-8 bytes.
\<close>

record work_result =
  re_workspace_path :: string
  re_changes :: "workspace_change list"
  re_step_id :: string
  re_agent_id :: string
  re_text :: bytes

record assignment =
  as_workspace :: "snapshot_files option"
  as_step_id :: string
  as_step_prompt :: bytes
  as_depends :: "string list"
  as_version :: int
  as_id :: string
  as_agent_id :: string
  as_human_uid :: nat
  as_project_root :: string
  as_task_id :: int
  as_human_prompt :: bytes
  as_prompt :: bytes
  as_instructions :: bytes
  as_prior :: "work_result list"

record worker_request =
  wq_healthy :: bool
  wq_agent_name :: string
  wq_scope :: string
  wq_changes :: "workspace_change list"
  wq_action :: string
  wq_id :: string
  wq_provider :: string
  wq_mode :: string
  wq_job_id :: string
  wq_text :: bytes
  wq_failed :: bool

record worker_reply =
  wy_name :: string
  wy_id :: string
  wy_state :: string
  wy_job_id :: string
  wy_assignment :: "assignment option"
  wy_cancel :: bool

record remote_job =
  rj_id :: string
  rj_assignment :: assignment
  rj_claimed :: bool
  rj_cancel :: bool
  rj_waiting :: "work_result option"
  rj_failed :: bool
  rj_received :: bool

record remote_worker =
  rw_healthy_until :: instant
  rw_healthy :: bool
  rw_scope :: string
  rw_invitation :: string
  rw_uid :: uid
  rw_member :: work_member
  rw_lease :: instant
  rw_job :: "remote_job option"
  rw_address :: nat

record remote_broker =
  rb_root :: string
  rb_workers :: "(string \<times> remote_worker) list"
  rb_next :: nat

datatype worker_error =
    ErrWorkerScope | ErrHostUnsupported | ErrInvitation | ErrAgentName | ErrWorkerName
  | ErrInvitationConflict | ErrStaleInvitation | ErrWorkersFull | ErrNotOwner | ErrLeaseExpired
  | ErrNoChanges | ErrUnknownReceipt | ErrResultReceived | ErrInvalidResult | ErrWorkerAction
  | ErrWorkerOffline | ErrWorkerFailed | ErrWorkerGone | ErrWorkUnknown | ErrWorkStopped
  | ErrReadOnlyChanges | ErrPriorConflict string | ErrWorkspace workspace_error | ErrHostDisk | ErrWorkerRandom

definition second :: instant where
  "second = 1000000000"

definition maxOutput :: nat where
  "maxOutput = 65536"

definition no_reply :: worker_reply where
  "no_reply = \<lparr>wy_name = [], wy_id = [], wy_state = [], wy_job_id = [], wy_assignment = None, wy_cancel = False\<rparr>"

definition find_worker :: "string \<Rightarrow> remote_broker \<Rightarrow> remote_worker option" where
  "find_worker i b = map_of (rb_workers b) i"

definition put_worker :: "string \<Rightarrow> remote_worker \<Rightarrow> remote_broker \<Rightarrow> remote_broker" where
  "put_worker i w b = b\<lparr>rb_workers := AList.update i w (rb_workers b)\<rparr>"

definition NewRemoteBroker :: remote_broker where
  "NewRemoteBroker = \<lparr>rb_root = [], rb_workers = [], rb_next = 0\<rparr>"

definition NewProjectRemoteBroker :: "string \<Rightarrow> remote_broker" where
  "NewProjectRemoteBroker root = NewRemoteBroker\<lparr>rb_root := root\<rparr>"

definition RemoteMembers :: "instant \<Rightarrow> remote_broker \<Rightarrow> work_member list" where
  "RemoteMembers now b =
     sort_key wm_id (map (rw_member \<circ> snd)
       (filter (\<lambda>(i, w). rw_healthy w \<and> now < rw_healthy_until w \<and> now < rw_lease w) (rb_workers b)))"

subsection \<open>Invitations\<close>

definition default_agent_name :: "string \<Rightarrow> string" where
  "default_agent_name provider =
     (if provider = ''codex'' then ''Codex''
      else if provider = ''cursor'' then ''Cursor''
      else if provider = ''claude-code'' then ''Claude Code''
      else [])"

definition AgentName :: "string \<Rightarrow> string \<Rightarrow> worker_error + string" where
  "AgentName provider given_name =
     (let trimmed = trim_space given_name;
          name = (if trimmed = [] then default_agent_name provider else trimmed) in
      if name = [] \<or> \<not> utf8_valid name \<or> length (runes name) > 40
         \<or> list_ex (\<lambda>r. is_control_rune r \<or> is_format_rune r) (runes name)
      then Inl ErrAgentName else Inr name)"

definition member_word :: bytes where
  "member_word = map char_of [230, 136, 144, 229, 145, 152 :: nat]"

definition worker_name :: "uid \<Rightarrow> string \<Rightarrow> string \<Rightarrow> string" where
  "worker_name u owner_name agent_name =
     (let n = trim_space owner_name in
      (if n = [] then member_word @ show_nat u else n) @ ''-'' @ agent_name)"

definition worker_id :: "uid \<Rightarrow> string \<Rightarrow> string" where
  "worker_id u invitation = ''w'' @ show_nat u @ ''-'' @ take 12 invitation"

definition invited_member :: "string \<Rightarrow> string \<Rightarrow> worker_request \<Rightarrow> work_member" where
  "invited_member i name q = no_member\<lparr>wm_id := i, wm_name := name, wm_provider := ''remote'',
     wm_description := wq_provider q, wm_mode := wq_mode q, wm_timeout := 1800\<rparr>"

definition renew_invitation :: "instant \<Rightarrow> string \<Rightarrow> string \<Rightarrow> uid \<Rightarrow> worker_request \<Rightarrow> remote_worker \<Rightarrow> remote_broker
    \<Rightarrow> (worker_error + worker_reply) \<times> remote_broker" where
  "renew_invitation now i name u q w b =
     (if wm_name (rw_member w) \<noteq> name \<or> rw_scope w \<noteq> wq_scope q \<or> rw_invitation w \<noteq> wq_id q \<or> rw_uid w \<noteq> u
         \<or> wm_description (rw_member w) \<noteq> wq_provider q \<or> wm_mode (rw_member w) \<noteq> wq_mode q
      then (Inl ErrInvitationConflict, b)
      else if rw_lease w < now \<and> rw_job w \<noteq> None then (Inl ErrStaleInvitation, b)
      else (Inr (no_reply\<lparr>wy_id := i, wy_name := name, wy_state := ''joined''\<rparr>),
            put_worker i (w\<lparr>rw_healthy := (if rw_lease w < now then False else rw_healthy w),
              rw_lease := now + 90 * second\<rparr>) b))"

definition new_worker :: "instant \<Rightarrow> string \<Rightarrow> string \<Rightarrow> uid \<Rightarrow> worker_request \<Rightarrow> nat \<Rightarrow> remote_worker" where
  "new_worker now i name u q address = \<lparr>rw_healthy_until = 0, rw_healthy = False, rw_scope = wq_scope q,
     rw_invitation = wq_id q, rw_uid = u, rw_member = invited_member i name q, rw_lease = now + 90 * second,
     rw_job = None, rw_address = address\<rparr>"

definition drop_expired :: "instant \<Rightarrow> remote_broker \<Rightarrow> remote_broker" where
  "drop_expired now b = b\<lparr>rb_workers := filter (\<lambda>(i, w). \<not> (rw_lease w < now \<and> rw_job w = None)) (rb_workers b)\<rparr>"

definition invite_worker :: "instant \<Rightarrow> string \<Rightarrow> string \<Rightarrow> uid \<Rightarrow> worker_request \<Rightarrow> remote_broker
    \<Rightarrow> (worker_error + worker_reply) \<times> remote_broker" where
  "invite_worker now i name u q b =
     (case find_worker i b of
        Some w \<Rightarrow> renew_invitation now i name u q w b
      | None \<Rightarrow>
          (let b' = drop_expired now b in
           if length (rb_workers b') \<ge> 32 then (Inl ErrWorkersFull, b')
           else (Inr (no_reply\<lparr>wy_id := i, wy_name := name, wy_state := ''joined''\<rparr>),
                 (put_worker i (new_worker now i name u q (rb_next b')) b')\<lparr>rb_next := rb_next b' + 1\<rparr>)))"

definition handle_invite :: "instant \<Rightarrow> uid \<Rightarrow> string \<Rightarrow> worker_request \<Rightarrow> remote_broker
    \<Rightarrow> (worker_error + worker_reply) \<times> remote_broker" where
  "handle_invite now u owner_name q b =
     (if wq_scope q \<noteq> [] \<and> wq_scope q \<noteq> ''local'' \<and> wq_scope q \<noteq> ''host'' then (Inl ErrWorkerScope, b)
      else if wq_scope q = ''host'' \<and> rb_root b = [] then (Inl ErrHostUnsupported, b)
      else if u = 0 \<or> \<not> ValidClientMessageID (wq_id q) \<or> wq_provider q \<notin> {''cursor'', ''claude-code'', ''codex''}
              \<or> wq_mode q \<notin> {''review'', ''work''}
        then (Inl ErrInvitation, b)
      else (case AgentName (wq_provider q) (wq_agent_name q) of
         Inl e \<Rightarrow> (Inl e, b)
       | Inr agent_name \<Rightarrow>
           (let name = worker_name u owner_name agent_name in
            if length name > 120 then (Inl ErrWorkerName, b)
            else invite_worker now (worker_id u (wq_id q)) name u q b)))"

subsection \<open>Requests of a worker\<close>

definition on_job :: "(remote_job \<Rightarrow> remote_job) \<Rightarrow> remote_worker \<Rightarrow> remote_worker" where
  "on_job f w = w\<lparr>rw_job := map_option f (rw_job w)\<rparr>"

definition handle_leave :: "worker_request \<Rightarrow> remote_worker \<Rightarrow> remote_broker
    \<Rightarrow> (worker_error + worker_reply) \<times> remote_broker" where
  "handle_leave q w b =
     (Inr (no_reply\<lparr>wy_id := wq_id q, wy_state := ''left''\<rparr>),
      put_worker (wq_id q) (on_job (rj_cancel_update (\<lambda>_. True)) (w\<lparr>rw_healthy := False, rw_lease := 0\<rparr>)) b)"

definition handle_health :: "instant \<Rightarrow> worker_request \<Rightarrow> remote_worker \<Rightarrow> remote_broker
    \<Rightarrow> (worker_error + worker_reply) \<times> remote_broker" where
  "handle_health now q w b =
     (if rw_job w \<noteq> None then (Inr (no_reply\<lparr>wy_id := wq_id q, wy_state := ''busy''\<rparr>), b)
      else (Inr (no_reply\<lparr>wy_id := wq_id q, wy_state := ''health-accepted''\<rparr>),
            put_worker (wq_id q) (w\<lparr>rw_healthy := wq_healthy q, rw_healthy_until := now + 1800 * second\<rparr>) b))"

definition handle_result :: "instant \<Rightarrow> worker_request \<Rightarrow> remote_worker \<Rightarrow> remote_broker
    \<Rightarrow> (worker_error + worker_reply) \<times> remote_broker" where
  "handle_result now q w b =
     (if length (wq_changes q) > 0 \<and> (rw_scope w \<noteq> ''host'' \<or> wm_mode (rw_member w) \<noteq> ''work'' \<or> wq_failed q)
      then (Inl ErrNoChanges, b)
      else (case rw_job w of
         None \<Rightarrow> (Inl ErrUnknownReceipt, b)
       | Some j \<Rightarrow>
           if wq_job_id q \<noteq> rj_id j then (Inl ErrUnknownReceipt, b)
           else if rj_received j then (Inl ErrResultReceived, b)
           else if length (wq_text q) > maxOutput \<or> (\<not> wq_failed q \<and> trim_space (wq_text q) = [])
             then (Inl ErrInvalidResult, b)
           else if rj_waiting j \<noteq> None then (Inl ErrResultReceived, b)
           else (Inr (no_reply\<lparr>wy_id := wq_id q, wy_state := ''received''\<rparr>),
                 put_worker (wq_id q)
                   (w\<lparr>rw_healthy := \<not> wq_failed q, rw_healthy_until := now + 1800 * second,
                      rw_job := Some (j\<lparr>rj_waiting := Some \<lparr>re_workspace_path = [], re_changes = wq_changes q,
                          re_step_id = [], re_agent_id = wq_id q, re_text = wq_text q\<rparr>,
                        rj_failed := wq_failed q, rj_received := True\<rparr>)\<rparr>) b)))"

definition handle_poll :: "worker_request \<Rightarrow> remote_worker \<Rightarrow> remote_broker
    \<Rightarrow> (worker_error + worker_reply) \<times> remote_broker" where
  "handle_poll q w b =
     (let y = no_reply\<lparr>wy_id := wq_id q, wy_state := (if rw_healthy w then ''idle'' else ''checking'')\<rparr> in
      case rw_job w of
        None \<Rightarrow> (Inr y, b)
      | Some j \<Rightarrow>
          if rj_received j then (Inr (y\<lparr>wy_state := ''finishing''\<rparr>), b)
          else if \<not> rj_claimed j \<and> \<not> rj_cancel j then
            (Inr (y\<lparr>wy_state := ''working'', wy_job_id := rj_id j, wy_assignment := Some (rj_assignment j),
                    wy_cancel := rj_cancel j\<rparr>),
             put_worker (wq_id q) (w\<lparr>rw_job := Some (j\<lparr>rj_claimed := True\<rparr>)\<rparr>) b)
          else (Inr (y\<lparr>wy_state := ''working'', wy_job_id := rj_id j, wy_cancel := rj_cancel j\<rparr>), b))"

definition HandleMember :: "instant \<Rightarrow> uid \<Rightarrow> string \<Rightarrow> worker_request \<Rightarrow> remote_broker
    \<Rightarrow> (worker_error + worker_reply) \<times> remote_broker" where
  "HandleMember now u owner_name q b =
     (if wq_action q = ''invite'' then handle_invite now u owner_name q b
      else (case find_worker (wq_id q) b of
         None \<Rightarrow> (Inl ErrNotOwner, b)
       | Some w \<Rightarrow>
           if rw_uid w \<noteq> u then (Inl ErrNotOwner, b)
           else if wq_action q = ''leave'' then handle_leave q w b
           else if rw_lease w < now then (Inl ErrLeaseExpired, b)
           else
             (let w' = w\<lparr>rw_lease := now + 90 * second\<rparr>; b' = put_worker (wq_id q) w' b in
              if wq_action q = ''health'' then handle_health now q w' b'
              else if wq_action q = ''result'' then handle_result now q w' b'
              else if wq_action q = ''poll'' then handle_poll q w' b'
              else (Inl ErrWorkerAction, b'))))"

definition HandleWorker :: "instant \<Rightarrow> uid \<Rightarrow> worker_request \<Rightarrow> remote_broker
    \<Rightarrow> (worker_error + worker_reply) \<times> remote_broker" where
  "HandleWorker now u q b = HandleMember now u (member_word @ show_nat u) q b"

subsection \<open>The Host's side of a job\<close>

definition worker_free :: "instant \<Rightarrow> remote_worker \<Rightarrow> bool" where
  "worker_free now w \<longleftrightarrow> rw_healthy w \<and> \<not> rw_healthy_until w < now \<and> \<not> rw_lease w < now \<and> rw_job w = None"

text \<open>The first critical section of \<^verbatim>\<open>Run\<close>: the worker's address and the scope of its work.\<close>

definition run_lookup :: "instant \<Rightarrow> string \<Rightarrow> remote_broker \<Rightarrow> worker_error + nat \<times> string" where
  "run_lookup now i b =
     (case find_worker i b of
        None \<Rightarrow> Inl ErrWorkerOffline
      | Some w \<Rightarrow> if worker_free now w then Inr (rw_address w, rw_scope w) else Inl ErrWorkerOffline)"

text \<open>The changes of the results this work depends on, one per path.\<close>

fun merge_changes :: "workspace_change list \<Rightarrow> (string \<times> workspace_change) list
    \<Rightarrow> worker_error + (string \<times> workspace_change) list" where
  "merge_changes [] M = Inr M"
| "merge_changes (c # cs) M =
     (let p = wf_path (wc_file c) in
      case map_of M p of
        Some old \<Rightarrow>
          if wc_before old \<noteq> wc_before c \<or> wc_delete old \<noteq> wc_delete c \<or> fileHash (wc_file old) \<noteq> fileHash (wc_file c)
          then Inl (ErrPriorConflict p) else merge_changes cs M
      | None \<Rightarrow> merge_changes cs (AList.update p c M))"

definition workspace_result :: "workspace_error + 'a \<Rightarrow> worker_error + 'a" where
  "workspace_result r = (case r of Inl e \<Rightarrow> Inl (ErrWorkspace e) | Inr x \<Rightarrow> Inr x)"

definition prior_workspace :: "snapshot_files \<Rightarrow> work_result list \<Rightarrow> worker_error + snapshot_files" where
  "prior_workspace original prior =
     rbind (merge_changes (concat (map re_changes prior)) []) (\<lambda>M.
       workspace_result (ApplyWorkspaceChanges original (map snd M)))"

definition remote_note :: bytes where
  "remote_note = map char_of
     [10, 91, 232, 191, 156, 231, 168, 139, 229, 183, 165, 228, 189, 156, 231, 186, 166, 230, 157, 159, 93, 32, 228, 189,
      160, 229, 156, 168, 229, 143, 151, 233, 130, 128, 230, 136, 144, 229, 145, 152, 230, 156, 172, 230, 156, 186, 232, 191,
      144, 232, 161, 140, 239, 188, 140, 229, 143, 170, 229, 164, 132, 231, 144, 134, 230, 156, 172, 230, 156, 186, 232, 142,
      183, 229, 135, 134, 233, 161, 185, 231, 155, 174, 227, 128, 130, 228, 184, 141, 229, 190, 151, 228, 191, 174, 230, 148,
      185, 229, 183, 165, 228, 189, 156, 231, 155, 174, 229, 189, 149, 228, 187, 165, 229, 164, 150, 231, 154, 132, 230, 150,
      135, 228, 187, 182, 239, 188, 155, 228, 184, 141, 229, 190, 151, 232, 176, 131, 231, 148, 168, 32, 72, 111, 115, 116,
      32, 228, 184, 170, 228, 186, 186, 230, 142, 136, 230, 157, 131, 229, 145, 189, 228, 187, 164, 227, 128, 129, 230, 143,
      144, 228, 186, 164, 227, 128, 129, 230, 142, 168, 233, 128, 129, 230, 136, 150, 228, 187, 163, 230, 155, 191, 229, 143,
      145, 233, 128, 129, 232, 128, 133, 230, 147, 141, 228, 189, 156, 229, 164, 150, 233, 131, 168, 232, 180, 166, 229, 143,
      183, 227, 128, 130, 231, 187, 147, 230, 158, 156, 229, 155, 158, 228, 188, 160, 32, 82, 111, 111, 109, 32, 231, 173,
      137, 229, 190, 133, 228, 186, 186, 231, 177, 187, 233, 170, 140, 230, 148, 182, 227, 128, 130 :: nat]"

definition remote_assignment :: "snapshot_files option \<Rightarrow> assignment \<Rightarrow> assignment" where
  "remote_assignment workspace a =
     (case workspace of None \<Rightarrow> a | Some s \<Rightarrow> a\<lparr>as_workspace := Some s\<rparr>)
       \<lparr>as_prompt := as_human_prompt a @ remote_note, as_project_root := [], as_instructions := []\<rparr>"

text \<open>
  The second critical section: the same worker, still free, gets the job. The random bytes are
  \<open>None\<close> when their source fails.
\<close>

definition run_reserve :: "instant \<Rightarrow> nat \<Rightarrow> string \<Rightarrow> bytes option \<Rightarrow> snapshot_files option \<Rightarrow> assignment
    \<Rightarrow> remote_broker \<Rightarrow> worker_error + remote_broker" where
  "run_reserve now address i nonce workspace a b =
     (case find_worker i b of
        None \<Rightarrow> Inl ErrWorkerOffline
      | Some w \<Rightarrow>
          if rw_address w \<noteq> address \<or> \<not> worker_free now w then Inl ErrWorkerOffline
          else (case nonce of
             None \<Rightarrow> Inl ErrWorkerRandom
           | Some n \<Rightarrow>
               Inr (put_worker i (w\<lparr>rw_job := Some \<lparr>rj_id = hex_encode n, rj_assignment = remote_assignment workspace a,
                 rj_claimed = False, rj_cancel = False, rj_waiting = None, rj_failed = False, rj_received = False\<rparr>\<rparr>) b)))"

text \<open>What \<^verbatim>\<open>Run\<close> does while it waits: take the result, give up, or look at the lease.\<close>

definition run_take :: "string \<Rightarrow> remote_broker \<Rightarrow> (work_result \<times> bool \<times> remote_broker) option" where
  "run_take i b =
     (case find_worker i b of
        Some w \<Rightarrow> (case rw_job w of
            Some j \<Rightarrow> map_option (\<lambda>r. (r, rj_failed j, put_worker i (on_job (rj_waiting_update (\<lambda>_. None)) w) b)) (rj_waiting j)
          | None \<Rightarrow> None)
      | None \<Rightarrow> None)"

definition run_cancel :: "string \<Rightarrow> remote_broker \<Rightarrow> bool \<times> remote_broker" where
  "run_cancel i b =
     (case find_worker i b of
        Some w \<Rightarrow> ((case rw_job w of Some j \<Rightarrow> rj_claimed j | None \<Rightarrow> False),
                  put_worker i (on_job (rj_cancel_update (\<lambda>_. True)) w) b)
      | None \<Rightarrow> (False, b))"

definition after_cancel :: "bool \<Rightarrow> bool \<Rightarrow> worker_error" where
  "after_cancel claimed answered = (if \<not> claimed \<or> answered then ErrWorkStopped else ErrWorkUnknown)"

definition run_tick :: "instant \<Rightarrow> string \<Rightarrow> remote_broker \<Rightarrow> worker_error option" where
  "run_tick now i b =
     (case find_worker i b of
        Some w \<Rightarrow>
          if rw_lease w < now then
            (if (case rw_job w of Some j \<Rightarrow> rj_claimed j | None \<Rightarrow> False) then Some ErrWorkUnknown else Some ErrWorkerGone)
          else None
      | None \<Rightarrow> None)"

definition run_release :: "string \<Rightarrow> remote_broker \<Rightarrow> remote_broker" where
  "run_release i b =
     (case find_worker i b of Some w \<Rightarrow> put_worker i (w\<lparr>rw_job := None\<rparr>) b | None \<Rightarrow> b)"

definition copy_text :: bytes where
  "copy_text = map char_of
     [10, 10, 72, 111, 115, 116, 32, 233, 154, 148, 231, 166, 187, 229, 183, 165, 228, 189, 156, 229, 137, 175, 230, 156,
      172, 239, 188, 154 :: nat]"

definition receipt_text :: bytes where
  "receipt_text = map char_of [10, 229, 143, 152, 230, 155, 180, 229, 155, 158, 230, 137, 167, 239, 188, 154 :: nat]"

definition receipt_tail :: bytes where
  "receipt_tail = map char_of
     [45, 114, 101, 99, 101, 105, 112, 116, 46, 106, 115, 111, 110, 10, 228, 184, 187, 233, 161, 185, 231, 155, 174, 230,
      156, 170, 232, 162, 171, 232, 166, 134, 231, 155, 150, 239, 188, 155, 232, 175, 183, 229, 156, 168, 230, 173, 164, 229,
      137, 175, 230, 156, 172, 233, 170, 140, 230, 148, 182, 227, 128, 130 :: nat]"

text \<open>
  The result of work on a copy of the Host's project: applied to the copy that was sent, saved in
  a directory of its own with a receipt beside it (\<open>saved\<close> is its path, when the disk took both),
  and reported as the changes from the project.
\<close>

definition finish_run :: "string \<Rightarrow> bool \<Rightarrow> string \<Rightarrow> snapshot_files \<Rightarrow> snapshot_files \<Rightarrow> string option
    \<Rightarrow> bool \<Rightarrow> work_result \<Rightarrow> worker_error + work_result" where
  "finish_run scope stopped mode original workspace saved failed r =
     (if failed then Inl ErrWorkerFailed
      else if scope \<noteq> ''host'' then Inr r
      else if stopped then Inl ErrWorkStopped
      else if mode = ''review'' \<and> length (re_changes r) > 0 then Inl ErrReadOnlyChanges
      else rbind (workspace_result (ApplyWorkspaceChanges workspace (re_changes r))) (\<lambda>after.
        case saved of
          None \<Rightarrow> Inl ErrHostDisk
        | Some path \<Rightarrow>
             Inr (r\<lparr>re_changes := WorkspaceDiff original after, re_workspace_path := path,
                    re_text := re_text r @ copy_text @ path @ receipt_text @ path @ receipt_tail\<rparr>)))"

end
