(* ===== verification/Workspace_Changes.thy ===== *)
theory Workspace_Changes
  imports Workspace "HOL-Library.Multiset"
begin

text \<open>
  What applying changes to a snapshot does, and that applying the difference of two snapshots
  to the first gives the second.
\<close>

definition keyed_files :: "(string \<times> workspace_file) list \<Rightarrow> bool" where
  "keyed_files M \<longleftrightarrow> distinct (map fst M) \<and> (\<forall>k f. map_of M k = Some f \<longrightarrow> wf_path f = k)"

definition file_at :: "snapshot_files \<Rightarrow> string \<Rightarrow> workspace_file option" where
  "file_at fs p = find (\<lambda>f. wf_path f = p) fs"

definition hash_at :: "workspace_file option \<Rightarrow> string" where
  "hash_at f = (case f of None \<Rightarrow> [] | Some g \<Rightarrow> fileHash g)"

text \<open>A change fits a file, or its absence, when it names the hash it was made from.\<close>

definition change_fits :: "workspace_file option \<Rightarrow> workspace_change \<Rightarrow> bool" where
  "change_fits old c \<longleftrightarrow> workspacePath (wf_path (wc_file c)) \<and> wc_before c = hash_at old \<and>
     (wc_delete c \<longrightarrow> old \<noteq> None \<and> wf_data (wc_file c) = [])"

definition after_change :: "workspace_change \<Rightarrow> workspace_file option" where
  "after_change c = (if wc_delete c then None else Some (wc_file c))"

definition changed :: "workspace_change list \<Rightarrow> (string \<Rightarrow> workspace_file option) \<Rightarrow> string \<Rightarrow> workspace_file option" where
  "changed cs M p =
     (case find (\<lambda>c. wf_path (wc_file c) = p) cs of None \<Rightarrow> M p | Some c \<Rightarrow> after_change c)"

abbreviation change_paths :: "workspace_change list \<Rightarrow> string list" where
  "change_paths cs \<equiv> map (\<lambda>c. wf_path (wc_file c)) cs"

lemma keyed_files_update: "keyed_files M \<Longrightarrow> keyed_files (AList.update (wf_path f) f M)"
  by (auto simp: keyed_files_def distinct_update update_conv split: if_splits)

lemma keyed_files_delete: "keyed_files M \<Longrightarrow> keyed_files (AList.delete k M)"
  by (auto simp: keyed_files_def distinct_delete delete_conv split: if_splits)

lemma files_by_path_distinct:
  "distinct (map fst M @ map wf_path fs) \<Longrightarrow>
     foldl (\<lambda>M f. AList.update (wf_path f) f M) M fs = M @ map (\<lambda>f. (wf_path f, f)) fs"
proof (induction fs arbitrary: M)
  case (Cons f fs)
  have "AList.update (wf_path f) f M = M @ [(wf_path f, f)]" if "wf_path f \<notin> fst ` set M" for M
    using that by (induction M) auto
  with Cons show ?case by simp
qed simp

lemma files_by_path_map: "distinct (map wf_path fs) \<Longrightarrow> files_by_path fs = map (\<lambda>f. (wf_path f, f)) fs"
  using files_by_path_distinct [of "[]" fs] by (simp add: files_by_path_def)

lemma map_of_files: "map_of (map (\<lambda>f. (wf_path f, f)) fs) p = file_at fs p"
  by (induction fs) (auto simp: file_at_def)

lemma file_at_Some: "file_at fs p = Some f \<Longrightarrow> f \<in> set fs \<and> wf_path f = p"
  by (auto simp: file_at_def dest: find_SomeD)

lemma file_at_None: "file_at fs p = None \<longleftrightarrow> p \<notin> wf_path ` set fs"
  by (auto simp: file_at_def find_None_iff image_iff)

lemma file_at_in: "distinct (map wf_path fs) \<Longrightarrow> f \<in> set fs \<Longrightarrow> file_at fs (wf_path f) = Some f"
  unfolding file_at_def by (rule find_unique [of wf_path]) auto

lemma files_by_path_keyed:
  assumes "distinct (map wf_path fs)"
  shows "keyed_files (files_by_path fs)" "map_of (files_by_path fs) = file_at fs"
proof -
  have "map fst (map (\<lambda>f. (wf_path f, f)) fs) = map wf_path fs" by simp
  with assms show "keyed_files (files_by_path fs)"
    using file_at_Some by (auto simp: files_by_path_map keyed_files_def map_of_files simp del: map_map)
  show "map_of (files_by_path fs) = file_at fs"
    using assms by (auto simp: files_by_path_map map_of_files)
qed

subsection \<open>Applying changes\<close>

lemma other_path: "p \<notin> set (change_paths cs) \<Longrightarrow> d \<in> set cs \<Longrightarrow> wf_path (wc_file d) \<noteq> p"
  by (metis image_eqI list.set_map)

lemma changed_Cons:
  assumes "wf_path (wc_file c) \<notin> set (change_paths cs)"
  shows "changed cs (M(wf_path (wc_file c) := after_change c)) = changed (c # cs) M"
proof
  fix q
  have "find (\<lambda>d. wf_path (wc_file d) = wf_path (wc_file c)) cs = None"
    using other_path [OF assms] by (simp add: find_None_iff)
  then show "changed cs (M(wf_path (wc_file c) := after_change c)) q = changed (c # cs) M q"
    by (cases "wf_path (wc_file c) = q") (auto simp: changed_def split: option.split)
qed

lemma apply_changes_Inr:
  assumes "keyed_files files"
  shows "apply_changes cs seen files = Inr files' \<Longrightarrow>
     distinct (change_paths cs) \<and> set (change_paths cs) \<inter> set seen = {} \<and>
     (\<forall>c \<in> set cs. change_fits (map_of files (wf_path (wc_file c))) c) \<and>
     keyed_files files' \<and> map_of files' = changed cs (map_of files)"
  using assms
proof (induction cs arbitrary: seen files)
  case Nil
  then show ?case by (auto simp: changed_def)
next
  case (Cons c cs)
  let ?p = "wf_path (wc_file c)"
  define next_files where "next_files = (if wc_delete c then AList.delete ?p files else AList.update ?p (wc_file c) files)"
  have fits: "change_fits (map_of files ?p) c" "?p \<notin> set seen"
      and rest: "apply_changes cs (?p # seen) next_files = Inr files'"
    using Cons.prems(1)
    by (auto simp: Let_def change_fits_def hash_at_def next_files_def split: if_splits option.splits)
  have keyed: "keyed_files next_files"
    using Cons.prems(2) by (simp add: next_files_def keyed_files_update keyed_files_delete)
  have map: "map_of next_files = (map_of files)(?p := after_change c)"
    by (auto simp: next_files_def after_change_def delete_conv' update_conv')
  note IH = Cons.IH [OF rest keyed]
  then have new: "?p \<notin> set (change_paths cs)" by auto
  have "change_fits (map_of files (wf_path (wc_file d))) d" if "d \<in> set cs" for d
  proof -
    from other_path [OF new that] have "wf_path (wc_file d) \<noteq> ?p" .
    with that IH show ?thesis by (auto simp: map)
  qed
  moreover have "map_of files' = changed (c # cs) (map_of files)"
    using IH new changed_Cons [OF new] by (simp only: map)
  ultimately show ?case using IH fits new by simp
qed

lemma apply_changes_ok:
  "keyed_files files \<Longrightarrow> distinct (change_paths cs) \<Longrightarrow> set (change_paths cs) \<inter> set seen = {} \<Longrightarrow>
     \<forall>c \<in> set cs. change_fits (map_of files (wf_path (wc_file c))) c \<Longrightarrow>
     \<exists>files'. apply_changes cs seen files = Inr files'"
proof (induction cs arbitrary: seen files)
  case (Cons c cs)
  let ?p = "wf_path (wc_file c)"
  define next_files where "next_files = (if wc_delete c then AList.delete ?p files else AList.update ?p (wc_file c) files)"
  have keyed: "keyed_files next_files"
    using Cons.prems(1) by (simp add: next_files_def keyed_files_update keyed_files_delete)
  have map: "map_of next_files q = map_of files q" if "q \<noteq> ?p" for q
    using that by (simp add: next_files_def update_conv')
  have "\<forall>d \<in> set cs. change_fits (map_of next_files (wf_path (wc_file d))) d"
  proof
    fix d
    assume d: "d \<in> set cs"
    moreover from Cons.prems(2) have "?p \<notin> set (change_paths cs)" by simp
    ultimately have "wf_path (wc_file d) \<noteq> ?p" by (intro other_path)
    with d Cons.prems(4) show "change_fits (map_of next_files (wf_path (wc_file d))) d" by (simp add: map)
  qed
  moreover have "distinct (change_paths cs)" "set (change_paths cs) \<inter> set (?p # seen) = {}"
    using Cons.prems(2,3) by simp_all
  ultimately obtain files' where rest: "apply_changes cs (?p # seen) next_files = Inr files'"
    using Cons.IH [OF keyed, of "?p # seen"] by (elim exE meta_impE) (assumption+)
  have fits: "change_fits (map_of files ?p) c" and new: "?p \<notin> set seen" using Cons.prems(3,4) by simp_all
  have "apply_changes (c # cs) seen files = apply_changes cs (?p # seen) next_files"
  proof (cases "wc_delete c")
    case True
    with fits new show ?thesis
      by (auto simp: Let_def change_fits_def hash_at_def [symmetric] next_files_def)
  next
    case False
    with fits new show ?thesis
      by (simp add: Let_def change_fits_def hash_at_def [symmetric] next_files_def)
  qed
  with rest show ?case by simp
qed simp

subsection \<open>Differences\<close>

definition change_of :: "workspace_file option \<Rightarrow> workspace_file \<Rightarrow> workspace_change list" where
  "change_of old f =
     (if old = None \<or> hash_at old \<noteq> fileHash f
      then [\<lparr>wc_file = f, wc_before = hash_at old, wc_delete = False\<rparr>] else [])"

lemma diff_files_spec:
  "keyed_files M \<Longrightarrow> distinct (map wf_path fs) \<Longrightarrow>
     fst (diff_files M fs) = concat (map (\<lambda>f. change_of (map_of M (wf_path f)) f) fs) \<and>
     keyed_files (snd (diff_files M fs)) \<and>
     map_of (snd (diff_files M fs)) = (\<lambda>p. if p \<in> wf_path ` set fs then None else map_of M p)"
proof (induction fs arbitrary: M)
  case (Cons f fs)
  let ?M = "AList.delete (wf_path f) M"
  have keyed: "keyed_files ?M" using Cons.prems(1) by (rule keyed_files_delete)
  have same: "map (\<lambda>g. change_of (map_of ?M (wf_path g)) g) fs = map (\<lambda>g. change_of (map_of M (wf_path g)) g) fs"
  proof (rule map_cong [OF refl])
    fix g
    assume "g \<in> set fs"
    with Cons.prems(2) have "wf_path g \<noteq> wf_path f" by (metis distinct.simps(2) image_eqI list.map(2) list.set_map)
    then show "change_of (map_of ?M (wf_path g)) g = change_of (map_of M (wf_path g)) g" by simp
  qed
  have first: "(case map_of M (wf_path f) of
            None \<Rightarrow> [\<lparr>wc_file = f, wc_before = [], wc_delete = False\<rparr>]
          | Some old \<Rightarrow>
              if fileHash old \<noteq> fileHash f then [\<lparr>wc_file = f, wc_before = fileHash old, wc_delete = False\<rparr>] else [])
      = change_of (map_of M (wf_path f)) f"
    by (simp add: change_of_def hash_at_def split: option.split)
  have step: "diff_files M (f # fs) = (change_of (map_of M (wf_path f)) f @ fst (diff_files ?M fs), snd (diff_files ?M fs))"
    by (simp add: Let_def first)
  have "distinct (map wf_path fs)" using Cons.prems(2) by simp
  note IH = Cons.IH [OF keyed this]
  have "map_of (snd (diff_files ?M fs)) q = (if q \<in> wf_path ` set (f # fs) then None else map_of M q)" for q
    using IH by (simp add: delete_conv')
  with IH show ?case unfolding step same by auto
qed simp

lemma check_files_None:
  "check_files fs n seen = None \<Longrightarrow>
     distinct (map wf_path fs) \<and> set (map wf_path fs) \<inter> set seen = {} \<and> (\<forall>f \<in> set fs. workspacePath (wf_path f))"
  by (induction fs n seen rule: check_files.induct) (auto split: if_splits)

lemma valid_snapshot:
  assumes "ValidateSnapshot fs = None"
  shows "distinct (map wf_path fs)" "f \<in> set fs \<Longrightarrow> workspacePath (wf_path f)"
  using assms check_files_None [of fs 0 "[]"]
  by (auto simp: ValidateSnapshot_def split: if_splits option.splits)

text \<open>The files of two snapshots at one path are told apart by their hashes.\<close>

definition no_collision :: "snapshot_files \<Rightarrow> snapshot_files \<Rightarrow> bool" where
  "no_collision base after \<longleftrightarrow>
     list_all (\<lambda>f. list_all (\<lambda>g. wf_path f = wf_path g \<longrightarrow> fileHash f = fileHash g \<longrightarrow> f = g) after) base"

text \<open>Every change of a difference: a new or different file of the later snapshot, or a deletion.\<close>

definition unsorted_diff :: "snapshot_files \<Rightarrow> snapshot_files \<Rightarrow> workspace_change list" where
  "unsorted_diff base after = fst (diff_files (files_by_path base) after) @
     map (deletion \<circ> snd) (snd (diff_files (files_by_path base) after))"

lemma diff_parts:
  assumes "ValidateSnapshot base = None" "ValidateSnapshot after = None"
  shows "set (unsorted_diff base after) =
      (\<Union>f \<in> set after. set (change_of (file_at base (wf_path f)) f)) \<union>
      deletion ` {f \<in> set base. wf_path f \<notin> wf_path ` set after}"
    and "distinct (change_paths (unsorted_diff base after))"
proof -
  note d = valid_snapshot(1) [OF assms(1)] valid_snapshot(1) [OF assms(2)]
  define D where "D = diff_files (files_by_path base) after"
  have D: "fst D = concat (map (\<lambda>f. change_of (file_at base (wf_path f)) f) after)"
      "keyed_files (snd D)"
      "map_of (snd D) = (\<lambda>p. if p \<in> wf_path ` set after then None else file_at base p)"
    using diff_files_spec [OF files_by_path_keyed(1) [OF d(1)] d(2), unfolded files_by_path_keyed(2) [OF d(1)]]
    by (simp_all add: D_def)
  have snd_D: "(k, f) \<in> set (snd D) \<longleftrightarrow> k = wf_path f \<and> f \<in> set base \<and> k \<notin> wf_path ` set after" for k f
  proof -
    have "(k, f) \<in> set (snd D) \<longleftrightarrow> map_of (snd D) k = Some f"
      using D(2) by (simp add: keyed_files_def)
    also have "\<dots> \<longleftrightarrow> k \<notin> wf_path ` set after \<and> file_at base k = Some f" by (simp add: D(3))
    also have "\<dots> \<longleftrightarrow> k = wf_path f \<and> f \<in> set base \<and> k \<notin> wf_path ` set after"
      using file_at_in [OF d(1)] by (auto dest: file_at_Some)
    finally show ?thesis .
  qed
  have deleted: "set (map (deletion \<circ> snd) (snd D)) = deletion ` {f \<in> set base. wf_path f \<notin> wf_path ` set after}"
  proof -
    have "f \<in> snd ` set (snd D) \<longleftrightarrow> f \<in> set base \<and> wf_path f \<notin> wf_path ` set after" for f
      using snd_D by (metis (no_types, lifting) imageE image_eqI prod.collapse snd_conv)
    then have "snd ` set (snd D) = {f \<in> set base. wf_path f \<notin> wf_path ` set after}" by blast
    then show ?thesis unfolding set_map image_comp [symmetric] by simp
  qed
  with D(1) show "set (unsorted_diff base after) =
      (\<Union>f \<in> set after. set (change_of (file_at base (wf_path f)) f)) \<union>
      deletion ` {f \<in> set base. wf_path f \<notin> wf_path ` set after}"
    by (simp add: unsorted_diff_def D_def [symmetric])
  have kept: "distinct (change_paths (concat (map (\<lambda>f. change_of (M (wf_path f)) f) fs)))"
    "set (change_paths (concat (map (\<lambda>f. change_of (M (wf_path f)) f) fs))) \<subseteq> wf_path ` set fs"
    if "distinct (map wf_path fs)" for M fs
    using that by (induction fs) (auto simp: change_of_def)
  have paths: "change_paths (map (deletion \<circ> snd) (snd D)) = map fst (snd D)"
    using snd_D by (auto simp: deletion_def)
  have "set (map fst (snd D)) \<inter> wf_path ` set after = {}" using snd_D by auto
  then have "set (change_paths (fst D)) \<inter> set (map fst (snd D)) = {}"
    using kept(2) [OF d(2), of "file_at base"] unfolding D(1) by blast
  moreover have "distinct (map fst (snd D))" using D(2) by (simp add: keyed_files_def)
  moreover have "distinct (change_paths (fst D))" unfolding D(1) by (rule kept(1) [OF d(2)])
  ultimately show "distinct (change_paths (unsorted_diff base after))"
    by (simp only: unsorted_diff_def D_def [symmetric] map_append paths distinct_append)
qed

lemma find_change:
  assumes "distinct (change_paths cs)" "c \<in> set cs"
  shows "find (\<lambda>d. wf_path (wc_file d) = wf_path (wc_file c)) cs = Some c"
  using assms by (intro find_unique [of "\<lambda>d. wf_path (wc_file d)"]) auto

lemma diff_changes:
  assumes valid: "ValidateSnapshot base = None" "ValidateSnapshot after = None" and "no_collision base after"
    and cs: "set cs = set (unsorted_diff base after)" "distinct (change_paths cs)"
  shows "changed cs (file_at base) = file_at after"
proof
  fix p
  note d = valid_snapshot(1) [OF valid(1)] valid_snapshot(1) [OF valid(2)]
  note parts = diff_parts(1) [OF valid, folded cs(1)]
  show "changed cs (file_at base) p = file_at after p"
  proof (cases "find (\<lambda>c. wf_path (wc_file c) = p) cs")
    case (Some c)
    then have c: "c \<in> set cs" "wf_path (wc_file c) = p" by (auto dest: find_SomeD)
    from c(1) parts consider f where "f \<in> set after" "c \<in> set (change_of (file_at base (wf_path f)) f)"
      | f where "f \<in> set base" "wf_path f \<notin> wf_path ` set after" "c = deletion f"
      by auto
    then have "after_change c = file_at after p"
    proof cases
      case 1
      then have "wc_file c = f" "\<not> wc_delete c" by (auto simp: change_of_def split: if_splits)
      with c(2) file_at_in [OF d(2) 1(1)] show ?thesis by (simp add: after_change_def)
    next
      case 2
      with c(2) have "file_at after p = None" by (auto simp: deletion_def file_at_None)
      with 2 show ?thesis by (simp add: after_change_def deletion_def)
    qed
    with Some show ?thesis by (simp add: changed_def)
  next
    case None
    then have no: "c \<notin> set cs" if "wf_path (wc_file c) = p" for c using that by (auto simp: find_None_iff)
    have "file_at base p = file_at after p"
    proof (cases "file_at after p")
      case missing: None
      have "f \<notin> set base" if "wf_path f = p" for f
        using no [of "deletion f"] parts that missing by (auto simp: deletion_def file_at_None)
      then have "file_at base p = None" by (auto simp: file_at_None)
      with missing show ?thesis by simp
    next
      case (Some f)
      then have f: "f \<in> set after" "wf_path f = p" by (auto dest: file_at_Some)
      have "set (change_of (file_at base p) f) \<subseteq> set cs" using f parts by blast
      moreover have "wf_path (wc_file c) = p" if "c \<in> set (change_of (file_at base p) f)" for c
        using that f(2) by (auto simp: change_of_def split: if_splits)
      ultimately have none: "c \<notin> set (change_of (file_at base p) f)" for c using no by (meson subsetD)
      have "change_of (file_at base p) f = []"
        using none [of "hd (change_of (file_at base p) f)"] hd_in_set by blast
      then obtain g where g: "file_at base p = Some g" "fileHash g = fileHash f"
        by (auto simp: change_of_def hash_at_def split: if_splits)
      with file_at_Some [OF g(1)] f assms(3) have "g = f"
        by (auto simp: no_collision_def list_all_iff)
      with g Some show ?thesis by simp
    qed
    with None show ?thesis by (simp add: changed_def)
  qed
qed

lemma diff_fits:
  assumes valid: "ValidateSnapshot base = None" "ValidateSnapshot after = None"
    and c: "c \<in> set (unsorted_diff base after)"
  shows "change_fits (file_at base (wf_path (wc_file c))) c"
proof -
  note d = valid_snapshot(1) [OF valid(1)]
  from c diff_parts(1) [OF valid] consider
      f where "f \<in> set after" "c \<in> set (change_of (file_at base (wf_path f)) f)"
    | f where "f \<in> set base" "c = deletion f"
    by auto
  then show ?thesis
  proof cases
    case 1
    with valid_snapshot(2) [OF valid(2)] show ?thesis
      by (auto simp: change_of_def change_fits_def split: if_splits)
  next
    case 2
    with valid_snapshot(2) [OF valid(1)] file_at_in [OF d] show ?thesis
      by (auto simp: deletion_def change_fits_def hash_at_def)
  qed
qed

text \<open>The files of a keyed map in the order of their paths.\<close>

lemma sorted_files:
  assumes "keyed_files M" "map_of M = file_at fs" "distinct (map wf_path fs)" "sorted (map wf_path fs)"
  shows "sort_key wf_path (map snd M) = fs"
proof (rule sort_key_inj_key_eq)
  have keys: "map wf_path (map snd M) = map fst M"
    using assms(1) by (auto simp: keyed_files_def)
  then have "distinct (map snd M)"
    using assms(1) unfolding keyed_files_def by (metis distinct_map)
  moreover have "set (map snd M) = set fs"
  proof -
    have "f \<in> set (map snd M) \<longleftrightarrow> map_of M (wf_path f) = Some f" for f
    proof
      assume "f \<in> set (map snd M)"
      then obtain k where "(k, f) \<in> set M" by auto
      with assms(1) have "map_of M k = Some f" "wf_path f = k" by (simp_all add: keyed_files_def)
      then show "map_of M (wf_path f) = Some f" by simp
    qed (force dest: map_of_SomeD)
    then show ?thesis
      using assms(2) file_at_in [OF assms(3)] by (auto dest: file_at_Some)
  qed
  moreover have "distinct fs" using assms(3) by (simp add: distinct_map)
  ultimately show "mset (map snd M) = mset fs" using set_eq_iff_mset_eq_distinct by blast
  show "inj_on wf_path (set (map snd M))"
    using assms(3) \<open>set (map snd M) = set fs\<close> by (simp add: distinct_map)
qed (rule assms(4))

text \<open>The root itself passes for the path of a file.\<close>

lemma dot_path_accepted:
  "ApplyWorkspaceChanges [] [\<lparr>wc_file = \<lparr>wf_path = ''.'', wf_data = d, wf_executable = x\<rparr>, wc_before = [], wc_delete = False\<rparr>] =
     (if length d > WorkspaceLimit then Inl (ErrInvalidFile ''.'')
      else Inr [\<lparr>wf_path = ''.'', wf_data = d, wf_executable = x\<rparr>])"
  by (simp add: ApplyWorkspaceChanges_def files_by_path_def Let_def ValidateSnapshot_def workspacePath_def
      fs_valid_path_def private_parts_def utf8_valid_ascii in_range_def WorkspaceFileLimit_def)

subsection \<open>Properties\<close>

text \<open>
  C33. Applying the difference of two valid snapshots to the first one gives the second, file
  by file, whenever no two different contents at one path have the same hash and the difference
  is not longer than the limit on changes.
\<close>

theorem diff_apply_roundtrip:
  assumes "ValidateSnapshot base = None" "ValidateSnapshot after = None" "sorted (map wf_path after)"
    "no_collision base after" "length (WorkspaceDiff base after) \<le> WorkspaceFileLimit"
  shows "ApplyWorkspaceChanges base (WorkspaceDiff base after) = Inr after"
proof -
  let ?cs = "WorkspaceDiff base after"
  note d = valid_snapshot(1) [OF assms(1)] valid_snapshot(1) [OF assms(2)]
  have cs: "set ?cs = set (unsorted_diff base after)" "mset ?cs = mset (unsorted_diff base after)"
    by (simp_all add: WorkspaceDiff_def Let_def unsorted_diff_def)
  then have "mset (change_paths ?cs) = mset (change_paths (unsorted_diff base after))" by simp
  then have distinct: "distinct (change_paths ?cs)"
    using diff_parts(2) [OF assms(1,2)] mset_eq_imp_distinct_iff by blast
  have fits: "\<forall>c \<in> set ?cs. change_fits (map_of (files_by_path base) (wf_path (wc_file c))) c"
    using diff_fits [OF assms(1,2)] cs(1) by (simp add: files_by_path_keyed(2) [OF d(1)])
  obtain files where run: "apply_changes ?cs [] (files_by_path base) = Inr files"
    using apply_changes_ok [OF files_by_path_keyed(1) [OF d(1)] distinct _ fits, of "[]"] by auto
  have "keyed_files files" "map_of files = file_at after"
    using apply_changes_Inr [OF files_by_path_keyed(1) [OF d(1)] run]
      diff_changes [OF assms(1,2,4) cs(1) distinct] by (simp_all add: files_by_path_keyed(2) [OF d(1)])
  then have "sort_key wf_path (map snd files) = after"
    using d(2) assms(3) by (rule sorted_files)
  with run assms(2,5) show ?thesis by (simp add: ApplyWorkspaceChanges_def Let_def)
qed

text \<open>
  C34. Changes are applied to a valid base only when each names a path of its own and the hash the
  base has there (none for a file the base does not have); the result then has exactly the files
  the changes put there, keeps every other file, is sorted by path and is valid.
\<close>

theorem apply_exact:
  assumes "ApplyWorkspaceChanges base cs = Inr out" "ValidateSnapshot base = None"
  shows "distinct (change_paths cs) \<and> (\<forall>c \<in> set cs. change_fits (file_at base (wf_path (wc_file c))) c) \<and>
     file_at out = changed cs (file_at base) \<and> sorted (map wf_path out) \<and> ValidateSnapshot out = None"
proof -
  note d = valid_snapshot(1) [OF assms(2)]
  obtain files where run: "apply_changes cs [] (files_by_path base) = Inr files"
      and out: "out = sort_key wf_path (map snd files)" "ValidateSnapshot out = None"
    using assms(1) by (auto simp: ApplyWorkspaceChanges_def rbind_Inr Let_def split: if_splits option.splits)
  note spec = apply_changes_Inr [OF files_by_path_keyed(1) [OF d] run, unfolded files_by_path_keyed(2) [OF d]]
  then have keyed: "keyed_files files" by simp
  have "file_at out p = map_of files p" for p
  proof (cases "map_of files p")
    case None
    with keyed have "p \<notin> wf_path ` set out"
      by (force simp: out keyed_files_def map_of_eq_None_iff)
    with None show ?thesis by (simp add: file_at_None)
  next
    case (Some f)
    with keyed have path: "wf_path f = p" by (simp add: keyed_files_def)
    have "f \<in> set out" using map_of_SomeD [OF Some] by (force simp: out(1))
    note path this
    with Some file_at_in [OF valid_snapshot(1) [OF out(2)]] path show ?thesis by auto
  qed
  with spec have "file_at out = changed cs (file_at base)" by (simp add: fun_eq_iff)
  with spec out show ?thesis by simp
qed

subsection \<open>Examples\<close>

definition demo_file :: "string \<Rightarrow> bytes \<Rightarrow> workspace_file" where
  "demo_file p d = \<lparr>wf_path = p, wf_data = d, wf_executable = False\<rparr>"

definition demo_before :: snapshot_files where
  "demo_before = [demo_file ''a'' ''same'', demo_file ''b'' ''gone'']"

definition demo_after :: snapshot_files where
  "demo_after = [demo_file ''a'' ''same'', demo_file ''c/d'' ''more'']"

lemma demo_valid_snapshots: "ValidateSnapshot demo_before = None" "ValidateSnapshot demo_after = None"
  by (simp_all add: ValidateSnapshot_def demo_before_def demo_after_def demo_file_def workspacePath_def fs_valid_path_def
      private_parts_def utf8_valid_ascii in_range_def WorkspaceLimit_def WorkspaceFileLimit_def)

lemma demo_sorted: "sorted (map wf_path demo_after)"
  by code_simp

lemma demo_no_collision: "no_collision demo_before demo_after"
  by (simp add: no_collision_def demo_before_def demo_after_def demo_file_def)

lemma diff_apply_roundtrip_witness:
  "ApplyWorkspaceChanges demo_before (WorkspaceDiff demo_before demo_after) = Inr demo_after"
proof (rule diff_apply_roundtrip [OF demo_valid_snapshots demo_sorted demo_no_collision])
  show "length (WorkspaceDiff demo_before demo_after) \<le> WorkspaceFileLimit"
    by (simp add: WorkspaceDiff_def Let_def files_by_path_def demo_before_def demo_after_def demo_file_def
        WorkspaceFileLimit_def)
qed

lemma apply_exact_witness:
  "distinct (change_paths [deletion (demo_file ''b'' ''gone'')]) \<and> sorted (map wf_path [demo_file ''a'' ''same''])"
proof -
  have "ApplyWorkspaceChanges demo_before [deletion (demo_file ''b'' ''gone'')] = Inr [demo_file ''a'' ''same'']"
    by (simp add: ApplyWorkspaceChanges_def files_by_path_def demo_before_def demo_file_def deletion_def Let_def
        ValidateSnapshot_def workspacePath_def fs_valid_path_def private_parts_def utf8_valid_ascii in_range_def
        WorkspaceLimit_def WorkspaceFileLimit_def)
  from apply_exact [OF this demo_valid_snapshots(1)] show ?thesis by simp
qed

end
