(* ===== verification/Remote_Jobs.thy ===== *)
theory Remote_Jobs
  imports Remote_Worker Workspace_Changes Client_Requests Client_Safe
begin

text \<open>
  The broker of remote workers as a transition system: one step per request of a member and per
  critical section of the Host's side. Every history of a job is a path of a small protocol
  (reserved, delivered at most once, answered at most once, released), a request only ever
  touches workers of the member who sent it, and no assignment carries the Host's own prompt.
\<close>

subsection \<open>Steps and what they show\<close>

datatype job_event = Reserved | Delivered | Answered | Released

definition reply_events :: "worker_request \<Rightarrow> worker_error + worker_reply \<Rightarrow> (string \<times> job_event) list" where
  "reply_events q r =
     (case r of
        Inl _ \<Rightarrow> []
      | Inr y \<Rightarrow> (if wy_assignment y \<noteq> None then [(wq_id q, Delivered)] else []) @
                 (if wq_action q = ''result'' then [(wq_id q, Answered)] else []))"

inductive broker_step :: "remote_broker \<Rightarrow> (string \<times> job_event) list \<Rightarrow> remote_broker \<Rightarrow> bool" where
  asked: "HandleMember now u n q b = (r, b') \<Longrightarrow> broker_step b (reply_events q r) b'"
| reserved: "run_reserve now address i nonce workspace a b = Inr b' \<Longrightarrow> broker_step b [(i, Reserved)] b'"
| taken: "run_take i b = Some (r, failed, b') \<Longrightarrow> broker_step b [] b'"
| cancelled: "run_cancel i b = (claimed, b') \<Longrightarrow> broker_step b [] b'"
| released: "find_worker i b = Some w \<Longrightarrow> rw_job w \<noteq> None \<Longrightarrow> broker_step b [(i, Released)] (run_release i b)"

inductive broker_run :: "remote_broker \<Rightarrow> (string \<times> job_event) list \<Rightarrow> remote_broker \<Rightarrow> bool" where
  started: "broker_run (NewProjectRemoteBroker root) [] (NewProjectRemoteBroker root)"
| stepped: "broker_run b0 es b \<Longrightarrow> broker_step b fs b' \<Longrightarrow> broker_run b0 (es @ fs) b'"

text \<open>The protocol of one worker's jobs: whether the current job was delivered and answered.\<close>

fun job_next :: "(bool \<times> bool) option \<Rightarrow> job_event \<Rightarrow> (bool \<times> bool) option option" where
  "job_next None Reserved = Some (Some (False, False))"
| "job_next (Some (False, False)) Delivered = Some (Some (True, False))"
| "job_next (Some (d, False)) Answered = Some (Some (d, True))"
| "job_next (Some _) Released = Some None"
| "job_next _ _ = None"

fun job_path :: "(bool \<times> bool) option \<Rightarrow> job_event list \<Rightarrow> (bool \<times> bool) option option" where
  "job_path s [] = Some s"
| "job_path s (e # es) = (case job_next s e of None \<Rightarrow> None | Some t \<Rightarrow> job_path t es)"

definition events_of :: "string \<Rightarrow> (string \<times> job_event) list \<Rightarrow> job_event list" where
  "events_of i es = map snd (filter (\<lambda>(k, _). k = i) es)"

definition job_view :: "remote_job option \<Rightarrow> (bool \<times> bool) option" where
  "job_view j = map_option (\<lambda>j. (rj_claimed j, rj_received j)) j"

definition worker_view :: "string \<Rightarrow> remote_broker \<Rightarrow> (bool \<times> bool) option" where
  "worker_view i b = (case find_worker i b of None \<Rightarrow> None | Some w \<Rightarrow> job_view (rw_job w))"

lemma job_path_append:
  "job_path s es = Some t \<Longrightarrow> job_path s (es @ fs) = job_path t fs"
  by (induction es arbitrary: s) (auto split: option.splits)

subsection \<open>What every step keeps\<close>

text \<open>An assignment that may leave the Host.\<close>

definition outgoing :: "assignment \<Rightarrow> bool" where
  "outgoing a \<longleftrightarrow> as_prompt a = as_human_prompt a @ remote_note \<and> as_project_root a = [] \<and> as_instructions a = []"

definition worker_ok :: "string \<Rightarrow> remote_worker \<Rightarrow> bool" where
  "worker_ok i w \<longleftrightarrow> i = worker_id (rw_uid w) (rw_invitation w) \<and> wm_id (rw_member w) = i \<and>
     (\<forall>j. rw_job w = Some j \<longrightarrow> outgoing (rj_assignment j) \<and> (rj_waiting j \<noteq> None \<longrightarrow> rj_received j))"

definition broker_ok :: "remote_broker \<Rightarrow> bool" where
  "broker_ok b \<longleftrightarrow> distinct (map fst (rb_workers b)) \<and> length (rb_workers b) \<le> 32 \<and>
     (\<forall>i w. find_worker i b = Some w \<longrightarrow> worker_ok i w)"

lemma find_put [simp]: "find_worker k (put_worker i w b) = (if k = i then Some w else find_worker k b)"
  by (simp add: find_worker_def put_worker_def update_conv)

lemma put_put [simp]: "put_worker i w (put_worker i v b) = put_worker i w b"
  by (simp add: put_worker_def)

lemma length_update: "length (AList.update k v M) = (if k \<in> fst ` set M then length M else Suc (length M))"
  by (induction M) auto

lemma put_ok:
  assumes "broker_ok b" "worker_ok i w" "find_worker i b \<noteq> None \<or> length (rb_workers b) < 32"
  shows "broker_ok (put_worker i w b)"
proof -
  have "length (rb_workers (put_worker i w b)) \<le> 32"
    using assms(1,3) by (auto simp: broker_ok_def put_worker_def length_update find_worker_def map_of_eq_None_iff)
  with assms(1,2) show ?thesis
    by (simp add: broker_ok_def put_worker_def distinct_update find_worker_def update_conv)
qed

text \<open>How a request or a step of the Host changes one worker.\<close>

definition same_identity :: "remote_worker \<Rightarrow> remote_worker \<Rightarrow> bool" where
  "same_identity w v \<longleftrightarrow> rw_uid v = rw_uid w \<and> rw_invitation v = rw_invitation w \<and> rw_member v = rw_member w"

definition worker_moves :: "string \<Rightarrow> job_event list \<Rightarrow> remote_broker \<Rightarrow> remote_broker \<Rightarrow> bool" where
  "worker_moves i es b b' \<longleftrightarrow>
     (\<exists>w v. find_worker i b = Some w \<and> b' = put_worker i v b \<and> same_identity w v \<and>
        (worker_ok i w \<longrightarrow> worker_ok i v) \<and> job_path (job_view (rw_job w)) es = Some (job_view (rw_job v)))"

lemma worker_movesI:
  "find_worker i b = Some w \<Longrightarrow> same_identity w v \<Longrightarrow> (worker_ok i w \<Longrightarrow> worker_ok i v) \<Longrightarrow>
     job_path (job_view (rw_job w)) es = Some (job_view (rw_job v)) \<Longrightarrow> worker_moves i es b (put_worker i v b)"
  unfolding worker_moves_def by blast

lemma worker_moves_ok: "worker_moves i es b b' \<Longrightarrow> broker_ok b \<Longrightarrow> broker_ok b'"
  unfolding worker_moves_def by (metis broker_ok_def option.discI put_ok)

lemma worker_moves_view:
  "worker_moves i es b b' \<Longrightarrow>
     job_path (worker_view k b) (events_of k (map (Pair i) es)) = Some (worker_view k b')"
proof -
  have "events_of k (map (Pair i) es) = (if k = i then es else [])"
    by (induction es) (auto simp: events_of_def)
  then show "worker_moves i es b b' \<Longrightarrow>
     job_path (worker_view k b) (events_of k (map (Pair i) es)) = Some (worker_view k b')"
    by (auto simp: worker_moves_def worker_view_def)
qed

text \<open>A request of a worker that is known to its sender, after the lease was renewed.\<close>

lemma handled_moves:
  assumes w: "find_worker (wq_id q) b = Some w" and same: "same_identity w v" "rw_job v = rw_job w"
    and b': "b' = put_worker (wq_id q) v b"
  shows "handle_health now q v b' = (r, c) \<Longrightarrow> wq_action q = ''health'' \<Longrightarrow>
      \<exists>es. reply_events q r = map (Pair (wq_id q)) es \<and> worker_moves (wq_id q) es b c"
    and "handle_result now q v b' = (r, c) \<Longrightarrow> wq_action q = ''result'' \<Longrightarrow>
      \<exists>es. reply_events q r = map (Pair (wq_id q)) es \<and> worker_moves (wq_id q) es b c"
    and "handle_poll q v b' = (r, c) \<Longrightarrow> wq_action q = ''poll'' \<Longrightarrow>
      \<exists>es. reply_events q r = map (Pair (wq_id q)) es \<and> worker_moves (wq_id q) es b c"
proof -
  have renewed: "worker_moves (wq_id q) [] b b'"
    unfolding b' using w same by (intro worker_movesI [OF w]) (auto simp: same_identity_def worker_ok_def)
  show "\<exists>es. reply_events q r = map (Pair (wq_id q)) es \<and> worker_moves (wq_id q) es b c"
    if "handle_health now q v b' = (r, c)" "wq_action q = ''health''"
  proof -
    let ?u = "v\<lparr>rw_healthy := wq_healthy q, rw_healthy_until := now + 1800 * second\<rparr>"
    have "worker_moves (wq_id q) [] b (put_worker (wq_id q) ?u b)"
      using w same by (intro worker_movesI [OF w]) (auto simp: same_identity_def worker_ok_def)
    with that renewed b' show ?thesis
      by (intro exI [of _ "[]"]) (auto simp: handle_health_def reply_events_def no_reply_def split: if_splits)
  qed
  show "\<exists>es. reply_events q r = map (Pair (wq_id q)) es \<and> worker_moves (wq_id q) es b c"
    if run: "handle_result now q v b' = (r, c)" and action: "wq_action q = ''result''"
  proof (cases r)
    case (Inl e)
    with run have "c = b'" by (auto simp: handle_result_def split: if_splits option.splits)
    with renewed Inl show ?thesis by (intro exI [of _ "[]"]) (simp add: reply_events_def)
  next
    case (Inr y)
    with run obtain j u where j: "rw_job v = Some j" "\<not> rj_received j" and c: "c = put_worker (wq_id q) u b'"
        and u: "same_identity v u" "rw_job u = Some (j\<lparr>rj_waiting := Some \<lparr>re_workspace_path = [], re_changes = wq_changes q,
                          re_step_id = [], re_agent_id = wq_id q, re_text = wq_text q\<rparr>,
                        rj_failed := wq_failed q, rj_received := True\<rparr>)" and y: "wy_assignment y = None"
      by (auto simp: handle_result_def no_reply_def same_identity_def split: if_splits option.splits)
    have "worker_moves (wq_id q) [Answered] b (put_worker (wq_id q) u b)"
      using same(1) u j by (intro worker_movesI [OF w])
        (auto simp: same_identity_def worker_ok_def job_view_def simp flip: same(2))
    with Inr y action c b' show ?thesis by (intro exI [of _ "[Answered]"]) (simp add: reply_events_def)
  qed
  show "\<exists>es. reply_events q r = map (Pair (wq_id q)) es \<and> worker_moves (wq_id q) es b c"
    if run: "handle_poll q v b' = (r, c)" and action: "wq_action q = ''poll''"
  proof (cases "\<exists>j. rw_job v = Some j \<and> \<not> rj_received j \<and> \<not> rj_claimed j \<and> \<not> rj_cancel j")
    case True
    then obtain j where j: "rw_job v = Some j" "\<not> rj_received j" "\<not> rj_claimed j" "\<not> rj_cancel j" by blast
    let ?u = "v\<lparr>rw_job := Some (j\<lparr>rj_claimed := True\<rparr>)\<rparr>"
    have "worker_moves (wq_id q) [Delivered] b (put_worker (wq_id q) ?u b)"
      using same(1) j by (intro worker_movesI [OF w])
        (auto simp: same_identity_def worker_ok_def job_view_def simp flip: same(2))
    with run j action b' show ?thesis
      by (intro exI [of _ "[Delivered]"]) (auto simp: handle_poll_def reply_events_def)
  next
    case False
    with run have "c = b'" "reply_events q r = []"
      using action by (auto simp: handle_poll_def reply_events_def no_reply_def Let_def split: if_splits option.splits)
    with renewed show ?thesis by (intro exI [of _ "[]"]) simp
  qed
qed

lemma if_elims: "(if P then x else y) = z \<Longrightarrow> (P \<Longrightarrow> x = z \<Longrightarrow> Q) \<Longrightarrow> (\<not> P \<Longrightarrow> y = z \<Longrightarrow> Q) \<Longrightarrow> Q"
  by (simp split: if_splits)

lemma asked_moves:
  assumes "HandleMember now u n q b = (r, b')" "wq_action q \<noteq> ''invite''"
  shows "(b' = b \<and> reply_events q r = []) \<or>
     (\<exists>w es. find_worker (wq_id q) b = Some w \<and> rw_uid w = u \<and>
        reply_events q r = map (Pair (wq_id q)) es \<and> worker_moves (wq_id q) es b b')"
proof (cases "find_worker (wq_id q) b")
  case None
  with assms show ?thesis by (auto simp: HandleMember_def reply_events_def)
next
  case (Some w)
  show ?thesis
  proof (cases "rw_uid w = u")
    case False
    with Some assms show ?thesis by (auto simp: HandleMember_def reply_events_def)
  next
    case owner: True
    consider "wq_action q = ''leave''" | "wq_action q \<noteq> ''leave''" "rw_lease w < now"
      | "wq_action q \<noteq> ''leave''" "\<not> rw_lease w < now" by blast
    then show ?thesis
    proof cases
      case 1
      then have "handle_leave q w b = (r, b')" using assms Some owner by (simp add: HandleMember_def)
      then have b': "b' = put_worker (wq_id q) (on_job (rj_cancel_update (\<lambda>_. True)) (w\<lparr>rw_healthy := False, rw_lease := 0\<rparr>)) b"
          and "reply_events q r = map (Pair (wq_id q)) []"
        using 1 by (auto simp: handle_leave_def reply_events_def no_reply_def)
      moreover have "worker_moves (wq_id q) [] b b'"
        unfolding b' by (intro worker_movesI [OF Some])
          (auto simp: same_identity_def worker_ok_def on_job_def job_view_def option.map_comp comp_def)
      ultimately show ?thesis using Some owner by blast
    next
      case 2
      with assms Some owner show ?thesis by (auto simp: HandleMember_def reply_events_def)
    next
      case 3
      let ?v = "w\<lparr>rw_lease := now + 90 * second\<rparr>"
      let ?b = "put_worker (wq_id q) ?v b"
      have same: "same_identity w ?v" "rw_job ?v = rw_job w" by (simp_all add: same_identity_def)
      note moves = handled_moves [OF Some same refl]
      have renewed: "worker_moves (wq_id q) [] b ?b"
        using same by (intro worker_movesI [OF Some]) (auto simp: worker_ok_def)
      have run: "(if wq_action q = ''health'' then handle_health now q ?v ?b
              else if wq_action q = ''result'' then handle_result now q ?v ?b
              else if wq_action q = ''poll'' then handle_poll q ?v ?b
              else (Inl ErrWorkerAction, ?b)) = (r, b')"
        using assms Some owner 3 by (simp add: HandleMember_def Let_def)
      then have "\<exists>es. reply_events q r = map (Pair (wq_id q)) es \<and> worker_moves (wq_id q) es b b'"
        using moves renewed
        by (elim if_elims) (blast, blast, blast, auto simp: reply_events_def intro!: exI [of _ "[]"])
      with Some owner show ?thesis by blast
    qed
  qed
qed

subsection \<open>Invitations\<close>

lemma worker_id_inject: "worker_id u k = worker_id v l \<Longrightarrow> u = v"
proof -
  assume "worker_id u k = worker_id v l"
  then have "show_nat u @ CHR ''-'' # take 12 k = show_nat v @ CHR ''-'' # take 12 l" by (simp add: worker_id_def)
  then have "takeWhile is_digit (show_nat u @ CHR ''-'' # take 12 k) = takeWhile is_digit (show_nat v @ CHR ''-'' # take 12 l)"
    by simp
  moreover have "takeWhile is_digit (show_nat n @ CHR ''-'' # t) = show_nat n" for n t
    using show_nat_digits [of n] by (subst takeWhile_append2) (auto simp: list_all_iff is_digit_def in_range_def)
  ultimately have "show_nat u = show_nat v" by simp
  then show "u = v" using show_nat_digits by metis
qed

lemma drop_expired_find:
  assumes "broker_ok b"
  shows "find_worker i (drop_expired now b) =
     (case find_worker i b of None \<Rightarrow> None
      | Some w \<Rightarrow> if rw_lease w < now \<and> rw_job w = None then None else Some w)"
proof -
  have "map_of (filter (\<lambda>(i, w). P w) M) i = (case map_of M i of None \<Rightarrow> None | Some w \<Rightarrow> if P w then Some w else None)"
    if "distinct (map fst M)" for P and M :: "(string \<times> remote_worker) list"
    using that by (induction M) (auto split: option.splits simp: map_of_eq_None_iff)
  from this [of "rb_workers b" "\<lambda>w. \<not> (rw_lease w < now \<and> rw_job w = None)"] assms show ?thesis
    by (simp add: drop_expired_def find_worker_def broker_ok_def split: option.split)
qed

lemma drop_expired_ok: "broker_ok b \<Longrightarrow> broker_ok (drop_expired now b)"
proof -
  assume b: "broker_ok b"
  have "distinct (map fst (rb_workers (drop_expired now b)))" "length (rb_workers (drop_expired now b)) \<le> 32"
    using b by (auto simp: broker_ok_def drop_expired_def intro: distinct_map_filter le_trans [OF length_filter_le])
  with b show ?thesis
    by (auto simp: broker_ok_def drop_expired_find [OF b] split: option.splits if_splits)
qed

text \<open>
  An invitation renews a worker of its sender, or drops expired workers without a job and adds
  one of its sender; it touches no other worker.
\<close>

lemma invited:
  assumes "HandleMember now u n q b = (r, b')" "wq_action q = ''invite''" "broker_ok b"
  shows "reply_events q r = [] \<and> broker_ok b' \<and>
     (\<forall>k. k \<noteq> worker_id u (wq_id q) \<longrightarrow>
        find_worker k b' = find_worker k b \<or> find_worker k b' = find_worker k (drop_expired now b)) \<and>
     worker_view (worker_id u (wq_id q)) b' = worker_view (worker_id u (wq_id q)) b"
proof -
  let ?i = "worker_id u (wq_id q)"
  have run: "handle_invite now u n q b = (r, b')" using assms(1,2) by (simp add: HandleMember_def)
  have part: "(\<exists>e. r = Inl e \<and> b' = b) \<or> (\<exists>name. invite_worker now ?i name u q b = (r, b'))"
    using run by (force simp: handle_invite_def Let_def split: if_splits sum.splits)
  have "wy_assignment y = None" if "invite_worker now ?i name u q b = (Inr y, b')" for name y
    using that by (auto simp: invite_worker_def renew_invitation_def no_reply_def Let_def split: if_splits option.splits)
  with part assms(2) have events: "reply_events q r = []"
    by (auto simp: reply_events_def split: sum.split)
  consider "b' = b"
    | w where "find_worker ?i b = Some w"
        "b' = put_worker ?i (w\<lparr>rw_healthy := (if rw_lease w < now then False else rw_healthy w), rw_lease := now + 90 * second\<rparr>) b"
    | "find_worker ?i b = None" "b' = drop_expired now b"
    | name where "find_worker ?i b = None" "length (rb_workers (drop_expired now b)) < 32"
        "b' = (put_worker ?i (new_worker now ?i name u q (rb_next (drop_expired now b))) (drop_expired now b))
           \<lparr>rb_next := rb_next (drop_expired now b) + 1\<rparr>"
  proof -
    from part consider "b' = b" | name where "invite_worker now ?i name u q b = (r, b')" by blast
    then show thesis
    proof cases
      case (2 name)
      show thesis
      proof (cases "find_worker ?i b")
        case None
        with 2 that(3) that(4) [of name] show thesis
          by (simp add: invite_worker_def Let_def not_le split: if_splits)
      next
        case (Some w)
        with 2 have "b' = b \<or> b' = put_worker ?i (w\<lparr>rw_healthy := (if rw_lease w < now then False else rw_healthy w),
            rw_lease := now + 90 * second\<rparr>) b"
          by (auto simp: invite_worker_def renew_invitation_def split: if_splits)
        with Some that(1,2) show thesis by blast
      qed
    qed (rule that(1))
  qed
  then show ?thesis
  proof cases
    case 1
    with events assms(3) show ?thesis by simp
  next
    case (2 w)
    then have "worker_ok ?i w" using assms(3) by (simp add: broker_ok_def)
    with 2 assms(3) have "broker_ok b'" by (simp add: put_ok worker_ok_def)
    with 2 events show ?thesis by (simp add: worker_view_def)
  next
    case 3
    with events drop_expired_ok [OF assms(3)] show ?thesis
      by (simp add: worker_view_def drop_expired_find [OF assms(3)])
  next
    case (4 name)
    let ?w = "new_worker now ?i name u q (rb_next (drop_expired now b))"
    have "worker_ok ?i ?w" by (simp add: worker_ok_def new_worker_def invited_member_def)
    then have "broker_ok (put_worker ?i ?w (drop_expired now b))"
      using 4(2) by (intro put_ok drop_expired_ok assms(3)) simp_all
    moreover have found: "find_worker k b' = find_worker k (put_worker ?i ?w (drop_expired now b))" for k
      by (simp add: 4(3) find_worker_def)
    moreover have "rb_workers b' = rb_workers (put_worker ?i ?w (drop_expired now b))" by (simp add: 4(3))
    ultimately have "broker_ok b'" by (simp add: broker_ok_def)
    moreover have "worker_view ?i b' = worker_view ?i b"
      by (simp add: worker_view_def found new_worker_def job_view_def 4(1))
    ultimately show ?thesis using events found by simp
  qed
qed

subsection \<open>Histories\<close>

lemma job_events_Nil [simp]: "events_of i [] = []"
  by (simp add: events_of_def)

lemma job_events_append: "events_of i (es @ fs) = events_of i es @ events_of i fs"
  by (simp add: events_of_def)

lemma moved_step:
  "worker_moves i es b b' \<Longrightarrow> broker_ok b \<Longrightarrow>
     broker_ok b' \<and> job_path (worker_view k b) (events_of k (map (Pair i) es)) = Some (worker_view k b')"
  by (simp add: worker_moves_ok worker_moves_view)

lemma outgoing_remote: "outgoing (remote_assignment workspace a)"
  by (auto simp: outgoing_def remote_assignment_def split: option.split)

lemma reserve_moves:
  assumes "run_reserve now address i nonce workspace a b = Inr b'"
  shows "worker_moves i [Reserved] b b'"
proof -
  obtain w j where w: "find_worker i b = Some w" "rw_job w = None"
      and b': "b' = put_worker i (w\<lparr>rw_job := Some j\<rparr>) b"
      and j: "rj_assignment j = remote_assignment workspace a" "\<not> rj_claimed j" "\<not> rj_received j" "rj_waiting j = None"
    using assms by (fastforce simp: run_reserve_def worker_free_def split: option.splits if_splits)
  show ?thesis
    unfolding b' using w j outgoing_remote
    by (intro worker_movesI [OF w(1)]) (auto simp: same_identity_def worker_ok_def job_view_def)
qed

lemma take_moves:
  assumes "run_take i b = Some (r, failed, b')"
  shows "worker_moves i [] b b'"
proof -
  obtain w j where w: "find_worker i b = Some w" "rw_job w = Some j"
      and b': "b' = put_worker i (on_job (rj_waiting_update (\<lambda>_. None)) w) b"
    using assms by (auto simp: run_take_def split: option.splits)
  show ?thesis
    unfolding b' using w
    by (intro worker_movesI [OF w(1)]) (auto simp: same_identity_def worker_ok_def job_view_def on_job_def)
qed

lemma cancel_moves:
  assumes "run_cancel i b = (claimed, b')"
  shows "b' = b \<or> worker_moves i [] b b'"
proof (cases "find_worker i b")
  case (Some w)
  then have b': "b' = put_worker i (on_job (rj_cancel_update (\<lambda>_. True)) w) b"
    using assms by (simp add: run_cancel_def)
  have "worker_moves i [] b b'"
    unfolding b' by (intro worker_movesI [OF Some])
      (auto simp: same_identity_def worker_ok_def on_job_def job_view_def option.map_comp comp_def)
  then show ?thesis ..
qed (use assms in \<open>simp add: run_cancel_def\<close>)

lemma release_moves:
  assumes w: "find_worker i b = Some w" "rw_job w \<noteq> None"
  shows "worker_moves i [Released] b (run_release i b)"
proof -
  obtain j where j: "rw_job w = Some j" using w(2) by blast
  have "run_release i b = put_worker i (w\<lparr>rw_job := None\<rparr>) b" using w(1) by (simp add: run_release_def)
  moreover have "worker_moves i [Released] b (put_worker i (w\<lparr>rw_job := None\<rparr>) b)"
    using j by (intro worker_movesI [OF w(1)]) (auto simp: same_identity_def worker_ok_def job_view_def)
  ultimately show ?thesis by simp
qed

lemma step_follows:
  assumes "broker_step b es b'" "broker_ok b"
  shows "broker_ok b' \<and> job_path (worker_view k b) (events_of k es) = Some (worker_view k b')"
  using assms
proof cases
  case (asked now u n q r)
  show ?thesis
  proof (cases "wq_action q = ''invite''")
    case True
    note inv = invited [OF asked(2) True assms(2)]
    have "worker_view k b' = worker_view k b"
    proof (cases "k = worker_id u (wq_id q)")
      case False
      with inv have "find_worker k b' = find_worker k b \<or> find_worker k b' = find_worker k (drop_expired now b)" by blast
      then show ?thesis
        by (auto simp: worker_view_def drop_expired_find [OF assms(2)] job_view_def split: option.splits if_splits)
    qed (use inv in simp)
    with inv show ?thesis by (simp add: asked(1))
  next
    case False
    from asked_moves [OF asked(2) False] moved_step [OF _ assms(2)] show ?thesis
      using assms(2) by (auto simp: asked(1))
  qed
next
  case (reserved now address i nonce workspace a)
  with moved_step [OF reserve_moves [OF reserved(2)] assms(2), of k] show ?thesis by simp
next
  case (taken i r failed)
  with moved_step [OF take_moves [OF taken(2)] assms(2), of k] show ?thesis by simp
next
  case (cancelled i claimed)
  with cancel_moves [OF cancelled(2)] moved_step [of i "[]" b b' k] assms(2) show ?thesis by auto
next
  case (released i w)
  with moved_step [OF release_moves [OF released(3,4)] assms(2), of k] show ?thesis by simp
qed

lemma jobs_protocol:
  "broker_run b0 es b \<Longrightarrow> broker_ok b \<and> job_path None (events_of i es) = Some (worker_view i b)"
proof (induction rule: broker_run.induct)
  case (started root)
  show ?case
    by (simp add: broker_ok_def NewProjectRemoteBroker_def NewRemoteBroker_def find_worker_def worker_view_def)
next
  case (stepped b0 es b fs b')
  then have ok: "broker_ok b" and path: "job_path None (events_of i es) = Some (worker_view i b)" by simp_all
  from step_follows [OF stepped(2) ok, of i] show ?case
    by (simp add: job_events_append job_path_append [OF path])
qed

text \<open>Only a poll hands out an assignment, and it is the one of the worker's job.\<close>

lemma handed_out:
  assumes "HandleMember now u n q b = (Inr y, b')" "wy_assignment y = Some a"
  obtains w j where "find_worker (wq_id q) b = Some w" "rw_job w = Some j" "rj_assignment j = a"
proof -
  have invite: "wy_assignment y = None" if "handle_invite now u n q b = (Inr y, b')"
    using that by (auto simp: handle_invite_def invite_worker_def renew_invitation_def no_reply_def Let_def
        split: if_splits option.splits sum.splits)
  have no: "wy_assignment y = None"
    if "handle_leave q v c = (Inr y, b') \<or> handle_health now q v c = (Inr y, b') \<or> handle_result now q v c = (Inr y, b')" for v c
    using that by (auto simp: handle_leave_def handle_health_def handle_result_def no_reply_def
        split: if_splits option.splits)
  have poll: "\<exists>j. rw_job v = Some j \<and> rj_assignment j = a" if "handle_poll q v c = (Inr y, b')" for v c
    using that assms(2) by (auto simp: handle_poll_def no_reply_def Let_def split: if_splits option.splits)
  show thesis
  proof (cases "wq_action q = ''invite''")
    case True
    with assms invite show thesis by (simp add: HandleMember_def)
  next
    case False
    with assms(1) obtain w where w: "find_worker (wq_id q) b = Some w" by (auto simp: HandleMember_def split: option.splits)
    let ?v = "w\<lparr>rw_lease := now + 90 * second\<rparr>"
    have "handle_leave q w b = (Inr y, b') \<or> handle_health now q ?v (put_worker (wq_id q) ?v b) = (Inr y, b') \<or>
        handle_result now q ?v (put_worker (wq_id q) ?v b) = (Inr y, b') \<or> handle_poll q ?v (put_worker (wq_id q) ?v b) = (Inr y, b')"
      using assms(1) False w by (auto simp: HandleMember_def Let_def split: if_splits)
    with no assms(2) have "handle_poll q ?v (put_worker (wq_id q) ?v b) = (Inr y, b')" by (metis option.discI)
    from poll [OF this] w that show thesis by auto
  qed
qed

subsection \<open>Properties\<close>

text \<open>
  C35. In every history of the broker the jobs of a worker follow the protocol: a job is reserved
  only when the worker has none, its assignment is handed out at most once and never after an
  answer, an answer is accepted at most once, and the job ends by its release. There are never
  more than 32 workers, each under the id of the member who invited it.
\<close>

theorem jobs_follow_protocol:
  assumes "broker_run b0 es b"
  shows "distinct (map fst (rb_workers b)) \<and> length (rb_workers b) \<le> 32 \<and>
     (\<forall>(i, w) \<in> set (rb_workers b). i = worker_id (rw_uid w) (rw_invitation w)) \<and>
     (\<forall>i. job_path None (events_of i es) = Some (worker_view i b))"
  using jobs_protocol [OF assms] by (auto simp: broker_ok_def worker_ok_def find_worker_def)

text \<open>
  C36. A request never touches the workers of other members, except that an invitation forgets a
  worker whose lease has ended and that has no job.
\<close>

theorem foreign_requests_harmless:
  assumes "broker_run b0 es b" "HandleMember now u n q b = (r, b')"
    "find_worker i b = Some w" "rw_uid w \<noteq> u"
  shows "find_worker i b' = Some w \<or>
     (wq_action q = ''invite'' \<and> rw_lease w < now \<and> rw_job w = None \<and> find_worker i b' = None)"
proof -
  have ok: "broker_ok b" using jobs_protocol assms(1) by blast
  with assms(3) have i: "i = worker_id (rw_uid w) (rw_invitation w)" by (simp add: broker_ok_def worker_ok_def)
  show ?thesis
  proof (cases "wq_action q = ''invite''")
    case True
    have "i \<noteq> worker_id u (wq_id q)" using i assms(4) worker_id_inject by blast
    with invited [OF assms(2) True ok]
    have "find_worker i b' = find_worker i b \<or> find_worker i b' = find_worker i (drop_expired now b)" by blast
    with True assms(3) show ?thesis by (auto simp: drop_expired_find [OF ok] split: if_splits)
  next
    case False
    from asked_moves [OF assms(2) False] show ?thesis
      using assms(3,4) by (auto simp: worker_moves_def split: if_splits)
  qed
qed

text \<open>
  C37. An assignment handed to a remote worker carries the accepted human text and the note for
  remote work as its prompt, and neither the Host's project path nor a member's instructions.
\<close>

theorem assignments_outgoing:
  assumes "broker_run b0 es b" "HandleMember now u n q b = (Inr y, b')" "wy_assignment y = Some a"
  shows "as_prompt a = as_human_prompt a @ remote_note \<and> as_project_root a = [] \<and> as_instructions a = []"
proof -
  have ok: "broker_ok b" using jobs_protocol assms(1) by blast
  obtain w j where "find_worker (wq_id q) b = Some w" "rw_job w = Some j" "rj_assignment j = a"
    using handed_out [OF assms(2,3)] by blast
  with ok have "outgoing a" by (auto simp: broker_ok_def worker_ok_def)
  then show ?thesis by (simp add: outgoing_def)
qed

subsection \<open>Examples\<close>

definition demo_invitation :: string where
  "demo_invitation = replicate 32 (CHR ''a'')"

definition demo_request :: "string \<Rightarrow> string \<Rightarrow> worker_request" where
  "demo_request action i = \<lparr>wq_healthy = True, wq_agent_name = [], wq_scope = [], wq_changes = [], wq_action = action,
     wq_id = i, wq_provider = ''codex'', wq_mode = ''review'', wq_job_id = ''00'', wq_text = ''done'', wq_failed = False\<rparr>"

definition demo_worker_id :: string where
  "demo_worker_id = ''w7-aaaaaaaaaaaa''"

definition demo_worker :: "int \<Rightarrow> remote_job option \<Rightarrow> bool \<Rightarrow> remote_broker" where
  "demo_worker until job healthy = \<lparr>rb_root = [],
     rb_workers = [(demo_worker_id, \<lparr>rw_healthy_until = until, rw_healthy = healthy, rw_scope = [],
       rw_invitation = demo_invitation, rw_uid = 7,
       rw_member = no_member\<lparr>wm_id := demo_worker_id, wm_name := ''lumos-Codex'', wm_provider := ''remote'',
         wm_description := ''codex'', wm_mode := ''review'', wm_timeout := 1800\<rparr>,
       rw_lease = 90000000001, rw_job = job, rw_address = 0\<rparr>)],
     rb_next = 1\<rparr>"

definition demo_assignment :: assignment where
  "demo_assignment = \<lparr>as_workspace = None, as_step_id = [], as_step_prompt = [], as_depends = [], as_version = 1,
     as_id = ''id'', as_agent_id = demo_worker_id, as_human_uid = 9, as_project_root = ''/host'', as_task_id = 0,
     as_human_prompt = ''review'', as_prompt = ''secret'', as_instructions = ''inner'', as_prior = []\<rparr>"

definition demo_job :: "bool \<Rightarrow> remote_job" where
  "demo_job claimed = \<lparr>rj_id = ''00'', rj_assignment = remote_assignment None demo_assignment, rj_claimed = claimed,
     rj_cancel = False, rj_waiting = None, rj_failed = False, rj_received = False\<rparr>"

lemma demo_asks:
  "HandleMember 1 7 ''lumos'' (demo_request ''invite'' demo_invitation) (NewProjectRemoteBroker []) =
     (Inr (no_reply\<lparr>wy_id := demo_worker_id, wy_name := ''lumos-Codex'', wy_state := ''joined''\<rparr>), demo_worker 0 None False)"
  "HandleMember 1 7 ''lumos'' (demo_request ''health'' demo_worker_id) (demo_worker 0 None False) =
     (Inr (no_reply\<lparr>wy_id := demo_worker_id, wy_state := ''health-accepted''\<rparr>), demo_worker 1800000000001 None True)"
  "run_reserve 1 0 demo_worker_id (Some [CHR 0x00]) None demo_assignment (demo_worker 1800000000001 None True) =
     Inr (demo_worker 1800000000001 (Some (demo_job False)) True)"
  "HandleMember 1 7 ''lumos'' (demo_request ''poll'' demo_worker_id) (demo_worker 1800000000001 (Some (demo_job False)) True) =
     (Inr (no_reply\<lparr>wy_id := demo_worker_id, wy_state := ''working'', wy_job_id := ''00'',
        wy_assignment := Some (remote_assignment None demo_assignment)\<rparr>), demo_worker 1800000000001 (Some (demo_job True)) True)"
proof -
  have "trim_with go_spaces ''lumos'' = ''lumos''" "trim_with (map rev go_spaces) (rev ''lumos'') = rev ''lumos''"
    by (rule trim_with_id, simp add: go_spaces_def)+
  then have trim: "trim_space ''lumos'' = ''lumos''" "trim_space [] = []" by (simp_all add: trim_space_def)
  have safe: "runes ''Codex'' = [67, 111, 100, 101, 120]" by (simp add: runes_ascii runes.simps [of "[]"])
  have number: "show_nat 7 = ''7''" by code_simp
  have invitation: "ValidClientMessageID demo_invitation"
    by (simp add: ValidClientMessageID_def validHexID_def demo_invitation_def lower_hex_def list_all_iff)
  have twelve: "replicate 12 (CHR ''a'') = ''aaaaaaaaaaaa''" by (simp add: numeral_eq_Suc)
  have i: "worker_id 7 demo_invitation = demo_worker_id"
    by (simp add: worker_id_def number demo_invitation_def demo_worker_id_def twelve)
  show "HandleMember 1 7 ''lumos'' (demo_request ''invite'' demo_invitation) (NewProjectRemoteBroker []) =
     (Inr (no_reply\<lparr>wy_id := demo_worker_id, wy_name := ''lumos-Codex'', wy_state := ''joined''\<rparr>), demo_worker 0 None False)"
    by (simp add: Let_def HandleMember_def handle_invite_def invite_worker_def demo_request_def AgentName_def trim safe i invitation
        default_agent_name_def utf8_valid_ascii in_range_def is_control_rune_def is_format_rune_def format_ranges_def
        worker_name_def NewProjectRemoteBroker_def NewRemoteBroker_def find_worker_def drop_expired_def put_worker_def
        new_worker_def invited_member_def demo_worker_def second_def)
  show "HandleMember 1 7 ''lumos'' (demo_request ''health'' demo_worker_id) (demo_worker 0 None False) =
     (Inr (no_reply\<lparr>wy_id := demo_worker_id, wy_state := ''health-accepted''\<rparr>), demo_worker 1800000000001 None True)"
    by (simp add: Let_def HandleMember_def handle_health_def demo_request_def find_worker_def put_worker_def demo_worker_def second_def)
  have hex: "hex_encode [CHR 0x00] = ''00''" by code_simp
  show "run_reserve 1 0 demo_worker_id (Some [CHR 0x00]) None demo_assignment (demo_worker 1800000000001 None True) =
     Inr (demo_worker 1800000000001 (Some (demo_job False)) True)"
    by (simp add: run_reserve_def find_worker_def put_worker_def demo_worker_def worker_free_def demo_job_def hex)
  show "HandleMember 1 7 ''lumos'' (demo_request ''poll'' demo_worker_id) (demo_worker 1800000000001 (Some (demo_job False)) True) =
     (Inr (no_reply\<lparr>wy_id := demo_worker_id, wy_state := ''working'', wy_job_id := ''00'',
        wy_assignment := Some (remote_assignment None demo_assignment)\<rparr>), demo_worker 1800000000001 (Some (demo_job True)) True)"
    by (simp add: Let_def HandleMember_def handle_poll_def demo_request_def find_worker_def put_worker_def demo_worker_def second_def
        demo_job_def no_reply_def)
qed

lemma demo_run: "broker_run (NewProjectRemoteBroker []) [(demo_worker_id, Reserved)] (demo_worker 1800000000001 (Some (demo_job False)) True)"
proof -
  note run = broker_run.stepped [OF broker_run.stepped [OF broker_run.stepped [OF broker_run.started [of "[]"]
        broker_step.asked [OF demo_asks(1)]] broker_step.asked [OF demo_asks(2)]] broker_step.reserved [OF demo_asks(3)]]
  then show ?thesis by (simp add: reply_events_def no_reply_def demo_request_def)
qed

lemma jobs_follow_protocol_witness:
  "job_path None (events_of demo_worker_id [(demo_worker_id, Reserved), (demo_worker_id, Delivered)]) = Some (Some (True, False))"
proof -
  have "broker_run (NewProjectRemoteBroker []) ([(demo_worker_id, Reserved)] @ [(demo_worker_id, Delivered)])
      (demo_worker 1800000000001 (Some (demo_job True)) True)"
    using broker_run.stepped [OF demo_run broker_step.asked [OF demo_asks(4)]]
    by (simp add: reply_events_def no_reply_def demo_request_def)
  from jobs_follow_protocol [OF this] show ?thesis
    by (simp add: worker_view_def find_worker_def demo_worker_def job_view_def demo_job_def)
qed

lemma foreign_requests_harmless_witness:
  "find_worker demo_worker_id (snd (HandleMember 1 8 ''eve'' (demo_request ''leave'' demo_worker_id)
     (demo_worker 1800000000001 (Some (demo_job False)) True))) =
   find_worker demo_worker_id (demo_worker 1800000000001 (Some (demo_job False)) True)"
  using foreign_requests_harmless [OF demo_run surjective_pairing, of demo_worker_id _ 8 1 "''eve''" "demo_request ''leave'' demo_worker_id"]
  by (simp add: find_worker_def demo_worker_def demo_request_def)

lemma assignments_outgoing_witness:
  "as_prompt (remote_assignment None demo_assignment) = ''review'' @ remote_note"
  using assignments_outgoing [OF demo_run demo_asks(4)] by (simp add: no_reply_def remote_assignment_def demo_assignment_def)

end
