(* ===== verification/Workgroup_Runtime.thy ===== *)
theory Workgroup_Runtime
  imports Workgroup_Inferred Remote_Worker
begin

text \<open>
  The executor of planned work (\<^verbatim>\<open>internal/workgroup/runtime.go\<close>): which submissions it takes over,
  and \<^verbatim>\<open>execute\<close>, which runs the steps of a plan one after another, saves every item before it
  is shown and reports one outcome. What the database, the contexts, the model and the workers
  answer is an environment read at a counter that grows with every look, so any behaviour of
  them is covered. Items are values with the data their payload is printed from; the log of an
  execution lists what it did.
\<close>

datatype run_failure = FailUnknown | FailOther | FailPlan plan_error

datatype workgroup_item =
    PlanningItem
  | PlanFailedItem run_failure
  | PlanAgreedItem "step list"
  | StartItem nat nat bool planned_step
  | AnswerItem nat string planned_step bytes
  | WorkflowItem string "(step \<times> string) list"

datatype run_action =
    SaveItems "workgroup_item list" bool
  | SaveSteps "(step \<times> string) list" bool
  | EmitItem workgroup_item bool
  | AskPlan "run_failure + execution_plan"
  | CallWorker work_member assignment "run_failure + work_result"
  | SaveState request_state bool
  | EmitEnd string

record run_env =
  en_db :: "nat \<Rightarrow> bool"
  en_open :: "nat \<Rightarrow> bool"
  en_stopped :: "nat \<Rightarrow> bool"
  en_expired :: "nat \<Rightarrow> bool"
  en_plan :: "nat \<Rightarrow> run_failure + bytes"
  en_work :: "nat \<Rightarrow> work_member \<Rightarrow> assignment \<Rightarrow> run_failure + work_result"

record execution =
  rn_tick :: nat
  rn_items :: "workgroup_item list"
  rn_receipts :: "(step \<times> string) list"
  rn_results :: "string \<Rightarrow> work_result option"
  rn_state :: request_state
  rn_failure :: "run_failure option"
  rn_log :: "run_action list"

definition no_result :: work_result where
  "no_result = \<lparr>re_workspace_path = [], re_changes = [], re_step_id = [], re_agent_id = [], re_text = []\<rparr>"

definition fresh_execution :: execution where
  "fresh_execution = \<lparr>rn_tick = 0, rn_items = [], rn_receipts = [], rn_results = Map.empty,
     rn_state = RequestCompleted, rn_failure = None, rn_log = []\<rparr>"

subsection \<open>Submissions\<close>

text \<open>The directory a plan is made from: the configured members and the remote ones.\<close>

definition directory :: "agent_config \<Rightarrow> work_member list \<Rightarrow> agent_config" where
  "directory c remote = c\<lparr>ac_members := ac_members c @ remote\<rparr>"

definition ValidateSubmission :: "agent_config \<Rightarrow> bytes \<Rightarrow> plan_error option" where
  "ValidateSubmission c text = (case Plan c text of Inl e \<Rightarrow> Some e | Inr _ \<Rightarrow> None)"

definition AgentMembers :: "agent_config \<Rightarrow> string \<Rightarrow> (work_member \<times> string) list" where
  "AgentMembers c current =
     map (\<lambda>m. (m, if current = wm_id m then ''working'' else ''idle'')) (ac_members c)"

datatype start_error = StartPlan plan_error | StartNoHuman | StartActive | StartReserved

text \<open>
  \<^verbatim>\<open>StartTurnFor\<close>: hand the turn to the project's own session, refuse it before anything was sent,
  or reserve a row and run the plan. A row whose turn is already recorded, or a failing
  statement, is a refusal.
\<close>

datatype start_decision =
    StartDelegated
  | StartRefused start_error
  | StartRun string execution_plan assignment

definition workgroup_turn :: "string \<Rightarrow> turn_id" where
  "workgroup_turn i = ''workgroup-'' @ i"

definition direct_codex :: "execution_plan \<Rightarrow> bool" where
  "direct_codex p \<longleftrightarrow> \<not> xp_explicit p \<and> \<not> xp_automatic p \<and> length (xp_steps p) = 1 \<and>
     st_agent (ps_step (xp_steps p ! 0)) = ''codex''"

definition first_assignment :: "string \<Rightarrow> uid \<Rightarrow> string \<Rightarrow> submit_input \<Rightarrow> bytes \<Rightarrow> assignment" where
  "first_assignment i u root input text = \<lparr>as_workspace = None, as_step_id = [], as_step_prompt = [],
     as_depends = [], as_version = 1, as_id = i, as_agent_id = [], as_human_uid = u, as_project_root = root,
     as_task_id = si_task_id input, as_human_prompt = si_text input, as_prompt = text, as_instructions = [],
     as_prior = []\<rparr>"

definition StartTurnFor :: "agent_config \<Rightarrow> string \<Rightarrow> turn_id \<Rightarrow> string list \<Rightarrow> bool \<Rightarrow> submit_input option
    \<Rightarrow> string \<Rightarrow> uid \<Rightarrow> bytes \<Rightarrow> start_decision" where
  "StartTurnFor c root active recorded db_ok input i u text =
     (case input of
        None \<Rightarrow> StartDelegated
      | Some q \<Rightarrow>
          (case Plan c (si_text q) of
             Inl e \<Rightarrow> StartRefused (StartPlan e)
           | Inr p \<Rightarrow>
               if (xp_steps p = [] \<and> \<not> xp_automatic p) \<or> direct_codex p then StartDelegated
               else if u = 0 then StartRefused StartNoHuman
               else if active \<noteq> [] then StartRefused StartActive
               else if workgroup_turn i \<in> set recorded \<or> \<not> db_ok then StartRefused StartReserved
               else StartRun (workgroup_turn i) p (first_assignment i u root q text)))"

datatype turn_request = TurnDelegated | TurnStopped | TurnBusy

definition InterruptRun :: "turn_id \<Rightarrow> bool \<Rightarrow> turn_id \<Rightarrow> turn_request" where
  "InterruptRun active stoppable turn = (if active = turn \<and> stoppable then TurnStopped else TurnDelegated)"

definition SteerRun :: "turn_id \<Rightarrow> turn_id \<Rightarrow> turn_request" where
  "SteerRun active turn = (if active = turn then TurnBusy else TurnDelegated)"

subsection \<open>Primitives of an execution\<close>

definition look :: "(nat \<Rightarrow> 'a) \<Rightarrow> execution \<Rightarrow> 'a \<times> execution" where
  "look f s = (f (rn_tick s), s\<lparr>rn_tick := rn_tick s + 1\<rparr>)"

definition log_action :: "run_action \<Rightarrow> execution \<Rightarrow> execution" where
  "log_action a s = s\<lparr>rn_log := rn_log s @ [a]\<rparr>"

definition add_item :: "workgroup_item \<Rightarrow> execution \<Rightarrow> execution" where
  "add_item it s = s\<lparr>rn_items := rn_items s @ [it]\<rparr>"

text \<open>\<^verbatim>\<open>UPDATE runs SET items\<close>, and \<open>persistPlan\<close>, which only explicit plans have.\<close>

definition save_items :: "run_env \<Rightarrow> execution \<Rightarrow> bool \<times> execution" where
  "save_items env s = (case look (en_db env) s of (ok, s') \<Rightarrow> (ok, log_action (SaveItems (rn_items s') ok) s'))"

definition persist_plan :: "run_env \<Rightarrow> bool \<Rightarrow> execution \<Rightarrow> bool \<times> execution" where
  "persist_plan env explicit s =
     (if \<not> explicit then (True, s)
      else (case look (en_db env) s of (ok, s') \<Rightarrow> (ok, log_action (SaveSteps (rn_receipts s') ok) s')))"

definition emit_item :: "run_env \<Rightarrow> workgroup_item \<Rightarrow> execution \<Rightarrow> bool \<times> execution" where
  "emit_item env it s = (case look (en_open env) s of (ok, s') \<Rightarrow> (ok, log_action (EmitItem it ok) s'))"

definition failed_with :: "run_failure \<Rightarrow> execution \<Rightarrow> execution" where
  "failed_with e s = s\<lparr>rn_failure := Some e\<rparr>"

definition set_receipt :: "nat \<Rightarrow> string \<Rightarrow> execution \<Rightarrow> execution" where
  "set_receipt i st s = s\<lparr>rn_receipts := (rn_receipts s)[i := (fst (rn_receipts s ! i), st)]\<rparr>"

text \<open>A failure while the run's context is stopped is an interruption.\<close>

definition failed_state :: "run_env \<Rightarrow> execution \<Rightarrow> execution" where
  "failed_state env s =
     (case look (en_stopped env) s of (stopped, s') \<Rightarrow>
        s'\<lparr>rn_state := (if stopped then RequestInterrupted else RequestFailed)\<rparr>)"

subsection \<open>Automatic planning\<close>

text \<open>
  \<^verbatim>\<open>inferPlan\<close>: the model's answer, checked against the directory of that moment. What the code
  asks the model, and a planner that is missing or late, are the environment's.
\<close>

definition infer_plan :: "run_env \<Rightarrow> agent_config \<Rightarrow> execution \<Rightarrow> (run_failure + execution_plan) \<times> execution" where
  "infer_plan env c s =
     (case look (en_plan env) s of (reply, s') \<Rightarrow>
        (let r = (case reply of
              Inl e \<Rightarrow> Inl e
            | Inr text \<Rightarrow> (case validateInferredPlan c text of Inl e \<Rightarrow> Inl (FailPlan e) | Inr p \<Rightarrow> Inr p)) in
         (r, log_action (AskPlan r) s')))"

definition plan_automatic :: "run_env \<Rightarrow> agent_config \<Rightarrow> execution_plan \<Rightarrow> execution \<Rightarrow> execution_plan \<times> execution" where
  "plan_automatic env c plan s =
     (if \<not> xp_automatic plan then (plan, s)
      else
        (case save_items env (add_item PlanningItem s) of (saved, s1) \<Rightarrow>
         (case (if \<not> saved then (Inl FailUnknown, s1)
                else (case emit_item env PlanningItem s1 of (_, s2) \<Rightarrow> infer_plan env c s2)) of (r, s3) \<Rightarrow>
          (let p = (case r of Inl _ \<Rightarrow> no_plan | Inr p \<Rightarrow> p);
               s4 = (case r of Inl e \<Rightarrow> failed_state env (failed_with e s3) | Inr _ \<Rightarrow> s3);
               it = (case r of Inl e \<Rightarrow> PlanFailedItem e | Inr p \<Rightarrow> PlanAgreedItem (map ps_step (xp_steps p))) in
           (case save_items env (add_item it s4) of (ok, s5) \<Rightarrow>
              if \<not> ok then (p\<lparr>xp_steps := []\<rparr>, failed_with FailUnknown s5)
              else (p, snd (emit_item env it s5)))))))"

subsection \<open>Steps\<close>

definition prior_results :: "execution \<Rightarrow> string list \<Rightarrow> work_result list" where
  "prior_results s ds = map (\<lambda>d. case rn_results s d of None \<Rightarrow> no_result | Some r \<Rightarrow> r) ds"

definition step_assignment :: "assignment \<Rightarrow> planned_step \<Rightarrow> execution \<Rightarrow> assignment" where
  "step_assignment a p s = a\<lparr>as_agent_id := wm_id (ps_member p), as_step_id := st_id (ps_step p),
     as_step_prompt := st_prompt (ps_step p), as_depends := st_depends (ps_step p),
     as_prior := prior_results s (st_depends (ps_step p)), as_instructions := wm_instructions (ps_member p)\<rparr>"

definition result_ok :: "work_result \<Rightarrow> bool" where
  "result_ok r \<longleftrightarrow> trim_space (re_text r) \<noteq> [] \<and> length (re_text r) \<le> maxOutput \<and> utf8_valid (re_text r)"

text \<open>
  The worker's answer: an answer that comes after the step's deadline, or whose text is blank,
  too long or not UTF-8, is a failure.
\<close>

definition call_worker :: "run_env \<Rightarrow> planned_step \<Rightarrow> assignment \<Rightarrow> execution \<Rightarrow> (run_failure + work_result) \<times> execution" where
  "call_worker env p a s =
     (case look (\<lambda>n. en_work env n (ps_member p) a) s of (reply, s1) \<Rightarrow>
      (case look (en_expired env) s1 of (expired, s2) \<Rightarrow>
        (let r = (case reply of
              Inl e \<Rightarrow> Inl e
            | Inr w \<Rightarrow>
                if expired \<or> \<not> result_ok w then Inl FailOther
                else Inr (w\<lparr>re_agent_id := wm_id (ps_member p), re_step_id := st_id (ps_step p)\<rparr>)) in
         (r, log_action (CallWorker (ps_member p) a r) s2))))"

datatype loop_end = LoopNext | LoopBreak | LoopReturn

definition step_failed :: "run_env \<Rightarrow> nat \<Rightarrow> run_failure \<Rightarrow> execution \<Rightarrow> execution" where
  "step_failed env i e s =
     (let s1 = set_receipt i (if e = FailUnknown then ''unknown'' else ''failed'') (failed_with e s);
          s2 = failed_state env s1 in
      if rn_state s2 = RequestInterrupted \<and> e \<noteq> FailUnknown then set_receipt i ''interrupted'' s2 else s2)"

definition step_answered :: "run_env \<Rightarrow> bool \<Rightarrow> nat \<Rightarrow> assignment \<Rightarrow> planned_step \<Rightarrow> work_result \<Rightarrow> execution
    \<Rightarrow> loop_end \<times> execution" where
  "step_answered env explicit i a p r s =
     (let it = AnswerItem (i + 1) (as_id a) p (re_text r) in
      case save_items env (add_item it s) of (saved, s1) \<Rightarrow>
        if \<not> saved then (LoopBreak, failed_with FailUnknown s1)
        else (case emit_item env it s1 of (shown, s2) \<Rightarrow>
          if \<not> shown then (LoopReturn, s2)
          else (case persist_plan env explicit
                  (set_receipt i ''completed'' (s2\<lparr>rn_results := (rn_results s2)(st_id (ps_step p) \<mapsto> r)\<rparr>)) of (ok, s3) \<Rightarrow>
            if \<not> ok then (LoopBreak, failed_with FailUnknown s3) else (LoopNext, s3))))"

definition do_step :: "run_env \<Rightarrow> bool \<Rightarrow> nat \<Rightarrow> assignment \<Rightarrow> nat \<Rightarrow> planned_step \<Rightarrow> execution \<Rightarrow> loop_end \<times> execution" where
  "do_step env explicit total_steps a i p s =
     (case look (en_stopped env) s of (stopped, s0) \<Rightarrow>
        if stopped then (LoopBreak, s0\<lparr>rn_state := RequestInterrupted\<rparr>)
        else
          (case persist_plan env explicit (set_receipt i ''running'' s0) of (ok, s1) \<Rightarrow>
             if \<not> ok then (LoopBreak, failed_with FailUnknown s1)
             else
               (let it = StartItem (i + 1) total_steps explicit p in
                case save_items env (add_item it s1) of (saved, s2) \<Rightarrow>
                  if \<not> saved then (LoopBreak, failed_with FailUnknown s2)
                  else (case emit_item env it s2 of (shown, s3) \<Rightarrow>
                    if \<not> shown then (LoopReturn, s3)
                    else (case call_worker env p (step_assignment a p s3) s3 of (r, s4) \<Rightarrow>
                      (case r of
                         Inl e \<Rightarrow> (LoopBreak, step_failed env i e s4)
                       | Inr w \<Rightarrow> step_answered env explicit i a p w s4))))))"

fun run_steps :: "run_env \<Rightarrow> bool \<Rightarrow> nat \<Rightarrow> assignment \<Rightarrow> nat \<Rightarrow> planned_step list \<Rightarrow> execution \<Rightarrow> loop_end \<times> execution" where
  "run_steps env explicit total_steps a i [] s = (LoopNext, s)"
| "run_steps env explicit total_steps a i (p # ps) s =
     (case do_step env explicit total_steps a i p s of (out, s') \<Rightarrow>
        if out = LoopNext then run_steps env explicit total_steps a (i + 1) ps s' else (out, s'))"

subsection \<open>The end of an execution\<close>

definition final_receipt :: "string \<Rightarrow> string" where
  "final_receipt st = (if st = ''waiting'' then ''blocked'' else if st = ''running'' then ''unknown'' else st)"

definition show_workflow :: "run_env \<Rightarrow> execution_plan \<Rightarrow> execution \<Rightarrow> execution" where
  "show_workflow env plan s =
     (if \<not> xp_explicit plan \<or> xp_steps plan = [] then s
      else
        (let s0 = s\<lparr>rn_receipts := map (apsnd final_receipt) (rn_receipts s)\<rparr>;
             it = WorkflowItem (st_agent (ps_step (xp_steps plan ! 0))) (rn_receipts s0) in
         case persist_plan env (xp_explicit plan) s0 of (ok, s1) \<Rightarrow>
           (case save_items env (add_item it (if ok then s1 else failed_with FailUnknown s1)) of (saved, s2) \<Rightarrow>
              if \<not> saved then failed_with FailUnknown s2 else snd (emit_item env it s2))))"

definition end_kind :: "request_state \<Rightarrow> string" where
  "end_kind st = (if st = RequestInterrupted then ''turn-interrupted''
                  else if st = RequestFailed then ''turn-failed'' else ''turn-completed'')"

definition report :: "run_env \<Rightarrow> execution \<Rightarrow> execution" where
  "report env s =
     (case look (en_open env) s of (live, s0) \<Rightarrow>
      (case (if rn_failure s0 \<noteq> Some FailUnknown \<and> live
             then (case look (en_db env) s0 of (ok, s1) \<Rightarrow> (\<not> ok, log_action (SaveState (rn_state s1) ok) s1))
             else (rn_failure s0 = Some FailUnknown, s0)) of (uncertain, s2) \<Rightarrow>
       (case look (en_open env) s2 of (still_live, s3) \<Rightarrow>
          if \<not> still_live then s3
          else if uncertain then log_action (EmitEnd ''protocol-error'') s3
          else log_action (EmitEnd (end_kind (rn_state s3))) s3)))"

definition execute :: "run_env \<Rightarrow> agent_config \<Rightarrow> execution_plan \<Rightarrow> assignment \<Rightarrow> execution" where
  "execute env c plan0 a =
     (case plan_automatic env c plan0 fresh_execution of (plan, s0) \<Rightarrow>
      (case run_steps env (xp_explicit plan) (length (xp_steps plan)) a 0 (xp_steps plan)
              (s0\<lparr>rn_receipts := map (\<lambda>p. (ps_step p, ''waiting'')) (xp_steps plan)\<rparr>) of (out, s1) \<Rightarrow>
         if out = LoopReturn then s1 else report env (show_workflow env plan s1)))"

end
