(* ===== verification/Workgroup_Execution.thy ===== *)
theory Workgroup_Execution
  imports Workgroup_Runtime
begin

text \<open>
  What an execution does, read from its log: the workers it calls follow the plan, each with the
  answers of exactly the steps it depends on; every item is saved before it is shown; a run is
  reported complete only when every step was answered; and after an outcome it cannot know it
  neither records a final state nor reports anything but a protocol error.
\<close>

definition calls :: "run_action list \<Rightarrow> (work_member \<times> assignment \<times> (run_failure + work_result)) list" where
  "calls l = concat (map (\<lambda>x. case x of CallWorker m a r \<Rightarrow> [(m, a, r)] | _ \<Rightarrow> []) l)"

definition unknown_action :: "run_action \<Rightarrow> bool" where
  "unknown_action x \<longleftrightarrow> (case x of
      SaveItems _ ok \<Rightarrow> \<not> ok
    | SaveSteps _ ok \<Rightarrow> \<not> ok
    | CallWorker _ _ r \<Rightarrow> r = Inl FailUnknown
    | AskPlan r \<Rightarrow> r = Inl FailUnknown
    | _ \<Rightarrow> False)"

definition final_action :: "run_action \<Rightarrow> bool" where
  "final_action x \<longleftrightarrow> (case x of SaveState _ _ \<Rightarrow> True | EmitEnd _ \<Rightarrow> True | _ \<Rightarrow> False)"

fun saved_first :: "workgroup_item set \<Rightarrow> run_action list \<Rightarrow> bool" where
  "saved_first known [] \<longleftrightarrow> True"
| "saved_first known (SaveItems items ok # l) \<longleftrightarrow> saved_first (if ok then known \<union> set items else known) l"
| "saved_first known (EmitItem it ok # l) \<longleftrightarrow> it \<in> known \<and> saved_first known l"
| "saved_first known (x # l) \<longleftrightarrow> saved_first known l"

lemma calls_simps [simp]:
  "calls [] = []" "calls (l @ l') = calls l @ calls l'"
  "calls (SaveItems items ok # l) = calls l" "calls (SaveSteps rs ok # l) = calls l"
  "calls (EmitItem it ok # l) = calls l" "calls (AskPlan pl # l) = calls l"
  "calls (CallWorker m a r # l) = (m, a, r) # calls l"
  "calls (SaveState st ok # l) = calls l" "calls (EmitEnd k # l) = calls l"
  by (simp_all add: calls_def)

lemma unknown_simps [simp]:
  "unknown_action (SaveItems items ok) \<longleftrightarrow> \<not> ok" "unknown_action (SaveSteps rs ok) \<longleftrightarrow> \<not> ok"
  "\<not> unknown_action (EmitItem it ok)" "unknown_action (AskPlan pl) \<longleftrightarrow> pl = Inl FailUnknown"
  "unknown_action (CallWorker m a r) \<longleftrightarrow> r = Inl FailUnknown"
  "\<not> unknown_action (SaveState st ok)" "\<not> unknown_action (EmitEnd k)"
  by (simp_all add: unknown_action_def)

lemma final_simps [simp]:
  "\<not> final_action (SaveItems items ok)" "\<not> final_action (SaveSteps rs ok)" "\<not> final_action (EmitItem it ok)"
  "\<not> final_action (AskPlan pl)" "\<not> final_action (CallWorker m a r)" "final_action (SaveState st ok)" "final_action (EmitEnd k)"
  by (simp_all add: final_action_def)

fun known_after :: "workgroup_item set \<Rightarrow> run_action list \<Rightarrow> workgroup_item set" where
  "known_after known [] = known"
| "known_after known (SaveItems items ok # l) = known_after (if ok then known \<union> set items else known) l"
| "known_after known (x # l) = known_after known l"

lemma saved_first_append: "saved_first known (l @ l') \<longleftrightarrow> saved_first known l \<and> saved_first (known_after known l) l'"
  by (induction known l rule: saved_first.induct) auto

lemma saved_first_mono: "saved_first known l \<Longrightarrow> known \<subseteq> known' \<Longrightarrow> saved_first known' l"
proof (induction known l arbitrary: known' rule: saved_first.induct)
  case (2 known items ok l)
  then show ?case by (cases ok) (simp_all, blast+)
qed auto

lemmas run_defs = look_def log_action_def add_item_def save_items_def persist_plan_def emit_item_def failed_with_def
  set_receipt_def failed_state_def

text \<open>What a part of an execution added to the log, and what it leaves behind.\<close>

definition new_actions :: "execution \<Rightarrow> execution \<Rightarrow> run_action list" where
  "new_actions s s' = drop (length (rn_log s)) (rn_log s')"

definition quiet_effect :: "execution \<Rightarrow> execution \<Rightarrow> bool" where
  "quiet_effect s s' \<longleftrightarrow> rn_log s' = rn_log s @ new_actions s s' \<and>
     \<not> list_ex final_action (new_actions s s') \<and> saved_first {} (new_actions s s') \<and>
     (list_ex unknown_action (new_actions s s') \<longrightarrow> rn_failure s' = Some FailUnknown)"

definition step_effect :: "assignment \<Rightarrow> planned_step \<Rightarrow> execution \<Rightarrow> loop_end \<Rightarrow> execution \<Rightarrow> bool" where
  "step_effect a p s out s' \<longleftrightarrow> quiet_effect s s' \<and>
     (case out of
        LoopNext \<Rightarrow> (\<exists>w. calls (new_actions s s') = [(ps_member p, step_assignment a p s, Inr w)] \<and>
            rn_results s' = (rn_results s)(st_id (ps_step p) \<mapsto> w)) \<and>
            rn_state s' = rn_state s \<and> rn_failure s' = rn_failure s \<and> \<not> list_ex unknown_action (new_actions s s')
      | _ \<Rightarrow> (calls (new_actions s s') = [] \<or> (\<exists>r. calls (new_actions s s') = [(ps_member p, step_assignment a p s, r)])) \<and>
            (out = LoopBreak \<longrightarrow> rn_failure s' = Some FailUnknown \<or> rn_state s' \<in> {RequestFailed, RequestInterrupted}))"

lemma step_assignment_cong [simp]:
  "step_assignment a p (s\<lparr>rn_tick := t\<rparr>) = step_assignment a p s"
  "step_assignment a p (s\<lparr>rn_items := its\<rparr>) = step_assignment a p s"
  "step_assignment a p (s\<lparr>rn_receipts := rs\<rparr>) = step_assignment a p s"
  "step_assignment a p (s\<lparr>rn_log := l\<rparr>) = step_assignment a p s"
  by (simp_all add: step_assignment_def prior_results_def)

lemma call_worker_eq:
  "call_worker env p asg s =
     (let r = fst (call_worker env p asg s) in
      (r, s\<lparr>rn_tick := rn_tick s + 2, rn_log := rn_log s @ [CallWorker (ps_member p) asg r]\<rparr>))"
  by (simp add: call_worker_def run_defs Let_def)

lemma step_failed_simps [simp]:
  "rn_log (step_failed env i e s) = rn_log s" "rn_failure (step_failed env i e s) = Some e"
  "rn_state (step_failed env i e s) = RequestFailed \<longleftrightarrow> rn_state (step_failed env i e s) \<noteq> RequestInterrupted"
  by (simp_all add: step_failed_def run_defs Let_def)

lemma do_step_effect:
  assumes "do_step env explicit n a i p s = (out, s')"
  shows "step_effect a p s out s'"
proof -
  define r where "r t = fst (call_worker env p (step_assignment a p s) t)" for t
  have call: "call_worker env p (step_assignment a p s) t =
      (r t, t\<lparr>rn_tick := rn_tick t + 2, rn_log := rn_log t @ [CallWorker (ps_member p) (step_assignment a p s) (r t)]\<rparr>)" for t
    using call_worker_eq [of env p "step_assignment a p s" t] by (simp add: r_def Let_def)
  show ?thesis
    using assms
    by (cases explicit)
      (auto simp: do_step_def call run_defs step_answered_def step_effect_def quiet_effect_def new_actions_def Let_def
        split: if_splits sum.splits)
qed

subsection \<open>Following the plan\<close>

definition dependency_ordered :: "planned_step list \<Rightarrow> bool" where
  "dependency_ordered ps \<longleftrightarrow> distinct (placed_ids ps) \<and>
     (\<forall>i < length ps. \<forall>d \<in> set (st_depends (ps_step (ps ! i))). \<exists>j < i. st_id (ps_step (ps ! j)) = d)"

definition assigned :: "assignment \<Rightarrow> planned_step \<Rightarrow> work_result list \<Rightarrow> assignment" where
  "assigned a p prior = a\<lparr>as_agent_id := wm_id (ps_member p), as_step_id := st_id (ps_step p),
     as_step_prompt := st_prompt (ps_step p), as_depends := st_depends (ps_step p),
     as_prior := prior, as_instructions := wm_instructions (ps_member p)\<rparr>"

text \<open>The calls made so far are those of the first steps of the plan, all but the last answered.\<close>

definition call_follows :: "assignment \<Rightarrow> planned_step list \<Rightarrow> (work_member \<times> assignment \<times> (run_failure + work_result)) list
    \<Rightarrow> nat \<Rightarrow> bool" where
  "call_follows a ps cs j \<longleftrightarrow>
     (\<exists>prior r. cs ! j = (ps_member (ps ! j), assigned a (ps ! j) prior, r) \<and>
        (Suc j < length cs \<longrightarrow> (\<exists>w. r = Inr w)) \<and>
        length prior = length (st_depends (ps_step (ps ! j))) \<and>
        (\<forall>k < length prior. \<exists>m < j. st_id (ps_step (ps ! m)) = st_depends (ps_step (ps ! j)) ! k \<and>
            snd (snd (cs ! m)) = Inr (prior ! k)))"

definition calls_follow :: "assignment \<Rightarrow> planned_step list \<Rightarrow> (work_member \<times> assignment \<times> (run_failure + work_result)) list \<Rightarrow> bool" where
  "calls_follow a ps cs \<longleftrightarrow> length cs \<le> length ps \<and> (\<forall>j < length cs. call_follows a ps cs j)"

definition all_answered :: "(work_member \<times> assignment \<times> (run_failure + work_result)) list \<Rightarrow> bool" where
  "all_answered cs \<longleftrightarrow> (\<forall>(m, a, r) \<in> set cs. \<exists>w. r = Inr w)"

definition running_at :: "assignment \<Rightarrow> planned_step list \<Rightarrow> nat \<Rightarrow> execution \<Rightarrow> bool" where
  "running_at a ps i s \<longleftrightarrow> calls_follow a ps (calls (rn_log s)) \<and> length (calls (rn_log s)) = i \<and>
     all_answered (calls (rn_log s)) \<and>
     (\<forall>j < i. \<exists>w. snd (snd (calls (rn_log s) ! j)) = Inr w \<and> rn_results s (st_id (ps_step (ps ! j))) = Some w)"

lemma step_assignment_assigned:
  "step_assignment a p s = assigned a p (prior_results s (st_depends (ps_step p)))"
  by (simp add: step_assignment_def assigned_def)

lemma call_follows_snoc:
  "j < length cs \<Longrightarrow> all_answered cs \<Longrightarrow> call_follows a ps cs j \<Longrightarrow> call_follows a ps (cs @ [c]) j"
proof -
  assume j: "j < length cs" and ok: "all_answered cs" and f: "call_follows a ps cs j"
  from f obtain prior r where c: "cs ! j = (ps_member (ps ! j), assigned a (ps ! j) prior, r)"
      "length prior = length (st_depends (ps_step (ps ! j)))"
      "\<forall>k < length prior. \<exists>m < j. st_id (ps_step (ps ! m)) = st_depends (ps_step (ps ! j)) ! k \<and>
            snd (snd (cs ! m)) = Inr (prior ! k)"
    by (auto simp: call_follows_def)
  have "(ps_member (ps ! j), assigned a (ps ! j) prior, r) \<in> set cs" using c(1) j by (metis nth_mem)
  with ok have "\<exists>w. r = Inr w" by (auto simp: all_answered_def)
  moreover have "\<forall>k < length prior. \<exists>m < j. st_id (ps_step (ps ! m)) = st_depends (ps_step (ps ! j)) ! k \<and>
            snd (snd ((cs @ [c]) ! m)) = Inr (prior ! k)"
  proof (intro allI impI)
    fix k
    assume "k < length prior"
    with c(3) obtain m where "m < j" "st_id (ps_step (ps ! m)) = st_depends (ps_step (ps ! j)) ! k"
        "snd (snd (cs ! m)) = Inr (prior ! k)" by blast
    with j show "\<exists>m < j. st_id (ps_step (ps ! m)) = st_depends (ps_step (ps ! j)) ! k \<and>
            snd (snd ((cs @ [c]) ! m)) = Inr (prior ! k)"
      by (intro exI [of _ m]) (simp add: nth_append)
  qed
  moreover have "(cs @ [c]) ! j = (ps_member (ps ! j), assigned a (ps ! j) prior, r)"
    using c(1) j by (simp add: nth_append)
  ultimately show "call_follows a ps (cs @ [c]) j"
    using c(2) unfolding call_follows_def by blast
qed

lemma running_call:
  assumes run: "running_at a ps i s" and i: "i < length ps" and deps: "dependency_ordered ps"
  shows "calls_follow a ps (calls (rn_log s) @ [(ps_member (ps ! i), step_assignment a (ps ! i) s, r)])"
proof -
  let ?cs = "calls (rn_log s)"
  let ?ds = "st_depends (ps_step (ps ! i))"
  let ?c = "(ps_member (ps ! i), step_assignment a (ps ! i) s, r)"
  from run have cs: "calls_follow a ps ?cs" "length ?cs = i" "all_answered ?cs"
    by (simp_all add: running_at_def)
  have "\<exists>m < i. st_id (ps_step (ps ! m)) = ?ds ! k \<and> snd (snd ((?cs @ [?c]) ! m)) = Inr (prior_results s ?ds ! k)"
    if k: "k < length ?ds" for k
  proof -
    from k deps i obtain m where m: "m < i" "st_id (ps_step (ps ! m)) = ?ds ! k"
      by (force simp: dependency_ordered_def)
    with run obtain w where w: "snd (snd (?cs ! m)) = Inr w" "rn_results s (st_id (ps_step (ps ! m))) = Some w"
      by (auto simp: running_at_def)
    then have "prior_results s ?ds ! k = w" using k m(2) by (simp add: prior_results_def)
    with m w(1) cs(2) show ?thesis by (auto simp: nth_append intro!: exI [of _ m])
  qed
  then have "call_follows a ps (?cs @ [?c]) i"
    using cs(2) unfolding call_follows_def step_assignment_assigned
    by (intro exI [of _ "prior_results s ?ds"] exI [of _ r]) (simp add: prior_results_def nth_append)
  moreover have "call_follows a ps (?cs @ [?c]) j" if "j < i" for j
    using that cs by (intro call_follows_snoc) (auto simp: calls_follow_def)
  ultimately show ?thesis
    using cs i by (auto simp: calls_follow_def less_Suc_eq)
qed

lemma running_next:
  assumes run: "running_at a ps i s" and i: "i < length ps" and deps: "dependency_ordered ps"
    and s': "calls (rn_log s') = calls (rn_log s) @ [(ps_member (ps ! i), step_assignment a (ps ! i) s, Inr w)]"
      "rn_results s' = (rn_results s)(st_id (ps_step (ps ! i)) \<mapsto> w)"
  shows "running_at a ps (Suc i) s'"
proof -
  from run have cs: "length (calls (rn_log s)) = i" "all_answered (calls (rn_log s))" by (simp_all add: running_at_def)
  have "st_id (ps_step (ps ! j)) \<noteq> st_id (ps_step (ps ! i))" if "j < i" for j
    using that i deps nth_eq_iff_index_eq [of "placed_ids ps" j i] by (auto simp: dependency_ordered_def placed_ids_def)
  with run cs have "\<forall>j < Suc i. \<exists>w. snd (snd (calls (rn_log s') ! j)) = Inr w \<and> rn_results s' (st_id (ps_step (ps ! j))) = Some w"
    by (auto simp: running_at_def s' nth_append less_Suc_eq)
  moreover have "all_answered (calls (rn_log s'))" using cs by (auto simp: all_answered_def s')
  ultimately show ?thesis
    using running_call [OF run i deps, of "Inr w"] cs by (simp add: running_at_def s')
qed

lemma quiet_calls: "quiet_effect s s' \<Longrightarrow> calls (rn_log s') = calls (rn_log s) @ calls (new_actions s s')"
  by (metis calls_simps(2) quiet_effect_def)

lemma quiet_effect_trans:
  assumes "quiet_effect s t" "quiet_effect t u" "list_ex unknown_action (new_actions s t) \<longrightarrow> rn_failure u = Some FailUnknown"
  shows "quiet_effect s u" "new_actions s u = new_actions s t @ new_actions t u"
proof -
  show new: "new_actions s u = new_actions s t @ new_actions t u"
    using assms(1,2) by (metis append_assoc append_eq_conv_conj new_actions_def quiet_effect_def)
  have "saved_first {} (new_actions s u)"
    using assms(1,2) saved_first_mono [of "{}" "new_actions t u"] by (auto simp: new saved_first_append quiet_effect_def)
  moreover have "rn_log u = rn_log s @ new_actions s u"
    using assms(1,2) by (simp add: new) (metis append_assoc quiet_effect_def)
  ultimately show "quiet_effect s u"
    using assms by (auto simp: quiet_effect_def new)
qed

lemma run_steps_effect:
  assumes "run_steps env explicit n a i qs s = (out, s')" "qs = drop i ps" "i \<le> length ps"
    "running_at a ps i s" "dependency_ordered ps"
  shows "quiet_effect s s' \<and> calls_follow a ps (calls (rn_log s')) \<and>
     (out = LoopNext \<longrightarrow> length (calls (rn_log s')) = length ps \<and> all_answered (calls (rn_log s')) \<and>
        rn_state s' = rn_state s \<and> rn_failure s' = rn_failure s \<and> \<not> list_ex unknown_action (new_actions s s')) \<and>
     (out = LoopBreak \<longrightarrow> rn_failure s' = Some FailUnknown \<or> rn_state s' \<in> {RequestFailed, RequestInterrupted})"
  using assms
proof (induction env explicit n a i qs s rule: run_steps.induct)
  case (1 env explicit n a i s)
  then show ?case by (auto simp: quiet_effect_def new_actions_def running_at_def)
next
  case (2 env explicit n a i p qs s)
  obtain out1 s1 where step: "do_step env explicit n a i p s = (out1, s1)" by fastforce
  from 2(3) have i: "i < length ps" "p = ps ! i" "qs = drop (Suc i) ps"
    by (metis drop_eq_Nil2 leI list.discI, metis Cons_nth_drop_Suc drop_eq_Nil2 leI list.discI list.inject,
        metis Cons_nth_drop_Suc drop_eq_Nil2 leI list.discI list.inject)
  note eff = do_step_effect [OF step, unfolded step_effect_def]
  have cs: "calls (rn_log s1) = calls (rn_log s) @ calls (new_actions s s1)" using eff by (intro quiet_calls) simp
  show ?case
  proof (cases "out1 = LoopNext")
    case True
    with eff obtain w where w: "calls (new_actions s s1) = [(ps_member p, step_assignment a p s, Inr w)]"
        "rn_results s1 = (rn_results s)(st_id (ps_step p) \<mapsto> w)"
      by auto
    have run: "running_at a ps (Suc i) s1"
      using cs w by (intro running_next [OF 2(5) i(1) 2(6)]) (simp_all add: i(2))
    have "run_steps env explicit n a (i + 1) qs s1 = (out, s')" using 2(2) step True by simp
    note IH = 2(1) [OF step [symmetric] True this]
    from IH i run 2(6) have rest: "quiet_effect s1 s' \<and> calls_follow a ps (calls (rn_log s')) \<and>
       (out = LoopNext \<longrightarrow> length (calls (rn_log s')) = length ps \<and> all_answered (calls (rn_log s')) \<and>
        rn_state s' = rn_state s1 \<and> rn_failure s' = rn_failure s1 \<and> \<not> list_ex unknown_action (new_actions s1 s')) \<and>
       (out = LoopBreak \<longrightarrow> rn_failure s' = Some FailUnknown \<or> rn_state s' \<in> {RequestFailed, RequestInterrupted})"
      by simp
    have "quiet_effect s s'" "new_actions s s' = new_actions s s1 @ new_actions s1 s'"
      using quiet_effect_trans [of s s1 s'] eff rest True by auto
    with rest eff True show ?thesis by auto
  next
    case False
    with 2(2) step have out: "out = out1" "s' = s1" by auto
    have "calls_follow a ps (calls (rn_log s))" using 2(5) by (simp add: running_at_def)
    with running_call [OF 2(5) i(1) 2(6)] eff False have "calls_follow a ps (calls (rn_log s1))"
      by (cases out1) (auto simp: cs i(2))
    with eff False show ?thesis by (cases out1) (auto simp: out)
  qed
qed

subsection \<open>Plans that are executed\<close>

lemma dependency_ordered_Nil [simp]: "dependency_ordered []"
  by (simp add: dependency_ordered_def placed_ids_def)

lemma schedule_ordered:
  assumes "schedule c raw = Inr ps"
  shows "dependency_ordered ps"
proof -
  have "first_ready (member_map c) raw ps \<and> placing raw (\<lambda>k. k \<in> set (placed_ids ps)) ps \<and> length ps = length raw"
    using assms unfolding schedule_Inr
    by (intro order_steps_Inr [of _ _ "\<lambda>_. False" "[]"]) (simp_all add: placing_def placed_ids_def first_ready_def)
  then show ?thesis
    unfolding dependency_ordered_def placing_def by (meson placed_before)
qed

lemma Plan_ordered:
  assumes "Plan c text = Inr p"
  shows "dependency_ordered (xp_steps p)"
proof -
  consider "\<exists>m. p = direct_plan m" | "xp_steps p = []" | raw where "schedule c raw = Inr (xp_steps p)"
    using assms
    by (auto simp: Plan_def Let_def rbind_Inr no_plan_def split: if_splits option.splits sum.splits)
  then show ?thesis
  proof cases
    case 1
    then show ?thesis by (auto simp: direct_plan_def dependency_ordered_def placed_ids_def no_step_def)
  qed (simp_all add: schedule_ordered)
qed

lemma inferred_ordered: "validateInferredPlan c text = Inr p \<Longrightarrow> dependency_ordered (xp_steps p)"
  by (auto simp: validateInferredPlan_def split: if_splits option.splits sum.splits dest: Plan_ordered)

text \<open>What planning leaves: the plan that will run, or no step and a reason not to report success.\<close>

lemma plan_automatic_effect:
  assumes "plan_automatic env c plan0 fresh_execution = (plan, s)"
  shows "quiet_effect fresh_execution s \<and> calls (rn_log s) = [] \<and>
     ((rn_failure s = None \<and> rn_state s = RequestCompleted \<and> \<not> list_ex unknown_action (rn_log s) \<and>
        (if xp_automatic plan0 then \<exists>t. validateInferredPlan c t = Inr plan else plan = plan0)) \<or>
      (xp_automatic plan0 \<and> xp_steps plan = [] \<and> (rn_failure s = Some FailUnknown \<or> rn_state s \<in> {RequestFailed, RequestInterrupted})))"
proof (cases "xp_automatic plan0")
  case False
  with assms show ?thesis
    by (auto simp: plan_automatic_def quiet_effect_def new_actions_def fresh_execution_def)
next
  case True
  with assms show ?thesis
    by (auto simp: plan_automatic_def infer_plan_def run_defs quiet_effect_def new_actions_def fresh_execution_def
        no_plan_def Let_def split: if_splits sum.splits)
qed

lemma show_workflow_effect:
  "quiet_effect s (show_workflow env plan s) \<and> calls (new_actions s (show_workflow env plan s)) = [] \<and>
     rn_state (show_workflow env plan s) = rn_state s \<and>
     (rn_failure (show_workflow env plan s) = rn_failure s \<or> rn_failure (show_workflow env plan s) = Some FailUnknown)"
  by (auto simp: show_workflow_def run_defs quiet_effect_def new_actions_def Let_def)

lemma report_effect:
  obtains acts where "rn_log (report env s) = rn_log s @ acts" "calls acts = []" "saved_first known acts"
    "\<not> list_ex unknown_action acts"
    "rn_failure s = Some FailUnknown \<longrightarrow> set acts \<subseteq> {EmitEnd ''protocol-error''}"
    "EmitEnd ''turn-completed'' \<in> set acts \<longrightarrow> rn_failure s \<noteq> Some FailUnknown \<and> rn_state s \<notin> {RequestFailed, RequestInterrupted}"
proof -
  define acts where "acts = drop (length (rn_log s)) (rn_log (report env s))"
  have "rn_log (report env s) = rn_log s @ acts \<and> calls acts = [] \<and> saved_first known acts \<and> \<not> list_ex unknown_action acts \<and>
      (rn_failure s = Some FailUnknown \<longrightarrow> set acts \<subseteq> {EmitEnd ''protocol-error''}) \<and>
      (EmitEnd ''turn-completed'' \<in> set acts \<longrightarrow> rn_failure s \<noteq> Some FailUnknown \<and> rn_state s \<notin> {RequestFailed, RequestInterrupted})"
    by (auto simp: acts_def report_def run_defs end_kind_def Let_def split: if_splits)
  with that show thesis by blast
qed

lemma run_steps_quiet:
  "run_steps env explicit n a i qs s = (out, s') \<Longrightarrow> quiet_effect s s'"
proof (induction env explicit n a i qs s rule: run_steps.induct)
  case (1 env explicit n a i s)
  then show ?case by (simp add: quiet_effect_def new_actions_def)
next
  case (2 env explicit n a i p qs s)
  obtain out1 s1 where step: "do_step env explicit n a i p s = (out1, s1)" by fastforce
  note eff = do_step_effect [OF step, unfolded step_effect_def]
  show ?case
  proof (cases "out1 = LoopNext")
    case True
    with 2(2) step have "quiet_effect s1 s'" by (intro 2(1) [OF step [symmetric] True]) simp
    with eff True show ?thesis by (intro quiet_effect_trans(1) [of s s1 s']) auto
  next
    case False
    with 2(2) step eff show ?thesis by simp
  qed
qed

text \<open>The three parts of an execution: planning, the steps, and the end unless the runtime closed.\<close>

lemma execute_parts:
  obtains plan s0 out s1 where "plan_automatic env c plan0 fresh_execution = (plan, s0)"
    "run_steps env (xp_explicit plan) (length (xp_steps plan)) a 0 (xp_steps plan)
       (s0\<lparr>rn_receipts := map (\<lambda>p. (ps_step p, ''waiting'')) (xp_steps plan)\<rparr>) = (out, s1)"
    "execute env c plan0 a = (if out = LoopReturn then s1 else report env (show_workflow env plan s1))"
proof -
  obtain plan s0 where p: "plan_automatic env c plan0 fresh_execution = (plan, s0)" by fastforce
  obtain out s1 where "run_steps env (xp_explicit plan) (length (xp_steps plan)) a 0 (xp_steps plan)
       (s0\<lparr>rn_receipts := map (\<lambda>p. (ps_step p, ''waiting'')) (xp_steps plan)\<rparr>) = (out, s1)" by fastforce
  with p that show thesis by (simp add: execute_def)
qed

lemma quiet_receipts: "quiet_effect s (t\<lparr>rn_receipts := rs\<rparr>) = quiet_effect s t" "quiet_effect (s\<lparr>rn_receipts := rs\<rparr>) t = quiet_effect s t"
  "new_actions s (t\<lparr>rn_receipts := rs\<rparr>) = new_actions s t" "new_actions (s\<lparr>rn_receipts := rs\<rparr>) t = new_actions s t"
  by (simp_all add: quiet_effect_def new_actions_def)

lemma new_from_fresh [simp]: "new_actions fresh_execution s = rn_log s"
  by (simp add: new_actions_def fresh_execution_def)

lemma execute_quiet:
  assumes p: "plan_automatic env c plan0 fresh_execution = (plan, s0)"
    and r: "run_steps env (xp_explicit plan) (length (xp_steps plan)) a 0 (xp_steps plan)
       (s0\<lparr>rn_receipts := map (\<lambda>p. (ps_step p, ''waiting'')) (xp_steps plan)\<rparr>) = (out, s1)"
  shows "quiet_effect fresh_execution s1" "quiet_effect fresh_execution (show_workflow env plan s1)"
    "list_ex unknown_action (rn_log (show_workflow env plan s1)) \<longrightarrow> rn_failure (show_workflow env plan s1) = Some FailUnknown"
proof -
  have q0: "quiet_effect fresh_execution s0" and q1: "quiet_effect s0 s1"
    using plan_automatic_effect [OF p] run_steps_quiet [OF r] by (simp_all add: quiet_receipts)
  have known: "list_ex unknown_action (rn_log s0) \<longrightarrow> rn_failure s1 = Some FailUnknown"
  proof
    assume u: "list_ex unknown_action (rn_log s0)"
    with plan_automatic_effect [OF p] have "xp_steps plan = []" by auto
    with r have "rn_failure s1 = rn_failure s0" by auto
    with u q0 show "rn_failure s1 = Some FailUnknown" by (simp add: quiet_effect_def)
  qed
  show f1: "quiet_effect fresh_execution s1"
    using known by (intro quiet_effect_trans(1) [OF q0 q1]) simp
  have "list_ex unknown_action (rn_log s1) \<longrightarrow> rn_failure s1 = Some FailUnknown"
    using f1 by (simp add: quiet_effect_def)
  then have kept: "list_ex unknown_action (new_actions fresh_execution s1) \<longrightarrow>
      rn_failure (show_workflow env plan s1) = Some FailUnknown"
    using show_workflow_effect [of s1 env plan] by (metis new_from_fresh)
  show f2: "quiet_effect fresh_execution (show_workflow env plan s1)"
    by (rule quiet_effect_trans(1) [OF f1 _ kept]) (use show_workflow_effect [of s1 env plan] in blast)
  show "list_ex unknown_action (rn_log (show_workflow env plan s1)) \<longrightarrow> rn_failure (show_workflow env plan s1) = Some FailUnknown"
    using f2 by (simp add: quiet_effect_def)
qed

subsection \<open>Examples\<close>

definition demo_run_env :: "bool \<Rightarrow> run_env" where
  "demo_run_env ok = \<lparr>en_db = \<lambda>_. ok, en_open = \<lambda>_. True, en_stopped = \<lambda>_. False, en_expired = \<lambda>_. False,
     en_plan = \<lambda>_. Inl FailOther, en_work = \<lambda>_ m a. Inr (no_result\<lparr>re_text := as_step_id a\<rparr>)\<rparr>"

definition demo_assignment :: assignment where
  "demo_assignment = \<lparr>as_workspace = None, as_step_id = [], as_step_prompt = [], as_depends = [], as_version = 1,
     as_id = ''m1'', as_agent_id = [], as_human_uid = 1000, as_project_root = ''/p'', as_task_id = 0,
     as_human_prompt = [], as_prompt = [], as_instructions = [], as_prior = []\<rparr>"

definition demo_plan :: execution_plan where
  "demo_plan = no_plan\<lparr>xp_explicit := True, xp_steps := demo_planned\<rparr>"

lemma demo_results: "result_ok (no_result\<lparr>re_text := ''build''\<rparr>)" "result_ok (no_result\<lparr>re_text := ''review''\<rparr>)"
proof -
  have "trim_space ''build'' \<noteq> [] \<and> trim_space ''review'' \<noteq> []" by code_simp
  then show "result_ok (no_result\<lparr>re_text := ''build''\<rparr>)" "result_ok (no_result\<lparr>re_text := ''review''\<rparr>)"
    by (simp_all add: result_ok_def no_result_def maxOutput_def utf8_valid_ascii in_range_def)
qed

lemma demo_plan_parsed: "Plan demo_team (team_word @ '' '' @ json_marshal (plan_json demo_steps)) = Inr demo_plan"
  using Plan_printed [OF demo_step_texts, of demo_team] demo_length by (simp add: demo_schedule demo_plan_def)

lemma demo_completed_run:
  "EmitEnd ''turn-completed'' \<in> set (rn_log (execute (demo_run_env True) demo_team demo_plan demo_assignment))"
  using demo_results
  by (simp add: execute_def plan_automatic_def demo_plan_def no_plan_def demo_planned_def demo_steps_def do_step_def
      step_answered_def call_worker_def step_assignment_def demo_run_env_def fresh_execution_def run_defs
      show_workflow_def report_def end_kind_def Let_def)

lemma demo_lost_run:
  "list_ex unknown_action (rn_log (execute (demo_run_env False) demo_team demo_plan demo_assignment))"
  "EmitEnd ''protocol-error'' \<in> set (rn_log (execute (demo_run_env False) demo_team demo_plan demo_assignment))"
  by (simp_all add: execute_def plan_automatic_def demo_plan_def no_plan_def demo_planned_def demo_steps_def do_step_def
      demo_run_env_def fresh_execution_def run_defs show_workflow_def report_def Let_def)

subsection \<open>Properties\<close>

text \<open>
  C38. An execution calls workers for the first steps of its plan, in order and once each; every
  call but the last was answered, and each is given exactly the answers of the steps it depends
  on. The run is reported complete only when every step was answered. The plan is the one the
  message was turned into, or for automatic planning a plan of the model that was checked against
  the directory of that moment, or none.
\<close>

theorem work_follows_plan:
  assumes "Plan c0 text = Inr plan0"
  shows "\<exists>ps. (if xp_automatic plan0 then ps = [] \<or> (\<exists>t p. validateInferredPlan c t = Inr p \<and> ps = xp_steps p)
               else ps = xp_steps plan0) \<and>
     dependency_ordered ps \<and> calls_follow a ps (calls (rn_log (execute env c plan0 a))) \<and>
     (EmitEnd ''turn-completed'' \<in> set (rn_log (execute env c plan0 a)) \<longrightarrow>
        length (calls (rn_log (execute env c plan0 a))) = length ps \<and>
        all_answered (calls (rn_log (execute env c plan0 a))))"
proof -
  obtain plan s0 out s1 where p: "plan_automatic env c plan0 fresh_execution = (plan, s0)"
      and r: "run_steps env (xp_explicit plan) (length (xp_steps plan)) a 0 (xp_steps plan)
       (s0\<lparr>rn_receipts := map (\<lambda>p. (ps_step p, ''waiting'')) (xp_steps plan)\<rparr>) = (out, s1)"
      and x: "execute env c plan0 a = (if out = LoopReturn then s1 else report env (show_workflow env plan s1))"
    by (rule execute_parts)
  note plan_eff = plan_automatic_effect [OF p]
  have origin: "if xp_automatic plan0 then xp_steps plan = [] \<or> (\<exists>t p. validateInferredPlan c t = Inr p \<and> xp_steps plan = xp_steps p)
      else xp_steps plan = xp_steps plan0"
    using plan_eff by (cases "xp_automatic plan0") (simp_all, blast)
  then have ordered: "dependency_ordered (xp_steps plan)"
    using Plan_ordered [OF assms] inferred_ordered by (auto split: if_splits)
  have "running_at a (xp_steps plan) 0 (s0\<lparr>rn_receipts := map (\<lambda>p. (ps_step p, ''waiting'')) (xp_steps plan)\<rparr>)"
    using plan_eff by (simp add: running_at_def calls_follow_def all_answered_def)
  from run_steps_effect [OF r _ _ this ordered]
  have follow: "calls_follow a (xp_steps plan) (calls (rn_log s1))"
      "out = LoopNext \<Longrightarrow> length (calls (rn_log s1)) = length (xp_steps plan) \<and> all_answered (calls (rn_log s1))"
      "out = LoopBreak \<Longrightarrow> rn_failure s1 = Some FailUnknown \<or> rn_state s1 \<in> {RequestFailed, RequestInterrupted}"
    by simp_all
  note q = execute_quiet [OF p r]
  obtain acts where acts: "rn_log (report env (show_workflow env plan s1)) = rn_log (show_workflow env plan s1) @ acts"
      "calls acts = []" "EmitEnd ''turn-completed'' \<in> set acts \<longrightarrow>
         rn_failure (show_workflow env plan s1) \<noteq> Some FailUnknown \<and> rn_state (show_workflow env plan s1) \<notin> {RequestFailed, RequestInterrupted}"
    by (rule report_effect)
  have no_end: "EmitEnd k \<notin> set (rn_log t)" if "quiet_effect fresh_execution t" for t k
    using that by (auto simp: quiet_effect_def list_ex_iff)
  have same: "calls (rn_log (execute env c plan0 a)) = calls (rn_log s1)"
    using quiet_calls [of s1 "show_workflow env plan s1"] show_workflow_effect [of s1 env plan] acts(1,2) by (simp add: x)
  have "out = LoopNext" if "EmitEnd ''turn-completed'' \<in> set (rn_log (execute env c plan0 a))"
  proof (cases out)
    case LoopReturn
    with that no_end [OF q(1)] show ?thesis by (simp add: x)
  next
    case LoopBreak
    with that x acts no_end [OF q(2)]
    have "rn_failure (show_workflow env plan s1) \<noteq> Some FailUnknown" "rn_state (show_workflow env plan s1) \<notin> {RequestFailed, RequestInterrupted}"
      by auto
    with follow(3) [OF LoopBreak] show_workflow_effect [of s1 env plan] show ?thesis by auto
  qed
  with follow ordered origin show ?thesis
    by (intro exI [of _ "xp_steps plan"]) (auto simp: same split: if_splits)
qed

text \<open>C39. Every item of an execution is in a saved list of items before it is shown.\<close>

theorem items_saved_before_shown: "saved_first {} (rn_log (execute env c plan0 a))"
proof -
  obtain plan s0 out s1 where p: "plan_automatic env c plan0 fresh_execution = (plan, s0)"
      and r: "run_steps env (xp_explicit plan) (length (xp_steps plan)) a 0 (xp_steps plan)
       (s0\<lparr>rn_receipts := map (\<lambda>p. (ps_step p, ''waiting'')) (xp_steps plan)\<rparr>) = (out, s1)"
      and x: "execute env c plan0 a = (if out = LoopReturn then s1 else report env (show_workflow env plan s1))"
    by (rule execute_parts)
  note q = execute_quiet [OF p r]
  obtain acts where acts: "rn_log (report env (show_workflow env plan s1)) = rn_log (show_workflow env plan s1) @ acts"
      "saved_first (known_after {} (rn_log (show_workflow env plan s1))) acts"
    by (rule report_effect)
  from q(1,2) acts show ?thesis by (simp add: x saved_first_append quiet_effect_def)
qed

text \<open>
  C40. When a statement of an execution failed, or a worker or the planning model left it unknown
  whether its work went out, no final state is recorded for the run, which so keeps its claim on
  the project, and nothing but a protocol error is reported.
\<close>

theorem uncertain_run_stays_open:
  assumes "list_ex unknown_action (rn_log (execute env c plan0 a))" "x \<in> set (rn_log (execute env c plan0 a))"
    "final_action x"
  shows "x = EmitEnd ''protocol-error''"
proof -
  obtain plan s0 out s1 where p: "plan_automatic env c plan0 fresh_execution = (plan, s0)"
      and r: "run_steps env (xp_explicit plan) (length (xp_steps plan)) a 0 (xp_steps plan)
       (s0\<lparr>rn_receipts := map (\<lambda>p. (ps_step p, ''waiting'')) (xp_steps plan)\<rparr>) = (out, s1)"
      and e: "execute env c plan0 a = (if out = LoopReturn then s1 else report env (show_workflow env plan s1))"
    by (rule execute_parts)
  note q = execute_quiet [OF p r]
  have quiet: "\<not> final_action y" if "quiet_effect fresh_execution t" "y \<in> set (rn_log t)" for t y
    using that by (auto simp: quiet_effect_def list_ex_iff)
  obtain acts where acts: "rn_log (report env (show_workflow env plan s1)) = rn_log (show_workflow env plan s1) @ acts"
      "\<not> list_ex unknown_action acts"
      "rn_failure (show_workflow env plan s1) = Some FailUnknown \<longrightarrow> set acts \<subseteq> {EmitEnd ''protocol-error''}"
    by (rule report_effect)
  show ?thesis
  proof (cases "out = LoopReturn")
    case True
    with assms(2,3) quiet [OF q(1)] show ?thesis by (simp add: e)
  next
    case False
    with assms(1) acts(1,2) q(3) have "rn_failure (show_workflow env plan s1) = Some FailUnknown" by (simp add: e)
    with acts False assms(2,3) quiet [OF q(2)] show ?thesis by (auto simp: e)
  qed
qed

lemma work_follows_plan_witness:
  "calls_follow demo_assignment demo_planned
     (calls (rn_log (execute (demo_run_env True) demo_team demo_plan demo_assignment))) \<and>
   length (calls (rn_log (execute (demo_run_env True) demo_team demo_plan demo_assignment))) = 2"
proof -
  have "\<not> xp_automatic demo_plan" "xp_steps demo_plan = demo_planned" "length demo_planned = 2"
    by (simp_all add: demo_plan_def no_plan_def demo_planned_def demo_steps_def)
  then show ?thesis
    using work_follows_plan [OF demo_plan_parsed, where env = "demo_run_env True" and a = demo_assignment] demo_completed_run
    by simp
qed

lemma uncertain_run_stays_open_witness:
  "{x \<in> set (rn_log (execute (demo_run_env False) demo_team demo_plan demo_assignment)). final_action x} =
     {EmitEnd ''protocol-error''}" (is "?E = _")
proof (rule equalityI)
  show "?E \<subseteq> {EmitEnd ''protocol-error''}"
    by (clarify, drule (1) uncertain_run_stays_open [OF demo_lost_run(1)], simp)
  show "{EmitEnd ''protocol-error''} \<subseteq> ?E" using demo_lost_run(2) by simp
qed

end
