(* ===== verification/Spec2Isabelle.thy ===== *)
theory Spec2Isabelle
  imports Room_Properties Admission_Properties Wire_Messages Daemon_Properties
    Client_Safe Client_Requests Client_Mirror Client_Pending
    Workgroup_Inferred Workgroup_Roster Remote_Jobs Workgroup_Execution
begin

text \<open>
  A verification development for the room daemon \<^verbatim>\<open>agent_romm\<close>: several people share one coding
  agent in a room; their prompts are accepted into an SQLite log, started one at a time as turns
  of the agent's thread, followed through the agent's events, and reconciled after a crash.

  \<^bold>\<open>Parts and theories.\<close>
  \<^item> \<open>Prelude\<close>: Go strings as byte lists, results as sums, transactions over a database
    (\<open>tx_bind\<close>, \<open>tx_guard\<close>, ...), updates of tables. \<open>Digest\<close> and \<open>Json\<close>: what the code uses
    of Go's \<^verbatim>\<open>unicode/utf8\<close>, \<^verbatim>\<open>encoding/hex\<close>, \<^verbatim>\<open>crypto/sha256\<close> and \<^verbatim>\<open>encoding/json\<close>, and of SQLite's
    \<^verbatim>\<open>json_extract\<close>.
  \<^item> \<open>Room_Types\<close>: \<^verbatim>\<open>internal/room/types.go\<close>, the data model and its validation.
  \<^item> \<open>Store_Schema\<close>, \<open>Store_Tasks\<close>, \<open>Store_Messages\<close>, \<open>Store_Recovery\<close>, \<open>Store_Connections\<close>,
    \<open>Store_Admission\<close>: the tables as records and every operation of \<^verbatim>\<open>internal/store\<close> on them as a
    transaction body under \<open>transact\<close>, which is \<^verbatim>\<open>transactConditional\<close>: a list of outcomes says for
    each transaction whether storage fails before it, rolls it back, or commits it and loses the
    reply.
  \<^item> \<open>Projection\<close>: \<^verbatim>\<open>internal/room/projection.go\<close>, the bounded live output of the running turn.
  \<^item> \<open>Coordinator\<close>: \<^verbatim>\<open>coordinator.go\<close>, \<^verbatim>\<open>recovery.go\<close>, \<^verbatim>\<open>questions.go\<close>: the state of the command loop, a
    definition per handler, and \<open>reachable\<close>, the runs of \<^verbatim>\<open>Run\<close> with restarts. Repository and
    agent are the interfaces of \<^verbatim>\<open>ports.go\<close>; the agent, which is another process, is an arbitrary
    function of the calls made so far.
  \<^item> \<open>Wire_Scan\<close>, \<open>Wire\<close>, \<open>Wire_Messages\<close>: \<^verbatim>\<open>internal/protocol\<close>: the strict scanners of
    \<^verbatim>\<open>validation.go\<close> and \<^verbatim>\<open>framing.go\<close>, frames, envelopes, the bodies of requests and the handshake.
  \<^item> \<open>Hub\<close>, \<open>Daemon\<close>: \<^verbatim>\<open>internal/daemon\<close>: the subscriptions of the event hub, the replay for a client
    that reconnects, and the session of a connection (\<^verbatim>\<open>ServeMember\<close>, \<^verbatim>\<open>dispatch\<close>), on the store and
    the coordinator of the other theories.
  \<^item> \<open>Daemon_Replay\<close>: the pages of a replay (\<^verbatim>\<open>daemon/replay.go\<close>) are exactly the log after a cursor.
  \<^item> \<open>Client_Text\<close>, \<open>Client_Projection\<close>, \<open>Client_Times\<close>, \<open>Client_Events\<close>: \<^verbatim>\<open>internal/client\<close>: command
    lines and the requests they become, the text it prints, its copy of the live projection, the
    text of times, and what it decodes of the bodies the daemon sends. \<open>Client\<close>: its session
    (\<^verbatim>\<open>client.go\<close>, \<^verbatim>\<open>cursor.go\<close>), one definition per event of the loop, with the reconnection.
  \<^item> \<open>Json_Structs\<close>: decoding into Go structures that already have values. \<open>Workgroup_Config\<close>,
    \<open>Workgroup_Plan\<close>: the worker agents of \<^verbatim>\<open>internal/workgroup\<close> and the plans of their work
    (\<^verbatim>\<open>config.go\<close>, \<^verbatim>\<open>plan.go\<close>, \<^verbatim>\<open>planner.go\<close>). \<open>Workgroup_Runtime\<close>: which submissions become work, and
    its execution (\<^verbatim>\<open>runtime.go\<close>). \<open>Workspace\<close>: snapshots of a project and their differences
    (\<^verbatim>\<open>workspace.go\<close>). \<open>Remote_Worker\<close>: the broker of workers on other machines (\<^verbatim>\<open>remote.go\<close>).

  \<^bold>\<open>Specification and refinement.\<close>
  \<^item> \<open>Store_Machine\<close>: what the store promises of the life cycle of messages, as a small labelled
    machine on the state and number of retries of each message. \<open>Store_Effects\<close> has the
    well-formedness of the tables and the few kinds of change the operations are made of;
    \<open>Store_Refinement\<close> shows that every operation implements its labels of the machine,
    whatever storage does.
  \<^item> \<open>Room_Contract\<close>: the locale \<open>room_repository\<close>, all the coordinator relies on, and the
    invariant of coordinator and store proved in it. \<open>Store_Contract\<close> interprets it on the
    SQLite store.
  \<^item> \<open>Store_Properties\<close>, \<open>Store_Lifecycle\<close>: histories of store operations: log, idempotency,
    terminal states, bindings, branches of transitions, recovery image, review decisions.
  \<^item> \<open>Room_Properties\<close>: runs of the coordinator on the store, and single handlers over any
    repository. \<open>Admission_Properties\<close>: histories of requests, decisions and connections.
  \<^item> \<open>Json_Roundtrip\<close>, \<open>Wire_Roundtrip\<close>: what the writer of documents and frames writes is what their
    readers read; \<open>Wire_Scan\<close> shows that the scanners accept exactly the documents they should.
  \<^item> \<open>Daemon_Properties\<close>: what a request can and cannot touch. \<open>Client_Requests\<close>: a typed line arrives
    at the daemon as the request it stands for. \<open>Client_Mirror\<close>: the client's projection refines the
    room's. \<open>Client_Safe\<close>: printed text is harmless, against a list of dangerous characters of its
    own. \<open>Client_Delivery\<close>: the frames of a replay bring a client up to date. \<open>Client_Life\<close>,
    \<open>Client_Pending\<close>: runs of a client over any number of sessions: no event is shown twice, no
    request is forgotten.
  \<^item> \<open>Workgroup_Order\<close>, \<open>Workgroup_Inferred\<close>: plans run every step once, after what it depends on, and
    end unless they have a cycle; plans of the model are checked like written ones.
    \<open>Workgroup_Roster\<close>: validated directories, against a specification of their members.
    \<open>Workgroup_Execution\<close>: what the log of an execution shows, for any behaviour of the database,
    the model and the workers. \<open>Workspace_Changes\<close>: differences are applied exactly or refused.
    \<open>Remote_Jobs\<close>: every history of the broker follows a small job automaton.

  \<^bold>\<open>Bounds.\<close> Every recursion terminates by itself: dispatch on the length of the queue, the
  rest structurally; the JSON parser takes fuel from the length of its input and the nesting
  limit of Go, and the strict scanners take \<open>2 * length s + 3\<close>, which is proved to be enough for
  every input (\<open>strict_json_exact\<close>). Identifiers of rows, sequence numbers and revisions are natural numbers; they
  are 64-bit counters in the code and grow by one per event.

  The execution of a plan takes no fuel: it goes once through the steps.

  \<^bold>\<open>Not modelled.\<close> Goroutines, channels and contexts (a canceled context is an error of the call
  that receives it), deadlines and loggers; the text of errors from the database driver, a
  parameter that reaches only digests; opening and migrating the database files; the client of
  the Codex process behind \<^verbatim>\<open>ports.go\<close>, whose behaviour is arbitrary here; of the workgroup, the
  writing of \<^verbatim>\<open>agents.json\<close>, the call of the planning model, the providers and their child
  processes, the disk copies of a project, the printed payload of items and the turns of a Codex
  member; questions, personal agents, shared resources and Git pushes, which work on files and
  child processes; the processes, sockets, terminal, network, web and chat front ends around the
  daemon; of \<^verbatim>\<open>encoding/json\<close>, what no component uses.
\<close>

end
